(* ===== verification/Prelude.thy ===== *)
theory Prelude
  imports Main "HOL-Library.Char_ord"
begin

text \<open>
  The shared vocabulary of the development: instants and durations, Go's 64-bit integers,
  results that are an error or a value, SQL-style statements over a table kept as a list
  of rows, decimal printing, UTF-8 decoding, and the abstract interfaces (locales) that the
  components implement.
\<close>

named_theorems result_simps \<open>inversion rules for results and guarded commands\<close>
named_theorems int64_simps \<open>range facts that remove the 64-bit wrap-around\<close>
named_theorems sql_simps \<open>rewriting of table statements\<close>

section \<open>Time\<close>

text \<open>
  Go's \<open>time.Time\<close> is an instant and \<open>time.Duration\<close> a length in nanoseconds. Both are
  \<open>int\<close>; \<open>t.After u\<close> is \<open>u < t\<close>, \<open>t.Before u\<close> is \<open>t < u\<close> and \<open>t.Add d\<close> is
  \<open>t + d\<close>.
\<close>

type_synonym time = int
type_synonym duration = int

definition Second :: duration where
  "Second = 1000000000"

definition Minute :: duration where
  "Minute = 60 * Second"

definition Hour :: duration where
  "Hour = 60 * Minute"

section \<open>Machine integers\<close>

text \<open>
  A Go \<open>int64\<close> (and \<open>int\<close> on the deployed 64-bit targets) is an \<open>int\<close> in
  \<open>[-2^63, 2^63)\<close>; every arithmetic operation the source performs on one is followed by
  \<open>wrap64\<close>, the two's complement wrap-around.
\<close>

definition wrap64 :: "int \<Rightarrow> int" where
  "wrap64 x = (x + 9223372036854775808) mod 18446744073709551616 - 9223372036854775808"

definition int64 :: "int \<Rightarrow> bool" where
  "int64 x \<longleftrightarrow> -9223372036854775808 \<le> x \<and> x < 9223372036854775808"

lemma wrap64_id [int64_simps]: "int64 x \<Longrightarrow> wrap64 x = x"
  by (simp add: wrap64_def int64_def)

lemma int64_wrap64: "int64 (wrap64 x)"
  by (simp add: wrap64_def int64_def)

section \<open>Results\<close>

text \<open>
  A fallible operation returns \<open>Inl e\<close> or \<open>Inr v\<close>. \<open>bindE\<close> is the early return
  \<open>if err != nil { return err }\<close>; \<open>ensureE c e\<close> is \<open>if !c { return e }\<close>.
\<close>

fun bindE :: "'e + 'a \<Rightarrow> ('a \<Rightarrow> 'e + 'b) \<Rightarrow> 'e + 'b" where
  "bindE (Inl e) k = Inl e"
| "bindE (Inr x) k = k x"

definition ensureE :: "bool \<Rightarrow> 'e \<Rightarrow> 'e + unit" where
  "ensureE c e = (if c then Inr () else Inl e)"

lemma bindE_Inr_iff [result_simps]:
  "bindE m k = Inr y \<longleftrightarrow> (\<exists>x. m = Inr x \<and> k x = Inr y)"
  by (cases m) auto

lemma bindE_Inl_iff [result_simps]:
  "bindE m k = Inl e \<longleftrightarrow> m = Inl e \<or> (\<exists>x. m = Inr x \<and> k x = Inl e)"
  by (cases m) auto

lemma ensureE_Inr_iff [result_simps]: "ensureE c e = Inr u \<longleftrightarrow> c"
  by (simp add: ensureE_def)

lemma ensureE_Inl_iff [result_simps]: "ensureE c e = Inl e' \<longleftrightarrow> \<not> c \<and> e' = e"
  by (auto simp: ensureE_def)

lemma ensureE_simps [simp]:
  "ensureE True e = Inr ()" "ensureE False e = Inl e"
  by (simp_all add: ensureE_def)

lemma if_Inl_eq_Inr [result_simps]: "(if c then Inl e else m) = Inr y \<longleftrightarrow> \<not> c \<and> m = Inr y"
  by simp

definition isOk :: "'e + 'a \<Rightarrow> bool" where
  "isOk m = (case m of Inl _ \<Rightarrow> False | Inr _ \<Rightarrow> True)"

lemma isOk_simps [simp]: "isOk (Inl e) = False" "isOk (Inr x) = True"
  by (simp_all add: isOk_def)

lemma isOk_iff: "isOk m \<longleftrightarrow> (\<exists>x. m = Inr x)"
  by (cases m) auto

section \<open>Tables\<close>

text \<open>
  A database table is the list of its rows. \<open>update_where P f t\<close> is
  \<open>update t set f where P\<close>, \<open>filter P t\<close> is \<open>select .. where P\<close>, and \<open>find_row\<close>
  is a \<open>select\<close> by a unique key, \<open>None\<close> standing for \<open>pgx.ErrNoRows\<close>.
\<close>

definition update_where :: "('r \<Rightarrow> bool) \<Rightarrow> ('r \<Rightarrow> 'r) \<Rightarrow> 'r list \<Rightarrow> 'r list" where
  "update_where P f t = map (\<lambda>r. if P r then f r else r) t"

definition find_row :: "('r \<Rightarrow> bool) \<Rightarrow> 'r list \<Rightarrow> 'r option" where
  "find_row P t = List.find P t"

lemma update_where_simps [simp, sql_simps]:
  "update_where P f [] = []"
  "update_where P f (r # t) = (if P r then f r else r) # update_where P f t"
  "length (update_where P f t) = length t"
  by (simp_all add: update_where_def)

lemma map_update_where [sql_simps]:
  assumes "\<And>r. P r \<Longrightarrow> g (f r) = g r"
  shows "map g (update_where P f t) = map g t"
  using assms by (induction t) auto

lemma set_update_where:
  "set (update_where P f t) = f ` {r \<in> set t. P r} \<union> {r \<in> set t. \<not> P r}"
  by (induction t) auto

lemma update_where_cong:
  assumes "\<And>r. r \<in> set t \<Longrightarrow> P r = Q r" and "\<And>r. r \<in> set t \<Longrightarrow> Q r \<Longrightarrow> f r = g r"
  shows "update_where P f t = update_where Q g t"
  using assms by (induction t) auto

lemma find_row_Some_iff:
  assumes "distinct (map k t)"
  shows "find_row (\<lambda>r. k r = i) t = Some r \<longleftrightarrow> r \<in> set t \<and> k r = i"
  using assms by (induction t) (auto simp: find_row_def)

lemma find_row_SomeD: "find_row P t = Some r \<Longrightarrow> r \<in> set t \<and> P r"
  by (auto simp: find_row_def find_Some_iff)

lemma find_row_None_iff: "find_row P t = None \<longleftrightarrow> (\<forall>r \<in> set t. \<not> P r)"
  by (auto simp: find_row_def find_None_iff)

lemma find_row_simps [simp]:
  "find_row P [] = None"
  "find_row P (r # t) = (if P r then Some r else find_row P t)"
  by (simp_all add: find_row_def)

lemma find_row_append: "find_row P (t @ u) = (case find_row P t of None \<Rightarrow> find_row P u | Some r \<Rightarrow> Some r)"
  by (induction t) auto

lemma find_row_append_hit: "find_row P t = Some x \<Longrightarrow> find_row P (t @ u) = Some x"
  by (simp add: find_row_append)

lemma case_option_Inr: "(case m of None \<Rightarrow> Inl e | Some x \<Rightarrow> f x) = Inr y \<longleftrightarrow> (\<exists>x. m = Some x \<and> f x = Inr y)"
  by (cases m) auto

text \<open>Counting the rows a predicate holds for, as an \<open>int\<close>.\<close>

definition count_where :: "('r \<Rightarrow> bool) \<Rightarrow> 'r list \<Rightarrow> int" where
  "count_where P t = int (length (filter P t))"

lemma count_where_simps [simp]:
  "count_where P [] = 0"
  "count_where P (r # t) = (if P r then 1 else 0) + count_where P t"
  by (simp_all add: count_where_def)

lemma count_where_nonneg [simp]: "0 \<le> count_where P t"
  by (simp add: count_where_def)

lemma count_where_append [simp]: "count_where P (t @ u) = count_where P t + count_where P u"
  by (simp add: count_where_def)

lemma count_where_cong:
  "(\<And>r. r \<in> set t \<Longrightarrow> P r = Q r) \<Longrightarrow> count_where P t = count_where Q t"
  by (induction t) auto

lemma count_where_zero: "(\<And>r. r \<in> set t \<Longrightarrow> \<not> P r) \<Longrightarrow> count_where P t = 0"
  by (induction t) auto

text \<open>
  The effect of an \<open>update\<close> on a count, when the update decides the counted predicate on
  the rows it touches.
\<close>

lemma count_where_update:
  assumes "\<And>r. P r \<Longrightarrow> Q (f r) = Q' r"
  shows "count_where Q (update_where P f t)
    = count_where Q t - count_where (\<lambda>r. P r \<and> Q r) t + count_where (\<lambda>r. P r \<and> Q' r) t"
  using assms by (induction t) auto

lemma count_where_key:
  assumes "distinct (map k t)" and "r \<in> set t"
  shows "count_where (\<lambda>x. k x = k r \<and> Q x) t = (if Q r then 1 else 0)"
  using assms
proof (induction t)
  case Nil
  then show ?case by simp
next
  case (Cons x t)
  have rest: "count_where (\<lambda>y. k y = k x \<and> Q y) t = 0"
    using Cons.prems(1) by (intro count_where_zero) (metis distinct.simps(2) image_eqI list.simps(9) set_map)
  show ?case
  proof (cases "r = x")
    case True
    with rest show ?thesis by simp
  next
    case False
    with Cons.prems have "r \<in> set t" and "k x \<noteq> k r" by auto
    with Cons show ?thesis by auto
  qed
qed

section \<open>Decimal printing\<close>

text \<open>\<open>strconv.FormatInt(n, 10)\<close> and the verb \<open>%d\<close>.\<close>

fun show_nat :: "nat \<Rightarrow> string" where
  "show_nat n = (if n < 10 then [char_of (48 + n)]
     else show_nat (n div 10) @ [char_of (48 + n mod 10)])"

declare show_nat.simps [simp del]

definition show_int :: "int \<Rightarrow> string" where
  "show_int i = (if i < 0 then CHR ''-'' # show_nat (nat (- i)) else show_nat (nat i))"

definition digit_val :: "char \<Rightarrow> nat" where
  "digit_val c = of_char c - 48"

definition read_nat :: "string \<Rightarrow> nat" where
  "read_nat s = fold (\<lambda>c a. 10 * a + digit_val c) s 0"

lemma digit_val_char: "n < 10 \<Longrightarrow> digit_val (char_of (48 + n)) = n"
  by (simp add: digit_val_def)

lemma read_show_nat: "read_nat (show_nat n) = n"
proof (induction n rule: show_nat.induct)
  case (1 n)
  show ?case
  proof (cases "n < 10")
    case True
    then show ?thesis
      by (subst show_nat.simps) (simp add: read_nat_def digit_val_char)
  next
    case False
    then have "read_nat (show_nat (n div 10)) = n div 10"
      using "1.IH" by blast
    with False show ?thesis
      by (subst show_nat.simps) (simp add: read_nat_def digit_val_char)
  qed
qed

lemma show_nat_inj: "show_nat m = show_nat n \<longleftrightarrow> m = n"
  by (metis read_show_nat)

lemma show_nat_digits: "c \<in> set (show_nat n) \<Longrightarrow> 48 \<le> (of_char c :: nat) \<and> (of_char c :: nat) < 58"
proof (induction n rule: show_nat.induct)
  case (1 n)
  then show ?case
    by (subst (asm) (2) show_nat.simps) (auto split: if_splits)
qed

lemma show_int_chars: "c \<in> set (show_int i) \<Longrightarrow> 45 \<le> (of_char c :: nat)"
  by (auto simp: show_int_def dest!: show_nat_digits split: if_splits)

lemma minus_notin_show_nat: "CHR ''-'' \<notin> set (show_nat n)"
  using show_nat_digits [of "CHR ''-''" n] by auto

lemma show_int_inj: "show_int i = show_int j \<longleftrightarrow> i = j"
proof
  assume eq: "show_int i = show_int j"
  have neg: "CHR ''-'' \<in> set (show_int i) \<longleftrightarrow> i < 0" for i
    using minus_notin_show_nat by (auto simp: show_int_def)
  from eq neg [of i] neg [of j] have "i < 0 \<longleftrightarrow> j < 0" by simp
  with eq show "i = j"
    by (auto simp: show_int_def show_nat_inj split: if_splits)
qed simp

section \<open>UTF-8\<close>

text \<open>
  Go's \<open>utf8.DecodeRune\<close> on a byte sequence, \<open>None\<close> where it reports \<open>RuneError\<close> with width
  1: surrogates, overlong forms and code points above \<open>0x10FFFF\<close> are not accepted.
\<close>

definition utf8_cont :: "nat \<Rightarrow> bool" where
  "utf8_cont b \<longleftrightarrow> 0x80 \<le> b \<and> b \<le> 0xBF"

definition decode_rune :: "nat list \<Rightarrow> (nat \<times> nat list) option" where
  "decode_rune bs = (case bs of [] \<Rightarrow> None | b0 # r0 \<Rightarrow>
     if b0 < 0x80 then Some (b0, r0)
     else case r0 of [] \<Rightarrow> None | b1 # r1 \<Rightarrow>
     if 0xC2 \<le> b0 \<and> b0 \<le> 0xDF then
       (if utf8_cont b1 then Some ((b0 - 0xC0) * 64 + (b1 - 0x80), r1) else None)
     else case r1 of [] \<Rightarrow> None | b2 # r2 \<Rightarrow>
     if 0xE0 \<le> b0 \<and> b0 \<le> 0xEF then
       (if utf8_cont b1 \<and> (b0 = 0xE0 \<longrightarrow> 0xA0 \<le> b1) \<and> (b0 = 0xED \<longrightarrow> b1 \<le> 0x9F) \<and> utf8_cont b2
        then Some ((b0 - 0xE0) * 4096 + (b1 - 0x80) * 64 + (b2 - 0x80), r2) else None)
     else case r2 of [] \<Rightarrow> None | b3 # r3 \<Rightarrow>
     if 0xF0 \<le> b0 \<and> b0 \<le> 0xF4 then
       (if utf8_cont b1 \<and> (b0 = 0xF0 \<longrightarrow> 0x90 \<le> b1) \<and> (b0 = 0xF4 \<longrightarrow> b1 \<le> 0x8F) \<and>
           utf8_cont b2 \<and> utf8_cont b3
        then Some ((b0 - 0xF0) * 262144 + (b1 - 0x80) * 4096 + (b2 - 0x80) * 64 + (b3 - 0x80), r3)
        else None)
     else None)"

lemma decode_rune_shorter: "decode_rune bs = Some (r, rest) \<Longrightarrow> length rest < length bs"
  by (auto simp: decode_rune_def split: list.splits if_splits)

text \<open>The runes of a valid string in order; \<open>None\<close> is \<open>!utf8.ValidString\<close>.\<close>

function utf8_runes :: "nat list \<Rightarrow> nat list option" where
  "utf8_runes bs = (if bs = [] then Some []
     else case decode_rune bs of None \<Rightarrow> None
       | Some p \<Rightarrow> map_option ((#) (fst p)) (utf8_runes (snd p)))"
  by pat_completeness auto
termination
  by (relation "measure length") (auto dest: decode_rune_shorter)

declare utf8_runes.simps [simp del]

text \<open>
  A rune below \<open>0x80\<close> is encoded as itself, and every byte of a longer encoding is at least
  \<open>0x80\<close>.
\<close>

lemma decode_rune_cases:
  assumes "decode_rune bs = Some (r, rest)"
  obtains (ascii) "r < 0x80" "bs = r # rest"
    | (multi) pre where "0x80 \<le> r" "bs = pre @ rest" "\<forall>b \<in> set pre. 0x80 \<le> b"
proof -
  have "(r < 0x80 \<and> bs = r # rest) \<or>
    (0x80 \<le> r \<and> (\<exists>pre. bs = pre @ rest \<and> (\<forall>b \<in> set pre. 0x80 \<le> b)))"
  proof (cases bs)
    case Nil
    with assms show ?thesis by (simp add: decode_rune_def)
  next
    case (Cons b0 r0)
    show ?thesis
    proof (cases "b0 < 0x80")
      case True
      with assms Cons show ?thesis by (auto simp: decode_rune_def)
    next
      case False
      with assms Cons have "\<exists>b1 r1. r0 = b1 # r1 \<and> 0x80 \<le> b1 \<and>
          (rest = r1 \<or> (\<exists>b2 r2. r1 = b2 # r2 \<and> 0x80 \<le> b2 \<and>
            (rest = r2 \<or> (\<exists>b3 r3. r2 = b3 # r3 \<and> 0x80 \<le> b3 \<and> rest = r3))))"
        by (auto simp: decode_rune_def utf8_cont_def split: list.splits if_splits)
      moreover have "0x80 \<le> r"
        using assms Cons False
        by (auto simp: decode_rune_def utf8_cont_def split: list.splits if_splits)
      moreover have "0x80 \<le> b0" using False by simp
      ultimately show ?thesis
        using Cons
        by (auto intro: exI [of _ "[b0, x]" for x] exI [of _ "[b0, x, y]" for x y]
            exI [of _ "[b0, x, y, z]" for x y z])
    qed
  qed
  then show thesis using that by blast
qed

lemma utf8_runes_ascii:
  "utf8_runes bs = Some rs \<Longrightarrow> {r \<in> set rs. r < 0x80} = {b \<in> set bs. b < 0x80}"
proof (induction bs arbitrary: rs rule: utf8_runes.induct)
  case (1 bs)
  show ?case
  proof (cases "bs = []")
    case True
    with "1.prems" show ?thesis by (simp add: utf8_runes.simps)
  next
    case False
    with "1.prems" obtain r rest rs' where d: "decode_rune bs = Some (r, rest)"
        and rs': "utf8_runes rest = Some rs'" "rs = r # rs'"
      by (subst (asm) utf8_runes.simps) (auto split: option.splits)
    have IH: "{r \<in> set rs'. r < 0x80} = {b \<in> set rest. b < 0x80}"
      using "1.IH" [OF False d] rs'(1) by simp
    from d show ?thesis
    proof (cases rule: decode_rune_cases)
      case ascii
      with IH rs'(2) show ?thesis by auto
    next
      case (multi pre)
      with IH rs'(2) show ?thesis by fastforce
    qed
  qed
qed

section \<open>Separated text\<close>

text \<open>
  A text splits uniquely at a separator that does not occur in the part before it, and at one
  that does not occur in the part after it.
\<close>

lemma split_at_first:
  assumes "c \<notin> set a" and "c \<notin> set b"
  shows "a @ c # xs = b @ c # ys \<longleftrightarrow> a = b \<and> xs = ys"
  using assms
proof (induction a arbitrary: b)
  case Nil
  then show ?case by (cases b) auto
next
  case (Cons x a)
  then show ?case by (cases b) auto
qed

lemma split_at_last:
  assumes "c \<notin> set a" and "c \<notin> set b"
  shows "xs @ c # a = ys @ c # b \<longleftrightarrow> xs = ys \<and> a = b"
proof -
  have "xs @ c # a = ys @ c # b \<longleftrightarrow> rev a @ c # rev xs = rev b @ c # rev ys"
    by (metis append.assoc append_Cons append_Nil rev.simps(2) rev_append rev_rev_ident)
  also have "\<dots> \<longleftrightarrow> xs = ys \<and> a = b"
    using assms by (subst split_at_first) auto
  finally show ?thesis .
qed

section \<open>Names\<close>

text \<open>
  The regular expression \<open>^[A-Za-z0-9][A-Za-z0-9._:-]{0,127}$\<close> that
  \<open>internal/domain\<close> uses for task types and \<open>internal/run\<close> for identifiers.
\<close>

definition alnum :: "char \<Rightarrow> bool" where
  "alnum c \<longleftrightarrow> (let n = (of_char c :: nat) in
     (65 \<le> n \<and> n \<le> 90) \<or> (97 \<le> n \<and> n \<le> 122) \<or> (48 \<le> n \<and> n \<le> 57))"

definition name_pattern :: "string \<Rightarrow> bool" where
  "name_pattern s \<longleftrightarrow> (case s of [] \<Rightarrow> False | c # cs \<Rightarrow>
     alnum c \<and> length cs \<le> 127 \<and> list_all (\<lambda>d. alnum d \<or> d \<in> set ''._:-'') cs)"

lemma name_pattern_bounds: "name_pattern s \<Longrightarrow> s \<noteq> [] \<and> length s \<le> 128"
  by (auto simp: name_pattern_def split: list.splits)

lemma alnum_newline [simp]: "\<not> alnum (CHR 0x0A)"
  by (simp add: alnum_def)

lemma name_pattern_no_newline: "name_pattern s \<Longrightarrow> CHR 0x0A \<notin> set s"
proof -
  assume "name_pattern s"
  then have "c \<in> set s \<Longrightarrow> alnum c \<or> c \<in> set ''._:-''" for c
    by (auto simp: name_pattern_def list_all_iff split: list.splits)
  from this [of "CHR 0x0A"] show ?thesis by auto
qed

section \<open>More on tables\<close>

lemma ball_update_where:
  assumes "\<And>r. r \<in> set t \<Longrightarrow> \<not> P r \<Longrightarrow> Q r" and "\<And>r. r \<in> set t \<Longrightarrow> P r \<Longrightarrow> Q (f r)"
  shows "\<forall>r \<in> set (update_where P f t). Q r"
  using assms by (auto simp: set_update_where)

lemma filter_update_where_other:
  assumes "\<And>r. P r \<Longrightarrow> \<not> Q r \<and> \<not> Q (f r)"
  shows "filter Q (update_where P f t) = filter Q t"
  using assms by (induction t) auto

lemma filter_update_where:
  assumes "\<And>r. P r \<Longrightarrow> Q (f r) = Q r"
  shows "filter Q (update_where P f t) = update_where P f (filter Q t)"
  using assms by (induction t) auto

lemma find_row_update_where:
  assumes "\<And>r. Q (f r) = Q r"
  shows "find_row Q (update_where P f t) = map_option (\<lambda>r. if P r then f r else r) (find_row Q t)"
  by (induction t) (simp_all add: assms)

text \<open>A table of counters is a list of pairs; updating values leaves the keys.\<close>

lemma map_of_update_where:
  assumes "\<And>r. P r \<Longrightarrow> fst (f r) = fst r"
  shows "map_of (update_where P f q) k =
    map_option (\<lambda>v. if P (k, v) then snd (f (k, v)) else v) (map_of q k)"
proof (induction q)
  case (Cons a q)
  obtain k' v where a: "a = (k', v)" by (cases a)
  have "fst (f a) = k'" if "P a"
    using assms [OF that] a by simp
  with Cons.IH a show ?case by auto
qed simp

lemma distinct_fst_update_where:
  assumes "\<And>r. P r \<Longrightarrow> fst (f r) = fst r"
  shows "distinct (map fst (update_where P f q)) = distinct (map fst q)"
  using map_update_where [where g = fst and P = P and f = f] assms by metis

section \<open>Transition systems\<close>

text \<open>
  The states reached from a start state by steps, and the interface of an inductive invariant:
  a component that proves \<open>init\<close> and \<open>preserve\<close> for its own steps gets the invariant in every
  reachable state.
\<close>

inductive reachable :: "('s \<Rightarrow> bool) \<Rightarrow> ('s \<Rightarrow> 's \<Rightarrow> bool) \<Rightarrow> 's \<Rightarrow> bool" for start step where
  reachable_start: "start s \<Longrightarrow> reachable start step s"
| reachable_step: "reachable start step s \<Longrightarrow> step s s' \<Longrightarrow> reachable start step s'"

locale inductive_invariant =
  fixes start :: "'s \<Rightarrow> bool" and step :: "'s \<Rightarrow> 's \<Rightarrow> bool" and inv :: "'s \<Rightarrow> bool"
  assumes init: "start s \<Longrightarrow> inv s"
    and preserve: "step s s' \<Longrightarrow> inv s \<Longrightarrow> inv s'"
begin

lemma invariant: "reachable start step s \<Longrightarrow> inv s"
  by (induction rule: reachable.induct) (auto intro: init preserve)

lemma invariant_steps: "inv s \<Longrightarrow> step\<^sup>*\<^sup>* s s' \<Longrightarrow> inv s'"
  by (rotate_tac, induction rule: rtranclp_induct) (auto intro: preserve)

end

text \<open>
  A store of fenced resources: \<open>token\<close> is the current fencing token of a resource (\<open>0\<close> before
  the first grant), \<open>admits\<close> says that a write presenting a token would be let through. A
  provider promises that tokens never fall and that only the current token is admitted; then a
  token that has been superseded is refused for ever.
\<close>

locale fenced_store = inductive_invariant start step inv
  for start :: "'s \<Rightarrow> bool" and step :: "'s \<Rightarrow> 's \<Rightarrow> bool" and inv :: "'s \<Rightarrow> bool" +
  fixes token :: "'s \<Rightarrow> 'k \<Rightarrow> int" and admits :: "'s \<Rightarrow> 'k \<Rightarrow> int \<Rightarrow> bool"
  assumes token_mono: "step s s' \<Longrightarrow> inv s \<Longrightarrow> token s k \<le> token s' k"
    and admits_current: "inv s \<Longrightarrow> admits s k t \<Longrightarrow> t = token s k"
begin

lemma token_mono_steps: "inv s \<Longrightarrow> step\<^sup>*\<^sup>* s s' \<Longrightarrow> token s k \<le> token s' k"
proof (rotate_tac, induction rule: rtranclp_induct)
  case (step y z)
  then have "inv y" by (blast intro: invariant_steps)
  with step show ?case using token_mono [of y z k] by simp
qed simp

lemma superseded_for_ever:
  assumes "inv s" and "t < token s k" and "step\<^sup>*\<^sup>* s s'"
  shows "\<not> admits s' k t"
  using assms token_mono_steps [OF assms(1,3), of k] invariant_steps [OF assms(1,3)] admits_current
  by fastforce

end

end
