(* ===== verification/TaskCatalog.thy ===== *)
theory TaskCatalog
  imports Prelude "HOL-Library.List_Lexorder"
begin

text \<open>
  \<open>internal/domain/task_type_catalog.go\<close>: the deployment's allowlist of task types, kept in
  sorted order with a fingerprint over the canonical list. The SHA-256 of the fingerprint is
  the argument \<open>sha\<close>; a \<open>nil\<close> receiver is \<open>None\<close>.
\<close>

section \<open>The catalog\<close>

record TaskTypeCatalog =
  cat_types :: "string list"
  cat_allowed :: "string set"
  cat_fingerprint :: string

datatype catalog_error = CatalogEmpty | BadTaskType string | DuplicateTaskType string

definition defaultTaskTypeNames :: "string list" where
  "defaultTaskTypeNames = [''demo.echo'', ''demo.fail'', ''demo.http'', ''demo.idempotent_effect'',
     ''demo.sleep'', ''rag.index'', ''agent.extract'']"

definition ValidateTaskTypeName :: "string \<Rightarrow> catalog_error + unit" where
  "ValidateTaskTypeName taskType =
     (if \<not> name_pattern taskType then Inl (BadTaskType taskType) else Inr ())"

text \<open>The loop of \<open>NewTaskTypeCatalog\<close>, carrying \<open>canonical\<close> and \<open>allowed\<close>.\<close>

fun catalog_loop :: "string list \<Rightarrow> string list \<Rightarrow> string set \<Rightarrow> catalog_error + (string list \<times> string set)" where
  "catalog_loop [] canonical allowed = Inr (canonical, allowed)"
| "catalog_loop (t # ts) canonical allowed =
     bindE (ValidateTaskTypeName t) (\<lambda>_.
       if t \<in> allowed then Inl (DuplicateTaskType t)
       else catalog_loop ts (canonical @ [t]) (insert t allowed))"

fun join_lines :: "string list \<Rightarrow> string" where
  "join_lines [] = ''''"
| "join_lines [x] = x"
| "join_lines (x # xs) = x @ [CHR 0x0A] @ join_lines xs"

definition NewTaskTypeCatalog :: "(string \<Rightarrow> string) \<Rightarrow> string list \<Rightarrow> catalog_error + TaskTypeCatalog" where
  "NewTaskTypeCatalog sha taskTypes =
     (if taskTypes = [] then Inl CatalogEmpty
      else bindE (catalog_loop taskTypes [] {}) (\<lambda>(canonical, allowed).
        let types = sort canonical in
        Inr \<lparr>cat_types = types, cat_allowed = allowed, cat_fingerprint = sha (join_lines types)\<rparr>))"

definition Contains :: "TaskTypeCatalog option \<Rightarrow> string \<Rightarrow> bool" where
  "Contains c taskType = (case c of None \<Rightarrow> False | Some c \<Rightarrow> taskType \<in> cat_allowed c)"

definition Types :: "TaskTypeCatalog option \<Rightarrow> string list" where
  "Types c = (case c of None \<Rightarrow> [] | Some c \<Rightarrow> cat_types c)"

definition Size :: "TaskTypeCatalog option \<Rightarrow> nat" where
  "Size c = (case c of None \<Rightarrow> 0 | Some c \<Rightarrow> length (cat_types c))"

definition Fingerprint :: "TaskTypeCatalog option \<Rightarrow> string" where
  "Fingerprint c = (case c of None \<Rightarrow> '''' | Some c \<Rightarrow> cat_fingerprint c)"

section \<open>Correctness\<close>

lemma catalog_loop_Inr:
  "catalog_loop ts canonical allowed = Inr r \<longleftrightarrow>
    list_all name_pattern ts \<and> distinct ts \<and> set ts \<inter> allowed = {} \<and>
    r = (canonical @ ts, allowed \<union> set ts)"
  by (induction ts arbitrary: canonical allowed)
    (auto simp: ValidateTaskTypeName_def result_simps)

lemma NewTaskTypeCatalog_Inr:
  "NewTaskTypeCatalog sha ts = Inr c \<longleftrightarrow>
    ts \<noteq> [] \<and> list_all name_pattern ts \<and> distinct ts \<and>
    c = \<lparr>cat_types = sort ts, cat_allowed = set ts, cat_fingerprint = sha (join_lines (sort ts))\<rparr>"
  by (auto simp: NewTaskTypeCatalog_def result_simps catalog_loop_Inr Let_def)

text \<open>
  Distinct newline-free names are recovered from the text that is hashed, so two catalogs with
  one fingerprint differ only where SHA-256 collides.
\<close>

lemma join_lines_no_newline: "CHR 0x0A \<notin> set x \<Longrightarrow> join_lines [x] = x" by simp

lemma join_lines_Cons: "xs \<noteq> [] \<Longrightarrow> join_lines (x # xs) = x @ CHR 0x0A # join_lines xs"
  by (cases xs) auto

lemma join_lines_inj:
  assumes "xs \<noteq> []" "ys \<noteq> []"
    and "\<forall>x \<in> set xs. CHR 0x0A \<notin> set x" "\<forall>y \<in> set ys. CHR 0x0A \<notin> set y"
    and "join_lines xs = join_lines ys"
  shows "xs = ys"
  using assms
proof (induction xs arbitrary: ys)
  case (Cons x xs)
  obtain y ys' where ys: "ys = y # ys'" using Cons.prems(2) by (cases ys) auto
  have x: "CHR 0x0A \<notin> set x" and y: "CHR 0x0A \<notin> set y" using Cons.prems ys by auto
  consider "xs = []" "ys' = []" | "xs \<noteq> []" "ys' = []" | "xs = []" "ys' \<noteq> []" | "xs \<noteq> []" "ys' \<noteq> []"
    by blast
  then show ?case
  proof cases
    case 4
    with Cons.prems(5) ys have "x = y" and "join_lines xs = join_lines ys'"
      using x y by (auto simp: join_lines_Cons split_at_first)
    with Cons.IH [of ys'] Cons.prems(3,4) 4 ys show ?thesis by simp
  qed (use Cons.prems(5) ys x y in \<open>auto simp: join_lines_Cons\<close>)
qed simp

text \<open>Two accepted task type lists give the same catalog fingerprint exactly when they are
  permutations of one another (SHA-256 not colliding on the two canonical texts): start-up order
  never changes the fingerprint, and drift always does.\<close>

theorem catalog_fingerprint_identifies_set:
  assumes "NewTaskTypeCatalog sha ts = Inr c" and "NewTaskTypeCatalog sha us = Inr d"
    and no_collision: "sha (join_lines (sort ts)) = sha (join_lines (sort us)) \<Longrightarrow>
      join_lines (sort ts) = join_lines (sort us)"
  shows "Fingerprint (Some c) = Fingerprint (Some d) \<longleftrightarrow> set ts = set us"
proof
  have c: "ts \<noteq> []" "list_all name_pattern ts" "distinct ts"
      and d: "us \<noteq> []" "list_all name_pattern us" "distinct us"
      and fp: "cat_fingerprint c = sha (join_lines (sort ts))"
        "cat_fingerprint d = sha (join_lines (sort us))"
    using assms(1,2) by (auto simp: NewTaskTypeCatalog_Inr)
  show "set ts = set us" if "Fingerprint (Some c) = Fingerprint (Some d)"
  proof -
    from that have "join_lines (sort ts) = join_lines (sort us)"
      using no_collision fp by (simp add: Fingerprint_def)
    moreover have "\<forall>x \<in> set (sort ts). CHR 0x0A \<notin> set x" "\<forall>x \<in> set (sort us). CHR 0x0A \<notin> set x"
      using c d by (auto simp: list_all_iff name_pattern_no_newline)
    moreover have "sort ts \<noteq> []" "sort us \<noteq> []"
      using c(1) d(1) by (metis set_empty set_sort)+
    ultimately have "sort ts = sort us" by (rule_tac join_lines_inj)
    then show ?thesis by (metis set_sort)
  qed
  show "Fingerprint (Some c) = Fingerprint (Some d)" if "set ts = set us"
  proof -
    from that c d have "sort ts = sort us"
      by (metis sorted_list_of_set_sort_remdups distinct_remdups_id)
    with fp show ?thesis by (simp add: Fingerprint_def)
  qed
qed

theorem catalog_fingerprint_identifies_set_witness:
  "Fingerprint (Some \<lparr>cat_types = [''a'', ''b''], cat_allowed = {''b'', ''a''}, cat_fingerprint = [CHR ''a'', CHR 0x0A, CHR ''b'']\<rparr>)
   = Fingerprint (Some \<lparr>cat_types = [''a'', ''b''], cat_allowed = {''a'', ''b''}, cat_fingerprint = [CHR ''a'', CHR 0x0A, CHR ''b'']\<rparr>)
   \<longleftrightarrow> set [''b'', ''a''] = set [''a'', ''b'']"
proof (rule catalog_fingerprint_identifies_set [of "\<lambda>x. x"])
  show "NewTaskTypeCatalog (\<lambda>x. x) [''b'', ''a''] = Inr \<lparr>cat_types = [''a'', ''b''],
      cat_allowed = {''b'', ''a''}, cat_fingerprint = [CHR ''a'', CHR 0x0A, CHR ''b'']\<rparr>"
    by (simp add: NewTaskTypeCatalog_Inr name_pattern_def alnum_def insort_key_def less_char_def less_eq_char_def)
  show "NewTaskTypeCatalog (\<lambda>x. x) [''a'', ''b''] = Inr \<lparr>cat_types = [''a'', ''b''],
      cat_allowed = {''a'', ''b''}, cat_fingerprint = [CHR ''a'', CHR 0x0A, CHR ''b'']\<rparr>"
    by (simp add: NewTaskTypeCatalog_Inr name_pattern_def alnum_def insort_key_def less_char_def less_eq_char_def)
qed simp

end
