(* ===== verification/JobDomain.thy ===== *)
theory JobDomain
  imports Prelude
begin

text \<open>
  The Job aggregate of \<open>internal/domain\<close>: its state machine (\<open>state.go\<close>), its errors
  (\<open>errors.go\<close>), the record \<open>Job\<close> with the operations that change it (\<open>job.go\<close>,
  \<open>result.go\<close>), the retry delay and the request hash. Error messages are the only part of
  these files left out.
\<close>

section \<open>States\<close>

datatype JobState =
    StateScheduled | StateReady | StateRunning | StateCancelling
  | StateRetryWait | StateSucceeded | StateDead | StateCancelled

fun IsTerminal :: "JobState \<Rightarrow> bool" where
  "IsTerminal StateSucceeded = True"
| "IsTerminal StateDead = True"
| "IsTerminal StateCancelled = True"
| "IsTerminal _ = False"

fun validTransitions :: "JobState \<Rightarrow> JobState list option" where
  "validTransitions StateScheduled = Some [StateReady, StateCancelled]"
| "validTransitions StateReady = Some [StateRunning, StateCancelled]"
| "validTransitions StateRunning =
     Some [StateSucceeded, StateRetryWait, StateDead, StateReady, StateCancelling]"
| "validTransitions StateCancelling = Some [StateCancelled]"
| "validTransitions StateRetryWait = Some [StateReady, StateCancelled]"
| "validTransitions StateSucceeded = Some []"
| "validTransitions StateDead = Some []"
| "validTransitions StateCancelled = Some []"

definition CanTransition :: "JobState \<Rightarrow> JobState \<Rightarrow> bool" where
  "CanTransition frm to =
     (case validTransitions frm of None \<Rightarrow> False | Some targets \<Rightarrow> to \<in> set targets)"

definition AllStates :: "JobState list" where
  "AllStates = [StateScheduled, StateReady, StateRunning, StateCancelling,
     StateRetryWait, StateSucceeded, StateDead, StateCancelled]"

text \<open>
  \<open>AllStates\<close> really lists every state, so it serves as the enumeration of the type: a
  statement about all states is then decided by evaluation.
\<close>

lemma set_AllStates: "set AllStates = UNIV"
proof -
  have "s \<in> set AllStates" for s
    by (cases s) (simp_all add: AllStates_def)
  then show ?thesis by blast
qed

instantiation JobState :: enum
begin

definition enum_JobState_inst: "enum_class.enum = AllStates"
definition enum_all_JobState_inst: "enum_class.enum_all P \<longleftrightarrow> list_all P AllStates"
definition enum_ex_JobState_inst: "enum_class.enum_ex P \<longleftrightarrow> list_ex P AllStates"

instance
  by standard
    (simp_all add: enum_JobState_inst enum_all_JobState_inst enum_ex_JobState_inst
      set_AllStates list_all_iff list_ex_iff, simp add: AllStates_def)

end

text \<open>The states in which a worker holds a lease and a tenant slot is occupied.\<close>

abbreviation inflight_state :: "JobState \<Rightarrow> bool" where
  "inflight_state s \<equiv> s = StateRunning \<or> s = StateCancelling"

section \<open>Errors\<close>

datatype Sentinel =
    ErrNotFound | ErrAlreadyTerminal | ErrStaleLease | ErrCancelRequested | ErrQueueOverloaded
  | ErrInvalidTransition | ErrInvalidArgument | ErrForbidden | ErrConflict

datatype ErrorCode =
    CodeInvalidArgument | CodeUnauthorized | CodeForbidden | CodeNotFound | CodeConflict
  | CodeAlreadyTerminal | CodeStaleLease | CodeCancelRequested | CodeQueueOverloaded
  | CodeInvalidTransition | CodeInternal

record DomainError =
  err_Code :: ErrorCode
  err_Err :: Sentinel

definition NewError :: "ErrorCode \<Rightarrow> Sentinel \<Rightarrow> DomainError" where
  "NewError code sentinel = \<lparr>err_Code = code, err_Err = sentinel\<rparr>"

text \<open>
  A Go \<open>error\<close>: a (possibly wrapped) domain error, which \<open>errors.AsType\<close> finds, or any
  other error.
\<close>

datatype go_error = AsDomain DomainError | OtherError string

definition IsRetryableError :: "go_error \<Rightarrow> bool" where
  "IsRetryableError err = (case err of
     AsDomain de \<Rightarrow> err_Code de = CodeQueueOverloaded \<or> err_Code de = CodeInternal
   | OtherError _ \<Rightarrow> False)"

abbreviation "invalidArgument \<equiv> NewError CodeInvalidArgument ErrInvalidArgument"
abbreviation "invalidTransition \<equiv> NewError CodeInvalidTransition ErrInvalidTransition"
abbreviation "alreadyTerminal \<equiv> NewError CodeAlreadyTerminal ErrAlreadyTerminal"
abbreviation "staleLease \<equiv> NewError CodeStaleLease ErrStaleLease"
abbreviation "cancelRequested \<equiv> NewError CodeCancelRequested ErrCancelRequested"

lemma NewError_inject [simp]: "NewError c s = NewError c' s' \<longleftrightarrow> c = c' \<and> s = s'"
  by (auto simp: NewError_def)

section \<open>The Job record\<close>

definition DefaultMaxAttempts :: int where "DefaultMaxAttempts = 3"
definition DefaultTimeout :: duration where "DefaultTimeout = 300 * Second"
definition MaxPayloadSize :: nat where "MaxPayloadSize = 256 * 1024"
definition MaxAttemptsUpperBound :: int where "MaxAttemptsUpperBound = 10"

record Job =
  job_ID :: string
  job_TenantID :: string
  job_Queue :: string
  job_Type :: string
  job_Payload :: string
  job_Priority :: int
  job_State :: JobState
  job_RunAt :: time
  job_Attempt :: int
  job_MaxAttempts :: int
  job_TimeoutSeconds :: int
  job_IdempotencyKey :: "string option"
  job_RequestHash :: string
  job_LeaseOwner :: "string option"
  job_LeaseUntil :: "time option"
  job_FencingToken :: int
  job_CancelRequestedAt :: "time option"
  job_TraceID :: "string option"
  job_TraceContext :: "string option"
  job_StateVersion :: int
  job_RetryOfJobID :: "string option"
  job_CreatedAt :: time
  job_UpdatedAt :: time
  job_ResultRef :: "string option"

record NewJobParams =
  njp_TenantID :: string
  njp_Queue :: string
  njp_Type :: string
  njp_Payload :: string
  njp_Priority :: int
  njp_RunAt :: "time option"
  njp_MaxAttempts :: int
  njp_TimeoutSeconds :: int
  njp_IdempotencyKey :: "string option"
  njp_TraceID :: "string option"
  njp_TraceContext :: "string option"
  njp_RetryOfJobID :: "string option"

section \<open>The request hash\<close>

text \<open>
  SHA-256 (in hexadecimal), the RFC3339 rendering of an instant and the JSON decode/encode
  pair are arguments: \<open>sha\<close>, \<open>fmtTime\<close> and \<open>reencode\<close>, the last one \<open>None\<close> where
  decoding fails, a token follows the value, or encoding fails. \<open>request_preimage\<close> is what
  the \<open>Fprintf\<close> and the final \<open>Write\<close> feed to the hash.
\<close>

definition canonicalPayload :: "(string \<Rightarrow> string option) \<Rightarrow> string \<Rightarrow> string" where
  "canonicalPayload reencode payload =
     (if payload = [] then []
      else case reencode payload of None \<Rightarrow> payload | Some canonical \<Rightarrow> canonical)"

definition defaulted :: "int \<Rightarrow> int \<Rightarrow> int" where
  "defaulted v d = (if v = 0 then d else v)"

definition NL :: string where
  "NL = [CHR 0x0A]"

definition request_preimage ::
    "(time \<Rightarrow> string) \<Rightarrow> (string \<Rightarrow> string option) \<Rightarrow> NewJobParams \<Rightarrow> string" where
  "request_preimage fmtTime reencode params =
     (let maxAttempts = defaulted (njp_MaxAttempts params) DefaultMaxAttempts;
          timeoutSeconds = defaulted (njp_TimeoutSeconds params) (DefaultTimeout div Second);
          runAt = (case njp_RunAt params of None \<Rightarrow> ''server-default'' | Some t \<Rightarrow> fmtTime t)
      in ''queue='' @ njp_Queue params @ NL @ ''type='' @ njp_Type params @ NL @
         ''priority='' @ show_int (njp_Priority params) @ NL @
         ''max_attempts='' @ show_int maxAttempts @ NL @
         ''timeout_seconds='' @ show_int timeoutSeconds @ NL @
         ''run_at='' @ runAt @ NL @ ''payload='' @ canonicalPayload reencode (njp_Payload params))"

definition RequestHash ::
    "(string \<Rightarrow> string) \<Rightarrow> (time \<Rightarrow> string) \<Rightarrow> (string \<Rightarrow> string option) \<Rightarrow> NewJobParams \<Rightarrow> string" where
  "RequestHash sha fmtTime reencode params = sha (request_preimage fmtTime reencode params)"

section \<open>Creation\<close>

text \<open>\<open>hash\<close> is \<open>RequestHash\<close> at the deployment's SHA-256, time format and JSON codec.\<close>

definition NewJob :: "(NewJobParams \<Rightarrow> string) \<Rightarrow> string \<Rightarrow> NewJobParams \<Rightarrow> time \<Rightarrow> DomainError + Job" where
  "NewJob hash jobID params now =
     (if njp_TenantID params = '''' then Inl invalidArgument
      else if njp_Queue params = '''' then Inl invalidArgument
      else if njp_Type params = '''' then Inl invalidArgument
      else if length (njp_Payload params) > MaxPayloadSize then Inl invalidArgument
      else let maxAttempts = (if njp_MaxAttempts params = 0 then DefaultMaxAttempts
                              else njp_MaxAttempts params) in
      if maxAttempts < 1 \<or> maxAttempts > MaxAttemptsUpperBound then Inl invalidArgument
      else let timeoutSeconds = (if njp_TimeoutSeconds params = 0 then DefaultTimeout div Second
                                 else njp_TimeoutSeconds params) in
      if timeoutSeconds < 1 \<or> timeoutSeconds > 86400 then Inl invalidArgument
      else let runAt = (case njp_RunAt params of None \<Rightarrow> now | Some t \<Rightarrow> t);
               state = (if runAt > now then StateScheduled else StateReady) in
      Inr \<lparr>job_ID = jobID, job_TenantID = njp_TenantID params, job_Queue = njp_Queue params,
           job_Type = njp_Type params, job_Payload = njp_Payload params,
           job_Priority = njp_Priority params, job_State = state, job_RunAt = runAt,
           job_Attempt = 0, job_MaxAttempts = maxAttempts,
           job_TimeoutSeconds = timeoutSeconds, job_IdempotencyKey = njp_IdempotencyKey params,
           job_RequestHash = hash params, job_LeaseOwner = None, job_LeaseUntil = None,
           job_FencingToken = 0, job_CancelRequestedAt = None, job_TraceID = njp_TraceID params,
           job_TraceContext = njp_TraceContext params, job_StateVersion = 1,
           job_RetryOfJobID = njp_RetryOfJobID params, job_CreatedAt = now, job_UpdatedAt = now,
           job_ResultRef = None\<rparr>)"

section \<open>Operations\<close>

text \<open>
  A method with a pointer receiver takes the job and returns the error or the new job; an
  error leaves the job as it was. Increments of \<open>int\<close> and \<open>int64\<close> fields wrap.
\<close>

definition validateLease :: "Job \<Rightarrow> string \<Rightarrow> int \<Rightarrow> DomainError + unit" where
  "validateLease j workerID fencingToken =
     (if job_LeaseOwner j = None \<or> job_LeaseOwner j \<noteq> Some workerID \<or>
         job_FencingToken j \<noteq> fencingToken
      then Inl staleLease else Inr ())"

definition Claim :: "Job \<Rightarrow> string \<Rightarrow> duration \<Rightarrow> time \<Rightarrow> DomainError + Job" where
  "Claim j workerID leaseTTL now =
     (if job_State j \<noteq> StateReady then Inl invalidTransition
      else Inr (j\<lparr>job_State := StateRunning, job_LeaseOwner := Some workerID,
                  job_LeaseUntil := Some (now + leaseTTL),
                  job_Attempt := wrap64 (job_Attempt j + 1),
                  job_FencingToken := wrap64 (job_FencingToken j + 1),
                  job_StateVersion := wrap64 (job_StateVersion j + 1),
                  job_UpdatedAt := now\<rparr>))"

definition Complete :: "Job \<Rightarrow> string \<Rightarrow> int \<Rightarrow> time \<Rightarrow> DomainError + Job" where
  "Complete j workerID fencingToken now =
     (if job_State j = StateCancelling then Inl cancelRequested
      else if job_State j \<noteq> StateRunning then
        (if IsTerminal (job_State j) then Inl alreadyTerminal else Inl invalidTransition)
      else bindE (validateLease j workerID fencingToken) (\<lambda>_.
        Inr (j\<lparr>job_State := StateSucceeded,
               job_StateVersion := wrap64 (job_StateVersion j + 1), job_UpdatedAt := now\<rparr>)))"

definition Fail :: "Job \<Rightarrow> string \<Rightarrow> int \<Rightarrow> bool \<Rightarrow> time \<Rightarrow> time \<Rightarrow> DomainError + Job" where
  "Fail j workerID fencingToken retryable nextRetryAt now =
     (if job_State j = StateCancelling then
        Inr (j\<lparr>job_State := StateCancelled,
               job_StateVersion := wrap64 (job_StateVersion j + 1), job_UpdatedAt := now\<rparr>)
      else if job_State j \<noteq> StateRunning then
        (if IsTerminal (job_State j) then Inl alreadyTerminal else Inl invalidTransition)
      else bindE (validateLease j workerID fencingToken) (\<lambda>_.
        let j1 = (if \<not> retryable \<or> job_Attempt j \<ge> job_MaxAttempts j
                  then j\<lparr>job_State := StateDead\<rparr>
                  else j\<lparr>job_State := StateRetryWait, job_RunAt := nextRetryAt,
                         job_LeaseOwner := None, job_LeaseUntil := None\<rparr>) in
        Inr (j1\<lparr>job_StateVersion := wrap64 (job_StateVersion j1 + 1), job_UpdatedAt := now\<rparr>)))"

definition Cancel :: "Job \<Rightarrow> time \<Rightarrow> DomainError + Job" where
  "Cancel j now =
     (if IsTerminal (job_State j) then Inl alreadyTerminal
      else if job_State j = StateCancelling then Inr j
      else let j1 = (if job_State j = StateRunning
                     then j\<lparr>job_State := StateCancelling, job_CancelRequestedAt := Some now\<rparr>
                     else j\<lparr>job_State := StateCancelled\<rparr>) in
        Inr (j1\<lparr>job_StateVersion := wrap64 (job_StateVersion j1 + 1), job_UpdatedAt := now\<rparr>))"

definition Heartbeat :: "Job \<Rightarrow> string \<Rightarrow> int \<Rightarrow> duration \<Rightarrow> time \<Rightarrow> DomainError + Job" where
  "Heartbeat j workerID fencingToken ttl now =
     (if job_State j \<noteq> StateRunning \<and> job_State j \<noteq> StateCancelling then Inl invalidTransition
      else bindE (validateLease j workerID fencingToken) (\<lambda>_.
        Inr (j\<lparr>job_LeaseUntil := Some (now + ttl), job_UpdatedAt := now\<rparr>)))"

section \<open>Retry delay\<close>

text \<open>
  The loop of \<open>Backoff\<close>: \<open>i\<close> runs from 1 to \<open>attempt - 1\<close>, doubling with the wrap-around
  of \<open>time.Duration\<close> and leaving the loop at the cap.
\<close>

fun backoff_loop :: "nat \<Rightarrow> duration \<Rightarrow> duration \<Rightarrow> duration" where
  "backoff_loop 0 maxBackoff delay = delay"
| "backoff_loop (Suc n) maxBackoff delay =
     (let delay' = wrap64 (delay * 2) in
      if delay' > maxBackoff then maxBackoff else backoff_loop n maxBackoff delay')"

definition Backoff :: "int \<Rightarrow> duration \<Rightarrow> duration \<Rightarrow> duration \<Rightarrow> duration" where
  "Backoff attempt base maxBackoff jitter =
     (let delay = wrap64 (backoff_loop (nat (attempt - 1)) maxBackoff base + jitter) in
      if delay > maxBackoff then maxBackoff else delay)"

section \<open>Result references\<close>

text \<open>
  \<open>ValidateResultRef\<close> of \<open>result.go\<close>: a reference is a sequence of bytes, checked for
  UTF-8 validity and length, then rune by rune for C0 and DEL control characters.
\<close>

definition MaxResultRefBytes :: nat where "MaxResultRefBytes = 2048"

definition ValidateResultRef :: "string \<Rightarrow> DomainError + unit" where
  "ValidateResultRef ref =
     (case utf8_runes (map of_char ref) of
        None \<Rightarrow> Inl invalidArgument
      | Some runes \<Rightarrow>
          if length ref > MaxResultRefBytes then Inl invalidArgument
          else if list_ex (\<lambda>r. r < 0x20 \<or> r = 0x7f) runes then Inl invalidArgument
          else Inr ())"

definition CompleteWithResult :: "Job \<Rightarrow> string \<Rightarrow> int \<Rightarrow> string \<Rightarrow> time \<Rightarrow> DomainError + Job" where
  "CompleteWithResult j workerID token ref now =
     bindE (ValidateResultRef ref) (\<lambda>_.
     bindE (Complete j workerID token now) (\<lambda>j1.
       Inr (if ref \<noteq> '''' then j1\<lparr>job_ResultRef := Some ref\<rparr> else j1)))"

section \<open>Lemmas on the operations\<close>

lemmas job_op_defs = Claim_def Complete_def Fail_def Cancel_def Heartbeat_def CompleteWithResult_def
  validateLease_def Let_def

lemma validateLease_Inr [result_simps]:
  "validateLease j w t = Inr u \<longleftrightarrow> job_LeaseOwner j = Some w \<and> job_FencingToken j = t"
  by (auto simp: validateLease_def)

lemma CanTransition_simps [simp]:
  "CanTransition StateScheduled s \<longleftrightarrow> s = StateReady \<or> s = StateCancelled"
  "CanTransition StateReady s \<longleftrightarrow> s = StateRunning \<or> s = StateCancelled"
  "CanTransition StateRunning s \<longleftrightarrow> s \<in> {StateSucceeded, StateRetryWait, StateDead, StateReady, StateCancelling}"
  "CanTransition StateCancelling s \<longleftrightarrow> s = StateCancelled"
  "CanTransition StateRetryWait s \<longleftrightarrow> s = StateReady \<or> s = StateCancelled"
  by (auto simp: CanTransition_def)

lemma CanTransition_terminal [simp]: "IsTerminal s \<Longrightarrow> \<not> CanTransition s s'"
  by (cases s) (simp_all add: CanTransition_def)

text \<open>
  Every operation in one datatype, so that sequences of calls can be stated.
\<close>

datatype JobOp =
    OpClaim string duration time
  | OpComplete string int time
  | OpFail string int bool time time
  | OpCancel time
  | OpHeartbeat string int duration time
  | OpCompleteWithResult string int string time

fun apply_op :: "Job \<Rightarrow> JobOp \<Rightarrow> DomainError + Job" where
  "apply_op j (OpClaim w ttl now) = Claim j w ttl now"
| "apply_op j (OpComplete w t now) = Complete j w t now"
| "apply_op j (OpFail w t retryable next now) = Fail j w t retryable next now"
| "apply_op j (OpCancel now) = Cancel j now"
| "apply_op j (OpHeartbeat w t ttl now) = Heartbeat j w t ttl now"
| "apply_op j (OpCompleteWithResult w t ref now) = CompleteWithResult j w t ref now"

text \<open>A sequence of calls: a rejected call leaves the job as it was.\<close>

fun run_ops :: "Job \<Rightarrow> JobOp list \<Rightarrow> Job" where
  "run_ops j [] = j"
| "run_ops j (op # ops) = run_ops (case apply_op j op of Inl _ \<Rightarrow> j | Inr j' \<Rightarrow> j') ops"

lemma apply_op_state:
  assumes "apply_op j op = Inr j'"
  shows "job_State j' = job_State j \<or> CanTransition (job_State j) (job_State j')"
  using assms
  by (cases op; cases "job_State j") (auto simp: job_op_defs result_simps split: if_splits)

lemma apply_op_version:
  assumes "apply_op j op = Inr j'"
  shows "job_StateVersion j' =
    (if job_State j' = job_State j then job_StateVersion j else wrap64 (job_StateVersion j + 1))"
  using assms
  by (cases op; cases "job_State j") (auto simp: job_op_defs result_simps split: if_splits)

lemma apply_op_terminal:
  assumes "IsTerminal (job_State j)"
  shows "\<exists>e. apply_op j op = Inl e"
proof (cases "apply_op j op")
  case (Inr j')
  with assms show ?thesis
    by (cases op; cases "job_State j") (auto simp: job_op_defs result_simps split: if_splits)
qed blast

lemma run_ops_terminal: "IsTerminal (job_State j) \<Longrightarrow> run_ops j ops = j"
proof (induction ops)
  case (Cons op ops)
  then show ?case using apply_op_terminal [of j op] by auto
qed simp

section \<open>Lemmas on the retry delay and the request hash\<close>

lemma backoff_loop_cases:
  assumes "0 \<le> base" and "base < 4611686018427387904" and "maxBackoff < 4611686018427387904"
    and "0 \<le> maxBackoff"
  shows "0 \<le> backoff_loop n maxBackoff base \<and> backoff_loop n maxBackoff base < 4611686018427387904 \<and>
    (backoff_loop n maxBackoff base = base * 2 ^ n \<or>
     backoff_loop n maxBackoff base = maxBackoff \<and> maxBackoff < base * 2 ^ n)"
  using assms
proof (induction n arbitrary: base)
  case (Suc n)
  have double: "wrap64 (base * 2) = base * 2"
    using Suc.prems by (intro wrap64_id) (simp add: int64_def)
  show ?case
  proof (cases "base * 2 > maxBackoff")
    case True
    have "base * 2 * 1 \<le> base * 2 * 2 ^ n"
      using Suc.prems by (intro mult_left_mono) auto
    with True have "maxBackoff < base * 2 ^ Suc n" by simp
    with True double Suc.prems show ?thesis by simp
  next
    case False
    with Suc.IH [of "base * 2"] Suc.prems double show ?thesis by (simp add: mult.assoc)
  qed
qed simp

lemma Backoff_eq:
  assumes "0 \<le> base" "base < 4611686018427387904" "0 \<le> maxBackoff" "maxBackoff < 4611686018427387904"
    and "0 \<le> jitter" "jitter < 4611686018427387904"
  shows "Backoff attempt base maxBackoff jitter = min (base * 2 ^ nat (attempt - 1) + jitter) maxBackoff"
proof -
  let ?l = "backoff_loop (nat (attempt - 1)) maxBackoff base"
  note l = backoff_loop_cases [OF assms(1,2,4,3), of "nat (attempt - 1)"]
  have "wrap64 (?l + jitter) = ?l + jitter"
    using l assms(5,6) by (intro wrap64_id) (simp add: int64_def)
  with l assms(5) show ?thesis by (auto simp: Backoff_def Let_def min_def)
qed

lemma request_preimage_split:
  "request_preimage fmtTime reencode p =
    (((((((''queue='' @ njp_Queue p) @ CHR 0x0A # ''type='' @ njp_Type p) @
      CHR 0x0A # ''priority='' @ show_int (njp_Priority p)) @
      CHR 0x0A # ''max_attempts='' @ show_int (defaulted (njp_MaxAttempts p) DefaultMaxAttempts)) @
      CHR 0x0A # ''timeout_seconds='' @ show_int (defaulted (njp_TimeoutSeconds p) (DefaultTimeout div Second))) @
      CHR 0x0A # ''run_at='' @ (case njp_RunAt p of None \<Rightarrow> ''server-default'' | Some t \<Rightarrow> fmtTime t)) @
      CHR 0x0A # ''payload='' @ canonicalPayload reencode (njp_Payload p))"
  by (simp add: request_preimage_def NL_def Let_def)

lemma newline_notin_show_int: "CHR 0x0A \<notin> set (show_int i)"
  using show_int_chars [of "CHR 0x0A" i] by auto

lemma letter_s_notin_show_int: "CHR ''s'' \<notin> set (show_int i)"
  using show_nat_digits [of "CHR ''s''"] by (auto simp: show_int_def)

text \<open>The part of a submission that the request hash is meant to identify.\<close>

definition submission_key ::
  "(string \<Rightarrow> string option) \<Rightarrow> NewJobParams \<Rightarrow> string \<times> string \<times> int \<times> int \<times> int \<times> time option \<times> string" where
  "submission_key reencode p = (njp_Queue p, njp_Type p, njp_Priority p,
     defaulted (njp_MaxAttempts p) DefaultMaxAttempts,
     defaulted (njp_TimeoutSeconds p) (DefaultTimeout div Second),
     njp_RunAt p, canonicalPayload reencode (njp_Payload p))"

lemma request_preimage_inj:
  assumes eq: "request_preimage fmtTime reencode p = request_preimage fmtTime reencode q"
    and fmt: "inj fmtTime" "\<And>t. fmtTime t \<noteq> ''server-default''" "\<And>t. CHR 0x0A \<notin> set (fmtTime t)"
    and ty: "CHR 0x0A \<notin> set (njp_Type p)" "CHR 0x0A \<notin> set (njp_Type q)"
    and pay: "CHR 0x0A \<notin> set (canonicalPayload reencode (njp_Payload p))"
             "CHR 0x0A \<notin> set (canonicalPayload reencode (njp_Payload q))"
  shows "submission_key reencode p = submission_key reencode q"
proof -
  have run: "CHR 0x0A \<notin> set (case r of None \<Rightarrow> ''server-default'' | Some t \<Rightarrow> fmtTime t)" for r
    using fmt(3) by (auto split: option.split)
  have time: "(case r of None \<Rightarrow> ''server-default'' | Some t \<Rightarrow> fmtTime t) =
      (case s of None \<Rightarrow> ''server-default'' | Some t \<Rightarrow> fmtTime t) \<longleftrightarrow> r = s" for r s
    using fmt(1) fmt(2) fmt(2) [symmetric] by (auto simp: inj_def split: option.splits)
  show ?thesis
    using eq ty pay run newline_notin_show_int unfolding request_preimage_split
    by (simp add: split_at_last time show_int_inj submission_key_def del: append_assoc)
qed

section \<open>Properties\<close>

text \<open>C31. The retry delay is \<open>min(base * 2^(attempt-1) + jitter, maxBackoff)\<close> for every attempt
  number and every base, cap and jitter below \<open>2^62\<close> nanoseconds: the doubling loop, its early
  exit and the 64-bit arithmetic never change the value, and the delay is never negative and
  never above the cap.\<close>

theorem Backoff_is_capped_exponential:
  assumes "0 \<le> base" "base < 2 ^ 62" "0 \<le> maxBackoff" "maxBackoff < 2 ^ 62"
    and "0 \<le> jitter" "jitter < 2 ^ 62"
  shows "Backoff attempt base maxBackoff jitter = min (base * 2 ^ nat (attempt - 1) + jitter) maxBackoff
    \<and> 0 \<le> Backoff attempt base maxBackoff jitter \<and> Backoff attempt base maxBackoff jitter \<le> maxBackoff"
proof -
  have eq: "Backoff attempt base maxBackoff jitter = min (base * 2 ^ nat (attempt - 1) + jitter) maxBackoff"
    using assms by (intro Backoff_eq) auto
  have "0 \<le> base * 2 ^ nat (attempt - 1) + jitter"
    using assms(1,5) by simp
  with eq assms(3) show ?thesis by (simp add: min_def)
qed

theorem Backoff_is_capped_exponential_witness:
  "Backoff 4 Second (5 * Minute) 17 = min (Second * 2 ^ 3 + 17) (5 * Minute)
    \<and> 0 \<le> Backoff 4 Second (5 * Minute) 17 \<and> Backoff 4 Second (5 * Minute) 17 \<le> 5 * Minute"
  using Backoff_is_capped_exponential [of Second "5 * Minute" 17 4]
  by (simp add: Second_def Minute_def)

text \<open>Every accepted domain operation moves the job along an edge of the state machine, raising
  the state version by one, or keeps both state and version; it never changes the job's
  identity, tenant, queue, type, payload or attempt limit.\<close>

theorem job_operation_respects_state_machine:
  assumes "apply_op j op = Inr j'"
  shows "(if job_State j' = job_State j then job_StateVersion j' = job_StateVersion j
      else CanTransition (job_State j) (job_State j') \<and>
        job_StateVersion j' = wrap64 (job_StateVersion j + 1))
    \<and> job_ID j' = job_ID j \<and> job_TenantID j' = job_TenantID j \<and> job_Queue j' = job_Queue j
    \<and> job_Type j' = job_Type j \<and> job_Payload j' = job_Payload j
    \<and> job_MaxAttempts j' = job_MaxAttempts j \<and> job_RequestHash j' = job_RequestHash j"
proof -
  have "job_ID j' = job_ID j \<and> job_TenantID j' = job_TenantID j \<and> job_Queue j' = job_Queue j
    \<and> job_Type j' = job_Type j \<and> job_Payload j' = job_Payload j
    \<and> job_MaxAttempts j' = job_MaxAttempts j \<and> job_RequestHash j' = job_RequestHash j"
    using assms by (cases op) (auto simp: job_op_defs result_simps split: if_splits)
  with apply_op_state [OF assms] apply_op_version [OF assms] show ?thesis by auto
qed

text \<open>A small job the witnesses share.\<close>

definition sample_job :: Job where
  "sample_job = \<lparr>job_ID = ''j1'', job_TenantID = ''t1'', job_Queue = ''q'', job_Type = ''demo.echo'',
     job_Payload = ''{}'', job_Priority = 0, job_State = StateReady, job_RunAt = 0, job_Attempt = 0,
     job_MaxAttempts = 3, job_TimeoutSeconds = 300, job_IdempotencyKey = None, job_RequestHash = ''h'',
     job_LeaseOwner = None, job_LeaseUntil = None, job_FencingToken = 0, job_CancelRequestedAt = None,
     job_TraceID = None, job_TraceContext = None, job_StateVersion = 1, job_RetryOfJobID = None,
     job_CreatedAt = 0, job_UpdatedAt = 0, job_ResultRef = None\<rparr>"

theorem job_operation_respects_state_machine_witness:
  "\<exists>j'. apply_op sample_job (OpClaim ''w'' 30 5) = Inr j' \<and> job_State j' = StateRunning \<and>
     CanTransition (job_State sample_job) (job_State j') \<and> job_StateVersion j' = 2"
proof -
  obtain j' where j': "apply_op sample_job (OpClaim ''w'' 30 5) = Inr j'" "job_State j' = StateRunning"
    by (simp add: Claim_def sample_job_def)
  have "job_State sample_job = StateReady" "wrap64 (job_StateVersion sample_job + 1) = 2"
    by (simp_all add: sample_job_def wrap64_def)
  with job_operation_respects_state_machine [OF j'(1)] j' show ?thesis by simp
qed

text \<open>Succeeded, dead and cancelled are absorbing: no sequence of domain operations, whatever
  their arguments, changes a job that has reached one of them, and each single operation on it
  is an error.\<close>

theorem terminal_jobs_are_immutable:
  assumes "IsTerminal (job_State j)"
  shows "run_ops j ops = j \<and> (\<exists>e. apply_op j op = Inl e)"
  using assms run_ops_terminal apply_op_terminal by blast

theorem terminal_jobs_are_immutable_witness:
  "run_ops (sample_job\<lparr>job_State := StateDead\<rparr>) [OpCancel 1, OpClaim ''w'' 30 2] =
     sample_job\<lparr>job_State := StateDead\<rparr> \<and>
   (\<exists>e. apply_op (sample_job\<lparr>job_State := StateDead\<rparr>) (OpCancel 3) = Inl e)"
  by (rule terminal_jobs_are_immutable) simp

text \<open>A running job is completed exactly by its lease owner presenting the current fencing
  token; a stale owner or token is refused as a stale lease, and once cancellation has been
  requested even the owner's completion is refused.\<close>

theorem Complete_requires_current_lease:
  assumes "inflight_state (job_State j)"
  shows "Complete j w t now =
    (if job_State j = StateCancelling then Inl cancelRequested
     else if job_LeaseOwner j = Some w \<and> job_FencingToken j = t
     then Inr (j\<lparr>job_State := StateSucceeded, job_StateVersion := wrap64 (job_StateVersion j + 1),
                 job_UpdatedAt := now\<rparr>)
     else Inl staleLease)"
  using assms by (auto simp: Complete_def validateLease_def)

theorem Complete_requires_current_lease_witness:
  "Complete (sample_job\<lparr>job_State := StateRunning, job_LeaseOwner := Some ''w'', job_FencingToken := 2\<rparr>) ''w'' 1 9
   = Inl staleLease"
  using Complete_requires_current_lease
    [of "sample_job\<lparr>job_State := StateRunning, job_LeaseOwner := Some ''w'', job_FencingToken := 2\<rparr>" "''w''" 1 9]
  by simp

text \<open>A submission is accepted exactly when tenant, queue and type are present, the payload
  is at most 256 KiB, and the attempt limit and timeout are in range (zero standing for the
  default); the accepted job starts without a lease, at attempt 0, version 1, and is ready
  precisely when its run-at time has come.\<close>

theorem NewJob_accepts_iff_valid:
  "((\<exists>j. NewJob hash i p now = Inr j) \<longleftrightarrow>
    njp_TenantID p \<noteq> '''' \<and> njp_Queue p \<noteq> '''' \<and> njp_Type p \<noteq> '''' \<and>
    length (njp_Payload p) \<le> 262144 \<and> 0 \<le> njp_MaxAttempts p \<and> njp_MaxAttempts p \<le> 10 \<and>
    0 \<le> njp_TimeoutSeconds p \<and> njp_TimeoutSeconds p \<le> 86400) \<and>
   (\<forall>j. NewJob hash i p now = Inr j \<longrightarrow>
    (job_State j = StateReady \<longleftrightarrow> job_RunAt j \<le> now) \<and>
    (job_State j = StateScheduled \<longleftrightarrow> job_RunAt j > now) \<and>
    job_LeaseOwner j = None \<and> job_LeaseUntil j = None \<and> job_Attempt j = 0 \<and>
    job_FencingToken j = 0 \<and> job_StateVersion j = 1 \<and>
    1 \<le> job_MaxAttempts j \<and> job_MaxAttempts j \<le> 10 \<and>
    1 \<le> job_TimeoutSeconds j \<and> job_TimeoutSeconds j \<le> 86400 \<and> job_RequestHash j = hash p)"
  by (auto simp: NewJob_def Let_def MaxPayloadSize_def DefaultMaxAttempts_def MaxAttemptsUpperBound_def
      DefaultTimeout_def Second_def split: if_splits)

definition sample_params :: NewJobParams where
  "sample_params = \<lparr>njp_TenantID = ''t1'', njp_Queue = ''q'', njp_Type = ''demo.echo'',
     njp_Payload = ''{}'', njp_Priority = 0, njp_RunAt = None, njp_MaxAttempts = 0,
     njp_TimeoutSeconds = 0, njp_IdempotencyKey = None, njp_TraceID = None,
     njp_TraceContext = None, njp_RetryOfJobID = None\<rparr>"

theorem NewJob_accepts_iff_valid_witness:
  "\<exists>j. NewJob (\<lambda>_. ''h'') ''j1'' sample_params 7 = Inr j \<and> job_State j = StateReady \<and>
     job_MaxAttempts j \<le> 10"
proof -
  have "\<exists>j. NewJob (\<lambda>_. ''h'') ''j1'' sample_params 7 = Inr j"
    using NewJob_accepts_iff_valid [of "\<lambda>_. ''h''" "''j1''" sample_params 7]
    by (simp add: sample_params_def)
  then obtain j where j: "NewJob (\<lambda>_. ''h'') ''j1'' sample_params 7 = Inr j" by blast
  then have "job_RunAt j = 7"
    by (auto simp: NewJob_def Let_def sample_params_def split: if_splits)
  with j NewJob_accepts_iff_valid [of "\<lambda>_. ''h''" "''j1''" sample_params 7] show ?thesis by auto
qed

text \<open>C32. The request hash identifies the submission: two submissions whose types and canonical
  payloads hold no newline (their queues may) have the same hash only if they agree on queue, type,
  priority, attempt limit, timeout, run-at and canonical payload, unless SHA-256 collides on their
  two texts. The RFC3339 rendering of a time is injective, newline-free and never the text that
  stands for a missing time.\<close>

theorem RequestHash_identifies_submission:
  assumes "RequestHash sha fmtTime reencode p = RequestHash sha fmtTime reencode q"
    and no_collision: "sha (request_preimage fmtTime reencode p) = sha (request_preimage fmtTime reencode q) \<Longrightarrow>
      request_preimage fmtTime reencode p = request_preimage fmtTime reencode q"
    and "inj fmtTime" "\<And>t. fmtTime t \<noteq> ''server-default''" "\<And>t. CHR 0x0A \<notin> set (fmtTime t)"
    and "CHR 0x0A \<notin> set (njp_Type p)" "CHR 0x0A \<notin> set (njp_Type q)"
    and "CHR 0x0A \<notin> set (canonicalPayload reencode (njp_Payload p))"
        "CHR 0x0A \<notin> set (canonicalPayload reencode (njp_Payload q))"
  shows "submission_key reencode p = submission_key reencode q"
proof (rule request_preimage_inj)
  show "request_preimage fmtTime reencode p = request_preimage fmtTime reencode q"
    using assms(1) no_collision by (simp add: RequestHash_def)
qed (fact assms)+

theorem RequestHash_identifies_submission_witness:
  "submission_key Some sample_params = submission_key Some (sample_params\<lparr>njp_MaxAttempts := 3\<rparr>)"
proof (rule RequestHash_identifies_submission [of "\<lambda>x. x" show_int])
  show "RequestHash (\<lambda>x. x) show_int Some sample_params =
      RequestHash (\<lambda>x. x) show_int Some (sample_params\<lparr>njp_MaxAttempts := 3\<rparr>)"
    by (simp add: RequestHash_def request_preimage_def sample_params_def defaulted_def DefaultMaxAttempts_def)
  show "inj show_int" by (simp add: inj_def show_int_inj)
  show "show_int t \<noteq> ''server-default''" for t
    by (metis list.set_intros(1) letter_s_notin_show_int)
  show "CHR 0x0A \<notin> set (show_int t)" for t by (rule newline_notin_show_int)
qed (simp_all add: sample_params_def canonicalPayload_def)

text \<open>C33. Without that restriction the hash does not identify the submission. Take any submission and any
  three texts: once the queue is the first text, a newline, the word that introduces the type and the
  second text, and the type is the third text; once the queue is the first text alone and the type
  is the second text, a newline, the same word and the third text. The two submissions differ in
  queue and in type and in nothing else, and they have the same request hash, whatever SHA-256 computes.\<close>

theorem RequestHash_confuses_newlines:
  "RequestHash sha fmtTime reencode (p\<lparr>njp_Queue := a @ NL @ ''type='' @ b, njp_Type := c\<rparr>) =
     RequestHash sha fmtTime reencode (p\<lparr>njp_Queue := a, njp_Type := b @ NL @ ''type='' @ c\<rparr>) \<and>
   njp_Queue (p\<lparr>njp_Queue := a @ NL @ ''type='' @ b, njp_Type := c\<rparr>) \<noteq> njp_Queue (p\<lparr>njp_Queue := a, njp_Type := b @ NL @ ''type='' @ c\<rparr>) \<and>
   njp_Type (p\<lparr>njp_Queue := a @ NL @ ''type='' @ b, njp_Type := c\<rparr>) \<noteq> njp_Type (p\<lparr>njp_Queue := a, njp_Type := b @ NL @ ''type='' @ c\<rparr>)"
proof -
  have "length c \<noteq> length (b @ NL @ ''type='' @ c)" by (simp add: NL_def)
  then have "c \<noteq> b @ NL @ ''type='' @ c" by metis
  then show ?thesis by (simp add: RequestHash_def request_preimage_def NL_def Let_def)
qed

text \<open>A result reference is accepted exactly when it is valid UTF-8 of at most 2048 bytes and
  none of its bytes is a C0 control or DEL: checking the decoded runes misses no control byte
  and rejects no other text.\<close>

theorem ValidateResultRef_iff:
  "ValidateResultRef ref = Inr () \<longleftrightarrow>
    utf8_runes (map of_char ref) \<noteq> None \<and> length ref \<le> 2048 \<and>
    (\<forall>c \<in> set ref. 0x20 \<le> (of_char c :: nat) \<and> (of_char c :: nat) \<noteq> 0x7f)"
proof (cases "utf8_runes (map of_char ref :: nat list)")
  case None
  then show ?thesis by (simp add: ValidateResultRef_def)
next
  case (Some rs)
  let ?bad = "\<lambda>r::nat. r < 0x20 \<or> r = 0x7f"
  have ascii: "{r \<in> set rs. r < 0x80} = {b \<in> of_char ` set ref. b < 0x80}"
    using utf8_runes_ascii [OF Some] by simp
  have small: "?bad b \<Longrightarrow> b < 0x80" for b :: nat by auto
  have "list_ex ?bad rs \<longleftrightarrow> (\<exists>r \<in> {r \<in> set rs. r < 0x80}. ?bad r)"
    by (auto simp: list_ex_iff)
  also have "\<dots> \<longleftrightarrow> (\<exists>c \<in> set ref. ?bad (of_char c))"
    unfolding ascii using small by blast
  also have "\<dots> \<longleftrightarrow> \<not> (\<forall>c \<in> set ref. 0x20 \<le> (of_char c :: nat) \<and> (of_char c :: nat) \<noteq> 0x7f)"
    unfolding bex_simps [symmetric] not_less [symmetric] by blast
  finally have "list_ex ?bad rs \<longleftrightarrow>
      \<not> (\<forall>c \<in> set ref. 0x20 \<le> (of_char c :: nat) \<and> (of_char c :: nat) \<noteq> 0x7f)" .
  with Some show ?thesis
    by (simp add: ValidateResultRef_def MaxResultRefBytes_def)
qed

theorem ValidateResultRef_iff_witness:
  "ValidateResultRef ''s3://bucket/key'' = Inr ()"
  by (subst ValidateResultRef_iff) code_simp

end
