(* ===== verification/JobStore.thy ===== *)
theory JobStore
  imports JobDomain "HOL-Library.List_Lexorder" "HOL-Library.Product_Lexorder"
begin

text \<open>
  The PostgreSQL job store (\<open>internal/store/postgres\<close>): \<open>job_store.go\<close>, \<open>finish.go\<close>,
  the claim path of \<open>gateway_store.go\<close>, \<open>scheduler_store.go\<close> and the SQL statements of
  \<open>queries.go\<close> and \<open>scheduler_queries.go\<close>. A table is the list of its rows; a transaction
  maps the database to an error (rolled back: the database stays as it was) or to a result and
  the committed database.

  What a transaction reads from its surroundings is an argument: the database clock \<open>now\<close>,
  the host clock, the rows that concurrent transactions hold locked (\<open>locked\<close>, skipped by
  \<open>for update skip locked\<close>), and the quota counters as the two unlocked, possibly stale
  reads see them (\<open>ce_prefilter\<close>, \<open>ce_snap\<close>). Counter columns are unbounded here; \<open>bigint_ok\<close> of \<open>JobStoreInv\<close>
  states the range in which PostgreSQL accepts them.
\<close>

section \<open>Tables\<close>

record AttemptRow =
  at_job :: string
  at_no :: int
  at_worker :: string
  at_token :: int
  at_started :: time
  at_finished :: "time option"
  at_outcome :: "string option"
  at_errCode :: "string option"
  at_errMessage :: "string option"
  at_durationMs :: "int option"
  at_traceID :: "string option"

record OutboxRow =
  ob_aggregate :: string
  ob_type :: string
  ob_payload :: "(string \<times> string) list"
  ob_version :: int
  ob_traceparent :: "string option"

record WorkerRow =
  wk_id :: string
  wk_types :: "string list"
  wk_queues :: "string list"
  wk_capacity :: int
  wk_status :: string
  wk_instance :: string
  wk_version :: string
  wk_session :: string
  wk_lastHeartbeatAt :: "time option"
  wk_registeredAt :: time

record LeadershipRow =
  ld_leader :: "string option"
  ld_epoch :: int
  ld_lastSeen :: time

record job_db =
  jobs :: "Job list"
  attempts :: "AttemptRow list"
  outbox :: "OutboxRow list"
  quota :: "(string \<times> int) list"
  workers :: "WorkerRow list"
  leadership :: "LeadershipRow option"
  notified :: "string list"

type_synonym 'a tx = "job_db \<Rightarrow> go_error + ('a \<times> job_db)"

abbreviation byID :: "string \<Rightarrow> Job \<Rightarrow> bool" where
  "byID i \<equiv> (\<lambda>j. job_ID j = i)"

text \<open>\<open>scanJob\<close> reads every column but \<open>request_hash\<close>.\<close>

definition scanJob :: "Job \<Rightarrow> Job" where
  "scanJob j = j\<lparr>job_RequestHash := ''''\<rparr>"

section \<open>Submission and reads\<close>

text \<open>
  \<open>Enqueue\<close> runs three statements, each in a transaction of its own. \<open>xmax0\<close> is what the
  second one reads as \<open>xmax = 0\<close> for the row: true unless another transaction has locked or
  replaced the row by then.
\<close>

definition enqueueConflict :: "Job \<Rightarrow> job_db \<Rightarrow> bool" where
  "enqueueConflict job db \<longleftrightarrow> job_IdempotencyKey job \<noteq> None \<and>
     list_ex (\<lambda>r. job_TenantID r = job_TenantID job \<and> job_IdempotencyKey r = job_IdempotencyKey job) (jobs db)"

definition enqueueInsert :: "Job \<Rightarrow> job_db \<Rightarrow> go_error + job_db" where
  "enqueueInsert job db =
     (if enqueueConflict job db then Inr db
      else if list_ex (byID (job_ID job)) (jobs db) then Inl (OtherError ''enqueue insert'')
      else Inr (db\<lparr>jobs := jobs db @ [job\<lparr>job_LeaseOwner := None, job_LeaseUntil := None,
             job_CancelRequestedAt := None, job_ResultRef := None\<rparr>]\<rparr>))"

definition selectByIdempotencyKey :: "string \<Rightarrow> string \<Rightarrow> job_db \<Rightarrow> Job option" where
  "selectByIdempotencyKey tenantID key db =
     find_row (\<lambda>r. job_TenantID r = tenantID \<and> job_IdempotencyKey r = Some key) (jobs db)"

definition Enqueue :: "bool \<Rightarrow> Job \<Rightarrow> job_db \<Rightarrow> (go_error + (bool \<times> Job)) \<times> job_db" where
  "Enqueue xmax0 job db =
     (case enqueueInsert job db of Inl e \<Rightarrow> (Inl e, db) | Inr db1 \<Rightarrow>
      (case find_row (byID (job_ID job)) (jobs db1) of
        Some r \<Rightarrow> (Inr (\<not> xmax0, r\<lparr>job_RequestHash := job_RequestHash job\<rparr>),
           (if xmax0 \<and> job_State r = StateReady then db1\<lparr>notified := notified db1 @ [job_Queue r]\<rparr> else db1))
      | None \<Rightarrow>
        (case job_IdempotencyKey job of
          None \<Rightarrow> (Inl (OtherError ''enqueue: insert skipped but no idempotency key present''), db1)
        | Some key \<Rightarrow>
          (case selectByIdempotencyKey (job_TenantID job) key db1 of
            None \<Rightarrow> (Inl (OtherError ''enqueue select by idempotency key''), db1)
          | Some existing \<Rightarrow>
              if job_RequestHash existing \<noteq> '''' \<and> job_RequestHash existing \<noteq> job_RequestHash job
              then (Inl (AsDomain (NewError CodeConflict ErrConflict)), db1)
              else (Inr (True, existing), db1)))))"

definition GetByID :: "string \<Rightarrow> string \<Rightarrow> job_db \<Rightarrow> go_error + Job" where
  "GetByID tenantID jobID db =
     (case find_row (\<lambda>j. job_ID j = jobID \<and> job_TenantID j = tenantID) (jobs db) of
        None \<Rightarrow> Inl (AsDomain (NewError CodeNotFound ErrNotFound))
      | Some j \<Rightarrow> Inr (scanJob j))"

definition GetQueueDepth :: "string \<Rightarrow> job_db \<Rightarrow> int" where
  "GetQueueDepth queue db = count_where (\<lambda>j. job_Queue j = queue \<and>
     job_State j \<in> {StateScheduled, StateReady, StateRetryWait}) (jobs db)"

definition ListAttempts :: "string \<Rightarrow> string \<Rightarrow> job_db \<Rightarrow> go_error + AttemptRow list" where
  "ListAttempts tenantID jobID db = bindE (GetByID tenantID jobID db) (\<lambda>_.
     Inr (sort_key at_no (filter (\<lambda>a. at_job a = jobID) (attempts db))))"

text \<open>
  \<open>List\<close>: the cursor is the creation time of the last row of the page before. (The cursor's
  textual form is parsed and printed as RFC3339, which is left out.)
\<close>

record ListFilter =
  lf_TenantID :: string
  lf_State :: "JobState option"
  lf_Queue :: "string option"
  lf_Type :: "string option"
  lf_Cursor :: "time option"
  lf_Limit :: int

definition listJobs :: "ListFilter \<Rightarrow> job_db \<Rightarrow> Job list" where
  "listJobs f db = sort_key (\<lambda>j. - job_CreatedAt j) (filter (\<lambda>j. job_TenantID j = lf_TenantID f \<and>
     (lf_State f = None \<or> lf_State f = Some (job_State j)) \<and>
     (lf_Queue f = None \<or> lf_Queue f = Some (job_Queue j)) \<and>
     (lf_Type f = None \<or> lf_Type f = Some (job_Type j)) \<and>
     (case lf_Cursor f of None \<Rightarrow> True | Some c \<Rightarrow> job_CreatedAt j < c)) (jobs db))"

definition ListPage :: "ListFilter \<Rightarrow> job_db \<Rightarrow> Job list \<times> time option" where
  "ListPage f db =
     (let limit = nat (if lf_Limit f \<le> 0 \<or> lf_Limit f > 100 then 20 else lf_Limit f);
          rows = take (limit + 1) (map scanJob (listJobs f db)) in
      if length rows > limit
      then (take limit rows, Some (job_CreatedAt (last (take limit rows))))
      else (rows, None))"

section \<open>Claim\<close>

record ClaimParams =
  cp_Queues :: "string list"
  cp_WorkerID :: string
  cp_Types :: "string list option"
  cp_MaxJobs :: int
  cp_LeaseTTL :: duration
  cp_TenantMaxInflight :: int
  cp_QuotaPrefilter :: bool

record ClaimResult =
  cr_Jobs :: "Job list"
  cr_QuotaConflicts :: int
  cr_MaxObservedInflight :: int
  cr_WorkerCapacityExhausted :: bool

definition emptyClaim :: ClaimResult where
  "emptyClaim = \<lparr>cr_Jobs = [], cr_QuotaConflicts = 0, cr_MaxObservedInflight = 0,
     cr_WorkerCapacityExhausted = False\<rparr>"

text \<open>What one claim transaction sees of its surroundings.\<close>

record claim_env =
  ce_now :: time
  ce_hostNow :: time
  ce_locked :: "string \<Rightarrow> bool"
  ce_prefilter :: "string \<Rightarrow> int"
  ce_snap :: "string \<Rightarrow> int"

text \<open>\<open>array_position(queues, queue)\<close>, for a queue that occurs in the array.\<close>

fun array_position :: "string list \<Rightarrow> string \<Rightarrow> int" where
  "array_position [] q = 0"
| "array_position (x # xs) q = (if x = q then 0 else 1 + array_position xs q)"

definition claimable :: "ClaimParams \<Rightarrow> claim_env \<Rightarrow> Job \<Rightarrow> bool" where
  "claimable p env j \<longleftrightarrow> job_Queue j \<in> set (cp_Queues p) \<and> job_State j = StateReady \<and>
     job_RunAt j \<le> ce_now env \<and>
     (case cp_Types p of None \<Rightarrow> True | Some ts \<Rightarrow> job_Type j \<in> set ts) \<and>
     (cp_TenantMaxInflight p > 0 \<and> cp_QuotaPrefilter p \<longrightarrow>
        \<not> ce_prefilter env (job_TenantID j) \<ge> cp_TenantMaxInflight p) \<and>
     \<not> ce_locked env (job_ID j)"

definition claim_rank :: "ClaimParams \<Rightarrow> Job \<Rightarrow> int \<times> int \<times> time" where
  "claim_rank p j = (array_position (cp_Queues p) (job_Queue j), - job_Priority j, job_CreatedAt j)"

text \<open>\<open>claimSelect\<close> and \<open>claimSelectQuota\<close>.\<close>

definition claimSelect :: "ClaimParams \<Rightarrow> claim_env \<Rightarrow> job_db \<Rightarrow> Job list" where
  "claimSelect p env db =
     take (nat (cp_MaxJobs p)) (sort_key (claim_rank p) (filter (claimable p env) (jobs db)))"

text \<open>
  The plan: candidates in tenant order, cut into runs of one tenant; each run is trimmed to
  the slots the counter snapshot leaves.
\<close>

function tenant_groups :: "Job list \<Rightarrow> (string \<times> Job list) list" where
  "tenant_groups [] = []"
| "tenant_groups (j # js) =
     (job_TenantID j, j # takeWhile (\<lambda>x. job_TenantID x = job_TenantID j) js) #
     tenant_groups (dropWhile (\<lambda>x. job_TenantID x = job_TenantID j) js)"
  by pat_completeness auto
termination
  by (relation "measure length") (auto simp: le_imp_less_Suc length_dropWhile_le)

record claim_plan =
  pl_planned :: "Job list"
  pl_plans :: "(string \<times> int) list"
  pl_conflicts :: int

fun plan_groups :: "int \<Rightarrow> (string \<Rightarrow> int) \<Rightarrow> (string \<times> Job list) list \<Rightarrow> claim_plan" where
  "plan_groups limit snap [] = \<lparr>pl_planned = [], pl_plans = [], pl_conflicts = 0\<rparr>"
| "plan_groups limit snap ((tenant, grp) # rest) =
     (let pl = plan_groups limit snap rest;
          available = limit - snap tenant;
          take' = (if int (length grp) > available then available else int (length grp)) in
      if take' \<le> 0 then pl\<lparr>pl_conflicts := int (length grp) + pl_conflicts pl\<rparr>
      else \<lparr>pl_planned = take (nat take') grp @ pl_planned pl,
            pl_plans = (tenant, take') # pl_plans pl,
            pl_conflicts = int (length grp) - take' + pl_conflicts pl\<rparr>)"

definition planClaims :: "ClaimParams \<Rightarrow> claim_env \<Rightarrow> Job list \<Rightarrow> claim_plan" where
  "planClaims p env candidates =
     (if cp_TenantMaxInflight p > 0
      then plan_groups (cp_TenantMaxInflight p) (ce_snap env)
             (tenant_groups (sort_key job_TenantID candidates))
      else \<lparr>pl_planned = candidates, pl_plans = [], pl_conflicts = 0\<rparr>)"

definition claimUpdate :: "string \<Rightarrow> time \<Rightarrow> time \<Rightarrow> Job \<Rightarrow> Job" where
  "claimUpdate workerID leaseUntil now j = j\<lparr>job_State := StateRunning,
     job_LeaseOwner := Some workerID, job_LeaseUntil := Some leaseUntil,
     job_Attempt := job_Attempt j + 1, job_FencingToken := job_FencingToken j + 1,
     job_StateVersion := job_StateVersion j + 1, job_UpdatedAt := now\<rparr>"

definition claimAttempt :: "string \<Rightarrow> time \<Rightarrow> Job \<Rightarrow> AttemptRow" where
  "claimAttempt workerID now j = \<lparr>at_job = job_ID j, at_no = job_Attempt j, at_worker = workerID,
     at_token = job_FencingToken j, at_started = now, at_finished = None, at_outcome = None,
     at_errCode = None, at_errMessage = None, at_durationMs = None, at_traceID = job_TraceID j\<rparr>"

text \<open>
  The claim phase: the lease update and the attempt record of each planned candidate; the unique
  index on \<open>(job_id, attempt_no)\<close> refuses a second record of one attempt.
\<close>

fun claimPhase :: "string \<Rightarrow> time \<Rightarrow> time \<Rightarrow> string set \<Rightarrow> Job list \<Rightarrow> Job list tx" where
  "claimPhase w leaseUntil now planned [] db = Inr ([], db)"
| "claimPhase w leaseUntil now planned (c # cs) db =
     (if job_ID c \<notin> planned then claimPhase w leaseUntil now planned cs db
      else case find_row (byID (job_ID c)) (jobs db) of
        None \<Rightarrow> Inl (OtherError ''claim update'')
      | Some r \<Rightarrow>
        (let j = claimUpdate w leaseUntil now r in
         if list_ex (\<lambda>a. at_job a = job_ID j \<and> at_no a = job_Attempt j) (attempts db)
         then Inl (OtherError ''claim insert attempt'')
         else bindE (claimPhase w leaseUntil now planned cs
                (db\<lparr>jobs := update_where (byID (job_ID c)) (claimUpdate w leaseUntil now) (jobs db),
                    attempts := attempts db @ [claimAttempt w now j]\<rparr>)) (\<lambda>(claimed, db').
              Inr (scanJob j # claimed, db'))))"

text \<open>
  The conditional upsert \<open>quotaReserveBatch\<close>: \<open>None\<close> when no row is returned.
\<close>

definition quotaReserveBatch :: "string \<Rightarrow> int \<Rightarrow> int \<Rightarrow> (string \<times> int) list \<Rightarrow> (int \<times> (string \<times> int) list) option" where
  "quotaReserveBatch t n limit q =
     (case map_of q t of
        None \<Rightarrow> Some (n, q @ [(t, n)])
      | Some v \<Rightarrow> if v + n \<le> limit
          then Some (v + n, update_where (\<lambda>r. fst r = t) (\<lambda>r. (t, v + n)) q) else None)"

fun reservePhase :: "int \<Rightarrow> (string \<times> int) list \<Rightarrow> int \<Rightarrow> (string \<times> int) list \<Rightarrow> (int \<times> (string \<times> int) list) option" where
  "reservePhase limit [] maxObserved q = Some (maxObserved, q)"
| "reservePhase limit ((t, n) # plans) maxObserved q =
     (case quotaReserveBatch t n limit q of
        None \<Rightarrow> None
      | Some (inflight, q') \<Rightarrow>
          reservePhase limit plans (if inflight > maxObserved then inflight else maxObserved) q')"

text \<open>
  \<open>claimInTx\<close>: the result, whether the claim is to be retried, and the database of the
  transaction.
\<close>

definition claimInTx :: "claim_env \<Rightarrow> ClaimParams \<Rightarrow> (ClaimResult \<times> bool) tx" where
  "claimInTx env p db =
     (if cp_MaxJobs p < 0 then Inl (OtherError ''claim select'')
      else let candidates = claimSelect p env db in
      if candidates = [] then Inr ((emptyClaim, False), db)
      else let leaseUntil = ce_hostNow env + cp_LeaseTTL p; pl = planClaims p env candidates in
      bindE (claimPhase (cp_WorkerID p) leaseUntil (ce_now env) (set (map job_ID (pl_planned pl))) candidates db)
        (\<lambda>(claimed, db1).
          case reservePhase (cp_TenantMaxInflight p) (pl_plans pl) 0 (quota db1) of
            None \<Rightarrow> Inr ((emptyClaim, True), db)
          | Some (maxObserved, q) \<Rightarrow>
              Inr ((\<lparr>cr_Jobs = claimed, cr_QuotaConflicts = pl_conflicts pl,
                     cr_MaxObservedInflight = maxObserved, cr_WorkerCapacityExhausted = False\<rparr>, False),
                   db1\<lparr>quota := q\<rparr>)))"

text \<open>\<open>claimOnce\<close>: rolled back when the claim is to be retried.\<close>

definition claimOnce :: "claim_env \<Rightarrow> ClaimParams \<Rightarrow> (ClaimResult \<times> bool) tx" where
  "claimOnce env p db = bindE (claimInTx env p db) (\<lambda>((result, retriable), db').
     Inr ((result, retriable), if retriable then db else db'))"

text \<open>
  \<open>Claim\<close>: at most three attempts; the list gives the surroundings of each one.
\<close>

fun claimLoop :: "(claim_env \<Rightarrow> job_db \<Rightarrow> 'e + ((ClaimResult \<times> bool) \<times> job_db)) \<Rightarrow>
    claim_env \<Rightarrow> claim_env list \<Rightarrow> job_db \<Rightarrow> 'e + (ClaimResult \<times> job_db)" where
  "claimLoop once env [] db = bindE (once env db) (\<lambda>((res, _), db'). Inr (res, db'))"
| "claimLoop once env (env' # envs) db = bindE (once env db) (\<lambda>((res, retriable), db').
     if \<not> retriable then Inr (res, db') else claimLoop once env' envs db')"

definition StoreClaim :: "claim_env \<Rightarrow> claim_env \<Rightarrow> claim_env \<Rightarrow> ClaimParams \<Rightarrow> ClaimResult tx" where
  "StoreClaim e1 e2 e3 p = claimLoop (\<lambda>env. claimOnce env p) e1 [e2, e3]"

section \<open>Claim by a registered worker\<close>

datatype WorkerClaimRejectionReason =
    WorkerClaimUnregistered | WorkerClaimCapabilityMismatch | WorkerClaimCapacityExceeded

text \<open>\<open>WorkerClaimError\<close>: the reason and the wrapped domain error, or an error of the store.\<close>

datatype worker_claim_error = WorkerClaimError WorkerClaimRejectionReason DomainError | StoreError go_error

text \<open>The upsert of \<open>RegisterWorker\<close> and the throttled liveness update.\<close>

record RegisterRequest =
  rq_WorkerId :: string
  rq_InstanceId :: string
  rq_SupportedTypes :: "string list"
  rq_Queues :: "string list"
  rq_Capacity :: int
  rq_Version :: string

definition RegisterWorker :: "RegisterRequest \<Rightarrow> string \<Rightarrow> time \<Rightarrow> job_db \<Rightarrow> job_db" where
  "RegisterWorker req sessionID now db =
     (let set_row = (\<lambda>r. r\<lparr>wk_instance := rq_InstanceId req, wk_types := rq_SupportedTypes req,
            wk_queues := rq_Queues req, wk_capacity := rq_Capacity req, wk_version := rq_Version req,
            wk_session := sessionID, wk_lastHeartbeatAt := Some now, wk_status := ''active''\<rparr>) in
      if list_ex (\<lambda>r. wk_id r = rq_WorkerId req) (workers db)
      then db\<lparr>workers := update_where (\<lambda>r. wk_id r = rq_WorkerId req) set_row (workers db)\<rparr>
      else db\<lparr>workers := workers db @ [\<lparr>wk_id = rq_WorkerId req, wk_types = rq_SupportedTypes req,
             wk_queues = rq_Queues req, wk_capacity = rq_Capacity req, wk_status = ''active'',
             wk_instance = rq_InstanceId req, wk_version = rq_Version req, wk_session = sessionID,
             wk_lastHeartbeatAt = Some now, wk_registeredAt = now\<rparr>]\<rparr>)"

definition RefreshWorkerHeartbeat :: "string \<Rightarrow> duration \<Rightarrow> time \<Rightarrow> job_db \<Rightarrow> job_db" where
  "RefreshWorkerHeartbeat workerID minInterval now db = db\<lparr>workers := update_where (\<lambda>r. wk_id r = workerID \<and>
       (case wk_lastHeartbeatAt r of None \<Rightarrow> True | Some t \<Rightarrow> t < now - minInterval))
     (\<lambda>r. r\<lparr>wk_lastHeartbeatAt := Some now\<rparr>) (workers db)\<rparr>"

fun isNonEmptySubset_loop :: "string list \<Rightarrow> string list \<Rightarrow> string list \<Rightarrow> bool" where
  "isNonEmptySubset_loop [] registered seen = True"
| "isNonEmptySubset_loop (v # vs) registered seen =
     (if v = '''' then False
      else if v \<in> set seen then False
      else if v \<notin> set registered then False
      else isNonEmptySubset_loop vs registered (v # seen))"

definition isNonEmptySubset :: "string list \<Rightarrow> string list \<Rightarrow> bool" where
  "isNonEmptySubset requested registered =
     (if requested = [] then False else isNonEmptySubset_loop requested registered [])"

definition countWorkerInflight :: "string \<Rightarrow> job_db \<Rightarrow> int" where
  "countWorkerInflight w db =
     count_where (\<lambda>j. job_LeaseOwner j = Some w \<and> inflight_state (job_State j)) (jobs db)"

definition claimForWorkerOnce ::
    "int \<Rightarrow> claim_env \<Rightarrow> ClaimParams \<Rightarrow> job_db \<Rightarrow> worker_claim_error + ((ClaimResult \<times> bool) \<times> job_db)" where
  "claimForWorkerOnce availableCapacity env p db =
     (case find_row (\<lambda>r. wk_id r = cp_WorkerID p) (workers db) of
        None \<Rightarrow> Inl (WorkerClaimError WorkerClaimUnregistered (NewError CodeNotFound ErrNotFound))
      | Some r \<Rightarrow>
        if wk_status r \<noteq> ''active''
        then Inl (WorkerClaimError WorkerClaimCapabilityMismatch invalidTransition)
        else if \<not> isNonEmptySubset (cp_Queues p) (wk_queues r) \<or>
                \<not> isNonEmptySubset (case cp_Types p of None \<Rightarrow> [] | Some ts \<Rightarrow> ts) (wk_types r)
        then Inl (WorkerClaimError WorkerClaimCapabilityMismatch (NewError CodeForbidden ErrForbidden))
        else if cp_MaxJobs p < 1 \<or> availableCapacity < 1 \<or>
                cp_MaxJobs p > wk_capacity r \<or> availableCapacity > wk_capacity r
        then Inl (WorkerClaimError WorkerClaimCapacityExceeded invalidArgument)
        else let serverAvailable = wk_capacity r - countWorkerInflight (cp_WorkerID p) db in
        if serverAvailable \<le> 0
        then Inr ((emptyClaim\<lparr>cr_WorkerCapacityExhausted := True\<rparr>, False), db)
        else let p' = p\<lparr>cp_MaxJobs := min (cp_MaxJobs p) (min availableCapacity serverAvailable)\<rparr> in
        case claimInTx env p' db of
          Inl e \<Rightarrow> Inl (StoreError e)
        | Inr ((result, retriable), db') \<Rightarrow>
            Inr ((result, retriable), if retriable then db else db'))"

text \<open>\<open>ClaimForWorker\<close>: the same loop around the worker's claim.\<close>

definition ClaimForWorker ::
    "int \<Rightarrow> claim_env \<Rightarrow> claim_env \<Rightarrow> claim_env \<Rightarrow> ClaimParams \<Rightarrow> job_db \<Rightarrow> worker_claim_error + (ClaimResult \<times> job_db)" where
  "ClaimForWorker availableCapacity e1 e2 e3 p =
     claimLoop (\<lambda>env. claimForWorkerOnce availableCapacity env p) e1 [e2, e3]"

definition GetJobState :: "string \<Rightarrow> job_db \<Rightarrow> go_error + JobState" where
  "GetJobState jobID db = (case find_row (byID jobID) (jobs db) of
     None \<Rightarrow> Inl (OtherError ''get job state'') | Some j \<Rightarrow> Inr (job_State j))"

definition GetJobRunAt :: "string \<Rightarrow> job_db \<Rightarrow> go_error + time" where
  "GetJobRunAt jobID db = (case find_row (byID jobID) (jobs db) of
     None \<Rightarrow> Inl (OtherError ''get job run_at'') | Some j \<Rightarrow> Inr (job_RunAt j))"

text \<open>Workers without a liveness timestamp come first.\<close>

definition StaleWorkers :: "duration \<Rightarrow> time \<Rightarrow> job_db \<Rightarrow> WorkerRow list" where
  "StaleWorkers olderThan now db =
     filter (\<lambda>r. wk_lastHeartbeatAt r = None) (workers db) @
     sort_key (\<lambda>r. case wk_lastHeartbeatAt r of None \<Rightarrow> 0 | Some t \<Rightarrow> t)
       (filter (\<lambda>r. case wk_lastHeartbeatAt r of None \<Rightarrow> False | Some t \<Rightarrow> t < now - olderThan) (workers db))"

section \<open>Heartbeat and cancellation\<close>

record HeartbeatResult =
  hb_LeaseUntil :: time
  hb_CancelRequested :: bool
  hb_CancelSignalLatency :: duration

definition heartbeatMatches :: "string \<Rightarrow> string \<Rightarrow> int \<Rightarrow> Job \<Rightarrow> bool" where
  "heartbeatMatches jobID workerID token j \<longleftrightarrow> job_ID j = jobID \<and> job_LeaseOwner j = Some workerID \<and>
     job_FencingToken j = token \<and> inflight_state (job_State j)"

definition StoreHeartbeat :: "string \<Rightarrow> string \<Rightarrow> int \<Rightarrow> duration \<Rightarrow> time \<Rightarrow> HeartbeatResult tx" where
  "StoreHeartbeat jobID workerID token ttl now db =
     (case find_row (heartbeatMatches jobID workerID token) (jobs db) of
        None \<Rightarrow> Inl (AsDomain staleLease)
      | Some j \<Rightarrow>
        Inr (\<lparr>hb_LeaseUntil = now + ttl, hb_CancelRequested = (job_State j = StateCancelling),
              hb_CancelSignalLatency = (case job_CancelRequestedAt j of None \<Rightarrow> 0
                 | Some t \<Rightarrow> if job_State j = StateCancelling then max (now - t) 0 else 0)\<rparr>,
             db\<lparr>jobs := update_where (heartbeatMatches jobID workerID token)
                 (\<lambda>j. j\<lparr>job_LeaseUntil := Some (now + ttl), job_UpdatedAt := now\<rparr>) (jobs db)\<rparr>))"

definition writeOutbox :: "string \<Rightarrow> string \<Rightarrow> int \<Rightarrow> string option \<Rightarrow> job_db \<Rightarrow> job_db" where
  "writeOutbox aggregateID eventType aggregateVersion traceparent db =
     db\<lparr>outbox := outbox db @ [\<lparr>ob_aggregate = aggregateID, ob_type = eventType,
         ob_payload = [(''event_type'', eventType), (''job_id'', aggregateID)],
         ob_version = aggregateVersion, ob_traceparent = traceparent\<rparr>]\<rparr>"

definition cancelWaitingMatches :: "string \<Rightarrow> string \<Rightarrow> Job \<Rightarrow> bool" where
  "cancelWaitingMatches jobID tenantID j \<longleftrightarrow> job_ID j = jobID \<and> job_TenantID j = tenantID \<and>
     job_State j \<in> {StateScheduled, StateReady, StateRetryWait}"

definition cancelRunningMatches :: "string \<Rightarrow> string \<Rightarrow> Job \<Rightarrow> bool" where
  "cancelRunningMatches jobID tenantID j \<longleftrightarrow> job_ID j = jobID \<and> job_TenantID j = tenantID \<and>
     job_State j = StateRunning"

definition cancelRow :: "JobState \<Rightarrow> time \<Rightarrow> Job \<Rightarrow> Job" where
  "cancelRow s now j = j\<lparr>job_State := s, job_StateVersion := job_StateVersion j + 1,
     job_CancelRequestedAt := Some now, job_UpdatedAt := now\<rparr>"

definition StoreCancel :: "string \<Rightarrow> string \<Rightarrow> time \<Rightarrow> unit tx" where
  "StoreCancel tenantID jobID now db =
     (case find_row (cancelWaitingMatches jobID tenantID) (jobs db) of
        Some j \<Rightarrow> Inr ((), writeOutbox jobID ''job.cancelled'' (job_StateVersion j + 1) (job_TraceContext j)
          (db\<lparr>jobs := update_where (cancelWaitingMatches jobID tenantID) (cancelRow StateCancelled now) (jobs db)\<rparr>))
      | None \<Rightarrow>
     (case find_row (cancelRunningMatches jobID tenantID) (jobs db) of
        Some j \<Rightarrow> Inr ((), writeOutbox jobID ''job.cancelling'' (job_StateVersion j + 1) (job_TraceContext j)
          (db\<lparr>jobs := update_where (cancelRunningMatches jobID tenantID) (cancelRow StateCancelling now) (jobs db)\<rparr>))
      | None \<Rightarrow>
     (case find_row (\<lambda>j. job_ID j = jobID \<and> job_TenantID j = tenantID \<and>
          job_State j \<in> {StateCancelling, StateSucceeded, StateDead, StateCancelled}) (jobs db) of
        Some j \<Rightarrow> (case Cancel j now of Inl e \<Rightarrow> Inl (AsDomain e) | Inr _ \<Rightarrow> Inr ((), db))
      | None \<Rightarrow> Inl (AsDomain (NewError CodeNotFound ErrNotFound)))))"

section \<open>Finishing an attempt\<close>

record AttemptResult =
  ar_Changed :: bool
  ar_Queue :: string
  ar_Type :: string
  ar_State :: JobState
  ar_Outcome :: string
  ar_DurationMs :: int
  ar_RunAt :: time

record finishRequest =
  fr_complete :: bool
  fr_ref :: string
  fr_code :: string
  fr_message :: string
  fr_retryable :: bool
  fr_durationMs :: int

abbreviation staleFinish :: go_error where
  "staleFinish \<equiv> AsDomain staleLease"

definition duplicateFinish :: "Job \<Rightarrow> string \<Rightarrow> int \<Rightarrow> bool \<Rightarrow> job_db \<Rightarrow> go_error + AttemptResult" where
  "duplicateFinish job workerID token complete db =
     (case find_row (\<lambda>a. at_job a = job_ID job \<and> at_no a = job_Attempt job \<and> at_worker a = workerID \<and>
          at_token a = token \<and> at_finished a \<noteq> None) (attempts db) of
        None \<Rightarrow> Inl staleFinish
      | Some a \<Rightarrow>
        (let outcome = (case at_outcome a of None \<Rightarrow> '''' | Some s \<Rightarrow> s);
             result = (\<lambda>s. \<lparr>ar_Changed = False, ar_Queue = job_Queue job, ar_Type = job_Type job,
               ar_State = s, ar_Outcome = outcome,
               ar_DurationMs = (case at_durationMs a of None \<Rightarrow> 0 | Some d \<Rightarrow> d), ar_RunAt = job_RunAt job\<rparr>) in
         if complete \<and> outcome = ''succeeded'' then Inr (result StateSucceeded)
         else if \<not> complete \<and> outcome = ''failed_retry'' then Inr (result StateRetryWait)
         else if \<not> complete \<and> outcome = ''failed_dead'' then Inr (result StateDead)
         else if \<not> complete \<and> outcome = ''cancelled'' then Inr (result StateCancelled)
         else Inl staleFinish))"

definition quotaRelease :: "string \<Rightarrow> (string \<times> int) list \<Rightarrow> (string \<times> int) list" where
  "quotaRelease t q = update_where (\<lambda>r. fst r = t \<and> snd r > 0) (\<lambda>r. (fst r, snd r - 1)) q"

definition unfinishedAttempt :: "Job \<Rightarrow> string \<Rightarrow> int \<Rightarrow> AttemptRow \<Rightarrow> bool" where
  "unfinishedAttempt job workerID token a \<longleftrightarrow> at_job a = job_ID job \<and> at_no a = job_Attempt job \<and>
     at_worker a = workerID \<and> at_token a = token \<and> at_finished a = None"

text \<open>
  The domain decision on the locked row, with the outcome name that \<open>finishAttempt\<close> gives it:
  \<open>jitter\<close> is the random delay below one second.
\<close>

definition truncMicro :: "time \<Rightarrow> time" where
  "truncMicro t = t - t mod 1000"

definition finishOutcome :: "JobState \<Rightarrow> string" where
  "finishOutcome s = (if s = StateRetryWait then ''failed_retry'' else if s = StateDead then ''failed_dead''
     else if s = StateCancelled then ''cancelled'' else '''')"

definition finishDecision :: "finishRequest \<Rightarrow> string \<Rightarrow> int \<Rightarrow> duration \<Rightarrow> time \<Rightarrow> Job \<Rightarrow> DomainError + (Job \<times> string)" where
  "finishDecision req workerID token jitter now job =
     (if fr_complete req
      then bindE (CompleteWithResult job workerID token (fr_ref req) now) (\<lambda>j. Inr (j, ''succeeded''))
      else bindE (Fail job workerID token (fr_retryable req)
             (truncMicro (now + Backoff (job_Attempt job) Second (5 * Minute) jitter)) now)
             (\<lambda>j. Inr (j, finishOutcome (job_State j))))"

text \<open>
  \<open>finishUpdate\<close>: the unfinished attempt is closed and the job row set from the decided values;
  no unfinished attempt means no row is affected.
\<close>

definition finishAttempt :: "string \<Rightarrow> string \<Rightarrow> int \<Rightarrow> finishRequest \<Rightarrow> duration \<Rightarrow> time \<Rightarrow> AttemptResult tx" where
  "finishAttempt jobID workerID token req jitter now db =
     (if fr_durationMs req < 0 then Inl (AsDomain invalidArgument)
      else case find_row (byID jobID) (jobs db) of
        None \<Rightarrow> Inl staleFinish
      | Some job \<Rightarrow>
        if job_FencingToken job \<noteq> token \<or> token \<le> 0 then Inl staleFinish
        else if job_State job \<noteq> StateRunning \<and> job_State job \<noteq> StateCancelling
        then bindE (duplicateFinish job workerID token (fr_complete req) db) (\<lambda>r. Inr (r, db))
        else if job_LeaseOwner job \<noteq> Some workerID then Inl staleFinish
        else case finishDecision req workerID token jitter now job of
          Inl e \<Rightarrow> Inl (AsDomain e)
        | Inr (j', outcome) \<Rightarrow>
          if \<not> list_ex (unfinishedAttempt job workerID token) (attempts db) then Inl staleFinish
          else let db1 = db\<lparr>
              attempts := update_where (unfinishedAttempt job workerID token)
                (\<lambda>a. a\<lparr>at_finished := Some now, at_outcome := Some outcome,
                       at_errCode := (if fr_complete req then None else Some (fr_code req)),
                       at_errMessage := (if fr_complete req then None else Some (fr_message req)),
                       at_durationMs := Some (fr_durationMs req)\<rparr>) (attempts db),
              jobs := update_where (byID jobID)
                (\<lambda>r. r\<lparr>job_State := job_State j', job_RunAt := job_RunAt j', job_LeaseOwner := job_LeaseOwner j',
                       job_LeaseUntil := job_LeaseUntil j', job_ResultRef := job_ResultRef j',
                       job_StateVersion := job_StateVersion r + 1, job_UpdatedAt := now\<rparr>) (jobs db),
              quota := quotaRelease (job_TenantID job) (quota db)\<rparr> in
            Inr (\<lparr>ar_Changed = True, ar_Queue = job_Queue job, ar_Type = job_Type job,
                   ar_State = job_State j', ar_Outcome = outcome, ar_DurationMs = fr_durationMs req,
                   ar_RunAt = job_RunAt j'\<rparr>,
                 writeOutbox jobID (''job.'' @ outcome) (job_StateVersion j') (job_TraceContext job) db1))"

definition CompleteAttempt :: "string \<Rightarrow> string \<Rightarrow> int \<Rightarrow> string \<Rightarrow> int \<Rightarrow> duration \<Rightarrow> time \<Rightarrow> AttemptResult tx" where
  "CompleteAttempt jobID workerID token ref durationMs jitter now db =
     (case ValidateResultRef ref of Inl e \<Rightarrow> Inl (AsDomain e)
      | Inr _ \<Rightarrow> finishAttempt jobID workerID token
          \<lparr>fr_complete = True, fr_ref = ref, fr_code = '''', fr_message = '''', fr_retryable = False,
            fr_durationMs = durationMs\<rparr> jitter now db)"

definition FailAttempt :: "string \<Rightarrow> string \<Rightarrow> int \<Rightarrow> string \<Rightarrow> string \<Rightarrow> bool \<Rightarrow> int \<Rightarrow> duration \<Rightarrow> time \<Rightarrow> AttemptResult tx" where
  "FailAttempt jobID workerID token code message retryable durationMs jitter now db =
     finishAttempt jobID workerID token
       \<lparr>fr_complete = False, fr_ref = '''', fr_code = code, fr_message = message,
         fr_retryable = retryable, fr_durationMs = durationMs\<rparr> jitter now db"

text \<open>\<open>Complete\<close> and \<open>Fail\<close> turn an acknowledged duplicate into an error.\<close>

definition StoreComplete :: "string \<Rightarrow> string \<Rightarrow> int \<Rightarrow> string \<Rightarrow> int \<Rightarrow> duration \<Rightarrow> time \<Rightarrow> unit tx" where
  "StoreComplete jobID workerID token ref durationMs jitter now db =
     bindE (CompleteAttempt jobID workerID token ref durationMs jitter now db) (\<lambda>(r, db').
       if \<not> ar_Changed r then Inl (AsDomain alreadyTerminal) else Inr ((), db'))"

definition StoreFail :: "string \<Rightarrow> string \<Rightarrow> int \<Rightarrow> string \<Rightarrow> string \<Rightarrow> bool \<Rightarrow> int \<Rightarrow> duration \<Rightarrow> time \<Rightarrow> unit tx" where
  "StoreFail jobID workerID token code message retryable durationMs jitter now db =
     bindE (FailAttempt jobID workerID token code message retryable durationMs jitter now db) (\<lambda>(r, db').
       if \<not> ar_Changed r then Inl staleFinish else Inr ((), db'))"

section \<open>Promotion, recovery and quota repair\<close>

definition promotable :: "(string \<Rightarrow> bool) \<Rightarrow> time \<Rightarrow> Job \<Rightarrow> bool" where
  "promotable locked now j \<longleftrightarrow> job_State j \<in> {StateScheduled, StateRetryWait} \<and> job_RunAt j \<le> now \<and>
     \<not> locked (job_ID j)"

definition PromoteReady :: "(string \<Rightarrow> bool) \<Rightarrow> time \<Rightarrow> nat \<Rightarrow> job_db \<Rightarrow> nat \<times> job_db" where
  "PromoteReady locked now batchSize db =
     (let candidates = map job_ID (take batchSize (sort_key job_RunAt (filter (promotable locked now) (jobs db)))) in
      (length candidates,
       db\<lparr>jobs := update_where (\<lambda>j. job_ID j \<in> set candidates)
          (\<lambda>j. j\<lparr>job_State := StateReady, job_StateVersion := job_StateVersion j + 1, job_UpdatedAt := now\<rparr>)
          (jobs db)\<rparr>))"

definition leaseExpired :: "JobState \<Rightarrow> (string \<Rightarrow> bool) \<Rightarrow> time \<Rightarrow> Job \<Rightarrow> bool" where
  "leaseExpired s locked now j \<longleftrightarrow> job_State j = s \<and>
     (case job_LeaseUntil j of None \<Rightarrow> False | Some t \<Rightarrow> t < now) \<and> \<not> locked (job_ID j)"

definition recoverRunningRow :: "time \<Rightarrow> Job \<Rightarrow> Job" where
  "recoverRunningRow now j = j\<lparr>job_State := StateReady, job_LeaseOwner := None, job_LeaseUntil := None,
     job_StateVersion := job_StateVersion j + 1, job_UpdatedAt := now\<rparr>"

definition recoverCancellingRow :: "time \<Rightarrow> Job \<Rightarrow> Job" where
  "recoverCancellingRow now j = j\<lparr>job_State := StateCancelled,
     job_StateVersion := job_StateVersion j + 1, job_UpdatedAt := now\<rparr>"

text \<open>
  \<open>writeRecoveryAudit\<close>: the attempt is closed as \<open>lease_expired\<close> (inserted when it is
  missing) and an event is written; \<open>j\<close> is the row before the update.
\<close>

definition recoveryAttempt :: "time \<Rightarrow> Job \<Rightarrow> AttemptRow list \<Rightarrow> AttemptRow list" where
  "recoveryAttempt now j as =
     (let same = (\<lambda>a. at_job a = job_ID j \<and> at_no a = job_Attempt j) in
      if list_ex same as
      then update_where same (\<lambda>a. a\<lparr>at_finished := Some now, at_outcome := Some ''lease_expired''\<rparr>) as
      else as @ [\<lparr>at_job = job_ID j, at_no = job_Attempt j,
          at_worker = (case job_LeaseOwner j of None \<Rightarrow> '''' | Some w \<Rightarrow> w),
          at_token = job_FencingToken j, at_started = now, at_finished = Some now,
          at_outcome = Some ''lease_expired'', at_errCode = None, at_errMessage = None,
          at_durationMs = None, at_traceID = None\<rparr>])"

definition recoveryEvent :: "Job \<Rightarrow> OutboxRow" where
  "recoveryEvent j = \<lparr>ob_aggregate = job_ID j, ob_type = ''job.lease_expired'',
     ob_payload = [(''attempt'', show_int (job_Attempt j)), (''job_id'', job_ID j),
        (''queue'', job_Queue j), (''worker'', case job_LeaseOwner j of None \<Rightarrow> '''' | Some w \<Rightarrow> w)],
     ob_version = job_StateVersion j + 1, ob_traceparent = job_TraceContext j\<rparr>"

fun writeRecoveryAudits :: "time \<Rightarrow> Job list \<Rightarrow> job_db \<Rightarrow> job_db" where
  "writeRecoveryAudits now [] db = db"
| "writeRecoveryAudits now (j # js) db = writeRecoveryAudits now js
     (db\<lparr>attempts := recoveryAttempt now j (attempts db), outbox := outbox db @ [recoveryEvent j]\<rparr>)"

definition quotaReleaseN :: "string \<Rightarrow> int \<Rightarrow> (string \<times> int) list \<Rightarrow> (string \<times> int) list" where
  "quotaReleaseN t n q = update_where (\<lambda>r. fst r = t) (\<lambda>r. (fst r, max (snd r - n) 0)) q"

text \<open>One release per tenant, in ascending order of the tenant.\<close>

definition releaseQuotaByTenant :: "string list \<Rightarrow> (string \<times> int) list \<Rightarrow> (string \<times> int) list" where
  "releaseQuotaByTenant released q =
     fold (\<lambda>t. quotaReleaseN t (count_where (\<lambda>x. x = t) released)) (sort (remdups released)) q"

definition RecoverExpiredAttempts :: "(string \<Rightarrow> bool) \<Rightarrow> time \<Rightarrow> job_db \<Rightarrow> Job list \<times> job_db" where
  "RecoverExpiredAttempts locked now db =
     (let running = filter (leaseExpired StateRunning locked now) (jobs db);
          db1 = writeRecoveryAudits now running
            (db\<lparr>jobs := update_where (leaseExpired StateRunning locked now) (recoverRunningRow now) (jobs db)\<rparr>);
          cancelling = filter (leaseExpired StateCancelling locked now) (jobs db1);
          db2 = writeRecoveryAudits now cancelling
            (db1\<lparr>jobs := update_where (leaseExpired StateCancelling locked now) (recoverCancellingRow now) (jobs db1)\<rparr>)
      in (running @ cancelling,
          db2\<lparr>quota := releaseQuotaByTenant (map job_TenantID (running @ cancelling)) (quota db2)\<rparr>))"

definition inflightOf :: "string \<Rightarrow> Job list \<Rightarrow> int" where
  "inflightOf t js = count_where (\<lambda>j. job_TenantID j = t \<and> inflight_state (job_State j)) js"

definition counterOf :: "(string \<times> int) list \<Rightarrow> string \<Rightarrow> int" where
  "counterOf q t = (case map_of q t of None \<Rightarrow> 0 | Some v \<Rightarrow> v)"

definition QuotaDrift :: "job_db \<Rightarrow> (string \<times> int \<times> int) list" where
  "QuotaDrift db =
     (let tenants = sort (remdups (map fst (quota db) @
            map job_TenantID (filter (\<lambda>j. inflight_state (job_State j)) (jobs db)))) in
      map (\<lambda>t. (t, counterOf (quota db) t, inflightOf t (jobs db)))
        (filter (\<lambda>t. counterOf (quota db) t \<noteq> inflightOf t (jobs db)) tenants))"

text \<open>
  \<open>quotaRepairFromJobs\<close>: counters of tenants with jobs in flight are set to the count (a
  missing row is inserted), positive counters of the others to zero; the number of rows
  changed is returned.
\<close>

definition RepairQuotaCounters :: "job_db \<Rightarrow> int \<times> job_db" where
  "RepairQuotaCounters db =
     (let actual = remdups (map job_TenantID (filter (\<lambda>j. inflight_state (job_State j)) (jobs db)));
          q = quota db;
          inserted = map (\<lambda>t. (t, inflightOf t (jobs db))) (filter (\<lambda>t. t \<notin> fst ` set q) actual);
          differs = (\<lambda>r. if fst r \<in> set actual then snd r \<noteq> inflightOf (fst r) (jobs db) else snd r > 0) in
      (int (length inserted) + count_where differs q,
       db\<lparr>quota := update_where differs (\<lambda>r. (fst r, inflightOf (fst r) (jobs db))) q @ inserted\<rparr>))"

section \<open>Scheduler leadership\<close>

definition claimLeadershipForced :: "string \<Rightarrow> time \<Rightarrow> LeadershipRow option \<Rightarrow> int \<times> LeadershipRow" where
  "claimLeadershipForced instanceID now row =
     (let epoch = (case row of None \<Rightarrow> 1 | Some r \<Rightarrow> ld_epoch r + 1) in
      (epoch, \<lparr>ld_leader = Some instanceID, ld_epoch = epoch, ld_lastSeen = now\<rparr>))"

definition claimLeadershipIfStale ::
    "string \<Rightarrow> duration \<Rightarrow> time \<Rightarrow> LeadershipRow option \<Rightarrow> (int \<times> LeadershipRow) option" where
  "claimLeadershipIfStale instanceID staleAfter now row =
     (if (case row of None \<Rightarrow> True | Some r \<Rightarrow>
           ld_leader r = None \<or> ld_lastSeen r < now - staleAfter \<or> ld_leader r = Some instanceID)
      then Some (claimLeadershipForced instanceID now row) else None)"

text \<open>
  \<open>lockAcquired\<close> is the answer of \<open>pg_try_advisory_lock\<close>; the result is the epoch when the
  instance became leader.
\<close>

definition TryBecomeLeader :: "bool \<Rightarrow> string \<Rightarrow> duration \<Rightarrow> time \<Rightarrow> job_db \<Rightarrow> int option \<times> job_db" where
  "TryBecomeLeader lockAcquired instanceID staleAfter now db =
     (if lockAcquired then
        (let (epoch, row) = claimLeadershipForced instanceID now (leadership db) in
         (Some epoch, db\<lparr>leadership := Some row\<rparr>))
      else case claimLeadershipIfStale instanceID staleAfter now (leadership db) of
        None \<Rightarrow> (None, db)
      | Some (epoch, row) \<Rightarrow>
          ((if epoch = 0 then None else Some epoch), db\<lparr>leadership := Some row\<rparr>))"

definition leads :: "string \<Rightarrow> int \<Rightarrow> LeadershipRow \<Rightarrow> bool" where
  "leads instanceID epoch r \<longleftrightarrow> ld_leader r = Some instanceID \<and> ld_epoch r = epoch"

definition HeartbeatLeadership :: "string \<Rightarrow> int \<Rightarrow> time \<Rightarrow> job_db \<Rightarrow> bool \<times> job_db" where
  "HeartbeatLeadership instanceID epoch now db =
     (case leadership db of
        Some r \<Rightarrow> if leads instanceID epoch r then (True, db\<lparr>leadership := Some (r\<lparr>ld_lastSeen := now\<rparr>)\<rparr>)
                  else (False, db)
      | None \<Rightarrow> (False, db))"

definition ReleaseLeadership :: "string \<Rightarrow> int \<Rightarrow> job_db \<Rightarrow> job_db" where
  "ReleaseLeadership instanceID epoch db =
     (case leadership db of
        Some r \<Rightarrow> if leads instanceID epoch r then db\<lparr>leadership := Some (r\<lparr>ld_leader := None\<rparr>)\<rparr> else db
      | None \<Rightarrow> db)"

end
