(* ===== verification/JobStoreInv.thy ===== *)
theory JobStoreInv
  imports JobStore
begin

text \<open>
  The invariants of the job store and the steps it takes. \<open>store_inv\<close> ties the tables
  together: unique keys, the attempt records of a job against its lease and fencing token, and
  the outbox against the state versions. \<open>quota_inv\<close> says that the derived tenant counters
  are exact. Each operation of \<open>JobStore\<close> keeps both.
\<close>

section \<open>Invariants\<close>

definition attempts_of :: "string \<Rightarrow> AttemptRow list \<Rightarrow> AttemptRow list" where
  "attempts_of i as = filter (\<lambda>a. at_job a = i) as"

text \<open>
  One job against its attempts: the fencing token is the attempt number, no attempt is ahead of
  the job, an unfinished attempt belongs to the current lease, and a job in flight has one.
\<close>

definition lease_ok :: "AttemptRow list \<Rightarrow> Job \<Rightarrow> bool" where
  "lease_ok as j \<longleftrightarrow>
     0 \<le> job_Attempt j \<and> job_FencingToken j = job_Attempt j \<and> 1 \<le> job_StateVersion j \<and>
     (\<forall>a \<in> set (attempts_of (job_ID j) as). at_no a \<le> job_Attempt j \<and> at_token a = at_no a \<and> 0 < at_no a \<and>
        (at_finished a = None \<longrightarrow> inflight_state (job_State j) \<and> at_no a = job_Attempt j)) \<and>
     (inflight_state (job_State j) \<longrightarrow> job_LeaseUntil j \<noteq> None \<and>
        (\<exists>a \<in> set (attempts_of (job_ID j) as). \<exists>w. job_LeaseOwner j = Some w \<and>
           unfinishedAttempt j w (job_FencingToken j) a))"

definition idem_ok :: "Job list \<Rightarrow> bool" where
  "idem_ok js \<longleftrightarrow> (\<forall>r \<in> set js. \<forall>s \<in> set js. job_IdempotencyKey r \<noteq> None \<longrightarrow>
     job_TenantID r = job_TenantID s \<longrightarrow> job_IdempotencyKey r = job_IdempotencyKey s \<longrightarrow> job_ID r = job_ID s)"

definition keys_ok :: "job_db \<Rightarrow> bool" where
  "keys_ok db \<longleftrightarrow> distinct (map job_ID (jobs db)) \<and>
     distinct (map (\<lambda>a. (at_job a, at_no a)) (attempts db)) \<and>
     (\<forall>a \<in> set (attempts db). at_job a \<in> job_ID ` set (jobs db)) \<and>
     idem_ok (jobs db)"

definition outbox_ok :: "job_db \<Rightarrow> bool" where
  "outbox_ok db \<longleftrightarrow> distinct (map (\<lambda>e. (ob_aggregate e, ob_version e)) (outbox db)) \<and>
     (\<forall>e \<in> set (outbox db). \<exists>j \<in> set (jobs db). job_ID j = ob_aggregate e \<and> ob_version e \<le> job_StateVersion j)"

definition store_inv :: "job_db \<Rightarrow> bool" where
  "store_inv db \<longleftrightarrow> keys_ok db \<and> outbox_ok db \<and> (\<forall>j \<in> set (jobs db). lease_ok (attempts db) j)"

definition quota_inv :: "int \<Rightarrow> job_db \<Rightarrow> bool" where
  "quota_inv limit db \<longleftrightarrow> (\<forall>t. counterOf (quota db) t = inflightOf t (jobs db) \<and>
     inflightOf t (jobs db) \<le> limit)"

text \<open>The range in which PostgreSQL stores a \<open>bigint\<close> state version.\<close>

definition bigint_ok :: "job_db \<Rightarrow> bool" where
  "bigint_ok db \<longleftrightarrow> (\<forall>j \<in> set (jobs db). job_StateVersion j < 9223372036854775808)"

lemma store_inv_ids: "store_inv db \<Longrightarrow> distinct (map job_ID (jobs db))"
  by (simp add: store_inv_def keys_ok_def)

lemma store_inv_lease: "store_inv db \<Longrightarrow> j \<in> set (jobs db) \<Longrightarrow> lease_ok (attempts db) j"
  by (simp add: store_inv_def)

lemma same_id_same_row:
  assumes "store_inv db" "r \<in> set (jobs db)" "s \<in> set (jobs db)" "job_ID r = job_ID s"
  shows "r = s"
  using assms by (metis store_inv_ids distinct_map inj_onD)

lemma attempts_of_append [simp]:
  "attempts_of i (as @ bs) = attempts_of i as @ attempts_of i bs"
  by (simp add: attempts_of_def)

lemma lease_ok_cong:
  assumes "attempts_of (job_ID j) as = attempts_of (job_ID j) bs"
  shows "lease_ok as j = lease_ok bs j"
  using assms by (simp add: lease_ok_def)

lemma idem_ok_map:
  assumes "idem_ok js"
    and "\<And>r. r \<in> set js \<Longrightarrow> job_ID (g r) = job_ID r"
    and "\<And>r. r \<in> set js \<Longrightarrow> job_TenantID (g r) = job_TenantID r"
    and "\<And>r. r \<in> set js \<Longrightarrow> job_IdempotencyKey (g r) = job_IdempotencyKey r"
  shows "idem_ok (map g js)"
  unfolding idem_ok_def
proof (intro ballI impI)
  fix r s
  assume rs: "r \<in> set (map g js)" "s \<in> set (map g js)" and k: "job_IdempotencyKey r \<noteq> None"
    "job_TenantID r = job_TenantID s" "job_IdempotencyKey r = job_IdempotencyKey s"
  from rs obtain r0 s0 where "r0 \<in> set js" "r = g r0" "s0 \<in> set js" "s = g s0" by auto
  with k assms show "job_ID r = job_ID s" unfolding idem_ok_def by metis
qed

lemma idem_ok_snoc:
  assumes "idem_ok js"
    and "job_IdempotencyKey row \<noteq> None \<Longrightarrow>
      \<forall>r \<in> set js. \<not> (job_TenantID r = job_TenantID row \<and> job_IdempotencyKey r = job_IdempotencyKey row)"
  shows "idem_ok (js @ [row])"
  unfolding idem_ok_def
proof (intro ballI impI)
  fix r s
  assume rs: "r \<in> set (js @ [row])" "s \<in> set (js @ [row])" and k: "job_IdempotencyKey r \<noteq> None"
    "job_TenantID r = job_TenantID s" "job_IdempotencyKey r = job_IdempotencyKey s"
  consider "r \<in> set js" "s \<in> set js" | "r = row" "s = row" | "r = row" "s \<in> set js" | "r \<in> set js" "s = row"
    using rs by auto
  then show "job_ID r = job_ID s"
  proof cases
    case 1
    with assms(1) k show ?thesis unfolding idem_ok_def by metis
  qed (use assms(2) k in metis)+
qed

text \<open>
  The shape of every change: rows are updated in place, keeping their identity and never
  lowering their version; the new events concern rows whose version rose, one event per row.
\<close>

lemma store_inv_change:
  assumes inv: "store_inv db"
    and jobs': "jobs db' = update_where P f (jobs db)"
    and f: "\<And>r. r \<in> set (jobs db) \<Longrightarrow> P r \<Longrightarrow> job_ID (f r) = job_ID r \<and> job_TenantID (f r) = job_TenantID r \<and>
      job_IdempotencyKey (f r) = job_IdempotencyKey r \<and> job_StateVersion r \<le> job_StateVersion (f r)"
    and att: "distinct (map (\<lambda>a. (at_job a, at_no a)) (attempts db'))"
      "\<And>a. a \<in> set (attempts db') \<Longrightarrow> at_job a \<in> job_ID ` set (jobs db)"
    and lease: "\<And>r. r \<in> set (jobs db) \<Longrightarrow> P r \<Longrightarrow> lease_ok (attempts db') (f r)"
      "\<And>r. r \<in> set (jobs db) \<Longrightarrow> \<not> P r \<Longrightarrow> lease_ok (attempts db') r"
    and out: "outbox db' = outbox db @ es" "distinct (map ob_aggregate es)"
      "\<And>e. e \<in> set es \<Longrightarrow> \<exists>r \<in> set (jobs db). P r \<and> ob_aggregate e = job_ID r \<and>
        ob_version e = job_StateVersion (f r) \<and> job_StateVersion r < job_StateVersion (f r)"
  shows "store_inv db'"
proof -
  let ?g = "\<lambda>r. if P r then f r else r"
  have jobs_map: "jobs db' = map ?g (jobs db)"
    by (simp add: jobs' update_where_def)
  have g: "job_ID (?g r) = job_ID r" "job_TenantID (?g r) = job_TenantID r"
      "job_IdempotencyKey (?g r) = job_IdempotencyKey r" "job_StateVersion r \<le> job_StateVersion (?g r)"
      if "r \<in> set (jobs db)" for r
    using f [OF that] by auto
  have ids: "map job_ID (jobs db') = map job_ID (jobs db)"
    using g(1) by (simp add: jobs_map)
  then have ids_set: "job_ID ` set (jobs db') = job_ID ` set (jobs db)"
    by (metis set_map)
  have keys: "keys_ok db'"
    unfolding keys_ok_def
  proof (intro conjI)
    show "distinct (map job_ID (jobs db'))" using ids store_inv_ids [OF inv] by simp
    show "idem_ok (jobs db')"
      unfolding jobs_map using inv g by (intro idem_ok_map) (simp_all add: store_inv_def keys_ok_def)
  qed (use att ids_set in auto)
  have old: "\<exists>j \<in> set (jobs db'). job_ID j = ob_aggregate e \<and> ob_version e \<le> job_StateVersion j"
    if "e \<in> set (outbox db)" for e
  proof -
    from inv that obtain j where j: "j \<in> set (jobs db)" "job_ID j = ob_aggregate e" "ob_version e \<le> job_StateVersion j"
      unfolding store_inv_def outbox_ok_def by blast
    then have "?g j \<in> set (jobs db')" by (simp add: jobs_map)
    with j g(1,4) [OF j(1)] show ?thesis by (intro bexI [of _ "?g j"]) auto
  qed
  have new: "\<exists>j \<in> set (jobs db'). job_ID j = ob_aggregate e \<and> ob_version e \<le> job_StateVersion j"
    if "e \<in> set es" for e
  proof -
    from out(3) [OF that] obtain r where r: "r \<in> set (jobs db)" "P r" "ob_aggregate e = job_ID r"
        "ob_version e = job_StateVersion (f r)" by blast
    then have "f r \<in> set (jobs db')" by (auto simp: jobs_map)
    with r f [OF r(1,2)] show ?thesis by (intro bexI [of _ "f r"]) auto
  qed
  have fresh: "(ob_aggregate e, ob_version e) \<noteq> (ob_aggregate e', ob_version e')"
    if e: "e \<in> set es" and e': "e' \<in> set (outbox db)" for e e'
  proof
    assume eq: "(ob_aggregate e, ob_version e) = (ob_aggregate e', ob_version e')"
    from out(3) [OF e] obtain r where r: "r \<in> set (jobs db)" "ob_aggregate e = job_ID r"
        "job_StateVersion r < ob_version e" by fastforce
    from inv e' obtain j where j: "j \<in> set (jobs db)" "job_ID j = ob_aggregate e'" "ob_version e' \<le> job_StateVersion j"
      unfolding store_inv_def outbox_ok_def by blast
    with r eq have "r = j" by (intro same_id_same_row [OF inv]) auto
    with r(3) j(3) eq show False by simp
  qed
  have "distinct (map (\<lambda>e. (ob_aggregate e, ob_version e)) es)"
    using out(2) by (simp add: distinct_map inj_on_def)
  moreover have "distinct (map (\<lambda>e. (ob_aggregate e, ob_version e)) (outbox db))"
    using inv by (simp add: store_inv_def outbox_ok_def)
  moreover have "(\<lambda>e. (ob_aggregate e, ob_version e)) ` set (outbox db) \<inter>
      (\<lambda>e. (ob_aggregate e, ob_version e)) ` set es = {}"
    using fresh by (auto simp: image_iff) (metis fresh)+
  ultimately have "outbox_ok db'"
    using old new unfolding outbox_ok_def out(1) by auto
  moreover have "\<forall>j \<in> set (jobs db'). lease_ok (attempts db') j"
    unfolding jobs' using lease by (intro ball_update_where) auto
  ultimately show ?thesis using keys by (simp add: store_inv_def)
qed

text \<open>A change to the other tables alone.\<close>

lemma store_inv_frame:
  assumes "store_inv db" and "jobs db' = jobs db" "attempts db' = attempts db" "outbox db' = outbox db"
  shows "store_inv db'"
  using assms by (simp add: store_inv_def keys_ok_def outbox_ok_def)

section \<open>Rows against their attempts\<close>

text \<open>A row that keeps its lease, or keeps having none.\<close>

lemma lease_ok_same:
  assumes "lease_ok as j" and "job_ID j' = job_ID j" "job_Attempt j' = job_Attempt j"
    "job_FencingToken j' = job_FencingToken j" "job_StateVersion j \<le> job_StateVersion j'"
    "inflight_state (job_State j') = inflight_state (job_State j)"
    "inflight_state (job_State j) \<Longrightarrow> job_LeaseOwner j' = job_LeaseOwner j \<and> job_LeaseUntil j' \<noteq> None"
  shows "lease_ok as j'"
  using assms unfolding lease_ok_def unfinishedAttempt_def by auto

text \<open>The unfinished attempts of a row are closed and the row leaves the states in flight.\<close>

lemma lease_ok_close:
  assumes ok: "lease_ok as j" and row: "job_ID j' = job_ID j" "job_Attempt j' = job_Attempt j"
      "job_FencingToken j' = job_FencingToken j" "job_StateVersion j \<le> job_StateVersion j'"
      "\<not> inflight_state (job_State j')"
    and close: "\<And>a. at_job (close a) = at_job a \<and> at_no (close a) = at_no a \<and> at_token (close a) = at_token a \<and>
      at_finished (close a) \<noteq> None"
    and all: "\<And>a. a \<in> set as \<Longrightarrow> at_job a = job_ID j \<Longrightarrow> at_finished a = None \<Longrightarrow> M a"
  shows "lease_ok (update_where M close as) j'"
proof -
  have "at_no b \<le> job_Attempt j \<and> at_token b = at_no b \<and> 0 < at_no b \<and> at_finished b \<noteq> None"
    if b: "b \<in> set (update_where M close as)" "at_job b = job_ID j" for b
  proof -
    from b(1) obtain a where a: "a \<in> set as" "b = (if M a then close a else a)"
      by (auto simp: set_update_where)
    with b(2) close have "at_job a = job_ID j" by (auto split: if_splits)
    with ok a(1) have "at_no a \<le> job_Attempt j" "at_token a = at_no a" "0 < at_no a"
      by (auto simp: lease_ok_def attempts_of_def)
    with a all [OF a(1) \<open>at_job a = job_ID j\<close>] close [of a] show ?thesis by auto
  qed
  with ok row show ?thesis by (auto simp: lease_ok_def attempts_of_def)
qed

lemma attempts_of_update_other:
  assumes "\<And>a. M a \<Longrightarrow> at_job a \<noteq> i" and "\<And>a. at_job (close a) = at_job a"
  shows "attempts_of i (update_where M close as) = attempts_of i as"
  unfolding attempts_of_def using assms by (intro filter_update_where_other) auto

lemma unfinished_is_current:
  assumes "store_inv db" "j \<in> set (jobs db)" "a \<in> set (attempts db)" "at_job a = job_ID j" "at_finished a = None"
  shows "inflight_state (job_State j)" "at_no a = job_Attempt j" "at_token a = job_FencingToken j"
    "job_LeaseOwner j = Some (at_worker a)"
proof -
  from assms(1,2) have ok: "lease_ok (attempts db) j" by (rule store_inv_lease)
  with assms(3-5) show fl: "inflight_state (job_State j)" and no: "at_no a = job_Attempt j"
      and "at_token a = job_FencingToken j"
    by (auto simp: lease_ok_def attempts_of_def)
  from ok fl obtain b w where b: "b \<in> set (attempts db)" "at_job b = job_ID j" "job_LeaseOwner j = Some w"
      "at_no b = job_Attempt j" "at_worker b = w"
    by (auto simp: lease_ok_def attempts_of_def unfinishedAttempt_def)
  from assms(1) have "distinct (map (\<lambda>a. (at_job a, at_no a)) (attempts db))"
    by (simp add: store_inv_def keys_ok_def)
  with b assms(3,4) no have "a = b" by (auto simp: distinct_map inj_on_def)
  with b show "job_LeaseOwner j = Some (at_worker a)" by simp
qed

section \<open>Every operation keeps the invariant\<close>

lemma distinct_attempt_keys: "store_inv db \<Longrightarrow> distinct (map (\<lambda>a. (at_job a, at_no a)) (attempts db))"
  by (simp add: store_inv_def keys_ok_def)

lemma attempt_has_job: "store_inv db \<Longrightarrow> a \<in> set (attempts db) \<Longrightarrow> at_job a \<in> job_ID ` set (jobs db)"
  by (simp add: store_inv_def keys_ok_def)

text \<open>A change of rows that keep their leases, with at most one event.\<close>

lemma store_inv_rows:
  assumes "store_inv db"
    and "jobs db' = update_where P f (jobs db)" "attempts db' = attempts db" "outbox db' = outbox db @ es"
    and "\<And>r. r \<in> set (jobs db) \<Longrightarrow> P r \<Longrightarrow> job_ID (f r) = job_ID r \<and> job_TenantID (f r) = job_TenantID r \<and>
      job_IdempotencyKey (f r) = job_IdempotencyKey r \<and> job_StateVersion r \<le> job_StateVersion (f r)"
    and "\<And>r. r \<in> set (jobs db) \<Longrightarrow> P r \<Longrightarrow> lease_ok (attempts db) (f r)"
    and "distinct (map ob_aggregate es)"
    and "\<And>e. e \<in> set es \<Longrightarrow> \<exists>r \<in> set (jobs db). P r \<and> ob_aggregate e = job_ID r \<and>
        ob_version e = job_StateVersion (f r) \<and> job_StateVersion r < job_StateVersion (f r)"
  shows "store_inv db'"
proof (rule store_inv_change [OF assms(1,2,5) _ _ _ _ assms(4,7,8)])
  show "distinct (map (\<lambda>a. (at_job a, at_no a)) (attempts db'))"
    using distinct_attempt_keys [OF assms(1)] assms(3) by simp
  show "at_job a \<in> job_ID ` set (jobs db)" if "a \<in> set (attempts db')" for a
    using attempt_has_job [OF assms(1)] that assms(3) by simp
qed (use assms(3,6) store_inv_lease [OF assms(1)] in simp_all)

lemma StoreHeartbeat_inv:
  assumes "store_inv db" and "StoreHeartbeat i w t ttl now db = Inr (r, db')"
  shows "store_inv db'"
proof (rule store_inv_rows [where P = "heartbeatMatches i w t" and es = "[]", OF assms(1)])
  let ?f = "\<lambda>j. j\<lparr>job_LeaseUntil := Some (now + ttl), job_UpdatedAt := now\<rparr>"
  show "jobs db' = update_where (heartbeatMatches i w t) ?f (jobs db)"
    using assms(2) by (auto simp: StoreHeartbeat_def split: option.splits)
  show "lease_ok (attempts db) (?f j)" if "j \<in> set (jobs db)" for j
    using store_inv_lease [OF assms(1) that] by (rule lease_ok_same) auto
qed (use assms(2) in \<open>auto simp: StoreHeartbeat_def split: option.splits\<close>)

definition promoted_row :: "time \<Rightarrow> Job \<Rightarrow> Job" where
  "promoted_row now j = j\<lparr>job_State := StateReady, job_StateVersion := job_StateVersion j + 1, job_UpdatedAt := now\<rparr>"

lemma PromoteReady_effect:
  assumes "store_inv db" and "PromoteReady locked now n db = (c, db')"
  obtains ids where "db' = db\<lparr>jobs := update_where (\<lambda>j. job_ID j \<in> ids) (promoted_row now) (jobs db)\<rparr>"
    "\<And>j. j \<in> set (jobs db) \<Longrightarrow> job_ID j \<in> ids \<Longrightarrow> job_State j \<in> {StateScheduled, StateRetryWait}"
proof
  let ?ids = "set (map job_ID (take n (sort_key job_RunAt (filter (promotable locked now) (jobs db)))))"
  show "db' = db\<lparr>jobs := update_where (\<lambda>j. job_ID j \<in> ?ids) (promoted_row now) (jobs db)\<rparr>"
    using assms(2) by (auto simp: PromoteReady_def Let_def promoted_row_def [abs_def])
  fix j assume j: "j \<in> set (jobs db)" "job_ID j \<in> ?ids"
  then obtain c where c: "c \<in> set (jobs db)" "promotable locked now c" "job_ID c = job_ID j"
    by (auto dest!: in_set_takeD)
  from same_id_same_row [OF assms(1) c(1) j(1) c(3)] c(2)
  show "job_State j \<in> {StateScheduled, StateRetryWait}" by (simp add: promotable_def)
qed

lemma PromoteReady_inv:
  assumes "store_inv db" and "PromoteReady locked now n db = (c, db')"
  shows "store_inv db'"
  using assms
proof (cases rule: PromoteReady_effect)
  case (1 ids)
  show ?thesis
  proof (rule store_inv_rows [where P = "\<lambda>j. job_ID j \<in> ids" and f = "promoted_row now" and es = "[]", OF assms(1)])
    show "lease_ok (attempts db) (promoted_row now j)" if "j \<in> set (jobs db)" "job_ID j \<in> ids" for j
      using store_inv_lease [OF assms(1) that(1)]
      by (rule lease_ok_same) (use 1(2) [OF that] in \<open>auto simp: promoted_row_def\<close>)
  qed (auto simp: 1(1) promoted_row_def)
qed

text \<open>The two updates of \<open>StoreCancel\<close> have one shape.\<close>

lemma cancel_rows_inv:
  assumes inv: "store_inv db" and found: "find_row M (jobs db) = Some j"
    and M: "\<And>r. M r \<Longrightarrow> job_ID r = i \<and> inflight_state (job_State r) = inflight_state s"
  shows "store_inv (writeOutbox i ev (job_StateVersion j + 1) tc
    (db\<lparr>jobs := update_where M (cancelRow s now) (jobs db)\<rparr>))"
proof (rule store_inv_rows [where P = M and f = "cancelRow s now", OF inv])
  show "lease_ok (attempts db) (cancelRow s now r)" if r: "r \<in> set (jobs db)" "M r" for r
  proof (rule lease_ok_same [OF store_inv_lease [OF inv r(1)]])
    show "job_LeaseOwner (cancelRow s now r) = job_LeaseOwner r \<and> job_LeaseUntil (cancelRow s now r) \<noteq> None"
      if "inflight_state (job_State r)"
      using store_inv_lease [OF inv r(1)] that by (auto simp: lease_ok_def cancelRow_def)
  qed (use M [OF r(2)] in \<open>auto simp: cancelRow_def\<close>)
qed (use found M in \<open>auto simp: writeOutbox_def cancelRow_def dest!: find_row_SomeD\<close>)

lemma StoreCancel_inv:
  assumes "store_inv db" and "StoreCancel tenant i now db = Inr (u, db')"
  shows "store_inv db'"
proof (cases "find_row (cancelWaitingMatches i tenant) (jobs db)")
  case (Some j)
  have "store_inv (writeOutbox i ''job.cancelled'' (job_StateVersion j + 1) (job_TraceContext j)
      (db\<lparr>jobs := update_where (cancelWaitingMatches i tenant) (cancelRow StateCancelled now) (jobs db)\<rparr>))"
    by (rule cancel_rows_inv [OF assms(1) Some]) (auto simp: cancelWaitingMatches_def)
  with assms(2) Some show ?thesis by (simp add: StoreCancel_def)
next
  case waiting: None
  show ?thesis
  proof (cases "find_row (cancelRunningMatches i tenant) (jobs db)")
    case (Some j)
    have "store_inv (writeOutbox i ''job.cancelling'' (job_StateVersion j + 1) (job_TraceContext j)
        (db\<lparr>jobs := update_where (cancelRunningMatches i tenant) (cancelRow StateCancelling now) (jobs db)\<rparr>))"
      by (rule cancel_rows_inv [OF assms(1) Some]) (auto simp: cancelRunningMatches_def)
    with assms(2) waiting Some show ?thesis by (simp add: StoreCancel_def)
  next
    case None
    with assms waiting show ?thesis by (auto simp: StoreCancel_def split: option.splits sum.splits)
  qed
qed

text \<open>
  What the domain decides for a job in flight whose lease the caller holds: the job leaves the
  states in flight and its version is the next one.
\<close>

lemma finishDecision_result:
  assumes "finishDecision req w t jitter now job = Inr (j', outcome)"
    and "1 \<le> job_StateVersion job" "job_StateVersion job + 1 < 9223372036854775808"
  shows "\<not> inflight_state (job_State j')" "job_StateVersion j' = job_StateVersion job + 1"
    "CanTransition (job_State job) (job_State j')"
proof -
  have "wrap64 (job_StateVersion job + 1) = job_StateVersion job + 1"
    using assms(2,3) by (intro wrap64_id) (simp add: int64_def)
  with assms(1) show "\<not> inflight_state (job_State j')" "job_StateVersion j' = job_StateVersion job + 1"
      "CanTransition (job_State job) (job_State j')"
    by (auto simp: finishDecision_def CompleteWithResult_def Complete_def Fail_def Let_def
        CanTransition_def result_simps split: if_splits)
qed

text \<open>The committed effect of a finish that changes the job.\<close>

definition finished_attempt :: "finishRequest \<Rightarrow> string \<Rightarrow> time \<Rightarrow> AttemptRow \<Rightarrow> AttemptRow" where
  "finished_attempt req outcome now a = a\<lparr>at_finished := Some now, at_outcome := Some outcome,
     at_errCode := (if fr_complete req then None else Some (fr_code req)),
     at_errMessage := (if fr_complete req then None else Some (fr_message req)),
     at_durationMs := Some (fr_durationMs req)\<rparr>"

definition finished_row :: "Job \<Rightarrow> time \<Rightarrow> Job \<Rightarrow> Job" where
  "finished_row j' now r = r\<lparr>job_State := job_State j', job_RunAt := job_RunAt j',
     job_LeaseOwner := job_LeaseOwner j', job_LeaseUntil := job_LeaseUntil j',
     job_ResultRef := job_ResultRef j', job_StateVersion := job_StateVersion r + 1, job_UpdatedAt := now\<rparr>"

lemma finishAttempt_cases:
  assumes "finishAttempt i w t req jitter now db = Inr (res, db')"
  obtains (duplicate) job where "find_row (byID i) (jobs db) = Some job" "job_FencingToken job = t"
      "\<not> inflight_state (job_State job)" "db' = db" "\<not> ar_Changed res"
      "duplicateFinish job w t (fr_complete req) db = Inr res"
    | (finished) job j' outcome where "find_row (byID i) (jobs db) = Some job" "job_FencingToken job = t" "0 < t"
      "inflight_state (job_State job)" "job_LeaseOwner job = Some w" "ar_Changed res"
      "finishDecision req w t jitter now job = Inr (j', outcome)"
      "list_ex (unfinishedAttempt job w t) (attempts db)"
      "db' = writeOutbox i (''job.'' @ outcome) (job_StateVersion j') (job_TraceContext job)
        (db\<lparr>attempts := update_where (unfinishedAttempt job w t) (finished_attempt req outcome now) (attempts db),
            jobs := update_where (byID i) (finished_row j' now) (jobs db),
            quota := quotaRelease (job_TenantID job) (quota db)\<rparr>)"
proof -
  from assms obtain job where job: "find_row (byID i) (jobs db) = Some job" "job_FencingToken job = t" "0 < t"
    by (auto simp: finishAttempt_def split: if_splits option.splits)
  show thesis
  proof (cases "inflight_state (job_State job)")
    case False
    then have "\<not> (job_State job = StateRunning)" "\<not> (job_State job = StateCancelling)" by auto
    with assms job have "duplicateFinish job w t (fr_complete req) db = Inr res" "db' = db"
      by (auto simp: finishAttempt_def result_simps split: if_splits)
    moreover from this(1) have "\<not> ar_Changed res"
      by (auto simp: duplicateFinish_def Let_def split: option.splits if_splits)
    ultimately show thesis using duplicate job False by blast
  next
    case True
    with assms job obtain j' outcome where "finishDecision req w t jitter now job = Inr (j', outcome)"
      by (auto simp: finishAttempt_def split: if_splits sum.splits)
    with assms job True finished [OF job(1,2,3) True] show thesis
      by (auto simp: finishAttempt_def finished_attempt_def [abs_def] finished_row_def [abs_def]
          split: if_splits)
  qed
qed

lemma finishAttempt_inv:
  assumes inv: "store_inv db" and fin: "finishAttempt i w t req jitter now db = Inr (res, db')"
    and big: "bigint_ok db'"
  shows "store_inv db'"
  using fin
proof (cases rule: finishAttempt_cases)
  case duplicate
  with inv show ?thesis by simp
next
  case (finished job j' outcome)
  let ?M = "unfinishedAttempt job w t"
  have job: "job \<in> set (jobs db)" "job_ID job = i"
    using finished(1) by (auto dest: find_row_SomeD)
  have only: "r = job" if "r \<in> set (jobs db)" "job_ID r = i" for r
    using same_id_same_row [OF inv that(1) job(1)] that job by simp
  have "finished_row j' now job \<in> set (jobs db')"
    using finished(9) job by (auto simp: writeOutbox_def set_update_where)
  with big have range: "job_StateVersion job + 1 < 9223372036854775808"
    by (auto simp: bigint_ok_def finished_row_def)
  have lo: "1 \<le> job_StateVersion job"
    using store_inv_lease [OF inv job(1)] by (simp add: lease_ok_def)
  note dec = finishDecision_result [OF finished(7) lo range]
  have keys: "map (\<lambda>a. (at_job a, at_no a)) (attempts db') = map (\<lambda>a. (at_job a, at_no a)) (attempts db)"
    unfolding finished(9) writeOutbox_def by (simp add: map_update_where finished_attempt_def)
  show ?thesis
  proof (rule store_inv_change [where P = "byID i" and f = "finished_row j' now", OF inv])
    show "distinct (map (\<lambda>a. (at_job a, at_no a)) (attempts db'))"
      using keys distinct_attempt_keys [OF inv] by simp
    show "at_job a \<in> job_ID ` set (jobs db)" if "a \<in> set (attempts db')" for a
    proof -
      from that obtain b where "b \<in> set (attempts db)" "at_job b = at_job a"
        by (auto simp: finished(9) writeOutbox_def set_update_where finished_attempt_def)
      with attempt_has_job [OF inv] show ?thesis by metis
    qed
    show "lease_ok (attempts db') (finished_row j' now r)" if "r \<in> set (jobs db)" "job_ID r = i" for r
    proof -
      have "unfinishedAttempt job w t a"
        if "a \<in> set (attempts db)" "at_job a = job_ID job" "at_finished a = None" for a
        using unfinished_is_current [OF inv job(1) that] finished(2,5) that
        by (simp add: unfinishedAttempt_def)
      with only [OF that] store_inv_lease [OF inv job(1)] dec(1) show ?thesis
        unfolding finished(9) writeOutbox_def
        by simp (rule lease_ok_close, auto simp: finished_row_def finished_attempt_def)
    qed
    show "lease_ok (attempts db') r" if "r \<in> set (jobs db)" "job_ID r \<noteq> i" for r
    proof -
      have "attempts_of (job_ID r) (attempts db') = attempts_of (job_ID r) (attempts db)"
        unfolding finished(9) writeOutbox_def using that(2) job(2)
        by simp (rule attempts_of_update_other, auto simp: unfinishedAttempt_def finished_attempt_def)
      with store_inv_lease [OF inv that(1)] show ?thesis using lease_ok_cong by blast
    qed
  qed (use job dec(2) in \<open>auto simp: finished(9) writeOutbox_def finished_row_def dest: only\<close>)
qed

text \<open>The insert of \<open>Enqueue\<close> for a job that \<open>NewJob\<close> made.\<close>

lemma NewJob_fresh:
  assumes "NewJob hash i params now = Inr job"
  shows "job_ID job = i \<and> job_Attempt job = 0 \<and> job_FencingToken job = 0 \<and> job_StateVersion job = 1 \<and>
    \<not> inflight_state (job_State job)"
  using assms by (auto simp: NewJob_def Let_def split: if_splits)

lemma enqueueInsert_inv:
  assumes inv: "store_inv db" and new: "NewJob hash i params now = Inr job"
    and ins: "enqueueInsert job db = Inr db'"
  shows "store_inv db'"
proof (cases "enqueueConflict job db")
  case True
  with ins inv show ?thesis by (simp add: enqueueInsert_def)
next
  case False
  let ?row = "job\<lparr>job_LeaseOwner := None, job_LeaseUntil := None, job_CancelRequestedAt := None, job_ResultRef := None\<rparr>"
  note fresh = NewJob_fresh [OF new]
  from False ins have fresh_id: "\<forall>r \<in> set (jobs db). job_ID r \<noteq> i" and db': "db' = db\<lparr>jobs := jobs db @ [?row]\<rparr>"
    using fresh by (auto simp: enqueueInsert_def list_ex_iff split: if_splits)
  from fresh_id attempt_has_job [OF inv] have no_att: "attempts_of i (attempts db) = []"
    by (force simp: attempts_of_def filter_empty_conv)
  from inv have old: "distinct (map job_ID (jobs db))" "idem_ok (jobs db)" "outbox_ok db"
    by (simp_all add: store_inv_def keys_ok_def)
  have "idem_ok (jobs db @ [?row])"
    using old(2) by (rule idem_ok_snoc) (use False in \<open>simp add: enqueueConflict_def list_ex_iff\<close>)
  with old(1) fresh_id fresh distinct_attempt_keys [OF inv] attempt_has_job [OF inv]
  have "keys_ok db'" by (auto simp: keys_ok_def db')
  moreover have "outbox_ok db'" using old(3) by (auto simp: outbox_ok_def db')
  moreover have "lease_ok (attempts db) ?row" using fresh no_att by (simp add: lease_ok_def)
  ultimately show ?thesis using store_inv_lease [OF inv] by (simp add: store_inv_def db')
qed

lemma Enqueue_db:
  assumes "Enqueue xmax0 job db = (r, db')"
  obtains db1 ns where "enqueueInsert job db = Inr db1" "db' = db1\<lparr>notified := ns\<rparr>" | "db' = db"
proof (cases "enqueueInsert job db")
  case (Inl e)
  with assms that show thesis by (auto simp: Enqueue_def)
next
  case (Inr db1)
  from assms have "\<exists>ns. db' = db1\<lparr>notified := ns\<rparr>"
    by (auto simp: Enqueue_def Inr split: option.splits if_splits
        intro: exI [of _ "notified db1"])
  with that Inr show thesis by blast
qed

lemma Enqueue_inv:
  assumes "store_inv db" and "NewJob hash i params now = Inr job" and "Enqueue xmax0 job db = (r, db')"
  shows "store_inv db'"
  using assms(3)
proof (cases rule: Enqueue_db)
  case (1 db1 ns)
  with enqueueInsert_inv [OF assms(1,2)] have "store_inv db1" by blast
  then show ?thesis by (rule store_inv_frame) (simp_all add: 1)
qed (use assms in simp)

section \<open>The claim\<close>

text \<open>One claimed row: the next attempt is recorded under the next fencing token.\<close>

lemma claim_row_inv:
  assumes inv: "store_inv db" and r: "r \<in> set (jobs db)" "job_State r = StateReady"
  shows "store_inv (db\<lparr>jobs := update_where (byID (job_ID r)) (claimUpdate w until now) (jobs db),
    attempts := attempts db @ [claimAttempt w now (claimUpdate w until now r)]\<rparr>)" (is "store_inv ?db'")
proof (rule store_inv_change [where P = "byID (job_ID r)" and f = "claimUpdate w until now" and es = "[]", OF inv])
  have only: "x = r" if "x \<in> set (jobs db)" "job_ID x = job_ID r" for x
    using same_id_same_row [OF inv that(1) r(1) that(2)] .
  have ok: "lease_ok (attempts db) r" by (rule store_inv_lease [OF inv r(1)])
  then have le: "at_no a \<le> job_Attempt r" if "a \<in> set (attempts db)" "at_job a = job_ID r" for a
    using that by (auto simp: lease_ok_def attempts_of_def)
  show "distinct (map (\<lambda>a. (at_job a, at_no a)) (attempts ?db'))"
    using distinct_attempt_keys [OF inv] le by (force simp: claimAttempt_def claimUpdate_def)
  show "at_job a \<in> job_ID ` set (jobs db)" if "a \<in> set (attempts ?db')" for a
    using that attempt_has_job [OF inv] r(1) by (auto simp: claimAttempt_def claimUpdate_def)
  show "lease_ok (attempts ?db') (claimUpdate w until now x)" if "x \<in> set (jobs db)" "job_ID x = job_ID r" for x
    using ok r(2) unfolding only [OF that]
    by (fastforce simp: lease_ok_def attempts_of_def unfinishedAttempt_def claimUpdate_def claimAttempt_def)
  show "lease_ok (attempts ?db') x" if "x \<in> set (jobs db)" "job_ID x \<noteq> job_ID r" for x
    using store_inv_lease [OF inv that(1)] that(2)
    by (subst lease_ok_cong [where bs = "attempts db"]) (auto simp: attempts_of_def claimAttempt_def claimUpdate_def)
qed (auto simp: claimUpdate_def)

text \<open>
  The whole phase: the planned rows are updated in place. The unique index never refuses an
  attempt, so the phase does not fail.
\<close>

lemma claimPhase_effect:
  assumes "store_inv db" and "distinct (map job_ID cs)"
    and "\<And>c. c \<in> set cs \<Longrightarrow> \<exists>r \<in> set (jobs db). job_ID r = job_ID c \<and> job_State r = StateReady"
  shows "\<exists>claimed as. claimPhase w until now planned cs db = Inr (claimed,
      db\<lparr>jobs := update_where (\<lambda>j. job_ID j \<in> planned \<inter> job_ID ` set cs) (claimUpdate w until now) (jobs db),
         attempts := as\<rparr>) \<and>
    store_inv (db\<lparr>jobs := update_where (\<lambda>j. job_ID j \<in> planned \<inter> job_ID ` set cs) (claimUpdate w until now) (jobs db),
         attempts := as\<rparr>) \<and> map job_ID claimed = filter (\<lambda>i. i \<in> planned) (map job_ID cs)"
  using assms
proof (induction cs arbitrary: db)
  case Nil
  then show ?case by (auto simp: update_where_def intro!: exI [of _ "attempts db"])
next
  case (Cons c cs)
  show ?case
  proof (cases "job_ID c \<in> planned")
    case False
    then have "(\<lambda>j. job_ID j \<in> planned \<inter> job_ID ` set (c # cs)) = (\<lambda>j. job_ID j \<in> planned \<inter> job_ID ` set cs)"
      by auto
    with Cons.IH [OF Cons.prems(1)] Cons.prems(2,3) False show ?thesis by simp
  next
    case True
    from Cons.prems(3) obtain r where r: "r \<in> set (jobs db)" "job_ID r = job_ID c" "job_State r = StateReady"
      by force
    then have found: "find_row (byID (job_ID c)) (jobs db) = Some r"
      using find_row_Some_iff [OF store_inv_ids [OF Cons.prems(1)]] by metis
    let ?db = "db\<lparr>jobs := update_where (byID (job_ID c)) (claimUpdate w until now) (jobs db),
      attempts := attempts db @ [claimAttempt w now (claimUpdate w until now r)]\<rparr>"
    have inv: "store_inv ?db" using claim_row_inv [OF Cons.prems(1) r(1,3)] r(2) by simp
    have free: "\<not> list_ex (\<lambda>a. at_job a = job_ID c \<and> at_no a = job_Attempt r + 1) (attempts db)"
      using store_inv_lease [OF Cons.prems(1) r(1)] r(2)
      by (force simp: list_ex_iff lease_ok_def attempts_of_def)
    have ready: "\<exists>r \<in> set (jobs ?db). job_ID r = job_ID x \<and> job_State r = StateReady" if "x \<in> set cs" for x
    proof -
      from Cons.prems(3) [of x] that obtain y where y: "y \<in> set (jobs db)" "job_ID y = job_ID x" "job_State y = StateReady"
        by auto
      moreover from Cons.prems(2) that have "job_ID x \<noteq> job_ID c" by (metis distinct.simps(2) image_eqI list.simps(9) set_map)
      ultimately show ?thesis by (auto simp: set_update_where)
    qed
    from Cons.prems(2) have "distinct (map job_ID cs)" by simp
    from Cons.IH [OF inv this ready] obtain claimed as where IH:
      "claimPhase w until now planned cs ?db = Inr (claimed, ?db\<lparr>jobs := update_where
        (\<lambda>j. job_ID j \<in> planned \<inter> job_ID ` set cs) (claimUpdate w until now) (jobs ?db), attempts := as\<rparr>)"
      "store_inv (?db\<lparr>jobs := update_where
        (\<lambda>j. job_ID j \<in> planned \<inter> job_ID ` set cs) (claimUpdate w until now) (jobs ?db), attempts := as\<rparr>)"
      "map job_ID claimed = filter (\<lambda>i. i \<in> planned) (map job_ID cs)" by metis
    have "job_ID c \<notin> job_ID ` set cs" using Cons.prems(2) by auto
    then have comp: "update_where (\<lambda>j. job_ID j \<in> planned \<inter> job_ID ` set cs) (claimUpdate w until now) (jobs ?db) =
        update_where (\<lambda>j. job_ID j \<in> planned \<inter> job_ID ` set (c # cs)) (claimUpdate w until now) (jobs db)"
      using True by (auto simp: update_where_def claimUpdate_def)
    from IH comp True found free r(2) show ?thesis
      by (auto simp: claimUpdate_def [of _ _ _ r] scanJob_def intro!: exI [of _ as])
  qed
qed

lemma count_where_card: "distinct t \<Longrightarrow> count_where P t = int (card {r \<in> set t. P r})"
  unfolding count_where_def by (metis distinct_card distinct_filter set_filter)

text \<open>The candidates are distinct ready rows of the table.\<close>

lemma claimSelect_candidates:
  assumes "store_inv db"
  shows "c \<in> set (claimSelect p env db) \<Longrightarrow> c \<in> set (jobs db) \<and> claimable p env c"
    and "distinct (map job_ID (claimSelect p env db))"
    and "int (length (claimSelect p env db)) \<le> max (cp_MaxJobs p) 0"
proof -
  have "distinct (map job_ID (filter (claimable p env) (jobs db)))"
    using store_inv_ids [OF assms] by (rule distinct_map_filter)
  then have "distinct (map job_ID (sort_key (claim_rank p) (filter (claimable p env) (jobs db))))"
    by (simp add: distinct_map)
  then show "distinct (map job_ID (claimSelect p env db))"
    by (simp add: claimSelect_def take_map [symmetric])
  show "c \<in> set (claimSelect p env db) \<Longrightarrow> c \<in> set (jobs db) \<and> claimable p env c"
    by (auto simp: claimSelect_def dest: in_set_takeD)
  show "int (length (claimSelect p env db)) \<le> max (cp_MaxJobs p) 0"
    by (simp add: claimSelect_def)
qed

text \<open>The plan: how many slots each tenant needs.\<close>

definition slots_for :: "string \<Rightarrow> (string \<times> int) list \<Rightarrow> int" where
  "slots_for t plans = sum_list (map snd (filter (\<lambda>p. fst p = t) plans))"

lemma slots_for_simps [simp]:
  "slots_for t [] = 0" "slots_for t ((u, n) # plans) = (if u = t then n else 0) + slots_for t plans"
  by (simp_all add: slots_for_def)

lemma tenant_groups_concat: "concat (map snd (tenant_groups js)) = js"
  by (induction js rule: tenant_groups.induct) (simp_all add: takeWhile_dropWhile_id)

lemma tenant_groups_uniform:
  "(t, grp) \<in> set (tenant_groups js) \<Longrightarrow> j \<in> set grp \<Longrightarrow> job_TenantID j = t"
  by (induction js rule: tenant_groups.induct) (auto dest: set_takeWhileD)

lemma plan_groups_subset: "set (pl_planned (plan_groups limit snap gs)) \<subseteq> set (concat (map snd gs))"
  by (induction limit snap gs rule: plan_groups.induct) (auto simp: Let_def dest: in_set_takeD)

lemma plan_groups_distinct:
  "distinct (concat (map snd gs)) \<Longrightarrow> distinct (pl_planned (plan_groups limit snap gs))"
proof (induction limit snap gs rule: plan_groups.induct)
  case (2 limit snap tenant grp rest)
  then show ?case using plan_groups_subset [of limit snap rest]
    by (fastforce simp: Let_def dest: in_set_takeD)
qed simp

lemma plan_groups_slots:
  assumes "\<And>t grp j. (t, grp) \<in> set gs \<Longrightarrow> j \<in> set grp \<Longrightarrow> job_TenantID j = t"
  shows "count_where (\<lambda>j. job_TenantID j = t) (pl_planned (plan_groups limit snap gs)) =
    slots_for t (pl_plans (plan_groups limit snap gs))"
  using assms
proof (induction limit snap gs rule: plan_groups.induct)
  case (2 limit snap tenant grp rest)
  have "count_where (\<lambda>j. job_TenantID j = t) (take n grp) = (if tenant = t then int (min (length grp) n) else 0)" for n
  proof (cases "tenant = t")
    case True
    then have "filter (\<lambda>j. job_TenantID j = t) (take n grp) = take n grp"
      using "2.prems" by (intro filter_True) (auto dest: in_set_takeD)
    with True show ?thesis by (simp add: count_where_def)
  next
    case False
    have "\<not> job_TenantID j = t" if "j \<in> set (take n grp)" for j
      using "2.prems" [of tenant grp j] in_set_takeD [OF that] False by simp
    then have "count_where (\<lambda>j. job_TenantID j = t) (take n grp) = 0" by (rule count_where_zero)
    with False show ?thesis by simp
  qed
  moreover have "count_where (\<lambda>j. job_TenantID j = t) (pl_planned (plan_groups limit snap rest)) =
      slots_for t (pl_plans (plan_groups limit snap rest))"
    using 2 by auto
  ultimately show ?case by (auto simp: Let_def min_def)
qed simp

lemma plan_groups_bound:
  "(t, n) \<in> set (pl_plans (plan_groups limit snap gs)) \<Longrightarrow> 0 < n \<and> n \<le> limit - snap t"
  by (induction limit snap gs rule: plan_groups.induct) (auto simp: Let_def split: if_splits)

lemma planClaims_facts:
  assumes "distinct cs"
  shows "set (pl_planned (planClaims p env cs)) \<subseteq> set cs"
    and "distinct (pl_planned (planClaims p env cs))"
    and "cp_TenantMaxInflight p > 0 \<Longrightarrow> count_where (\<lambda>j. job_TenantID j = t) (pl_planned (planClaims p env cs)) =
      slots_for t (pl_plans (planClaims p env cs))"
    and "(t, n) \<in> set (pl_plans (planClaims p env cs)) \<Longrightarrow> 0 < n \<and> n \<le> cp_TenantMaxInflight p - ce_snap env t"
proof -
  let ?gs = "tenant_groups (sort_key job_TenantID cs)"
  show "set (pl_planned (planClaims p env cs)) \<subseteq> set cs"
    using plan_groups_subset [of "cp_TenantMaxInflight p" "ce_snap env" ?gs]
    by (simp add: planClaims_def tenant_groups_concat)
  show "distinct (pl_planned (planClaims p env cs))"
    using assms plan_groups_distinct [of ?gs] by (simp add: planClaims_def tenant_groups_concat)
  show "count_where (\<lambda>j. job_TenantID j = t) (pl_planned (planClaims p env cs)) =
      slots_for t (pl_plans (planClaims p env cs))" if "cp_TenantMaxInflight p > 0"
    using that plan_groups_slots [of ?gs] tenant_groups_uniform by (simp add: planClaims_def)
  show "(t, n) \<in> set (pl_plans (planClaims p env cs)) \<Longrightarrow> 0 < n \<and> n \<le> cp_TenantMaxInflight p - ce_snap env t"
    by (auto simp: planClaims_def dest: plan_groups_bound split: if_splits)
qed

text \<open>The reservation phase adds the planned slots to the counters and respects the limit.\<close>

lemma counterOf_append: "counterOf (q @ q') t = (if map_of q t = None then counterOf q' t else counterOf q t)"
  by (auto simp: counterOf_def map_add_def split: option.splits)

lemma quotaReserveBatch_counter:
  assumes "quotaReserveBatch t n limit q = Some (v, q')"
  shows "counterOf q' u = counterOf q u + (if u = t then n else 0)"
    and "n \<le> limit \<Longrightarrow> counterOf q t \<le> limit \<Longrightarrow> counterOf q' t \<le> limit"
  using assms
  by (auto simp: quotaReserveBatch_def counterOf_append counterOf_def map_of_update_where
      split: option.splits if_splits)

lemma reservePhase_counter:
  assumes "reservePhase limit plans m q = Some (m', q')"
  shows "counterOf q' u = counterOf q u + slots_for u plans"
  using assms
proof (induction limit plans m q rule: reservePhase.induct)
  case (2 limit t n plans m q)
  from "2.prems" obtain v q1 where q1: "quotaReserveBatch t n limit q = Some (v, q1)"
    by (auto split: option.splits)
  with 2 quotaReserveBatch_counter(1) [OF q1, of u] show ?case by (auto split: if_splits)
qed simp

lemma reservePhase_limit:
  assumes "reservePhase limit plans m q = Some (m', q')" and "\<And>t n. (t, n) \<in> set plans \<Longrightarrow> n \<le> limit"
    and "\<And>t. counterOf q t \<le> limit"
  shows "counterOf q' u \<le> limit"
  using assms
proof (induction plans arbitrary: m q)
  case (Cons pn plans)
  obtain t n where pn: "pn = (t, n)" by (cases pn)
  from Cons.prems(1) pn obtain v q1 m1 where q1: "quotaReserveBatch t n limit q = Some (v, q1)"
      and rest: "reservePhase limit plans m1 q1 = Some (m', q')"
    by (auto split: option.splits)
  have "n \<le> limit" using Cons.prems(2) pn by auto
  then have "counterOf q1 x \<le> limit" for x
    using quotaReserveBatch_counter [OF q1] Cons.prems(3) by (cases "x = t") auto
  with Cons.IH [OF rest] Cons.prems(2) show ?case by auto
qed simp

lemma claimInTx_cases:
  assumes inv: "store_inv db" and claim: "claimInTx env p db = Inr ((res, retry), db')"
  obtains (none) "db' = db" "cr_Jobs res = []"
    | (claimed) pl as m q where "pl = planClaims p env (claimSelect p env db)" "\<not> retry"
      "reservePhase (cp_TenantMaxInflight p) (pl_plans pl) 0 (quota db) = Some (m, q)"
      "db' = db\<lparr>jobs := update_where (\<lambda>j. job_ID j \<in> job_ID ` set (pl_planned pl))
           (claimUpdate (cp_WorkerID p) (ce_hostNow env + cp_LeaseTTL p) (ce_now env)) (jobs db),
         attempts := as, quota := q\<rparr>"
      "store_inv db'" "length (cr_Jobs res) = length (pl_planned pl)" "set (pl_planned pl) \<subseteq> set (jobs db)"
      "distinct (pl_planned pl)" "\<And>c. c \<in> set (pl_planned pl) \<Longrightarrow> claimable p env c"
      "int (length (pl_planned pl)) \<le> cp_MaxJobs p"
proof (cases "claimSelect p env db = []")
  case True
  with claim none show thesis by (auto simp: claimInTx_def emptyClaim_def split: if_splits)
next
  case False
  let ?cs = "claimSelect p env db" and ?pl = "planClaims p env (claimSelect p env db)"
  let ?w = "cp_WorkerID p" and ?until = "ce_hostNow env + cp_LeaseTTL p"
  note cand = claimSelect_candidates [OF inv, where p = p and env = env]
  from cand(2) have dcs: "distinct ?cs" by (simp add: distinct_map)
  note plan = planClaims_facts [OF dcs, where p = p and env = env]
  have ready: "\<exists>r \<in> set (jobs db). job_ID r = job_ID c \<and> job_State r = StateReady" if "c \<in> set ?cs" for c
    using cand(1) [OF that] by (auto simp: claimable_def)
  have inter: "set (map job_ID (pl_planned ?pl)) \<inter> job_ID ` set ?cs = job_ID ` set (pl_planned ?pl)"
    using plan(1) by auto
  from claimPhase_effect [OF inv cand(2) ready, of ?w ?until "ce_now env" "set (map job_ID (pl_planned ?pl))"]
  obtain js as where phase: "claimPhase ?w ?until (ce_now env) (set (map job_ID (pl_planned ?pl))) ?cs db = Inr (js,
      db\<lparr>jobs := update_where (\<lambda>j. job_ID j \<in> job_ID ` set (pl_planned ?pl)) (claimUpdate ?w ?until (ce_now env)) (jobs db),
         attempts := as\<rparr>)"
    and sinv: "store_inv (db\<lparr>jobs := update_where (\<lambda>j. job_ID j \<in> job_ID ` set (pl_planned ?pl))
         (claimUpdate ?w ?until (ce_now env)) (jobs db), attempts := as\<rparr>)"
    and ids: "map job_ID js = filter (\<lambda>i. i \<in> job_ID ` set (pl_planned ?pl)) (map job_ID ?cs)"
    unfolding inter by auto
  have len: "length js = length (pl_planned ?pl)"
  proof -
    have "set (map job_ID js) = set (map job_ID (pl_planned ?pl))" unfolding ids using plan(1) by auto
    moreover have "distinct (map job_ID js)" unfolding ids using cand(2) by simp
    moreover have "distinct (map job_ID (pl_planned ?pl))"
      using cand(2) plan(1,2) by (auto simp: distinct_map intro: inj_on_subset)
    ultimately show ?thesis by (metis distinct_card length_map)
  qed
  show thesis
  proof (cases "reservePhase (cp_TenantMaxInflight p) (pl_plans ?pl) 0 (quota db)")
    case None
    with claim False phase none show thesis by (auto simp: claimInTx_def emptyClaim_def Let_def split: if_splits)
  next
    case (Some mq)
    obtain m q where mq: "mq = (m, q)" by (cases mq)
    let ?db1 = "db\<lparr>jobs := update_where (\<lambda>j. job_ID j \<in> job_ID ` set (pl_planned ?pl))
         (claimUpdate ?w ?until (ce_now env)) (jobs db), attempts := as, quota := q\<rparr>"
    from claim False phase Some mq have "db' = ?db1" "\<not> retry" "cr_Jobs res = js"
      by (auto simp: claimInTx_def Let_def split: if_splits)
    moreover have "store_inv ?db1" using sinv by (rule store_inv_frame) simp_all
    moreover have "int (length (pl_planned ?pl)) \<le> cp_MaxJobs p"
    proof -
      have "length (pl_planned ?pl) \<le> length ?cs"
        using plan(1,2) dcs by (metis card_mono distinct_card List.finite_set)
      moreover from claim have "0 \<le> cp_MaxJobs p" by (auto simp: claimInTx_def split: if_splits)
      ultimately show ?thesis using cand(3) by simp
    qed
    moreover have "claimable p env c" "c \<in> set (jobs db)" if "c \<in> set (pl_planned ?pl)" for c
      using cand(1) plan(1) that by blast+
    ultimately show thesis using claimed [of ?pl m q as] Some mq len plan(2) by (simp add: subset_iff)
  qed
qed

section \<open>The quota counters\<close>

text \<open>Claimed rows enter the states in flight.\<close>

lemma planned_rows:
  assumes inv: "store_inv db" and pl: "set pl \<subseteq> set (jobs db)" "distinct pl"
  shows "j \<in> set (jobs db) \<Longrightarrow> job_ID j \<in> job_ID ` set pl \<Longrightarrow> j \<in> set pl"
    and "count_where (\<lambda>j. job_ID j \<in> job_ID ` set pl \<and> R j) (jobs db) = count_where R pl"
proof -
  have d: "distinct (jobs db)" using store_inv_ids [OF inv] by (simp add: distinct_map)
  show mem: "j \<in> set pl" if "j \<in> set (jobs db)" "job_ID j \<in> job_ID ` set pl" for j
    using that pl(1) same_id_same_row [OF inv that(1)] by (metis imageE subsetD)
  show "count_where (\<lambda>j. job_ID j \<in> job_ID ` set pl \<and> R j) (jobs db) = count_where R pl"
    unfolding count_where_card [OF d] count_where_card [OF pl(2)]
    using mem pl(1) by (intro arg_cong [where f = int] arg_cong [where f = card]) auto
qed

lemma inflightOf_claimed:
  assumes inv: "store_inv db" and pl: "set pl \<subseteq> set (jobs db)" "distinct pl"
    and ready: "\<And>c. c \<in> set pl \<Longrightarrow> job_State c = StateReady"
  shows "inflightOf t (update_where (\<lambda>j. job_ID j \<in> job_ID ` set pl) (claimUpdate w until now) (jobs db)) =
    inflightOf t (jobs db) + count_where (\<lambda>j. job_TenantID j = t) pl"
proof -
  note rows = planned_rows [OF inv pl]
  have "count_where (\<lambda>j. job_TenantID j = t \<and> inflight_state (job_State j)) pl = 0"
    by (rule count_where_zero) (use ready in auto)
  then show ?thesis unfolding inflightOf_def
    by (subst count_where_update [where Q' = "\<lambda>j. job_TenantID j = t"]) (auto simp: claimUpdate_def rows(2))
qed

lemma workerInflight_claimed:
  assumes inv: "store_inv db" and pl: "set pl \<subseteq> set (jobs db)" "distinct pl"
    and ready: "\<And>c. c \<in> set pl \<Longrightarrow> job_State c = StateReady"
  shows "count_where (\<lambda>j. job_LeaseOwner j = Some w \<and> inflight_state (job_State j))
      (update_where (\<lambda>j. job_ID j \<in> job_ID ` set pl) (claimUpdate w until now) (jobs db)) =
    count_where (\<lambda>j. job_LeaseOwner j = Some w \<and> inflight_state (job_State j)) (jobs db) + int (length pl)"
proof -
  note rows = planned_rows [OF inv pl]
  have "count_where (\<lambda>j. job_LeaseOwner j = Some w \<and> inflight_state (job_State j)) pl = 0"
    by (rule count_where_zero) (use ready in auto)
  moreover have "count_where (\<lambda>j. job_ID j \<in> job_ID ` set pl) (jobs db) = int (length pl)"
    using rows(2) [where R = "\<lambda>j. True"] by (simp add: count_where_def)
  ultimately show ?thesis
    by (subst count_where_update [where Q' = "\<lambda>j. True"]) (auto simp: claimUpdate_def rows(2))
qed

lemma claimInTx_quota:
  assumes inv: "store_inv db" "quota_inv limit db"
    and claim: "claimInTx env p db = Inr ((res, retry), db')"
    and lim: "cp_TenantMaxInflight p = limit" "0 < limit" and snap: "\<And>t. 0 \<le> ce_snap env t"
  shows "quota_inv limit db'"
  using inv(1) claim
proof (cases rule: claimInTx_cases)
  case none
  with inv show ?thesis by simp
next
  case (claimed pl as m q)
  let ?cs = "claimSelect p env db"
  note cand = claimSelect_candidates [OF inv(1), where p = p and env = env]
  from cand(2) have dcs: "distinct ?cs" by (simp add: distinct_map)
  note plan = planClaims_facts [OF dcs, where p = p and env = env, folded claimed(1)]
  have "inflightOf t (jobs db') = inflightOf t (jobs db) + slots_for t (pl_plans pl)" for t
    unfolding claimed(4) using plan(3) lim claimed(9)
    by simp (subst inflightOf_claimed [OF inv(1) claimed(7,8)], auto simp: claimable_def)
  moreover have "counterOf (quota db') t = counterOf (quota db) t + slots_for t (pl_plans pl)" for t
    using reservePhase_counter [OF claimed(3)] by (simp add: claimed(4))
  moreover have "counterOf (quota db') t \<le> limit" for t
  proof -
    have "n \<le> limit" if "(u, n) \<in> set (pl_plans pl)" for u n
      using plan(4) [OF that] snap [of u] lim(1) by simp
    moreover have "counterOf (quota db) u \<le> limit" for u
      using inv(2) by (simp add: quota_inv_def)
    ultimately have "counterOf q t \<le> limit"
      using reservePhase_limit [OF claimed(3)] lim(1) by metis
    then show ?thesis by (simp add: claimed(4))
  qed
  ultimately show ?thesis using inv(2) by (simp add: quota_inv_def)
qed

lemma inflightOf_same:
  assumes "\<And>r. r \<in> set js \<Longrightarrow> P r \<Longrightarrow> job_TenantID (f r) = job_TenantID r \<and>
    inflight_state (job_State (f r)) = inflight_state (job_State r)"
  shows "inflightOf t (update_where P f js) = inflightOf t js"
  using assms by (induction js) (auto simp: inflightOf_def)

lemma inflightOf_left:
  assumes "\<And>r. P r \<Longrightarrow> \<not> inflight_state (job_State (f r))"
  shows "inflightOf t (update_where P f js) =
    inflightOf t js - count_where (\<lambda>r. P r \<and> job_TenantID r = t \<and> inflight_state (job_State r)) js"
  unfolding inflightOf_def using assms
  by (subst count_where_update [where Q' = "\<lambda>_. False"]) (auto simp: count_where_zero)

lemma quotaRelease_counter:
  "counterOf (quotaRelease u q) t = (if t = u \<and> counterOf q t > 0 then counterOf q t - 1 else counterOf q t)"
  unfolding quotaRelease_def counterOf_def
  by (subst map_of_update_where) (auto split: option.splits)

lemma quotaReleaseN_counter:
  "0 \<le> n \<Longrightarrow> counterOf (quotaReleaseN u n q) t = (if t = u then max (counterOf q t - n) 0 else counterOf q t)"
  unfolding quotaReleaseN_def counterOf_def
  by (subst map_of_update_where) (auto split: option.splits)

lemma release_fold_counter:
  assumes "distinct ts" and "\<And>t. 0 \<le> n t"
  shows "counterOf (fold (\<lambda>t. quotaReleaseN t (n t)) ts q) u =
    (if u \<in> set ts then max (counterOf q u - n u) 0 else counterOf q u)"
  using assms by (induction ts arbitrary: q) (auto simp: quotaReleaseN_counter)

lemma releaseQuotaByTenant_counter:
  "counterOf (releaseQuotaByTenant released q) u =
    (if u \<in> set released then max (counterOf q u - count_where (\<lambda>x. x = u) released) 0 else counterOf q u)"
  unfolding releaseQuotaByTenant_def by (subst release_fold_counter) auto

lemma quota_inv_same:
  assumes "quota_inv limit db" and "quota db' = quota db" and "\<And>t. inflightOf t (jobs db') = inflightOf t (jobs db)"
  shows "quota_inv limit db'"
  using assms by (simp add: quota_inv_def)

lemma finishAttempt_quota:
  assumes inv: "store_inv db" "quota_inv limit db" and fin: "finishAttempt i w t req jitter now db = Inr (res, db')"
    and big: "bigint_ok db'"
  shows "quota_inv limit db'"
  using fin
proof (cases rule: finishAttempt_cases)
  case duplicate
  with inv show ?thesis by simp
next
  case (finished job j' outcome)
  have job: "job \<in> set (jobs db)" "job_ID job = i"
    using finished(1) by (auto dest: find_row_SomeD)
  have "\<not> inflight_state (job_State j')"
    using finished(7) by (auto simp: finishDecision_def CompleteWithResult_def Complete_def Fail_def Let_def
        result_simps split: if_splits)
  then have "inflightOf u (jobs db') = inflightOf u (jobs db) -
      count_where (\<lambda>r. job_ID r = i \<and> job_TenantID r = u \<and> inflight_state (job_State r)) (jobs db)" for u
    unfolding finished(9) writeOutbox_def by simp (rule inflightOf_left, simp add: finished_row_def)
  moreover have "count_where (\<lambda>r. job_ID r = i \<and> job_TenantID r = u \<and> inflight_state (job_State r)) (jobs db) =
      (if job_TenantID job = u then 1 else 0)" for u
    using count_where_key [OF store_inv_ids [OF inv(1)] job(1),
        where Q = "\<lambda>r. job_TenantID r = u \<and> inflight_state (job_State r)"] finished(4)
    by (auto simp: job(2))
  ultimately have new: "inflightOf u (jobs db') = inflightOf u (jobs db) - (if job_TenantID job = u then 1 else 0)" for u
    by simp
  have "0 \<le> inflightOf u (jobs db')" for u by (simp add: inflightOf_def)
  with new [of "job_TenantID job"] have "1 \<le> inflightOf (job_TenantID job) (jobs db)"
    by (smt (verit))
  moreover have "counterOf (quota db') u = (if u = job_TenantID job \<and> counterOf (quota db) u > 0
      then counterOf (quota db) u - 1 else counterOf (quota db) u)" for u
    by (simp add: finished(9) writeOutbox_def quotaRelease_counter)
  moreover have "counterOf (quota db) u = inflightOf u (jobs db)" "inflightOf u (jobs db) \<le> limit" for u
    using inv(2) by (simp_all add: quota_inv_def)
  ultimately have "counterOf (quota db') u = inflightOf u (jobs db') \<and> inflightOf u (jobs db') \<le> limit" for u
    using new [of u] by (smt (verit))
  then show ?thesis by (simp add: quota_inv_def)
qed

section \<open>Lease recovery\<close>

definition expire_attempt :: "time \<Rightarrow> AttemptRow \<Rightarrow> AttemptRow" where
  "expire_attempt now a = a\<lparr>at_finished := Some now, at_outcome := Some ''lease_expired''\<rparr>"

definition attempt_of :: "Job list \<Rightarrow> AttemptRow \<Rightarrow> bool" where
  "attempt_of js a \<longleftrightarrow> (\<exists>j \<in> set js. at_job a = job_ID j \<and> at_no a = job_Attempt j)"

lemma writeRecoveryAudits_effect:
  assumes "\<And>j. j \<in> set js \<Longrightarrow> \<exists>a \<in> set (attempts db). at_job a = job_ID j \<and> at_no a = job_Attempt j"
  shows "writeRecoveryAudits now js db = db\<lparr>attempts := update_where (attempt_of js) (expire_attempt now) (attempts db),
    outbox := outbox db @ map recoveryEvent js\<rparr>"
  using assms
proof (induction js arbitrary: db)
  case Nil
  then show ?case by (simp add: update_where_def attempt_of_def)
next
  case (Cons j js)
  let ?same = "\<lambda>a. at_job a = job_ID j \<and> at_no a = job_Attempt j"
  have rec: "recoveryAttempt now j (attempts db) = update_where ?same (expire_attempt now) (attempts db)"
    using Cons.prems [of j] by (auto simp: recoveryAttempt_def expire_attempt_def [abs_def] list_ex_iff)
  let ?db = "db\<lparr>attempts := update_where ?same (expire_attempt now) (attempts db), outbox := outbox db @ [recoveryEvent j]\<rparr>"
  have keep: "\<exists>a \<in> set (attempts ?db). at_job a = job_ID x \<and> at_no a = job_Attempt x" if "x \<in> set js" for x
  proof -
    from Cons.prems [of x] that obtain a where a: "a \<in> set (attempts db)" "at_job a = job_ID x" "at_no a = job_Attempt x"
      by auto
    then show ?thesis
      by (intro bexI [of _ "if ?same a then expire_attempt now a else a"])
        (auto simp: set_update_where expire_attempt_def)
  qed
  have "update_where (attempt_of js) (expire_attempt now) (attempts ?db) =
      update_where (attempt_of (j # js)) (expire_attempt now) (attempts db)"
    by (auto simp: update_where_def attempt_of_def expire_attempt_def)
  with Cons.IH [OF keep] rec show ?case by simp
qed

text \<open>One recovery phase: the rows with an expired lease in state \<open>s\<close>.\<close>

lemma recovery_phase:
  assumes inv: "store_inv db" and s: "inflight_state s"
    and f: "\<And>r. job_ID (f r) = job_ID r \<and> job_TenantID (f r) = job_TenantID r \<and>
      job_IdempotencyKey (f r) = job_IdempotencyKey r \<and> job_StateVersion (f r) = job_StateVersion r + 1 \<and>
      job_Attempt (f r) = job_Attempt r \<and> job_FencingToken (f r) = job_FencingToken r \<and>
      \<not> inflight_state (job_State (f r))"
    and db': "db' = writeRecoveryAudits now (filter (leaseExpired s locked now) (jobs db))
      (db\<lparr>jobs := update_where (leaseExpired s locked now) f (jobs db)\<rparr>)"
  shows "store_inv db'"
    and "jobs db' = update_where (leaseExpired s locked now) f (jobs db)" and "quota db' = quota db"
proof -
  let ?P = "leaseExpired s locked now"
  let ?js = "filter ?P (jobs db)"
  let ?M = "attempt_of ?js" and ?close = "expire_attempt now"
  have running: "inflight_state (job_State j)" if "?P j" for j
    using that s by (auto simp: leaseExpired_def)
  have "\<exists>a \<in> set (attempts db). at_job a = job_ID j \<and> at_no a = job_Attempt j" if "j \<in> set ?js" for j
    using store_inv_lease [OF inv, of j] that running [of j]
    by (auto simp: lease_ok_def attempts_of_def unfinishedAttempt_def)
  then have eff: "db' = db\<lparr>jobs := update_where ?P f (jobs db), attempts := update_where ?M ?close (attempts db),
      outbox := outbox db @ map recoveryEvent ?js\<rparr>"
    unfolding db' by (subst writeRecoveryAudits_effect) auto
  then show "jobs db' = update_where ?P f (jobs db)" "quota db' = quota db" by simp_all
  have keys: "map (\<lambda>a. (at_job a, at_no a)) (attempts db') = map (\<lambda>a. (at_job a, at_no a)) (attempts db)"
    unfolding eff by (simp add: map_update_where expire_attempt_def)
  show "store_inv db'"
  proof (rule store_inv_change [where P = ?P and f = f and es = "map recoveryEvent ?js", OF inv])
    show "distinct (map (\<lambda>a. (at_job a, at_no a)) (attempts db'))"
      using keys distinct_attempt_keys [OF inv] by simp
    show "at_job a \<in> job_ID ` set (jobs db)" if "a \<in> set (attempts db')" for a
    proof -
      from that obtain b where "b \<in> set (attempts db)" "at_job b = at_job a"
        by (auto simp: eff set_update_where expire_attempt_def)
      with attempt_has_job [OF inv] show ?thesis by metis
    qed
    show "lease_ok (attempts db') (f r)" if r: "r \<in> set (jobs db)" "?P r" for r
    proof -
      have "?M a" if "a \<in> set (attempts db)" "at_job a = job_ID r" "at_finished a = None" for a
        using unfinished_is_current(2) [OF inv r(1) that] r that by (auto simp: attempt_of_def)
      with f [of r] show ?thesis unfolding eff
        by simp (rule lease_ok_close [OF store_inv_lease [OF inv r(1)]], auto simp: expire_attempt_def)
    qed
    show "lease_ok (attempts db') r" if r: "r \<in> set (jobs db)" "\<not> ?P r" for r
    proof -
      have "at_job a \<noteq> job_ID r" if M: "?M a" for a
      proof
        assume "at_job a = job_ID r"
        with M obtain j where j: "j \<in> set (jobs db)" "?P j" "job_ID j = job_ID r"
          by (force simp: attempt_of_def)
        with same_id_same_row [OF inv j(1) r(1)] r(2) show False by blast
      qed
      then have "attempts_of (job_ID r) (attempts db') = attempts_of (job_ID r) (attempts db)"
        unfolding eff by simp (rule attempts_of_update_other, auto simp: expire_attempt_def)
      with store_inv_lease [OF inv r(1)] show ?thesis using lease_ok_cong by blast
    qed
    show "distinct (map ob_aggregate (map recoveryEvent ?js))"
      using store_inv_ids [OF inv] by (simp add: recoveryEvent_def comp_def distinct_map_filter)
  qed (use f in \<open>auto simp: eff recoveryEvent_def\<close>)
qed

lemmas recover_row_defs = recoverRunningRow_def recoverCancellingRow_def

lemma recover_rows:
  "job_ID (recoverRunningRow now r) = job_ID r \<and> job_TenantID (recoverRunningRow now r) = job_TenantID r \<and>
   job_IdempotencyKey (recoverRunningRow now r) = job_IdempotencyKey r \<and>
   job_StateVersion (recoverRunningRow now r) = job_StateVersion r + 1 \<and>
   job_Attempt (recoverRunningRow now r) = job_Attempt r \<and>
   job_FencingToken (recoverRunningRow now r) = job_FencingToken r \<and>
   \<not> inflight_state (job_State (recoverRunningRow now r))"
  "job_ID (recoverCancellingRow now r) = job_ID r \<and> job_TenantID (recoverCancellingRow now r) = job_TenantID r \<and>
   job_IdempotencyKey (recoverCancellingRow now r) = job_IdempotencyKey r \<and>
   job_StateVersion (recoverCancellingRow now r) = job_StateVersion r + 1 \<and>
   job_Attempt (recoverCancellingRow now r) = job_Attempt r \<and>
   job_FencingToken (recoverCancellingRow now r) = job_FencingToken r \<and>
   \<not> inflight_state (job_State (recoverCancellingRow now r))"
  by (simp_all add: recover_row_defs)

lemma RecoverExpiredAttempts_phases:
  assumes inv: "store_inv db" and rec: "RecoverExpiredAttempts locked now db = (released, db')"
  shows "store_inv db'"
    and "jobs db' = update_where (leaseExpired StateCancelling locked now) (recoverCancellingRow now)
      (update_where (leaseExpired StateRunning locked now) (recoverRunningRow now) (jobs db))"
    and "quota db' = releaseQuotaByTenant (map job_TenantID released) (quota db)"
    and "released = filter (leaseExpired StateRunning locked now) (jobs db) @
      filter (leaseExpired StateCancelling locked now) (jobs db)"
proof -
  let ?P = "leaseExpired StateRunning locked now" and ?Q = "leaseExpired StateCancelling locked now"
  define db1 where "db1 = writeRecoveryAudits now (filter ?P (jobs db))
    (db\<lparr>jobs := update_where ?P (recoverRunningRow now) (jobs db)\<rparr>)"
  define db2 where "db2 = writeRecoveryAudits now (filter ?Q (jobs db1))
    (db1\<lparr>jobs := update_where ?Q (recoverCancellingRow now) (jobs db1)\<rparr>)"
  note one = recovery_phase [OF inv _ recover_rows(1) db1_def, simplified]
  note two = recovery_phase [OF one(1) _ recover_rows(2) db2_def, simplified]
  have same: "filter ?Q (jobs db1) = filter ?Q (jobs db)"
    unfolding one(2) by (rule filter_update_where_other) (auto simp: leaseExpired_def recover_row_defs)
  have pair: "(filter ?P (jobs db) @ filter ?Q (jobs db1),
      db2\<lparr>quota := releaseQuotaByTenant (map job_TenantID (filter ?P (jobs db) @ filter ?Q (jobs db1))) (quota db2)\<rparr>)
      = (released, db')"
    using rec unfolding RecoverExpiredAttempts_def Let_def db1_def [symmetric] db2_def [symmetric] .
  have res: "released = filter ?P (jobs db) @ filter ?Q (jobs db)" using pair unfolding same by blast
  have db': "db' = db2\<lparr>quota := releaseQuotaByTenant (map job_TenantID released) (quota db2)\<rparr>" using pair by blast
  show "released = filter ?P (jobs db) @ filter ?Q (jobs db)" by (rule res)
  show "jobs db' = update_where ?Q (recoverCancellingRow now) (update_where ?P (recoverRunningRow now) (jobs db))"
    by (simp add: db' one two)
  show "quota db' = releaseQuotaByTenant (map job_TenantID released) (quota db)"
    by (simp add: db' one two)
  show "store_inv db'" using two(1) by (rule store_inv_frame) (simp_all add: db')
qed

lemma count_where_filter: "count_where P (filter Q t) = count_where (\<lambda>r. Q r \<and> P r) t"
  by (induction t) auto

lemma count_where_map: "count_where P (map g t) = count_where (\<lambda>r. P (g r)) t"
  by (induction t) auto

lemma RecoverExpiredAttempts_quota:
  assumes inv: "store_inv db" "quota_inv limit db" and rec: "RecoverExpiredAttempts locked now db = (released, db')"
  shows "quota_inv limit db'"
proof -
  let ?P = "leaseExpired StateRunning locked now" and ?Q = "leaseExpired StateCancelling locked now"
  note ph = RecoverExpiredAttempts_phases [OF inv(1) rec]
  have fl: "?P r \<Longrightarrow> inflight_state (job_State r)" "?Q r \<Longrightarrow> inflight_state (job_State r)" for r
    by (auto simp: leaseExpired_def)
  have rel: "count_where (\<lambda>x. x = t) (map job_TenantID released) =
      count_where (\<lambda>r. ?P r \<and> job_TenantID r = t \<and> inflight_state (job_State r)) (jobs db) +
      count_where (\<lambda>r. ?Q r \<and> job_TenantID r = t \<and> inflight_state (job_State r)) (jobs db)" for t
    unfolding ph(4) map_append count_where_append count_where_map count_where_filter
    by (intro arg_cong2 [where f = "(+)"] count_where_cong) (use fl in blast)+
  have "count_where (\<lambda>r. ?Q r \<and> job_TenantID r = t \<and> inflight_state (job_State r))
      (update_where ?P (recoverRunningRow now) (jobs db)) =
      count_where (\<lambda>r. ?Q r \<and> job_TenantID r = t \<and> inflight_state (job_State r)) (jobs db)" for t
    unfolding count_where_def
    by (subst filter_update_where_other) (auto simp: leaseExpired_def recover_row_defs)
  then have left: "inflightOf t (jobs db') = inflightOf t (jobs db) - count_where (\<lambda>x. x = t) (map job_TenantID released)" for t
    unfolding ph(2) rel
    by (subst inflightOf_left, simp add: recover_row_defs, subst inflightOf_left, simp add: recover_row_defs) simp
  have "counterOf (quota db') t = inflightOf t (jobs db') \<and> inflightOf t (jobs db') \<le> limit" for t
  proof -
    define n where "n = count_where (\<lambda>x. x = t) (map job_TenantID released)"
    have "n = 0" if "t \<notin> set (map job_TenantID released)"
      unfolding n_def using that by (intro count_where_zero) auto
    moreover have "0 \<le> n" by (simp add: n_def)
    moreover have "0 \<le> inflightOf t (jobs db')" by (simp add: inflightOf_def)
    moreover have "counterOf (quota db) t = inflightOf t (jobs db)" "inflightOf t (jobs db) \<le> limit"
      using inv(2) by (simp_all add: quota_inv_def)
    moreover have "inflightOf t (jobs db') = inflightOf t (jobs db) - n" using left by (simp add: n_def)
    ultimately show ?thesis unfolding ph(3) releaseQuotaByTenant_counter n_def [symmetric] by auto
  qed
  then show ?thesis by (simp add: quota_inv_def)
qed

end
