(* ===== verification/JobStoreSteps.thy ===== *)
theory JobStoreSteps
  imports JobStoreInv
begin

text \<open>
  The transactions of the job store as one step relation, the evolution of a job row under a
  step, and the interfaces of \<open>Prelude\<close> interpreted on it: the store is a fenced store by job
  fencing token, its counters are an inductive invariant, and the scheduler leadership is a
  fenced store by epoch.
\<close>

section \<open>Steps\<close>

text \<open>
  One committed transaction of a deployment whose tenant limit is \<open>limit\<close>. A snapshot of a
  counter is an earlier committed value, so it is not negative.
\<close>

inductive jstep :: "int \<Rightarrow> job_db \<Rightarrow> job_db \<Rightarrow> bool" for limit where
  step_enqueue: "NewJob hash i params now = Inr job \<Longrightarrow> Enqueue xmax0 job db = (r, db') \<Longrightarrow> jstep limit db db'"
| step_claim: "claimOnce env p db = Inr (r, db') \<Longrightarrow> cp_TenantMaxInflight p = limit \<Longrightarrow>
    (\<And>t. 0 \<le> ce_snap env t) \<Longrightarrow> jstep limit db db'"
| step_worker_claim: "claimForWorkerOnce n env p db = Inr (r, db') \<Longrightarrow> cp_TenantMaxInflight p = limit \<Longrightarrow>
    (\<And>t. 0 \<le> ce_snap env t) \<Longrightarrow> jstep limit db db'"
| step_register: "jstep limit db (RegisterWorker req session now db)"
| step_refresh: "jstep limit db (RefreshWorkerHeartbeat w minInterval now db)"
| step_heartbeat: "StoreHeartbeat i w t ttl now db = Inr (hb, db') \<Longrightarrow> jstep limit db db'"
| step_cancel: "StoreCancel tenant i now db = Inr (u, db') \<Longrightarrow> jstep limit db db'"
| step_complete: "CompleteAttempt i w t ref ms jitter now db = Inr (res, db') \<Longrightarrow> bigint_ok db' \<Longrightarrow> jstep limit db db'"
| step_fail: "FailAttempt i w t code msg retryable ms jitter now db = Inr (res, db') \<Longrightarrow> bigint_ok db' \<Longrightarrow>
    jstep limit db db'"
| step_promote: "PromoteReady locked now n db = (c, db') \<Longrightarrow> jstep limit db db'"
| step_recover: "RecoverExpiredAttempts locked now db = (released, db') \<Longrightarrow> jstep limit db db'"
| step_repair: "RepairQuotaCounters db = (c, db') \<Longrightarrow> jstep limit db db'"
| step_lead: "TryBecomeLeader lock inst stale now db = (e, db') \<Longrightarrow> jstep limit db db'"
| step_leadbeat: "HeartbeatLeadership inst epoch now db = (ok, db') \<Longrightarrow> jstep limit db db'"
| step_release: "jstep limit db (ReleaseLeadership inst epoch db)"

definition empty_db :: "job_db \<Rightarrow> bool" where
  "empty_db db \<longleftrightarrow> jobs db = [] \<and> attempts db = [] \<and> outbox db = [] \<and> quota db = [] \<and> leadership db = None"

text \<open>
  Every step that touches jobs is one of four: an insert, a claim, a finish, or another change;
  the steps that touch only workers and leadership keep the tables of \<open>store_inv\<close>.
\<close>

lemma finish_of_complete:
  assumes "CompleteAttempt i w t ref ms jitter now db = Inr (res, db')"
  obtains req where "fr_complete req" "fr_ref req = ref" "finishAttempt i w t req jitter now db = Inr (res, db')"
proof (rule that)
  show "finishAttempt i w t \<lparr>fr_complete = True, fr_ref = ref, fr_code = '''', fr_message = '''', fr_retryable = False,
      fr_durationMs = ms\<rparr> jitter now db = Inr (res, db')"
    using assms by (simp add: CompleteAttempt_def split: sum.splits)
qed simp_all

lemma claimOnce_tx:
  assumes "claimOnce env p db = Inr ((res, retry), db')"
  shows "db' = db \<or> claimInTx env p db = Inr ((res, retry), db')"
  using assms by (auto simp: claimOnce_def result_simps split: if_splits)

lemma claimForWorkerOnce_tx:
  assumes "claimForWorkerOnce n env p db = Inr ((res, retry), db')"
  obtains "db' = db" | p' where "claimInTx env p' db = Inr ((res, retry), db')"
    "cp_TenantMaxInflight p' = cp_TenantMaxInflight p" "cp_WorkerID p' = cp_WorkerID p"
  using assms
  by (fastforce simp: claimForWorkerOnce_def Let_def split: option.splits if_splits sum.splits)

lemma leadership_frame:
  "TryBecomeLeader lock inst stale now db = (e, db') \<Longrightarrow> \<exists>l. db' = db\<lparr>leadership := l\<rparr>"
  "HeartbeatLeadership inst epoch now db = (ok, db') \<Longrightarrow> \<exists>l. db' = db\<lparr>leadership := l\<rparr>"
  "\<exists>l. ReleaseLeadership inst epoch db = db\<lparr>leadership := l\<rparr>"
proof -
  have same: "\<exists>l. db = db\<lparr>leadership := l\<rparr>" for db :: job_db
    by (rule exI [of _ "leadership db"]) simp
  show "TryBecomeLeader lock inst stale now db = (e, db') \<Longrightarrow> \<exists>l. db' = db\<lparr>leadership := l\<rparr>"
    using same by (auto simp: TryBecomeLeader_def claimLeadershipForced_def Let_def split: if_splits option.splits)
  show "HeartbeatLeadership inst epoch now db = (ok, db') \<Longrightarrow> \<exists>l. db' = db\<lparr>leadership := l\<rparr>"
    using same by (auto simp: HeartbeatLeadership_def split: if_splits option.splits)
  show "\<exists>l. ReleaseLeadership inst epoch db = db\<lparr>leadership := l\<rparr>"
    using same by (auto simp: ReleaseLeadership_def split: if_splits option.splits)
qed

lemma worker_frame:
  "\<exists>ws. RegisterWorker req session now db = db\<lparr>workers := ws\<rparr>"
  "\<exists>ws. RefreshWorkerHeartbeat w minInterval now db = db\<lparr>workers := ws\<rparr>"
  by (auto simp: RegisterWorker_def RefreshWorkerHeartbeat_def Let_def)

text \<open>The claim steps, the finish steps and the steps outside the job tables, each as one case.\<close>

lemma jstep_cases:
  assumes "jstep limit db db'"
  obtains (enqueue) hash i params now job xmax0 r where
      "NewJob hash i params now = Inr job" "Enqueue xmax0 job db = (r, db')"
    | (claim) env p res retry where "claimInTx env p db = Inr ((res, retry), db')" "cp_TenantMaxInflight p = limit"
      "\<And>t. 0 \<le> ce_snap env t"
    | (heartbeat) i w t ttl now hb where "StoreHeartbeat i w t ttl now db = Inr (hb, db')"
    | (cancel) tenant i now u where "StoreCancel tenant i now db = Inr (u, db')"
    | (finish) i w t req jitter now res where "finishAttempt i w t req jitter now db = Inr (res, db')" "bigint_ok db'"
    | (promote) locked now n c where "PromoteReady locked now n db = (c, db')"
    | (recover) locked now released where "RecoverExpiredAttempts locked now db = (released, db')"
    | (repair) c where "RepairQuotaCounters db = (c, db')"
    | (frame) ws l where "db' = db\<lparr>workers := ws, leadership := l\<rparr>"
  using assms
proof (cases rule: jstep.cases)
  case (step_claim env p r)
  obtain res retry where r: "r = (res, retry)" by (cases r)
  from claimOnce_tx step_claim(1) r consider "db' = db" | "claimInTx env p db = Inr ((res, retry), db')" by blast
  then show thesis
  proof cases
    case 1
    then show thesis using frame [where ws = "workers db" and l = "leadership db"] by simp
  qed (use step_claim claim in blast)
next
  case (step_worker_claim n env p r)
  obtain res retry where r: "r = (res, retry)" by (cases r)
  from step_worker_claim(1) [unfolded r] show thesis
  proof (cases rule: claimForWorkerOnce_tx)
    case 1
    then show thesis using frame [where ws = "workers db" and l = "leadership db"] by simp
  qed (use step_worker_claim claim in metis)
next
  case (step_register req session now)
  with worker_frame(1) [of req session now db] frame [where l = "leadership db"] show thesis by auto
next
  case (step_refresh w minInterval now)
  with worker_frame(2) [of w minInterval now db] frame [where l = "leadership db"] show thesis by auto
next
  case (step_complete i w t ref ms jitter now res)
  with finish_of_complete [OF step_complete(1)] finish show thesis by metis
next
  case (step_fail i w t code msg retryable ms jitter now res)
  with finish show thesis unfolding FailAttempt_def by metis
next
  case (step_lead lock inst stale now e)
  with leadership_frame(1) [OF step_lead] frame [where ws = "workers db"] show thesis by auto
next
  case (step_leadbeat inst epoch now ok)
  with leadership_frame(2) [OF step_leadbeat] frame [where ws = "workers db"] show thesis by auto
next
  case (step_release inst epoch)
  with leadership_frame(3) [of inst epoch db] frame [where ws = "workers db"] show thesis by auto
qed (use enqueue heartbeat cancel promote recover repair in blast)+

section \<open>The invariants hold in every reachable state\<close>

lemma jstep_store_inv:
  assumes "jstep limit db db'" and "store_inv db"
  shows "store_inv db'"
  using assms(1)
proof (cases rule: jstep_cases)
  case enqueue
  with assms(2) Enqueue_inv show ?thesis by blast
next
  case claim
  from assms(2) claim(1) show ?thesis by (cases rule: claimInTx_cases) (use assms(2) in simp_all)
next
  case repair
  then have "jobs db' = jobs db" "attempts db' = attempts db" "outbox db' = outbox db"
    by (auto simp: RepairQuotaCounters_def Let_def)
  with assms(2) store_inv_frame show ?thesis by blast
next
  case frame
  with assms(2) show ?thesis by (auto intro: store_inv_frame)
next
  case heartbeat
  with assms(2) show ?thesis by (rule StoreHeartbeat_inv)
next
  case cancel
  with assms(2) show ?thesis by (rule StoreCancel_inv)
next
  case finish
  with assms(2) show ?thesis by (rule finishAttempt_inv)
next
  case promote
  with assms(2) show ?thesis by (rule PromoteReady_inv)
next
  case recover
  with assms(2) show ?thesis by (rule RecoverExpiredAttempts_phases(1))
qed

lemma Enqueue_quota:
  assumes "quota_inv limit db" and "NewJob hash i params now = Inr job" and "Enqueue xmax0 job db = (r, db')"
  shows "quota_inv limit db'"
  using assms(3)
proof (cases rule: Enqueue_db)
  case (1 db1 ns)
  have "quota db1 = quota db \<and> inflightOf t (jobs db1) = inflightOf t (jobs db)" for t
    using 1(1) NewJob_fresh [OF assms(2)] by (auto simp: enqueueInsert_def inflightOf_def split: if_splits)
  then show ?thesis by (intro quota_inv_same [OF assms(1)]) (simp_all add: 1(2))
qed (use assms(1) in simp)

lemma RepairQuotaCounters_counter:
  assumes "\<And>t. 0 \<le> counterOf (quota db) t" and "RepairQuotaCounters db = (c, db')"
  shows "counterOf (quota db') t = inflightOf t (jobs db)" and "jobs db' = jobs db"
proof -
  define actual where "actual = remdups (map job_TenantID (filter (\<lambda>j. inflight_state (job_State j)) (jobs db)))"
  let ?n = "\<lambda>t. inflightOf t (jobs db)"
  let ?differs = "\<lambda>r. if fst r \<in> set actual then snd r \<noteq> ?n (fst r) else snd r > 0"
  let ?ins = "map (\<lambda>t. (t, ?n t)) (filter (\<lambda>t. t \<notin> fst ` set (quota db)) actual)"
  from assms(2) have db': "db' = db\<lparr>quota := update_where ?differs (\<lambda>r. (fst r, ?n (fst r))) (quota db) @ ?ins\<rparr>"
    unfolding RepairQuotaCounters_def Let_def actual_def by blast
  then show "jobs db' = jobs db" by simp
  have absent: "?n u = 0" if "u \<notin> set actual" for u
    unfolding inflightOf_def using that by (intro count_where_zero) (auto simp: actual_def)
  show "counterOf (quota db') t = ?n t"
  proof (cases "map_of (quota db) t")
    case None
    then have "t \<notin> fst ` set (quota db)" by (simp add: map_of_eq_None_iff)
    then have "map_of ?ins t = (if t \<in> set actual then Some (?n t) else None)"
      by (simp add: map_of_map_restrict [where f = ?n, unfolded comp_def] restrict_map_def)
    with None absent [of t] show ?thesis
      by (simp add: db' counterOf_append map_of_update_where) (simp add: counterOf_def)
  next
    case (Some v)
    with assms(1) [of t] have "0 \<le> v" by (simp add: counterOf_def)
    with Some absent [of t] show ?thesis
      by (simp add: db' counterOf_append map_of_update_where) (simp add: counterOf_def map_of_update_where)
  qed
qed

lemma jstep_quota_inv:
  assumes "jstep limit db db'" and "store_inv db" and "quota_inv limit db" and "0 < limit"
  shows "quota_inv limit db'"
  using assms(1)
proof (cases rule: jstep_cases)
  case enqueue
  with assms(3) Enqueue_quota show ?thesis by blast
next
  case claim
  with assms claimInTx_quota show ?thesis by blast
next
  case (heartbeat i w t ttl now hb)
  then show ?thesis
    by (intro quota_inv_same [OF assms(3)])
      (auto simp: StoreHeartbeat_def split: option.splits intro!: inflightOf_same)
next
  case (cancel tenant i now u)
  then show ?thesis
    by (intro quota_inv_same [OF assms(3)])
      (auto simp: StoreCancel_def writeOutbox_def cancelRow_def cancelWaitingMatches_def cancelRunningMatches_def
        split: option.splits sum.splits intro!: inflightOf_same)
next
  case finish
  with assms finishAttempt_quota show ?thesis by blast
next
  case (promote locked now n c)
  from assms(2) promote show ?thesis
  proof (cases rule: PromoteReady_effect)
    case (1 ids)
    have "inflightOf t (jobs db') = inflightOf t (jobs db)" for t
      unfolding 1(1) by simp (rule inflightOf_same, use 1(2) in \<open>fastforce simp: promoted_row_def\<close>)
    then show ?thesis by (intro quota_inv_same [OF assms(3)]) (simp_all add: 1(1))
  qed
next
  case recover
  with assms RecoverExpiredAttempts_quota show ?thesis by blast
next
  case (repair c)
  have "0 \<le> counterOf (quota db) t" for t using assms(3) by (simp add: quota_inv_def inflightOf_def)
  from RepairQuotaCounters_counter [OF this repair] assms(3) show ?thesis by (simp add: quota_inv_def)
next
  case frame
  with assms(3) show ?thesis by (auto intro: quota_inv_same)
qed

section \<open>The evolution of a row\<close>

text \<open>
  What one transaction does to a job row: nothing; a change that keeps state, version and token
  (a heartbeat, never on a terminal job); or a move along an edge of the state machine with the
  next version, and with the next fencing token and attempt exactly when it is a claim. What
  the submission fixed never changes.
\<close>

definition same_submission :: "Job \<Rightarrow> Job \<Rightarrow> bool" where
  "same_submission r r' \<longleftrightarrow> job_ID r' = job_ID r \<and> job_TenantID r' = job_TenantID r \<and> job_Queue r' = job_Queue r \<and>
     job_Type r' = job_Type r \<and> job_Payload r' = job_Payload r \<and> job_Priority r' = job_Priority r \<and>
     job_MaxAttempts r' = job_MaxAttempts r \<and> job_TimeoutSeconds r' = job_TimeoutSeconds r \<and>
     job_IdempotencyKey r' = job_IdempotencyKey r \<and> job_RequestHash r' = job_RequestHash r"

definition row_step :: "Job \<Rightarrow> Job \<Rightarrow> bool" where
  "row_step r r' \<longleftrightarrow> r' = r \<or>
     (same_submission r r' \<and> \<not> IsTerminal (job_State r) \<and>
      (job_State r' = job_State r \<and> job_StateVersion r' = job_StateVersion r \<and>
         job_FencingToken r' = job_FencingToken r \<and> job_Attempt r' = job_Attempt r \<or>
       CanTransition (job_State r) (job_State r') \<and> job_StateVersion r' = job_StateVersion r + 1 \<and>
         job_FencingToken r' = job_FencingToken r + (if job_State r' = StateRunning then 1 else 0) \<and>
         job_Attempt r' = job_Attempt r + (if job_State r' = StateRunning then 1 else 0)))"

definition rows_step :: "Job list \<Rightarrow> Job list \<Rightarrow> bool" where
  "rows_step js js' \<longleftrightarrow> (\<forall>r \<in> set js. \<exists>r' \<in> set js'. row_step r r')"

lemma rows_step_refl [simp]: "rows_step js js"
  by (auto simp: rows_step_def row_step_def)

lemma rows_step_update:
  assumes "\<And>r. r \<in> set js \<Longrightarrow> P r \<Longrightarrow> row_step r (f r)"
  shows "rows_step js (update_where P f js)"
  unfolding rows_step_def
proof
  fix r assume r: "r \<in> set js"
  show "\<exists>r' \<in> set (update_where P f js). row_step r r'"
  proof (cases "P r")
    case True
    with r assms show ?thesis by (auto simp: set_update_where)
  next
    case False
    with r show ?thesis by (intro bexI [of _ r]) (auto simp: set_update_where row_step_def)
  qed
qed

lemmas row_step_simps = row_step_def same_submission_def CanTransition_def

lemma finishDecision_edge:
  assumes "finishDecision req w t jitter now job = Inr (j', outcome)"
  shows "CanTransition (job_State job) (job_State j') \<and> \<not> inflight_state (job_State j')"
  using assms
  by (auto simp: finishDecision_def CompleteWithResult_def Complete_def Fail_def Let_def
      CanTransition_def result_simps split: if_splits)

lemma finished_row_step:
  assumes "finishDecision req w t jitter now job = Inr (j', outcome)" and "inflight_state (job_State job)"
  shows "row_step job (finished_row j' now job)"
proof -
  from assms(2) have "\<not> IsTerminal (job_State job)" by auto
  with finishDecision_edge [OF assms(1)] show ?thesis
    by (simp add: row_step_def same_submission_def finished_row_def)
qed

lemma recovery_rows_step:
  "rows_step js (update_where (leaseExpired StateCancelling locked now) (recoverCancellingRow now)
     (update_where (leaseExpired StateRunning locked now) (recoverRunningRow now) js))" (is "rows_step js ?js'")
proof -
  let ?h = "\<lambda>r. if leaseExpired StateRunning locked now r then recoverRunningRow now r
    else if leaseExpired StateCancelling locked now r then recoverCancellingRow now r else r"
  have "?js' = map ?h js"
    by (auto simp: update_where_def leaseExpired_def recover_row_defs)
  also have "\<dots> = update_where (\<lambda>_. True) ?h js" by (simp add: update_where_def)
  finally have eq: "?js' = update_where (\<lambda>_. True) ?h js" .
  show ?thesis unfolding eq
    by (rule rows_step_update) (auto simp: row_step_simps leaseExpired_def recover_row_defs)
qed

lemma jstep_rows:
  assumes "jstep limit db db'" and inv: "store_inv db"
  shows "rows_step (jobs db) (jobs db')"
  using assms(1)
proof (cases rule: jstep_cases)
  case (enqueue hash i params now job xmax0 r)
  from enqueue(2) show ?thesis
  proof (cases rule: Enqueue_db)
    case (1 db1 ns)
    then show ?thesis by (auto simp: enqueueInsert_def rows_step_def row_step_def split: if_splits)
  qed simp
next
  case (claim env p res retry)
  from inv claim(1) show ?thesis
  proof (cases rule: claimInTx_cases)
    case (claimed pl as m q)
    have "job_State r = StateReady" if r: "r \<in> set (jobs db)" "job_ID r \<in> job_ID ` set (pl_planned pl)" for r
      using claimed(9) [OF planned_rows(1) [OF inv claimed(7,8) r]] by (simp add: claimable_def)
    then show ?thesis unfolding claimed(4)
      by simp (rule rows_step_update, simp add: row_step_simps claimUpdate_def)
  qed simp
next
  case (heartbeat i w t ttl now hb)
  then show ?thesis
    by (auto simp: StoreHeartbeat_def row_step_simps heartbeatMatches_def split: option.splits intro!: rows_step_update)
next
  case (cancel tenant i now u)
  then show ?thesis
    by (auto simp: StoreCancel_def writeOutbox_def split: option.splits sum.splits intro!: rows_step_update)
      (auto simp: row_step_simps cancelRow_def cancelWaitingMatches_def cancelRunningMatches_def)
next
  case (finish i w t req jitter now res)
  from finish(1) show ?thesis
  proof (cases rule: finishAttempt_cases)
    case (finished job j' outcome)
    have job: "job \<in> set (jobs db)" "job_ID job = i"
      using finished(1) by (auto dest: find_row_SomeD)
    have "r = job" if "r \<in> set (jobs db)" "job_ID r = i" for r
      using same_id_same_row [OF inv that(1) job(1)] that job by simp
    with finished_row_step [OF finished(7,4)] show ?thesis unfolding finished(9) writeOutbox_def
      by simp (rule rows_step_update, blast)
  qed simp
next
  case (promote locked now n c)
  from inv promote show ?thesis
  proof (cases rule: PromoteReady_effect)
    case (1 ids)
    show ?thesis unfolding 1(1)
      by simp (rule rows_step_update, use 1(2) in \<open>fastforce simp: row_step_simps promoted_row_def\<close>)
  qed
next
  case (recover locked now released)
  show ?thesis unfolding RecoverExpiredAttempts_phases(2) [OF inv recover] by (rule recovery_rows_step)
next
  case (repair c)
  then show ?thesis by (auto simp: RepairQuotaCounters_def Let_def)
next
  case frame
  then show ?thesis by simp
qed

section \<open>Interfaces\<close>

text \<open>
  The job store as a fenced store: the resource is a job, its token the fencing token of the
  row, and a token is admitted when a heartbeat or a finish presenting it is not an error.
\<close>

definition job_token :: "job_db \<Rightarrow> string \<Rightarrow> int" where
  "job_token db i = (case find_row (byID i) (jobs db) of None \<Rightarrow> 0 | Some j \<Rightarrow> job_FencingToken j)"

definition job_admits :: "job_db \<Rightarrow> string \<Rightarrow> int \<Rightarrow> bool" where
  "job_admits db i t \<longleftrightarrow> (\<exists>w ttl now. isOk (StoreHeartbeat i w t ttl now db)) \<or>
     (\<exists>w req jitter now. isOk (finishAttempt i w t req jitter now db))"

lemma job_token_row: "store_inv db \<Longrightarrow> r \<in> set (jobs db) \<Longrightarrow> job_token db (job_ID r) = job_FencingToken r"
  using find_row_Some_iff [OF store_inv_ids, of db "job_ID r" r] by (simp add: job_token_def)

lemma row_step_mono:
  "row_step r r' \<Longrightarrow> job_ID r' = job_ID r \<and> job_FencingToken r \<le> job_FencingToken r' \<and>
     job_StateVersion r \<le> job_StateVersion r'"
  by (auto simp: row_step_def same_submission_def)

lemma jstep_token_mono:
  assumes "jstep limit db db'" and inv: "store_inv db"
  shows "job_token db i \<le> job_token db' i"
proof (cases "find_row (byID i) (jobs db)")
  case None
  have inv': "store_inv db'" by (rule jstep_store_inv [OF assms])
  have "0 \<le> job_token db' i"
    using store_inv_lease [OF inv'] by (auto simp: job_token_def lease_ok_def dest!: find_row_SomeD split: option.splits)
  with None show ?thesis by (simp add: job_token_def)
next
  case (Some r)
  then have r: "r \<in> set (jobs db)" "job_ID r = i" by (auto dest: find_row_SomeD)
  with jstep_rows [OF assms] obtain r' where r': "r' \<in> set (jobs db')" "row_step r r'"
    by (auto simp: rows_step_def)
  with job_token_row [OF jstep_store_inv [OF assms] r'(1)] job_token_row [OF inv r(1)] row_step_mono [OF r'(2)] r(2)
  show ?thesis by simp
qed

lemma job_admits_current:
  assumes "store_inv db" and "job_admits db i t"
  shows "t = job_token db i"
proof -
  from assms(2) have "\<exists>j \<in> set (jobs db). job_ID j = i \<and> job_FencingToken j = t"
    by (auto simp: job_admits_def isOk_iff StoreHeartbeat_def finishAttempt_def heartbeatMatches_def
        dest!: find_row_SomeD split: option.splits if_splits)
  with job_token_row [OF assms(1)] show ?thesis by auto
qed

interpretation job_store: fenced_store empty_db "jstep limit" store_inv job_token job_admits for limit
proof unfold_locales
  show "store_inv db" if "empty_db db" for db
    using that by (simp add: empty_db_def store_inv_def keys_ok_def outbox_ok_def idem_ok_def)
qed (fact jstep_store_inv jstep_token_mono job_admits_current)+

interpretation job_quota: inductive_invariant "\<lambda>db. 0 < limit \<and> empty_db db" "jstep limit"
    "\<lambda>db. 0 < limit \<and> store_inv db \<and> quota_inv limit db" for limit
proof unfold_locales
  show "0 < limit \<and> store_inv db \<and> quota_inv limit db" if "0 < limit \<and> empty_db db" for db
    using that by (simp add: empty_db_def store_inv_def keys_ok_def outbox_ok_def idem_ok_def quota_inv_def
        counterOf_def inflightOf_def)
  show "0 < limit \<and> store_inv db' \<and> quota_inv limit db'"
    if "jstep limit db db'" "0 < limit \<and> store_inv db \<and> quota_inv limit db" for db db'
    using that jstep_store_inv jstep_quota_inv by blast
qed

text \<open>The leadership row: the token is its epoch, and an epoch is admitted when its holder's heartbeat is.\<close>

definition leader_epoch :: "job_db \<Rightarrow> unit \<Rightarrow> int" where
  "leader_epoch db u = (case leadership db of None \<Rightarrow> 0 | Some r \<Rightarrow> ld_epoch r)"

definition epoch_admits :: "job_db \<Rightarrow> unit \<Rightarrow> int \<Rightarrow> bool" where
  "epoch_admits db u e \<longleftrightarrow> (\<exists>inst now. fst (HeartbeatLeadership inst e now db)) \<or>
     (\<exists>inst. ReleaseLeadership inst e db \<noteq> db)"

definition leader_inv :: "job_db \<Rightarrow> bool" where
  "leader_inv db \<longleftrightarrow> store_inv db \<and> 0 \<le> leader_epoch db ()"

lemma writeRecoveryAudits_leadership: "leadership (writeRecoveryAudits now js db) = leadership db"
  by (induction js arbitrary: db) simp_all

lemma claimInTx_leadership:
  assumes "store_inv db" and "claimInTx env p db = Inr ((res, retry), db')"
  shows "leadership db' = leadership db"
  using assms by (cases rule: claimInTx_cases) simp_all

lemma finishAttempt_leadership:
  assumes "finishAttempt i w t req jitter now db = Inr (res, db')"
  shows "leadership db' = leadership db"
  using assms by (cases rule: finishAttempt_cases) (simp_all add: writeOutbox_def)

lemma Enqueue_leadership:
  assumes "Enqueue xmax0 job db = (r, db')"
  shows "leadership db' = leadership db"
  using assms by (cases rule: Enqueue_db) (auto simp: enqueueInsert_def split: if_splits)

lemma TryBecomeLeader_epoch:
  "TryBecomeLeader lock inst stale now db = (Some e, db') \<Longrightarrow> e = leader_epoch db () + 1 \<and> leader_epoch db' () = e"
  "TryBecomeLeader lock inst stale now db = (r, db') \<Longrightarrow> leader_epoch db () \<le> leader_epoch db' ()"
  by (auto simp: TryBecomeLeader_def claimLeadershipIfStale_def claimLeadershipForced_def leader_epoch_def Let_def
      split: option.splits if_splits)

lemma jstep_epoch_mono:
  assumes "jstep limit db db'" and inv: "leader_inv db"
  shows "leader_epoch db u \<le> leader_epoch db' u"
  using assms(1)
proof (cases rule: jstep.cases)
  case step_enqueue
  with Enqueue_leadership show ?thesis by (simp add: leader_epoch_def)
next
  case (step_claim env p r)
  obtain res retry where "r = (res, retry)" by (cases r)
  with claimOnce_tx step_claim(1) consider "db' = db" | "claimInTx env p db = Inr ((res, retry), db')" by blast
  then show ?thesis using claimInTx_leadership inv by cases (auto simp: leader_epoch_def leader_inv_def)
next
  case (step_worker_claim n env p r)
  obtain res retry where r: "r = (res, retry)" by (cases r)
  from step_worker_claim(1) [unfolded r] show ?thesis
    by (cases rule: claimForWorkerOnce_tx)
      (use claimInTx_leadership inv in \<open>auto simp: leader_epoch_def leader_inv_def\<close>)
next
  case step_complete
  from finish_of_complete [OF step_complete(1)] finishAttempt_leadership show ?thesis
    by (metis leader_epoch_def order_refl)
next
  case step_fail
  then show ?thesis using finishAttempt_leadership by (simp add: leader_epoch_def FailAttempt_def)
next
  case step_lead
  with TryBecomeLeader_epoch(2) show ?thesis by simp
qed (auto simp: RegisterWorker_def RefreshWorkerHeartbeat_def StoreHeartbeat_def StoreCancel_def writeOutbox_def
    PromoteReady_def RecoverExpiredAttempts_def RepairQuotaCounters_def HeartbeatLeadership_def
    ReleaseLeadership_def leader_epoch_def writeRecoveryAudits_leadership Let_def
    split: option.splits if_splits sum.splits)

interpretation leadership_store: fenced_store empty_db "jstep limit" leader_inv leader_epoch epoch_admits for limit
proof unfold_locales
  show "leader_inv db" if "empty_db db" for db
    using that job_store.init [of db] by (simp add: leader_inv_def leader_epoch_def empty_db_def)
  show "leader_inv db'" if "jstep limit db db'" "leader_inv db" for db db'
    using that jstep_epoch_mono [OF that, of "()"] jstep_store_inv by (auto simp: leader_inv_def)
  show "leader_epoch db u \<le> leader_epoch db' u" if "jstep limit db db'" "leader_inv db" for db db' u
    using that by (rule jstep_epoch_mono)
  show "e = leader_epoch db u" if "leader_inv db" "epoch_admits db u e" for db u e
    using that(2) by (auto simp: epoch_admits_def HeartbeatLeadership_def ReleaseLeadership_def leads_def leader_epoch_def
        split: option.splits if_splits)
qed

end
