(* ===== verification/JobStoreProps.thy ===== *)
theory JobStoreProps
  imports JobStoreSteps
begin

text \<open>
  The guarantees of the job store, each for every state the transactions can reach, and a small
  run of the store on which they are exercised.
\<close>

section \<open>A run of the store\<close>

text \<open>A job is submitted, claimed by a worker, and its lease runs out.\<close>

definition db_empty :: job_db where
  "db_empty = \<lparr>jobs = [], attempts = [], outbox = [], quota = [], workers = [], leadership = None, notified = []\<rparr>"

definition db_ready :: job_db where
  "db_ready = snd (Enqueue True (sample_job\<lparr>job_MaxAttempts := 1, job_IdempotencyKey := Some ''k''\<rparr>) db_empty)"

definition sample_env :: "time \<Rightarrow> claim_env" where
  "sample_env now = \<lparr>ce_now = now, ce_hostNow = now, ce_locked = (\<lambda>_. False), ce_prefilter = (\<lambda>_. 0), ce_snap = (\<lambda>_. 0)\<rparr>"

definition sample_claim :: "string \<Rightarrow> ClaimParams" where
  "sample_claim w = \<lparr>cp_Queues = [''q''], cp_WorkerID = w, cp_Types = None, cp_MaxJobs = 1, cp_LeaseTTL = 30,
     cp_TenantMaxInflight = 2, cp_QuotaPrefilter = True\<rparr>"

definition tx_db :: "'e + ('a \<times> job_db) \<Rightarrow> job_db" where
  "tx_db r = (case r of Inl _ \<Rightarrow> db_empty | Inr (_, db) \<Rightarrow> db)"

definition db_claimed :: job_db where
  "db_claimed = tx_db (claimOnce (sample_env 10) (sample_claim ''w1'') db_ready)"

definition db_recovered :: job_db where
  "db_recovered = snd (RecoverExpiredAttempts (\<lambda>_. False) 100 db_claimed)"

definition db_reclaimed :: job_db where
  "db_reclaimed = tx_db (claimOnce (sample_env 110) (sample_claim ''w2'') db_recovered)"

definition sample_new :: NewJobParams where
  "sample_new = sample_params\<lparr>njp_MaxAttempts := 1, njp_IdempotencyKey := Some ''k''\<rparr>"

lemma sample_job_new: "NewJob (\<lambda>_. ''h'') ''j1'' sample_new 0 =
    Inr (sample_job\<lparr>job_MaxAttempts := 1, job_IdempotencyKey := Some ''k''\<rparr>)"
  by (simp add: NewJob_def sample_new_def sample_params_def sample_job_def MaxPayloadSize_def MaxAttemptsUpperBound_def
      DefaultTimeout_def Second_def)

lemma db_ready_step: "jstep 2 db_empty db_ready"
  unfolding db_ready_def by (rule jstep.step_enqueue [OF sample_job_new surjective_pairing])

lemma isOk_tx: "isOk r \<Longrightarrow> r = Inr (fst (projr r), tx_db r)"
  by (auto simp: isOk_iff tx_db_def)

lemma claim_ok:
  "isOk (claimOnce (sample_env 10) (sample_claim ''w1'') db_ready)"
  "isOk (claimOnce (sample_env 110) (sample_claim ''w2'') db_recovered)"
  by code_simp+

lemma db_claimed_step: "jstep 2 db_ready db_claimed"
  unfolding db_claimed_def
  by (rule jstep.step_claim [OF isOk_tx [OF claim_ok(1)]]) (simp_all add: sample_claim_def sample_env_def)

lemma db_recovered_step: "jstep 2 db_claimed db_recovered"
  unfolding db_recovered_def by (rule jstep.step_recover [OF surjective_pairing])

lemma db_reclaimed_step: "jstep 2 db_recovered db_reclaimed"
  unfolding db_reclaimed_def
  by (rule jstep.step_claim [OF isOk_tx [OF claim_ok(2)]]) (simp_all add: sample_claim_def sample_env_def)

lemma run_reachable:
  "reachable empty_db (jstep 2) db_claimed" "reachable empty_db (jstep 2) db_reclaimed"
proof -
  have "reachable empty_db (jstep 2) db_empty"
    by (rule reachable_start) (simp add: empty_db_def db_empty_def)
  then show claimed: "reachable empty_db (jstep 2) db_claimed"
    using db_ready_step db_claimed_step by (blast intro: reachable_step)
  then show "reachable empty_db (jstep 2) db_reclaimed"
    using db_recovered_step db_reclaimed_step by (blast intro: reachable_step)
qed

section \<open>Leases\<close>

lemma unfinished_attempts_count:
  assumes inv: "store_inv db" and j: "j \<in> set (jobs db)"
  shows "count_where (\<lambda>a. at_job a = job_ID j \<and> at_finished a = None) (attempts db) =
    (if inflight_state (job_State j) then 1 else 0)"
proof (cases "inflight_state (job_State j)")
  case False
  then show ?thesis using unfinished_is_current(1) [OF inv j] by (auto intro!: count_where_zero)
next
  case True
  with store_inv_lease [OF inv j] obtain a where a: "a \<in> set (attempts db)" "at_job a = job_ID j" "at_finished a = None"
      "at_no a = job_Attempt j"
    by (auto simp: lease_ok_def attempts_of_def unfinishedAttempt_def)
  have "count_where (\<lambda>b. at_job b = job_ID j \<and> at_finished b = None) (attempts db) =
      count_where (\<lambda>b. (at_job b, at_no b) = (at_job a, at_no a) \<and> at_finished b = None) (attempts db)"
    using unfinished_is_current(2) [OF inv j] a by (intro count_where_cong) auto
  also have "\<dots> = 1"
    using count_where_key [OF distinct_attempt_keys [OF inv] a(1), where Q = "\<lambda>b. at_finished b = None"] a(3) by simp
  finally show ?thesis using True by simp
qed

text \<open>C6.
  In every reachable state a job in flight has exactly one unfinished attempt record and any
  other job has none; that record names the worker that owns the lease, the fencing token of
  the job row and its attempt number. So no two workers ever hold the same job.
\<close>

theorem one_unfinished_attempt_per_lease:
  assumes "reachable empty_db (jstep limit) db" and "j \<in> set (jobs db)"
  shows "count_where (\<lambda>a. at_job a = job_ID j \<and> at_finished a = None) (attempts db) =
      (if inflight_state (job_State j) then 1 else 0) \<and>
    (\<forall>a \<in> set (attempts db). at_job a = job_ID j \<longrightarrow> at_finished a = None \<longrightarrow>
       job_LeaseOwner j = Some (at_worker a) \<and> at_token a = job_FencingToken j \<and> at_no a = job_Attempt j)"
proof -
  have inv: "store_inv db" using job_store.invariant [OF assms(1)] .
  with unfinished_attempts_count [OF inv assms(2)] unfinished_is_current [OF inv assms(2)] show ?thesis by blast
qed

theorem one_unfinished_attempt_per_lease_witness:
  "\<exists>j \<in> set (jobs db_claimed). inflight_state (job_State j) \<and>
     count_where (\<lambda>a. at_job a = job_ID j \<and> at_finished a = None) (attempts db_claimed) = 1"
proof -
  have "list_ex (\<lambda>j. inflight_state (job_State j)) (jobs db_claimed)" by code_simp
  then obtain j where "j \<in> set (jobs db_claimed)" "inflight_state (job_State j)" by (auto simp: list_ex_iff)
  with one_unfinished_attempt_per_lease [OF run_reachable(1)] show ?thesis by (intro bexI [of _ j]) auto
qed

text \<open>C4.
  A fencing token that has been superseded is refused for ever: from a reachable state whose
  token for a job is above \<open>t\<close>, after any further transactions, every heartbeat, completion
  and failure presenting \<open>t\<close> is an error, whatever the worker, the time and the report.
\<close>

theorem superseded_token_is_refused:
  assumes "reachable empty_db (jstep limit) db" and "t < job_token db i" and "(jstep limit)\<^sup>*\<^sup>* db db'"
  shows "\<not> isOk (StoreHeartbeat i w t ttl now db') \<and>
    \<not> isOk (CompleteAttempt i w t ref ms jitter now db') \<and>
    \<not> isOk (FailAttempt i w t code msg retryable ms jitter now db')"
proof -
  have "\<not> job_admits db' i t"
    by (rule job_store.superseded_for_ever [OF job_store.invariant [OF assms(1)] assms(2,3)])
  then show ?thesis
    by (auto simp: job_admits_def FailAttempt_def isOk_iff elim: finish_of_complete)
qed

theorem superseded_token_is_refused_witness:
  "\<not> isOk (CompleteAttempt ''j1'' ''w1'' 1 ''ref'' 5 0 120 db_reclaimed)"
proof -
  have "1 < job_token db_reclaimed ''j1''" by code_simp
  from superseded_token_is_refused [OF run_reachable(2) this rtranclp.rtrancl_refl] show ?thesis by blast
qed

section \<open>Quota\<close>

text \<open>C5.
  With a tenant limit in force the derived counters are exact in every reachable state, and no
  tenant ever has more jobs in flight than the limit, although claims plan on counter snapshots
  that may be stale.
\<close>

theorem tenant_quota_is_exact_and_respected:
  assumes "reachable (\<lambda>db. 0 < limit \<and> empty_db db) (jstep limit) db"
  shows "counterOf (quota db) t = inflightOf t (jobs db) \<and> inflightOf t (jobs db) \<le> limit"
  using job_quota.invariant [OF assms] by (simp add: quota_inv_def)

lemma reachable_mono: "reachable start step s \<Longrightarrow> (\<And>s. start s \<Longrightarrow> start' s) \<Longrightarrow> reachable start' step s"
  by (induction rule: reachable.induct) (auto intro: reachable.intros)

theorem tenant_quota_is_exact_and_respected_witness:
  "counterOf (quota db_claimed) ''t1'' = inflightOf ''t1'' (jobs db_claimed) \<and> inflightOf ''t1'' (jobs db_claimed) \<le> 2"
  by (rule tenant_quota_is_exact_and_respected, rule reachable_mono [OF run_reachable(1)]) simp

lemma QuotaDrift_empty_iff:
  assumes "\<And>t. 0 \<le> counterOf (quota db) t"
  shows "QuotaDrift db = [] \<longleftrightarrow> (\<forall>t. counterOf (quota db) t = inflightOf t (jobs db))"
proof -
  have "counterOf (quota db) t = 0 \<and> inflightOf t (jobs db) = 0"
    if "t \<notin> set (map fst (quota db) @ map job_TenantID (filter (\<lambda>j. inflight_state (job_State j)) (jobs db)))" for t
    using that by (auto simp: counterOf_def inflightOf_def map_of_eq_None_iff [symmetric] intro!: count_where_zero)
  then show ?thesis by (force simp: QuotaDrift_def Let_def filter_empty_conv)
qed

text \<open>
  Quota repair restores the counters from any drift: starting from counters that are only known
  not to be negative (the table's check), after the repair no tenant is reported as drifted, and
  every counter is the number of jobs in flight; and the report of drift is empty exactly when
  the counters are exact.
\<close>

theorem quota_repair_removes_all_drift:
  assumes "\<And>t. 0 \<le> counterOf (quota db) t" and "RepairQuotaCounters db = (changed, db')"
  shows "QuotaDrift db' = [] \<and> counterOf (quota db') t = inflightOf t (jobs db') \<and> jobs db' = jobs db \<and>
    (QuotaDrift db = [] \<longleftrightarrow> (\<forall>t. counterOf (quota db) t = inflightOf t (jobs db)))"
proof -
  note rep = RepairQuotaCounters_counter [OF assms]
  have "0 \<le> counterOf (quota db') t" for t by (simp add: rep(1) inflightOf_def)
  with rep show ?thesis by (simp add: QuotaDrift_empty_iff assms(1))
qed

theorem quota_repair_removes_all_drift_witness:
  "QuotaDrift (db_claimed\<lparr>quota := [(''t9'', 4)]\<rparr>) \<noteq> [] \<and>
   QuotaDrift (snd (RepairQuotaCounters (db_claimed\<lparr>quota := [(''t9'', 4)]\<rparr>))) = []"
proof
  let ?db = "db_claimed\<lparr>quota := [(''t9'', 4)]\<rparr>"
  show "QuotaDrift ?db \<noteq> []" by code_simp
  have "0 \<le> counterOf (quota ?db) t" for t by (simp add: counterOf_def)
  from quota_repair_removes_all_drift [OF this surjective_pairing] show "QuotaDrift (snd (RepairQuotaCounters ?db)) = []"
    by blast
qed

section \<open>Rows and events\<close>

lemma rows_keep_terminal:
  assumes "(jstep limit)\<^sup>*\<^sup>* db db'" and "store_inv db" and "r \<in> set (jobs db)" and "IsTerminal (job_State r)"
  shows "r \<in> set (jobs db')"
  using assms(1)
proof (induction rule: rtranclp_induct)
  case (step y z)
  have "store_inv y" by (rule job_store.invariant_steps [OF assms(2) step.hyps(1)])
  from jstep_rows [OF step.hyps(2) this] step.IH obtain r' where "r' \<in> set (jobs z)" "row_step r r'"
    by (auto simp: rows_step_def)
  with assms(4) show ?case by (simp add: row_step_def)
qed (rule assms(3))

text \<open>C10.
  Every transaction moves a job row along an edge of the domain's state machine with exactly the
  next version, or keeps its state and version; it raises the fencing token and the attempt by
  one when it is a claim and never otherwise; and it never deletes a row or changes what the
  submission fixed (\<open>row_step\<close>).
\<close>

theorem transactions_follow_the_state_machine:
  assumes "reachable empty_db (jstep limit) db" and "jstep limit db db'" and "r \<in> set (jobs db)"
  shows "\<exists>r' \<in> set (jobs db'). row_step r r'"
  using jstep_rows [OF assms(2) job_store.invariant [OF assms(1)]] assms(3) by (simp add: rows_step_def)

theorem transactions_follow_the_state_machine_witness:
  "\<exists>r \<in> set (jobs db_claimed). \<exists>r' \<in> set (jobs db_recovered). row_step r r'"
proof -
  have "jobs db_claimed \<noteq> []" by code_simp
  then have "hd (jobs db_claimed) \<in> set (jobs db_claimed)" by (rule hd_in_set)
  with transactions_follow_the_state_machine [OF run_reachable(1) db_recovered_step this] show ?thesis by blast
qed

text \<open>C12.
  A terminal job row is final: after any further transactions the row is still in the table,
  with every column as it was.
\<close>

theorem terminal_rows_are_final:
  assumes "reachable empty_db (jstep limit) db" and "r \<in> set (jobs db)" and "IsTerminal (job_State r)"
    and "(jstep limit)\<^sup>*\<^sup>* db db'"
  shows "r \<in> set (jobs db')"
  using rows_keep_terminal [OF assms(4) job_store.invariant [OF assms(1)] assms(2,3)] .

definition db_done :: job_db where
  "db_done = tx_db (CompleteAttempt ''j1'' ''w1'' 1 ''ref'' 5 0 20 db_claimed)"

lemma complete_ok: "isOk (CompleteAttempt ''j1'' ''w1'' 1 ''ref'' 5 0 20 db_claimed)"
  by code_simp

lemma db_done_reachable: "reachable empty_db (jstep 2) db_done"
proof (rule reachable_step [OF run_reachable(1)])
  have "list_all (\<lambda>j. job_StateVersion j < 9223372036854775808) (jobs db_done)" by code_simp
  then have "bigint_ok db_done" by (simp add: bigint_ok_def list_all_iff)
  with isOk_tx [OF complete_ok] show "jstep 2 db_claimed db_done"
    unfolding db_done_def by (rule jstep.step_complete)
qed

theorem terminal_rows_are_final_witness:
  "\<exists>r \<in> set (jobs (snd (PromoteReady (\<lambda>_. False) 50 10 db_done))). job_State r = StateSucceeded"
proof -
  have "list_ex (\<lambda>r. job_State r = StateSucceeded) (jobs db_done)" by code_simp
  then obtain r where r: "r \<in> set (jobs db_done)" "job_State r = StateSucceeded" by (auto simp: list_ex_iff)
  have step: "(jstep 2)\<^sup>*\<^sup>* db_done (snd (PromoteReady (\<lambda>_. False) 50 10 db_done))"
    by (rule r_into_rtranclp, rule jstep.step_promote [OF surjective_pairing])
  from terminal_rows_are_final [OF db_done_reachable r(1) _ step] r show ?thesis by auto
qed

text \<open>
  The outbox holds at most one event for each job and state version, each about a job of the
  table and at a version the job has reached: the versions order the events of a job without
  ties.
\<close>

theorem outbox_versions_are_unique:
  assumes "reachable empty_db (jstep limit) db"
  shows "distinct (map (\<lambda>e. (ob_aggregate e, ob_version e)) (outbox db)) \<and>
    (\<forall>e \<in> set (outbox db). \<exists>j \<in> set (jobs db). job_ID j = ob_aggregate e \<and> ob_version e \<le> job_StateVersion j)"
  using job_store.invariant [OF assms] by (simp add: store_inv_def outbox_ok_def)

theorem outbox_versions_are_unique_witness:
  "outbox db_reclaimed \<noteq> [] \<and> distinct (map (\<lambda>e. (ob_aggregate e, ob_version e)) (outbox db_reclaimed))"
proof
  show "outbox db_reclaimed \<noteq> []" by code_simp
qed (use outbox_versions_are_unique [OF run_reachable(2)] in blast)

section \<open>Replayed reports\<close>

lemma find_row_unique:
  assumes "r \<in> set t" and "P r" and "\<And>x. x \<in> set t \<Longrightarrow> P x \<Longrightarrow> x = r"
  shows "find_row P t = Some r"
proof (cases "find_row P t")
  case None
  with assms(1,2) show ?thesis by (simp add: find_row_None_iff)
next
  case (Some x)
  with find_row_SomeD [OF Some] assms(3) show ?thesis by blast
qed

lemma duplicateFinish_found:
  assumes "find_row (\<lambda>a. at_job a = job_ID job \<and> at_no a = job_Attempt job \<and> at_worker a = w \<and>
      at_token a = t \<and> at_finished a \<noteq> None) (attempts db) = Some a"
    and "at_outcome a = Some outcome" "at_durationMs a = Some ms"
    and "if complete then s = StateSucceeded \<and> outcome = ''succeeded''
      else s \<in> {StateRetryWait, StateDead, StateCancelled} \<and> outcome = finishOutcome s"
  shows "duplicateFinish job w t complete db = Inr \<lparr>ar_Changed = False, ar_Queue = job_Queue job, ar_Type = job_Type job,
    ar_State = s, ar_Outcome = outcome, ar_DurationMs = ms, ar_RunAt = job_RunAt job\<rparr>"
  using assms by (auto simp: duplicateFinish_def finishOutcome_def split: if_splits)

lemma finishDecision_outcome:
  assumes "finishDecision req w t jitter now job = Inr (j', outcome)"
  shows "if fr_complete req then job_State j' = StateSucceeded \<and> outcome = ''succeeded''
    else job_State j' \<in> {StateRetryWait, StateDead, StateCancelled} \<and> outcome = finishOutcome (job_State j')"
  using assms by (auto simp: finishDecision_def CompleteWithResult_def Complete_def Fail_def Let_def result_simps
      split: if_splits)

text \<open>C20.
  Reporting a finished attempt again is acknowledged and changes nothing: after a committed
  finish, the same kind of report by the same worker with the same token returns the recorded
  result, marked unchanged, and the same database, whatever the other fields of the repeated
  report say.
\<close>

theorem finish_replay_is_idempotent:
  assumes "reachable empty_db (jstep limit) db"
    and "finishAttempt i w t req jitter now db = Inr (res, db')" and "ar_Changed res"
    and "fr_complete req' = fr_complete req" and "0 \<le> fr_durationMs req'"
  shows "finishAttempt i w t req' jitter' now' db' = Inr (res\<lparr>ar_Changed := False\<rparr>, db')"
  using assms(2)
proof (cases rule: finishAttempt_cases)
  case duplicate
  with assms(3) show ?thesis by simp
next
  case (finished job j' outcome)
  have inv: "store_inv db" using job_store.invariant [OF assms(1)] .
  from finished(1) have job: "job \<in> set (jobs db)" "job_ID job = i" by (auto dest: find_row_SomeD)
  let ?row = "finished_row j' now job"
  have row: "find_row (byID i) (jobs db') = Some ?row"
    unfolding finished(9) writeOutbox_def using finished(1) job(2)
    by (simp add: find_row_update_where finished_row_def)
  have res: "res = \<lparr>ar_Changed = True, ar_Queue = job_Queue job, ar_Type = job_Type job, ar_State = job_State j',
      ar_Outcome = outcome, ar_DurationMs = fr_durationMs req, ar_RunAt = job_RunAt j'\<rparr>"
    using assms(2) finished by (auto simp: finishAttempt_def split: if_splits)
  from finished(8) obtain a where a: "a \<in> set (attempts db)" "unfinishedAttempt job w t a" by (auto simp: list_ex_iff)
  let ?a = "finished_attempt req outcome now a"
  have a': "?a \<in> set (attempts db')"
    using a by (auto simp: finished(9) writeOutbox_def set_update_where)
  have keys: "map (\<lambda>a. (at_job a, at_no a)) (attempts db') = map (\<lambda>a. (at_job a, at_no a)) (attempts db)"
    unfolding finished(9) writeOutbox_def by (simp add: map_update_where finished_attempt_def)
  have found: "find_row (\<lambda>b. at_job b = job_ID ?row \<and> at_no b = job_Attempt ?row \<and> at_worker b = w \<and>
      at_token b = t \<and> at_finished b \<noteq> None) (attempts db') = Some ?a"
  proof (rule find_row_unique [OF a'])
    show "b = ?a" if "b \<in> set (attempts db')" "at_job b = job_ID ?row \<and> at_no b = job_Attempt ?row \<and> at_worker b = w \<and>
        at_token b = t \<and> at_finished b \<noteq> None" for b
      using that a a' distinct_attempt_keys [OF inv] unfolding keys [symmetric]
      by (auto simp: distinct_map inj_on_def unfinishedAttempt_def finished_attempt_def finished_row_def)
  qed (use a(2) in \<open>simp add: unfinishedAttempt_def finished_attempt_def finished_row_def\<close>)
  have "duplicateFinish ?row w t (fr_complete req) db' = Inr (res\<lparr>ar_Changed := False\<rparr>)"
    by (subst duplicateFinish_found [OF found _ _ finishDecision_outcome [OF finished(7)]])
      (simp_all add: res finished_attempt_def finished_row_def)
  with row finishDecision_edge [OF finished(7)] finished(2,3) assms(4,5) show ?thesis
    by (simp add: finishAttempt_def finished_row_def)
qed

definition done_report :: finishRequest where
  "done_report = \<lparr>fr_complete = True, fr_ref = ''ref'', fr_code = '''', fr_message = '''', fr_retryable = False,
     fr_durationMs = 5\<rparr>"

theorem finish_replay_is_idempotent_witness:
  "\<exists>res db'. finishAttempt ''j1'' ''w1'' 1 done_report 0 20 db_claimed = Inr (res, db') \<and>
     finishAttempt ''j1'' ''w1'' 1 (done_report\<lparr>fr_durationMs := 9\<rparr>) 3 44 db' = Inr (res\<lparr>ar_Changed := False\<rparr>, db')"
proof -
  have ok: "isOk (finishAttempt ''j1'' ''w1'' 1 done_report 0 20 db_claimed)" by code_simp
  have "ar_Changed (fst (projr (finishAttempt ''j1'' ''w1'' 1 done_report 0 20 db_claimed)))" by code_simp
  from finish_replay_is_idempotent [OF run_reachable(1) isOk_tx [OF ok] this, of "done_report\<lparr>fr_durationMs := 9\<rparr>" 3 44]
  show ?thesis using isOk_tx [OF ok] by (auto simp: done_report_def)
qed

section \<open>Submission\<close>

text \<open>C25.
  A submission under a tenant's idempotency key that is already taken never creates a job: the
  table is unchanged, and the answer is the existing job, reported as a duplicate, when the
  request hashes agree (or none is stored), and a conflict otherwise.
\<close>

theorem resubmission_never_creates_a_job:
  assumes "reachable empty_db (jstep limit) db" and "e \<in> set (jobs db)"
    and "job_TenantID e = job_TenantID job" "job_IdempotencyKey e = Some key" "job_IdempotencyKey job = Some key"
    and "job_ID job \<notin> job_ID ` set (jobs db)"
  shows "Enqueue xmax0 job db =
    ((if job_RequestHash e = '''' \<or> job_RequestHash e = job_RequestHash job then Inr (True, e)
      else Inl (AsDomain (NewError CodeConflict ErrConflict))), db)"
proof -
  have inv: "store_inv db" using job_store.invariant [OF assms(1)] .
  have "enqueueConflict job db" using assms(2-5) by (auto simp: enqueueConflict_def list_ex_iff)
  then have ins: "enqueueInsert job db = Inr db" by (simp add: enqueueInsert_def)
  have none: "find_row (byID (job_ID job)) (jobs db) = None"
    using assms(6) by (simp add: find_row_None_iff) (metis image_eqI)
  have "selectByIdempotencyKey (job_TenantID job) key db = Some e"
    unfolding selectByIdempotencyKey_def
  proof (rule find_row_unique [OF assms(2)])
    show "x = e" if x: "x \<in> set (jobs db)" "job_TenantID x = job_TenantID job \<and> job_IdempotencyKey x = Some key" for x
    proof -
      from inv have "idem_ok (jobs db)" by (simp add: store_inv_def keys_ok_def)
      with x assms(2-4) have "job_ID x = job_ID e" unfolding idem_ok_def by (metis option.discI)
      with same_id_same_row [OF inv x(1) assms(2)] show ?thesis by blast
    qed
  qed (use assms(3,4) in simp)
  with ins none assms(5) show ?thesis by (simp add: Enqueue_def)
qed

theorem resubmission_never_creates_a_job_witness:
  "\<exists>e. Enqueue True (sample_job\<lparr>job_ID := ''j2'', job_IdempotencyKey := Some ''k''\<rparr>) db_claimed = (Inr (True, e), db_claimed)"
proof -
  let ?e = "hd (jobs db_claimed)"
  have "jobs db_claimed \<noteq> []" "job_TenantID ?e = ''t1''" "job_IdempotencyKey ?e = Some ''k''"
      "''j2'' \<notin> job_ID ` set (jobs db_claimed)" "job_RequestHash ?e = ''h''"
    by code_simp+
  with resubmission_never_creates_a_job [OF run_reachable(1) hd_in_set,
      of "sample_job\<lparr>job_ID := ''j2'', job_IdempotencyKey := Some ''k''\<rparr>" "''k''" True]
  show ?thesis by (auto simp: sample_job_def)
qed

section \<open>Registered workers\<close>

lemma claimForWorkerOnce_claim:
  assumes "claimForWorkerOnce n env p db = Inr ((res, retry), db')"
    and "find_row (\<lambda>r. wk_id r = cp_WorkerID p) (workers db) = Some r"
  obtains "db' = db" "cr_Jobs res = []" | p' where "claimInTx env p' db = Inr ((res, retry), db')"
    "p' = p\<lparr>cp_MaxJobs := min (cp_MaxJobs p) (min n (wk_capacity r - countWorkerInflight (cp_WorkerID p) db))\<rparr>"
    "\<not> retry"
  | "db' = db" "retry"
  using assms
  by (fastforce simp: claimForWorkerOnce_def Let_def emptyClaim_def split: if_splits sum.splits)

text \<open>C34.
  A claim for a registered worker never takes the worker beyond its registered capacity: after
  the claim the jobs in flight under its leases are at most the capacity, unless there were
  more already, in which case none is added; and no more jobs are handed out than asked for
  and than the caller says are free.
\<close>

theorem worker_claim_respects_capacity:
  assumes "reachable empty_db (jstep limit) db"
    and "find_row (\<lambda>r. wk_id r = cp_WorkerID p) (workers db) = Some r"
    and "claimForWorkerOnce n env p db = Inr ((res, False), db')"
  shows "countWorkerInflight (cp_WorkerID p) db' = countWorkerInflight (cp_WorkerID p) db + int (length (cr_Jobs res)) \<and>
    countWorkerInflight (cp_WorkerID p) db' \<le> max (wk_capacity r) (countWorkerInflight (cp_WorkerID p) db) \<and>
    (cr_Jobs res = [] \<or> int (length (cr_Jobs res)) \<le> cp_MaxJobs p \<and> int (length (cr_Jobs res)) \<le> n)"
  using assms(3,2)
proof (cases rule: claimForWorkerOnce_claim)
  case (2 p')
  have inv: "store_inv db" using job_store.invariant [OF assms(1)] .
  from inv 2(1) show ?thesis
  proof (cases rule: claimInTx_cases)
    case (claimed pl as m q)
    have "job_State c = StateReady" if "c \<in> set (pl_planned pl)" for c
      using claimed(9) [OF that] by (simp add: claimable_def)
    from workerInflight_claimed [OF inv claimed(7,8) this]
    have "countWorkerInflight (cp_WorkerID p) db' = countWorkerInflight (cp_WorkerID p) db + int (length (pl_planned pl))"
      by (simp add: countWorkerInflight_def claimed(4) 2(2))
    moreover have "int (length (pl_planned pl)) \<le> cp_MaxJobs p" "int (length (pl_planned pl)) \<le> n"
        "int (length (pl_planned pl)) \<le> wk_capacity r - countWorkerInflight (cp_WorkerID p) db"
      using claimed(10) by (simp_all add: 2(2))
    ultimately show ?thesis by (simp add: claimed(6))
  qed simp
qed simp_all

definition db_worker :: job_db where
  "db_worker = RegisterWorker \<lparr>rq_WorkerId = ''w9'', rq_InstanceId = ''i'', rq_SupportedTypes = [''demo.echo''],
     rq_Queues = [''q''], rq_Capacity = 2, rq_Version = ''v''\<rparr> ''s'' 5 db_ready"

lemma db_worker_reachable: "reachable empty_db (jstep 2) db_worker"
proof -
  have "reachable empty_db (jstep 2) db_empty"
    by (rule reachable_start) (simp add: empty_db_def db_empty_def)
  then have "reachable empty_db (jstep 2) db_ready" using db_ready_step by (rule reachable_step)
  then show ?thesis unfolding db_worker_def by (rule reachable_step) (rule jstep.step_register)
qed

lemma isOk_claim: "isOk c \<Longrightarrow> snd (fst (projr c)) = retry \<Longrightarrow> c = Inr ((fst (fst (projr c)), retry), tx_db c)"
  by (auto simp: isOk_iff tx_db_def)

theorem worker_claim_respects_capacity_witness:
  "\<exists>res db'. claimForWorkerOnce 1 (sample_env 10) ((sample_claim ''w9'')\<lparr>cp_Types := Some [''demo.echo'']\<rparr>) db_worker =
       Inr ((res, False), db') \<and> length (cr_Jobs res) = 1 \<and> countWorkerInflight ''w9'' db' \<le> 2"
proof -
  let ?p = "(sample_claim ''w9'')\<lparr>cp_Types := Some [''demo.echo'']\<rparr>"
  let ?r = "hd (workers db_worker)"
  let ?c = "claimForWorkerOnce 1 (sample_env 10) ?p db_worker"
  let ?res = "fst (fst (projr ?c))"
  have ok: "isOk ?c" "snd (fst (projr ?c)) = False" "length (cr_Jobs ?res) = 1"
      "wk_capacity ?r = 2" "countWorkerInflight ''w9'' db_worker = 0" by code_simp+
  have found: "find_row (\<lambda>r. wk_id r = cp_WorkerID ?p) (workers db_worker) = Some ?r"
    by code_simp
  have c: "?c = Inr ((?res, False), tx_db ?c)" using ok(1,2) by (rule isOk_claim)
  have w: "cp_WorkerID ?p = ''w9''" by (simp add: sample_claim_def)
  from worker_claim_respects_capacity [OF db_worker_reachable found c] ok(4,5)
  have "countWorkerInflight ''w9'' (tx_db ?c) \<le> 2" unfolding w by simp
  with c ok(3) show ?thesis by blast
qed

section \<open>Leadership\<close>

text \<open>C29.
  Scheduler leadership is fenced by its epoch: an election gives the next epoch, and from then
  on, after any further transactions, every older epoch is refused: its holder's heartbeat
  reports the loss and its release changes nothing.
\<close>

theorem superseded_leader_is_refused:
  assumes "reachable empty_db (jstep limit) db" and "TryBecomeLeader lock inst stale now db = (Some epoch, db1)"
    and "old < epoch" and "(jstep limit)\<^sup>*\<^sup>* db1 db2"
  shows "epoch = leader_epoch db () + 1 \<and> \<not> fst (HeartbeatLeadership other old now' db2) \<and>
    ReleaseLeadership other old db2 = db2"
proof -
  have inv: "leader_inv db1"
    using leadership_store.preserve [OF jstep.step_lead [OF assms(2)] leadership_store.invariant [OF assms(1)]] .
  have "old < leader_epoch db1 ()" using TryBecomeLeader_epoch(1) [OF assms(2)] assms(3) by simp
  from leadership_store.superseded_for_ever [OF inv this assms(4)] TryBecomeLeader_epoch(1) [OF assms(2)]
  show ?thesis by (auto simp: epoch_admits_def)
qed

theorem superseded_leader_is_refused_witness:
  "\<not> fst (HeartbeatLeadership ''a'' 1 9 (snd (TryBecomeLeader True ''b'' 5 8 (snd (TryBecomeLeader True ''a'' 5 7 db_empty)))))"
proof -
  let ?a = "snd (TryBecomeLeader True ''a'' 5 7 db_empty)"
  have start: "reachable empty_db (jstep 2) db_empty"
    by (rule reachable_start) (simp add: empty_db_def db_empty_def)
  have reach: "reachable empty_db (jstep 2) ?a"
    by (rule reachable_step [OF start]) (rule jstep.step_lead [OF surjective_pairing])
  have elect: "TryBecomeLeader True ''b'' 5 8 ?a = (Some 2, snd (TryBecomeLeader True ''b'' 5 8 ?a))"
    by (simp add: TryBecomeLeader_def claimLeadershipForced_def db_empty_def)
  show ?thesis using superseded_leader_is_refused [OF reach elect _ rtranclp.rtrancl_refl, of 1 "''a''" 9] by simp
qed

section \<open>Attempts\<close>

text \<open>
  The attempt limit bounds reported failures only: when the lease of a job at its last attempt
  runs out, recovery makes it ready again and the next claim starts an attempt beyond the
  maximum. The state in which that has happened is reachable.
\<close>

theorem recovery_exceeds_max_attempts:
  "\<exists>db j. reachable empty_db (jstep 2) db \<and> j \<in> set (jobs db) \<and> job_State j = StateRunning \<and>
     job_MaxAttempts j < job_Attempt j"
proof -
  have "list_ex (\<lambda>j. job_State j = StateRunning \<and> job_MaxAttempts j < job_Attempt j) (jobs db_reclaimed)" by code_simp
  with run_reachable(2) show ?thesis by (auto simp: list_ex_iff)
qed

end
