(* ===== verification/RunDomain.thy ===== *)
theory RunDomain
  imports Prelude
begin

text \<open>
  The Agent Run of \<open>internal/run\<close>: its states, errors and records (\<open>model.go\<close>, \<open>runtime.go\<close>),
  the lifecycle policy that every control transaction applies to a locked Run (\<open>policy.go\<close>),
  the pending step and recovery evidence (\<open>recovery.go\<close>) and content retention
  (\<open>retention.go\<close>). The policy works on values: an operation returns the error or the new Run
  and authority, and an error leaves both as they were. A nil receiver does not arise.
\<close>

section \<open>States and errors\<close>

datatype State =
    Ready | Running | Stopping | RetryWait | AwaitingApproval | Succeeded | Failed | Cancelled

fun Terminal :: "State \<Rightarrow> bool" where
  "Terminal s = (s = Succeeded \<or> s = Failed \<or> s = Cancelled)"

text \<open>\<open>ErrorCode\<close> is a string type; \<open>error_code\<close> gives the strings.\<close>

datatype RunError =
    ErrInvalidArgument | ErrUnauthorized | ErrForbidden | ErrNotFound | ErrConflict
  | ErrAlreadyTerminal | ErrInvalidTransition | ErrStaleLease | ErrCancelRequested
  | ErrStopRequested | ErrStepConflict | ErrCallConflict | ErrBudgetExhausted
  | ErrProfileUnavailable | ErrCallSettlementExpired | ErrCheckpointTooLarge | ErrModelProtocol
  | ErrQueueOverloaded | ErrDependencyUnavailable | ErrInternal | ErrApprovalConflict
  | ErrApprovalExpired | ErrActionConflict | ErrActionAuthorizationExpired
  | ErrActionOutcomeUnknown | ErrRateLimited | ErrResultExpired | ErrRequestExpired

fun error_code :: "RunError \<Rightarrow> string" where
  "error_code ErrInvalidArgument = ''INVALID_ARGUMENT''"
| "error_code ErrUnauthorized = ''UNAUTHORIZED''"
| "error_code ErrForbidden = ''FORBIDDEN''"
| "error_code ErrNotFound = ''NOT_FOUND''"
| "error_code ErrConflict = ''CONFLICT''"
| "error_code ErrAlreadyTerminal = ''ALREADY_TERMINAL''"
| "error_code ErrInvalidTransition = ''INVALID_TRANSITION''"
| "error_code ErrStaleLease = ''STALE_LEASE''"
| "error_code ErrCancelRequested = ''CANCEL_REQUESTED''"
| "error_code ErrStopRequested = ''STOP_REQUESTED''"
| "error_code ErrStepConflict = ''STEP_CONFLICT''"
| "error_code ErrCallConflict = ''CALL_CONFLICT''"
| "error_code ErrBudgetExhausted = ''BUDGET_EXHAUSTED''"
| "error_code ErrProfileUnavailable = ''PROFILE_UNAVAILABLE''"
| "error_code ErrCallSettlementExpired = ''CALL_SETTLEMENT_EXPIRED''"
| "error_code ErrCheckpointTooLarge = ''CHECKPOINT_TOO_LARGE''"
| "error_code ErrModelProtocol = ''MODEL_PROTOCOL_ERROR''"
| "error_code ErrQueueOverloaded = ''QUEUE_OVERLOADED''"
| "error_code ErrDependencyUnavailable = ''DEPENDENCY_UNAVAILABLE''"
| "error_code ErrInternal = ''INTERNAL''"
| "error_code ErrApprovalConflict = ''APPROVAL_CONFLICT''"
| "error_code ErrApprovalExpired = ''APPROVAL_EXPIRED''"
| "error_code ErrActionConflict = ''ACTION_CONFLICT''"
| "error_code ErrActionAuthorizationExpired = ''ACTION_AUTHORIZATION_EXPIRED''"
| "error_code ErrActionOutcomeUnknown = ''ACTION_OUTCOME_UNKNOWN''"
| "error_code ErrRateLimited = ''RATE_LIMITED''"
| "error_code ErrResultExpired = ''RESULT_EXPIRED''"
| "error_code ErrRequestExpired = ''REQUEST_EXPIRED''"

section \<open>Records\<close>

record Failure =
  fl_Code :: string
  fl_Message :: string

text \<open>
  \<open>Run\<close> without its budget view (a query result), its trace context and its version vector
  (opaque JSON that the operations here carry along).
\<close>

record Run =
  run_ID :: string
  run_TenantID :: string
  run_BusinessRequestID :: string
  run_BusinessRequestKey :: string
  run_TicketID :: string
  run_RetryOfRunID :: "string option"
  run_ProfileID :: string
  run_ProfileHash :: string
  run_BudgetBatchID :: string
  run_SnapshotID :: string
  run_SnapshotHash :: string
  run_State :: State
  run_Outcome :: "string option"
  run_Error :: "Failure option"
  run_AttemptNo :: int
  run_RecoveryCount :: int
  run_CursorVersion :: int
  run_RunTimeoutSeconds :: int
  run_RunDeadline :: time
  run_AttemptDeadline :: "time option"
  run_LeaseUntil :: "time option"
  run_NextAttemptAt :: "time option"
  run_PermissionExpiresAt :: "time option"
  run_ProposalRef :: "string option"
  run_StopReason :: "string option"
  run_CancelRequestedAt :: "time option"
  run_CreatedAt :: time
  run_UpdatedAt :: time
  run_TerminalAt :: "time option"
  run_ContentPurgedAt :: "time option"

record Lease =
  ls_TenantID :: string
  ls_RunID :: string
  ls_WorkerID :: string
  ls_SessionID :: string
  ls_AttemptNo :: int
  ls_FencingToken :: int

record Authority =
  au_WorkerID :: string
  au_SessionID :: string
  au_FencingToken :: int
  au_ActiveCallID :: "string option"
  au_CheckpointBytes :: int
  au_EventSequence :: int
  au_NextStepID :: string
  au_NextStepKind :: string
  au_NextInputHash :: string

definition ValidIdentifier :: "string \<Rightarrow> bool" where
  "ValidIdentifier value = name_pattern value"

definition MaxSafeInteger :: int where
  "MaxSafeInteger = 9007199254740991"

section \<open>Policy\<close>

definition LeaseTTL :: duration where "LeaseTTL = 30 * Second"
definition AttemptTTL :: duration where "AttemptTTL = 180 * Second"
definition MaxRecoveries :: int where "MaxRecoveries = 3"
definition StopCancel :: string where "StopCancel = ''cancel''"
definition StopRunDeadline :: string where "StopRunDeadline = ''run_deadline''"
definition StopAttemptTimeout :: string where "StopAttemptTimeout = ''attempt_timeout''"
definition FailureLeaseExpired :: string where "FailureLeaseExpired = ''lease_expired''"
definition FailureDependencyUnavailable :: string where "FailureDependencyUnavailable = ''dependency_unavailable''"

lemmas reason_defs = StopCancel_def StopRunDeadline_def StopAttemptTimeout_def FailureLeaseExpired_def
  FailureDependencyUnavailable_def

text \<open>\<open>p != nil && p.After(now)\<close>.\<close>

definition afterNow :: "time option \<Rightarrow> time \<Rightarrow> bool" where
  "afterNow p now = (case p of None \<Rightarrow> False | Some t \<Rightarrow> now < t)"

definition minTime :: "time \<Rightarrow> time \<Rightarrow> time" where
  "minTime first second = (if first < second then first else second)"

definition matchesExecution :: "Run \<Rightarrow> Authority \<Rightarrow> Lease \<Rightarrow> bool" where
  "matchesExecution r authority lease \<longleftrightarrow> run_ID r = ls_RunID lease \<and> run_TenantID r = ls_TenantID lease \<and>
     au_WorkerID authority \<noteq> '''' \<and> au_WorkerID authority = ls_WorkerID lease \<and>
     au_SessionID authority \<noteq> '''' \<and> au_SessionID authority = ls_SessionID lease \<and>
     run_AttemptNo r > 0 \<and> run_AttemptNo r = ls_AttemptNo lease \<and>
     au_FencingToken authority > 0 \<and> au_FencingToken authority = ls_FencingToken lease"

definition CheckExecution :: "Run \<Rightarrow> Authority \<Rightarrow> Lease \<Rightarrow> time \<Rightarrow> RunError + unit" where
  "CheckExecution r authority lease now =
     (if \<not> matchesExecution r authority lease \<or> (run_State r \<noteq> Running \<and> run_State r \<noteq> Stopping) \<or>
         \<not> afterNow (run_LeaseUntil r) now then Inl ErrStaleLease
      else if run_CancelRequestedAt r \<noteq> None then Inl ErrCancelRequested
      else if run_State r = Stopping then Inl ErrStopRequested
      else if \<not> afterNow (run_AttemptDeadline r) now \<or> \<not> run_RunDeadline r > now then Inl ErrStopRequested
      else Inr ())"

definition ClaimExecution :: "Run \<Rightarrow> Authority \<Rightarrow> string \<Rightarrow> string \<Rightarrow> time \<Rightarrow> RunError + (Lease \<times> Run \<times> Authority)" where
  "ClaimExecution r authority workerID sessionID now =
     (if \<not> ValidIdentifier workerID \<or> \<not> ValidIdentifier sessionID then Inl ErrInvalidArgument
      else if Terminal (run_State r) then Inl ErrAlreadyTerminal
      else if run_State r \<noteq> Ready \<or> \<not> run_RunDeadline r > now \<or> run_CancelRequestedAt r \<noteq> None \<or>
         au_WorkerID authority \<noteq> '''' \<or> au_SessionID authority \<noteq> '''' \<or> au_ActiveCallID authority \<noteq> None \<or>
         run_LeaseUntil r \<noteq> None then Inl ErrInvalidTransition
      else if run_AttemptNo r < 0 \<or> run_AttemptNo r \<ge> MaxSafeInteger \<or> au_FencingToken authority < 0 \<or>
         au_FencingToken authority \<ge> MaxSafeInteger \<or> run_RecoveryCount r < 0 \<or>
         run_RecoveryCount r > MaxRecoveries then Inl ErrInternal
      else let attemptDeadline = minTime (now + AttemptTTL) (run_RunDeadline r);
               leaseUntil = minTime (now + LeaseTTL) attemptDeadline;
               r' = r\<lparr>run_State := Running, run_AttemptNo := run_AttemptNo r + 1,
                      run_AttemptDeadline := Some attemptDeadline, run_LeaseUntil := Some leaseUntil,
                      run_NextAttemptAt := None, run_StopReason := None, run_Error := None,
                      run_UpdatedAt := now\<rparr>;
               a' = authority\<lparr>au_WorkerID := workerID, au_SessionID := sessionID,
                      au_FencingToken := au_FencingToken authority + 1\<rparr> in
           Inr (\<lparr>ls_TenantID = run_TenantID r, ls_RunID = run_ID r, ls_WorkerID = workerID,
                 ls_SessionID = sessionID, ls_AttemptNo = run_AttemptNo r', ls_FencingToken = au_FencingToken a'\<rparr>,
                r', a'))"

definition finishRun :: "Run \<Rightarrow> State \<Rightarrow> string \<Rightarrow> time \<Rightarrow> Run" where
  "finishRun r state code now = r\<lparr>run_State := state, run_UpdatedAt := now, run_LeaseUntil := None,
     run_AttemptDeadline := None, run_NextAttemptAt := None,
     run_Error := (if code \<noteq> '''' then Some \<lparr>fl_Code = code, fl_Message = code\<rparr> else None)\<rparr>"

definition RequestCancel :: "Run \<Rightarrow> time \<Rightarrow> RunError + Run" where
  "RequestCancel r now =
     (if Terminal (run_State r) then Inl ErrAlreadyTerminal
      else if run_CancelRequestedAt r \<noteq> None then Inr r
      else let r1 = r\<lparr>run_CancelRequestedAt := Some now, run_UpdatedAt := now\<rparr> in
        if run_State r = Running \<or> run_State r = Stopping
        then Inr (r1\<lparr>run_StopReason := (case run_StopReason r of None \<Rightarrow> Some StopCancel | Some s \<Rightarrow> Some s),
                     run_State := Stopping\<rparr>)
        else Inr (finishRun r1 Cancelled '''' now))"

definition RequestStop :: "Run \<Rightarrow> string \<Rightarrow> time \<Rightarrow> RunError + Run" where
  "RequestStop r reason now =
     (if reason \<noteq> StopCancel \<and> reason \<noteq> StopRunDeadline \<and> reason \<noteq> StopAttemptTimeout then Inl ErrInvalidArgument
      else if Terminal (run_State r) then Inl ErrAlreadyTerminal
      else if run_State r \<noteq> Running \<and> run_State r \<noteq> Stopping then Inl ErrInvalidTransition
      else if reason = StopCancel then RequestCancel r now
      else if (reason = StopRunDeadline \<and> run_RunDeadline r > now) \<or>
              (reason = StopAttemptTimeout \<and> (run_AttemptDeadline r = None \<or> afterNow (run_AttemptDeadline r) now))
      then Inl ErrInvalidTransition
      else if run_State r = Stopping then Inr r
      else Inr (r\<lparr>run_State := Stopping, run_StopReason := Some reason, run_UpdatedAt := now\<rparr>))"

definition Heartbeat :: "Run \<Rightarrow> Authority \<Rightarrow> Lease \<Rightarrow> time \<Rightarrow> RunError + Run" where
  "Heartbeat r authority lease now =
     (if \<not> matchesExecution r authority lease then Inl ErrStaleLease
      else if run_State r = Stopping
      then Inl (if run_CancelRequestedAt r \<noteq> None then ErrCancelRequested else ErrStopRequested)
      else bindE (CheckExecution r authority lease now) (\<lambda>_.
        let leaseUntil = minTime (now + LeaseTTL) (minTime (the (run_AttemptDeadline r)) (run_RunDeadline r)) in
        Inr (r\<lparr>run_LeaseUntil := Some leaseUntil, run_UpdatedAt := now\<rparr>)))"

definition recoverableReason :: "string \<Rightarrow> bool" where
  "recoverableReason reason \<longleftrightarrow> reason = FailureLeaseExpired \<or> reason = FailureDependencyUnavailable \<or>
     reason = error_code ErrDependencyUnavailable \<or> reason = StopAttemptTimeout \<or> reason = ''TIMEOUT''"

definition validCloseReason :: "string \<Rightarrow> bool" where
  "validCloseReason reason \<longleftrightarrow> reason = StopCancel \<or> reason = StopRunDeadline \<or> recoverableReason reason \<or>
     reason = error_code ErrInvalidArgument \<or> reason = error_code ErrProfileUnavailable \<or>
     reason = error_code ErrBudgetExhausted \<or> reason = ''EXECUTOR_PROTOCOL_ERROR'' \<or>
     reason = ''MODEL_PROTOCOL_ERROR'' \<or> reason = ''MODEL_UNSUPPORTED'' \<or> reason = ''CHECKPOINT_TOO_LARGE'' \<or>
     reason = error_code ErrActionConflict \<or> reason = error_code ErrActionAuthorizationExpired \<or>
     reason = error_code ErrActionOutcomeUnknown"

definition failureCode :: "string \<Rightarrow> string" where
  "failureCode reason =
     (if reason = FailureLeaseExpired then ''LEASE_EXPIRED''
      else if reason = StopAttemptTimeout then ''ATTEMPT_DEADLINE_EXCEEDED''
      else if reason = FailureDependencyUnavailable then error_code ErrDependencyUnavailable
      else reason)"

text \<open>The three stop reasons a stopping Run may carry.\<close>

definition stopReasons :: "string list" where
  "stopReasons = [StopCancel, StopRunDeadline, StopAttemptTimeout]"

definition CloseAttempt :: "Run \<Rightarrow> Authority \<Rightarrow> string \<Rightarrow> time \<Rightarrow> RunError + (string \<times> Run \<times> Authority)" where
  "CloseAttempt r authority reason now =
     (if \<not> validCloseReason reason then Inl ErrInvalidArgument
      else if Terminal (run_State r) then Inl ErrAlreadyTerminal
      else if run_State r \<noteq> Running \<and> run_State r \<noteq> Stopping then Inl ErrInvalidTransition
      else if run_RecoveryCount r < 0 \<or> run_RecoveryCount r > MaxRecoveries then Inl ErrInternal
      else if run_State r = Stopping \<and>
        (case run_StopReason r of None \<Rightarrow> True | Some s \<Rightarrow> s \<notin> set stopReasons) then Inl ErrInternal
      else let effectiveReason = (if run_State r = Stopping then the (run_StopReason r) else reason) in
      if run_CancelRequestedAt r = None \<and> run_RunDeadline r > now \<and>
         (effectiveReason = StopCancel \<or> effectiveReason = StopRunDeadline \<or>
          (effectiveReason = StopAttemptTimeout \<and>
             (run_AttemptDeadline r = None \<or> afterNow (run_AttemptDeadline r) now)) \<or>
          (reason = FailureLeaseExpired \<and> (run_LeaseUntil r = None \<or> afterNow (run_LeaseUntil r) now)))
      then Inl ErrInvalidTransition
      else let closed = authority\<lparr>au_WorkerID := '''', au_SessionID := '''', au_ActiveCallID := None\<rparr> in
      if run_CancelRequestedAt r \<noteq> None
      then Inr (''cancelled'', finishRun r Cancelled '''' now, closed)
      else if \<not> run_RunDeadline r > now
      then Inr (''failed_terminal'', finishRun r Failed ''RUN_DEADLINE_EXCEEDED'' now, closed)
      else if recoverableReason effectiveReason then
        (let prefix = (if reason = FailureLeaseExpired then ''lease_expired_'' else ''failed_'');
             code = failureCode effectiveReason in
         if run_RecoveryCount r = MaxRecoveries
         then Inr (prefix @ ''terminal'', finishRun r Failed code now, closed)
         else Inr (prefix @ ''retry'',
           r\<lparr>run_RecoveryCount := run_RecoveryCount r + 1, run_State := RetryWait,
             run_NextAttemptAt := Some (now + Second * 2 ^ nat (run_RecoveryCount r)),
             run_Error := Some \<lparr>fl_Code = code, fl_Message = code\<rparr>,
             run_LeaseUntil := None, run_AttemptDeadline := None, run_UpdatedAt := now\<rparr>, closed))
      else Inr (''failed_terminal'', finishRun r Failed (failureCode effectiveReason) now, closed))"

definition ExpireWaiting :: "Run \<Rightarrow> time \<Rightarrow> RunError + Run" where
  "ExpireWaiting r now =
     (if Terminal (run_State r) then Inl ErrAlreadyTerminal
      else if run_State r \<noteq> Ready \<and> run_State r \<noteq> RetryWait \<and> run_State r \<noteq> AwaitingApproval
      then Inl ErrInvalidTransition
      else if run_CancelRequestedAt r \<noteq> None then Inr (finishRun r Cancelled '''' now)
      else if \<not> run_RunDeadline r > now then Inr (finishRun r Failed ''RUN_DEADLINE_EXCEEDED'' now)
      else if run_State r = AwaitingApproval then
        (if run_PermissionExpiresAt r = None then Inl ErrInternal
         else if \<not> afterNow (run_PermissionExpiresAt r) now then Inr (finishRun r Failed ''APPROVAL_EXPIRED'' now)
         else Inr r)
      else if run_State r = RetryWait then
        (if run_NextAttemptAt r = None then Inl ErrInternal
         else if \<not> afterNow (run_NextAttemptAt r) now
         then Inr (r\<lparr>run_State := Ready, run_NextAttemptAt := None, run_UpdatedAt := now\<rparr>)
         else Inr r)
      else Inr r)"

section \<open>Pending step, recovery evidence and retention\<close>

record StepIdentity =
  st_ID :: string
  st_Sequence :: int
  st_Kind :: string
  st_CursorVersion :: int
  st_InputHash :: string
  st_ProfileID :: string
  st_ProfileHash :: string
  st_SnapshotID :: string
  st_SnapshotHash :: string

definition PendingStep :: "Run \<Rightarrow> Authority \<Rightarrow> StepIdentity" where
  "PendingStep r a = \<lparr>st_ID = au_NextStepID a, st_Sequence = run_CursorVersion r + 1, st_Kind = au_NextStepKind a,
     st_CursorVersion = run_CursorVersion r, st_InputHash = au_NextInputHash a, st_ProfileID = run_ProfileID r,
     st_ProfileHash = run_ProfileHash r, st_SnapshotID = run_SnapshotID r, st_SnapshotHash = run_SnapshotHash r\<rparr>"

definition RecoveryClosure :: "string \<Rightarrow> string \<Rightarrow> bool" where
  "RecoveryClosure outcome code =
     (if outcome \<noteq> ''failed_retry'' \<and> outcome \<noteq> ''lease_expired_retry'' then False
      else code \<in> {''LEASE_EXPIRED'', ''TIMEOUT'', ''DEPENDENCY_UNAVAILABLE'', ''ATTEMPT_DEADLINE_EXCEEDED''})"

definition TerminalContentRetention :: duration where
  "TerminalContentRetention = 7 * 24 * Hour"

definition CanPurgeContent :: "Run \<Rightarrow> time \<Rightarrow> time \<Rightarrow> bool" where
  "CanPurgeContent r batchUntil now \<longleftrightarrow> Terminal (run_State r) \<and>
     (case run_TerminalAt r of None \<Rightarrow> False | Some t \<Rightarrow> \<not> t + TerminalContentRetention > now) \<and>
     run_ContentPurgedAt r = None \<and> \<not> batchUntil > now"

section \<open>The lifecycle invariant\<close>

abbreviation active :: "State \<Rightarrow> bool" where
  "active s \<equiv> s = Running \<or> s = Stopping"

text \<open>
  A Run holds execution authority exactly while it is active; then its lease ends no later than
  its attempt and its attempt no later than the Run. A stop has a reason, a waiting retry has a
  time, a cancellation request leaves the waiting states at once.
\<close>

definition run_ok :: "Run \<Rightarrow> Authority \<Rightarrow> bool" where
  "run_ok r a \<longleftrightarrow> 0 \<le> run_RecoveryCount r \<and> run_RecoveryCount r \<le> MaxRecoveries \<and>
     0 \<le> run_AttemptNo r \<and> 0 \<le> au_FencingToken a \<and>
     (if active (run_State r)
      then au_WorkerID a \<noteq> '''' \<and> au_SessionID a \<noteq> '''' \<and> 0 < run_AttemptNo r \<and> 0 < au_FencingToken a \<and>
        (\<exists>l d. run_LeaseUntil r = Some l \<and> run_AttemptDeadline r = Some d \<and> l \<le> d \<and> d \<le> run_RunDeadline r)
      else au_WorkerID a = '''' \<and> au_SessionID a = '''' \<and> au_ActiveCallID a = None \<and>
        run_LeaseUntil r = None \<and> run_AttemptDeadline r = None) \<and>
     (run_State r = Running \<longrightarrow> run_StopReason r = None) \<and>
     (run_State r = Stopping \<longrightarrow> (\<exists>s \<in> set stopReasons. run_StopReason r = Some s)) \<and>
     (run_State r = RetryWait \<longrightarrow> run_NextAttemptAt r \<noteq> None) \<and>
     (run_State r = AwaitingApproval \<longrightarrow> run_PermissionExpiresAt r \<noteq> None) \<and>
     (run_CancelRequestedAt r \<noteq> None \<longrightarrow> run_State r = Stopping \<or> Terminal (run_State r))"

lemma minTime_le: "minTime x y \<le> x" "minTime x y \<le> y"
  by (simp_all add: minTime_def)

lemma run_ok_finish:
  assumes "run_ok r a" and "Terminal s"
  shows "run_ok (finishRun r s code now) (a\<lparr>au_WorkerID := '''', au_SessionID := '''', au_ActiveCallID := None\<rparr>)"
  using assms by (auto simp: run_ok_def finishRun_def)

lemma run_ok_finish_waiting:
  assumes "run_ok r a" and "Terminal s" and "\<not> active (run_State r)"
  shows "run_ok (finishRun r s code now) a"
  using assms by (auto simp: run_ok_def finishRun_def)

lemma ValidIdentifier_nonempty: "ValidIdentifier s \<Longrightarrow> s \<noteq> ''''"
  using name_pattern_bounds by (simp add: ValidIdentifier_def)

lemma ClaimExecution_ok:
  assumes "run_ok r a" and "ClaimExecution r a w s now = Inr (lease, r', a')"
  shows "run_ok r' a'"
proof -
  have "minTime (now + LeaseTTL) (minTime (now + AttemptTTL) (run_RunDeadline r)) \<le> minTime (now + AttemptTTL) (run_RunDeadline r)"
    "minTime (now + AttemptTTL) (run_RunDeadline r) \<le> run_RunDeadline r"
    by (simp_all add: minTime_le)
  with assms show ?thesis
    by (auto simp: run_ok_def ClaimExecution_def Let_def ValidIdentifier_nonempty split: if_splits)
qed

lemma RequestCancel_ok: "run_ok r a \<Longrightarrow> RequestCancel r now = Inr r' \<Longrightarrow> run_ok r' a"
  by (auto simp: run_ok_def RequestCancel_def finishRun_def stopReasons_def Let_def split: if_splits option.splits)

lemma RequestStop_ok:
  assumes ok: "run_ok r a" and stop: "RequestStop r reason now = Inr r'"
  shows "run_ok r' a"
proof (cases "reason = StopCancel")
  case True
  with stop have "RequestCancel r now = Inr r'" by (auto simp: RequestStop_def reason_defs split: if_splits)
  with ok show ?thesis by (rule RequestCancel_ok)
next
  case False
  with stop consider "r' = r" | "run_State r = Running" "reason \<in> set stopReasons"
      "r' = r\<lparr>run_State := Stopping, run_StopReason := Some reason, run_UpdatedAt := now\<rparr>"
    by (auto simp: RequestStop_def stopReasons_def split: if_splits)
  then show ?thesis using ok by cases (auto simp: run_ok_def)
qed

lemma Heartbeat_ok:
  assumes "run_ok r a" and "Heartbeat r a lease now = Inr r'"
  shows "run_ok r' a"
proof -
  from assms have run: "run_State r = Running"
    by (auto simp: Heartbeat_def CheckExecution_def result_simps split: if_splits)
  with assms(1) obtain d where d: "run_AttemptDeadline r = Some d" "d \<le> run_RunDeadline r" by (auto simp: run_ok_def)
  have "minTime (now + LeaseTTL) (minTime d (run_RunDeadline r)) \<le> d" by (simp add: minTime_def)
  with assms run d show ?thesis by (auto simp: run_ok_def Heartbeat_def result_simps split: if_splits)
qed

lemma CloseAttempt_cases:
  assumes "CloseAttempt r a reason now = Inr (outcome, r', a')"
  obtains (cancelled) "run_CancelRequestedAt r \<noteq> None" "outcome = ''cancelled''" "r' = finishRun r Cancelled '''' now"
    | (failed) code where "run_CancelRequestedAt r = None" "r' = finishRun r Failed code now" "code \<noteq> ''''"
    | (retry) code where "run_CancelRequestedAt r = None" "now < run_RunDeadline r" "run_RecoveryCount r < MaxRecoveries"
      "r' = r\<lparr>run_RecoveryCount := run_RecoveryCount r + 1, run_State := RetryWait,
             run_NextAttemptAt := Some (now + Second * 2 ^ nat (run_RecoveryCount r)),
             run_Error := Some \<lparr>fl_Code = code, fl_Message = code\<rparr>,
             run_LeaseUntil := None, run_AttemptDeadline := None, run_UpdatedAt := now\<rparr>"
proof -
  have codes: "failureCode x \<noteq> ''''" if "validCloseReason x" for x
    using that by (auto simp: failureCode_def validCloseReason_def recoverableReason_def reason_defs)
  have stop: "validCloseReason x" if "x \<in> set stopReasons" for x
    using that by (auto simp: stopReasons_def validCloseReason_def recoverableReason_def)
  define eff where "eff = (if run_State r = Stopping then the (run_StopReason r) else reason)"
  have "validCloseReason eff"
    using assms stop by (auto simp: CloseAttempt_def eff_def split: if_splits option.splits)
  with codes have code: "failureCode eff \<noteq> ''''" by blast
  from assms show thesis
    unfolding CloseAttempt_def Let_def eff_def [symmetric]
    using cancelled failed [OF _ _ code] failed [of "''RUN_DEADLINE_EXCEEDED''"] retry
    by (auto split: if_splits)
qed

lemma CloseAttempt_authority:
  "CloseAttempt r a reason now = Inr (outcome, r', a') \<Longrightarrow>
     active (run_State r) \<and> a' = a\<lparr>au_WorkerID := '''', au_SessionID := '''', au_ActiveCallID := None\<rparr>"
  by (auto simp: CloseAttempt_def Let_def split: if_splits)

lemma CloseAttempt_ok:
  assumes ok: "run_ok r a" and close: "CloseAttempt r a reason now = Inr (outcome, r', a')"
  shows "run_ok r' a'"
proof -
  note a' = CloseAttempt_authority [OF close]
  from close show ?thesis
  proof (cases rule: CloseAttempt_cases)
    case retry
    with ok a' show ?thesis by (auto simp: run_ok_def)
  qed (use ok a' run_ok_finish in auto)
qed

lemma ExpireWaiting_cases:
  assumes "ExpireWaiting r now = Inr r'"
  obtains (same) "r' = r" "now < run_RunDeadline r" | (finished) s code where "Terminal s" "r' = finishRun r s code now"
    | (due) "run_State r = RetryWait" "run_CancelRequestedAt r = None" "now < run_RunDeadline r"
      "r' = r\<lparr>run_State := Ready, run_NextAttemptAt := None, run_UpdatedAt := now\<rparr>"
proof (cases "run_CancelRequestedAt r \<noteq> None \<or> \<not> now < run_RunDeadline r \<or>
    (run_State r = AwaitingApproval \<and> \<not> afterNow (run_PermissionExpiresAt r) now)")
  case True
  have "ExpireWaiting r now \<in> {Inl ErrInternal, Inl ErrInvalidTransition, Inl ErrAlreadyTerminal,
      Inr (finishRun r Cancelled '''' now), Inr (finishRun r Failed ''RUN_DEADLINE_EXCEEDED'' now),
      Inr (finishRun r Failed ''APPROVAL_EXPIRED'' now)}"
    using True
    by (cases "run_State r"; cases "run_CancelRequestedAt r = None"; cases "now < run_RunDeadline r")
      (simp_all add: ExpireWaiting_def)
  with assms have "r' \<in> {finishRun r Cancelled '''' now, finishRun r Failed ''RUN_DEADLINE_EXCEEDED'' now,
      finishRun r Failed ''APPROVAL_EXPIRED'' now}" by simp
  moreover have "Terminal Cancelled" "Terminal Failed" by simp_all
  ultimately show thesis using finished by blast
next
  case False
  then have live: "run_CancelRequestedAt r = None" "now < run_RunDeadline r" by auto
  show thesis
  proof (cases "run_State r = RetryWait \<and> \<not> afterNow (run_NextAttemptAt r) now")
    case True
    with assms live have "r' = r\<lparr>run_State := Ready, run_NextAttemptAt := None, run_UpdatedAt := now\<rparr>"
      by (simp add: ExpireWaiting_def split: if_splits)
    with live True due show thesis by blast
  next
    case other: False
    have "ExpireWaiting r now = Inl ErrInternal \<or> ExpireWaiting r now = Inl ErrInvalidTransition \<or>
        ExpireWaiting r now = Inl ErrAlreadyTerminal \<or> ExpireWaiting r now = Inr r"
      using False other live by (cases "run_State r") (simp_all add: ExpireWaiting_def)
    with assms have "r' = r" by auto
    with live(2) same show thesis by blast
  qed
qed

lemma ExpireWaiting_waiting: "ExpireWaiting r now = Inr r' \<Longrightarrow> \<not> active (run_State r) \<and> \<not> Terminal (run_State r)"
  by (auto simp: ExpireWaiting_def split: if_splits)

lemma ExpireWaiting_ok:
  assumes ok: "run_ok r a" and expire: "ExpireWaiting r now = Inr r'"
  shows "run_ok r' a"
  using expire
proof (cases rule: ExpireWaiting_cases)
  case (finished s code)
  with run_ok_finish_waiting [OF ok finished(1)] ExpireWaiting_waiting [OF expire] show ?thesis by blast
next
  case due
  with ok show ?thesis by (auto simp: run_ok_def)
qed (use ok in simp)

section \<open>New Runs\<close>

definition fresh_run :: "Run \<times> Authority \<Rightarrow> bool" where
  "fresh_run ra \<longleftrightarrow> (case ra of (r, a) \<Rightarrow> run_State r = Ready \<and> run_AttemptNo r = 0 \<and> run_RecoveryCount r = 0 \<and>
     run_LeaseUntil r = None \<and> run_AttemptDeadline r = None \<and> run_CancelRequestedAt r = None \<and> run_ProposalRef r = None \<and>
     au_WorkerID a = '''' \<and> au_SessionID a = '''' \<and> au_ActiveCallID a = None \<and> au_FencingToken a = 0)"

section \<open>Properties of the policy\<close>

text \<open>
  A write is admitted exactly for the worker, session, attempt and fencing token that hold the
  Run, while the Run is running, nobody asked to cancel it, and the lease, the attempt and the
  Run have all not run out.
\<close>

theorem CheckExecution_admits_iff:
  "CheckExecution r a lease now = Inr () \<longleftrightarrow>
     run_State r = Running \<and> run_CancelRequestedAt r = None \<and>
     lease = \<lparr>ls_TenantID = run_TenantID r, ls_RunID = run_ID r, ls_WorkerID = au_WorkerID a,
       ls_SessionID = au_SessionID a, ls_AttemptNo = run_AttemptNo r, ls_FencingToken = au_FencingToken a\<rparr> \<and>
     au_WorkerID a \<noteq> '''' \<and> au_SessionID a \<noteq> '''' \<and> 0 < run_AttemptNo r \<and> 0 < au_FencingToken a \<and>
     (\<exists>l d. run_LeaseUntil r = Some l \<and> now < l \<and> run_AttemptDeadline r = Some d \<and> now < d) \<and>
     now < run_RunDeadline r"
  by (auto simp: CheckExecution_def matchesExecution_def afterNow_def split: option.splits if_splits)

end
