(* ===== verification/RunIdentity.thy ===== *)
theory RunIdentity
  imports RunDomain
begin

text \<open>
  Identities of \<open>internal/run\<close>: the length-prefixed fingerprint and the request hashes built on
  it (\<open>identity.go\<close>), and the registry of executor versions (\<open>executor_version.go\<close>). SHA-256
  in hexadecimal is an argument \<open>sha\<close>; \<open>fingerprint_preimage\<close> is what is fed to it.
\<close>

section \<open>Fingerprints\<close>

text \<open>\<open>binary.BigEndian.PutUint64\<close>: \<open>be_bytes k n\<close> is the last \<open>k\<close> bytes, most significant first.\<close>

fun be_bytes :: "nat \<Rightarrow> nat \<Rightarrow> string" where
  "be_bytes 0 n = []"
| "be_bytes (Suc k) n = be_bytes k (n div 256) @ [char_of (n mod 256)]"

definition fingerprint_preimage :: "string list \<Rightarrow> string" where
  "fingerprint_preimage fs = concat (map (\<lambda>f. be_bytes 8 (length f) @ f) fs)"

definition Fingerprint :: "(string \<Rightarrow> string) \<Rightarrow> string \<Rightarrow> string list \<Rightarrow> string" where
  "Fingerprint sha domain fs = sha (fingerprint_preimage (domain # fs))"

lemma length_be_bytes [simp]: "length (be_bytes k n) = k"
  by (induction k arbitrary: n) simp_all

lemma be_bytes_Nil_iff [simp]: "be_bytes k n = [] \<longleftrightarrow> k = 0"
  by (metis length_0_conv length_be_bytes)

lemma char_of_byte_inj: "m < 256 \<Longrightarrow> n < 256 \<Longrightarrow> (char_of m :: char) = char_of n \<longleftrightarrow> m = (n :: nat)"
  by (metis mod_less of_char_of)

lemma be_bytes_inj: "m < 256 ^ k \<Longrightarrow> n < 256 ^ k \<Longrightarrow> be_bytes k m = be_bytes k n \<Longrightarrow> m = n"
proof (induction k arbitrary: m n)
  case (Suc k)
  have "m div 256 < 256 ^ k" "n div 256 < 256 ^ k"
    using Suc.prems(1,2) by (simp_all add: less_mult_imp_div_less mult.commute)
  moreover have "be_bytes k (m div 256) = be_bytes k (n div 256)" using Suc.prems(3) by simp
  ultimately have "m div 256 = n div 256" using Suc.IH by blast
  moreover have "m mod 256 = n mod 256" using Suc.prems(3) by (simp add: char_of_byte_inj)
  ultimately show ?case by (metis div_mult_mod_eq)
qed simp

text \<open>Every field is shorter than \<open>2^64\<close> bytes, as any Go string is.\<close>

definition go_strings :: "string list \<Rightarrow> bool" where
  "go_strings fs \<longleftrightarrow> (\<forall>f \<in> set fs. length f < 18446744073709551616)"

lemma fingerprint_preimage_inj:
  "go_strings fs \<Longrightarrow> go_strings gs \<Longrightarrow> fingerprint_preimage fs = fingerprint_preimage gs \<Longrightarrow> fs = gs"
proof (induction fs arbitrary: gs)
  case Nil
  then show ?case by (cases gs) (auto simp: fingerprint_preimage_def)
next
  case (Cons f fs)
  show ?case
  proof (cases gs)
    case Nil
    with Cons.prems show ?thesis by (auto simp: fingerprint_preimage_def)
  next
    case gs: (Cons g gs')
    from Cons.prems(3) gs have eq: "be_bytes 8 (length f) @ f @ fingerprint_preimage fs =
        be_bytes 8 (length g) @ g @ fingerprint_preimage gs'"
      by (simp add: fingerprint_preimage_def)
    then have "be_bytes 8 (length f) = be_bytes 8 (length g)" and rest: "f @ fingerprint_preimage fs = g @ fingerprint_preimage gs'"
      by (simp_all add: append_eq_append_conv)
    with Cons.prems(1,2) gs have "length f = length g" by (intro be_bytes_inj [of _ 8]) (simp_all add: go_strings_def)
    with rest have "f = g" "fingerprint_preimage fs = fingerprint_preimage gs'" by (simp_all add: append_eq_append_conv)
    with Cons.IH [of gs'] Cons.prems(1,2) gs show ?thesis by (simp add: go_strings_def)
  qed
qed

lemma fingerprint_head:
  assumes "fingerprint_preimage (d # fs) = fingerprint_preimage (d' # gs)" "go_strings [d, d']"
  shows "d = d'"
proof -
  have eq: "be_bytes 8 (length d) @ d @ fingerprint_preimage fs = be_bytes 8 (length d') @ d' @ fingerprint_preimage gs"
    using assms(1) by (simp add: fingerprint_preimage_def)
  then have "be_bytes 8 (length d) = be_bytes 8 (length d')" and rest: "d @ fingerprint_preimage fs = d' @ fingerprint_preimage gs"
    by (simp_all add: append_eq_append_conv)
  then have "length d = length d'" using assms(2) by (intro be_bytes_inj [of _ 8]) (simp_all add: go_strings_def)
  with rest show ?thesis by (simp add: append_eq_append_conv)
qed

section \<open>Requests\<close>

record SubmitRequest =
  sr_SchemaVersion :: int
  sr_TicketID :: string
  sr_BusinessRequestKey :: string
  sr_ProfileID :: string
  sr_BudgetBatchID :: string
  sr_RunTimeoutSeconds :: int

record RetryRequest =
  rr_SchemaVersion :: int
  rr_RunTimeoutSeconds :: int

definition SubmitValidate :: "SubmitRequest \<Rightarrow> RunError + unit" where
  "SubmitValidate r =
     (if sr_SchemaVersion r \<noteq> 1 \<or> \<not> ValidIdentifier (sr_TicketID r) \<or> \<not> ValidIdentifier (sr_BusinessRequestKey r) \<or>
         \<not> ValidIdentifier (sr_ProfileID r) \<or> \<not> ValidIdentifier (sr_BudgetBatchID r) \<or>
         sr_RunTimeoutSeconds r < 1 \<or> sr_RunTimeoutSeconds r > 86400 then Inl ErrInvalidArgument else Inr ())"

definition SubmitHash :: "(string \<Rightarrow> string) \<Rightarrow> SubmitRequest \<Rightarrow> string" where
  "SubmitHash sha r = Fingerprint sha ''jobforge.run.submit.v1'' [''1'', sr_TicketID r, sr_BusinessRequestKey r,
     sr_ProfileID r, sr_BudgetBatchID r, show_int (sr_RunTimeoutSeconds r)]"

definition RetryValidate :: "RetryRequest \<Rightarrow> RunError + unit" where
  "RetryValidate r = (if rr_SchemaVersion r \<noteq> 1 \<or> rr_RunTimeoutSeconds r < 1 \<or> rr_RunTimeoutSeconds r > 86400
     then Inl ErrInvalidArgument else Inr ())"

definition RetryHash :: "(string \<Rightarrow> string) \<Rightarrow> RetryRequest \<Rightarrow> string \<Rightarrow> string" where
  "RetryHash sha r sourceID = Fingerprint sha ''jobforge.run.retry.v1'' [''1'', sourceID, show_int (rr_RunTimeoutSeconds r)]"

definition SnapshotKey :: "(string \<Rightarrow> string) \<Rightarrow> string \<Rightarrow> string \<Rightarrow> string \<Rightarrow> string \<Rightarrow> string" where
  "SnapshotKey sha tenant operation key sourceID =
     Fingerprint sha ''jobforge.run.snapshot.v1'' [tenant, operation, key, sourceID]"

lemma Fingerprint_inj:
  assumes "Fingerprint sha d fs = Fingerprint sha d' gs" and "inj sha" and "go_strings (d # fs)" "go_strings (d' # gs)"
  shows "d = d' \<and> fs = gs"
  using fingerprint_preimage_inj [OF assms(3,4)] assms(1,2) by (simp add: Fingerprint_def inj_eq)

lemma identifier_short: "ValidIdentifier s \<Longrightarrow> length s < 18446744073709551616"
  using name_pattern_bounds [of s] by (simp add: ValidIdentifier_def)

lemma show_nat_length: "length (show_nat n) \<le> Suc n"
proof (induction n rule: show_nat.induct)
  case (1 n)
  then show ?case by (subst show_nat.simps) (fastforce simp: Let_def)
qed

lemma timeout_short: "1 \<le> t \<Longrightarrow> t \<le> 86400 \<Longrightarrow> length (show_int t) < 18446744073709551616"
  using show_nat_length [of "nat t"] by (simp add: show_int_def)

definition submit_fields :: "SubmitRequest \<Rightarrow> string list" where
  "submit_fields r = [''1'', sr_TicketID r, sr_BusinessRequestKey r, sr_ProfileID r, sr_BudgetBatchID r,
     show_int (sr_RunTimeoutSeconds r)]"

lemma SubmitHash_fields: "SubmitHash sha r = Fingerprint sha ''jobforge.run.submit.v1'' (submit_fields r)"
  by (simp add: SubmitHash_def submit_fields_def)

text \<open>
  Request fingerprints are unambiguous: with a hash that does not collide, two valid submissions
  have the same hash only when they are the same request, two valid retries only when they
  concern the same source Run with the same timeout, and a submission never has the hash of a
  retry; separators inside identifiers cannot confuse them.
\<close>

theorem request_hashes_identify_requests:
  assumes "inj sha" and "SubmitValidate p = Inr ()" "SubmitValidate q = Inr ()"
    and "RetryValidate x = Inr ()" "RetryValidate y = Inr ()" and "ValidIdentifier i" "ValidIdentifier j"
  shows "(SubmitHash sha p = SubmitHash sha q \<longleftrightarrow> p = q) \<and>
    (RetryHash sha x i = RetryHash sha y j \<longleftrightarrow> x = y \<and> i = j) \<and> SubmitHash sha p \<noteq> RetryHash sha x i"
proof -
  have go: "go_strings (''jobforge.run.submit.v1'' # submit_fields r)" if "SubmitValidate r = Inr ()" for r
    using that by (auto simp: go_strings_def submit_fields_def SubmitValidate_def identifier_short timeout_short split: if_splits)
  have go': "go_strings [''jobforge.run.retry.v1'', ''1'', k, show_int (rr_RunTimeoutSeconds z)]"
    if "RetryValidate z = Inr ()" "ValidIdentifier k" for z k
    using that by (auto simp: go_strings_def RetryValidate_def identifier_short timeout_short split: if_splits)
  have "p = q" if "SubmitHash sha p = SubmitHash sha q"
  proof -
    from that [unfolded SubmitHash_fields] have "submit_fields p = submit_fields q"
      using Fingerprint_inj [OF _ assms(1) go [OF assms(2)] go [OF assms(3)]] by blast
    with assms(2,3) show ?thesis
      by (cases p; cases q) (auto simp: submit_fields_def SubmitValidate_def show_int_inj split: if_splits)
  qed
  moreover have "x = y \<and> i = j" if "RetryHash sha x i = RetryHash sha y j"
  proof -
    from that [unfolded RetryHash_def] have "[''1'', i, show_int (rr_RunTimeoutSeconds x)] = [''1'', j, show_int (rr_RunTimeoutSeconds y)]"
      using Fingerprint_inj [OF _ assms(1) go' [OF assms(4,6)] go' [OF assms(5,7)]] by blast
    with assms(4,5) show ?thesis
      by (cases x; cases y) (auto simp: RetryValidate_def show_int_inj split: if_splits)
  qed
  moreover have "SubmitHash sha p \<noteq> RetryHash sha x i"
    using Fingerprint_inj [OF _ assms(1) go [OF assms(2)] go' [OF assms(4,6)]]
    unfolding SubmitHash_fields RetryHash_def by force
  ultimately show ?thesis by blast
qed

definition sample_submit :: "string \<Rightarrow> SubmitRequest" where
  "sample_submit ticket = \<lparr>sr_SchemaVersion = 1, sr_TicketID = ticket, sr_BusinessRequestKey = ''k'', sr_ProfileID = ''p'',
     sr_BudgetBatchID = ''b'', sr_RunTimeoutSeconds = 600\<rparr>"

theorem request_hashes_identify_requests_witness:
  "SubmitHash (\<lambda>x. x) (sample_submit ''a:b'') \<noteq> SubmitHash (\<lambda>x. x) (sample_submit ''a'')"
proof -
  have v: "SubmitValidate (sample_submit ''a:b'') = Inr ()" "SubmitValidate (sample_submit ''a'') = Inr ()"
    "RetryValidate \<lparr>rr_SchemaVersion = 1, rr_RunTimeoutSeconds = 5\<rparr> = Inr ()" "ValidIdentifier ''r''"
    by (simp_all add: SubmitValidate_def RetryValidate_def sample_submit_def ValidIdentifier_def name_pattern_def alnum_def)
  have "inj (\<lambda>x :: string. x)" by simp
  from request_hashes_identify_requests [OF this v(1,2) v(3,3) v(4,4)] show ?thesis by (simp add: sample_submit_def)
qed

section \<open>Executor versions\<close>

definition ProviderAuditExecutorVersion :: string where
  "ProviderAuditExecutorVersion = ''linux-v2-audit-runtime-1''"
definition SupportAgentExecutorVersion :: string where
  "SupportAgentExecutorVersion = ''linux-v2-agent-runtime-1''"
definition SupportRecoveryExecutorVersion :: string where
  "SupportRecoveryExecutorVersion = ''linux-v2-recovery-runtime-1''"
definition SupportApprovalExecutorVersion :: string where
  "SupportApprovalExecutorVersion = ''linux-v2-approval-runtime-1''"
definition SupportFixedComparisonExecutorVersion :: string where
  "SupportFixedComparisonExecutorVersion = ''linux-v2-fixed-comparison-runtime-1''"
definition SupportAdjudicationExecutorVersion :: string where
  "SupportAdjudicationExecutorVersion = ''linux-v2-adjudication-runtime-1''"
definition SupportAdjudicationV2ExecutorVersion :: string where
  "SupportAdjudicationV2ExecutorVersion = ''linux-v2-adjudication-runtime-2''"
definition SupportAdjudicationV3ExecutorVersion :: string where
  "SupportAdjudicationV3ExecutorVersion = ''linux-v2-adjudication-runtime-3''"
definition SupportAdjudicationV4ExecutorVersion :: string where
  "SupportAdjudicationV4ExecutorVersion = ''linux-v2-adjudication-runtime-4''"
definition SupportAdjudicationV5ExecutorVersion :: string where
  "SupportAdjudicationV5ExecutorVersion = ''linux-v2-adjudication-runtime-5''"
definition SupportFixedAdjudicationExecutorVersion :: string where
  "SupportFixedAdjudicationExecutorVersion = ''linux-v2-fixed-adjudication-runtime-1''"
definition SupportFixedBundleExecutorVersion :: string where
  "SupportFixedBundleExecutorVersion = ''linux-v2-fixed-adjudication-runtime-2''"

lemmas executor_defs = ProviderAuditExecutorVersion_def SupportAgentExecutorVersion_def
  SupportRecoveryExecutorVersion_def SupportApprovalExecutorVersion_def SupportFixedComparisonExecutorVersion_def
  SupportAdjudicationExecutorVersion_def SupportAdjudicationV2ExecutorVersion_def
  SupportAdjudicationV3ExecutorVersion_def SupportAdjudicationV4ExecutorVersion_def
  SupportAdjudicationV5ExecutorVersion_def SupportFixedAdjudicationExecutorVersion_def SupportFixedBundleExecutorVersion_def

text \<open>The adapter, whether there is a final model stage, and whether the version is known.\<close>

definition executorContract :: "string \<Rightarrow> string \<times> bool \<times> bool" where
  "executorContract version =
     (if version = ProviderAuditExecutorVersion then ('''', False, True)
      else if version \<in> {SupportAgentExecutorVersion, SupportRecoveryExecutorVersion, SupportApprovalExecutorVersion}
      then (''support-agent-v1'', False, True)
      else if version = SupportFixedComparisonExecutorVersion then (''support-fixed-v1'', False, True)
      else if version \<in> {SupportAdjudicationExecutorVersion, SupportAdjudicationV2ExecutorVersion,
        SupportAdjudicationV3ExecutorVersion, SupportAdjudicationV4ExecutorVersion, SupportAdjudicationV5ExecutorVersion}
      then (''support-agent-v1'', True, True)
      else if version \<in> {SupportFixedAdjudicationExecutorVersion, SupportFixedBundleExecutorVersion}
      then (''support-fixed-v1'', True, True)
      else ('''', False, False))"

definition IsAuditedExecutor :: "string \<Rightarrow> bool" where
  "IsAuditedExecutor version = snd (snd (executorContract version))"

definition IsAdjudicationExecutor :: "string \<Rightarrow> bool" where
  "IsAdjudicationExecutor version = fst (snd (executorContract version))"

definition IsAgentAdjudicationExecutor :: "string \<Rightarrow> bool" where
  "IsAgentAdjudicationExecutor version = (case executorContract version of (adapter, adjudication, _) \<Rightarrow>
     adjudication \<and> adapter = ''support-agent-v1'')"

definition ExecutorMatchesAdapter :: "string \<Rightarrow> string \<Rightarrow> bool" where
  "ExecutorMatchesAdapter version adapter = (case executorContract version of (want, _, known) \<Rightarrow>
     known \<and> (want = adapter \<or> want = '''' \<and> adapter \<noteq> ''support-agent-v1''))"

definition supportExecutor :: "int \<Rightarrow> string" where
  "supportExecutor schema =
     (if schema = 1 then ProviderAuditExecutorVersion
      else if schema = 2 then SupportAgentExecutorVersion
      else if schema = 3 then SupportRecoveryExecutorVersion
      else if schema \<in> {4, 6, 7, 9} then SupportApprovalExecutorVersion
      else if schema \<in> {5, 8, 10} then SupportFixedComparisonExecutorVersion
      else if schema = 11 then SupportAdjudicationExecutorVersion
      else if schema = 12 then SupportFixedAdjudicationExecutorVersion
      else if schema = 13 then SupportAdjudicationV2ExecutorVersion
      else if schema = 14 then SupportAdjudicationV3ExecutorVersion
      else if schema = 15 then SupportAdjudicationV4ExecutorVersion
      else if schema \<in> {16, 18} then SupportAdjudicationV5ExecutorVersion
      else if schema = 17 then SupportFixedBundleExecutorVersion
      else '''')"

lemmas runtime_simps = supportExecutor_def executorContract_def executor_defs IsAuditedExecutor_def
  IsAdjudicationExecutor_def IsAgentAdjudicationExecutor_def ExecutorMatchesAdapter_def

text \<open>
  Every support schema from 1 to 18 selects an installed runtime, the separate final model stage
  comes with exactly the schemas from 11 on, the adapter of the runtime is the one it accepts,
  and any other schema selects no runtime.
\<close>

theorem support_schemas_have_installed_runtimes:
  "(IsAuditedExecutor (supportExecutor schema) \<longleftrightarrow> 1 \<le> schema \<and> schema \<le> 18) \<and>
   (IsAdjudicationExecutor (supportExecutor schema) \<longleftrightarrow> 11 \<le> schema \<and> schema \<le> 18) \<and>
   (IsAgentAdjudicationExecutor (supportExecutor schema) \<longleftrightarrow>
      IsAdjudicationExecutor (supportExecutor schema) \<and> schema \<noteq> 12 \<and> schema \<noteq> 17) \<and>
   (ExecutorMatchesAdapter (supportExecutor schema) (fst (executorContract (supportExecutor schema))) \<longleftrightarrow>
      IsAuditedExecutor (supportExecutor schema))"
proof (cases "1 \<le> schema \<and> schema \<le> 18")
  case True
  then have "schema = 1 \<or> schema = 2 \<or> schema = 3 \<or> schema = 4 \<or> schema = 5 \<or> schema = 6 \<or> schema = 7 \<or>
      schema = 8 \<or> schema = 9 \<or> schema = 10 \<or> schema = 11 \<or> schema = 12 \<or> schema = 13 \<or> schema = 14 \<or>
      schema = 15 \<or> schema = 16 \<or> schema = 17 \<or> schema = 18" by presburger
  then show ?thesis by (elim disjE) (simp_all add: runtime_simps)
next
  case False
  then have "supportExecutor schema = ''''" by (auto simp: supportExecutor_def)
  moreover have "executorContract '''' = ('''', False, False)" by (simp add: executorContract_def executor_defs)
  ultimately show ?thesis using False
    by (auto simp: IsAuditedExecutor_def IsAdjudicationExecutor_def IsAgentAdjudicationExecutor_def ExecutorMatchesAdapter_def)
qed

end
