(* ===== verification/RunBudget.thy ===== *)
theory RunBudget
  imports RunIdentity
begin

text \<open>
  The budget accounts of \<open>internal/run\<close> (\<open>budget.go\<close>) and the pure part of the call ledger
  (\<open>ledger.go\<close>): step identities, usage reports, the tariff, and the conservative reservation.
  All counters are checked against \<open>MaxSafeInteger = 2^53 - 1\<close> before they are added, so the
  64-bit sums of the source never wrap and are written without wrap-around; \<open>usage_sum_int64\<close>
  below states it. \<open>parseUUID\<close> stands for \<open>uuid.Parse\<close> followed by \<open>String\<close>.
\<close>

section \<open>Accounts\<close>

record Usage =
  us_Chat :: int
  us_LogicalTools :: int
  us_QueryEmbedding :: int
  us_ProfileMetadataHTTP :: int
  us_BusinessToolHTTP :: int
  us_PhysicalHTTP :: int
  us_ProtocolCorrections :: int
  us_Tokens :: int
  us_CostMicroyuan :: int

definition FamilyLimits :: "int \<Rightarrow> int \<Rightarrow> Usage" where
  "FamilyLimits tokens microyuan = \<lparr>us_Chat = 12, us_LogicalTools = 8, us_QueryEmbedding = 8,
     us_ProfileMetadataHTTP = 16, us_BusinessToolHTTP = 8, us_PhysicalHTTP = 44, us_ProtocolCorrections = 1,
     us_Tokens = tokens, us_CostMicroyuan = microyuan\<rparr>"

definition usageFields :: "Usage \<Rightarrow> int list" where
  "usageFields u = [us_Chat u, us_LogicalTools u, us_QueryEmbedding u, us_ProfileMetadataHTTP u,
     us_BusinessToolHTTP u, us_PhysicalHTTP u, us_ProtocolCorrections u, us_Tokens u, us_CostMicroyuan u]"

definition UsageValid :: "Usage \<Rightarrow> bool" where
  "UsageValid u = list_all (\<lambda>n. \<not> (n < 0 \<or> n > MaxSafeInteger)) (usageFields u)"

definition usage_plus :: "Usage \<Rightarrow> Usage \<Rightarrow> Usage" where
  "usage_plus u v = \<lparr>us_Chat = us_Chat u + us_Chat v, us_LogicalTools = us_LogicalTools u + us_LogicalTools v,
     us_QueryEmbedding = us_QueryEmbedding u + us_QueryEmbedding v,
     us_ProfileMetadataHTTP = us_ProfileMetadataHTTP u + us_ProfileMetadataHTTP v,
     us_BusinessToolHTTP = us_BusinessToolHTTP u + us_BusinessToolHTTP v,
     us_PhysicalHTTP = us_PhysicalHTTP u + us_PhysicalHTTP v,
     us_ProtocolCorrections = us_ProtocolCorrections u + us_ProtocolCorrections v,
     us_Tokens = us_Tokens u + us_Tokens v, us_CostMicroyuan = us_CostMicroyuan u + us_CostMicroyuan v\<rparr>"

definition AddUsage :: "Usage \<Rightarrow> Usage \<Rightarrow> RunError + Usage" where
  "AddUsage current delta =
     (if \<not> UsageValid current \<or> \<not> UsageValid delta then Inl ErrInvalidArgument
      else if list_ex (\<lambda>(value, addition). addition > MaxSafeInteger - value) (zip (usageFields current) (usageFields delta))
      then Inl ErrBudgetExhausted
      else Inr (usage_plus current delta))"

record Account =
  ac_Scope :: string
  ac_ID :: string
  ac_Limits :: Usage
  ac_Used :: Usage
  ac_Frozen :: bool
  ac_KnownTokens :: int
  ac_KnownCostMicroyuan :: int
  ac_HeldTokens :: int
  ac_HeldCostMicroyuan :: int
  ac_BatchStopCode :: string

definition ReserveAccount :: "Account \<Rightarrow> Usage \<Rightarrow> RunError + Account" where
  "ReserveAccount current delta =
     (if ac_Frozen current then Inl ErrBudgetExhausted
      else if \<not> UsageValid (ac_Limits current) then Inl ErrInternal
      else bindE (AddUsage (ac_Used current) delta) (\<lambda>used.
        if list_ex (\<lambda>(n, limit). n > limit) (zip (usageFields used) (usageFields (ac_Limits current)))
        then Inl ErrBudgetExhausted
        else if ac_HeldTokens current < 0 \<or> ac_HeldCostMicroyuan current < 0 \<or>
          ac_HeldTokens current > MaxSafeInteger - us_Tokens delta \<or>
          ac_HeldCostMicroyuan current > MaxSafeInteger - us_CostMicroyuan delta then Inl ErrInternal
        else Inr (current\<lparr>ac_Used := used, ac_HeldTokens := ac_HeldTokens current + us_Tokens delta,
               ac_HeldCostMicroyuan := ac_HeldCostMicroyuan current + us_CostMicroyuan delta\<rparr>)))"

definition SettleAccount :: "Account \<Rightarrow> int \<Rightarrow> int \<Rightarrow> int \<Rightarrow> int \<Rightarrow> RunError + Account" where
  "SettleAccount current heldTokens heldCost knownTokens knownCost =
     (if list_ex (\<lambda>n. n < 0 \<or> n > MaxSafeInteger) [heldTokens, heldCost, knownTokens, knownCost, ac_KnownTokens current,
        ac_KnownCostMicroyuan current, ac_HeldTokens current, ac_HeldCostMicroyuan current] then Inl ErrInvalidArgument
      else if heldTokens > ac_HeldTokens current \<or> heldCost > ac_HeldCostMicroyuan current \<or>
        knownTokens > MaxSafeInteger - ac_KnownTokens current \<or>
        knownCost > MaxSafeInteger - ac_KnownCostMicroyuan current then Inl ErrInternal
      else if knownTokens > heldTokens \<or> knownCost > heldCost then Inr (current\<lparr>ac_Frozen := True\<rparr>)
      else let c = current\<lparr>ac_HeldTokens := ac_HeldTokens current - heldTokens,
               ac_HeldCostMicroyuan := ac_HeldCostMicroyuan current - heldCost,
               ac_KnownTokens := ac_KnownTokens current + knownTokens,
               ac_KnownCostMicroyuan := ac_KnownCostMicroyuan current + knownCost\<rparr> in
      if ac_KnownTokens c > MaxSafeInteger - ac_HeldTokens c \<or>
         ac_KnownCostMicroyuan c > MaxSafeInteger - ac_HeldCostMicroyuan c then Inl ErrInternal
      else Inr (c\<lparr>ac_Used := (ac_Used c)\<lparr>us_Tokens := ac_KnownTokens c + ac_HeldTokens c,
             us_CostMicroyuan := ac_KnownCostMicroyuan c + ac_HeldCostMicroyuan c\<rparr>\<rparr>))"

section \<open>Tariff\<close>

record Pricing =
  pr_Hash :: string
  pr_Denominator :: int
  pr_InputMissMicroyuan :: int
  pr_InputHitMicroyuan :: int
  pr_OutputMicroyuan :: int

record UsageReport =
  ur_InputTokens :: int
  ur_OutputTokens :: int
  ur_CachedInputTokens :: int
  ur_ReceiptHash :: string
  ur_UsageHash :: string

text \<open>The exact numerator of the cost, computed by the source in \<open>big.Int\<close>.\<close>

definition cost_numerator :: "Pricing \<Rightarrow> UsageReport \<Rightarrow> int" where
  "cost_numerator price usage = (ur_InputTokens usage - ur_CachedInputTokens usage) * pr_InputMissMicroyuan price +
     ur_CachedInputTokens usage * pr_InputHitMicroyuan price + ur_OutputTokens usage * pr_OutputMicroyuan price"

text \<open>\<open>Quo\<close> truncates, which is \<open>div\<close> here since both operands are not negative.\<close>

definition UsageCost :: "Pricing \<Rightarrow> UsageReport \<Rightarrow> RunError + int" where
  "UsageCost price usage =
     (if list_ex (\<lambda>value. value < 0 \<or> value > MaxSafeInteger) [pr_Denominator price, pr_InputMissMicroyuan price,
        pr_InputHitMicroyuan price, pr_OutputMicroyuan price, ur_InputTokens usage, ur_OutputTokens usage,
        ur_CachedInputTokens usage] then Inl ErrInvalidArgument
      else if pr_Denominator price = 0 \<or> ur_CachedInputTokens usage > ur_InputTokens usage then Inl ErrInvalidArgument
      else let n = (cost_numerator price usage + (pr_Denominator price - 1)) div pr_Denominator price in
      if \<not> int64 n \<or> n > MaxSafeInteger then Inl ErrBudgetExhausted else Inr n)"

section \<open>Steps and calls\<close>

text \<open>\<open>Subcall\<close> is a string type; \<open>SubcallOther\<close> is any string that is not registered.\<close>

datatype Subcall =
    SubcallGetOrder | SubcallGetDelivery | SubcallProfileVersion | SubcallProfileTags
  | SubcallQueryEmbedding | SubcallSearchPolicy | SubcallReadPolicyBundle | SubcallChat
  | SubcallOther string

definition QueryEmbeddingMaxInputTokens :: int where "QueryEmbeddingMaxInputTokens = 512"
definition UsageSettlementWindow :: duration where "UsageSettlementWindow = 30 * 24 * Hour"

definition hex_digit :: "char \<Rightarrow> bool" where
  "hex_digit c \<longleftrightarrow> (let n = (of_char c :: nat) in (48 \<le> n \<and> n \<le> 57) \<or> (97 \<le> n \<and> n \<le> 102))"

text \<open>\<open>hex.DecodeString\<close> to 32 bytes, in lower case.\<close>

definition ValidHash :: "string \<Rightarrow> bool" where
  "ValidHash value \<longleftrightarrow> length value = 64 \<and> list_all hex_digit value"

definition ValidUUID :: "(string \<Rightarrow> string option) \<Rightarrow> string \<Rightarrow> bool" where
  "ValidUUID parseUUID value \<longleftrightarrow> parseUUID value = Some value"

definition validStepKind :: "string \<Rightarrow> bool" where
  "validStepKind kind \<longleftrightarrow> kind \<in> {''read_ticket'', ''get_order'', ''get_delivery'', ''search_policy'', ''read_policy_bundle'',
     ''model_proposal'', ''model_decision'', ''protocol_correction'', ''submit_proposal'', ''apply_ticket_resolution''}"

definition CheckStep :: "(string \<Rightarrow> string option) \<Rightarrow> Run \<Rightarrow> Authority \<Rightarrow> StepIdentity \<Rightarrow> RunError + unit" where
  "CheckStep parseUUID r a step =
     (if \<not> ValidUUID parseUUID (st_ID step) \<or> st_Sequence step < 1 \<or> st_Sequence step > 32 \<or> st_CursorVersion step < 0 \<or>
         st_CursorVersion step \<ge> 32 \<or> \<not> ValidHash (st_InputHash step) \<or> \<not> ValidHash (st_ProfileHash step) \<or>
         \<not> ValidHash (st_SnapshotHash step) \<or> \<not> ValidIdentifier (st_ProfileID step) \<or>
         \<not> ValidUUID parseUUID (st_SnapshotID step) \<or> \<not> validStepKind (st_Kind step) then Inl ErrInvalidArgument
      else if st_ID step \<noteq> au_NextStepID a \<or> st_Kind step \<noteq> au_NextStepKind a \<or>
         st_Sequence step \<noteq> run_CursorVersion r + 1 \<or> st_CursorVersion step \<noteq> run_CursorVersion r \<or>
         st_InputHash step \<noteq> au_NextInputHash a \<or> st_ProfileID step \<noteq> run_ProfileID r \<or>
         st_ProfileHash step \<noteq> run_ProfileHash r \<or> st_SnapshotID step \<noteq> run_SnapshotID r \<or>
         st_SnapshotHash step \<noteq> run_SnapshotHash r then Inl ErrStepConflict
      else Inr ())"

definition UsageReportHash :: "(string \<Rightarrow> string) \<Rightarrow> UsageReport \<Rightarrow> string" where
  "UsageReportHash sha u = Fingerprint sha ''jobforge.run.usage.v1'' [show_int (ur_InputTokens u),
     show_int (ur_OutputTokens u), show_int (ur_CachedInputTokens u), ur_ReceiptHash u]"

definition UsageReportValidate :: "(string \<Rightarrow> string) \<Rightarrow> UsageReport \<Rightarrow> RunError + unit" where
  "UsageReportValidate sha u =
     (if ur_InputTokens u < 0 \<or> ur_InputTokens u > MaxSafeInteger \<or> ur_OutputTokens u < 0 \<or>
         ur_OutputTokens u > MaxSafeInteger \<or> ur_CachedInputTokens u < 0 \<or>
         ur_CachedInputTokens u > ur_InputTokens u \<or> \<not> ValidHash (ur_ReceiptHash u) \<or>
         ur_UsageHash u \<noteq> UsageReportHash sha u then Inl ErrInvalidArgument else Inr ())"

record CallBudget =
  cb_InputTokens :: int
  cb_OutputTokens :: int
  cb_TotalTokens :: int
  cb_CostMicroyuan :: int

definition validObservationError :: "string \<Rightarrow> bool" where
  "validObservationError code \<longleftrightarrow> code \<in> {'''', ''TIMEOUT'', ''DEPENDENCY_UNAVAILABLE'', ''INVALID_ARGUMENT'',
     ''PROFILE_UNAVAILABLE'', ''BUDGET_EXHAUSTED'', ''MODEL_PROTOCOL_ERROR'', ''MODEL_UNSUPPORTED'',
     ''EXECUTOR_PROTOCOL_ERROR'', ''CHECKPOINT_TOO_LARGE'', ''HTTP_ERROR''}"

text \<open>\<open>ObserveCallRequest\<close>; \<open>UsageKnown\<close> is kept apart from the report as in the source.\<close>

record ObserveCallRequest =
  oc_Lease :: Lease
  oc_Step :: StepIdentity
  oc_PhysicalCallID :: string
  oc_TransportOutcome :: string
  oc_HTTPStatus :: int
  oc_ErrorCode :: string
  oc_BusinessOutcome :: string
  oc_UsageKnown :: bool
  oc_Usage :: "UsageReport option"
  oc_AuditHash :: string

definition ObserveValidate :: "(string \<Rightarrow> string option) \<Rightarrow> (string \<Rightarrow> string) \<Rightarrow> ObserveCallRequest \<Rightarrow> RunError + unit" where
  "ObserveValidate parseUUID sha r =
     (if \<not> ValidUUID parseUUID (oc_PhysicalCallID r) \<or> oc_UsageKnown r \<noteq> (oc_Usage r \<noteq> None) \<or>
         \<not> validObservationError (oc_ErrorCode r) then Inl ErrInvalidArgument
      else if oc_TransportOutcome r = ''unknown'' \<and>
         (oc_HTTPStatus r \<noteq> 0 \<or> oc_BusinessOutcome r \<noteq> ''unknown'' \<or> oc_Usage r \<noteq> None) then Inl ErrInvalidArgument
      else if oc_TransportOutcome r \<noteq> ''unknown'' \<and>
         (oc_TransportOutcome r \<noteq> ''response'' \<or> oc_HTTPStatus r < 100 \<or> oc_HTTPStatus r > 599 \<or>
          (oc_BusinessOutcome r \<noteq> ''accepted'' \<and> oc_BusinessOutcome r \<noteq> ''rejected'') \<or>
          (oc_BusinessOutcome r = ''accepted'' \<and> oc_ErrorCode r \<noteq> '''')) then Inl ErrInvalidArgument
      else case oc_Usage r of None \<Rightarrow> Inr () | Some u \<Rightarrow> UsageReportValidate sha u)"

definition ObserveHash :: "(string \<Rightarrow> string) \<Rightarrow> ObserveCallRequest \<Rightarrow> string" where
  "ObserveHash sha r = Fingerprint sha ''jobforge.run.observation.v1'' [oc_TransportOutcome r, show_int (oc_HTTPStatus r),
     oc_ErrorCode r, oc_BusinessOutcome r, (case oc_Usage r of None \<Rightarrow> '''' | Some u \<Rightarrow> ur_UsageHash u)]"

fun CallKind :: "Subcall \<Rightarrow> string" where
  "CallKind SubcallChat = ''chat''"
| "CallKind SubcallQueryEmbedding = ''query_embedding''"
| "CallKind SubcallProfileVersion = ''profile_metadata_http''"
| "CallKind SubcallProfileTags = ''profile_metadata_http''"
| "CallKind SubcallGetOrder = ''business_tool_http''"
| "CallKind SubcallGetDelivery = ''business_tool_http''"
| "CallKind SubcallSearchPolicy = ''business_tool_http''"
| "CallKind SubcallReadPolicyBundle = ''business_tool_http''"
| "CallKind (SubcallOther _) = ''''"

definition ToolSequence :: "string \<Rightarrow> Subcall list" where
  "ToolSequence kind =
     (if kind = ''get_order'' then [SubcallGetOrder]
      else if kind = ''get_delivery'' then [SubcallGetDelivery]
      else if kind = ''read_policy_bundle'' then [SubcallReadPolicyBundle]
      else if kind = ''search_policy''
      then [SubcallProfileVersion, SubcallProfileTags, SubcallQueryEmbedding, SubcallSearchPolicy]
      else [])"

text \<open>
  \<open>Profile\<close>, as far as calls and claims read it. \<open>pf_FinalAdjudicationEnabled\<close>,
  \<open>pf_ApprovalEnabled\<close> and \<open>pf_ConfirmedStepRecovery\<close> are the answers of the methods of these
  names, which decode the profile's JSON definition and compare its hash.
\<close>

record Profile =
  pf_ID :: string
  pf_Hash :: string
  pf_Strategy :: string
  pf_ExecutorVersion :: string
  pf_ProviderAuditPolicy :: string
  pf_ExpectedResponseModel :: string
  pf_Executable :: bool
  pf_MaxInputTokens :: int
  pf_MaxOutputTokens :: int
  pf_FamilyTokenLimit :: int
  pf_FamilyCostMicroyuan :: int
  pf_Pricing :: Pricing
  pf_FinalAdjudicationEnabled :: bool
  pf_ApprovalEnabled :: bool
  pf_ConfirmedStepRecovery :: bool

definition FinalAdjudicationMaxTokens :: int where "FinalAdjudicationMaxTokens = 16384"

definition no_budget :: CallBudget where
  "no_budget = \<lparr>cb_InputTokens = 0, cb_OutputTokens = 0, cb_TotalTokens = 0, cb_CostMicroyuan = 0\<rparr>"

definition reservationBudget :: "Profile \<Rightarrow> Subcall \<Rightarrow> int \<Rightarrow> RunError + CallBudget" where
  "reservationBudget profile subcall maximum =
     (if CallKind subcall = ''chat'' then
        if pf_MaxInputTokens profile < 1 \<or> pf_MaxInputTokens profile > MaxSafeInteger \<or>
           pf_MaxOutputTokens profile < 1 \<or> pf_MaxOutputTokens profile > maximum \<or>
           pf_MaxInputTokens profile > MaxSafeInteger - pf_MaxOutputTokens profile then Inl ErrProfileUnavailable
        else let upper = \<lparr>ur_InputTokens = pf_MaxInputTokens profile, ur_OutputTokens = pf_MaxOutputTokens profile,
               ur_CachedInputTokens = (if pr_InputHitMicroyuan (pf_Pricing profile) > pr_InputMissMicroyuan (pf_Pricing profile)
                 then pf_MaxInputTokens profile else 0), ur_ReceiptHash = '''', ur_UsageHash = ''''\<rparr> in
          bindE (UsageCost (pf_Pricing profile) upper) (\<lambda>cost.
            Inr \<lparr>cb_InputTokens = ur_InputTokens upper, cb_OutputTokens = ur_OutputTokens upper,
              cb_TotalTokens = ur_InputTokens upper + ur_OutputTokens upper, cb_CostMicroyuan = cost\<rparr>)
      else if CallKind subcall = ''query_embedding'' then
        Inr (no_budget\<lparr>cb_InputTokens := QueryEmbeddingMaxInputTokens, cb_TotalTokens := QueryEmbeddingMaxInputTokens\<rparr>)
      else if CallKind subcall = ''profile_metadata_http'' \<or> CallKind subcall = ''business_tool_http'' then Inr no_budget
      else Inl ErrInvalidArgument)"

definition ReservationBudget :: "Profile \<Rightarrow> Subcall \<Rightarrow> RunError + CallBudget" where
  "ReservationBudget profile subcall = reservationBudget profile subcall
     (if pf_FinalAdjudicationEnabled profile then FinalAdjudicationMaxTokens else 1024)"

definition ReservationBudgetForStep :: "Profile \<Rightarrow> string \<Rightarrow> Subcall \<Rightarrow> RunError + CallBudget" where
  "ReservationBudgetForStep p kind subcall =
     (if \<not> pf_FinalAdjudicationEnabled p then ReservationBudget p subcall
      else reservationBudget (if subcall = SubcallChat \<and> kind \<noteq> ''model_proposal'' then p\<lparr>pf_MaxOutputTokens := 1024\<rparr> else p)
        subcall FinalAdjudicationMaxTokens)"

definition ThinkingStep :: "Profile \<Rightarrow> string \<Rightarrow> bool" where
  "ThinkingStep p kind \<longleftrightarrow> kind = ''model_proposal'' \<and> pf_FinalAdjudicationEnabled p"

definition CallTimeout :: "Profile \<Rightarrow> string \<Rightarrow> Subcall \<Rightarrow> duration" where
  "CallTimeout p kind subcall =
     (if subcall \<noteq> SubcallChat then 10 * Second else if ThinkingStep p kind then 120 * Second else 60 * Second)"

definition no_usage :: Usage where
  "no_usage = \<lparr>us_Chat = 0, us_LogicalTools = 0, us_QueryEmbedding = 0, us_ProfileMetadataHTTP = 0,
     us_BusinessToolHTTP = 0, us_PhysicalHTTP = 0, us_ProtocolCorrections = 0, us_Tokens = 0, us_CostMicroyuan = 0\<rparr>"

definition ReservationUsage :: "string \<Rightarrow> Subcall \<Rightarrow> CallBudget \<Rightarrow> Usage" where
  "ReservationUsage stepKind subcall budget =
     (let u = no_usage\<lparr>us_PhysicalHTTP := 1, us_Tokens := cb_TotalTokens budget, us_CostMicroyuan := cb_CostMicroyuan budget\<rparr> in
      if CallKind subcall = ''chat''
      then u\<lparr>us_Chat := 1, us_ProtocolCorrections := (if stepKind = ''protocol_correction'' then 1 else 0)\<rparr>
      else if CallKind subcall = ''query_embedding'' then u\<lparr>us_QueryEmbedding := 1\<rparr>
      else if CallKind subcall = ''profile_metadata_http'' then u\<lparr>us_ProfileMetadataHTTP := 1\<rparr>
      else if CallKind subcall = ''business_tool_http'' then u\<lparr>us_BusinessToolHTTP := 1\<rparr>
      else u)"

section \<open>Account invariant\<close>

text \<open>
  An account with the outstanding holds of its calls. Steps reserve a call, settle an
  outstanding hold with a report inside its bounds, or meet an anomalous report, which keeps the
  hold and freezes the account.
\<close>

definition within :: "Usage \<Rightarrow> Usage \<Rightarrow> bool" where
  "within u v \<longleftrightarrow> list_all2 (\<le>) (usageFields u) (usageFields v)"

lemmas usage_defs = within_def UsageValid_def usageFields_def

inductive astep :: "Account \<times> (int \<times> int) list \<Rightarrow> Account \<times> (int \<times> int) list \<Rightarrow> bool" where
  astep_reserve: "ReserveAccount acc delta = Inr acc' \<Longrightarrow>
    astep (acc, hs) (acc', (us_Tokens delta, us_CostMicroyuan delta) # hs)"
| astep_settle: "SettleAccount acc ht hc kt kc = Inr acc' \<Longrightarrow> (ht, hc) \<in> set hs \<Longrightarrow> kt \<le> ht \<Longrightarrow> kc \<le> hc \<Longrightarrow>
    astep (acc, hs) (acc', remove1 (ht, hc) hs)"
| astep_anomaly: "SettleAccount acc ht hc kt kc = Inr acc' \<Longrightarrow> (ht, hc) \<in> set hs \<Longrightarrow> \<not> (kt \<le> ht \<and> kc \<le> hc) \<Longrightarrow>
    astep (acc, hs) (acc', hs)"
| astep_freeze: "astep (acc, hs) (acc\<lparr>ac_Frozen := True\<rparr>, hs)"

definition fresh_account :: "Account \<times> (int \<times> int) list \<Rightarrow> bool" where
  "fresh_account s \<longleftrightarrow> (case s of (acc, hs) \<Rightarrow> hs = [] \<and> UsageValid (ac_Limits acc) \<and> ac_Used acc = no_usage \<and>
     ac_KnownTokens acc = 0 \<and> ac_KnownCostMicroyuan acc = 0 \<and> ac_HeldTokens acc = 0 \<and> ac_HeldCostMicroyuan acc = 0)"

definition account_inv :: "Account \<times> (int \<times> int) list \<Rightarrow> bool" where
  "account_inv s \<longleftrightarrow> (case s of (acc, hs) \<Rightarrow>
     UsageValid (ac_Limits acc) \<and> UsageValid (ac_Used acc) \<and> within (ac_Used acc) (ac_Limits acc) \<and>
     0 \<le> ac_KnownTokens acc \<and> 0 \<le> ac_KnownCostMicroyuan acc \<and>
     us_Tokens (ac_Used acc) = ac_KnownTokens acc + ac_HeldTokens acc \<and>
     us_CostMicroyuan (ac_Used acc) = ac_KnownCostMicroyuan acc + ac_HeldCostMicroyuan acc \<and>
     ac_HeldTokens acc = sum_list (map fst hs) \<and> ac_HeldCostMicroyuan acc = sum_list (map snd hs) \<and>
     (\<forall>h \<in> set hs. 0 \<le> fst h \<and> 0 \<le> snd h))"

lemma AddUsage_cases:
  assumes "AddUsage u d = Inr v"
  shows "UsageValid u" "UsageValid d" "v = usage_plus u d" "UsageValid v"
  using assms by (auto simp: AddUsage_def usage_defs usage_plus_def split: if_splits)

lemma ReserveAccount_cases:
  assumes "ReserveAccount acc d = Inr acc'"
  shows "\<not> ac_Frozen acc" "UsageValid d" "UsageValid (usage_plus (ac_Used acc) d)"
    "within (usage_plus (ac_Used acc) d) (ac_Limits acc)"
    "acc' = acc\<lparr>ac_Used := usage_plus (ac_Used acc) d, ac_HeldTokens := ac_HeldTokens acc + us_Tokens d,
       ac_HeldCostMicroyuan := ac_HeldCostMicroyuan acc + us_CostMicroyuan d\<rparr>"
proof -
  from assms obtain v where v: "AddUsage (ac_Used acc) d = Inr v" "\<not> ac_Frozen acc"
      "\<not> list_ex (\<lambda>(n, limit). n > limit) (zip (usageFields v) (usageFields (ac_Limits acc)))"
      "acc' = acc\<lparr>ac_Used := v, ac_HeldTokens := ac_HeldTokens acc + us_Tokens d,
       ac_HeldCostMicroyuan := ac_HeldCostMicroyuan acc + us_CostMicroyuan d\<rparr>"
    by (auto simp: ReserveAccount_def result_simps split: if_splits)
  note add = AddUsage_cases [OF v(1)]
  from v add show "\<not> ac_Frozen acc" "UsageValid d" "UsageValid (usage_plus (ac_Used acc) d)"
    "acc' = acc\<lparr>ac_Used := usage_plus (ac_Used acc) d, ac_HeldTokens := ac_HeldTokens acc + us_Tokens d,
       ac_HeldCostMicroyuan := ac_HeldCostMicroyuan acc + us_CostMicroyuan d\<rparr>" by simp_all
  from v(3) add(3) show "within (usage_plus (ac_Used acc) d) (ac_Limits acc)"
    by (auto simp: usage_defs not_less)
qed

lemma SettleAccount_cases:
  assumes "SettleAccount acc ht hc kt kc = Inr acc'"
  obtains (settled) "kt \<le> ht" "kc \<le> hc" "0 \<le> kt" "0 \<le> kc" "0 \<le> ht" "0 \<le> hc"
      "acc' = acc\<lparr>ac_HeldTokens := ac_HeldTokens acc - ht, ac_HeldCostMicroyuan := ac_HeldCostMicroyuan acc - hc,
         ac_KnownTokens := ac_KnownTokens acc + kt, ac_KnownCostMicroyuan := ac_KnownCostMicroyuan acc + kc,
         ac_Used := (ac_Used acc)\<lparr>us_Tokens := ac_KnownTokens acc + kt + (ac_HeldTokens acc - ht),
           us_CostMicroyuan := ac_KnownCostMicroyuan acc + kc + (ac_HeldCostMicroyuan acc - hc)\<rparr>\<rparr>"
    | (anomaly) "\<not> (kt \<le> ht \<and> kc \<le> hc)" "acc' = acc\<lparr>ac_Frozen := True\<rparr>"
proof (cases "kt \<le> ht \<and> kc \<le> hc")
  case True
  with assms show thesis by (intro settled) (auto simp: SettleAccount_def Let_def not_less split: if_splits)
next
  case False
  with assms show thesis by (intro anomaly) (auto simp: SettleAccount_def split: if_splits)
qed

lemma sum_list_remove1: "x \<in> set xs \<Longrightarrow> sum_list (map f (remove1 x xs)) = sum_list (map f xs) - (f x :: int)"
  by (induction xs) auto

lemma hold_within_sum:
  fixes f :: "'a \<Rightarrow> int"
  assumes "x \<in> set xs" and "\<And>y. y \<in> set xs \<Longrightarrow> 0 \<le> f y"
  shows "f x \<le> sum_list (map f xs)"
proof -
  have "0 \<le> sum_list (map f (remove1 x xs))"
    using assms(2) by (intro sum_list_nonneg) (auto dest: notin_set_remove1 set_remove1_subset [THEN subsetD])
  with sum_list_remove1 [OF assms(1), of f] show ?thesis by simp
qed

lemma astep_account_inv:
  assumes "astep s s'" and "account_inv s"
  shows "account_inv s'"
  using assms(1)
proof (cases rule: astep.cases)
  case (astep_reserve acc delta acc' hs)
  note res = ReserveAccount_cases [OF astep_reserve(3)]
  have "0 \<le> us_Tokens delta" "0 \<le> us_CostMicroyuan delta" using res(2) by (simp_all add: usage_defs)
  with assms(2) res(3,4) show ?thesis
    unfolding astep_reserve(1,2) res(5) by (simp add: account_inv_def usage_plus_def)
next
  case (astep_settle acc ht hc kt kc acc' hs)
  from assms(2) astep_settle(1) have inv: "account_inv (acc, hs)" by simp
  from astep_settle(3) show ?thesis
  proof (cases rule: SettleAccount_cases)
    case settled
    have ge: "ht \<le> ac_HeldTokens acc" "hc \<le> ac_HeldCostMicroyuan acc"
      using inv astep_settle(4) hold_within_sum [of "(ht, hc)" hs fst] hold_within_sum [of "(ht, hc)" hs snd]
      by (auto simp: account_inv_def)
    have set: "h \<in> set hs" if "h \<in> set (remove1 (ht, hc) hs)" for h
      using that set_remove1_subset by fastforce
    from inv ge settled set show ?thesis unfolding astep_settle(2) settled(7)
      by (auto simp: account_inv_def usage_defs sum_list_remove1 [OF astep_settle(4)])
  qed (use astep_settle in blast)
next
  case (astep_anomaly acc ht hc kt kc acc' hs)
  from astep_anomaly(3) show ?thesis
    by (cases rule: SettleAccount_cases) (use astep_anomaly assms(2) in \<open>auto simp: account_inv_def\<close>)
next
  case (astep_freeze acc hs)
  with assms(2) show ?thesis by (simp add: account_inv_def)
qed

interpretation account: inductive_invariant fresh_account astep account_inv
proof unfold_locales
  show "account_inv s" if "fresh_account s" for s
    using that by (auto simp: fresh_account_def account_inv_def usage_defs no_usage_def MaxSafeInteger_def)
qed (fact astep_account_inv)

section \<open>Properties of the budget\<close>

lemma usage_sum_int64:
  "UsageValid u \<Longrightarrow> UsageValid v \<Longrightarrow> \<forall>n \<in> set (usageFields (usage_plus u v)). int64 n"
  by (auto simp: usage_defs usage_plus_def int64_def MaxSafeInteger_def)

text \<open>
  Whatever calls are reserved, settled or reported anomalously, and in whatever order: no
  counter of an account ever exceeds its limit, the exposure it shows in tokens and money is
  exactly what is known plus what is held, and what is held is exactly the sum of the holds of
  the calls that are not settled.
\<close>

theorem account_exposure_is_conserved:
  assumes "reachable fresh_account astep (acc, hs)"
  shows "within (ac_Used acc) (ac_Limits acc) \<and>
    us_Tokens (ac_Used acc) = ac_KnownTokens acc + sum_list (map fst hs) \<and>
    us_CostMicroyuan (ac_Used acc) = ac_KnownCostMicroyuan acc + sum_list (map snd hs) \<and>
    0 \<le> ac_KnownTokens acc \<and> 0 \<le> sum_list (map fst hs)"
proof -
  have inv: "account_inv (acc, hs)" by (rule account.invariant [OF assms])
  moreover from inv have "0 \<le> sum_list (map fst hs)" by (intro sum_list_nonneg) (auto simp: account_inv_def)
  ultimately show ?thesis by (auto simp: account_inv_def)
qed

definition sample_account :: Account where
  "sample_account = \<lparr>ac_Scope = ''family'', ac_ID = ''f1'', ac_Limits = FamilyLimits 5000 900, ac_Used = no_usage,
     ac_Frozen = False, ac_KnownTokens = 0, ac_KnownCostMicroyuan = 0, ac_HeldTokens = 0, ac_HeldCostMicroyuan = 0,
     ac_BatchStopCode = ''''\<rparr>"

definition sample_delta :: Usage where
  "sample_delta = no_usage\<lparr>us_Chat := 1, us_PhysicalHTTP := 1, us_Tokens := 2000, us_CostMicroyuan := 300\<rparr>"

theorem account_exposure_is_conserved_witness:
  "\<exists>acc. ReserveAccount sample_account sample_delta = Inr acc \<and> us_Tokens (ac_Used acc) = ac_KnownTokens acc + 2000 \<and>
     within (ac_Used acc) (ac_Limits acc)"
proof -
  have "isOk (ReserveAccount sample_account sample_delta)" by code_simp
  then obtain acc where acc: "ReserveAccount sample_account sample_delta = Inr acc" by (auto simp: isOk_iff)
  have "reachable fresh_account astep (sample_account, [])"
    by (rule reachable_start) (simp add: fresh_account_def sample_account_def FamilyLimits_def usage_defs MaxSafeInteger_def)
  then have "reachable fresh_account astep (acc, [(us_Tokens sample_delta, us_CostMicroyuan sample_delta)])"
    by (rule reachable_step) (rule astep_reserve [OF acc])
  from account_exposure_is_conserved [OF this] acc show ?thesis by (simp add: sample_delta_def)
qed

text \<open>C22.
  Settling an outstanding hold succeeds unless the known usage would leave the range of safe
  integers. A report inside the hold replaces the hold by the known usage, so that exposure never
  rises; all seven call counts, the limits, the freeze and the identity of the account stay as they
  are. A report beyond the hold changes nothing but the freeze.
\<close>

theorem settlement_is_total_and_never_refunds_counts:
  assumes "reachable fresh_account astep (acc, hs)" and "(ht, hc) \<in> set hs"
    and "0 \<le> kt" "kt \<le> MaxSafeInteger - ac_KnownTokens acc" "0 \<le> kc" "kc \<le> MaxSafeInteger - ac_KnownCostMicroyuan acc"
  shows "\<exists>acc'. SettleAccount acc ht hc kt kc = Inr acc' \<and>
    (if kt \<le> ht \<and> kc \<le> hc
     then ac_Used acc' = (ac_Used acc)\<lparr>us_Tokens := us_Tokens (ac_Used acc) - ht + kt, us_CostMicroyuan := us_CostMicroyuan (ac_Used acc) - hc + kc\<rparr> \<and>
       within (ac_Used acc') (ac_Used acc) \<and>
       ac_HeldTokens acc' = ac_HeldTokens acc - ht \<and> ac_HeldCostMicroyuan acc' = ac_HeldCostMicroyuan acc - hc \<and>
       ac_KnownTokens acc' = ac_KnownTokens acc + kt \<and> ac_KnownCostMicroyuan acc' = ac_KnownCostMicroyuan acc + kc \<and>
       ac_Limits acc' = ac_Limits acc \<and> ac_Frozen acc' = ac_Frozen acc \<and> ac_ID acc' = ac_ID acc \<and> ac_Scope acc' = ac_Scope acc
     else acc' = acc\<lparr>ac_Frozen := True\<rparr>)"
proof -
  have inv: "account_inv (acc, hs)" by (rule account.invariant [OF assms(1)])
  then have pos: "0 \<le> ht" "0 \<le> hc" using assms(2) by (auto simp: account_inv_def)
  have ge: "ht \<le> ac_HeldTokens acc" "hc \<le> ac_HeldCostMicroyuan acc"
    using inv assms(2) hold_within_sum [of "(ht, hc)" hs fst] hold_within_sum [of "(ht, hc)" hs snd]
    by (auto simp: account_inv_def)
  have max: "ac_KnownTokens acc + ac_HeldTokens acc \<le> MaxSafeInteger" "0 \<le> ac_KnownTokens acc"
      "ac_KnownCostMicroyuan acc + ac_HeldCostMicroyuan acc \<le> MaxSafeInteger" "0 \<le> ac_KnownCostMicroyuan acc"
      "us_Tokens (ac_Used acc) = ac_KnownTokens acc + ac_HeldTokens acc"
      "us_CostMicroyuan (ac_Used acc) = ac_KnownCostMicroyuan acc + ac_HeldCostMicroyuan acc"
    using inv by (auto simp: account_inv_def usage_defs)
  have "isOk (SettleAccount acc ht hc kt kc)"
    using assms(3-6) pos ge max by (simp add: SettleAccount_def Let_def)
  then obtain acc' where acc': "SettleAccount acc ht hc kt kc = Inr acc'" by (auto simp: isOk_iff)
  from acc' show ?thesis
  proof (cases rule: SettleAccount_cases)
    case settled
    then show ?thesis using acc' max by (intro exI [of _ acc']) (simp add: usage_defs)
  qed (use acc' in auto)
qed

theorem settlement_is_total_and_never_refunds_counts_witness:
  "\<exists>acc acc'. ReserveAccount sample_account sample_delta = Inr acc \<and> SettleAccount acc 2000 300 1500 300 = Inr acc' \<and>
     us_Tokens (ac_Used acc') = 1500 \<and> us_Chat (ac_Used acc') = 1"
proof -
  have "isOk (ReserveAccount sample_account sample_delta)" by code_simp
  then obtain acc where acc: "ReserveAccount sample_account sample_delta = Inr acc" by (auto simp: isOk_iff)
  have fields: "ac_KnownTokens acc = 0" "ac_KnownCostMicroyuan acc = 0" "us_Tokens (ac_Used acc) = 2000" "us_Chat (ac_Used acc) = 1"
    using ReserveAccount_cases(5) [OF acc]
    by (simp_all add: sample_account_def sample_delta_def usage_plus_def no_usage_def)
  have "reachable fresh_account astep (sample_account, [])"
    by (rule reachable_start) (simp add: fresh_account_def sample_account_def FamilyLimits_def usage_defs MaxSafeInteger_def)
  then have "reachable fresh_account astep (acc, [(us_Tokens sample_delta, us_CostMicroyuan sample_delta)])"
    by (rule reachable_step) (rule astep_reserve [OF acc])
  then have reach: "reachable fresh_account astep (acc, [(2000, 300)])" by (simp add: sample_delta_def)
  from settlement_is_total_and_never_refunds_counts [OF reach, of 2000 300 1500 300] acc fields show ?thesis
    by (auto simp: MaxSafeInteger_def)
qed

section \<open>Properties of the tariff\<close>

lemma UsageCost_ceiling:
  assumes "UsageCost price usage = Inr c"
  shows "0 < pr_Denominator price" "c = (cost_numerator price usage + (pr_Denominator price - 1)) div pr_Denominator price"
  using assms by (auto simp: UsageCost_def Let_def split: if_splits)

text \<open>C36.
  The cost of a usage report is the exact rational amount rounded up to the next whole
  microyuan: it covers the amount and exceeds it by less than one.
\<close>

theorem UsageCost_is_exact_ceiling:
  assumes "UsageCost price usage = Inr c"
  shows "cost_numerator price usage \<le> c * pr_Denominator price \<and>
    (c - 1) * pr_Denominator price < cost_numerator price usage \<and> c \<le> MaxSafeInteger"
proof -
  let ?n = "cost_numerator price usage" and ?d = "pr_Denominator price"
  note c = UsageCost_ceiling [OF assms]
  have "?n + (?d - 1) = c * ?d + (?n + (?d - 1)) mod ?d" by (simp add: c(2) mult.commute)
  moreover have "0 \<le> (?n + (?d - 1)) mod ?d" "(?n + (?d - 1)) mod ?d < ?d" using c(1) by simp_all
  ultimately have "?n \<le> c * ?d" "c * ?d - ?d < ?n" by linarith+
  moreover have "c \<le> MaxSafeInteger" using assms by (auto simp: UsageCost_def Let_def split: if_splits)
  ultimately show ?thesis by (simp add: left_diff_distrib)
qed

definition sample_pricing :: Pricing where
  "sample_pricing = \<lparr>pr_Hash = '''', pr_Denominator = 1000, pr_InputMissMicroyuan = 7, pr_InputHitMicroyuan = 2,
     pr_OutputMicroyuan = 20\<rparr>"

definition sample_report :: UsageReport where
  "sample_report = \<lparr>ur_InputTokens = 90, ur_OutputTokens = 10, ur_CachedInputTokens = 40, ur_ReceiptHash = '''',
     ur_UsageHash = ''''\<rparr>"

theorem UsageCost_is_exact_ceiling_witness:
  "UsageCost sample_pricing sample_report = Inr 1 \<and> cost_numerator sample_pricing sample_report \<le> 1 * 1000"
proof -
  have c: "UsageCost sample_pricing sample_report = Inr 1" by code_simp
  from UsageCost_is_exact_ceiling [OF c] c show ?thesis by (simp add: sample_pricing_def)
qed

lemma cost_numerator_mono:
  assumes "0 \<le> pr_InputMissMicroyuan price" "0 \<le> pr_InputHitMicroyuan price" "0 \<le> pr_OutputMicroyuan price"
    and "0 \<le> ur_CachedInputTokens u" "ur_CachedInputTokens u \<le> ur_InputTokens u" "ur_InputTokens u \<le> ur_InputTokens v"
      "ur_OutputTokens u \<le> ur_OutputTokens v"
    and "ur_CachedInputTokens v = (if pr_InputHitMicroyuan price > pr_InputMissMicroyuan price then ur_InputTokens v else 0)"
  shows "cost_numerator price u \<le> cost_numerator price v"
proof -
  let ?m = "max (pr_InputMissMicroyuan price) (pr_InputHitMicroyuan price)"
  have "(ur_InputTokens u - ur_CachedInputTokens u) * pr_InputMissMicroyuan price \<le> (ur_InputTokens u - ur_CachedInputTokens u) * ?m"
    "ur_CachedInputTokens u * pr_InputHitMicroyuan price \<le> ur_CachedInputTokens u * ?m"
    using assms(4,5) by (auto intro: mult_left_mono)
  then have "(ur_InputTokens u - ur_CachedInputTokens u) * pr_InputMissMicroyuan price +
      ur_CachedInputTokens u * pr_InputHitMicroyuan price \<le> ur_InputTokens u * ?m"
    by (simp add: left_diff_distrib)
  also have "\<dots> \<le> ur_InputTokens v * ?m" using assms(1,6) by (intro mult_right_mono) auto
  also have "\<dots> = (ur_InputTokens v - ur_CachedInputTokens v) * pr_InputMissMicroyuan price +
      ur_CachedInputTokens v * pr_InputHitMicroyuan price"
    using assms(8) by (simp add: max_def)
  finally show ?thesis using mult_right_mono [OF assms(7,3)] by (simp add: cost_numerator_def)
qed

text \<open>C23.
  The reservation of a chat call covers every report inside the bounds that the profile sets for
  the step: its maximal input, and its maximal output or, for a profile with final adjudication
  outside the proposal step, 1024 output tokens. Whatever part of the input was served from the
  cache, the tokens and the cost of the report are at most what was reserved. So an honest provider
  never triggers the anomaly freeze.
\<close>

theorem reservation_covers_every_usage_in_bounds:
  assumes "ReservationBudgetForStep profile kind SubcallChat = Inr budget"
    and "UsageCost (pf_Pricing profile) usage = Inr cost"
    and "ur_InputTokens usage \<le> pf_MaxInputTokens profile"
    and "ur_OutputTokens usage \<le> (if pf_FinalAdjudicationEnabled profile \<and> kind \<noteq> ''model_proposal'' then 1024 else pf_MaxOutputTokens profile)"
  shows "ur_InputTokens usage + ur_OutputTokens usage \<le> cb_TotalTokens budget \<and> cost \<le> cb_CostMicroyuan budget"
proof -
  from assms(1) obtain p maximum where p: "reservationBudget p SubcallChat maximum = Inr budget" "pf_Pricing p = pf_Pricing profile"
    "pf_MaxInputTokens p = pf_MaxInputTokens profile"
    "pf_MaxOutputTokens p = (if pf_FinalAdjudicationEnabled profile \<and> kind \<noteq> ''model_proposal'' then 1024 else pf_MaxOutputTokens profile)"
    by (auto simp: ReservationBudgetForStep_def ReservationBudget_def split: if_splits)
  define upper where "upper = \<lparr>ur_InputTokens = pf_MaxInputTokens p, ur_OutputTokens = pf_MaxOutputTokens p,
     ur_CachedInputTokens = (if pr_InputHitMicroyuan (pf_Pricing p) > pr_InputMissMicroyuan (pf_Pricing p)
       then pf_MaxInputTokens p else 0), ur_ReceiptHash = '''', ur_UsageHash = ''''\<rparr>"
  have usage: "ur_InputTokens usage \<le> ur_InputTokens upper" "ur_OutputTokens usage \<le> ur_OutputTokens upper"
    using assms(3,4) p(3,4) by (simp_all add: upper_def)
  from p(1) have cost: "UsageCost (pf_Pricing p) upper = Inr (cb_CostMicroyuan budget)"
      and fields: "cb_InputTokens budget = ur_InputTokens upper" "cb_OutputTokens budget = ur_OutputTokens upper"
        "cb_TotalTokens budget = cb_InputTokens budget + cb_OutputTokens budget"
    by (auto simp: reservationBudget_def Let_def upper_def [symmetric] result_simps split: if_splits)
  have "cost_numerator (pf_Pricing p) usage \<le> cost_numerator (pf_Pricing p) upper"
  proof (rule cost_numerator_mono)
    show "ur_CachedInputTokens upper = (if pr_InputHitMicroyuan (pf_Pricing p) > pr_InputMissMicroyuan (pf_Pricing p)
        then ur_InputTokens upper else 0)" by (simp add: upper_def)
  qed (use assms(2) usage p(2) in \<open>auto simp: UsageCost_def split: if_splits\<close>)
  then have "cost \<le> cb_CostMicroyuan budget"
    using UsageCost_ceiling [OF assms(2)] UsageCost_ceiling [OF cost] p(2)
    by (simp add: zdiv_mono1)
  with usage fields show ?thesis by simp
qed

definition sample_profile :: Profile where
  "sample_profile = \<lparr>pf_ID = ''p1'', pf_Hash = '''', pf_Strategy = '''', pf_ExecutorVersion = '''', pf_ProviderAuditPolicy = '''',
     pf_ExpectedResponseModel = '''', pf_Executable = True,
     pf_MaxInputTokens = 100, pf_MaxOutputTokens = 50, pf_FamilyTokenLimit = 0, pf_FamilyCostMicroyuan = 0,
     pf_Pricing = sample_pricing, pf_FinalAdjudicationEnabled = False, pf_ApprovalEnabled = False,
     pf_ConfirmedStepRecovery = False\<rparr>"

theorem reservation_covers_every_usage_in_bounds_witness:
  "\<exists>budget. ReservationBudgetForStep sample_profile ''model_decision'' SubcallChat = Inr budget \<and> 1 \<le> cb_CostMicroyuan budget"
proof -
  have "isOk (ReservationBudgetForStep sample_profile ''model_decision'' SubcallChat)" by code_simp
  then obtain b where b: "ReservationBudgetForStep sample_profile ''model_decision'' SubcallChat = Inr b" by (auto simp: isOk_iff)
  have "UsageCost (pf_Pricing sample_profile) sample_report = Inr 1" by code_simp
  from reservation_covers_every_usage_in_bounds [OF b this] b show ?thesis by (simp add: sample_report_def sample_profile_def)
qed

end
