(* ===== verification/RunAudit.thy ===== *)
theory RunAudit
  imports RunBudget
begin

text \<open>
  The provider audit of \<open>internal/run\<close> (\<open>provider_audit.go\<close>, \<open>provider_audit_report.go\<close>,
  \<open>provider_audit_storage.go\<close> and the profile methods of \<open>adjudication.go\<close>,
  \<open>status_policy.go\<close>, \<open>policy_bundle.go\<close>): the audit object and its intrinsic checks, the
  report bound to its call, its hashes, and what the first report of a call does to the ledger.
  The states are string types in the source; the last constructor of each type is any other string.
\<close>

section \<open>Profile methods\<close>

definition AuditEnabled :: "Profile \<Rightarrow> bool" where
  "AuditEnabled p \<longleftrightarrow> pf_ProviderAuditPolicy p = ''deepseek-audit-v1'' \<or> pf_ProviderAuditPolicy p = ''deepseek-audit-v2''"

definition ValidateAuditPolicy :: "Profile \<Rightarrow> RunError + unit" where
  "ValidateAuditPolicy p =
     (if IsAdjudicationExecutor (pf_ExecutorVersion p) \<or> pf_ProviderAuditPolicy p = ''deepseek-audit-v2''
      then ensureE (pf_FinalAdjudicationEnabled p) ErrProfileUnavailable
      else if pf_ProviderAuditPolicy p = ''''
      then ensureE (\<not> (pf_ExpectedResponseModel p \<noteq> '''' \<or> IsAuditedExecutor (pf_ExecutorVersion p))) ErrProfileUnavailable
      else ensureE (\<not> (\<not> AuditEnabled p \<or> \<not> IsAuditedExecutor (pf_ExecutorVersion p) \<or>
        \<not> ValidIdentifier (pf_ExpectedResponseModel p))) ErrProfileUnavailable)"

definition StatusPolicyEnabled :: "Profile \<Rightarrow> bool" where
  "StatusPolicyEnabled p \<longleftrightarrow> pf_ExecutorVersion p = ''linux-v2-adjudication-runtime-4'' \<and> pf_FinalAdjudicationEnabled p"

definition PolicyBundleEnabled :: "Profile \<Rightarrow> bool" where
  "PolicyBundleEnabled p \<longleftrightarrow> (pf_ExecutorVersion p = ''linux-v2-adjudication-runtime-5'' \<or>
     pf_ExecutorVersion p = ''linux-v2-fixed-adjudication-runtime-2'') \<and> pf_FinalAdjudicationEnabled p"

section \<open>The audit object\<close>

datatype ProviderIdentityState = ProviderIdentityCompatible | ProviderIdentityIncompatible | ProviderIdentityInvalid
  | ProviderIdentityUnavailable | ProviderIdentityOther string

datatype UsageEvidenceState = UsageEvidenceComplete | UsageEvidenceAbsent | UsageEvidenceInvalid
  | UsageEvidenceUnavailable | UsageEvidenceOther string

datatype ReasoningState = ReasoningObserved | ReasoningAbsent | ReasoningInvalid | ReasoningUnavailable | ReasoningOther string

datatype ProviderModeState = ProviderModeNonthinking | ProviderModeThinking | ProviderModeUnexpected | ProviderModeInvalid
  | ProviderModeUnavailable | ProviderModeOther string

fun identity_text :: "ProviderIdentityState \<Rightarrow> string" where
  "identity_text ProviderIdentityCompatible = ''compatible''"
| "identity_text ProviderIdentityIncompatible = ''incompatible''"
| "identity_text ProviderIdentityInvalid = ''invalid''"
| "identity_text ProviderIdentityUnavailable = ''unavailable''"
| "identity_text (ProviderIdentityOther s) = s"

fun evidence_text :: "UsageEvidenceState \<Rightarrow> string" where
  "evidence_text UsageEvidenceComplete = ''complete''"
| "evidence_text UsageEvidenceAbsent = ''absent''"
| "evidence_text UsageEvidenceInvalid = ''invalid''"
| "evidence_text UsageEvidenceUnavailable = ''unavailable''"
| "evidence_text (UsageEvidenceOther s) = s"

fun reasoning_text :: "ReasoningState \<Rightarrow> string" where
  "reasoning_text ReasoningObserved = ''observed''"
| "reasoning_text ReasoningAbsent = ''absent''"
| "reasoning_text ReasoningInvalid = ''invalid''"
| "reasoning_text ReasoningUnavailable = ''unavailable''"
| "reasoning_text (ReasoningOther s) = s"

fun mode_text :: "ProviderModeState \<Rightarrow> string" where
  "mode_text ProviderModeNonthinking = ''nonthinking''"
| "mode_text ProviderModeThinking = ''thinking''"
| "mode_text ProviderModeUnexpected = ''unexpected''"
| "mode_text ProviderModeInvalid = ''invalid''"
| "mode_text ProviderModeUnavailable = ''unavailable''"
| "mode_text (ProviderModeOther s) = s"

record ProviderAudit =
  pa_SchemaVersion :: int
  pa_Provider :: string
  pa_ResponseComplete :: bool
  pa_HTTPStatus :: int
  pa_ResponseSHA256 :: "string option"
  pa_IdentityState :: ProviderIdentityState
  pa_ResponseID :: "string option"
  pa_ResponseModel :: "string option"
  pa_SystemFingerprint :: "string option"
  pa_Created :: "int option"
  pa_UsageEvidence :: UsageEvidenceState
  pa_ReasoningState :: ReasoningState
  pa_ReasoningTokens :: "int option"
  pa_ModeState :: ProviderModeState
  pa_AuditHash :: string

definition auditString :: "string option \<Rightarrow> string" where
  "auditString value = (case value of None \<Rightarrow> '''' | Some s \<Rightarrow> s)"

definition auditInteger :: "int option \<Rightarrow> string" where
  "auditInteger value = (case value of None \<Rightarrow> '''' | Some n \<Rightarrow> show_int n)"

definition AuditHash :: "(string \<Rightarrow> string) \<Rightarrow> ProviderAudit \<Rightarrow> string" where
  "AuditHash sha a = Fingerprint sha ''jobforge.run.provider-audit.v1'' [show_int (pa_SchemaVersion a), pa_Provider a,
     (if pa_ResponseComplete a then ''1'' else ''0''), show_int (pa_HTTPStatus a), auditString (pa_ResponseSHA256 a),
     identity_text (pa_IdentityState a), auditString (pa_ResponseID a), auditString (pa_ResponseModel a),
     auditString (pa_SystemFingerprint a), auditInteger (pa_Created a), evidence_text (pa_UsageEvidence a),
     reasoning_text (pa_ReasoningState a), auditInteger (pa_ReasoningTokens a), mode_text (pa_ModeState a)]"

definition validAuditIdentifier :: "string option \<Rightarrow> bool" where
  "validAuditIdentifier value \<longleftrightarrow> (case value of None \<Rightarrow> True | Some s \<Rightarrow> ValidIdentifier s)"

definition validAuditInteger :: "int option \<Rightarrow> bool" where
  "validAuditInteger value \<longleftrightarrow> (case value of None \<Rightarrow> True | Some n \<Rightarrow> 0 \<le> n \<and> n \<le> MaxSafeInteger)"

definition validStates :: "ProviderAudit \<Rightarrow> bool" where
  "validStates a \<longleftrightarrow>
     pa_IdentityState a \<in> {ProviderIdentityCompatible, ProviderIdentityIncompatible, ProviderIdentityInvalid, ProviderIdentityUnavailable} \<and>
     pa_UsageEvidence a \<in> {UsageEvidenceComplete, UsageEvidenceAbsent, UsageEvidenceInvalid, UsageEvidenceUnavailable} \<and>
     pa_ReasoningState a \<in> {ReasoningObserved, ReasoningAbsent, ReasoningInvalid, ReasoningUnavailable} \<and>
     pa_ModeState a \<in> {ProviderModeNonthinking, ProviderModeThinking, ProviderModeUnexpected, ProviderModeInvalid, ProviderModeUnavailable}"

definition unavailableResponse :: "ProviderAudit \<Rightarrow> bool" where
  "unavailableResponse a \<longleftrightarrow> pa_ResponseID a = None \<and> pa_ResponseModel a = None \<and> pa_SystemFingerprint a = None \<and>
     pa_Created a = None \<and> pa_IdentityState a = ProviderIdentityUnavailable \<and> pa_UsageEvidence a = UsageEvidenceUnavailable \<and>
     pa_ReasoningState a = ReasoningUnavailable \<and> pa_ReasoningTokens a = None \<and> pa_ModeState a = ProviderModeUnavailable"

definition safeIdentity :: "ProviderAudit \<Rightarrow> bool" where
  "safeIdentity a \<longleftrightarrow> pa_IdentityState a = ProviderIdentityCompatible \<or> pa_IdentityState a = ProviderIdentityIncompatible"

definition completeIdentity :: "ProviderAudit \<Rightarrow> bool" where
  "completeIdentity a \<longleftrightarrow> pa_ResponseID a \<noteq> None \<and> pa_ResponseModel a \<noteq> None \<and> pa_SystemFingerprint a \<noteq> None \<and> pa_Created a \<noteq> None"

definition validateReasoning :: "ProviderAudit \<Rightarrow> RunError + unit" where
  "validateReasoning a =
     (if pa_UsageEvidence a = UsageEvidenceComplete \<and> pa_ReasoningState a \<noteq> ReasoningObserved \<and> pa_ReasoningState a \<noteq> ReasoningAbsent
      then Inl ErrInvalidArgument
      else if pa_UsageEvidence a \<noteq> UsageEvidenceComplete \<and> pa_ReasoningState a \<noteq> ReasoningInvalid \<and> pa_ReasoningState a \<noteq> ReasoningUnavailable
      then Inl ErrInvalidArgument
      else if (pa_ReasoningState a = ReasoningObserved) \<noteq> (pa_ReasoningTokens a \<noteq> None) then Inl ErrInvalidArgument
      else if pa_ReasoningState a = ReasoningInvalid \<and> pa_ModeState a \<noteq> ProviderModeInvalid then Inl ErrInvalidArgument
      else if pa_ModeState a = ProviderModeNonthinking \<and>
        (pa_UsageEvidence a \<noteq> UsageEvidenceComplete \<or> (case pa_ReasoningTokens a of None \<Rightarrow> False | Some n \<Rightarrow> n \<noteq> 0)) then Inl ErrInvalidArgument
      else if pa_ModeState a = ProviderModeThinking \<and> pa_UsageEvidence a \<noteq> UsageEvidenceComplete then Inl ErrInvalidArgument
      else if pa_UsageEvidence a = UsageEvidenceComplete \<and> pa_ModeState a = ProviderModeUnavailable then Inl ErrInvalidArgument
      else if (case pa_ReasoningTokens a of None \<Rightarrow> False | Some n \<Rightarrow> n > 0) \<and> pa_ModeState a \<noteq> ProviderModeUnexpected \<and>
        pa_ModeState a \<noteq> ProviderModeInvalid \<and> pa_ModeState a \<noteq> ProviderModeThinking then Inl ErrInvalidArgument
      else Inr ())"

definition AuditValidate :: "(string \<Rightarrow> string) \<Rightarrow> ProviderAudit \<Rightarrow> RunError + unit" where
  "AuditValidate sha a =
     (if (pa_SchemaVersion a \<noteq> 1 \<and> pa_SchemaVersion a \<noteq> 2) \<or>
         (pa_ModeState a = ProviderModeThinking \<and> pa_SchemaVersion a \<noteq> 2) \<or> pa_Provider a \<noteq> ''deepseek'' \<or> \<not> validStates a \<or>
         \<not> validAuditIdentifier (pa_ResponseID a) \<or> \<not> validAuditIdentifier (pa_ResponseModel a) \<or>
         \<not> validAuditIdentifier (pa_SystemFingerprint a) \<or> \<not> validAuditInteger (pa_Created a) \<or>
         \<not> validAuditInteger (pa_ReasoningTokens a) \<or>
         (case pa_ResponseSHA256 a of None \<Rightarrow> False | Some h \<Rightarrow> \<not> ValidHash h) \<or>
         \<not> ValidHash (pa_AuditHash a) \<or> pa_AuditHash a \<noteq> AuditHash sha a then Inl ErrInvalidArgument
      else if \<not> pa_ResponseComplete a then
        ensureE (\<not> (pa_HTTPStatus a \<noteq> 0 \<or> pa_ResponseSHA256 a \<noteq> None \<or> \<not> unavailableResponse a)) ErrInvalidArgument
      else if pa_HTTPStatus a < 100 \<or> pa_HTTPStatus a > 599 \<or> pa_ResponseSHA256 a = None then Inl ErrInvalidArgument
      else if pa_HTTPStatus a \<noteq> 200 then ensureE (unavailableResponse a) ErrInvalidArgument
      else if pa_IdentityState a = ProviderIdentityUnavailable \<or> (safeIdentity a \<and> \<not> completeIdentity a) \<or>
        (pa_UsageEvidence a = UsageEvidenceComplete \<and> \<not> safeIdentity a) then Inl ErrInvalidArgument
      else validateReasoning a)"

definition ReceiptHash :: "(string \<Rightarrow> string option) \<Rightarrow> (string \<Rightarrow> string) \<Rightarrow> ProviderAudit \<Rightarrow> string \<Rightarrow> RunError + string" where
  "ReceiptHash parseUUID sha a physicalCallID =
     (if \<not> isOk (AuditValidate sha a) \<or> \<not> ValidUUID parseUUID physicalCallID \<or> \<not> safeIdentity a \<or> \<not> completeIdentity a \<or>
         pa_ResponseSHA256 a = None then Inl ErrInvalidArgument
      else Inr (Fingerprint sha ''jobforge.deepseek.receipt.v1'' [physicalCallID, the (pa_ResponseSHA256 a), the (pa_ResponseID a),
        the (pa_ResponseModel a), the (pa_SystemFingerprint a), show_int (the (pa_Created a))]))"

definition AllowsProviderMode :: "Profile \<Rightarrow> string \<Rightarrow> ProviderModeState \<Rightarrow> bool" where
  "AllowsProviderMode p kind mode \<longleftrightarrow> mode = ProviderModeNonthinking \<or> mode = ProviderModeThinking \<and> ThinkingStep p kind"

definition AllowsProviderAudit :: "Profile \<Rightarrow> string \<Rightarrow> ProviderAudit option \<Rightarrow> bool" where
  "AllowsProviderAudit p kind audit = (case audit of None \<Rightarrow> False | Some a \<Rightarrow>
     if \<not> AllowsProviderMode p kind (pa_ModeState a) then False
     else pa_SchemaVersion a = (if ThinkingStep p kind then 2 else 1))"

section \<open>The report\<close>

record ReportBinding =
  rb_ExecutionBindingHash :: string
  rb_PhysicalCallID :: string
  rb_ParameterHash :: string
  rb_Subcall :: Subcall
  rb_ExpectedResponseModel :: string
  rb_AllowThinking :: bool

record CallReport =
  cr_Usage :: "UsageReport option"
  cr_ProviderAudit :: "ProviderAudit option"

definition ExecutionBindingHash :: "(string \<Rightarrow> string option) \<Rightarrow> (string \<Rightarrow> string) \<Rightarrow> Lease \<Rightarrow> StepIdentity \<Rightarrow> RunError + string" where
  "ExecutionBindingHash parseUUID sha lease step =
     (if \<not> ValidIdentifier (ls_TenantID lease) \<or> \<not> ValidIdentifier (ls_WorkerID lease) \<or>
         \<not> ValidUUID parseUUID (ls_RunID lease) \<or> \<not> ValidUUID parseUUID (ls_SessionID lease) \<or>
         ls_AttemptNo lease < 1 \<or> ls_AttemptNo lease > MaxSafeInteger \<or> ls_FencingToken lease < 1 \<or>
         ls_FencingToken lease > MaxSafeInteger \<or> \<not> ValidUUID parseUUID (st_ID step) \<or> \<not> validStepKind (st_Kind step) \<or>
         st_Sequence step < 1 \<or> st_Sequence step > 32 \<or> st_CursorVersion step < 0 \<or> st_CursorVersion step \<ge> 32 \<or>
         st_Sequence step \<noteq> st_CursorVersion step + 1 \<or> \<not> ValidHash (st_InputHash step) \<or>
         \<not> ValidIdentifier (st_ProfileID step) \<or> \<not> ValidHash (st_ProfileHash step) \<or>
         \<not> ValidUUID parseUUID (st_SnapshotID step) \<or> \<not> ValidHash (st_SnapshotHash step) then Inl ErrInvalidArgument
      else Inr (Fingerprint sha ''jobforge.run.call-binding.v1'' [ls_TenantID lease, ls_RunID lease, ls_WorkerID lease,
        ls_SessionID lease, show_int (ls_AttemptNo lease), show_int (ls_FencingToken lease), st_ID step,
        show_int (st_Sequence step), st_Kind step, show_int (st_CursorVersion step), st_InputHash step, st_ProfileID step,
        st_ProfileHash step, st_SnapshotID step, st_SnapshotHash step]))"

definition ReportHash :: "(string \<Rightarrow> string) \<Rightarrow> ReportBinding \<Rightarrow> CallReport \<Rightarrow> string" where
  "ReportHash sha b r = Fingerprint sha ''jobforge.run.call-report.v1'' [rb_ExecutionBindingHash b, rb_PhysicalCallID b,
     rb_ParameterHash b, (case cr_Usage r of None \<Rightarrow> '''' | Some u \<Rightarrow> ur_UsageHash u),
     (case cr_ProviderAudit r of None \<Rightarrow> '''' | Some a \<Rightarrow> pa_AuditHash a)]"

definition validateContent :: "(string \<Rightarrow> string) \<Rightarrow> CallReport \<Rightarrow> RunError + unit" where
  "validateContent sha r =
     (if cr_Usage r = None \<and> cr_ProviderAudit r = None then Inl ErrInvalidArgument
      else if (case cr_Usage r of None \<Rightarrow> False | Some u \<Rightarrow> \<not> isOk (UsageReportValidate sha u)) then Inl ErrInvalidArgument
      else case cr_ProviderAudit r of None \<Rightarrow> Inr () | Some a \<Rightarrow>
        if \<not> isOk (AuditValidate sha a) \<or> (pa_UsageEvidence a = UsageEvidenceComplete) \<noteq> (cr_Usage r \<noteq> None) then Inl ErrInvalidArgument
        else if (case cr_Usage r of None \<Rightarrow> False | Some u \<Rightarrow> ur_InputTokens u > MaxSafeInteger - ur_OutputTokens u \<or>
          (case pa_ReasoningTokens a of None \<Rightarrow> False | Some n \<Rightarrow> n > ur_OutputTokens u)) then Inl ErrInvalidArgument
        else Inr ())"

definition ReportValidate :: "(string \<Rightarrow> string option) \<Rightarrow> (string \<Rightarrow> string) \<Rightarrow> ReportBinding \<Rightarrow> CallReport \<Rightarrow> RunError + unit" where
  "ReportValidate parseUUID sha b r =
     (if \<not> ValidHash (rb_ExecutionBindingHash b) \<or> \<not> ValidUUID parseUUID (rb_PhysicalCallID b) \<or>
         \<not> ValidHash (rb_ParameterHash b) \<or> \<not> isOk (validateContent sha r) then Inl ErrInvalidArgument
      else if rb_Subcall b \<noteq> SubcallChat then
        ensureE (\<not> (rb_Subcall b \<noteq> SubcallQueryEmbedding \<or> cr_ProviderAudit r \<noteq> None \<or> cr_Usage r = None)) ErrInvalidArgument
      else case cr_ProviderAudit r of None \<Rightarrow> Inl ErrInvalidArgument | Some a \<Rightarrow>
        if \<not> ValidIdentifier (rb_ExpectedResponseModel b) then Inl ErrInvalidArgument
        else if safeIdentity a \<and>
          ((pa_ResponseModel a = Some (rb_ExpectedResponseModel b)) \<noteq> (pa_IdentityState a = ProviderIdentityCompatible)) then Inl ErrInvalidArgument
        else case cr_Usage r of None \<Rightarrow> Inr () | Some u \<Rightarrow>
          ensureE (ReceiptHash parseUUID sha a (rb_PhysicalCallID b) = Inr (ur_ReceiptHash u)) ErrInvalidArgument)"

definition ReportVerify :: "(string \<Rightarrow> string option) \<Rightarrow> (string \<Rightarrow> string) \<Rightarrow> ReportBinding \<Rightarrow> CallReport \<Rightarrow> string \<Rightarrow> RunError + unit" where
  "ReportVerify parseUUID sha b r reportHash =
     (if \<not> isOk (ReportValidate parseUUID sha b r) \<or> \<not> ValidHash reportHash \<or> ReportHash sha b r \<noteq> reportHash
      then Inl ErrInvalidArgument else Inr ())"

text \<open>The stored form of a report: \<open>json.Marshal\<close> is an argument for each type, the bounds are the source's.\<close>

definition ProviderAuditJSON :: "(ProviderAudit \<Rightarrow> string) \<Rightarrow> (string \<Rightarrow> string) \<Rightarrow> ProviderAudit \<Rightarrow> RunError + string" where
  "ProviderAuditJSON marshal sha a = bindE (AuditValidate sha a) (\<lambda>_.
     if length (marshal a) > 2048 then Inl ErrCheckpointTooLarge else Inr (marshal a))"

definition CallReportJSON ::
    "(ProviderAudit \<Rightarrow> string) \<Rightarrow> (CallReport \<Rightarrow> string) \<Rightarrow> (string \<Rightarrow> string) \<Rightarrow> CallReport \<Rightarrow> RunError + string" where
  "CallReportJSON marshalAudit marshal sha r = bindE (validateContent sha r) (\<lambda>_.
     bindE (case cr_ProviderAudit r of None \<Rightarrow> Inr () | Some a \<Rightarrow> bindE (ProviderAuditJSON marshalAudit sha a) (\<lambda>_. Inr ())) (\<lambda>_.
     if length (marshal r) > 8 * 1024 then Inl ErrCheckpointTooLarge else Inr (marshal r)))"

definition ObservationHashV2 ::
    "(string \<Rightarrow> string option) \<Rightarrow> (string \<Rightarrow> string) \<Rightarrow> ObserveCallRequest \<Rightarrow> string \<Rightarrow> RunError + string" where
  "ObservationHashV2 parseUUID sha observation auditHash =
     (if \<not> isOk (ObserveValidate parseUUID sha observation) \<or> (auditHash \<noteq> '''' \<and> \<not> ValidHash auditHash) then Inl ErrInvalidArgument
      else Inr (Fingerprint sha ''jobforge.run.observation.v2'' [oc_TransportOutcome observation, show_int (oc_HTTPStatus observation),
        oc_ErrorCode observation, oc_BusinessOutcome observation,
        (case oc_Usage observation of None \<Rightarrow> '''' | Some u \<Rightarrow> ur_UsageHash u), auditHash]))"

section \<open>The first report\<close>

definition BatchStopMeasurementAnomaly :: string where "BatchStopMeasurementAnomaly = ''MEASUREMENT_ANOMALY''"
definition BatchStopProviderHTTPRejected :: string where "BatchStopProviderHTTPRejected = ''PROVIDER_HTTP_REJECTED''"
definition BatchStopProviderIdentityInvalid :: string where "BatchStopProviderIdentityInvalid = ''PROVIDER_IDENTITY_INVALID''"
definition BatchStopProviderModeInvalid :: string where "BatchStopProviderModeInvalid = ''PROVIDER_MODE_INVALID''"
definition BatchStopChatUsageUnknown :: string where "BatchStopChatUsageUnknown = ''CHAT_USAGE_UNKNOWN''"
definition BatchStopReportConflict :: string where "BatchStopReportConflict = ''REPORT_CONFLICT''"

lemmas batch_stop_defs = BatchStopMeasurementAnomaly_def BatchStopProviderHTTPRejected_def BatchStopProviderIdentityInvalid_def
  BatchStopProviderModeInvalid_def BatchStopChatUsageUnknown_def BatchStopReportConflict_def

record ReportDisposition =
  rd_PriceEligible :: bool
  rd_MeasurementAnomaly :: bool
  rd_UsageKnown :: bool
  rd_KnownTokens :: int
  rd_KnownCostMicroyuan :: int
  rd_Settlement :: string
  rd_BatchStopCode :: string

definition validReportBudget :: "CallBudget \<Rightarrow> bool" where
  "validReportBudget b \<longleftrightarrow>
     list_all (\<lambda>v. \<not> (v < 0 \<or> v > MaxSafeInteger)) [cb_InputTokens b, cb_OutputTokens b, cb_TotalTokens b, cb_CostMicroyuan b] \<and>
     cb_InputTokens b \<le> MaxSafeInteger - cb_OutputTokens b \<and> cb_TotalTokens b = cb_InputTokens b + cb_OutputTokens b"

definition firstAuditStop :: "ReportBinding \<Rightarrow> ProviderAudit \<Rightarrow> bool \<Rightarrow> string" where
  "firstAuditStop b audit priceEligible =
     (if rb_Subcall b \<noteq> SubcallChat then ''''
      else if pa_ResponseComplete audit \<and> pa_HTTPStatus audit \<noteq> 200 then BatchStopProviderHTTPRejected
      else if pa_ResponseComplete audit \<and> pa_HTTPStatus audit = 200 \<and>
        (pa_IdentityState audit = ProviderIdentityIncompatible \<or> pa_IdentityState audit = ProviderIdentityInvalid)
      then BatchStopProviderIdentityInvalid
      else if pa_ModeState audit = ProviderModeUnexpected \<or> pa_ModeState audit = ProviderModeInvalid \<or>
        pa_ReasoningState audit = ReasoningInvalid \<or> (pa_ModeState audit = ProviderModeThinking \<and> \<not> rb_AllowThinking b) \<or>
        (pa_SchemaVersion audit = 2) \<noteq> rb_AllowThinking b then BatchStopProviderModeInvalid
      else if \<not> priceEligible then BatchStopChatUsageUnknown
      else '''')"

text \<open>
  \<open>measured\<close> is the anomaly test and the cost; an incompatible model's counters never reach
  the tariff. The audit of a chat is present after \<open>Validate\<close>; other calls have no stop code.
\<close>

definition measured :: "ReportBinding \<Rightarrow> bool \<Rightarrow> CallBudget \<Rightarrow> Pricing \<Rightarrow> UsageReport \<Rightarrow> RunError + (bool \<times> int)" where
  "measured b priceEligible budget price u =
     (let anomaly = (ur_InputTokens u > cb_InputTokens budget \<or> ur_OutputTokens u > cb_OutputTokens budget \<or>
            ur_InputTokens u > MaxSafeInteger - ur_OutputTokens u \<or> ur_InputTokens u + ur_OutputTokens u > cb_TotalTokens budget \<or>
            (rb_Subcall b = SubcallQueryEmbedding \<and> ur_CachedInputTokens u \<noteq> 0)) in
      if priceEligible \<and> rb_Subcall b = SubcallChat then
        (case UsageCost price u of
           Inl e \<Rightarrow> if e = ErrBudgetExhausted then Inr (True, 0) else Inl e
         | Inr cost \<Rightarrow> Inr (anomaly \<or> cost > cb_CostMicroyuan budget, cost))
      else Inr (anomaly, 0))"

definition priceEligible :: "ReportBinding \<Rightarrow> CallReport \<Rightarrow> bool" where
  "priceEligible b report \<longleftrightarrow> cr_Usage report \<noteq> None \<and> (rb_Subcall b = SubcallQueryEmbedding \<or>
     (case cr_ProviderAudit report of None \<Rightarrow> False | Some a \<Rightarrow> pa_IdentityState a = ProviderIdentityCompatible))"

definition auditStop :: "ReportBinding \<Rightarrow> CallReport \<Rightarrow> bool \<Rightarrow> string" where
  "auditStop b report eligible = (case cr_ProviderAudit report of None \<Rightarrow> '''' | Some a \<Rightarrow> firstAuditStop b a eligible)"

definition FirstReportDisposition ::
    "(string \<Rightarrow> string option) \<Rightarrow> (string \<Rightarrow> string) \<Rightarrow> ReportBinding \<Rightarrow> CallReport \<Rightarrow> CallBudget \<Rightarrow> Pricing \<Rightarrow> RunError + ReportDisposition" where
  "FirstReportDisposition parseUUID sha b report budget price =
     (if \<not> isOk (ReportValidate parseUUID sha b report) \<or> \<not> validReportBudget budget then Inl ErrInvalidArgument
      else case cr_Usage report of
        None \<Rightarrow> Inr \<lparr>rd_PriceEligible = False, rd_MeasurementAnomaly = False, rd_UsageKnown = False, rd_KnownTokens = 0,
                  rd_KnownCostMicroyuan = 0, rd_Settlement = ''recorded'', rd_BatchStopCode = auditStop b report False\<rparr>
      | Some u \<Rightarrow>
        let eligible = priceEligible b report in
        bindE (measured b eligible budget price u) (\<lambda>(anomaly, cost).
          if anomaly then Inr \<lparr>rd_PriceEligible = eligible, rd_MeasurementAnomaly = True, rd_UsageKnown = False, rd_KnownTokens = 0,
              rd_KnownCostMicroyuan = 0, rd_Settlement = ''anomaly'', rd_BatchStopCode = BatchStopMeasurementAnomaly\<rparr>
          else Inr \<lparr>rd_PriceEligible = eligible, rd_MeasurementAnomaly = False, rd_UsageKnown = eligible,
              rd_KnownTokens = (if eligible then ur_InputTokens u + ur_OutputTokens u else 0),
              rd_KnownCostMicroyuan = (if eligible then cost else 0),
              rd_Settlement = (if eligible then ''settled'' else ''recorded''), rd_BatchStopCode = auditStop b report eligible\<rparr>))"

section \<open>What a valid report says\<close>

lemma AuditValidate_complete:
  assumes "isOk (AuditValidate sha a)" and "safeIdentity a \<or> pa_UsageEvidence a = UsageEvidenceComplete"
  shows "pa_ResponseComplete a" "pa_HTTPStatus a = 200" "completeIdentity a" "safeIdentity a" "isOk (validateReasoning a)" "validStates a"
    "pa_ModeState a = ProviderModeThinking \<Longrightarrow> pa_SchemaVersion a = 2" "pa_SchemaVersion a = 1 \<or> pa_SchemaVersion a = 2"
proof -
  have unav: "\<not> unavailableResponse a" using assms(2) by (auto simp: unavailableResponse_def safeIdentity_def)
  from assms(1) have v: "AuditValidate sha a = Inr ()" by (simp add: isOk_iff)
  with unav have c: "pa_ResponseComplete a" "pa_HTTPStatus a = 200"
    by (auto simp: AuditValidate_def ensureE_def split: if_splits)
  with v show "pa_ResponseComplete a" "pa_HTTPStatus a = 200" "validStates a"
    "pa_ModeState a = ProviderModeThinking \<Longrightarrow> pa_SchemaVersion a = 2" "pa_SchemaVersion a = 1 \<or> pa_SchemaVersion a = 2"
    by (auto simp: AuditValidate_def split: if_splits)
  from v c have rest: "\<not> (safeIdentity a \<and> \<not> completeIdentity a)" "\<not> (pa_UsageEvidence a = UsageEvidenceComplete \<and> \<not> safeIdentity a)"
      "validateReasoning a = Inr ()"
    by (auto simp: AuditValidate_def split: if_splits)
  with assms(2) show "safeIdentity a" "completeIdentity a" "isOk (validateReasoning a)" by auto
qed

lemma ReportValidate_chat:
  assumes "isOk (ReportValidate parseUUID sha b r)" and "rb_Subcall b = SubcallChat"
  obtains a where "cr_ProviderAudit r = Some a" "isOk (AuditValidate sha a)"
    "(pa_UsageEvidence a = UsageEvidenceComplete) = (cr_Usage r \<noteq> None)"
    "safeIdentity a \<Longrightarrow> (pa_ResponseModel a = Some (rb_ExpectedResponseModel b)) = (pa_IdentityState a = ProviderIdentityCompatible)"
proof -
  from assms have "ReportValidate parseUUID sha b r = Inr ()" by (simp add: isOk_iff)
  with assms(2) obtain a where a: "cr_ProviderAudit r = Some a" "isOk (validateContent sha r)"
      "\<not> (safeIdentity a \<and> ((pa_ResponseModel a = Some (rb_ExpectedResponseModel b)) \<noteq> (pa_IdentityState a = ProviderIdentityCompatible)))"
    by (auto simp: ReportValidate_def split: if_splits option.splits)
  then have "validateContent sha r = Inr ()" by (simp add: isOk_iff)
  with a(1) have "isOk (AuditValidate sha a)" "(pa_UsageEvidence a = UsageEvidenceComplete) = (cr_Usage r \<noteq> None)"
    by (auto simp: validateContent_def split: if_splits)
  with a that show thesis by blast
qed

text \<open>The counters of a validated report are not negative.\<close>

lemma ReportValidate_usage:
  assumes "isOk (ReportValidate parseUUID sha b r)" and "cr_Usage r = Some u"
  shows "0 \<le> ur_InputTokens u" "0 \<le> ur_OutputTokens u"
proof -
  from assms have "isOk (validateContent sha r)"
    by (auto simp: ReportValidate_def isOk_iff split: if_splits)
  with assms(2) have "isOk (UsageReportValidate sha u)"
    by (auto simp: validateContent_def isOk_iff split: if_splits)
  then show "0 \<le> ur_InputTokens u" "0 \<le> ur_OutputTokens u"
    by (auto simp: UsageReportValidate_def isOk_iff split: if_splits)
qed

lemma UsageCost_nonneg: "UsageCost price u = Inr cost \<Longrightarrow> 0 \<le> cost"
  by (auto simp: UsageCost_def cost_numerator_def Let_def pos_imp_zdiv_nonneg_iff split: if_splits)

lemma measured_bounds:
  assumes "measured b eligible budget price u = Inr (False, cost)" and "validReportBudget budget"
  shows "ur_InputTokens u + ur_OutputTokens u \<le> cb_TotalTokens budget" "cost \<le> cb_CostMicroyuan budget" "0 \<le> cost"
  using assms UsageCost_nonneg [of price u cost]
  by (auto simp: measured_def Let_def validReportBudget_def split: if_splits sum.splits)

lemma FirstReportDisposition_valid:
  assumes "FirstReportDisposition parseUUID sha b r budget price = Inr d"
  shows "isOk (ReportValidate parseUUID sha b r)" "validReportBudget budget"
  using assms by (auto simp: FirstReportDisposition_def split: if_splits)

lemma FirstReportDisposition_cases:
  assumes "FirstReportDisposition parseUUID sha b r budget price = Inr d"
  obtains (recorded) "cr_Usage r = None" "\<not> rd_UsageKnown d" "\<not> rd_MeasurementAnomaly d" "rd_BatchStopCode d = auditStop b r False"
    | (anomaly) u where "cr_Usage r = Some u" "\<not> rd_UsageKnown d" "rd_MeasurementAnomaly d"
      "rd_BatchStopCode d = BatchStopMeasurementAnomaly"
    | (measured) u cost where "cr_Usage r = Some u" "rd_UsageKnown d = priceEligible b r" "\<not> rd_MeasurementAnomaly d"
      "measured b (priceEligible b r) budget price u = Inr (False, cost)"
      "priceEligible b r \<Longrightarrow> rd_KnownTokens d = ur_InputTokens u + ur_OutputTokens u \<and> rd_KnownCostMicroyuan d = cost"
      "rd_BatchStopCode d = auditStop b r (priceEligible b r)"
proof (cases "cr_Usage r")
  case None
  with assms show thesis by (intro recorded) (auto simp: FirstReportDisposition_def split: if_splits)
next
  case (Some u)
  with assms obtain an cost where m: "measured b (priceEligible b r) budget price u = Inr (an, cost)"
    by (auto simp: FirstReportDisposition_def Let_def result_simps split: if_splits)
  show thesis
  proof (cases an)
    case True
    with assms Some m show thesis by (intro anomaly [OF Some]) (auto simp: FirstReportDisposition_def Let_def split: if_splits)
  next
    case False
    with assms Some m show thesis
      by (intro measured [OF Some, of cost]) (auto simp: FirstReportDisposition_def Let_def split: if_splits)
  qed
qed

text \<open>A settled first report stays within its hold.\<close>

lemma disposition_within_hold:
  assumes "FirstReportDisposition parseUUID sha b r budget price = Inr d" and "rd_UsageKnown d"
  shows "\<not> rd_MeasurementAnomaly d" "0 \<le> rd_KnownTokens d" "rd_KnownTokens d \<le> cb_TotalTokens budget"
    "0 \<le> rd_KnownCostMicroyuan d" "rd_KnownCostMicroyuan d \<le> cb_CostMicroyuan budget"
proof -
  note v = FirstReportDisposition_valid [OF assms(1)]
  from assms(1) have "\<not> rd_MeasurementAnomaly d \<and> 0 \<le> rd_KnownTokens d \<and> rd_KnownTokens d \<le> cb_TotalTokens budget \<and>
    0 \<le> rd_KnownCostMicroyuan d \<and> rd_KnownCostMicroyuan d \<le> cb_CostMicroyuan budget"
  proof (cases rule: FirstReportDisposition_cases)
    case (measured u cost)
    with assms(2) measured_bounds [OF measured(4) v(2)] ReportValidate_usage [OF v(1) measured(1)] show ?thesis by simp
  qed (use assms(2) in simp_all)
  then show "\<not> rd_MeasurementAnomaly d" "0 \<le> rd_KnownTokens d" "rd_KnownTokens d \<le> cb_TotalTokens budget"
    "0 \<le> rd_KnownCostMicroyuan d" "rd_KnownCostMicroyuan d \<le> cb_CostMicroyuan budget" by simp_all
qed

lemma batch_stops_nonempty [simp]:
  "BatchStopMeasurementAnomaly \<noteq> ''''" "BatchStopProviderHTTPRejected \<noteq> ''''" "BatchStopProviderIdentityInvalid \<noteq> ''''"
  "BatchStopProviderModeInvalid \<noteq> ''''" "BatchStopChatUsageUnknown \<noteq> ''''" "BatchStopReportConflict \<noteq> ''''"
  by (simp_all add: batch_stop_defs)

section \<open>Properties of the audit\<close>

text \<open>C24.
  The first report of a chat call lets its batch go on exactly when it prices the call: it carries
  usage inside the reservation, from a complete response with status 200 of the model the profile
  expects, in the mode and schema that the step allows. Every other report that is accepted stops
  the batch, and none that is settled exceeds the tokens or the cost that were held.
\<close>

theorem chat_report_continues_batch_iff_priced:
  assumes "FirstReportDisposition parseUUID sha b r budget price = Inr d" and "rb_Subcall b = SubcallChat"
  shows "((rd_BatchStopCode d = '''') \<longleftrightarrow>
      rd_UsageKnown d \<and> (\<exists>a. cr_ProviderAudit r = Some a \<and> pa_ResponseComplete a \<and> pa_HTTPStatus a = 200 \<and>
        pa_ResponseModel a = Some (rb_ExpectedResponseModel b) \<and> pa_SchemaVersion a = (if rb_AllowThinking b then 2 else 1) \<and>
        (pa_ModeState a = ProviderModeNonthinking \<or> pa_ModeState a = ProviderModeThinking))) \<and>
    (rd_UsageKnown d \<longrightarrow> 0 \<le> rd_KnownTokens d \<and> rd_KnownTokens d \<le> cb_TotalTokens budget \<and>
      0 \<le> rd_KnownCostMicroyuan d \<and> rd_KnownCostMicroyuan d \<le> cb_CostMicroyuan budget)"
proof (intro conjI impI)
  note valid = FirstReportDisposition_valid [OF assms(1)]
  obtain a where a: "cr_ProviderAudit r = Some a" "isOk (AuditValidate sha a)"
      "(pa_UsageEvidence a = UsageEvidenceComplete) = (cr_Usage r \<noteq> None)"
      "safeIdentity a \<Longrightarrow> (pa_ResponseModel a = Some (rb_ExpectedResponseModel b)) = (pa_IdentityState a = ProviderIdentityCompatible)"
    using ReportValidate_chat [OF valid(1) assms(2)] by blast
  have stopped: "auditStop b r False \<noteq> ''''" using a(1) assms(2) by (simp add: auditStop_def firstAuditStop_def)
  show "(rd_BatchStopCode d = '''') \<longleftrightarrow>
      rd_UsageKnown d \<and> (\<exists>a. cr_ProviderAudit r = Some a \<and> pa_ResponseComplete a \<and> pa_HTTPStatus a = 200 \<and>
        pa_ResponseModel a = Some (rb_ExpectedResponseModel b) \<and> pa_SchemaVersion a = (if rb_AllowThinking b then 2 else 1) \<and>
        (pa_ModeState a = ProviderModeNonthinking \<or> pa_ModeState a = ProviderModeThinking))"
  proof (cases "rd_UsageKnown d")
    case False
    from assms(1) have "rd_BatchStopCode d \<noteq> ''''"
      by (cases rule: FirstReportDisposition_cases) (use False stopped in auto)
    with False show ?thesis by simp
  next
    case True
    from assms(1) have stop: "rd_BatchStopCode d = firstAuditStop b a True" and elig: "priceEligible b r"
      by (cases rule: FirstReportDisposition_cases; use True a(1) in \<open>simp add: auditStop_def\<close>)+
    then have u: "cr_Usage r \<noteq> None" and id: "pa_IdentityState a = ProviderIdentityCompatible"
      using a(1) assms(2) by (auto simp: priceEligible_def)
    from u a(3) have ev: "pa_UsageEvidence a = UsageEvidenceComplete" by simp
    note v = AuditValidate_complete [OF a(2) disjI2 [OF ev]]
    have reasoning: "pa_ReasoningState a \<noteq> ReasoningInvalid" "pa_ModeState a \<noteq> ProviderModeUnavailable"
      using v(5) ev by (auto simp: validateReasoning_def isOk_iff split: if_splits)
    have mode: "pa_ModeState a \<in> {ProviderModeNonthinking, ProviderModeThinking, ProviderModeUnexpected, ProviderModeInvalid}"
      using v(6) reasoning(2) by (auto simp: validStates_def)
    have model: "pa_ResponseModel a = Some (rb_ExpectedResponseModel b)" using a(4) [OF v(4)] id by simp
    from stop v(1,2) id reasoning mode v(7,8) assms(2) True a(1) model show ?thesis
      by (auto simp: firstAuditStop_def)
  qed
qed (use disposition_within_hold [OF assms(1)] in simp_all)

definition sample_hash :: string where
  "sample_hash = replicate 64 (CHR ''a'')"

lemma sample_hash_valid: "ValidHash sample_hash"
  by code_simp

definition sample_sha :: "string \<Rightarrow> string" where
  "sample_sha _ = sample_hash"

definition sample_binding :: ReportBinding where
  "sample_binding = \<lparr>rb_ExecutionBindingHash = sample_hash, rb_PhysicalCallID = ''c1'',
     rb_ParameterHash = sample_hash, rb_Subcall = SubcallChat, rb_ExpectedResponseModel = ''m'', rb_AllowThinking = False\<rparr>"

definition sample_call_report :: CallReport where
  "sample_call_report = \<lparr>cr_Usage = Some \<lparr>ur_InputTokens = 10, ur_OutputTokens = 5, ur_CachedInputTokens = 4,
       ur_ReceiptHash = sample_hash, ur_UsageHash = sample_hash\<rparr>,
     cr_ProviderAudit = Some \<lparr>pa_SchemaVersion = 1, pa_Provider = ''deepseek'', pa_ResponseComplete = True, pa_HTTPStatus = 200,
       pa_ResponseSHA256 = Some sample_hash, pa_IdentityState = ProviderIdentityCompatible, pa_ResponseID = Some ''r'',
       pa_ResponseModel = Some ''m'', pa_SystemFingerprint = Some ''f'', pa_Created = Some 7, pa_UsageEvidence = UsageEvidenceComplete,
       pa_ReasoningState = ReasoningAbsent, pa_ReasoningTokens = None, pa_ModeState = ProviderModeNonthinking,
       pa_AuditHash = sample_hash\<rparr>\<rparr>"

definition sample_budget :: CallBudget where
  "sample_budget = \<lparr>cb_InputTokens = 20, cb_OutputTokens = 10, cb_TotalTokens = 30, cb_CostMicroyuan = 9\<rparr>"

lemma sample_report_valid: "ReportValidate Some sample_sha sample_binding sample_call_report = Inr ()"
  by (simp add: ReportValidate_def validateContent_def UsageReportValidate_def UsageReportHash_def AuditValidate_def AuditHash_def
      validateReasoning_def ReceiptHash_def Fingerprint_def sample_sha_def sample_binding_def sample_call_report_def
      validStates_def validAuditIdentifier_def validAuditInteger_def safeIdentity_def completeIdentity_def
      sample_hash_valid ValidUUID_def ValidIdentifier_def name_pattern_def alnum_def MaxSafeInteger_def)

theorem chat_report_continues_batch_iff_priced_witness:
  "\<exists>d. FirstReportDisposition Some sample_sha sample_binding sample_call_report sample_budget sample_pricing = Inr d \<and>
     rd_BatchStopCode d = '''' \<and> rd_UsageKnown d \<and> rd_KnownTokens d \<le> 30"
proof -
  define u where "u = the (cr_Usage sample_call_report)"
  have parts: "cr_Usage sample_call_report = Some u" "validReportBudget sample_budget" "priceEligible sample_binding sample_call_report"
    by (simp add: u_def sample_call_report_def, code_simp, code_simp)
  have "measured sample_binding True sample_budget sample_pricing (the (cr_Usage sample_call_report)) = Inr (False, 1)" by code_simp
  with parts have "case FirstReportDisposition Some sample_sha sample_binding sample_call_report sample_budget sample_pricing of
      Inl _ \<Rightarrow> False | Inr d \<Rightarrow> rd_UsageKnown d"
    by (simp add: FirstReportDisposition_def sample_report_valid)
  then obtain d where d: "rd_UsageKnown d"
      "FirstReportDisposition Some sample_sha sample_binding sample_call_report sample_budget sample_pricing = Inr d"
    by (auto split: sum.splits)
  have "rd_BatchStopCode d = '''' \<and> rd_KnownTokens d \<le> cb_TotalTokens sample_budget"
    using chat_report_continues_batch_iff_priced [OF d(2)] d(1) by (simp add: sample_binding_def sample_call_report_def)
  with d show ?thesis by (simp add: sample_budget_def)
qed

end
