(* ===== verification/RunStore.thy ===== *)
theory RunStore
  imports RunAudit "HOL-Library.List_Lexorder" "HOL-Library.Product_Lexorder"
begin

text \<open>
  The PostgreSQL store of Agent Runs (\<open>internal/run/postgres\<close>): Run rows, attempts, execution
  slots and worker sessions with the lifecycle transactions of \<open>lifecycle.go\<close> and
  \<open>session.go\<close>, and what they use of \<open>store.go\<close>, \<open>accounts.go\<close>, \<open>ledger.go\<close> and
  \<open>admission.go\<close>. A transaction maps the database to an error (rolled back) or to its result
  and the committed database; \<open>pgx.ErrNoRows\<close> is \<open>ErrNotFound\<close> as \<open>dbError\<close> has it.

  Arguments are: the deployment \<open>cfg\<close> (with UUID parsing, SHA-256 and JSON encoding); each reading of the database clock; the clock of the
  trigger that stamps the terminal time (\<open>clk\<close>); the rows that other transactions hold locked;
  the audit guard of the batch (\<open>guard\<close>, \<open>provider_audit_guard.go\<close>) and the checkpoint read
  (\<open>loadCheckpoint\<close>, \<open>checkpoint.go\<close>), which only read and may refuse. The budget view that
  accompanies a Run in a response is left out.
\<close>

section \<open>Tables and deployment\<close>

record RunAttempt =
  ra_tenant :: string
  ra_run :: string
  ra_no :: int
  ra_worker :: string
  ra_session :: string
  ra_token :: int
  ra_started :: time
  ra_deadline :: "time option"
  ra_finished :: "time option"
  ra_outcome :: "string option"
  ra_errorCode :: "string option"
  ra_recoveryStep :: "StepIdentity option"
  ra_recoveryOrdinal :: "int option"

record executionSlot =
  sl_Kind :: string
  sl_ID :: string
  sl_Capacity :: int
  sl_Used :: int

record Session =
  se_WorkerID :: string
  se_ID :: string
  se_StartupID :: string
  se_Version :: string
  se_CreatedAt :: time
  se_SeenAt :: time
  se_ExpiresAt :: time

record Operation =
  op_ID :: string
  op_TenantID :: string
  op_Kind :: string
  op_SourceRunID :: string
  op_Scope :: string
  op_Key :: string
  op_RequestHash :: string
  op_ResultRunID :: string
  op_CreatedAt :: time

record RunEvent =
  ev_tenant :: string
  ev_run :: string
  ev_sequence :: int
  ev_type :: string
  ev_state :: State
  ev_attempt :: int
  ev_cursor :: int
  ev_created :: time

text \<open>
  A row of \<open>physical_calls\<close> as \<open>callColumns\<close> reads it: the reservation, the lease it was made
  under, and what was observed, reported and settled. Absent columns that the source reads as an
  empty string or zero (\<open>coalesce\<close>) are that here too.
\<close>

record callRow =
  pc_PhysicalCallID :: string
  pc_ToolInvocationID :: string
  pc_Subcall :: Subcall
  pc_ParameterHash :: string
  pc_PriceHash :: string
  pc_Ordinal :: int
  pc_ReservedAt :: time
  pc_DispatchExpiresAt :: time
  pc_CallDeadline :: time
  pc_TotalTokens :: int
  pc_CostMicroyuan :: int
  pc_Lease :: Lease
  pc_StepID :: string
  pc_StepKind :: string
  pc_Kind :: string
  pc_ProfileHash :: string
  pc_Status :: string
  pc_ObservationHash :: "string option"
  pc_UsageHash :: "string option"
  pc_TransportOutcome :: "string option"
  pc_BusinessOutcome :: "string option"
  pc_MeasurementAnomaly :: bool
  pc_Usage :: "UsageReport option"
  pc_ExecutionBindingHash :: string
  pc_ReportHash :: string
  pc_Report :: "CallReport option"
  pc_ReportRecordedAt :: "time option"
  pc_ReportConflictHash :: "string option"
  pc_HTTPStatus :: "int option"
  pc_ErrorCode :: "string option"
  pc_ObservedAt :: "time option"
  pc_SettledAt :: "time option"
  pc_KnownTokens :: int
  pc_KnownCostMicroyuan :: int

record toolRow =
  tr_ID :: string
  tr_TenantID :: string
  tr_RunID :: string
  tr_StepID :: string
  tr_Name :: string
  tr_InputHash :: string
  tr_AttemptNo :: int
  tr_FencingToken :: int

text \<open>The columns of \<open>action_calls\<close> that closing an attempt touches.\<close>

record CallStatus =
  ax_tenant :: string
  ax_run :: string
  ax_id :: string
  ax_attempt :: int
  ax_status :: string

record budgetRow =
  br_Account :: Account
  br_Key :: string
  br_ValidFrom :: time
  br_ValidUntil :: time

record BusinessRequest =
  bq_ID :: string
  bq_TenantID :: string
  bq_Key :: string
  bq_RequestHash :: string
  bq_RootRunID :: string
  bq_FamilyAccountID :: string
  bq_TenantAccountID :: string
  bq_BatchAccountID :: string
  bq_CreatedAt :: time
  bq_RetryUntil :: time

text \<open>A row of \<open>budget_batch_tenants\<close>: a tenant's account may pay from a batch.\<close>

record BatchTenant =
  bt_BatchAccountID :: string
  bt_TenantID :: string
  bt_TenantAccountID :: string

text \<open>A row of \<open>run_steps\<close>; purging content clears the output.\<close>

record StepRow =
  sr_tenant :: string
  sr_run :: string
  sr_attempt :: int
  sr_ID :: string
  sr_Sequence :: int
  sr_Kind :: string
  sr_InputHash :: string
  sr_ProfileHash :: string
  sr_SnapshotHash :: string
  sr_CommitHash :: string
  sr_OutputRef :: string
  sr_Output :: "string option"
  sr_CursorVersion :: int
  sr_CreatedAt :: time

text \<open>A row of \<open>run_approvals\<close>.\<close>

record ApprovalRow =
  av_tenant :: string
  av_run :: string
  av_Status :: string
  av_ProposalHash :: string
  av_ProposalRef :: string
  av_SnapshotID :: string
  av_SnapshotHash :: string
  av_PermissionExpiresAt :: "time option"
  av_ApprovalID :: "string option"
  av_ActorID :: "string option"
  av_DecidedAt :: "time option"
  av_CreatedAt :: time

text \<open>
  A row of \<open>agent_profiles\<close>: its hash and the decoded definition, \<open>None\<close> when the JSON does
  not decode.
\<close>

record ProfileRow =
  ap_ID :: string
  ap_Hash :: string
  ap_Profile :: "Profile option"

text \<open>
  The database. Columns of \<open>runs\<close> that are written once and read apart from the Run have their
  own list: \<open>admission_hashes\<close> (from admission) and \<open>run_results\<close> (kind and reference).
\<close>

record run_db =
  runs :: "(Run \<times> Authority) list"
  run_attempts :: "RunAttempt list"
  execution_slots :: "executionSlot list"
  worker_sessions :: "Session list"
  run_operations :: "Operation list"
  run_events :: "RunEvent list"
  physical_calls :: "callRow list"
  tool_invocations :: "toolRow list"
  action_calls :: "CallStatus list"
  budget_accounts :: "budgetRow list"
  budget_batch_tenants :: "BatchTenant list"
  business_requests :: "BusinessRequest list"
  agent_profiles :: "ProfileRow list"
  run_steps :: "StepRow list"
  admission_hashes :: "((string \<times> string) \<times> string) list"
  run_results :: "((string \<times> string) \<times> (string \<times> string)) list"
  run_approvals :: "ApprovalRow list"

record WorkerConfig =
  wc_ID :: string
  wc_Tenants :: "string list"
  wc_ProfileIDs :: "string list"
  wc_Capacity :: int

record store_config =
  cfg_profiles :: "(string \<times> Profile) list"
  cfg_workers :: "(string \<times> WorkerConfig) list"
  cfg_tenantCapacity :: int
  cfg_profileCapacity :: int
  cfg_parseUUID :: "string \<Rightarrow> string option"
  cfg_sha :: "string \<Rightarrow> string"
  cfg_marshalAudit :: "ProviderAudit \<Rightarrow> string"
  cfg_marshalReport :: "CallReport \<Rightarrow> string"

section \<open>Rows\<close>

abbreviation runKey :: "string \<Rightarrow> string \<Rightarrow> Run \<times> Authority \<Rightarrow> bool" where
  "runKey tenant i \<equiv> (\<lambda>x. run_TenantID (fst x) = tenant \<and> run_ID (fst x) = i)"

definition lockRun :: "string \<Rightarrow> string \<Rightarrow> run_db \<Rightarrow> RunError + (Run \<times> Authority)" where
  "lockRun tenant i db = (case find_row (runKey tenant i) (runs db) of None \<Rightarrow> Inl ErrNotFound | Some x \<Rightarrow> Inr x)"

text \<open>\<open>saveRun\<close>: the row is replaced; the trigger stamps the first terminal time.\<close>

definition saveRun :: "time \<Rightarrow> Run \<Rightarrow> Authority \<Rightarrow> run_db \<Rightarrow> run_db" where
  "saveRun clk r a db =
     (let r' = (if Terminal (run_State r) \<and> run_TerminalAt r = None then r\<lparr>run_TerminalAt := Some clk\<rparr> else r) in
      db\<lparr>runs := update_where (runKey (run_TenantID r) (run_ID r)) (\<lambda>_. (r', a)) (runs db)\<rparr>)"

definition newEvent :: "Run \<Rightarrow> Authority \<Rightarrow> string \<Rightarrow> time \<Rightarrow> RunEvent" where
  "newEvent r a kind now = \<lparr>ev_tenant = run_TenantID r, ev_run = run_ID r, ev_sequence = au_EventSequence a, ev_type = kind,
     ev_state = run_State r, ev_attempt = run_AttemptNo r, ev_cursor = run_CursorVersion r, ev_created = now\<rparr>"

definition appendEvent :: "Run \<Rightarrow> Authority \<Rightarrow> string \<Rightarrow> time \<Rightarrow> run_db \<Rightarrow> RunError + (Authority \<times> run_db)" where
  "appendEvent r a kind now db =
     (if au_EventSequence a \<ge> MaxSafeInteger then Inl ErrInternal
      else let a' = a\<lparr>au_EventSequence := au_EventSequence a + 1\<rparr> in
        Inr (a', db\<lparr>run_events := run_events db @ [newEvent r a' kind now]\<rparr>))"

text \<open>Every transaction that changes a Run ends with an event and the save.\<close>

definition recordRun :: "time \<Rightarrow> Run \<Rightarrow> Authority \<Rightarrow> string \<Rightarrow> time \<Rightarrow> run_db \<Rightarrow> RunError + run_db" where
  "recordRun clk r a kind now db = bindE (appendEvent r a kind now db) (\<lambda>(a', db1). Inr (saveRun clk r a' db1))"

definition loadAccounts :: "string \<Rightarrow> string \<Rightarrow> run_db \<Rightarrow> RunError + budgetRow list" where
  "loadAccounts tenant businessID db =
     (case find_row (\<lambda>b. bq_TenantID b = tenant \<and> bq_ID b = businessID) (business_requests db) of
        None \<Rightarrow> Inl ErrNotFound
      | Some b \<Rightarrow>
        (let account = (\<lambda>i scope. case find_row (\<lambda>x. ac_ID (br_Account x) = i) (budget_accounts db) of
               None \<Rightarrow> Inl ErrNotFound
             | Some x \<Rightarrow> if ac_Scope (br_Account x) \<noteq> scope then Inl ErrInternal else Inr x) in
         bindE (account (bq_FamilyAccountID b) ''family'') (\<lambda>family.
         bindE (account (bq_TenantAccountID b) ''tenant'') (\<lambda>tenantAccount.
         bindE (account (bq_BatchAccountID b) ''batch'') (\<lambda>batch. Inr [family, tenantAccount, batch])))))"

definition accountsAvailable :: "budgetRow list \<Rightarrow> time \<Rightarrow> RunError + unit" where
  "accountsAvailable accounts now =
     (if list_ex (\<lambda>b. now < br_ValidFrom b \<or> \<not> br_ValidUntil b > now \<or> ac_Frozen (br_Account b)) accounts
      then Inl ErrBudgetExhausted else Inr ())"

definition ledgerProfile :: "store_config \<Rightarrow> Run \<Rightarrow> bool \<Rightarrow> run_db \<Rightarrow> RunError + Profile" where
  "ledgerProfile cfg r executable db =
     (case find_row (\<lambda>p. ap_ID p = run_ProfileID r) (agent_profiles db) of
        None \<Rightarrow> Inl ErrProfileUnavailable
      | Some row \<Rightarrow> (case ap_Profile row of
          None \<Rightarrow> Inl ErrProfileUnavailable
        | Some p \<Rightarrow>
          if \<not> isOk (ValidateAuditPolicy p) \<or> pf_ID p \<noteq> run_ProfileID r \<or> ap_Hash row \<noteq> run_ProfileHash r \<or> pf_Hash p \<noteq> ap_Hash row \<or>
             \<not> ValidHash (pr_Hash (pf_Pricing p)) then Inl ErrProfileUnavailable
          else if executable \<and> (case map_of (cfg_profiles cfg) (run_ProfileID r) of None \<Rightarrow> True
              | Some registered \<Rightarrow> \<not> pf_Executable registered \<or> pf_Hash registered \<noteq> pf_Hash p)
          then Inl ErrProfileUnavailable
          else Inr p))"

section \<open>Sessions\<close>

definition sessionTTL :: duration where "sessionTTL = 60 * Second"

abbreviation sessionKey :: "string \<Rightarrow> string \<Rightarrow> Session \<Rightarrow> bool" where
  "sessionKey w s \<equiv> (\<lambda>x. se_WorkerID x = w \<and> se_ID x = s)"

definition checkExecutorVersion :: "store_config \<Rightarrow> string \<Rightarrow> string \<Rightarrow> RunError + unit" where
  "checkExecutorVersion cfg caller version =
     (if version = ''linux-v2-ack-runtime-1'' then Inl ErrProfileUnavailable
      else if list_ex (\<lambda>i. case map_of (cfg_profiles cfg) i of None \<Rightarrow> True | Some p \<Rightarrow> pf_ExecutorVersion p \<noteq> version)
        (case map_of (cfg_workers cfg) caller of None \<Rightarrow> [] | Some w \<Rightarrow> wc_ProfileIDs w)
      then Inl ErrProfileUnavailable else Inr ())"

definition checkSession ::
    "store_config \<Rightarrow> string \<Rightarrow> string \<Rightarrow> string \<Rightarrow> string \<Rightarrow> string \<Rightarrow> time \<Rightarrow> bool \<Rightarrow> run_db \<Rightarrow> RunError + unit" where
  "checkSession cfg caller workerID sessionID tenant profileID now requireLive db =
     (case map_of (cfg_workers cfg) caller of
        None \<Rightarrow> Inl ErrForbidden
      | Some worker \<Rightarrow>
        if caller \<noteq> workerID \<or> (tenant \<noteq> '''' \<and> tenant \<notin> set (wc_Tenants worker)) then Inl ErrForbidden
        else if requireLive \<and> profileID \<noteq> '''' \<and> profileID \<notin> set (wc_ProfileIDs worker) then Inl ErrProfileUnavailable
        else (case find_row (sessionKey workerID sessionID) (worker_sessions db) of
          None \<Rightarrow> Inl ErrStaleLease
        | Some s \<Rightarrow>
          if requireLive \<and> \<not> se_ExpiresAt s > now then Inl ErrStaleLease
          else if requireLive then checkExecutorVersion cfg caller (se_Version s) else Inr ()))"

text \<open>\<open>newID\<close> is the session id that \<open>uuid.NewString\<close> returns.\<close>

definition Register :: "store_config \<Rightarrow> string \<Rightarrow> string \<Rightarrow> string \<Rightarrow> string \<Rightarrow> time \<Rightarrow> run_db \<Rightarrow> RunError + (Session \<times> run_db)" where
  "Register cfg newID caller startupID version now db =
     (if map_of (cfg_workers cfg) caller = None then Inl ErrForbidden
      else if \<not> ValidUUID (cfg_parseUUID cfg) startupID \<or> \<not> ValidIdentifier version then Inl ErrInvalidArgument
      else case find_row (\<lambda>x. se_WorkerID x = caller \<and> se_StartupID x = startupID) (worker_sessions db) of
        Some previous \<Rightarrow>
          if se_Version previous \<noteq> version then Inl ErrConflict
          else if \<not> se_ExpiresAt previous > now then Inl ErrStaleLease
          else bindE (checkExecutorVersion cfg caller version) (\<lambda>_. Inr (previous, db))
      | None \<Rightarrow>
          if list_ex (\<lambda>x. se_WorkerID x = caller \<and> se_ExpiresAt x > now) (worker_sessions db) then Inl ErrConflict
          else bindE (checkExecutorVersion cfg caller version) (\<lambda>_.
            let session = \<lparr>se_WorkerID = caller, se_ID = newID, se_StartupID = startupID, se_Version = version,
                  se_CreatedAt = now, se_SeenAt = now, se_ExpiresAt = now + sessionTTL\<rparr> in
            if list_ex (\<lambda>x. se_ID x = newID) (worker_sessions db) then Inl ErrConflict
            else Inr (session, db\<lparr>worker_sessions := worker_sessions db @ [session]\<rparr>)))"

definition renewSession :: "string \<Rightarrow> string \<Rightarrow> time \<Rightarrow> run_db \<Rightarrow> run_db" where
  "renewSession w s now db = db\<lparr>worker_sessions := update_where (sessionKey w s)
     (\<lambda>x. x\<lparr>se_SeenAt := now, se_ExpiresAt := now + sessionTTL\<rparr>) (worker_sessions db)\<rparr>"

definition HeartbeatSession :: "store_config \<Rightarrow> string \<Rightarrow> string \<Rightarrow> string \<Rightarrow> time \<Rightarrow> run_db \<Rightarrow> RunError + (Session \<times> run_db)" where
  "HeartbeatSession cfg caller workerID sessionID now db =
     (if caller \<noteq> workerID \<or> \<not> ValidUUID (cfg_parseUUID cfg) sessionID then Inl ErrUnauthorized
      else if map_of (cfg_workers cfg) caller = None then Inl ErrForbidden
      else case find_row (sessionKey workerID sessionID) (worker_sessions db) of
        None \<Rightarrow> Inl ErrNotFound
      | Some s \<Rightarrow>
        if \<not> se_ExpiresAt s > now then Inl ErrStaleLease
        else Inr (s\<lparr>se_SeenAt := now, se_ExpiresAt := now + sessionTTL\<rparr>, renewSession workerID sessionID now db))"

section \<open>Slots\<close>

abbreviation slotKey :: "string \<times> string \<Rightarrow> executionSlot \<Rightarrow> bool" where
  "slotKey k \<equiv> (\<lambda>s. (sl_Kind s, sl_ID s) = k)"

definition slotKeys :: "Run \<Rightarrow> string \<Rightarrow> (string \<times> string) list" where
  "slotKeys r worker = [(''worker'', worker), (''tenant'', run_TenantID r), (''profile'', run_ProfileID r)]"

text \<open>One row of \<open>lockSlots\<close>: with a capacity, a missing row is inserted and the capacity compared.\<close>

definition lockSlot :: "string \<times> string \<Rightarrow> int option \<Rightarrow> run_db \<Rightarrow> RunError + (executionSlot \<times> run_db)" where
  "lockSlot k capacity db =
     (let db1 = (case capacity of None \<Rightarrow> db | Some c \<Rightarrow>
            if list_ex (slotKey k) (execution_slots db) then db
            else db\<lparr>execution_slots := execution_slots db @ [\<lparr>sl_Kind = fst k, sl_ID = snd k, sl_Capacity = c, sl_Used = 0\<rparr>]\<rparr>) in
      case find_row (slotKey k) (execution_slots db1) of
        None \<Rightarrow> Inl ErrNotFound
      | Some s \<Rightarrow> if capacity \<noteq> None \<and> capacity \<noteq> Some (sl_Capacity s) then Inl ErrConflict else Inr (s, db1))"

fun lockSlots :: "(string \<times> string) list \<Rightarrow> int option list \<Rightarrow> run_db \<Rightarrow> RunError + (executionSlot list \<times> run_db)" where
  "lockSlots (k # ks) (c # cs) db = bindE (lockSlot k c db) (\<lambda>(s, db1).
     bindE (lockSlots ks cs db1) (\<lambda>(ss, db2). Inr (s # ss, db2)))"
| "lockSlots _ _ db = Inr ([], db)"

fun saveSlots :: "executionSlot list \<Rightarrow> int \<Rightarrow> run_db \<Rightarrow> RunError + run_db" where
  "saveSlots [] delta db = Inr db"
| "saveSlots (s # ss) delta db =
     (let used = sl_Used s + delta in
      if used < 0 \<or> used > sl_Capacity s then Inl ErrInternal
      else saveSlots ss delta (db\<lparr>execution_slots := update_where (slotKey (sl_Kind s, sl_ID s))
        (\<lambda>x. x\<lparr>sl_Used := used\<rparr>) (execution_slots db)\<rparr>))"

section \<open>Closing an attempt\<close>

abbreviation attemptKey :: "Run \<Rightarrow> int \<Rightarrow> RunAttempt \<Rightarrow> bool" where
  "attemptKey r n \<equiv> (\<lambda>x. ra_tenant x = run_TenantID r \<and> ra_run x = run_ID r \<and> ra_no x = n)"

abbreviation callKey :: "Run \<Rightarrow> string \<Rightarrow> callRow \<Rightarrow> bool" where
  "callKey r i \<equiv> (\<lambda>c. ls_TenantID (pc_Lease c) = run_TenantID r \<and> ls_RunID (pc_Lease c) = run_ID r \<and> pc_PhysicalCallID c = i)"

record attemptResources =
  ar_Authority :: Authority
  ar_AttemptNo :: int
  ar_Slots :: "executionSlot list"
  ar_RecoveryStep :: "StepIdentity option"

text \<open>
  \<open>lockAttemptResources\<close>: the active call belongs to the attempt, the attempt record is open
  and its identity is the current authority. (Locking the action calls changes nothing.)
\<close>

definition lockAttemptResources :: "Run \<Rightarrow> Authority \<Rightarrow> run_db \<Rightarrow> RunError + attemptResources" where
  "lockAttemptResources r a db =
     (if au_WorkerID a = '''' \<or> au_SessionID a = '''' \<or> run_AttemptNo r < 1 then Inl ErrStaleLease
      else bindE (case au_ActiveCallID a of None \<Rightarrow> Inr ()
         | Some i \<Rightarrow> (case find_row (callKey r i) (physical_calls db) of
             None \<Rightarrow> Inl ErrNotFound
           | Some c \<Rightarrow> if ls_AttemptNo (pc_Lease c) \<noteq> run_AttemptNo r then Inl ErrInternal else Inr ())) (\<lambda>_.
      case find_row (attemptKey r (run_AttemptNo r)) (run_attempts db) of
        None \<Rightarrow> Inl ErrNotFound
      | Some x \<Rightarrow>
        if ra_worker x \<noteq> au_WorkerID a \<or> ra_session x \<noteq> au_SessionID a \<or> ra_token x \<noteq> au_FencingToken a \<or>
           ra_finished x \<noteq> None then Inl ErrStaleLease
        else bindE (lockSlots (slotKeys r (au_WorkerID a)) [None, None, None] db) (\<lambda>(ss, _).
          Inr \<lparr>ar_Authority = a, ar_AttemptNo = run_AttemptNo r, ar_Slots = ss, ar_RecoveryStep = None\<rparr>)))"

definition lockClosingAttemptResources :: "store_config \<Rightarrow> Run \<Rightarrow> Authority \<Rightarrow> run_db \<Rightarrow> RunError + attemptResources" where
  "lockClosingAttemptResources cfg r a db =
     bindE (ledgerProfile cfg r False db) (\<lambda>profile.
       if pf_ConfirmedStepRecovery profile then
         bindE (loadAccounts (run_TenantID r) (run_BusinessRequestID r) db) (\<lambda>_.
         bindE (lockAttemptResources r a db) (\<lambda>res.
         bindE (CheckStep (cfg_parseUUID cfg) r a (PendingStep r a)) (\<lambda>_.
           Inr (res\<lparr>ar_RecoveryStep := Some (PendingStep r a)\<rparr>))))
       else lockAttemptResources r a db)"

definition markUnknown :: "callRow \<Rightarrow> callRow" where
  "markUnknown c = (if pc_Status c = ''reserved'' then c\<lparr>pc_Status := ''unknown''\<rparr> else c)"

text \<open>The recovery evidence that goes with the closure, \<open>None\<close> for an inconsistent count.\<close>

definition recoveryEvidence :: "Run \<Rightarrow> attemptResources \<Rightarrow> string \<Rightarrow> RunError + (StepIdentity option \<times> int option)" where
  "recoveryEvidence r res outcome =
     (if ar_RecoveryStep res \<noteq> None \<and>
         (case run_Error r of None \<Rightarrow> False | Some f \<Rightarrow> RecoveryClosure outcome (fl_Code f)) then
        if run_RecoveryCount r < 1 \<or> run_RecoveryCount r > MaxRecoveries then Inl ErrInternal
        else Inr (ar_RecoveryStep res, Some (run_RecoveryCount r))
      else Inr (None, None))"

definition closedAttempt :: "time \<Rightarrow> string \<Rightarrow> Run \<Rightarrow> StepIdentity option \<Rightarrow> int option \<Rightarrow> RunAttempt \<Rightarrow> RunAttempt" where
  "closedAttempt now outcome r step ordinal x = x\<lparr>ra_finished := Some now, ra_outcome := Some outcome,
     ra_errorCode := map_option fl_Code (run_Error r), ra_recoveryStep := step, ra_recoveryOrdinal := ordinal\<rparr>"

text \<open>The calls of the attempt whose outcome nobody will report any more become unknown.\<close>

definition markCalls :: "Run \<Rightarrow> attemptResources \<Rightarrow> run_db \<Rightarrow> run_db" where
  "markCalls r res db =
     (let db1 = (case au_ActiveCallID (ar_Authority res) of None \<Rightarrow> db | Some i \<Rightarrow>
            db\<lparr>physical_calls := update_where (\<lambda>c. callKey r i c \<and> ls_AttemptNo (pc_Lease c) = ar_AttemptNo res) markUnknown (physical_calls db)\<rparr>) in
      if au_NextStepKind (ar_Authority res) = ''apply_ticket_resolution''
      then db1\<lparr>action_calls := update_where (\<lambda>c. ax_tenant c = run_TenantID r \<and> ax_run c = run_ID r \<and>
          ax_attempt c = ar_AttemptNo res \<and> ax_status c = ''reserved'') (\<lambda>c. c\<lparr>ax_status := ''unknown''\<rparr>) (action_calls db1)\<rparr>
      else db1)"

definition closeAttemptRecords ::
    "Run \<Rightarrow> Authority \<Rightarrow> attemptResources \<Rightarrow> string \<Rightarrow> time \<Rightarrow> run_db \<Rightarrow> RunError + (Run \<times> Authority \<times> run_db)" where
  "closeAttemptRecords r a res outcome now db =
     (if run_AttemptNo r \<noteq> ar_AttemptNo res \<or> au_FencingToken a \<noteq> au_FencingToken (ar_Authority res) then Inl ErrStaleLease
      else let db1 = markCalls r res db in
      bindE (recoveryEvidence r res outcome) (\<lambda>(step, ordinal).
      let open = (\<lambda>x. attemptKey r (ar_AttemptNo res) x \<and> ra_finished x = None) in
      if \<not> list_ex open (run_attempts db1) then Inl ErrStaleLease
      else let db2 = db1\<lparr>run_attempts := update_where open (closedAttempt now outcome r step ordinal) (run_attempts db1)\<rparr> in
      bindE (saveSlots (ar_Slots res) (- 1) db2) (\<lambda>db3.
        Inr (r\<lparr>run_LeaseUntil := None, run_AttemptDeadline := None\<rparr>,
             a\<lparr>au_WorkerID := '''', au_SessionID := '''', au_ActiveCallID := None\<rparr>, db3))))"

text \<open>The end that failing, acknowledging a stop and sweeping share.\<close>

definition closeRun :: "time \<Rightarrow> Run \<Rightarrow> Authority \<Rightarrow> attemptResources \<Rightarrow> string \<Rightarrow> time \<Rightarrow> run_db \<Rightarrow> RunError + (string \<times> run_db)" where
  "closeRun clk r a res reason now db =
     bindE (CloseAttempt r a reason now) (\<lambda>(outcome, r1, a1).
     bindE (closeAttemptRecords r1 a1 res outcome now db) (\<lambda>(r2, a2, db1).
     bindE (recordRun clk r2 a2 ''attempt_closed'' now db1) (\<lambda>db2. Inr (outcome, db2))))"

section \<open>Claim\<close>

definition slotFull :: "string \<times> string \<Rightarrow> run_db \<Rightarrow> bool" where
  "slotFull k db = list_ex (\<lambda>s. slotKey k s \<and> sl_Used s \<ge> sl_Capacity s) (execution_slots db)"

definition claimableRun ::
    "(string \<Rightarrow> bool) \<Rightarrow> WorkerConfig \<Rightarrow> string list \<Rightarrow> string list \<Rightarrow> string \<Rightarrow> run_db \<Rightarrow> Run \<times> Authority \<Rightarrow> bool" where
  "claimableRun locked worker profiles actionProfiles caller db x \<longleftrightarrow> (case x of (r, a) \<Rightarrow>
     run_State r = Ready \<and> run_TenantID r \<in> set (wc_Tenants worker) \<and>
     (run_ProfileID r \<in> set profiles \<or>
      au_NextStepKind a = ''apply_ticket_resolution'' \<and> run_ProfileID r \<in> set actionProfiles) \<and>
     \<not> slotFull (''worker'', caller) db \<and> \<not> slotFull (''tenant'', run_TenantID r) db \<and>
     \<not> slotFull (''profile'', run_ProfileID r) db \<and> \<not> locked (run_ID r))"

definition claimCandidate ::
    "(string \<Rightarrow> bool) \<Rightarrow> WorkerConfig \<Rightarrow> string list \<Rightarrow> string list \<Rightarrow> string \<Rightarrow> run_db \<Rightarrow> (Run \<times> Authority) option" where
  "claimCandidate locked worker profiles actionProfiles caller db =
     (case sort_key (\<lambda>x. (run_CreatedAt (fst x), run_ID (fst x)))
        (filter (claimableRun locked worker profiles actionProfiles caller db) (runs db)) of
        [] \<Rightarrow> None | x # _ \<Rightarrow> Some x)"

text \<open>The Run deadline has passed before the lease could be granted: the Run fails instead.\<close>

definition expireAtClaim :: "time \<Rightarrow> Run \<Rightarrow> Authority \<Rightarrow> time \<Rightarrow> run_db \<Rightarrow> RunError + run_db" where
  "expireAtClaim clk r a now db = bindE (ExpireWaiting r now) (\<lambda>r1. recordRun clk r1 a ''deadline_exceeded'' now db)"

definition newAttempt :: "Run \<Rightarrow> Authority \<Rightarrow> string \<Rightarrow> string \<Rightarrow> time \<Rightarrow> RunAttempt" where
  "newAttempt r a caller sessionID now = \<lparr>ra_tenant = run_TenantID r, ra_run = run_ID r, ra_no = run_AttemptNo r,
     ra_worker = caller, ra_session = sessionID, ra_token = au_FencingToken a, ra_started = now,
     ra_deadline = run_AttemptDeadline r, ra_finished = None, ra_outcome = None, ra_errorCode = None,
     ra_recoveryStep = None, ra_recoveryOrdinal = None\<rparr>"

text \<open>The grant: the new lease, its attempt record, the slots and the event.\<close>

definition grantLease ::
    "time \<Rightarrow> Run \<Rightarrow> Authority \<Rightarrow> executionSlot list \<Rightarrow> string \<Rightarrow> string \<Rightarrow> time \<Rightarrow> run_db \<Rightarrow> RunError + (Lease \<times> Run \<times> Authority \<times> run_db)" where
  "grantLease clk r a ss caller sessionID now db =
     bindE (ClaimExecution r a caller sessionID now) (\<lambda>(lease, r1, a1).
     if list_ex (attemptKey r1 (run_AttemptNo r1)) (run_attempts db) then Inl ErrConflict
     else bindE (saveSlots ss 1 (db\<lparr>run_attempts := run_attempts db @ [newAttempt r1 a1 caller sessionID now]\<rparr>)) (\<lambda>db1.
     bindE (recordRun clk r1 a1 ''claimed'' now db1) (\<lambda>db2. Inr (lease, r1, a1, db2))))"

text \<open>What \<open>Claim\<close> does with the locked candidate, and the profiles it may take.\<close>

definition claimRow ::
    "store_config \<Rightarrow> (run_db \<Rightarrow> string \<Rightarrow> Profile \<Rightarrow> Run \<Rightarrow> Authority \<Rightarrow> time \<Rightarrow> RunError + unit) \<Rightarrow>
     (run_db \<Rightarrow> Run \<Rightarrow> Authority \<Rightarrow> RunError + 'c) \<Rightarrow> WorkerConfig \<Rightarrow> string \<Rightarrow> string \<Rightarrow> time \<Rightarrow> time \<Rightarrow> time \<Rightarrow>
     Run \<Rightarrow> Authority \<Rightarrow> run_db \<Rightarrow> RunError + ((Lease \<times> 'c \<times> time) option \<times> run_db)" where
  "claimRow cfg guard loadCheckpoint worker caller sessionID now2 now3 clk r a db =
     (let actionStep = (au_NextStepKind a = ''apply_ticket_resolution'') in
      bindE (loadAccounts (run_TenantID r) (run_BusinessRequestID r) db) (\<lambda>accounts.
      bindE (lockSlots (slotKeys r caller)
         [Some (wc_Capacity worker), Some (cfg_tenantCapacity cfg), Some (cfg_profileCapacity cfg)] db) (\<lambda>(ss, db1).
      bindE (checkSession cfg caller caller sessionID (run_TenantID r) (run_ProfileID r) now2 True db1) (\<lambda>_.
      bindE (ledgerProfile cfg r (\<not> actionStep) db1) (\<lambda>profile.
      if \<not> run_RunDeadline r > now2 then bindE (expireAtClaim clk r a now2 db1) (\<lambda>db2. Inr (None, db2))
      else bindE (if actionStep then ensureE (pf_ApprovalEnabled profile) ErrProfileUnavailable
         else bindE (accountsAvailable accounts now2) (\<lambda>_.
           guard db1 (ac_ID (br_Account (accounts ! 2))) profile r a now2)) (\<lambda>_.
      bindE (checkSession cfg caller caller sessionID (run_TenantID r) (run_ProfileID r) now3 True db1) (\<lambda>_.
      if \<not> run_RunDeadline r > now3 then bindE (expireAtClaim clk r a now3 db1) (\<lambda>db2. Inr (None, db2))
      else bindE (if actionStep then Inr () else accountsAvailable accounts now3) (\<lambda>_.
      if list_ex (\<lambda>s. sl_Used s \<ge> sl_Capacity s) ss then Inr (None, db1)
      else bindE (grantLease clk r a ss caller sessionID now3 db1) (\<lambda>(lease, r1, a1, db2).
      bindE (loadCheckpoint db2 r1 a1) (\<lambda>checkpoint.
        Inr (Some (lease, checkpoint, now3), db2)))))))))))"

definition claimProfiles :: "store_config \<Rightarrow> (Profile \<Rightarrow> bool) \<Rightarrow> WorkerConfig \<Rightarrow> string list" where
  "claimProfiles cfg can worker =
     filter (\<lambda>i. case map_of (cfg_profiles cfg) i of None \<Rightarrow> False | Some p \<Rightarrow> can p) (wc_ProfileIDs worker)"

definition StoreClaimRun ::
    "store_config \<Rightarrow> (string \<Rightarrow> bool) \<Rightarrow> (run_db \<Rightarrow> string \<Rightarrow> Profile \<Rightarrow> Run \<Rightarrow> Authority \<Rightarrow> time \<Rightarrow> RunError + unit) \<Rightarrow>
     (run_db \<Rightarrow> Run \<Rightarrow> Authority \<Rightarrow> RunError + 'c) \<Rightarrow> string \<Rightarrow> string \<Rightarrow> time \<Rightarrow> time \<Rightarrow> time \<Rightarrow> time \<Rightarrow> run_db \<Rightarrow>
     RunError + ((Lease \<times> 'c \<times> time) option \<times> run_db)" where
  "StoreClaimRun cfg locked guard loadCheckpoint caller sessionID now1 now2 now3 clk db =
     (case map_of (cfg_workers cfg) caller of
        None \<Rightarrow> Inl ErrForbidden
      | Some worker \<Rightarrow>
        if \<not> ValidUUID (cfg_parseUUID cfg) sessionID then Inl ErrInvalidArgument
        else let profiles = claimProfiles cfg pf_Executable worker; actionProfiles = claimProfiles cfg pf_ApprovalEnabled worker in
        bindE (checkSession cfg caller caller sessionID '''' '''' now1 True db) (\<lambda>_.
        if profiles = [] \<and> actionProfiles = [] then Inr (None, db)
        else case claimCandidate locked worker profiles actionProfiles caller db of
          None \<Rightarrow> Inr (None, db)
        | Some (r, a) \<Rightarrow> claimRow cfg guard loadCheckpoint worker caller sessionID now2 now3 clk r a db))"

section \<open>Execution control\<close>

definition sameAttempt :: "Run \<Rightarrow> Authority \<Rightarrow> Lease \<Rightarrow> bool" where
  "sameAttempt r a lease \<longleftrightarrow> run_TenantID r = ls_TenantID lease \<and> run_ID r = ls_RunID lease \<and>
     run_AttemptNo r = ls_AttemptNo lease \<and> au_WorkerID a = ls_WorkerID lease \<and> au_SessionID a = ls_SessionID lease \<and>
     au_FencingToken a = ls_FencingToken lease \<and> au_WorkerID a \<noteq> '''' \<and> au_SessionID a \<noteq> ''''"

definition validateLedgerLease :: "store_config \<Rightarrow> Lease \<Rightarrow> bool" where
  "validateLedgerLease cfg lease \<longleftrightarrow> ValidIdentifier (ls_TenantID lease) \<and> ValidIdentifier (ls_WorkerID lease) \<and>
     ValidUUID (cfg_parseUUID cfg) (ls_RunID lease) \<and> ValidUUID (cfg_parseUUID cfg) (ls_SessionID lease) \<and>
     \<not> (ls_AttemptNo lease < 1 \<or> ls_AttemptNo lease > MaxSafeInteger \<or> ls_FencingToken lease < 1 \<or>
        ls_FencingToken lease > MaxSafeInteger)"

definition ledgerExecution ::
    "store_config \<Rightarrow> string \<Rightarrow> Run \<Rightarrow> Authority \<Rightarrow> Lease \<Rightarrow> StepIdentity \<Rightarrow> time \<Rightarrow> run_db \<Rightarrow> RunError + unit" where
  "ledgerExecution cfg caller r a lease step now db =
     bindE (checkSession cfg caller (ls_WorkerID lease) (ls_SessionID lease) (run_TenantID r) (run_ProfileID r) now True db) (\<lambda>_.
     bindE (CheckExecution r a lease now) (\<lambda>_. CheckStep (cfg_parseUUID cfg) r a step))"

record RunHeartbeatResult =
  hr_Continue :: bool
  hr_LeaseUntil :: time
  hr_SessionExpiresAt :: time
  hr_StopReason :: string
  hr_AuthorityObservedAt :: time

text \<open>A running Run whose deadline or attempt has run out is asked to stop.\<close>

definition stopIfDue :: "Run \<Rightarrow> time \<Rightarrow> RunError + Run" where
  "stopIfDue r now =
     (if run_State r = Running then
        if \<not> run_RunDeadline r > now then RequestStop r StopRunDeadline now
        else if run_AttemptDeadline r \<noteq> None \<and> \<not> afterNow (run_AttemptDeadline r) now
        then RequestStop r StopAttemptTimeout now
        else Inr r
      else Inr r)"

text \<open>The heartbeat of the locked Run: a stop order for one that stops, a renewed lease for one that runs.\<close>

definition heartbeatRun ::
    "store_config \<Rightarrow> string \<Rightarrow> Lease \<Rightarrow> time \<Rightarrow> time \<Rightarrow> Run \<Rightarrow> Authority \<Rightarrow> run_db \<Rightarrow> RunError + (bool \<times> time \<times> string \<times> run_db)" where
  "heartbeatRun cfg caller lease now clk r a db = bindE (stopIfDue r now) (\<lambda>r1.
     if run_State r1 = Stopping then
       (case (run_StopReason r1, run_LeaseUntil r1) of
          (Some reason, Some until) \<Rightarrow>
            bindE (if run_State r \<noteq> run_State r1 then recordRun clk r1 a ''stop_requested'' now db else Inr db) (\<lambda>db1.
              Inr (False, until, if run_CancelRequestedAt r1 \<noteq> None then StopCancel else reason, db1))
        | _ \<Rightarrow> Inl ErrInternal)
     else
       bindE (checkSession cfg caller (ls_WorkerID lease) (ls_SessionID lease) (run_TenantID r1) (run_ProfileID r1) now True db) (\<lambda>_.
       bindE (Heartbeat r1 a lease now) (\<lambda>r2.
         Inr (True, the (run_LeaseUntil r2), '''', saveRun clk r2 a db))))"

definition HeartbeatExecution :: "store_config \<Rightarrow> string \<Rightarrow> Lease \<Rightarrow> time \<Rightarrow> time \<Rightarrow> run_db \<Rightarrow> RunError + (RunHeartbeatResult \<times> run_db)" where
  "HeartbeatExecution cfg caller lease now clk db =
     (if \<not> validateLedgerLease cfg lease then Inl ErrInvalidArgument
      else if caller \<noteq> ls_WorkerID lease then Inl ErrForbidden
      else bindE (lockRun (ls_TenantID lease) (ls_RunID lease) db) (\<lambda>(r, a).
      if \<not> sameAttempt r a lease \<or> (run_State r \<noteq> Running \<and> run_State r \<noteq> Stopping) then Inl ErrStaleLease
      else case find_row (sessionKey caller (ls_SessionID lease)) (worker_sessions db) of
        None \<Rightarrow> Inl ErrNotFound
      | Some session \<Rightarrow>
        bindE (checkSession cfg caller (ls_WorkerID lease) (ls_SessionID lease) (run_TenantID r) (run_ProfileID r) now False db) (\<lambda>_.
        bindE (heartbeatRun cfg caller lease now clk r a db) (\<lambda>(continue, until, reason, db1).
        if se_ExpiresAt session > now
        then Inr (\<lparr>hr_Continue = continue, hr_LeaseUntil = until, hr_SessionExpiresAt = now + sessionTTL,
               hr_StopReason = reason, hr_AuthorityObservedAt = now\<rparr>, renewSession caller (ls_SessionID lease) now db1)
        else Inr (\<lparr>hr_Continue = continue, hr_LeaseUntil = until, hr_SessionExpiresAt = se_ExpiresAt session,
               hr_StopReason = reason, hr_AuthorityObservedAt = now\<rparr>, db1)))))"

definition getView :: "string \<Rightarrow> string \<Rightarrow> run_db \<Rightarrow> RunError + Run" where
  "getView tenant i db = bindE (lockRun tenant i db) (\<lambda>(r, _). Inr r)"

definition FailExecution :: "store_config \<Rightarrow> string \<Rightarrow> Lease \<Rightarrow> StepIdentity \<Rightarrow> string \<Rightarrow> time \<Rightarrow> time \<Rightarrow> run_db \<Rightarrow> RunError + (Run \<times> run_db)" where
  "FailExecution cfg caller lease step reason now clk db =
     (if \<not> validateLedgerLease cfg lease then Inl ErrInvalidArgument
      else bindE (lockRun (ls_TenantID lease) (ls_RunID lease) db) (\<lambda>(r, a).
      bindE (lockClosingAttemptResources cfg r a db) (\<lambda>res.
      bindE (ledgerExecution cfg caller r a lease step now db) (\<lambda>_.
      bindE (closeRun clk r a res reason now db) (\<lambda>(outcome, db1).
      bindE (getView (run_TenantID r) (run_ID r) db1) (\<lambda>view. Inr (view, db1)))))))"

definition AcknowledgeStop :: "store_config \<Rightarrow> string \<Rightarrow> Lease \<Rightarrow> time \<Rightarrow> time \<Rightarrow> run_db \<Rightarrow> RunError + ((Run \<times> string) \<times> run_db)" where
  "AcknowledgeStop cfg caller lease now clk db =
     (if \<not> validateLedgerLease cfg lease then Inl ErrInvalidArgument
      else bindE (lockRun (ls_TenantID lease) (ls_RunID lease) db) (\<lambda>(r, a).
      if run_State r \<noteq> Stopping \<or> \<not> sameAttempt r a lease then Inl ErrStaleLease
      else bindE (lockClosingAttemptResources cfg r a db) (\<lambda>res.
      bindE (checkSession cfg caller (ls_WorkerID lease) (ls_SessionID lease) (run_TenantID r) (run_ProfileID r) now False db) (\<lambda>_.
      case run_StopReason r of
        None \<Rightarrow> Inl ErrInternal
      | Some reason \<Rightarrow>
        bindE (closeRun clk r a res reason now db) (\<lambda>(outcome, db1).
        bindE (getView (run_TenantID r) (run_ID r) db1) (\<lambda>view. Inr ((view, outcome), db1)))))))"

section \<open>Cancellation and sweeping\<close>

definition operationScope :: "string \<Rightarrow> string \<Rightarrow> string" where
  "operationScope kind source = (if kind = ''submit'' then ''submit'' else kind @ '':'' @ source)"

definition findOperation :: "string \<Rightarrow> string \<Rightarrow> string \<Rightarrow> string \<Rightarrow> run_db \<Rightarrow> Operation option" where
  "findOperation tenant kind source key db = find_row (\<lambda>x. op_TenantID x = tenant \<and> op_Scope x = operationScope kind source \<and>
     op_Key x = key) (run_operations db)"

text \<open>The insert skips a row with the same scope and key; another row with the same id is a conflict.\<close>

definition insertOperation :: "Operation \<Rightarrow> run_db \<Rightarrow> RunError + run_db" where
  "insertOperation new db =
     bindE (if findOperation (op_TenantID new) (op_Kind new) (op_SourceRunID new) (op_Key new) db \<noteq> None then Inr db
        else if list_ex (\<lambda>x. op_ID x = op_ID new) (run_operations db) then Inl ErrConflict
        else Inr (db\<lparr>run_operations := run_operations db @ [new\<lparr>op_Scope := operationScope (op_Kind new) (op_SourceRunID new)\<rparr>]\<rparr>)) (\<lambda>db1.
      case findOperation (op_TenantID new) (op_Kind new) (op_SourceRunID new) (op_Key new) db1 of
        None \<Rightarrow> Inl ErrNotFound
      | Some accepted \<Rightarrow>
          if op_RequestHash accepted \<noteq> op_RequestHash new \<or> op_ResultRunID accepted \<noteq> op_ResultRunID new
          then Inl ErrConflict else Inr db1)"

text \<open>The response is the operation id, the Run and whether the command is a replay.\<close>

definition StoreCancelRun :: "store_config \<Rightarrow> string \<Rightarrow> string \<Rightarrow> string \<Rightarrow> string \<Rightarrow> time \<Rightarrow> time \<Rightarrow> run_db \<Rightarrow> RunError + ((string \<times> Run \<times> bool) \<times> run_db)" where
  "StoreCancelRun cfg newID tenant i key now clk db =
     (if \<not> ValidIdentifier tenant \<or> \<not> ValidUUID (cfg_parseUUID cfg) i \<or> \<not> ValidIdentifier key then Inl ErrInvalidArgument
      else let hash = Fingerprint (cfg_sha cfg) ''jobforge.run.cancel.v1'' [''1'', i] in
      bindE (lockRun tenant i db) (\<lambda>(r, a).
      case findOperation tenant ''cancel'' i key db of
        Some prior \<Rightarrow>
          if op_RequestHash prior \<noteq> hash \<or> op_ResultRunID prior \<noteq> i then Inl ErrConflict
          else bindE (getView tenant i db) (\<lambda>view. Inr ((op_ID prior, view, True), db))
      | None \<Rightarrow>
        bindE (RequestCancel r now) (\<lambda>r1.
        bindE (if run_CancelRequestedAt r = None then recordRun clk r1 a ''cancel_requested'' now db else Inr db) (\<lambda>db1.
        bindE (insertOperation \<lparr>op_ID = newID, op_TenantID = tenant, op_Kind = ''cancel'', op_SourceRunID = i, op_Scope = '''',
            op_Key = key, op_RequestHash = hash, op_ResultRunID = i, op_CreatedAt = now\<rparr> db1) (\<lambda>db2.
        bindE (getView tenant i db2) (\<lambda>view. Inr ((newID, view, False), db2)))))))"

definition sweepRun :: "store_config \<Rightarrow> string \<Rightarrow> string \<Rightarrow> time \<Rightarrow> time \<Rightarrow> run_db \<Rightarrow> RunError + (bool \<times> run_db)" where
  "sweepRun cfg tenant i now clk db =
     (case find_row (runKey tenant i) (runs db) of
        None \<Rightarrow> Inr (False, db)
      | Some (r, a) \<Rightarrow>
        if Terminal (run_State r) then Inr (False, db)
        else if run_State r = Running \<or> run_State r = Stopping then
          bindE (lockClosingAttemptResources cfg r a db) (\<lambda>res.
          bindE (stopIfDue r now) (\<lambda>r1.
          case run_LeaseUntil r1 of
            None \<Rightarrow> Inl ErrInternal
          | Some until \<Rightarrow>
            if until > now then
              (if run_State r1 \<noteq> run_State r
               then bindE (recordRun clk r1 a ''stop_requested'' now db) (\<lambda>db1. Inr (True, db1))
               else Inr (False, db))
            else bindE (if run_State r1 = Stopping
                then (case run_StopReason r1 of None \<Rightarrow> Inl ErrInternal | Some reason \<Rightarrow> Inr reason)
                else Inr FailureLeaseExpired) (\<lambda>reason.
              bindE (closeRun clk r1 a res reason now db) (\<lambda>(outcome, db1). Inr (True, db1)))))
        else
          bindE (ExpireWaiting r now) (\<lambda>r1.
            if run_State r \<noteq> run_State r1
            then bindE (recordRun clk r1 a ''state_changed'' now db) (\<lambda>db1. Inr (True, db1))
            else Inr (False, db)))"

text \<open>
  \<open>Sweep\<close>: the selection reads the clock once per condition, all at \<open>now\<close> here; each
  candidate is swept in a transaction of its own at the times that \<open>clocks\<close> gives, until one
  fails. The answer is the number changed and the error, with the database as committed so far.
\<close>

definition due :: "time \<Rightarrow> Run \<Rightarrow> bool" where
  "due now r \<longleftrightarrow>
     (run_State r = Running \<and> (\<not> afterNow (run_LeaseUntil r) now \<and> run_LeaseUntil r \<noteq> None \<or>
        \<not> afterNow (run_AttemptDeadline r) now \<and> run_AttemptDeadline r \<noteq> None \<or> run_RunDeadline r \<le> now)) \<or>
     (run_State r = Stopping \<and> \<not> afterNow (run_LeaseUntil r) now \<and> run_LeaseUntil r \<noteq> None) \<or>
     (run_State r \<in> {Ready, RetryWait, AwaitingApproval} \<and> run_RunDeadline r \<le> now) \<or>
     (run_State r = RetryWait \<and> \<not> afterNow (run_NextAttemptAt r) now \<and> run_NextAttemptAt r \<noteq> None) \<or>
     (run_State r = AwaitingApproval \<and> \<not> afterNow (run_PermissionExpiresAt r) now \<and> run_PermissionExpiresAt r \<noteq> None)"

fun sweepAll :: "store_config \<Rightarrow> (string \<times> string) list \<Rightarrow> (string \<Rightarrow> time \<times> time) \<Rightarrow> int \<Rightarrow> run_db \<Rightarrow> (int \<times> RunError option) \<times> run_db" where
  "sweepAll cfg [] clocks changed db = ((changed, None), db)"
| "sweepAll cfg ((tenant, i) # rest) clocks changed db =
     (case sweepRun cfg tenant i (fst (clocks i)) (snd (clocks i)) db of
        Inl e \<Rightarrow> ((changed, Some e), db)
      | Inr (updated, db1) \<Rightarrow> sweepAll cfg rest clocks (if updated then changed + 1 else changed) db1)"

definition Sweep :: "store_config \<Rightarrow> int \<Rightarrow> time \<Rightarrow> (string \<Rightarrow> time \<times> time) \<Rightarrow> run_db \<Rightarrow> (int \<times> RunError option) \<times> run_db" where
  "Sweep cfg limit now clocks db =
     (let limit' = (if limit = 0 then 100 else limit) in
      if limit' < 1 \<or> limit' > 100 then ((0, Some ErrInvalidArgument), db)
      else let candidates = map (\<lambda>x. (run_TenantID (fst x), run_ID (fst x)))
             (take (nat limit') (sort_key (\<lambda>x. (run_UpdatedAt (fst x), run_ID (fst x))) (filter (\<lambda>x. due now (fst x)) (runs db)))) in
        sweepAll cfg candidates clocks 0 db)"

end
