(* ===== verification/RunStoreInv.thy ===== *)
theory RunStoreInv
  imports RunStore
begin

text \<open>
  The invariant of the Run store: unique keys, the policy invariant of every Run, execution slots
  that count exactly the active Runs and stay within their capacity, and one open attempt record
  for every active Run and none for the others. Each lifecycle transaction is reduced to one of
  four changes of the tables, and each change keeps the invariant.
\<close>

section \<open>Keys and counters\<close>

definition rkey :: "Run \<times> Authority \<Rightarrow> string \<times> string" where
  "rkey x = (run_TenantID (fst x), run_ID (fst x))"

definition akey :: "RunAttempt \<Rightarrow> (string \<times> string) \<times> int" where
  "akey x = ((ra_tenant x, ra_run x), ra_no x)"

definition skey :: "executionSlot \<Rightarrow> string \<times> string" where
  "skey s = (sl_Kind s, sl_ID s)"

lemma runKey_eq: "runKey t i = (\<lambda>x. rkey x = (t, i))"
  by (auto simp: rkey_def)

lemma attemptKey_eq: "attemptKey r n = (\<lambda>x. akey x = ((run_TenantID r, run_ID r), n))"
  by (auto simp: akey_def)

lemma slotKey_eq: "slotKey k = (\<lambda>s. skey s = k)"
  by (auto simp: skey_def)

text \<open>The Runs that occupy a slot, and the counter of a slot (zero when it has no row).\<close>

definition occupies :: "string \<times> string \<Rightarrow> Run \<times> Authority \<Rightarrow> bool" where
  "occupies k x \<longleftrightarrow> active (run_State (fst x)) \<and> k \<in> set (slotKeys (fst x) (au_WorkerID (snd x)))"

definition load :: "string \<times> string \<Rightarrow> run_db \<Rightarrow> int" where
  "load k db = count_where (occupies k) (runs db)"

definition slot_used :: "string \<times> string \<Rightarrow> executionSlot list \<Rightarrow> int" where
  "slot_used k sl = (case find_row (slotKey k) sl of None \<Rightarrow> 0 | Some s \<Rightarrow> sl_Used s)"

definition slots_ok :: "run_db \<Rightarrow> bool" where
  "slots_ok db \<longleftrightarrow> distinct (map skey (execution_slots db)) \<and>
     (\<forall>s \<in> set (execution_slots db). 0 \<le> sl_Used s \<and> sl_Used s \<le> sl_Capacity s) \<and>
     (\<forall>k. slot_used k (execution_slots db) = load k db)"

text \<open>The attempt records of one Run row.\<close>

definition row_attempts :: "RunAttempt list \<Rightarrow> Run \<times> Authority \<Rightarrow> bool" where
  "row_attempts ats x \<longleftrightarrow> (case x of (r, a) \<Rightarrow>
     (\<forall>y \<in> set ats. fst (akey y) = rkey x \<longrightarrow> ra_no y \<le> run_AttemptNo r \<and>
        (ra_finished y = None \<longrightarrow> active (run_State r) \<and> ra_no y = run_AttemptNo r \<and>
           ra_worker y = au_WorkerID a \<and> ra_session y = au_SessionID a \<and> ra_token y = au_FencingToken a)) \<and>
     (active (run_State r) \<longrightarrow> (\<exists>y \<in> set ats. akey y = (rkey x, run_AttemptNo r) \<and> ra_finished y = None)))"

definition attempt_rows_ok :: "run_db \<Rightarrow> bool" where
  "attempt_rows_ok db \<longleftrightarrow> distinct (map akey (run_attempts db)) \<and>
     (\<forall>y \<in> set (run_attempts db). fst (akey y) \<in> rkey ` set (runs db)) \<and>
     (\<forall>x \<in> set (runs db). row_attempts (run_attempts db) x)"

definition lifecycle_inv :: "run_db \<Rightarrow> bool" where
  "lifecycle_inv db \<longleftrightarrow> distinct (map rkey (runs db)) \<and> (\<forall>x \<in> set (runs db). run_ok (fst x) (snd x)) \<and>
     slots_ok db \<and> attempt_rows_ok db"

lemma lockRun_iff:
  assumes "distinct (map rkey (runs db))"
  shows "lockRun t i db = Inr x \<longleftrightarrow> x \<in> set (runs db) \<and> rkey x = (t, i)"
  using find_row_Some_iff [OF assms, of "(t, i)" x]
  by (auto simp: lockRun_def runKey_eq split: option.splits)

lemma lockRun_mem: "lockRun t i db = Inr x \<Longrightarrow> x \<in> set (runs db) \<and> rkey x = (t, i)"
  by (auto simp: lockRun_def rkey_def split: option.splits dest: find_row_SomeD)

section \<open>Replacing a Run row\<close>

definition putRun :: "Run \<times> Authority \<Rightarrow> (Run \<times> Authority) list \<Rightarrow> (Run \<times> Authority) list" where
  "putRun x rows = update_where (\<lambda>y. rkey y = rkey x) (\<lambda>_. x) rows"

lemma putRun_keys [simp]: "map rkey (putRun x rows) = map rkey rows"
  unfolding putRun_def by (rule map_update_where) simp

lemma set_putRun:
  assumes "y \<in> set rows" "rkey y = rkey x"
  shows "set (putRun x rows) = insert x {z \<in> set rows. rkey z \<noteq> rkey x}"
  using assms by (auto simp: putRun_def set_update_where)

lemma count_putRun:
  assumes "distinct (map rkey rows)" "y \<in> set rows" "rkey x = rkey y"
  shows "count_where P (putRun x rows) = count_where P rows - (if P y then 1 else 0) + (if P x then 1 else 0)"
  using count_where_update [of "\<lambda>z. rkey z = rkey x" P "\<lambda>_. x" "\<lambda>_. P x" rows]
    count_where_key [OF assms(1,2), of P] count_where_key [OF assms(1,2), of "\<lambda>_. P x"] assms(3)
  by (simp add: putRun_def)

text \<open>A Run as it is stored: the trigger may have stamped the terminal time.\<close>

definition stamped :: "time \<Rightarrow> Run \<Rightarrow> Run" where
  "stamped clk r = (if Terminal (run_State r) \<and> run_TerminalAt r = None then r\<lparr>run_TerminalAt := Some clk\<rparr> else r)"

lemma stamped_fields [simp]:
  "run_State (stamped clk r) = run_State r" "run_TenantID (stamped clk r) = run_TenantID r"
  "run_ID (stamped clk r) = run_ID r" "run_ProfileID (stamped clk r) = run_ProfileID r"
  "run_AttemptNo (stamped clk r) = run_AttemptNo r" "run_RunDeadline (stamped clk r) = run_RunDeadline r"
  "run_BusinessRequestID (stamped clk r) = run_BusinessRequestID r" "run_RetryOfRunID (stamped clk r) = run_RetryOfRunID r"
  "run_CursorVersion (stamped clk r) = run_CursorVersion r"
  "rkey (stamped clk r, a) = rkey (r, a)"
  by (simp_all add: stamped_def rkey_def)

lemma run_ok_stamped: "run_ok (stamped clk r) (a\<lparr>au_EventSequence := n\<rparr>) = run_ok r a"
  by (simp add: stamped_def run_ok_def)

lemma saveRun_eq: "saveRun clk r a db = db\<lparr>runs := putRun (stamped clk r, a) (runs db)\<rparr>"
proof -
  have "runKey (run_TenantID r) (run_ID r) = (\<lambda>y. rkey y = rkey (stamped clk r, a))"
    by (simp add: rkey_def)
  then show ?thesis by (simp add: saveRun_def putRun_def stamped_def Let_def)
qed

lemma appendEvent_effect:
  "appendEvent r a kind now db = Inr (a', db') \<Longrightarrow>
     \<exists>evs. a' = a\<lparr>au_EventSequence := au_EventSequence a + 1\<rparr> \<and> db' = db\<lparr>run_events := evs\<rparr>"
  by (auto simp: appendEvent_def Let_def split: if_splits)

lemma recordRun_effect:
  assumes "recordRun clk r a kind now db = Inr db'"
  shows "\<exists>n evs. db' = db\<lparr>runs := putRun (stamped clk r, a\<lparr>au_EventSequence := n\<rparr>) (runs db), run_events := evs\<rparr>"
proof -
  from assms obtain a1 db1 where ev: "appendEvent r a kind now db = Inr (a1, db1)" and db': "db' = saveRun clk r a1 db1"
    by (auto simp: recordRun_def result_simps)
  from appendEvent_effect [OF ev] obtain evs where "a1 = a\<lparr>au_EventSequence := au_EventSequence a + 1\<rparr>"
    "db1 = db\<lparr>run_events := evs\<rparr>" by blast
  with db' show ?thesis by (intro exI [of _ "au_EventSequence a + 1"] exI [of _ evs]) (simp add: saveRun_eq)
qed

section \<open>Slots\<close>

lemma slot_used_append:
  assumes "skey s \<notin> skey ` set sl" and "sl_Used s = 0"
  shows "slot_used k (sl @ [s]) = slot_used k sl"
  using assms by (induction sl) (auto simp: slot_used_def skey_def)

lemma find_slot_append: "find_row P sl = Some s \<Longrightarrow> find_row P (sl @ new) = Some s"
  by (induction sl) auto

lemma slot_used_save:
  assumes "distinct (map skey sl)" and "s \<in> set sl"
  shows "slot_used k (update_where (slotKey (skey s)) (\<lambda>x. x\<lparr>sl_Used := n\<rparr>) sl) =
    (if k = skey s then n else slot_used k sl)"
proof -
  have upd: "find_row (slotKey k) (update_where (slotKey (skey s)) (\<lambda>x. x\<lparr>sl_Used := n\<rparr>) sl) =
      map_option (\<lambda>x. if slotKey (skey s) x then x\<lparr>sl_Used := n\<rparr> else x) (find_row (slotKey k) sl)"
    by (rule find_row_update_where) simp
  show ?thesis
  proof (cases "k = skey s")
    case True
    with find_row_Some_iff [OF assms(1), of k s] assms(2) have "find_row (slotKey k) sl = Some s" by (simp add: slotKey_eq)
    with upd True show ?thesis by (simp add: slot_used_def skey_def)
  next
    case False
    then have "\<not> slotKey (skey s) x" if "find_row (slotKey k) sl = Some x" for x
      using find_row_SomeD [OF that] by auto
    with upd False show ?thesis by (auto simp: slot_used_def split: option.splits)
  qed
qed

definition slot_rows_ok :: "executionSlot list \<Rightarrow> bool" where
  "slot_rows_ok sl \<longleftrightarrow> distinct (map skey sl) \<and> (\<forall>s \<in> set sl. 0 \<le> sl_Used s \<and> sl_Used s \<le> sl_Capacity s)"

lemma lockSlot_effect:
  assumes "lockSlot k c db = Inr (s, db')" and "slot_rows_ok (execution_slots db)" and "\<And>n. c = Some n \<Longrightarrow> 0 \<le> n"
  shows "\<exists>new. db' = db\<lparr>execution_slots := execution_slots db @ new\<rparr> \<and> (c = None \<longrightarrow> new = []) \<and>
    slot_rows_ok (execution_slots db @ new) \<and> (\<forall>k. slot_used k (execution_slots db @ new) = slot_used k (execution_slots db)) \<and>
    find_row (slotKey k) (execution_slots db @ new) = Some s \<and> skey s = k"
proof -
  define new where "new = (case c of None \<Rightarrow> [] | Some n \<Rightarrow> if list_ex (slotKey k) (execution_slots db) then []
      else [\<lparr>sl_Kind = fst k, sl_ID = snd k, sl_Capacity = n, sl_Used = 0\<rparr>])"
  have db': "db' = db\<lparr>execution_slots := execution_slots db @ new\<rparr>"
    and found: "find_row (slotKey k) (execution_slots db @ new) = Some s"
    using assms(1) by (auto simp: lockSlot_def new_def Let_def split: option.splits if_splits)
  have fresh: "skey x = k \<and> k \<notin> skey ` set (execution_slots db) \<and> sl_Used x = 0 \<and> 0 \<le> sl_Capacity x \<and> new = [x]"
    if "x \<in> set new" for x
    using that assms(3) by (auto simp: new_def skey_def list_ex_iff split: option.splits if_splits)
  have "slot_rows_ok (execution_slots db @ new) \<and> (\<forall>k. slot_used k (execution_slots db @ new) = slot_used k (execution_slots db))"
  proof (cases new)
    case (Cons x xs)
    with fresh [of x] have "new = [x]" "skey x \<notin> skey ` set (execution_slots db)" "sl_Used x = 0" "0 \<le> sl_Capacity x" by auto
    with assms(2) slot_used_append [of x "execution_slots db"] show ?thesis by (auto simp: slot_rows_ok_def)
  qed (use assms(2) in simp)
  moreover have "skey s = k" using find_row_SomeD [OF found] by (auto simp: skey_def)
  moreover have "c = None \<longrightarrow> new = []" by (simp add: new_def)
  ultimately show ?thesis using db' found by blast
qed

lemma lockSlots_effect:
  assumes "lockSlots ks cs db = Inr (ss, db')" and "slot_rows_ok (execution_slots db)"
    and "\<And>n. Some n \<in> set cs \<Longrightarrow> 0 \<le> n" and "length ks = length cs"
  shows "\<exists>new. db' = db\<lparr>execution_slots := execution_slots db @ new\<rparr> \<and> (set cs \<subseteq> {None} \<longrightarrow> new = []) \<and>
    slot_rows_ok (execution_slots db @ new) \<and> (\<forall>k. slot_used k (execution_slots db @ new) = slot_used k (execution_slots db)) \<and>
    map skey ss = ks \<and> (\<forall>s \<in> set ss. find_row (slotKey (skey s)) (execution_slots db @ new) = Some s)"
  using assms
proof (induction ks arbitrary: cs db ss)
  case Nil
  then show ?case by (auto intro!: exI [of _ "[]"])
next
  case (Cons k ks)
  from Cons.prems(4) obtain c cs' where cs: "cs = c # cs'" by (cases cs) auto
  from Cons.prems(1) obtain s db1 ss' where step: "lockSlot k c db = Inr (s, db1)" and rest: "lockSlots ks cs' db1 = Inr (ss', db')"
    and ss: "ss = s # ss'" by (auto simp: cs result_simps)
  from lockSlot_effect [OF step Cons.prems(2)] Cons.prems(3) obtain new where new: "db1 = db\<lparr>execution_slots := execution_slots db @ new\<rparr>"
      "c = None \<longrightarrow> new = []" "slot_rows_ok (execution_slots db @ new)"
      "\<forall>k. slot_used k (execution_slots db @ new) = slot_used k (execution_slots db)"
      "find_row (slotKey k) (execution_slots db @ new) = Some s" "skey s = k" by (auto simp: cs)
  have slots1: "execution_slots db1 = execution_slots db @ new" using new(1) by simp
  have ok1: "slot_rows_ok (execution_slots db1)" using new(3) slots1 by simp
  from Cons.IH [OF rest ok1] Cons.prems(3,4) obtain new' where new': "db' = db1\<lparr>execution_slots := execution_slots db1 @ new'\<rparr>"
      "set cs' \<subseteq> {None} \<longrightarrow> new' = []" "slot_rows_ok (execution_slots db1 @ new')"
      "\<forall>k. slot_used k (execution_slots db1 @ new') = slot_used k (execution_slots db1)"
      "map skey ss' = ks" "\<forall>s \<in> set ss'. find_row (slotKey (skey s)) (execution_slots db1 @ new') = Some s" by (auto simp: cs)
  from find_slot_append [OF new(5), of new'] new new' ss show ?case
    by (intro exI [of _ "new @ new'"]) (auto simp: cs)
qed

lemma saveSlots_effect:
  assumes "saveSlots ss d db = Inr db'" and "slot_rows_ok (execution_slots db)" and "distinct (map skey ss)"
    and "\<And>s. s \<in> set ss \<Longrightarrow> find_row (slotKey (skey s)) (execution_slots db) = Some s"
  shows "\<exists>sl. db' = db\<lparr>execution_slots := sl\<rparr> \<and> slot_rows_ok sl \<and>
    (\<forall>k. slot_used k sl = slot_used k (execution_slots db) + (if k \<in> skey ` set ss then d else 0))"
  using assms
proof (induction ss arbitrary: db)
  case Nil
  then show ?case by (intro exI [of _ "execution_slots db"]) auto
next
  case (Cons s ss)
  define sl where "sl = update_where (slotKey (skey s)) (\<lambda>x. x\<lparr>sl_Used := sl_Used s + d\<rparr>) (execution_slots db)"
  from Cons.prems(1) have bound: "0 \<le> sl_Used s + d" "sl_Used s + d \<le> sl_Capacity s"
    and rest: "saveSlots ss d (db\<lparr>execution_slots := sl\<rparr>) = Inr db'"
    by (auto simp: sl_def skey_def Let_def split: if_splits)
  have found: "find_row (slotKey (skey s)) (execution_slots db) = Some s" using Cons.prems(4) by simp
  then have s: "s \<in> set (execution_slots db)" by (blast dest: find_row_SomeD)
  have dist: "distinct (map skey (execution_slots db))" using Cons.prems(2) by (simp add: slot_rows_ok_def)
  have used: "slot_used k sl = (if k = skey s then sl_Used s + d else slot_used k (execution_slots db))" for k
    unfolding sl_def by (rule slot_used_save [OF dist s])
  have keys: "map skey sl = map skey (execution_slots db)" unfolding sl_def by (rule map_update_where) (simp add: skey_def)
  have only: "x = s" if "x \<in> set (execution_slots db)" "skey x = skey s" for x
    using that s dist by (metis distinct_map inj_onD)
  have "\<forall>x \<in> set sl. 0 \<le> sl_Used x \<and> sl_Used x \<le> sl_Capacity x"
    unfolding sl_def by (rule ball_update_where) (use Cons.prems(2) only bound in \<open>auto simp: slot_rows_ok_def skey_def\<close>)
  with keys dist have ok: "slot_rows_ok sl" by (simp add: slot_rows_ok_def)
  have "find_row (slotKey (skey t)) sl = Some t" if "t \<in> set ss" for t
  proof -
    have "skey s \<notin> skey ` set ss" using Cons.prems(3) by simp
    with that have ne: "skey t \<noteq> skey s" by (metis imageI)
    have "find_row (slotKey (skey t)) sl = map_option (\<lambda>x. if slotKey (skey s) x then x\<lparr>sl_Used := sl_Used s + d\<rparr> else x)
        (find_row (slotKey (skey t)) (execution_slots db))"
      unfolding sl_def by (rule find_row_update_where) simp
    with Cons.prems(4) [of t] that ne show ?thesis by (auto simp: skey_def)
  qed
  with ok obtain sl' where sl': "db' = db\<lparr>execution_slots := sl'\<rparr>" "slot_rows_ok sl'"
      "\<forall>k. slot_used k sl' = slot_used k sl + (if k \<in> skey ` set ss then d else 0)"
    using Cons.IH [OF rest] Cons.prems(3) by auto
  have base: "slot_used (skey s) (execution_slots db) = sl_Used s" using found by (simp add: slot_used_def)
  have "skey s \<notin> skey ` set ss" using Cons.prems(3) by auto
  with sl' used base show ?case by (intro exI [of _ sl']) auto
qed

section \<open>Changes that keep the invariant\<close>

lemma row_attempts_cong:
  assumes "\<And>y. fst (akey y) = rkey x \<Longrightarrow> y \<in> set ats \<longleftrightarrow> y \<in> set ats'"
  shows "row_attempts ats x = row_attempts ats' x"
proof -
  have "(\<exists>y \<in> set ats. akey y = (rkey x, n) \<and> ra_finished y = None) = (\<exists>y \<in> set ats'. akey y = (rkey x, n) \<and> ra_finished y = None)"
    for n using assms by (metis fst_conv)
  moreover have "(\<forall>y \<in> set ats. fst (akey y) = rkey x \<longrightarrow> P y) = (\<forall>y \<in> set ats'. fst (akey y) = rkey x \<longrightarrow> P y)" for P
    using assms by blast
  ultimately show ?thesis by (simp add: row_attempts_def split: prod.split)
qed

lemma load_put:
  assumes "distinct (map rkey (runs db))" "x \<in> set (runs db)" "rkey y = rkey x" "runs db' = putRun y (runs db)"
  shows "load k db' = load k db - (if occupies k x then 1 else 0) + (if occupies k y then 1 else 0)"
  using count_putRun [OF assms(1,2,3), of "occupies k"] assms(4) by (simp add: load_def)

lemma put_inv:
  assumes inv: "lifecycle_inv db" and x: "x \<in> set (runs db)" and key: "rkey y = rkey x" and ok: "run_ok (fst y) (snd y)"
    and runs': "runs db' = putRun y (runs db)"
    and slots: "slot_rows_ok (execution_slots db')"
      "\<And>k. slot_used k (execution_slots db') =
         slot_used k (execution_slots db) - (if occupies k x then 1 else 0) + (if occupies k y then 1 else 0)"
    and atts: "distinct (map akey (run_attempts db'))"
      "\<And>z. fst (akey z) \<noteq> rkey x \<Longrightarrow> z \<in> set (run_attempts db') \<longleftrightarrow> z \<in> set (run_attempts db)"
      "row_attempts (run_attempts db') y"
  shows "lifecycle_inv db'"
proof -
  have dist: "distinct (map rkey (runs db))" using inv by (simp add: lifecycle_inv_def)
  have rows: "set (runs db') = insert y {z \<in> set (runs db). rkey z \<noteq> rkey y}"
    using set_putRun [OF x] key runs' by simp
  have keys: "rkey ` set (runs db') = rkey ` set (runs db)"
    using putRun_keys [of y "runs db"] runs' by (metis set_map)
  have "slots_ok db'"
    using slots load_put [OF dist x key runs'] inv by (auto simp: slots_ok_def slot_rows_ok_def lifecycle_inv_def)
  moreover have "row_attempts (run_attempts db') z" if "z \<in> set (runs db')" for z
  proof (cases "z = y")
    case False
    with that rows key have z: "z \<in> set (runs db)" "rkey z \<noteq> rkey x" by auto
    have "row_attempts (run_attempts db) z" using z(1) inv by (simp add: lifecycle_inv_def attempt_rows_ok_def)
    moreover have "row_attempts (run_attempts db') z = row_attempts (run_attempts db) z"
      by (rule row_attempts_cong) (use atts(2) z(2) in metis)
    ultimately show ?thesis by simp
  qed (use atts(3) in simp)
  moreover have "fst (akey z) \<in> rkey ` set (runs db')" if "z \<in> set (run_attempts db')" for z
  proof (cases "fst (akey z) = rkey x")
    case True
    with x keys show ?thesis by auto
  next
    case False
    with that atts(2) inv keys show ?thesis by (auto simp: lifecycle_inv_def attempt_rows_ok_def)
  qed
  ultimately show ?thesis
    using dist atts(1) inv ok rows runs' by (auto simp: lifecycle_inv_def attempt_rows_ok_def)
qed

text \<open>
  What the operations on a Run row leave: its key, its business, its profile, its deadline and, but
  for a grant, its attempt; all but a step commit leave its cursor too.
\<close>

definition same_row :: "Run \<Rightarrow> Run \<Rightarrow> bool" where
  "same_row r r' \<longleftrightarrow> run_TenantID r' = run_TenantID r \<and> run_ID r' = run_ID r \<and> run_ProfileID r' = run_ProfileID r \<and>
     run_AttemptNo r' = run_AttemptNo r \<and> run_RunDeadline r' = run_RunDeadline r \<and>
     run_BusinessRequestID r' = run_BusinessRequestID r \<and> run_RetryOfRunID r' = run_RetryOfRunID r"

definition same_run :: "Run \<Rightarrow> Run \<Rightarrow> bool" where
  same_run_row: "same_run r r' \<longleftrightarrow> same_row r r' \<and> run_CursorVersion r' = run_CursorVersion r"

lemmas same_run_def = same_run_row [unfolded same_row_def]

lemma same_row_key: "same_row r r' \<Longrightarrow> rkey (r', a') = rkey (r, a)"
  by (simp add: same_row_def rkey_def)

lemma same_row_slots: "same_row r r' \<Longrightarrow> slotKeys r' w = slotKeys r w"
  by (simp add: same_row_def slotKeys_def)

lemma inv_parts:
  assumes "lifecycle_inv db"
  shows "distinct (map rkey (runs db))" "slot_rows_ok (execution_slots db)" "distinct (map akey (run_attempts db))"
    and "\<And>x. x \<in> set (runs db) \<Longrightarrow> run_ok (fst x) (snd x)" "\<And>x. x \<in> set (runs db) \<Longrightarrow> row_attempts (run_attempts db) x"
    and "\<And>k. slot_used k (execution_slots db) = load k db"
  using assms by (auto simp: lifecycle_inv_def slots_ok_def slot_rows_ok_def attempt_rows_ok_def)

text \<open>Saving a Run that stays active, or stays inactive, under the same authority.\<close>

lemma save_row_inv:
  assumes inv: "lifecycle_inv db" and x: "(r, a) \<in> set (runs db)" and same: "same_row r r'"
    and ok: "run_ok r' a'" and act: "active (run_State r') = active (run_State r)"
    and auth: "au_WorkerID a' = au_WorkerID a" "au_SessionID a' = au_SessionID a" "au_FencingToken a' = au_FencingToken a"
    and db': "runs db' = putRun (r', a') (runs db)" "run_attempts db' = run_attempts db" "execution_slots db' = execution_slots db"
  shows "lifecycle_inv db'"
proof (rule put_inv [OF inv x same_row_key [OF same] _ db'(1)])
  have "occupies k (r', a') = occupies k (r, a)" for k
    using act auth same_row_slots [OF same] by (simp add: occupies_def)
  then show "slot_used k (execution_slots db') = slot_used k (execution_slots db) -
      (if occupies k (r, a) then 1 else 0) + (if occupies k (r', a') then 1 else 0)" for k
    using db' by simp
  show "row_attempts (run_attempts db') (r', a')"
    using inv_parts(5) [OF inv x] act auth same same_row_key [OF same, of a' a] db'
    by (auto simp: row_attempts_def same_row_def)
qed (use db' inv_parts [OF inv] ok in auto)

lemmas save_inv = save_row_inv [OF _ _ conjunct1 [OF iffD1 [OF same_run_row]]]

lemma record_inv:
  assumes inv: "lifecycle_inv db" and x: "(r, a) \<in> set (runs db)" and same: "same_run r r'"
    and ok: "run_ok r' a" and act: "active (run_State r') = active (run_State r)"
    and rec: "recordRun clk r' a kind now db = Inr db'"
  shows "lifecycle_inv db'"
proof -
  from recordRun_effect [OF rec] obtain n evs where
    db': "db' = db\<lparr>runs := putRun (stamped clk r', a\<lparr>au_EventSequence := n\<rparr>) (runs db), run_events := evs\<rparr>" by blast
  show ?thesis
    by (rule save_inv [OF inv x, of "stamped clk r'" "a\<lparr>au_EventSequence := n\<rparr>"])
      (use same ok act db' in \<open>auto simp: same_run_def run_ok_stamped\<close>)
qed

section \<open>Closing and granting\<close>

lemma slotKeys_distinct: "distinct (slotKeys r w)"
  by (simp add: slotKeys_def)

text \<open>The locked resources are those of the row: its slots, as they are in the table.\<close>

definition resources_of :: "Run \<Rightarrow> Authority \<Rightarrow> run_db \<Rightarrow> attemptResources \<Rightarrow> bool" where
  "resources_of r a db res \<longleftrightarrow> ar_Authority res = a \<and> ar_AttemptNo res = run_AttemptNo r \<and>
     map skey (ar_Slots res) = slotKeys r (au_WorkerID a) \<and>
     (\<forall>s \<in> set (ar_Slots res). find_row (slotKey (skey s)) (execution_slots db) = Some s)"

lemma lockAttemptResources_effect:
  assumes "lockAttemptResources r a db = Inr res" and "slot_rows_ok (execution_slots db)"
  shows "resources_of r a db res"
proof -
  from assms(1) obtain ss db1 where lock: "lockSlots (slotKeys r (au_WorkerID a)) [None, None, None] db = Inr (ss, db1)"
    and res: "res = \<lparr>ar_Authority = a, ar_AttemptNo = run_AttemptNo r, ar_Slots = ss, ar_RecoveryStep = None\<rparr>"
    by (auto simp: lockAttemptResources_def result_simps split: if_splits option.splits)
  from lockSlots_effect [OF lock assms(2)] res show ?thesis by (auto simp: resources_of_def slotKeys_def)
qed

lemma lockClosing_effect:
  assumes "lockClosingAttemptResources cfg r a db = Inr res" and "slot_rows_ok (execution_slots db)"
  shows "resources_of r a db res"
proof -
  from assms(1) obtain res0 where "lockAttemptResources r a db = Inr res0"
    "res = res0 \<or> res = res0\<lparr>ar_RecoveryStep := Some (PendingStep r a)\<rparr>"
    by (auto simp: lockClosingAttemptResources_def result_simps split: if_splits)
  with lockAttemptResources_effect [OF _ assms(2)] show ?thesis by (fastforce simp: resources_of_def)
qed

abbreviation openAttempt :: "Run \<Rightarrow> RunAttempt \<Rightarrow> bool" where
  "openAttempt r \<equiv> (\<lambda>x. attemptKey r (run_AttemptNo r) x \<and> ra_finished x = None)"

lemma markCalls_frame [simp]:
  "runs (markCalls r res db) = runs db" "worker_sessions (markCalls r res db) = worker_sessions db"
  "run_operations (markCalls r res db) = run_operations db" "execution_slots (markCalls r res db) = execution_slots db"
  "run_attempts (markCalls r res db) = run_attempts db"
  by (simp_all add: markCalls_def Let_def split: option.split)

lemma closeAttemptRecords_effect:
  assumes close: "closeAttemptRecords r a res outcome now db = Inr (r', a', db')" and rows: "slot_rows_ok (execution_slots db)"
    and res: "resources_of r0 a0 db res" and same: "run_AttemptNo r = run_AttemptNo r0"
  shows "r' = r\<lparr>run_LeaseUntil := None, run_AttemptDeadline := None\<rparr>"
    and "a' = a\<lparr>au_WorkerID := '''', au_SessionID := '''', au_ActiveCallID := None\<rparr>"
    and "runs db' = runs db" "worker_sessions db' = worker_sessions db" "run_operations db' = run_operations db"
    and "\<exists>step ordinal. run_attempts db' = update_where (openAttempt r) (closedAttempt now outcome r step ordinal) (run_attempts db)"
    and "slot_rows_ok (execution_slots db')"
    and "slot_used k (execution_slots db') = slot_used k (execution_slots db) -
      (if k \<in> set (slotKeys r0 (au_WorkerID a0)) then 1 else 0)"
proof -
  have no: "ar_AttemptNo res = run_AttemptNo r" using res same by (simp add: resources_of_def)
  from close obtain step ordinal db3 where
    eq: "r' = r\<lparr>run_LeaseUntil := None, run_AttemptDeadline := None\<rparr>"
      "a' = a\<lparr>au_WorkerID := '''', au_SessionID := '''', au_ActiveCallID := None\<rparr>"
    and db3: "db3 = (markCalls r res db)\<lparr>run_attempts :=
       update_where (openAttempt r) (closedAttempt now outcome r step ordinal) (run_attempts db)\<rparr>"
    and save: "saveSlots (ar_Slots res) (- 1) db3 = Inr db'"
    unfolding closeAttemptRecords_def Let_def if_Inl_eq_Inr bindE_Inr_iff no by (auto simp: result_simps)
  have frame: "runs db3 = runs db" "worker_sessions db3 = worker_sessions db" "run_operations db3 = run_operations db"
      "execution_slots db3 = execution_slots db"
      "run_attempts db3 = update_where (openAttempt r) (closedAttempt now outcome r step ordinal) (run_attempts db)"
    unfolding db3 by simp_all
  have keys: "map skey (ar_Slots res) = slotKeys r0 (au_WorkerID a0)" using res by (simp add: resources_of_def)
  from saveSlots_effect [OF save] rows res frame(4) keys slotKeys_distinct [of r0 "au_WorkerID a0"]
  obtain sl where sl: "db' = db3\<lparr>execution_slots := sl\<rparr>" "slot_rows_ok sl"
      "\<And>k. slot_used k sl = slot_used k (execution_slots db) + (if k \<in> skey ` set (ar_Slots res) then - 1 else 0)"
    by (auto simp: resources_of_def)
  have "skey ` set (ar_Slots res) = set (slotKeys r0 (au_WorkerID a0))" using keys by (metis set_map)
  with eq frame sl show "r' = r\<lparr>run_LeaseUntil := None, run_AttemptDeadline := None\<rparr>"
    "a' = a\<lparr>au_WorkerID := '''', au_SessionID := '''', au_ActiveCallID := None\<rparr>"
    "runs db' = runs db" "worker_sessions db' = worker_sessions db" "run_operations db' = run_operations db"
    "\<exists>step ordinal. run_attempts db' = update_where (openAttempt r) (closedAttempt now outcome r step ordinal) (run_attempts db)"
    "slot_rows_ok (execution_slots db')"
    "slot_used k (execution_slots db') = slot_used k (execution_slots db) -
      (if k \<in> set (slotKeys r0 (au_WorkerID a0)) then 1 else 0)" by auto
qed

text \<open>Closing the open attempt of a row leaves no open attempt of that row, and the other rows' records.\<close>

lemma closed_attempts:
  fixes r step ordinal now outcome
  defines "f \<equiv> closedAttempt now outcome r step ordinal"
  assumes "row_attempts ats (r0, a0)" and same: "same_row r0 r"
  shows "map akey (update_where (openAttempt r) f ats) = map akey ats"
    and "fst (akey z) \<noteq> rkey (r0, a0) \<Longrightarrow> z \<in> set (update_where (openAttempt r) f ats) \<longleftrightarrow> z \<in> set ats"
    and "z \<in> set (update_where (openAttempt r) f ats) \<Longrightarrow> fst (akey z) = rkey (r0, a0) \<Longrightarrow>
      ra_finished z \<noteq> None \<and> ra_no z \<le> run_AttemptNo r0"
proof -
  have f: "akey (f x) = akey x" "ra_finished (f x) \<noteq> None" for x
    by (simp_all add: f_def closedAttempt_def akey_def)
  have key: "fst (akey x) = rkey (r0, a0)" if "openAttempt r x" for x
    using that same by (simp add: akey_def rkey_def same_row_def)
  show "map akey (update_where (openAttempt r) f ats) = map akey ats" using f(1) by (rule map_update_where)
  show "z \<in> set (update_where (openAttempt r) f ats) \<longleftrightarrow> z \<in> set ats" if "fst (akey z) \<noteq> rkey (r0, a0)"
    using that f(1) key by (force simp: set_update_where)
  show "ra_finished z \<noteq> None \<and> ra_no z \<le> run_AttemptNo r0"
    if z: "z \<in> set (update_where (openAttempt r) f ats)" "fst (akey z) = rkey (r0, a0)"
  proof -
    from z(1) consider x where "x \<in> set ats" "openAttempt r x" "z = f x" | "z \<in> set ats" "\<not> openAttempt r z"
      by (auto simp: set_update_where)
    then show ?thesis
    proof cases
      case 1
      with f(1) [of x] f(2) [of x] same show ?thesis by (simp add: akey_def same_row_def)
    next
      case 2
      with assms(2) z(2) same show ?thesis by (auto simp: row_attempts_def akey_def rkey_def same_row_def)
    qed
  qed
qed

text \<open>An attempt whose records are closed, whatever ended it: its Run row is inactive.\<close>

lemma close_records_inv:
  assumes inv: "lifecycle_inv db" and x: "(r0, a) \<in> set (runs db)" and act: "active (run_State r0)"
    and same1: "same_row r0 r1" and inactive: "\<not> active (run_State r1)" and res: "resources_of r0 a db res"
    and rec: "closeAttemptRecords r1 a1 res outcome now db = Inr (r2, a2, db1)" and ok: "run_ok r2 a2"
    and save: "recordRun clk r2 a2 kind now db1 = Inr db'"
  shows "lifecycle_inv db'"
proof -
  have no: "run_AttemptNo r1 = run_AttemptNo r0" using same1 by (simp add: same_row_def)
  note eff = closeAttemptRecords_effect [OF rec inv_parts(2) [OF inv] res no]
  from eff(6) obtain rs ordinal where atts: "run_attempts db1 =
      update_where (openAttempt r1) (closedAttempt now outcome r1 rs ordinal) (run_attempts db)" by blast
  from recordRun_effect [OF save] obtain n evs where
    db': "db' = db1\<lparr>runs := putRun (stamped clk r2, a2\<lparr>au_EventSequence := n\<rparr>) (runs db1), run_events := evs\<rparr>" by blast
  have same2: "same_row r0 (stamped clk r2)" using same1 eff(1) by (simp add: same_row_def)
  have inactive2: "\<not> active (run_State (stamped clk r2))" using inactive eff(1) by simp
  have ok2: "run_ok (stamped clk r2) (a2\<lparr>au_EventSequence := n\<rparr>)" using ok by (simp add: run_ok_stamped)
  note cl = closed_attempts [OF inv_parts(5) [OF inv x] same1, where now = now and outcome = outcome and step = rs and ordinal = ordinal]
  show ?thesis
  proof (rule put_inv [OF inv x same_row_key [OF same2]])
    show "runs db' = putRun (stamped clk r2, a2\<lparr>au_EventSequence := n\<rparr>) (runs db)" using db' eff(3) by simp
    show "slot_used k (execution_slots db') = slot_used k (execution_slots db) - (if occupies k (r0, a) then 1 else 0) +
        (if occupies k (stamped clk r2, a2\<lparr>au_EventSequence := n\<rparr>) then 1 else 0)" for k
      using eff(8) [of k] db' act inactive2 by (auto simp: occupies_def)
    show "row_attempts (run_attempts db') (stamped clk r2, a2\<lparr>au_EventSequence := n\<rparr>)"
      unfolding row_attempts_def prod.case same_row_key [OF same2, of _ a]
      using cl(3) inactive2 same2 db' atts by (auto simp: same_row_def)
  qed (use db' eff(7) ok2 cl(1,2) atts inv_parts(3) [OF inv] in auto)
qed

lemma closeRun_inv:
  assumes inv: "lifecycle_inv db" and x: "(r0, a) \<in> set (runs db)" and act: "active (run_State r0)"
    and same: "same_run r0 r" and ok: "run_ok r a" and res: "resources_of r0 a db res"
    and close: "closeRun clk r a res reason now db = Inr (outcome, db')"
  shows "lifecycle_inv db'"
proof -
  from close obtain r1 a1 r2 a2 db1 where pol: "CloseAttempt r a reason now = Inr (outcome, r1, a1)"
    and rec: "closeAttemptRecords r1 a1 res outcome now db = Inr (r2, a2, db1)"
    and save: "recordRun clk r2 a2 ''attempt_closed'' now db1 = Inr db'"
    by (auto simp: closeRun_def result_simps)
  have same1: "same_row r0 r1"
    using pol same by (elim CloseAttempt_cases) (auto simp: same_run_def same_row_def finishRun_def)
  have inactive: "\<not> active (run_State r1)" using pol by (elim CloseAttempt_cases) (auto simp: finishRun_def)
  have "r2 = r1\<lparr>run_LeaseUntil := None, run_AttemptDeadline := None\<rparr>" "a2 = a1\<lparr>au_WorkerID := '''', au_SessionID := '''', au_ActiveCallID := None\<rparr>"
    using closeAttemptRecords_effect(1,2) [OF rec inv_parts(2) [OF inv] res] same1 by (simp_all add: same_row_def)
  then have "run_ok r2 a2" using CloseAttempt_ok [OF ok pol] inactive CloseAttempt_authority [OF pol] by (auto simp: run_ok_def)
  then show ?thesis by (rule close_records_inv [OF inv x act same1 inactive res rec _ save])
qed

lemma inv_frame:
  assumes "lifecycle_inv db" "runs db' = runs db" "run_attempts db' = run_attempts db" "slot_rows_ok (execution_slots db')"
    "\<And>k. slot_used k (execution_slots db') = slot_used k (execution_slots db)"
  shows "lifecycle_inv db'"
  using assms by (auto simp: lifecycle_inv_def slots_ok_def slot_rows_ok_def attempt_rows_ok_def load_def)

lemma inv_frame_eq:
  assumes "lifecycle_inv db" "runs db' = runs db" "run_attempts db' = run_attempts db" "execution_slots db' = execution_slots db"
  shows "lifecycle_inv db'"
  using assms inv_parts(2) [OF assms(1)] by (intro inv_frame [OF assms(1)]) simp_all

lemma ClaimExecution_effect:
  assumes "ClaimExecution r a w s now = Inr (lease, r', a')"
  shows "run_State r = Ready" "run_State r' = Running" "run_AttemptNo r' = run_AttemptNo r + 1" "rkey (r', b) = rkey (r, b)"
    "run_ProfileID r' = run_ProfileID r" "run_RunDeadline r' = run_RunDeadline r"
    "au_WorkerID a' = w" "au_SessionID a' = s" "au_FencingToken a' = au_FencingToken a + 1"
    "run_BusinessRequestID r' = run_BusinessRequestID r" "run_RetryOfRunID r' = run_RetryOfRunID r"
    "run_CursorVersion r' = run_CursorVersion r"
  using assms by (auto simp: ClaimExecution_def Let_def rkey_def split: if_splits)

lemma grantLease_inv:
  assumes inv: "lifecycle_inv db" and x: "(r, a) \<in> set (runs db)"
    and keys: "map skey ss = slotKeys r w"
    and found: "\<And>s. s \<in> set ss \<Longrightarrow> find_row (slotKey (skey s)) (execution_slots db) = Some s"
    and grant: "grantLease clk r a ss w sid now db = Inr (lease, r1, a1, db')"
  shows "lifecycle_inv db'"
proof -
  define new where "new = newAttempt r1 a1 w sid now"
  from grant obtain db1 where claim: "ClaimExecution r a w sid now = Inr (lease, r1, a1)"
    and fresh: "\<not> list_ex (attemptKey r1 (run_AttemptNo r1)) (run_attempts db)"
    and slots: "saveSlots ss 1 (db\<lparr>run_attempts := run_attempts db @ [new]\<rparr>) = Inr db1"
    and save: "recordRun clk r1 a1 ''claimed'' now db1 = Inr db'"
    by (auto simp: grantLease_def new_def result_simps split: if_splits)
  note c = ClaimExecution_effect [OF claim]
  have key: "rkey (r1, b) = rkey (r, b')" for b b' using c(4) [of b] by (simp add: rkey_def)
  have new: "akey new = (rkey (r, a), run_AttemptNo r + 1)" "ra_finished new = None" "ra_worker new = w" "ra_session new = sid"
      "ra_token new = au_FencingToken a1"
    using c key [of a1 a] by (auto simp: new_def newAttempt_def akey_def rkey_def)
  have dist: "distinct (map skey ss)" using keys slotKeys_distinct by simp
  from saveSlots_effect [OF slots _ dist] found inv_parts(2) [OF inv] obtain sl where
    db1: "db1 = db\<lparr>run_attempts := run_attempts db @ [new], execution_slots := sl\<rparr>" and sl: "slot_rows_ok sl"
      "\<And>k. slot_used k sl = slot_used k (execution_slots db) + (if k \<in> skey ` set ss then 1 else 0)" by auto
  from recordRun_effect [OF save] obtain n evs where
    db': "db' = db1\<lparr>runs := putRun (stamped clk r1, a1\<lparr>au_EventSequence := n\<rparr>) (runs db1), run_events := evs\<rparr>" by blast
  have old: "run_AttemptNo r + 1 \<noteq> ra_no z \<and> ra_finished z \<noteq> None" if "z \<in> set (run_attempts db)" "fst (akey z) = rkey (r, a)" for z
    using inv_parts(5) [OF inv x] that c(1) by (fastforce simp: row_attempts_def)
  have old_le: "ra_no z \<le> run_AttemptNo r" if "z \<in> set (run_attempts db)" "fst (akey z) = rkey (r, a)" for z
    using inv_parts(5) [OF inv x] that by (auto simp: row_attempts_def)
  have occ: "skey ` set ss = set (slotKeys r w)" using keys by (metis set_map)
  show ?thesis
  proof (rule put_inv [OF inv x, of "(stamped clk r1, a1\<lparr>au_EventSequence := n\<rparr>)"])
    show "rkey (stamped clk r1, a1\<lparr>au_EventSequence := n\<rparr>) = rkey (r, a)" using key by simp
    show "run_ok (fst (stamped clk r1, a1\<lparr>au_EventSequence := n\<rparr>)) (snd (stamped clk r1, a1\<lparr>au_EventSequence := n\<rparr>))"
      using ClaimExecution_ok [OF _ claim] inv_parts(4) [OF inv x] by (simp add: run_ok_stamped)
    show "runs db' = putRun (stamped clk r1, a1\<lparr>au_EventSequence := n\<rparr>) (runs db)" using db' db1 by simp
    have "slotKeys (stamped clk r1) w = slotKeys r w"
      using c(5) key [of a a] by (simp add: slotKeys_def rkey_def)
    then show "slot_used k (execution_slots db') = slot_used k (execution_slots db) - (if occupies k (r, a) then 1 else 0) +
        (if occupies k (stamped clk r1, a1\<lparr>au_EventSequence := n\<rparr>) then 1 else 0)" for k
      using sl(2) [of k] db' db1 c occ by (auto simp: occupies_def)
    have "akey new \<notin> akey ` set (run_attempts db)" using old_le new(1) by (fastforce simp: akey_def)
    then show "distinct (map akey (run_attempts db'))" using db' db1 inv_parts(3) [OF inv] by simp
    show "row_attempts (run_attempts db') (stamped clk r1, a1\<lparr>au_EventSequence := n\<rparr>)"
      unfolding row_attempts_def prod.case
      using old old_le new c key db' db1 by (fastforce simp: akey_def)
  qed (use db' db1 sl new(1) in auto)
qed

lemma lockSlots_inv:
  assumes inv: "lifecycle_inv db" and lock: "lockSlots (slotKeys r w) [Some c1, Some c2, Some c3] db = Inr (ss, db')"
    and caps: "0 \<le> c1" "0 \<le> c2" "0 \<le> c3"
  shows "lifecycle_inv db'" "runs db' = runs db" "worker_sessions db' = worker_sessions db"
    "run_operations db' = run_operations db" "map skey ss = slotKeys r w"
    "\<And>s. s \<in> set ss \<Longrightarrow> find_row (slotKey (skey s)) (execution_slots db') = Some s"
proof -
  have bound: "\<And>n. Some n \<in> set [Some c1, Some c2, Some c3] \<Longrightarrow> 0 \<le> n" using caps by auto
  from lockSlots_effect [OF lock inv_parts(2) [OF inv] bound] obtain new where new:
    "db' = db\<lparr>execution_slots := execution_slots db @ new\<rparr>" "slot_rows_ok (execution_slots db @ new)"
    "\<forall>k. slot_used k (execution_slots db @ new) = slot_used k (execution_slots db)" "map skey ss = slotKeys r w"
    "\<forall>s \<in> set ss. find_row (slotKey (skey s)) (execution_slots db @ new) = Some s" by (auto simp: slotKeys_def)
  show "lifecycle_inv db'" by (rule inv_frame [OF inv]) (use new in auto)
  show "runs db' = runs db" "worker_sessions db' = worker_sessions db" "run_operations db' = run_operations db"
    "map skey ss = slotKeys r w" "\<And>s. s \<in> set ss \<Longrightarrow> find_row (slotKey (skey s)) (execution_slots db') = Some s"
    using new by auto
qed

end
