(* ===== verification/RunLedger.thy ===== *)
theory RunLedger
  imports RunStoreInv
begin

text \<open>
  The call ledger of the Run store (\<open>ledger.go\<close>, \<open>provider_audit_report.go\<close> and the account
  rows of \<open>accounts.go\<close>): starting a tool, reserving a physical call against the three budget
  accounts, observing it, and settling its usage, with and without provider audit.

  What these transactions only read and may refuse on is a record of functions (\<open>read_checks\<close>):
  the audit guard of the batch, the checkpoint, and the registered strategy's checks on it. An
  insert that violates a primary key is \<open>ErrConflict\<close>, which the callers turn into
  \<open>ErrCallConflict\<close>. Every transaction reads the clock before the checks (\<open>now\<close>) and, where
  the source does, again before it commits (\<open>now2\<close>).
\<close>

section \<open>Accounts\<close>

fun reserveEach :: "budgetRow list \<Rightarrow> Usage \<Rightarrow> RunError + budgetRow list" where
  "reserveEach [] delta = Inr []"
| "reserveEach (b # bs) delta = bindE (ReserveAccount (br_Account b) delta) (\<lambda>acc.
     bindE (reserveEach bs delta) (\<lambda>rest. Inr (b\<lparr>br_Account := acc\<rparr> # rest)))"

definition reserveLedgerAccounts :: "budgetRow list \<Rightarrow> Usage \<Rightarrow> time \<Rightarrow> RunError + budgetRow list" where
  "reserveLedgerAccounts accounts delta now = bindE (accountsAvailable accounts now) (\<lambda>_. reserveEach accounts delta)"

text \<open>\<open>saveAccount\<close>: counters are written, a freeze is never lifted, the first stop code stays.\<close>

definition savedAccount :: "Account \<Rightarrow> Account \<Rightarrow> Account" where
  "savedAccount new old = old\<lparr>ac_Used := ac_Used new, ac_KnownTokens := ac_KnownTokens new,
     ac_KnownCostMicroyuan := ac_KnownCostMicroyuan new, ac_HeldTokens := ac_HeldTokens new,
     ac_HeldCostMicroyuan := ac_HeldCostMicroyuan new, ac_Frozen := ac_Frozen old \<or> ac_Frozen new,
     ac_BatchStopCode := (if ac_BatchStopCode old \<noteq> '''' then ac_BatchStopCode old else ac_BatchStopCode new)\<rparr>"

definition saveAccount :: "budgetRow \<Rightarrow> run_db \<Rightarrow> run_db" where
  "saveAccount b db = db\<lparr>budget_accounts := update_where (\<lambda>x. ac_ID (br_Account x) = ac_ID (br_Account b))
     (\<lambda>x. x\<lparr>br_Account := savedAccount (br_Account b) (br_Account x)\<rparr>) (budget_accounts db)\<rparr>"

definition saveLedgerAccounts :: "budgetRow list \<Rightarrow> run_db \<Rightarrow> run_db" where
  "saveLedgerAccounts accounts db = fold saveAccount accounts db"

definition accountsUnfrozen :: "budgetRow list \<Rightarrow> RunError + unit" where
  "accountsUnfrozen accounts = ensureE (\<not> list_ex (\<lambda>b. ac_Frozen (br_Account b)) accounts) ErrBudgetExhausted"

section \<open>Tools\<close>

record 'c read_checks =
  rc_guard :: "run_db \<Rightarrow> string \<Rightarrow> Profile \<Rightarrow> Run \<Rightarrow> Authority \<Rightarrow> time \<Rightarrow> RunError + unit"
  rc_loadCheckpoint :: "run_db \<Rightarrow> Run \<Rightarrow> Authority \<Rightarrow> RunError + 'c"
  rc_CheckSupportAgentTool :: "Profile \<Rightarrow> 'c \<Rightarrow> string \<Rightarrow> RunError + unit"
  rc_CheckPolicyBundleStep :: "Profile \<Rightarrow> 'c \<Rightarrow> string \<Rightarrow> RunError + unit"
  rc_CheckStatusPolicyAdjudication :: "Profile \<Rightarrow> 'c \<Rightarrow> RunError + unit"

definition SupportAgentStrategy :: string where "SupportAgentStrategy = ''support_agent_v1''"

record BeginToolRequest =
  bg_Lease :: Lease
  bg_Step :: StepIdentity
  bg_ToolInvocationID :: string

definition toolMatches :: "toolRow \<Rightarrow> BeginToolRequest \<Rightarrow> bool" where
  "toolMatches t req \<longleftrightarrow> tr_TenantID t = ls_TenantID (bg_Lease req) \<and> tr_RunID t = ls_RunID (bg_Lease req) \<and>
     tr_StepID t = st_ID (bg_Step req) \<and> tr_Name t = st_Kind (bg_Step req) \<and> tr_InputHash t = st_InputHash (bg_Step req) \<and>
     tr_AttemptNo t = ls_AttemptNo (bg_Lease req) \<and> tr_FencingToken t = ls_FencingToken (bg_Lease req)"

definition readTool :: "string \<Rightarrow> run_db \<Rightarrow> toolRow option" where
  "readTool i db = find_row (\<lambda>t. tr_ID t = i) (tool_invocations db)"

definition callConflict :: "RunError + 'a \<Rightarrow> RunError + 'a" where
  "callConflict m = (case m of Inl e \<Rightarrow> Inl (if e = ErrConflict then ErrCallConflict else e) | Inr x \<Rightarrow> Inr x)"

text \<open>The strategy's check on the checkpoint before a tool is started.\<close>

definition toolAllowed :: "'c read_checks \<Rightarrow> Profile \<Rightarrow> Run \<Rightarrow> Authority \<Rightarrow> string \<Rightarrow> run_db \<Rightarrow> RunError + unit" where
  "toolAllowed rc profile r a kind db =
     (if pf_Strategy profile = SupportAgentStrategy
      then bindE (rc_loadCheckpoint rc db r a) (\<lambda>c. rc_CheckSupportAgentTool rc profile c kind)
      else if PolicyBundleEnabled profile
      then bindE (rc_loadCheckpoint rc db r a) (\<lambda>c. rc_CheckPolicyBundleStep rc profile c kind)
      else Inr ())"

definition BeginTool :: "store_config \<Rightarrow> 'c read_checks \<Rightarrow> string \<Rightarrow> BeginToolRequest \<Rightarrow> time \<Rightarrow> time \<Rightarrow> run_db \<Rightarrow> RunError + (bool \<times> run_db)" where
  "BeginTool cfg rc caller req now now2 db =
     (if \<not> ValidUUID (cfg_parseUUID cfg) (bg_ToolInvocationID req) \<or> \<not> validateLedgerLease cfg (bg_Lease req) \<or>
         ToolSequence (st_Kind (bg_Step req)) = [] then Inl ErrInvalidArgument
      else callConflict (bindE (lockRun (ls_TenantID (bg_Lease req)) (ls_RunID (bg_Lease req)) db) (\<lambda>(r, a).
      bindE (loadAccounts (run_TenantID r) (run_BusinessRequestID r) db) (\<lambda>accounts.
      bindE (ledgerExecution cfg caller r a (bg_Lease req) (bg_Step req) now db) (\<lambda>_.
      case readTool (bg_ToolInvocationID req) db of
        Some prior \<Rightarrow> if \<not> toolMatches prior req then Inl ErrCallConflict else Inr (False, db)
      | None \<Rightarrow>
        if au_ActiveCallID a \<noteq> None then Inl ErrCallConflict
        else bindE (ledgerProfile cfg r True db) (\<lambda>profile.
        bindE (rc_guard rc db (ac_ID (br_Account (accounts ! 2))) profile r a now) (\<lambda>_.
        bindE (toolAllowed rc profile r a (st_Kind (bg_Step req)) db) (\<lambda>_.
        bindE (reserveLedgerAccounts accounts (no_usage\<lparr>us_LogicalTools := 1\<rparr>) now) (\<lambda>accounts'.
        let db1 = db\<lparr>tool_invocations := tool_invocations db @ [\<lparr>tr_ID = bg_ToolInvocationID req, tr_TenantID = run_TenantID r,
              tr_RunID = run_ID r, tr_StepID = st_ID (bg_Step req), tr_Name = st_Kind (bg_Step req),
              tr_InputHash = st_InputHash (bg_Step req), tr_AttemptNo = ls_AttemptNo (bg_Lease req),
              tr_FencingToken = ls_FencingToken (bg_Lease req)\<rparr>]\<rparr>;
            db2 = saveLedgerAccounts accounts' db1 in
        bindE (ledgerExecution cfg caller r a (bg_Lease req) (bg_Step req) now2 db2) (\<lambda>_.
        bindE (accountsAvailable accounts' now2) (\<lambda>_. Inr (True, db2))))))))))))"

section \<open>Reserving a call\<close>

record ReserveCallRequest =
  rq_Lease :: Lease
  rq_Step :: StepIdentity
  rq_PhysicalCallID :: string
  rq_ToolInvocationID :: string
  rq_Subcall :: Subcall
  rq_ParameterHash :: string
  rq_PriceHash :: string

definition IsModelStep :: "string \<Rightarrow> bool" where
  "IsModelStep kind \<longleftrightarrow> kind = ''model_proposal'' \<or> kind = ''model_decision'' \<or> kind = ''protocol_correction''"

definition readCall :: "Run \<Rightarrow> string \<Rightarrow> run_db \<Rightarrow> callRow option" where
  "readCall r i db = find_row (callKey r i) (physical_calls db)"

text \<open>A finished call of a tool's sequence, as \<open>checkSubcall\<close> and the commit want it.\<close>

definition subcallDone :: "callRow \<Rightarrow> Subcall \<Rightarrow> bool" where
  "subcallDone c subcall \<longleftrightarrow> pc_Subcall c = subcall \<and> pc_TransportOutcome c = Some ''response'' \<and>
     pc_BusinessOutcome c = Some ''accepted'' \<and> pc_ObservationHash c \<noteq> None"

fun sequencePosition :: "callRow list \<Rightarrow> Subcall list \<Rightarrow> (Subcall list) option" where
  "sequencePosition [] rest = Some rest"
| "sequencePosition (c # cs) [] = None"
| "sequencePosition (c # cs) (s # rest) = (if subcallDone c s then sequencePosition cs rest else None)"

definition toolCalls :: "Lease \<Rightarrow> string \<Rightarrow> run_db \<Rightarrow> callRow list" where
  "toolCalls lease tool db = sort_key pc_Ordinal (filter (\<lambda>c. ls_TenantID (pc_Lease c) = ls_TenantID lease \<and>
     ls_RunID (pc_Lease c) = ls_RunID lease \<and> pc_ToolInvocationID c = tool) (physical_calls db))"

definition checkSubcall :: "ReserveCallRequest \<Rightarrow> toolRow option \<Rightarrow> run_db \<Rightarrow> RunError + unit" where
  "checkSubcall req tool db =
     (if rq_Subcall req = SubcallChat then
        ensureE (\<not> (rq_ToolInvocationID req \<noteq> '''' \<or> \<not> IsModelStep (st_Kind (rq_Step req)))) ErrCallConflict
      else if rq_ToolInvocationID req = '''' \<or> (case tool of None \<Rightarrow> True | Some t \<Rightarrow>
         \<not> toolMatches t \<lparr>bg_Lease = rq_Lease req, bg_Step = rq_Step req, bg_ToolInvocationID = rq_ToolInvocationID req\<rparr>)
      then Inl ErrCallConflict
      else case sequencePosition (toolCalls (rq_Lease req) (rq_ToolInvocationID req) db) (ToolSequence (st_Kind (rq_Step req))) of
        Some (next # _) \<Rightarrow> ensureE (rq_Subcall req = next) ErrCallConflict
      | _ \<Rightarrow> Inl ErrCallConflict)"

definition restoreCallBudget :: "callRow \<Rightarrow> Profile \<Rightarrow> RunError + CallBudget" where
  "restoreCallBudget c p =
     (if pf_Hash p \<noteq> pc_ProfileHash c \<or> pr_Hash (pf_Pricing p) \<noteq> pc_PriceHash c then Inl ErrProfileUnavailable
      else bindE (ReservationBudgetForStep p (pc_StepKind c) (pc_Subcall c)) (\<lambda>budget.
        if cb_TotalTokens budget \<noteq> pc_TotalTokens c \<or> cb_CostMicroyuan budget \<noteq> pc_CostMicroyuan c then Inl ErrInternal
        else Inr budget))"

definition callOrdinal :: "Run \<Rightarrow> run_db \<Rightarrow> int" where
  "callOrdinal r db = foldr max (map pc_Ordinal (filter (\<lambda>c. ls_TenantID (pc_Lease c) = run_TenantID r \<and>
     ls_RunID (pc_Lease c) = run_ID r) (physical_calls db))) 0 + 1"

definition callAllowed :: "'c read_checks \<Rightarrow> Profile \<Rightarrow> Run \<Rightarrow> Authority \<Rightarrow> ReserveCallRequest \<Rightarrow> run_db \<Rightarrow> RunError + unit" where
  "callAllowed rc profile r a req db =
     bindE (if StatusPolicyEnabled profile \<and> st_Kind (rq_Step req) = ''model_proposal'' \<and> rq_Subcall req = SubcallChat
       then bindE (rc_loadCheckpoint rc db r a) (\<lambda>c. rc_CheckStatusPolicyAdjudication rc profile c) else Inr ()) (\<lambda>_.
     if PolicyBundleEnabled profile
     then bindE (rc_loadCheckpoint rc db r a) (\<lambda>c. rc_CheckPolicyBundleStep rc profile c (st_Kind (rq_Step req)))
     else Inr ())"

text \<open>The call row of a reservation.\<close>

definition newCall :: "Run \<Rightarrow> ReserveCallRequest \<Rightarrow> Profile \<Rightarrow> CallBudget \<Rightarrow> budgetRow list \<Rightarrow> int \<Rightarrow> string \<Rightarrow> time \<Rightarrow> callRow" where
  "newCall r req profile budget accounts ordinal binding now =
     (let limit = fold (\<lambda>b limit. minTime limit (br_ValidUntil b)) accounts (run_RunDeadline r);
          limit' = minTime limit (the (run_AttemptDeadline r));
          callDeadline = minTime (now + CallTimeout profile (st_Kind (rq_Step req)) (rq_Subcall req)) limit';
          dispatchExpiry = minTime (the (run_LeaseUntil r)) callDeadline in
      \<lparr>pc_PhysicalCallID = rq_PhysicalCallID req, pc_ToolInvocationID = rq_ToolInvocationID req, pc_Subcall = rq_Subcall req,
       pc_ParameterHash = rq_ParameterHash req, pc_PriceHash = rq_PriceHash req, pc_Ordinal = ordinal, pc_ReservedAt = now,
       pc_DispatchExpiresAt = dispatchExpiry, pc_CallDeadline = callDeadline, pc_TotalTokens = cb_TotalTokens budget,
       pc_CostMicroyuan = cb_CostMicroyuan budget, pc_Lease = rq_Lease req, pc_StepID = st_ID (rq_Step req),
       pc_StepKind = st_Kind (rq_Step req), pc_Kind = CallKind (rq_Subcall req), pc_ProfileHash = st_ProfileHash (rq_Step req),
       pc_Status = ''reserved'', pc_ObservationHash = None, pc_UsageHash = None, pc_TransportOutcome = None,
       pc_BusinessOutcome = None, pc_MeasurementAnomaly = False, pc_Usage = None, pc_ExecutionBindingHash = binding,
       pc_ReportHash = '''', pc_Report = None, pc_ReportRecordedAt = None, pc_ReportConflictHash = None, pc_HTTPStatus = None,
       pc_ErrorCode = None, pc_ObservedAt = None, pc_SettledAt = None, pc_KnownTokens = 0, pc_KnownCostMicroyuan = 0\<rparr>)"

text \<open>The answer to a repeated reservation: the row as it is, if it is the same request.\<close>

definition sameReservation :: "callRow \<Rightarrow> ReserveCallRequest \<Rightarrow> bool" where
  "sameReservation c req \<longleftrightarrow> pc_Lease c = rq_Lease req \<and> pc_StepID c = st_ID (rq_Step req) \<and> pc_StepKind c = st_Kind (rq_Step req) \<and>
     pc_ToolInvocationID c = rq_ToolInvocationID req \<and> pc_Subcall c = rq_Subcall req \<and>
     pc_ParameterHash c = rq_ParameterHash req \<and> pc_PriceHash c = rq_PriceHash req \<and> pc_ProfileHash c = st_ProfileHash (rq_Step req)"

definition checkBinding :: "store_config \<Rightarrow> Profile \<Rightarrow> Lease \<Rightarrow> StepIdentity \<Rightarrow> callRow \<Rightarrow> RunError + unit" where
  "checkBinding cfg profile lease step c =
     (if AuditEnabled profile
      then ensureE (ExecutionBindingHash (cfg_parseUUID cfg) (cfg_sha cfg) lease step = Inr (pc_ExecutionBindingHash c)) ErrCallConflict
      else Inr ())"

definition replayReservation :: "store_config \<Rightarrow> Profile \<Rightarrow> ReserveCallRequest \<Rightarrow> callRow \<Rightarrow> RunError + callRow" where
  "replayReservation cfg profile req prior =
     (if \<not> sameReservation prior req then Inl ErrCallConflict
      else bindE (restoreCallBudget prior profile) (\<lambda>_.
        bindE (checkBinding cfg profile (rq_Lease req) (rq_Step req) prior) (\<lambda>_. Inr prior)))"

text \<open>The grant of a new reservation to the locked Run.\<close>

definition grantCall ::
    "store_config \<Rightarrow> 'c read_checks \<Rightarrow> string \<Rightarrow> ReserveCallRequest \<Rightarrow> Profile \<Rightarrow> budgetRow list \<Rightarrow> Run \<Rightarrow> Authority \<Rightarrow>
     time \<Rightarrow> time \<Rightarrow> run_db \<Rightarrow> RunError + (callRow \<times> run_db)" where
  "grantCall cfg rc caller req profile accounts r a now now2 db =
     bindE (callAllowed rc profile r a req db) (\<lambda>_.
     bindE (rc_guard rc db (ac_ID (br_Account (accounts ! 2))) profile r a now) (\<lambda>_.
     bindE (ReservationBudgetForStep profile (st_Kind (rq_Step req)) (rq_Subcall req)) (\<lambda>budget.
     bindE (reserveLedgerAccounts accounts (ReservationUsage (st_Kind (rq_Step req)) (rq_Subcall req) budget) now) (\<lambda>accounts'.
     let ordinal = callOrdinal r db in
     if ordinal > 44 then Inl ErrBudgetExhausted
     else bindE (if AuditEnabled profile then ExecutionBindingHash (cfg_parseUUID cfg) (cfg_sha cfg) (rq_Lease req) (rq_Step req)
        else Inr '''') (\<lambda>binding.
     let call = newCall r req profile budget accounts' ordinal binding now in
     if list_ex (\<lambda>c. pc_PhysicalCallID c = rq_PhysicalCallID req) (physical_calls db) then Inl ErrConflict
     else let db1 = saveLedgerAccounts accounts' (db\<lparr>physical_calls := physical_calls db @ [call]\<rparr>);
         a' = a\<lparr>au_ActiveCallID := Some (rq_PhysicalCallID req)\<rparr>;
         r' = r\<lparr>run_UpdatedAt := now\<rparr>;
         db2 = saveRun now2 r' a' db1 in
     bindE (ledgerExecution cfg caller r' a' (rq_Lease req) (rq_Step req) now2 db2) (\<lambda>_.
     bindE (accountsAvailable accounts' now2) (\<lambda>_.
     if \<not> pc_DispatchExpiresAt call > now2 then Inl ErrStaleLease
     else Inr (call, db2))))))))"

definition ReserveCall ::
    "store_config \<Rightarrow> 'c read_checks \<Rightarrow> string \<Rightarrow> ReserveCallRequest \<Rightarrow> time \<Rightarrow> time \<Rightarrow> run_db \<Rightarrow> RunError + ((callRow \<times> bool) \<times> run_db)" where
  "ReserveCall cfg rc caller req now now2 db =
     (if st_Kind (rq_Step req) = ''apply_ticket_resolution'' then Inl ErrInvalidTransition
      else if \<not> validateLedgerLease cfg (rq_Lease req) \<or> \<not> ValidUUID (cfg_parseUUID cfg) (rq_PhysicalCallID req) \<or>
         \<not> ValidHash (rq_ParameterHash req) \<or> \<not> ValidHash (rq_PriceHash req) \<or> CallKind (rq_Subcall req) = '''' \<or>
         (rq_ToolInvocationID req \<noteq> '''' \<and> \<not> ValidUUID (cfg_parseUUID cfg) (rq_ToolInvocationID req)) then Inl ErrInvalidArgument
      else callConflict (bindE (lockRun (ls_TenantID (rq_Lease req)) (ls_RunID (rq_Lease req)) db) (\<lambda>(r, a).
      bindE (loadAccounts (run_TenantID r) (run_BusinessRequestID r) db) (\<lambda>accounts.
      let tool = (if rq_ToolInvocationID req = '''' then None else readTool (rq_ToolInvocationID req) db) in
      if rq_ToolInvocationID req \<noteq> '''' \<and> tool = None then Inl ErrCallConflict
      else bindE (ledgerExecution cfg caller r a (rq_Lease req) (rq_Step req) now db) (\<lambda>_.
      bindE (ledgerProfile cfg r False db) (\<lambda>profile.
      case readCall r (rq_PhysicalCallID req) db of
        Some prior \<Rightarrow> bindE (replayReservation cfg profile req prior) (\<lambda>c. Inr ((c, False), db))
      | None \<Rightarrow>
        if au_ActiveCallID a \<noteq> None then Inl ErrCallConflict
        else if (case map_of (cfg_profiles cfg) (run_ProfileID r) of None \<Rightarrow> True
            | Some registered \<Rightarrow> \<not> pf_Executable registered \<or> pf_Hash registered \<noteq> pf_Hash profile) then Inl ErrProfileUnavailable
        else if pr_Hash (pf_Pricing profile) \<noteq> rq_PriceHash req then Inl ErrProfileUnavailable
        else bindE (checkSubcall req tool db) (\<lambda>_.
        bindE (grantCall cfg rc caller req profile accounts r a now now2 db) (\<lambda>(c, db1). Inr ((c, True), db1)))))))))"

section \<open>Settling usage\<close>

definition updateCall :: "callRow \<Rightarrow> (callRow \<Rightarrow> callRow) \<Rightarrow> run_db \<Rightarrow> run_db" where
  "updateCall call f db = db\<lparr>physical_calls := update_where (\<lambda>c. ls_TenantID (pc_Lease c) = ls_TenantID (pc_Lease call) \<and>
     ls_RunID (pc_Lease c) = ls_RunID (pc_Lease call) \<and> pc_PhysicalCallID c = pc_PhysicalCallID call) f (physical_calls db)\<rparr>"

fun settleEach :: "budgetRow list \<Rightarrow> int \<Rightarrow> int \<Rightarrow> int \<Rightarrow> int \<Rightarrow> RunError + budgetRow list" where
  "settleEach [] ht hc kt kc = Inr []"
| "settleEach (b # bs) ht hc kt kc = bindE (SettleAccount (br_Account b) ht hc kt kc) (\<lambda>acc.
     bindE (settleEach bs ht hc kt kc) (\<lambda>rest. Inr (b\<lparr>br_Account := acc\<rparr> # rest)))"

definition freezeAccounts :: "budgetRow list \<Rightarrow> budgetRow list" where
  "freezeAccounts accounts = map (\<lambda>b. b\<lparr>br_Account := (br_Account b)\<lparr>ac_Frozen := True\<rparr>\<rparr>) accounts"

text \<open>The anomaly test of an unaudited report, with the cost it is priced at.\<close>

definition usageAnomaly :: "callRow \<Rightarrow> Profile \<Rightarrow> CallBudget \<Rightarrow> UsageReport \<Rightarrow> RunError + (bool \<times> int)" where
  "usageAnomaly call profile budget usage =
     (let anomaly = (ur_InputTokens usage > cb_InputTokens budget \<or> ur_OutputTokens usage > cb_OutputTokens budget \<or>
            ur_InputTokens usage > MaxSafeInteger - ur_OutputTokens usage \<or>
            (pc_Kind call = ''query_embedding'' \<and> ur_CachedInputTokens usage \<noteq> 0)) in
      if pc_Kind call = ''chat'' then
        (case UsageCost (pf_Pricing profile) usage of
           Inl e \<Rightarrow> if e = ErrBudgetExhausted then Inr (True, 0) else Inl e
         | Inr cost \<Rightarrow> Inr (anomaly \<or> cost > cb_CostMicroyuan budget, cost))
      else Inr (anomaly \<or> 0 > cb_CostMicroyuan budget, 0))"

definition anomalousCall :: "UsageReport \<Rightarrow> callRow \<Rightarrow> callRow" where
  "anomalousCall usage c = c\<lparr>pc_Status := ''unknown'', pc_MeasurementAnomaly := True, pc_UsageHash := Some (ur_UsageHash usage),
     pc_Usage := Some usage\<rparr>"

definition settledCall :: "UsageReport \<Rightarrow> int \<Rightarrow> int \<Rightarrow> time \<Rightarrow> callRow \<Rightarrow> callRow" where
  "settledCall usage tokens cost now c = c\<lparr>pc_Status := ''known'', pc_UsageHash := Some (ur_UsageHash usage), pc_Usage := Some usage,
     pc_KnownTokens := tokens, pc_KnownCostMicroyuan := cost, pc_SettledAt := Some now\<rparr>"

definition settleLedgerUsage ::
    "store_config \<Rightarrow> callRow \<Rightarrow> CallBudget \<Rightarrow> Profile \<Rightarrow> budgetRow list \<Rightarrow> UsageReport \<Rightarrow> time \<Rightarrow> run_db \<Rightarrow>
     RunError + (bool \<times> callRow \<times> run_db)" where
  "settleLedgerUsage cfg call budget profile accounts usage now db =
     (if \<not> pc_ReservedAt call + UsageSettlementWindow > now then Inl ErrCallSettlementExpired
      else case pc_UsageHash call of
        Some h \<Rightarrow> if h \<noteq> ur_UsageHash usage then Inl ErrCallConflict else Inr (False, call, db)
      | None \<Rightarrow>
        if pc_Kind call \<noteq> ''chat'' \<and> pc_Kind call \<noteq> ''query_embedding'' then Inl ErrInvalidArgument
        else bindE (UsageReportValidate (cfg_sha cfg) usage) (\<lambda>_.
        bindE (usageAnomaly call profile budget usage) (\<lambda>(anomaly, cost).
        if anomaly then
          Inr (False, anomalousCall usage call, updateCall call (anomalousCall usage) (saveLedgerAccounts (freezeAccounts accounts) db))
        else let tokens = ur_InputTokens usage + ur_OutputTokens usage in
          bindE (settleEach accounts (cb_TotalTokens budget) (cb_CostMicroyuan budget) tokens cost) (\<lambda>accounts'.
          Inr (True, settledCall usage tokens cost now call,
               updateCall call (settledCall usage tokens cost now) (saveLedgerAccounts accounts' db))))))"

section \<open>Audited reports\<close>

definition reportBinding :: "callRow \<Rightarrow> Profile \<Rightarrow> ReportBinding" where
  "reportBinding call profile = \<lparr>rb_ExecutionBindingHash = pc_ExecutionBindingHash call, rb_PhysicalCallID = pc_PhysicalCallID call,
     rb_ParameterHash = pc_ParameterHash call, rb_Subcall = pc_Subcall call,
     rb_ExpectedResponseModel = pf_ExpectedResponseModel profile, rb_AllowThinking = ThinkingStep profile (pc_StepKind call)\<rparr>"

definition freezeBatch :: "string \<Rightarrow> budgetRow \<Rightarrow> budgetRow" where
  "freezeBatch reason b = b\<lparr>br_Account := (br_Account b)\<lparr>ac_Frozen := True,
     ac_BatchStopCode := (if ac_BatchStopCode (br_Account b) = '''' then reason else ac_BatchStopCode (br_Account b))\<rparr>\<rparr>"

definition freezeReportBatch :: "string \<Rightarrow> budgetRow list \<Rightarrow> budgetRow list" where
  "freezeReportBatch reason accounts = accounts[2 := freezeBatch reason (accounts ! 2)]"

record SettleUsageRequest =
  su_Lease :: Lease
  su_PhysicalCallID :: string
  su_Usage :: "UsageReport option"
  su_ProviderAudit :: "ProviderAudit option"
  su_ReportHash :: string

text \<open>The row after its first report.\<close>

definition reportedCall :: "CallReport \<Rightarrow> string \<Rightarrow> ReportDisposition \<Rightarrow> time \<Rightarrow> callRow \<Rightarrow> callRow" where
  "reportedCall report hash d now c = c\<lparr>pc_ReportHash := hash, pc_Report := Some report, pc_ReportRecordedAt := Some now,
     pc_Status := (if rd_UsageKnown d then ''known'' else ''unknown''), pc_MeasurementAnomaly := rd_MeasurementAnomaly d,
     pc_UsageHash := (if rd_UsageKnown d \<or> rd_MeasurementAnomaly d then map_option ur_UsageHash (cr_Usage report) else None),
     pc_Usage := (if rd_UsageKnown d \<or> rd_MeasurementAnomaly d then cr_Usage report else None),
     pc_KnownTokens := (if rd_UsageKnown d then rd_KnownTokens d else 0),
     pc_KnownCostMicroyuan := (if rd_UsageKnown d then rd_KnownCostMicroyuan d else 0),
     pc_SettledAt := (if rd_UsageKnown d then Some now else None)\<rparr>"

text \<open>The answer is (newly settled, report conflict) and the call.\<close>

definition settleCallReport ::
    "store_config \<Rightarrow> callRow \<Rightarrow> CallBudget \<Rightarrow> Profile \<Rightarrow> budgetRow list \<Rightarrow> SettleUsageRequest \<Rightarrow> time \<Rightarrow> run_db \<Rightarrow>
     RunError + ((bool \<times> bool) \<times> callRow \<times> run_db)" where
  "settleCallReport cfg call budget profile accounts req now db =
     (if \<not> pc_ReservedAt call + UsageSettlementWindow > now then Inl ErrCallSettlementExpired
      else let report = \<lparr>cr_Usage = su_Usage req, cr_ProviderAudit = su_ProviderAudit req\<rparr>;
               encode = CallReportJSON (cfg_marshalAudit cfg) (cfg_marshalReport cfg) (cfg_sha cfg) in
      bindE (ReportVerify (cfg_parseUUID cfg) (cfg_sha cfg) (reportBinding call profile) report (su_ReportHash req)) (\<lambda>_.
      bindE (encode report) (\<lambda>body.
      case pc_Report call of
        Some original \<Rightarrow>
          if pc_ReportHash call = su_ReportHash req then
            bindE (ensureE (encode original = Inr body) ErrCallConflict) (\<lambda>_. Inr ((False, False), call, db))
          else Inr ((False, True), call,
            saveAccount (freezeBatch BatchStopReportConflict (accounts ! 2))
              (updateCall call (\<lambda>c. c\<lparr>pc_ReportConflictHash := (case pc_ReportConflictHash c of None \<Rightarrow> Some (su_ReportHash req) | Some h \<Rightarrow> Some h)\<rparr>) db))
      | None \<Rightarrow>
        if pc_ReportHash call \<noteq> '''' \<or> pc_UsageHash call \<noteq> None then Inl ErrInternal
        else bindE (FirstReportDisposition (cfg_parseUUID cfg) (cfg_sha cfg) (reportBinding call profile) report budget (pf_Pricing profile)) (\<lambda>d.
        bindE (if rd_MeasurementAnomaly d then Inr (freezeAccounts accounts)
          else if rd_UsageKnown d then settleEach accounts (cb_TotalTokens budget) (cb_CostMicroyuan budget) (rd_KnownTokens d) (rd_KnownCostMicroyuan d)
          else Inr accounts) (\<lambda>accounts1.
        let accounts2 = (if rd_BatchStopCode d \<noteq> '''' then freezeReportBatch (rd_BatchStopCode d) accounts1 else accounts1) in
        Inr ((rd_UsageKnown d, False), reportedCall report (su_ReportHash req) d now call,
          updateCall call (reportedCall report (su_ReportHash req) d now) (saveLedgerAccounts accounts2 db)))))))"

definition checkAuditObservation :: "store_config \<Rightarrow> callRow \<Rightarrow> Profile \<Rightarrow> ObserveCallRequest \<Rightarrow> RunError + string" where
  "checkAuditObservation cfg call profile req =
     (let chat = (pc_Subcall call = SubcallChat) in
      if \<not> AuditEnabled profile then
        if oc_AuditHash req \<noteq> '''' then Inl ErrInvalidArgument else Inr (ObserveHash (cfg_sha cfg) req)
      else if chat \<and> (oc_AuditHash req = '''' \<or> \<not> oc_UsageKnown req \<or> oc_Usage req = None \<or>
         oc_TransportOutcome req \<noteq> ''response'' \<or> oc_HTTPStatus req \<noteq> 200) then Inl ErrCallConflict
      else if chat \<and> (case pc_Report call of None \<Rightarrow> True
         | Some report \<Rightarrow> \<not> AllowsProviderAudit profile (pc_StepKind call) (cr_ProviderAudit report)) then Inl ErrCallConflict
      else if \<not> chat \<and> oc_AuditHash req \<noteq> '''' then Inl ErrInvalidArgument
      else if oc_Usage req \<noteq> None \<or> chat then
        if oc_Usage req = None \<or> \<not> oc_UsageKnown req \<or> pc_Status call \<noteq> ''known'' \<or> pc_MeasurementAnomaly call \<or>
           pc_ReportConflictHash call \<noteq> None \<or>
           (case pc_Report call of None \<Rightarrow> True | Some report \<Rightarrow> cr_Usage report = None \<or> cr_Usage report \<noteq> oc_Usage req \<or>
              (case cr_ProviderAudit report of None \<Rightarrow> '''' | Some a \<Rightarrow> pa_AuditHash a) \<noteq> oc_AuditHash req \<or>
              \<not> isOk (ReportVerify (cfg_parseUUID cfg) (cfg_sha cfg) (reportBinding call profile) report (pc_ReportHash call)))
        then Inl ErrCallConflict
        else ObservationHashV2 (cfg_parseUUID cfg) (cfg_sha cfg) req (oc_AuditHash req)
      else if pc_Report call \<noteq> None then Inl ErrCallConflict
      else ObservationHashV2 (cfg_parseUUID cfg) (cfg_sha cfg) req (oc_AuditHash req))"

section \<open>Observation and late settlement\<close>

definition observedCall :: "ObserveCallRequest \<Rightarrow> string \<Rightarrow> time \<Rightarrow> callRow \<Rightarrow> callRow" where
  "observedCall req hash now c = (markUnknown c)\<lparr>pc_TransportOutcome := Some (oc_TransportOutcome req),
     pc_BusinessOutcome := Some (oc_BusinessOutcome req), pc_ObservationHash := Some hash, pc_ObservedAt := Some now,
     pc_HTTPStatus := Some (oc_HTTPStatus req), pc_ErrorCode := Some (oc_ErrorCode req)\<rparr>"

text \<open>What the observation does with the locked rows.\<close>

definition observeLocked ::
    "store_config \<Rightarrow> string \<Rightarrow> ObserveCallRequest \<Rightarrow> time \<Rightarrow> Run \<Rightarrow> Authority \<Rightarrow> budgetRow list \<Rightarrow> callRow \<Rightarrow> run_db \<Rightarrow> RunError + (callRow \<times> run_db)" where
  "observeLocked cfg caller req now r a accounts call db =
     bindE (ledgerExecution cfg caller r a (oc_Lease req) (oc_Step req) now db) (\<lambda>_.
     if pc_Lease call \<noteq> oc_Lease req \<or> pc_StepID call \<noteq> st_ID (oc_Step req) \<or> pc_StepKind call \<noteq> st_Kind (oc_Step req) \<or>
        pc_ProfileHash call \<noteq> st_ProfileHash (oc_Step req) then Inl ErrCallConflict
     else bindE (ledgerProfile cfg r False db) (\<lambda>profile.
     bindE (restoreCallBudget call profile) (\<lambda>budget.
     bindE (if AuditEnabled profile then bindE (accountsUnfrozen accounts) (\<lambda>_. checkBinding cfg profile (oc_Lease req) (oc_Step req) call)
       else Inr ()) (\<lambda>_.
     bindE (checkAuditObservation cfg call profile req) (\<lambda>hash.
     case pc_ObservationHash call of
       Some h \<Rightarrow> if h \<noteq> hash then Inl ErrCallConflict else Inr (call, db)
     | None \<Rightarrow>
       if au_ActiveCallID a \<noteq> Some (oc_PhysicalCallID req) then Inl ErrCallConflict
       else bindE (case oc_Usage req of
           Some usage \<Rightarrow> if AuditEnabled profile then Inr (False, call, db)
             else settleLedgerUsage cfg call budget profile accounts usage now db
         | None \<Rightarrow> Inr (False, call, db)) (\<lambda>(_, call1, db1).
       let db2 = updateCall call (observedCall req hash now) db1 in
       Inr (call1, saveRun now (r\<lparr>run_UpdatedAt := now\<rparr>) (a\<lparr>au_ActiveCallID := None\<rparr>) db2)))))))"

definition ObserveCall :: "store_config \<Rightarrow> string \<Rightarrow> ObserveCallRequest \<Rightarrow> time \<Rightarrow> run_db \<Rightarrow> RunError + (callRow \<times> run_db)" where
  "ObserveCall cfg caller req now db =
     (if \<not> validateLedgerLease cfg (oc_Lease req) \<or> \<not> isOk (ObserveValidate (cfg_parseUUID cfg) (cfg_sha cfg) req) then Inl ErrInvalidArgument
      else bindE (lockRun (ls_TenantID (oc_Lease req)) (ls_RunID (oc_Lease req)) db) (\<lambda>(r, a).
      bindE (loadAccounts (run_TenantID r) (run_BusinessRequestID r) db) (\<lambda>accounts.
      case readCall r (oc_PhysicalCallID req) db of
        None \<Rightarrow> Inl ErrNotFound
      | Some call \<Rightarrow> observeLocked cfg caller req now r a accounts call db)))"

record SettleUsageResponse =
  sx_NewlySettled :: bool
  sx_ReportConflict :: bool
  sx_Reservation :: callRow
  sx_BatchFrozen :: bool
  sx_BatchStopCode :: string

definition settleReported ::
    "store_config \<Rightarrow> callRow \<Rightarrow> CallBudget \<Rightarrow> Profile \<Rightarrow> budgetRow list \<Rightarrow> SettleUsageRequest \<Rightarrow> time \<Rightarrow> run_db \<Rightarrow>
     RunError + ((bool \<times> bool) \<times> callRow \<times> run_db)" where
  "settleReported cfg call budget profile accounts req now db =
     (if AuditEnabled profile then settleCallReport cfg call budget profile accounts req now db
      else if su_Usage req = None \<or> su_ProviderAudit req \<noteq> None \<or> su_ReportHash req \<noteq> '''' \<or> pc_ExecutionBindingHash call \<noteq> ''''
      then Inl ErrInvalidArgument
      else bindE (settleLedgerUsage cfg call budget profile accounts (the (su_Usage req)) now db) (\<lambda>(settled, call1, db1).
        Inr ((settled, False), call1, db1)))"

definition SettleUsage :: "store_config \<Rightarrow> string \<Rightarrow> SettleUsageRequest \<Rightarrow> time \<Rightarrow> run_db \<Rightarrow> RunError + (SettleUsageResponse \<times> run_db)" where
  "SettleUsage cfg caller req now db =
     (if \<not> validateLedgerLease cfg (su_Lease req) \<or> \<not> ValidUUID (cfg_parseUUID cfg) (su_PhysicalCallID req) \<or>
         (case su_Usage req of None \<Rightarrow> False | Some u \<Rightarrow> \<not> isOk (UsageReportValidate (cfg_sha cfg) u)) then Inl ErrInvalidArgument
      else bindE (lockRun (ls_TenantID (su_Lease req)) (ls_RunID (su_Lease req)) db) (\<lambda>(r, a).
      bindE (loadAccounts (run_TenantID r) (run_BusinessRequestID r) db) (\<lambda>accounts.
      case readCall r (su_PhysicalCallID req) db of
        None \<Rightarrow> Inl ErrNotFound
      | Some call \<Rightarrow>
        if pc_Lease call \<noteq> su_Lease req then Inl ErrCallConflict
        else bindE (checkSession cfg caller (ls_WorkerID (pc_Lease call)) (ls_SessionID (pc_Lease call)) (run_TenantID r) (run_ProfileID r) now False db) (\<lambda>_.
        bindE (ledgerProfile cfg r False db) (\<lambda>profile.
        bindE (restoreCallBudget call profile) (\<lambda>budget.
        bindE (settleReported cfg call budget profile accounts req now db) (\<lambda>((settled, conflict), call1, db1).
        case find_row (\<lambda>x. ac_ID (br_Account x) = ac_ID (br_Account (accounts ! 2))) (budget_accounts db1) of
          None \<Rightarrow> Inl ErrNotFound
        | Some batch \<Rightarrow> Inr (\<lparr>sx_NewlySettled = settled, sx_ReportConflict = conflict, sx_Reservation = call1,
            sx_BatchFrozen = ac_Frozen (br_Account batch), sx_BatchStopCode = ac_BatchStopCode (br_Account batch)\<rparr>, db1))))))))"

end
