(* ===== verification/RunAdmission.thy ===== *)
theory RunAdmission
  imports RunLedger
begin

text \<open>
  Admission of Runs (\<open>admit.go\<close>, \<open>admission.go\<close>) and the administrator's setup of budgets and
  profiles (\<open>accounts.go\<close>, \<open>profile.go\<close>). An accepted operation or business request is
  resolved first; only then are the profile, the snapshot, the accounts and the retry window
  checked and the Run inserted.

  The validators of the support profile and of the captured snapshot only read and may refuse;
  they are fields of \<open>admission_checks\<close>. \<open>pgUUID\<close> is the database driver's reading of a UUID
  parameter, with the text it stores. A unique violation is \<open>ErrConflict\<close> and a violated check or
  foreign key \<open>ErrDependencyUnavailable\<close>, as \<open>dbError\<close> has them; the table constraints that the
  code's own guards already establish are left out.
\<close>

section \<open>Setup\<close>

record BudgetSpec =
  bs_ID :: string
  bs_Scope :: string
  bs_Key :: string
  bs_ValidFrom :: time
  bs_ValidUntil :: time
  bs_Limits :: Usage

definition emptyAccount :: "string \<Rightarrow> string \<Rightarrow> Usage \<Rightarrow> Account" where
  "emptyAccount i scope limits = \<lparr>ac_Scope = scope, ac_ID = i, ac_Limits = limits, ac_Used = no_usage, ac_Frozen = False,
     ac_KnownTokens = 0, ac_KnownCostMicroyuan = 0, ac_HeldTokens = 0, ac_HeldCostMicroyuan = 0, ac_BatchStopCode = ''''\<rparr>"

definition insertBudget :: "BudgetSpec \<Rightarrow> run_db \<Rightarrow> RunError + run_db" where
  "insertBudget spec db =
     (if list_ex (\<lambda>x. ac_ID (br_Account x) = bs_ID spec \<or> (ac_Scope (br_Account x) = bs_Scope spec \<and> br_Key x = bs_Key spec))
         (budget_accounts db) then Inl ErrConflict
      else if \<not> UsageValid (bs_Limits spec) \<or> \<not> bs_ValidUntil spec > bs_ValidFrom spec then Inl ErrDependencyUnavailable
      else Inr (db\<lparr>budget_accounts := budget_accounts db @ [\<lparr>br_Account = emptyAccount (bs_ID spec) (bs_Scope spec) (bs_Limits spec),
        br_Key = bs_Key spec, br_ValidFrom = bs_ValidFrom spec, br_ValidUntil = bs_ValidUntil spec\<rparr>]\<rparr>))"

definition truncateMicro :: "time \<Rightarrow> time" where
  "truncateMicro t = t - t mod 1000"

definition CreateBudget :: "store_config \<Rightarrow> (string \<Rightarrow> string option) \<Rightarrow> BudgetSpec \<Rightarrow> run_db \<Rightarrow> RunError + run_db" where
  "CreateBudget cfg pgUUID spec0 db =
     (let spec = spec0\<lparr>bs_ValidFrom := truncateMicro (bs_ValidFrom spec0), bs_ValidUntil := truncateMicro (bs_ValidUntil spec0)\<rparr> in
      if cfg_parseUUID cfg (bs_ID spec) = None \<or> \<not> ValidIdentifier (bs_Key spec) \<or>
         (bs_Scope spec \<noteq> ''tenant'' \<and> bs_Scope spec \<noteq> ''batch'') \<or> \<not> UsageValid (bs_Limits spec) \<or>
         \<not> bs_ValidUntil spec > bs_ValidFrom spec then Inl ErrInvalidArgument
      else case find_row (\<lambda>x. ac_Scope (br_Account x) = bs_Scope spec \<and> br_Key x = bs_Key spec) (budget_accounts db) of
        Some prior \<Rightarrow>
          if ac_ID (br_Account prior) \<noteq> bs_ID spec \<or> ac_Limits (br_Account prior) \<noteq> bs_Limits spec \<or>
             br_ValidFrom prior \<noteq> bs_ValidFrom spec \<or> br_ValidUntil prior \<noteq> bs_ValidUntil spec then Inl ErrConflict
          else Inr db
      | None \<Rightarrow> (case pgUUID (bs_ID spec) of None \<Rightarrow> Inl ErrDependencyUnavailable
          | Some i \<Rightarrow> insertBudget (spec\<lparr>bs_ID := i\<rparr>) db))"

definition BindBudgetTenant :: "(string \<Rightarrow> string option) \<Rightarrow> string \<Rightarrow> string \<Rightarrow> string \<Rightarrow> run_db \<Rightarrow> RunError + run_db" where
  "BindBudgetTenant pgUUID tenant batchID tenantAccountID db =
     (if \<not> ValidIdentifier tenant then Inl ErrInvalidArgument
      else case (pgUUID batchID, pgUUID tenantAccountID) of
        (Some batch, Some account) \<Rightarrow>
          if length (filter (\<lambda>x. (ac_ID (br_Account x) = batch \<and> ac_Scope (br_Account x) = ''batch'') \<or>
               (ac_ID (br_Account x) = account \<and> ac_Scope (br_Account x) = ''tenant'' \<and> br_Key x = tenant)) (budget_accounts db)) \<noteq> 2
          then Inl ErrInvalidArgument
          else let bound = (\<lambda>x. bt_BatchAccountID x = batch \<and> bt_TenantID x = tenant);
               db1 = (if list_ex bound (budget_batch_tenants db) then db
                 else db\<lparr>budget_batch_tenants := budget_batch_tenants db @
                   [\<lparr>bt_BatchAccountID = batch, bt_TenantID = tenant, bt_TenantAccountID = account\<rparr>]\<rparr>) in
            (case find_row bound (budget_batch_tenants db1) of None \<Rightarrow> Inl ErrNotFound
             | Some prior \<Rightarrow> if bt_TenantAccountID prior \<noteq> tenantAccountID then Inl ErrConflict else Inr db1)
      | _ \<Rightarrow> Inl ErrDependencyUnavailable)"

text \<open>The definition of a profile as it is stored: whether it is available is not part of it.\<close>

definition storedProfile :: "Profile \<Rightarrow> ProfileRow" where
  "storedProfile p = \<lparr>ap_ID = pf_ID p, ap_Hash = pf_Hash p, ap_Profile = Some (p\<lparr>pf_Executable := False\<rparr>)\<rparr>"

fun EnsureProfiles :: "(Profile \<Rightarrow> RunError + unit) \<Rightarrow> Profile list \<Rightarrow> run_db \<Rightarrow> (RunError option) \<times> run_db" where
  "EnsureProfiles validate [] db = (None, db)"
| "EnsureProfiles validate (p # ps) db =
     (case validate p of
        Inl e \<Rightarrow> (Some e, db)
      | Inr _ \<Rightarrow>
        let db1 = (if list_ex (\<lambda>x. ap_ID x = pf_ID p) (agent_profiles db) then db
              else db\<lparr>agent_profiles := agent_profiles db @ [storedProfile p]\<rparr>) in
        (case find_row (\<lambda>x. ap_ID x = pf_ID p) (agent_profiles db1) of
           None \<Rightarrow> (Some ErrNotFound, db)
         | Some row \<Rightarrow> if row \<noteq> storedProfile p then (Some ErrConflict, db) else EnsureProfiles validate ps db1))"

section \<open>Resolving an accepted request\<close>

record SnapshotBinding =
  sb_TenantID :: string
  sb_TicketID :: string
  sb_ID :: string
  sb_ContentHash :: string
  sb_VersionVector :: string
  sb_Ticket :: string
  sb_IndexID :: string

record Admission =
  ad_TraceContext :: string
  ad_TenantID :: string
  ad_OperationKey :: string
  ad_RequestHash :: string
  ad_SourceRunID :: string
  ad_Submit :: SubmitRequest
  ad_Retry :: RetryRequest
  ad_Profile :: Profile
  ad_Snapshot :: SnapshotBinding
  ad_RunID :: string
  ad_BusinessID :: string
  ad_FamilyAccountID :: string
  ad_OperationID :: string
  ad_FirstStepID :: string

definition admissionKind :: "string \<Rightarrow> string" where
  "admissionKind sourceID = (if sourceID = '''' then ''submit'' else ''retry'')"

definition businessByKey :: "string \<Rightarrow> string \<Rightarrow> run_db \<Rightarrow> BusinessRequest option" where
  "businessByKey tenant key db = find_row (\<lambda>b. bq_TenantID b = tenant \<and> bq_Key b = key) (business_requests db)"

definition businessOfRun :: "string \<Rightarrow> string \<Rightarrow> run_db \<Rightarrow> BusinessRequest option" where
  "businessOfRun tenant i db = (case find_row (runKey tenant i) (runs db) of None \<Rightarrow> None
     | Some (r, _) \<Rightarrow> find_row (\<lambda>b. bq_TenantID b = tenant \<and> bq_ID b = run_BusinessRequestID r) (business_requests db))"

text \<open>The retry of a Run, with the hash it was admitted under.\<close>

definition retryOf :: "string \<Rightarrow> string \<Rightarrow> run_db \<Rightarrow> (string \<times> string) option" where
  "retryOf tenant sourceID db =
     (case find_row (\<lambda>x. run_TenantID (fst x) = tenant \<and> run_RetryOfRunID (fst x) = Some sourceID) (runs db) of
        None \<Rightarrow> None
      | Some (r, _) \<Rightarrow> map_option (\<lambda>h. (run_ID r, h)) (map_of (admission_hashes db) (tenant, run_ID r)))"

definition newOperation :: "string \<Rightarrow> string \<Rightarrow> string \<Rightarrow> string \<Rightarrow> string \<Rightarrow> string \<Rightarrow> time \<Rightarrow> Operation" where
  "newOperation i tenant sourceID key hash result now = \<lparr>op_ID = i, op_TenantID = tenant, op_Kind = admissionKind sourceID,
     op_SourceRunID = sourceID, op_Scope = '''', op_Key = key, op_RequestHash = hash, op_ResultRunID = result, op_CreatedAt = now\<rparr>"

definition purged :: "string \<Rightarrow> Run \<Rightarrow> bool" where
  "purged sourceID r \<longleftrightarrow> sourceID = '''' \<and> run_ContentPurgedAt r \<noteq> None"

text \<open>The accepted Run of a business request, under one more operation key (\<open>aliasID\<close> is the generated id).\<close>

definition aliasAdmission ::
    "string \<Rightarrow> string \<Rightarrow> string \<Rightarrow> string \<Rightarrow> string \<Rightarrow> string \<Rightarrow> string \<Rightarrow> time \<Rightarrow> run_db \<Rightarrow> RunError + ((Run option) \<times> run_db)" where
  "aliasAdmission aliasID tenant key sourceID hash resultID acceptedHash now db =
     (if acceptedHash \<noteq> hash then Inl ErrConflict
      else bindE (getView tenant resultID db) (\<lambda>r.
      if purged sourceID r then Inl ErrRequestExpired
      else bindE (insertOperation (newOperation aliasID tenant sourceID key hash resultID now) db) (\<lambda>db1.
      bindE (getView tenant resultID db1) (\<lambda>r1. Inr (Some r1, db1)))))"

definition resolveAdmission ::
    "string \<Rightarrow> string \<Rightarrow> string \<Rightarrow> string \<Rightarrow> string \<Rightarrow> string \<Rightarrow> time \<Rightarrow> run_db \<Rightarrow> RunError + ((Run option) \<times> run_db)" where
  "resolveAdmission aliasID tenant key sourceID hash businessKey now db =
     (case findOperation tenant (admissionKind sourceID) sourceID key db of
        Some prior \<Rightarrow>
          if op_RequestHash prior \<noteq> hash then Inl ErrConflict
          else bindE (getView tenant (op_ResultRunID prior) db) (\<lambda>r.
            if purged sourceID r then Inl ErrRequestExpired else Inr (Some r, db))
      | None \<Rightarrow>
        (if sourceID = '''' then
           (case businessByKey tenant businessKey db of
              None \<Rightarrow> Inr (None, db)
            | Some business \<Rightarrow> aliasAdmission aliasID tenant key sourceID hash (bq_RootRunID business) (bq_RequestHash business) now db)
         else
           (case businessOfRun tenant sourceID db of
              None \<Rightarrow> Inl ErrNotFound
            | Some business \<Rightarrow>
              bindE (lockRun tenant sourceID db) (\<lambda>_.
              case retryOf tenant sourceID db of
                None \<Rightarrow> Inr (None, db)
              | Some (resultID, acceptedHash) \<Rightarrow> aliasAdmission aliasID tenant key sourceID hash resultID acceptedHash now db))))"

section \<open>Admission\<close>

record admission_checks =
  ck_ValidTraceContext :: "string \<Rightarrow> bool"
  ck_ValidateSupportProfile :: "Profile \<Rightarrow> RunError + unit"
  ck_ValidateSupportSnapshot :: "Profile \<Rightarrow> SnapshotBinding \<Rightarrow> RunError + unit"

definition SupportFixedStrategy :: string where "SupportFixedStrategy = ''support_fixed_v1''"

definition IsSupportStrategy :: "string \<Rightarrow> bool" where
  "IsSupportStrategy strategy \<longleftrightarrow> strategy = SupportFixedStrategy \<or> strategy = SupportAgentStrategy"

definition StoreProfile :: "store_config \<Rightarrow> admission_checks \<Rightarrow> string \<Rightarrow> RunError + Profile" where
  "StoreProfile cfg ck i = (case map_of (cfg_profiles cfg) i of
     None \<Rightarrow> Inl ErrProfileUnavailable
   | Some p \<Rightarrow> if \<not> pf_Executable p then Inl ErrProfileUnavailable else bindE (ck_ValidateSupportProfile ck p) (\<lambda>_. Inr p))"

definition available :: "time \<Rightarrow> budgetRow \<Rightarrow> bool" where
  "available now x \<longleftrightarrow> \<not> ac_Frozen (br_Account x) \<and> \<not> br_ValidFrom x > now \<and> br_ValidUntil x > now"

definition readAccount :: "string \<Rightarrow> run_db \<Rightarrow> RunError + budgetRow" where
  "readAccount i db = (case find_row (\<lambda>x. ac_ID (br_Account x) = i) (budget_accounts db) of None \<Rightarrow> Inl ErrNotFound | Some x \<Rightarrow> Inr x)"

text \<open>Both accounts are read unlocked here (\<open>lock\<close> is false in both callers), so \<open>now\<close> is the caller's.\<close>

definition admissionAccounts :: "string \<Rightarrow> string \<Rightarrow> time \<Rightarrow> run_db \<Rightarrow> RunError + (budgetRow \<times> budgetRow)" where
  "admissionAccounts tenant batchKey now db =
     (case find_row (\<lambda>(t, x). bt_TenantID t = tenant \<and> bt_BatchAccountID t = ac_ID (br_Account x) \<and>
          ac_Scope (br_Account x) = ''batch'' \<and> br_Key x = batchKey) (List.product (budget_batch_tenants db) (budget_accounts db)) of
        None \<Rightarrow> Inl ErrNotFound
      | Some (t, x) \<Rightarrow>
        bindE (readAccount (bt_TenantAccountID t) db) (\<lambda>tenantRow.
        bindE (readAccount (ac_ID (br_Account x)) db) (\<lambda>batchRow.
        if ac_Scope (br_Account tenantRow) \<noteq> ''tenant'' \<or> br_Key tenantRow \<noteq> tenant \<or> ac_Scope (br_Account batchRow) \<noteq> ''batch''
        then Inl ErrInternal
        else if \<not> list_all (available now) [tenantRow, batchRow] then Inl ErrBudgetExhausted
        else Inr (tenantRow, batchRow))))"

definition retryWindow :: duration where "retryWindow = 7 * 24 * Hour"

text \<open>The business request of the admission and, for a retry, its source Run.\<close>

definition retryBusiness :: "store_config \<Rightarrow> Admission \<Rightarrow> run_db \<Rightarrow> RunError + (BusinessRequest \<times> Run)" where
  "retryBusiness cfg input db =
     (case businessOfRun (ad_TenantID input) (ad_SourceRunID input) db of
        None \<Rightarrow> Inl ErrNotFound
      | Some business \<Rightarrow>
        bindE (lockRun (ad_TenantID input) (ad_SourceRunID input) db) (\<lambda>(source, _).
        if \<not> isOk (RetryValidate (ad_Retry input)) \<or> ad_RequestHash input \<noteq> RetryHash (cfg_sha cfg) (ad_Retry input) (ad_SourceRunID input) \<or>
           pf_ID (ad_Profile input) \<noteq> run_ProfileID source \<or> sr_TicketID (ad_Submit input) \<noteq> run_TicketID source \<or>
           sr_BudgetBatchID (ad_Submit input) \<noteq> run_BudgetBatchID source \<or> sr_BusinessRequestKey (ad_Submit input) \<noteq> bq_Key business
        then Inl ErrInvalidArgument
        else Inr (business, source)))"

definition insertBusiness :: "BusinessRequest \<Rightarrow> run_db \<Rightarrow> RunError + run_db" where
  "insertBusiness b db =
     (if list_ex (\<lambda>x. bq_ID x = bq_ID b \<or> bq_FamilyAccountID x = bq_FamilyAccountID b \<or>
          (bq_TenantID x = bq_TenantID b \<and> bq_Key x = bq_Key b)) (business_requests db) then Inl ErrConflict
      else Inr (db\<lparr>business_requests := business_requests db @ [b]\<rparr>))"

definition submitBusiness :: "store_config \<Rightarrow> Admission \<Rightarrow> time \<Rightarrow> run_db \<Rightarrow> RunError + (BusinessRequest \<times> run_db)" where
  "submitBusiness cfg input now db =
     (if \<not> isOk (SubmitValidate (ad_Submit input)) \<or> ad_RequestHash input \<noteq> SubmitHash (cfg_sha cfg) (ad_Submit input) \<or>
         pf_ID (ad_Profile input) \<noteq> sr_ProfileID (ad_Submit input) \<or> \<not> ValidUUID (cfg_parseUUID cfg) (ad_BusinessID input) \<or>
         \<not> ValidUUID (cfg_parseUUID cfg) (ad_FamilyAccountID input) then Inl ErrInvalidArgument
      else bindE (admissionAccounts (ad_TenantID input) (sr_BudgetBatchID (ad_Submit input)) now db) (\<lambda>(tenantAccount, batchAccount).
        let business = \<lparr>bq_ID = ad_BusinessID input, bq_TenantID = ad_TenantID input, bq_Key = sr_BusinessRequestKey (ad_Submit input),
              bq_RequestHash = ad_RequestHash input, bq_RootRunID = ad_RunID input, bq_FamilyAccountID = ad_FamilyAccountID input,
              bq_TenantAccountID = ac_ID (br_Account tenantAccount), bq_BatchAccountID = ac_ID (br_Account batchAccount),
              bq_CreatedAt = now, bq_RetryUntil = now + retryWindow\<rparr> in
        bindE (insertBudget \<lparr>bs_ID = bq_FamilyAccountID business, bs_Scope = ''family'', bs_Key = bq_ID business, bs_ValidFrom = now,
            bs_ValidUntil = bq_RetryUntil business + 24 * Hour,
            bs_Limits = FamilyLimits (pf_FamilyTokenLimit (ad_Profile input)) (pf_FamilyCostMicroyuan (ad_Profile input))\<rparr> db) (\<lambda>db1.
        bindE (insertBusiness business db1) (\<lambda>db2. Inr (business, db2)))))"

definition NextInputHash :: "(string \<Rightarrow> string) \<Rightarrow> string \<Rightarrow> string \<Rightarrow> int \<Rightarrow> string \<Rightarrow> string" where
  "NextInputHash sha profileHash snapshotHash cursor acceptedCommitHash =
     Fingerprint sha ''jobforge.run.step-input.v1'' [profileHash, snapshotHash, show_int cursor, acceptedCommitHash]"

definition InitialStepInput :: "(string \<Rightarrow> string) \<Rightarrow> string \<Rightarrow> string \<Rightarrow> string" where
  "InitialStepInput sha profileHash snapshotHash = NextInputHash sha profileHash snapshotHash 0 ''''"

definition MaxCheckpointBytes :: int where "MaxCheckpointBytes = 256 * 1024"

definition admissionRun :: "store_config \<Rightarrow> Admission \<Rightarrow> BusinessRequest \<Rightarrow> time \<Rightarrow> RunError + (Run \<times> Authority)" where
  "admissionRun cfg input business now =
     (let snapshot = ad_Snapshot input;
          timeout = (if ad_SourceRunID input \<noteq> '''' then rr_RunTimeoutSeconds (ad_Retry input) else sr_RunTimeoutSeconds (ad_Submit input));
          bytes = int (length (sb_Ticket snapshot) + length (sb_VersionVector snapshot)) in
      if sb_TenantID snapshot \<noteq> ad_TenantID input \<or> sb_TicketID snapshot \<noteq> sr_TicketID (ad_Submit input) \<or>
         \<not> ValidUUID (cfg_parseUUID cfg) (sb_ID snapshot) \<or> \<not> ValidUUID (cfg_parseUUID cfg) (sb_IndexID snapshot) then Inl ErrInvalidArgument
      else if bytes > MaxCheckpointBytes then Inl ErrCheckpointTooLarge
      else Inr (\<lparr>run_ID = ad_RunID input, run_TenantID = ad_TenantID input, run_BusinessRequestID = bq_ID business,
            run_BusinessRequestKey = bq_Key business, run_TicketID = sr_TicketID (ad_Submit input),
            run_RetryOfRunID = (if ad_SourceRunID input \<noteq> '''' then Some (ad_SourceRunID input) else None),
            run_ProfileID = pf_ID (ad_Profile input), run_ProfileHash = pf_Hash (ad_Profile input),
            run_BudgetBatchID = sr_BudgetBatchID (ad_Submit input), run_SnapshotID = sb_ID snapshot,
            run_SnapshotHash = sb_ContentHash snapshot, run_State = Ready, run_Outcome = None, run_Error = None, run_AttemptNo = 0,
            run_RecoveryCount = 0, run_CursorVersion = 0, run_RunTimeoutSeconds = timeout, run_RunDeadline = now + timeout * Second,
            run_AttemptDeadline = None, run_LeaseUntil = None, run_NextAttemptAt = None, run_PermissionExpiresAt = None,
            run_ProposalRef = None, run_StopReason = None, run_CancelRequestedAt = None, run_CreatedAt = now, run_UpdatedAt = now,
            run_TerminalAt = None, run_ContentPurgedAt = None\<rparr>,
          \<lparr>au_WorkerID = '''', au_SessionID = '''', au_FencingToken = 0, au_ActiveCallID = None, au_CheckpointBytes = bytes,
           au_EventSequence = 0, au_NextStepID = ad_FirstStepID input, au_NextStepKind = ''read_ticket'',
           au_NextInputHash = InitialStepInput (cfg_sha cfg) (pf_Hash (ad_Profile input)) (sb_ContentHash snapshot)\<rparr>))"

text \<open>Run ids are unique, a Run is retried at most once, and its profile must be registered.\<close>

definition insertRun :: "string \<Rightarrow> Run \<Rightarrow> Authority \<Rightarrow> run_db \<Rightarrow> RunError + run_db" where
  "insertRun hash r a db =
     (if list_ex (\<lambda>x. run_ID (fst x) = run_ID r \<or> (run_RetryOfRunID r \<noteq> None \<and> run_RetryOfRunID (fst x) = run_RetryOfRunID r)) (runs db)
      then Inl ErrConflict
      else if \<not> list_ex (\<lambda>p. ap_ID p = run_ProfileID r) (agent_profiles db) then Inl ErrDependencyUnavailable
      else Inr (db\<lparr>runs := runs db @ [(r, a)], admission_hashes := admission_hashes db @ [((run_TenantID r, run_ID r), hash)]\<rparr>))"

text \<open>An audited support profile must still be the registered definition.\<close>

definition profileRegistered :: "Profile \<Rightarrow> run_db \<Rightarrow> RunError + unit" where
  "profileRegistered p db =
     (if IsSupportStrategy (pf_Strategy p) \<and> AuditEnabled p then
        (case find_row (\<lambda>x. ap_ID x = pf_ID p) (agent_profiles db) of
           None \<Rightarrow> Inl ErrNotFound
         | Some row \<Rightarrow> ensureE (row = storedProfile p) ErrProfileUnavailable)
      else Inr ())"

text \<open>The acceptance time begins after all account contention.\<close>

definition stampBusiness :: "BusinessRequest \<Rightarrow> time \<Rightarrow> run_db \<Rightarrow> run_db" where
  "stampBusiness business now db = db\<lparr>
     business_requests := update_where (\<lambda>b. bq_TenantID b = bq_TenantID business \<and> bq_ID b = bq_ID business)
       (\<lambda>b. b\<lparr>bq_CreatedAt := now, bq_RetryUntil := now + retryWindow\<rparr>) (business_requests db),
     budget_accounts := update_where (\<lambda>x. ac_ID (br_Account x) = bq_FamilyAccountID business)
       (\<lambda>x. x\<lparr>br_ValidFrom := now, br_ValidUntil := now + retryWindow + 24 * Hour\<rparr>) (budget_accounts db)\<rparr>"

text \<open>The prepared business request: a new one for a submit, that of the source for a retry.\<close>

definition prepareBusiness :: "store_config \<Rightarrow> Admission \<Rightarrow> time \<Rightarrow> run_db \<Rightarrow> RunError + ((BusinessRequest \<times> Run option) \<times> run_db)" where
  "prepareBusiness cfg input now db =
     (if ad_SourceRunID input \<noteq> '''' then bindE (retryBusiness cfg input db) (\<lambda>(business, source). Inr ((business, Some source), db))
      else bindE (submitBusiness cfg input now db) (\<lambda>(business, db1). Inr ((business, None), db1)))"

definition validAdmission :: "store_config \<Rightarrow> admission_checks \<Rightarrow> Admission \<Rightarrow> bool" where
  "validAdmission cfg ck input \<longleftrightarrow> ValidIdentifier (ad_TenantID input) \<and> ValidIdentifier (ad_OperationKey input) \<and>
     ValidUUID (cfg_parseUUID cfg) (ad_RunID input) \<and> ValidUUID (cfg_parseUUID cfg) (ad_OperationID input) \<and>
     ValidUUID (cfg_parseUUID cfg) (ad_FirstStepID input) \<and>
     (ad_SourceRunID input = '''' \<or> ValidUUID (cfg_parseUUID cfg) (ad_SourceRunID input)) \<and> ck_ValidTraceContext ck (ad_TraceContext input)"

text \<open>The gates of a new admission, before any row is written.\<close>

definition admissionGate :: "store_config \<Rightarrow> admission_checks \<Rightarrow> Admission \<Rightarrow> run_db \<Rightarrow> RunError + Profile" where
  "admissionGate cfg ck input db =
     bindE (StoreProfile cfg ck (pf_ID (ad_Profile input))) (\<lambda>profile.
     if pf_Hash profile \<noteq> pf_Hash (ad_Profile input) \<or> \<not> isOk (ck_ValidateSupportProfile ck (ad_Profile input)) then Inl ErrProfileUnavailable
     else bindE (profileRegistered profile db) (\<lambda>_.
     if sb_TenantID (ad_Snapshot input) \<noteq> ad_TenantID input \<or> sb_TicketID (ad_Snapshot input) \<noteq> sr_TicketID (ad_Submit input)
     then Inl ErrDependencyUnavailable
     else bindE (ck_ValidateSupportSnapshot ck profile (ad_Snapshot input)) (\<lambda>_. Inr profile)))"

text \<open>The insertion of the Run with its event and its operation.\<close>

definition acceptRun :: "store_config \<Rightarrow> Admission \<Rightarrow> BusinessRequest \<Rightarrow> time \<Rightarrow> time \<Rightarrow> run_db \<Rightarrow> RunError + (Run \<times> run_db)" where
  "acceptRun cfg input business now clk db =
     bindE (admissionRun cfg input business now) (\<lambda>(r, a).
     bindE (insertRun (ad_RequestHash input) r a db) (\<lambda>db1.
     bindE (recordRun clk r a ''admitted'' now db1) (\<lambda>db2.
     bindE (insertOperation (newOperation (ad_OperationID input) (ad_TenantID input) (ad_SourceRunID input) (ad_OperationKey input)
        (ad_RequestHash input) (run_ID r) now) db2) (\<lambda>db3.
     bindE (getView (ad_TenantID input) (run_ID r) db3) (\<lambda>view. Inr (view, db3))))))"

text \<open>A new admission; \<open>now0\<close> is read before the accounts are locked and \<open>now\<close> after.\<close>

definition admitNew :: "store_config \<Rightarrow> admission_checks \<Rightarrow> Admission \<Rightarrow> time \<Rightarrow> time \<Rightarrow> time \<Rightarrow> run_db \<Rightarrow> RunError + (Run \<times> run_db)" where
  "admitNew cfg ck input0 now0 now clk db =
     bindE (admissionGate cfg ck input0 db) (\<lambda>profile.
     let input = input0\<lparr>ad_Profile := profile\<rparr> in
     bindE (prepareBusiness cfg input now0 db) (\<lambda>((business, source), db1).
     bindE (loadAccounts (ad_TenantID input) (bq_ID business) db1) (\<lambda>accounts.
     if (case source of None \<Rightarrow> False | Some s \<Rightarrow> run_ProfileHash s \<noteq> pf_Hash profile) then Inl ErrProfileUnavailable
     else if \<not> list_all (available now) accounts then Inl ErrBudgetExhausted
     else if (case source of None \<Rightarrow> False
          | Some s \<Rightarrow> \<not> bq_RetryUntil business > now \<or> (run_State s \<noteq> Failed \<and> run_State s \<noteq> Cancelled)) then Inl ErrInvalidTransition
     else acceptRun cfg input business now clk (case source of None \<Rightarrow> stampBusiness business now db1 | Some _ \<Rightarrow> db1))))"

text \<open>The response is the Run and whether it was reused.\<close>

definition Admit ::
    "store_config \<Rightarrow> admission_checks \<Rightarrow> string \<Rightarrow> Admission \<Rightarrow> time \<Rightarrow> time \<Rightarrow> time \<Rightarrow> time \<Rightarrow> run_db \<Rightarrow> RunError + ((Run \<times> bool) \<times> run_db)" where
  "Admit cfg ck aliasID input nowAlias now0 now clk db =
     (if \<not> validAdmission cfg ck input then Inl ErrInvalidArgument
      else bindE (resolveAdmission aliasID (ad_TenantID input) (ad_OperationKey input) (ad_SourceRunID input) (ad_RequestHash input)
          (sr_BusinessRequestKey (ad_Submit input)) nowAlias db) (\<lambda>(reused, db1).
        case reused of
          Some r \<Rightarrow> Inr ((r, True), db1)
        | None \<Rightarrow> bindE (admitNew cfg ck input now0 now clk db1) (\<lambda>(r, db2). Inr ((r, False), db2))))"

definition ResolveAdmissionFailure :: "string \<Rightarrow> Admission \<Rightarrow> RunError \<Rightarrow> time \<Rightarrow> run_db \<Rightarrow> RunError + ((Run \<times> bool) \<times> run_db)" where
  "ResolveAdmissionFailure aliasID input failure now db =
     (if failure \<noteq> ErrConflict \<and> failure \<noteq> ErrDependencyUnavailable then Inl failure
      else bindE (resolveAdmission aliasID (ad_TenantID input) (ad_OperationKey input) (ad_SourceRunID input) (ad_RequestHash input)
          (sr_BusinessRequestKey (ad_Submit input)) now db) (\<lambda>(reused, db1).
        case reused of None \<Rightarrow> Inl failure | Some r \<Rightarrow> Inr ((r, True), db1)))"

text \<open>\<open>AdmissionContext\<close>: the same conditions, checked before the external capture.\<close>

definition retrySource :: "string \<Rightarrow> string \<Rightarrow> time \<Rightarrow> run_db \<Rightarrow> RunError + Run" where
  "retrySource tenant sourceID now db =
     bindE (lockRun tenant sourceID db) (\<lambda>(source, _).
     if run_State source \<noteq> Failed \<and> run_State source \<noteq> Cancelled then Inl ErrInvalidTransition
     else case find_row (\<lambda>b. bq_TenantID b = tenant \<and> bq_ID b = run_BusinessRequestID source) (business_requests db) of
       None \<Rightarrow> Inl ErrNotFound
     | Some b \<Rightarrow> if \<not> bq_RetryUntil b > now then Inl ErrInvalidTransition else Inr source)"

definition AdmissionContext ::
    "store_config \<Rightarrow> admission_checks \<Rightarrow> string \<Rightarrow> string \<Rightarrow> string \<Rightarrow> string \<Rightarrow> time \<Rightarrow> run_db \<Rightarrow> RunError + (Run option)" where
  "AdmissionContext cfg ck tenant sourceID profileID batchKey now db =
     bindE (if sourceID = '''' then Inr None else bindE (retrySource tenant sourceID now db) (\<lambda>r. Inr (Some r))) (\<lambda>source.
     bindE (StoreProfile cfg ck (case source of None \<Rightarrow> profileID | Some s \<Rightarrow> run_ProfileID s)) (\<lambda>p.
     if (case source of None \<Rightarrow> False | Some s \<Rightarrow> run_ProfileHash s \<noteq> pf_Hash p) then Inl ErrProfileUnavailable
     else bindE (admissionAccounts tenant (case source of None \<Rightarrow> batchKey | Some s \<Rightarrow> run_BudgetBatchID s) now db) (\<lambda>_. Inr source)))"

end
