(* ===== verification/RunStoreSteps.thy ===== *)
theory RunStoreSteps
  imports RunStoreInv
begin

text \<open>
  Every lifecycle transaction of the Run store keeps the invariant; the transactions as one step
  relation; the interfaces of \<open>Prelude\<close> interpreted on it: the Run store is a fenced store by Run
  and fencing token, its invariant is inductive, and so is the exclusion of worker sessions.
\<close>

section \<open>Transactions\<close>

lemma stop_reasons_distinct [simp]:
  "StopRunDeadline \<noteq> StopCancel" "StopAttemptTimeout \<noteq> StopCancel" "StopAttemptTimeout \<noteq> StopRunDeadline"
  "StopRunDeadline \<noteq> StopAttemptTimeout"
  by (simp_all add: reason_defs)

lemma stopIfDue_cases:
  assumes "stopIfDue r now = Inr r'"
  obtains "r' = r" "run_State r = Running \<Longrightarrow> now < run_RunDeadline r"
    | reason where "run_State r = Running" "reason \<in> {StopRunDeadline, StopAttemptTimeout}"
      "r' = r\<lparr>run_State := Stopping, run_StopReason := Some reason, run_UpdatedAt := now\<rparr>"
proof (cases "run_State r = Running")
  case run: True
  consider "\<not> now < run_RunDeadline r" | "now < run_RunDeadline r" "run_AttemptDeadline r \<noteq> None" "\<not> afterNow (run_AttemptDeadline r) now"
    | "now < run_RunDeadline r" "run_AttemptDeadline r = None \<or> afterNow (run_AttemptDeadline r) now" by fastforce
  then show thesis
  proof cases
    case 1
    with assms run show thesis by (intro that(2) [of StopRunDeadline]) (simp_all add: stopIfDue_def RequestStop_def)
  next
    case 2
    with assms run show thesis by (intro that(2) [of StopAttemptTimeout]) (simp_all add: stopIfDue_def RequestStop_def)
  next
    case 3
    with assms run show thesis by (intro that(1)) (auto simp: stopIfDue_def)
  qed
qed (use assms that(1) in \<open>simp add: stopIfDue_def\<close>)

lemma stopIfDue_effect:
  assumes "stopIfDue r now = Inr r'" and "run_ok r a"
  shows "same_run r r'" "run_ok r' a" "active (run_State r') = active (run_State r)"
    "run_LeaseUntil r' = run_LeaseUntil r" "run_AttemptDeadline r' = run_AttemptDeadline r"
proof -
  from assms(1) have "same_run r r' \<and> run_ok r' a \<and> active (run_State r') = active (run_State r) \<and>
    run_LeaseUntil r' = run_LeaseUntil r \<and> run_AttemptDeadline r' = run_AttemptDeadline r"
  proof (cases rule: stopIfDue_cases)
    case (2 reason)
    with assms(2) show ?thesis by (auto simp: same_run_def run_ok_def stopReasons_def)
  qed (use assms(2) in \<open>simp add: same_run_def\<close>)
  then show "same_run r r'" "run_ok r' a" "active (run_State r') = active (run_State r)"
    "run_LeaseUntil r' = run_LeaseUntil r" "run_AttemptDeadline r' = run_AttemptDeadline r" by simp_all
qed

lemma Heartbeat_effect:
  assumes "Heartbeat r a lease now = Inr r'"
  shows "same_run r r'" "run_State r' = run_State r" "run_LeaseUntil r' \<noteq> None"
  using assms by (auto simp: Heartbeat_def CheckExecution_def same_run_def result_simps split: if_splits)

lemma ExpireWaiting_effect:
  assumes "ExpireWaiting r now = Inr r'"
  shows "same_run r r'" "\<not> active (run_State r)" "\<not> active (run_State r')"
  using ExpireWaiting_waiting [OF assms] assms
  by (auto elim!: ExpireWaiting_cases simp: same_run_def finishRun_def)

lemma RequestCancel_effect:
  assumes "RequestCancel r now = Inr r'"
  shows "same_run r r'" "active (run_State r') = active (run_State r)"
  using assms by (auto simp: RequestCancel_def same_run_def finishRun_def Let_def split: if_splits)

text \<open>The sessions of a worker are outside the invariant.\<close>

lemma inv_sessions: "lifecycle_inv db \<Longrightarrow> lifecycle_inv (db\<lparr>worker_sessions := ss\<rparr>)"
  by (erule inv_frame_eq) simp_all

lemma inv_operations: "lifecycle_inv db \<Longrightarrow> lifecycle_inv (db\<lparr>run_operations := ops\<rparr>)"
  by (erule inv_frame_eq) simp_all

lemma Register_cases:
  assumes "Register cfg newID caller startup version now db = Inr (session, db')"
  obtains (replay) "db' = db" "session \<in> set (worker_sessions db)" "se_WorkerID session = caller" "now < se_ExpiresAt session"
    | (new) "db' = db\<lparr>worker_sessions := worker_sessions db @ [session]\<rparr>" "se_WorkerID session = caller"
      "se_ExpiresAt session = now + sessionTTL" "se_ID session = newID" "newID \<notin> se_ID ` set (worker_sessions db)"
      "\<And>x. x \<in> set (worker_sessions db) \<Longrightarrow> se_WorkerID x = caller \<Longrightarrow> \<not> now < se_ExpiresAt x"
proof (cases "find_row (\<lambda>x. se_WorkerID x = caller \<and> se_StartupID x = startup) (worker_sessions db)")
  case (Some previous)
  with assms have "session = previous" "db' = db" "now < se_ExpiresAt previous"
    by (auto simp: Register_def result_simps split: if_splits)
  with find_row_SomeD [OF Some] replay show thesis by simp
next
  case None
  with assms have "db' = db\<lparr>worker_sessions := worker_sessions db @ [session]\<rparr> \<and> se_WorkerID session = caller \<and>
      se_ExpiresAt session = now + sessionTTL \<and> se_ID session = newID \<and> newID \<notin> se_ID ` set (worker_sessions db) \<and>
      (\<forall>x \<in> set (worker_sessions db). se_WorkerID x = caller \<longrightarrow> \<not> now < se_ExpiresAt x)"
    by (auto simp: Register_def Let_def result_simps list_ex_iff split: if_splits)
  with new show thesis by blast
qed

lemma HeartbeatSession_frame:
  assumes "HeartbeatSession cfg caller w sid now db = Inr (session, db')"
  obtains ss where "db' = db\<lparr>worker_sessions := ss\<rparr>"
  using assms that by (auto simp: HeartbeatSession_def renewSession_def split: if_splits option.splits)

definition config_ok :: "store_config \<Rightarrow> bool" where
  "config_ok cfg \<longleftrightarrow> 0 \<le> cfg_tenantCapacity cfg \<and> 0 \<le> cfg_profileCapacity cfg \<and>
     (\<forall>x \<in> set (cfg_workers cfg). 0 \<le> wc_Capacity (snd x))"

lemma expireAtClaim_inv:
  assumes inv: "lifecycle_inv db" and x: "(r, a) \<in> set (runs db)" and ex: "expireAtClaim clk r a now db = Inr db'"
  shows "lifecycle_inv db'"
proof -
  from ex obtain r1 where exp: "ExpireWaiting r now = Inr r1" and rec: "recordRun clk r1 a ''deadline_exceeded'' now db = Inr db'"
    by (auto simp: expireAtClaim_def result_simps)
  note e = ExpireWaiting_effect [OF exp]
  have "run_ok r1 a" using ExpireWaiting_ok [OF _ exp] inv_parts(4) [OF inv x] by simp
  with e show ?thesis by (intro record_inv [OF inv x _ _ _ rec]) auto
qed

lemma claimCandidate_mem:
  assumes "claimCandidate locked worker profiles actionProfiles caller db = Some x"
  shows "x \<in> set (runs db)" "claimableRun locked worker profiles actionProfiles caller db x"
proof -
  define c where "c = filter (claimableRun locked worker profiles actionProfiles caller db) (runs db)"
  from assms have "x \<in> set (sort_key (\<lambda>x. (run_CreatedAt (fst x), run_ID (fst x))) c)"
    unfolding claimCandidate_def c_def [symmetric] by (auto split: list.splits simp del: set_sort)
  then show "x \<in> set (runs db)" "claimableRun locked worker profiles actionProfiles caller db x" by (auto simp: c_def)
qed

lemma claimRow_cases:
  assumes "claimRow cfg guard loadCheckpoint worker caller sid now2 now3 clk r a db = Inr (res, db')"
  obtains ss db1 where
    "lockSlots (slotKeys r caller)
      [Some (wc_Capacity worker), Some (cfg_tenantCapacity cfg), Some (cfg_profileCapacity cfg)] db = Inr (ss, db1)"
    "(\<exists>now. expireAtClaim clk r a now db1 = Inr db' \<and> res = None) \<or> (res = None \<and> db' = db1) \<or>
      (\<exists>lease r1 a1 checkpoint. grantLease clk r a ss caller sid now3 db1 = Inr (lease, r1, a1, db') \<and>
         res = Some (lease, checkpoint, now3) \<and> (\<forall>s \<in> set ss. sl_Used s < sl_Capacity s))"
proof -
  from assms obtain locked where "lockSlots (slotKeys r caller)
      [Some (wc_Capacity worker), Some (cfg_tenantCapacity cfg), Some (cfg_profileCapacity cfg)] db = Inr locked"
    unfolding claimRow_def Let_def bindE_Inr_iff by blast
  then obtain ss db1 where lock: "lockSlots (slotKeys r caller)
      [Some (wc_Capacity worker), Some (cfg_tenantCapacity cfg), Some (cfg_profileCapacity cfg)] db = Inr (ss, db1)"
    by (cases locked) simp
  consider "\<not> now2 < run_RunDeadline r" | "now2 < run_RunDeadline r" "\<not> now3 < run_RunDeadline r"
    | "now2 < run_RunDeadline r" "now3 < run_RunDeadline r" by blast
  then show thesis
  proof cases
    case 3
    show thesis
    proof (cases "list_ex (\<lambda>s. sl_Used s \<ge> sl_Capacity s) ss")
      case True
      with 3 assms lock have "res = None \<and> db' = db1" by (simp add: claimRow_def Let_def) (clarsimp simp: result_simps)
      with lock that show thesis by blast
    next
      case False
      with 3 assms lock have "\<exists>lease r1 a1 checkpoint. grantLease clk r a ss caller sid now3 db1 = Inr (lease, r1, a1, db') \<and>
         res = Some (lease, checkpoint, now3)" by (simp add: claimRow_def Let_def) (clarsimp simp: result_simps)
      with False lock that show thesis by (auto simp: list_ex_iff not_le)
    qed
  next
    case 1
    with assms lock have "expireAtClaim clk r a now2 db1 = Inr db' \<and> res = None"
      by (simp add: claimRow_def Let_def) (clarsimp simp: result_simps)
    with lock that show thesis by blast
  next
    case 2
    with assms lock have "expireAtClaim clk r a now3 db1 = Inr db' \<and> res = None"
      by (simp add: claimRow_def Let_def) (clarsimp simp: result_simps)
    with lock that show thesis by blast
  qed
qed

text \<open>A successful claim leaves the tables alone, expires the candidate, or grants it a lease.\<close>

lemma StoreClaimRun_cases:
  assumes "StoreClaimRun cfg locked guard loadCheckpoint caller sid now1 now2 now3 clk db = Inr (res, db')"
  obtains (nothing) "res = None" "db' = db"
    | (slots) worker r a ss where "map_of (cfg_workers cfg) caller = Some worker" "(r, a) \<in> set (runs db)"
      "lockSlots (slotKeys r caller)
         [Some (wc_Capacity worker), Some (cfg_tenantCapacity cfg), Some (cfg_profileCapacity cfg)] db = Inr (ss, db')" "res = None"
    | (expired) worker r a ss db1 now where "map_of (cfg_workers cfg) caller = Some worker" "(r, a) \<in> set (runs db)"
      "lockSlots (slotKeys r caller)
         [Some (wc_Capacity worker), Some (cfg_tenantCapacity cfg), Some (cfg_profileCapacity cfg)] db = Inr (ss, db1)"
      "expireAtClaim clk r a now db1 = Inr db'" "res = None"
    | (granted) worker r a ss db1 lease r1 a1 checkpoint where
      "map_of (cfg_workers cfg) caller = Some worker" "(r, a) \<in> set (runs db)"
      "lockSlots (slotKeys r caller)
         [Some (wc_Capacity worker), Some (cfg_tenantCapacity cfg), Some (cfg_profileCapacity cfg)] db = Inr (ss, db1)"
      "grantLease clk r a ss caller sid now3 db1 = Inr (lease, r1, a1, db')" "res = Some (lease, checkpoint, now3)"
      "\<forall>s \<in> set ss. sl_Used s < sl_Capacity s"
proof (cases "db' = db \<and> res = None")
  case False
  with assms obtain worker r a where w: "map_of (cfg_workers cfg) caller = Some worker"
    and cand: "claimCandidate locked worker (claimProfiles cfg pf_Executable worker) (claimProfiles cfg pf_ApprovalEnabled worker) caller db = Some (r, a)"
    and row: "claimRow cfg guard loadCheckpoint worker caller sid now2 now3 clk r a db = Inr (res, db')"
    by (auto simp: StoreClaimRun_def Let_def result_simps split: option.splits if_splits)
  have mem: "(r, a) \<in> set (runs db)" using claimCandidate_mem [OF cand] by simp
  from row obtain ss db1 where
    lock: "lockSlots (slotKeys r caller)
      [Some (wc_Capacity worker), Some (cfg_tenantCapacity cfg), Some (cfg_profileCapacity cfg)] db = Inr (ss, db1)"
    and rest: "(\<exists>now. expireAtClaim clk r a now db1 = Inr db' \<and> res = None) \<or> (res = None \<and> db' = db1) \<or>
      (\<exists>lease r1 a1 checkpoint. grantLease clk r a ss caller sid now3 db1 = Inr (lease, r1, a1, db') \<and>
         res = Some (lease, checkpoint, now3) \<and> (\<forall>s \<in> set ss. sl_Used s < sl_Capacity s))"
    by (rule claimRow_cases)
  from rest show thesis using slots [OF w mem] expired [OF w mem] granted [OF w mem] lock by blast
qed (use nothing in blast)

lemma StoreClaimRun_inv:
  assumes inv: "lifecycle_inv db" and cfg: "config_ok cfg"
    and claim: "StoreClaimRun cfg locked guard loadCheckpoint caller sid now1 now2 now3 clk db = Inr (res, db')"
  shows "lifecycle_inv db'"
proof -
  have caps: "0 \<le> wc_Capacity w" "0 \<le> cfg_tenantCapacity cfg" "0 \<le> cfg_profileCapacity cfg"
    if "map_of (cfg_workers cfg) caller = Some w" for w
    using cfg map_of_SomeD [OF that] by (auto simp: config_ok_def)
  from claim show ?thesis
  proof (cases rule: StoreClaimRun_cases)
    case (slots worker r a ss)
    show ?thesis by (rule lockSlots_inv(1) [OF inv slots(3) caps [OF slots(1)]])
  next
    case (expired worker r a ss db1 now)
    note l = lockSlots_inv [OF inv expired(3) caps [OF expired(1)]]
    show ?thesis by (rule expireAtClaim_inv [OF l(1) _ expired(4)]) (use l(2) expired(2) in simp)
  next
    case (granted worker r a ss db1 lease r1 a1 checkpoint)
    note l = lockSlots_inv [OF inv granted(3) caps [OF granted(1)]]
    show ?thesis by (rule grantLease_inv [OF l(1) _ l(5) l(6) granted(4)]) (use l(2) granted(2) in simp_all)
  qed (use inv in simp)
qed

text \<open>A heartbeat saves the same attempt, asked to stop or renewed, and may renew the session.\<close>

lemma heartbeatRun_cases:
  assumes "heartbeatRun cfg caller lease now clk r a db = Inr (continue, until, reason, db')"
  obtains r1 where "stopIfDue r now = Inr r1" "db' = db" | r1 where "stopIfDue r now = Inr r1"
      "recordRun clk r1 a ''stop_requested'' now db = Inr db'"
    | r1 r2 where "stopIfDue r now = Inr r1" "Heartbeat r1 a lease now = Inr r2" "db' = saveRun clk r2 a db"
proof -
  from assms obtain r1 where stop: "stopIfDue r now = Inr r1" by (auto simp: heartbeatRun_def result_simps)
  with assms that show thesis
    by (cases "run_State r1 = Stopping"; cases "run_State r = run_State r1"; cases "run_StopReason r1"; cases "run_LeaseUntil r1")
      (auto simp: heartbeatRun_def result_simps)
qed

lemma HeartbeatExecution_cases:
  assumes "HeartbeatExecution cfg caller lease now clk db = Inr (res, db')"
  obtains r a continue until reason db1 session where "lockRun (ls_TenantID lease) (ls_RunID lease) db = Inr (r, a)"
    "sameAttempt r a lease" "active (run_State r)" "heartbeatRun cfg caller lease now clk r a db = Inr (continue, until, reason, db1)"
    "find_row (sessionKey caller (ls_SessionID lease)) (worker_sessions db) = Some session"
    "db' = (if now < se_ExpiresAt session then renewSession caller (ls_SessionID lease) now db1 else db1)"
  using assms that unfolding HeartbeatExecution_def
  by (auto simp: result_simps split: if_splits option.splits)

lemma heartbeatRun_inv:
  assumes inv: "lifecycle_inv db" and x: "(r, a) \<in> set (runs db)" and act: "active (run_State r)"
    and hb: "heartbeatRun cfg caller lease now clk r a db = Inr (continue, until, reason, db')"
  shows "lifecycle_inv db'"
proof -
  have ok: "run_ok r a" using inv_parts(4) [OF inv x] by simp
  from hb show ?thesis
  proof (cases rule: heartbeatRun_cases)
    case (2 r1)
    show ?thesis by (rule record_inv [OF inv x stopIfDue_effect(1-3) [OF 2(1)] 2(2)]) (rule ok)+
  next
    case (3 r1 r2)
    note st = stopIfDue_effect [OF 3(1) ok] and h = Heartbeat_effect [OF 3(2)]
    have "same_run r r2" using st(1) h(1) by (simp add: same_run_def)
    moreover have "run_ok r2 a" by (rule Heartbeat_ok [OF st(2) 3(2)])
    moreover have "\<not> Terminal (run_State r2)" using st(3) h(2) act by (cases "run_State r2") auto
    ultimately show ?thesis
      by (intro save_inv [OF inv x, of r2 a]) (use 3(3) h(2) st(3) in \<open>auto simp: saveRun_eq stamped_def\<close>)
  qed (use inv in simp)
qed

lemma HeartbeatExecution_inv:
  assumes inv: "lifecycle_inv db" and hb: "HeartbeatExecution cfg caller lease now clk db = Inr (res, db')"
  shows "lifecycle_inv db'"
  using hb
proof (cases rule: HeartbeatExecution_cases)
  case (1 r a continue until reason db1 session)
  have "lifecycle_inv db1"
    by (rule heartbeatRun_inv [OF inv _ 1(3,4)]) (use lockRun_mem [OF 1(1)] in simp)
  with 1(6) show ?thesis by (simp add: renewSession_def inv_sessions)
qed

lemma FailExecution_cases:
  assumes "FailExecution cfg caller lease step reason now clk db = Inr (view, db')"
  obtains r a res outcome where "lockRun (ls_TenantID lease) (ls_RunID lease) db = Inr (r, a)"
    "lockClosingAttemptResources cfg r a db = Inr res" "CheckExecution r a lease now = Inr ()"
    "closeRun clk r a res reason now db = Inr (outcome, db')"
  using assms unfolding FailExecution_def ledgerExecution_def by (auto simp: result_simps split: if_splits)

lemma AcknowledgeStop_cases:
  assumes "AcknowledgeStop cfg caller lease now clk db = Inr (view, db')"
  obtains r a res reason outcome where "lockRun (ls_TenantID lease) (ls_RunID lease) db = Inr (r, a)"
    "lockClosingAttemptResources cfg r a db = Inr res" "run_State r = Stopping" "sameAttempt r a lease"
    "closeRun clk r a res reason now db = Inr (outcome, db')"
  using assms unfolding AcknowledgeStop_def by (auto simp: result_simps split: if_splits option.splits)

lemma close_row_inv:
  assumes inv: "lifecycle_inv db" and lock: "lockRun t i db = Inr (r, a)"
    and res: "lockClosingAttemptResources cfg r a db = Inr res" and close: "closeRun clk r a res reason now db = Inr (outcome, db')"
  shows "lifecycle_inv db'"
proof -
  have x: "(r, a) \<in> set (runs db)" using lockRun_mem [OF lock] by simp
  have act: "active (run_State r)" using close CloseAttempt_authority by (fastforce simp: closeRun_def result_simps)
  show ?thesis
    by (rule closeRun_inv [OF inv x act _ _ lockClosing_effect [OF res inv_parts(2) [OF inv]] close])
      (use inv_parts(4) [OF inv x] in \<open>simp_all add: same_run_def\<close>)
qed

lemma insertOperation_frame:
  assumes "insertOperation new db = Inr db'"
  shows "\<exists>ops. db' = db\<lparr>run_operations := ops\<rparr>"
proof -
  from assms have "db' = db \<or> db' = db\<lparr>run_operations :=
      run_operations db @ [new\<lparr>op_Scope := operationScope (op_Kind new) (op_SourceRunID new)\<rparr>]\<rparr>"
    unfolding insertOperation_def by (auto simp: result_simps split: if_splits option.splits)
  moreover have "db = db\<lparr>run_operations := run_operations db\<rparr>" by simp
  ultimately show ?thesis by blast
qed

text \<open>Whichever operation holds the key afterwards has the same request and the same result.\<close>

lemma insertOperation_found:
  assumes "insertOperation new db = Inr db'"
  obtains x where "findOperation (op_TenantID new) (op_Kind new) (op_SourceRunID new) (op_Key new) db' = Some x"
    "op_RequestHash x = op_RequestHash new" "op_ResultRunID x = op_ResultRunID new"
  using assms unfolding insertOperation_def by (auto simp: result_simps split: if_splits option.splits)

lemma StoreCancelRun_cases:
  assumes "StoreCancelRun cfg newID tenant i key now clk db = Inr (res, db')"
  obtains (replay) prior where "findOperation tenant ''cancel'' i key db = Some prior" "db' = db"
    | (accepted) r a r1 db1 ops where "lockRun tenant i db = Inr (r, a)" "RequestCancel r now = Inr r1"
      "findOperation tenant ''cancel'' i key db = None"
      "db1 = db \<or> recordRun clk r1 a ''cancel_requested'' now db = Inr db1" "db' = db1\<lparr>run_operations := ops\<rparr>"
proof (cases "findOperation tenant ''cancel'' i key db")
  case (Some prior)
  with assms show thesis by (intro replay [OF Some]) (auto simp: StoreCancelRun_def Let_def result_simps split: if_splits)
next
  case None
  with assms obtain r a r1 db1 new where "lockRun tenant i db = Inr (r, a)" "RequestCancel r now = Inr r1"
    "db1 = db \<or> recordRun clk r1 a ''cancel_requested'' now db = Inr db1" "insertOperation new db1 = Inr db'"
    by (auto simp: StoreCancelRun_def Let_def result_simps split: if_splits)
  with accepted None insertOperation_frame show thesis by metis
qed

lemma StoreCancelRun_inv:
  assumes inv: "lifecycle_inv db" and cancel: "StoreCancelRun cfg newID tenant i key now clk db = Inr (res, db')"
  shows "lifecycle_inv db'"
  using cancel
proof (cases rule: StoreCancelRun_cases)
  case (accepted r a r1 db1 ops)
  have x: "(r, a) \<in> set (runs db)" using lockRun_mem [OF accepted(1)] by simp
  note c = RequestCancel_effect [OF accepted(2)]
  have ok: "run_ok r1 a" using RequestCancel_ok [OF _ accepted(2)] inv_parts(4) [OF inv x] by simp
  from accepted(4) have "lifecycle_inv db1"
    using inv record_inv [OF inv x c(1) ok c(2)] by auto
  with accepted(5) show ?thesis by (simp add: inv_operations)
qed (use inv in simp)

lemma sweepRun_cases:
  assumes "sweepRun cfg tenant i now clk db = Inr (changed, db')"
  obtains (same) "db' = db"
    | (stop) r a r1 where "lockRun tenant i db = Inr (r, a)" "stopIfDue r now = Inr r1" "active (run_State r)"
      "recordRun clk r1 a ''stop_requested'' now db = Inr db'"
    | (close) r a r1 res reason outcome where "lockRun tenant i db = Inr (r, a)" "stopIfDue r now = Inr r1" "active (run_State r)"
      "lockClosingAttemptResources cfg r a db = Inr res" "closeRun clk r1 a res reason now db = Inr (outcome, db')"
    | (expire) r a r1 where "lockRun tenant i db = Inr (r, a)" "ExpireWaiting r now = Inr r1"
      "recordRun clk r1 a ''state_changed'' now db = Inr db'"
proof (cases "lockRun tenant i db")
  case (Inl e)
  with assms have "db' = db" by (auto simp: sweepRun_def lockRun_def split: option.splits)
  with same show thesis .
next
  case (Inr x)
  obtain r a where x: "x = (r, a)" by (cases x)
  from Inr x have row: "find_row (runKey tenant i) (runs db) = Some (r, a)" by (auto simp: lockRun_def split: option.splits)
  show thesis
  proof (cases "active (run_State r)")
    case True
    with assms row show thesis
      using same stop [OF Inr [unfolded x] _ True] close [OF Inr [unfolded x] _ True]
      by (auto simp: sweepRun_def result_simps split: option.splits if_splits)
  next
    case False
    with assms row show thesis using same expire [OF Inr [unfolded x]]
      by (auto simp: sweepRun_def result_simps split: if_splits)
  qed
qed

lemma sweepRun_inv:
  assumes inv: "lifecycle_inv db" and sweep: "sweepRun cfg tenant i now clk db = Inr (changed, db')"
  shows "lifecycle_inv db'"
  using sweep
proof (cases rule: sweepRun_cases)
  case (stop r a r1)
  have x: "(r, a) \<in> set (runs db)" using lockRun_mem [OF stop(1)] by simp
  show ?thesis by (rule record_inv [OF inv x stopIfDue_effect(1-3) [OF stop(2)] stop(4)]) (use inv_parts(4) [OF inv x] in simp_all)
next
  case (close r a r1 res reason outcome)
  have x: "(r, a) \<in> set (runs db)" using lockRun_mem [OF close(1)] by simp
  show ?thesis
    by (rule closeRun_inv [OF inv x close(3) stopIfDue_effect(1,2) [OF close(2)] lockClosing_effect [OF close(4) inv_parts(2) [OF inv]] close(5)])
      (use inv_parts(4) [OF inv x] in simp_all)
next
  case (expire r a r1)
  have x: "(r, a) \<in> set (runs db)" using lockRun_mem [OF expire(1)] by simp
  note e = ExpireWaiting_effect [OF expire(2)]
  have "run_ok r1 a" using ExpireWaiting_ok [OF _ expire(2)] inv_parts(4) [OF inv x] by simp
  with e show ?thesis by (intro record_inv [OF inv x _ _ _ expire(3)]) auto
qed (use inv in simp)

end
