(* ===== verification/RunLedgerInv.thy ===== *)
theory RunLedgerInv
  imports RunStoreSteps RunLedger
begin

text \<open>
  The invariant of the call ledger: what an account holds is exactly the sum of the reservations
  of the calls that are not settled and that it pays for, and its counters stay within its
  limits. Lifecycle transactions leave the accounts alone (\<open>quiet\<close>); each ledger transaction is a
  step of the account machine of \<open>RunBudget\<close> on the three accounts of its Run.
\<close>

section \<open>Sums over a table\<close>

definition sum_where :: "('r \<Rightarrow> bool) \<Rightarrow> ('r \<Rightarrow> int) \<Rightarrow> 'r list \<Rightarrow> int" where
  "sum_where P f t = sum_list (map (\<lambda>r. if P r then f r else 0) t)"

lemma sum_where_simps [simp]:
  "sum_where P f [] = 0" "sum_where P f (r # t) = (if P r then f r else 0) + sum_where P f t"
  "sum_where P f (t @ u) = sum_where P f t + sum_where P f u"
  by (simp_all add: sum_where_def)

lemma sum_where_cong:
  "(\<And>r. r \<in> set t \<Longrightarrow> P r = Q r) \<Longrightarrow> (\<And>r. r \<in> set t \<Longrightarrow> Q r \<Longrightarrow> f r = g r) \<Longrightarrow> sum_where P f t = sum_where Q g t"
  by (induction t) auto

lemma sum_where_nonneg: "(\<And>r. r \<in> set t \<Longrightarrow> 0 \<le> f r) \<Longrightarrow> 0 \<le> sum_where P f t"
  by (induction t) auto

lemma sum_where_ge:
  assumes "\<And>r. r \<in> set t \<Longrightarrow> 0 \<le> f r" and "x \<in> set t" and "P x"
  shows "f x \<le> sum_where P f t"
  using assms
proof (induction t)
  case (Cons r t)
  have "0 \<le> sum_where P f t" using Cons.prems(1) by (intro sum_where_nonneg) simp
  moreover have "0 \<le> f r" using Cons.prems(1) by simp
  ultimately show ?case using Cons by (cases "x = r") (auto intro: add_increasing)
qed simp

text \<open>One row, found by its key, stops counting; rows with another key count as before.\<close>

lemma sum_where_drop:
  assumes "distinct (map k t)" and "x \<in> set t" and "P x"
    and "\<And>r. r \<in> set t \<Longrightarrow> k r = k x \<Longrightarrow> \<not> P (g r)" and "\<And>r. r \<in> set t \<Longrightarrow> k r \<noteq> k x \<Longrightarrow> g r = r"
  shows "sum_where P f (map g t) = sum_where P f t - f x"
  using assms
proof (induction t)
  case (Cons r t)
  show ?case
  proof (cases "r = x")
    case True
    have "map g t = t"
      by (rule map_idI) (use Cons.prems True in \<open>auto simp: image_iff\<close>)
    with True Cons.prems show ?thesis by auto
  next
    case False
    with Cons.prems have "k r \<noteq> k x" by (auto simp: image_iff)
    with Cons False show ?thesis by auto
  qed
qed simp

text \<open>Looking up a row by its key.\<close>

lemma find_key_none: "i \<notin> k ` set t \<Longrightarrow> find_row (\<lambda>r. k r = i) t = None"
  by (auto simp: find_row_None_iff)

lemma find_key_some: "find_row (\<lambda>r. k r = i) t = Some r \<Longrightarrow> r \<in> set t \<and> k r = i"
  by (drule find_row_SomeD) simp

section \<open>Which accounts pay for a call\<close>

definition bizkey :: "Run \<times> Authority \<Rightarrow> (string \<times> string) \<times> (string \<times> string option)" where
  "bizkey x = (rkey x, (run_BusinessRequestID (fst x), run_RetryOfRunID (fst x)))"

definition callRun :: "callRow \<Rightarrow> string \<times> string" where
  "callRun c = (ls_TenantID (pc_Lease c), ls_RunID (pc_Lease c))"

definition businessAccounts :: "string \<Rightarrow> string \<Rightarrow> BusinessRequest list \<Rightarrow> string list" where
  "businessAccounts tenant i bs = (case find_row (\<lambda>b. bq_TenantID b = tenant \<and> bq_ID b = i) bs of
     None \<Rightarrow> [] | Some b \<Rightarrow> [bq_FamilyAccountID b, bq_TenantAccountID b, bq_BatchAccountID b])"

definition callAccounts :: "((string \<times> string) \<times> (string \<times> string option)) list \<Rightarrow> BusinessRequest list \<Rightarrow> callRow \<Rightarrow> string list" where
  "callAccounts biz bs c = (case map_of biz (callRun c) of None \<Rightarrow> [] | Some i \<Rightarrow> businessAccounts (fst (callRun c)) (fst i) bs)"

abbreviation open_call :: "callRow \<Rightarrow> bool" where
  "open_call c \<equiv> pc_Status c \<noteq> ''known''"

definition holds_on :: "run_db \<Rightarrow> string \<Rightarrow> callRow \<Rightarrow> bool" where
  "holds_on db i c \<longleftrightarrow> open_call c \<and> i \<in> set (callAccounts (map bizkey (runs db)) (business_requests db) c)"

definition heldTokens :: "run_db \<Rightarrow> string \<Rightarrow> int" where
  "heldTokens db i = sum_where (holds_on db i) pc_TotalTokens (physical_calls db)"

definition heldCost :: "run_db \<Rightarrow> string \<Rightarrow> int" where
  "heldCost db i = sum_where (holds_on db i) pc_CostMicroyuan (physical_calls db)"

text \<open>An account with a total of holds, as a state of the account machine with one hold.\<close>

definition account_ok :: "Account \<Rightarrow> int \<Rightarrow> int \<Rightarrow> bool" where
  "account_ok acc t c \<longleftrightarrow> account_inv (acc, [(t, c)])"

abbreviation accID :: "budgetRow \<Rightarrow> string" where
  "accID x \<equiv> ac_ID (br_Account x)"

definition call_ok :: "run_db \<Rightarrow> callRow \<Rightarrow> bool" where
  "call_ok db c \<longleftrightarrow> 0 \<le> pc_TotalTokens c \<and> 0 \<le> pc_CostMicroyuan c \<and> (pc_Status c = ''known'' \<longrightarrow> pc_UsageHash c \<noteq> None) \<and>
     callRun c \<in> rkey ` set (runs db)"

definition ledger_inv :: "run_db \<Rightarrow> bool" where
  "ledger_inv db \<longleftrightarrow> distinct (map accID (budget_accounts db)) \<and> distinct (map pc_PhysicalCallID (physical_calls db)) \<and>
     (\<forall>c \<in> set (physical_calls db). call_ok db c) \<and>
     (\<forall>x \<in> set (budget_accounts db). account_ok (br_Account x) (heldTokens db (accID x)) (heldCost db (accID x)))"

section \<open>The account machine on sums\<close>

lemma account_merge: "account_inv (acc, (t, c) # (t', c') # hs) \<Longrightarrow> account_inv (acc, (t + t', c + c') # hs)"
  by (auto simp: account_inv_def)

lemma account_split:
  "account_inv (acc, [(t, c)]) \<Longrightarrow> 0 \<le> t' \<Longrightarrow> t' \<le> t \<Longrightarrow> 0 \<le> c' \<Longrightarrow> c' \<le> c \<Longrightarrow> account_inv (acc, [(t', c'), (t - t', c - c')])"
  by (auto simp: account_inv_def)

lemma account_ok_saved:
  assumes "account_ok new t c" and "ac_Limits new = ac_Limits old"
  shows "account_ok (savedAccount new old) t c"
  using assms by (simp add: account_ok_def account_inv_def savedAccount_def)

lemma account_ok_reserve:
  assumes "account_ok acc t c" and "ReserveAccount acc d = Inr acc'"
  shows "account_ok acc' (us_Tokens d + t) (us_CostMicroyuan d + c)" "ac_Limits acc' = ac_Limits acc" "ac_ID acc' = ac_ID acc"
proof -
  have "account_inv (acc', [(us_Tokens d, us_CostMicroyuan d), (t, c)])"
    using account.preserve [OF astep_reserve [OF assms(2), of "[(t, c)]"]] assms(1) by (simp add: account_ok_def)
  from account_merge [OF this] show "account_ok acc' (us_Tokens d + t) (us_CostMicroyuan d + c)" by (simp add: account_ok_def)
  show "ac_Limits acc' = ac_Limits acc" "ac_ID acc' = ac_ID acc" using ReserveAccount_cases(5) [OF assms(2)] by simp_all
qed

lemma account_ok_settle:
  assumes "account_ok acc t c" and "SettleAccount acc ht hc kt kc = Inr acc'" and "kt \<le> ht" "kc \<le> hc" "ht \<le> t" "hc \<le> c"
  shows "account_ok acc' (t - ht) (c - hc)" "ac_Limits acc' = ac_Limits acc" "ac_ID acc' = ac_ID acc"
proof -
  from assms(2) have nonneg: "0 \<le> ht" "0 \<le> hc"
    by (cases rule: SettleAccount_cases; use assms(3,4) in simp)+
  have "account_inv (acc, [(ht, hc), (t - ht, c - hc)])"
    using assms(1,5,6) nonneg unfolding account_ok_def by (intro account_split) auto
  with account.preserve [OF astep_settle [OF assms(2), of "[(ht, hc), (t - ht, c - hc)]"]] assms(3,4)
  show "account_ok acc' (t - ht) (c - hc)" by (simp add: account_ok_def)
  from assms(2) show "ac_Limits acc' = ac_Limits acc" "ac_ID acc' = ac_ID acc"
    by (cases rule: SettleAccount_cases; simp)+
qed

section \<open>Saving accounts\<close>

definition saved :: "budgetRow list \<Rightarrow> budgetRow \<Rightarrow> budgetRow" where
  "saved accs x = (case find_row (\<lambda>b. accID b = accID x) accs of None \<Rightarrow> x
     | Some b \<Rightarrow> x\<lparr>br_Account := savedAccount (br_Account b) (br_Account x)\<rparr>)"

lemma savedAccount_fields [simp]: "ac_ID (savedAccount new old) = ac_ID old" "ac_Scope (savedAccount new old) = ac_Scope old"
  "ac_Limits (savedAccount new old) = ac_Limits old"
  by (simp_all add: savedAccount_def)

lemma saved_id [simp]: "accID (saved accs x) = accID x"
  by (simp add: saved_def split: option.split)

lemma saveLedgerAccounts_eq:
  assumes "distinct (map accID accs)"
  shows "saveLedgerAccounts accs db = db\<lparr>budget_accounts := map (saved accs) (budget_accounts db)\<rparr>"
  using assms
proof (induction accs arbitrary: db)
  case Nil
  have "saved [] = (\<lambda>x. x)" by (simp add: saved_def fun_eq_iff)
  then show ?case by (simp add: saveLedgerAccounts_def)
next
  case (Cons b accs)
  have none: "find_row (\<lambda>y. accID y = accID b) accs = None"
    by (rule find_key_none) (use Cons.prems in simp)
  have one: "saved accs (if accID x = accID b then x\<lparr>br_Account := savedAccount (br_Account b) (br_Account x)\<rparr> else x) = saved (b # accs) x"
    for x using none by (auto simp: saved_def)
  have "saveLedgerAccounts (b # accs) db = saveLedgerAccounts accs (saveAccount b db)" by (simp add: saveLedgerAccounts_def)
  also have "\<dots> = (saveAccount b db)\<lparr>budget_accounts := map (saved accs) (budget_accounts (saveAccount b db))\<rparr>"
    using Cons by simp
  also have "\<dots> = db\<lparr>budget_accounts := map (saved (b # accs)) (budget_accounts db)\<rparr>"
    by (simp add: saveAccount_def update_where_def one o_def)
  finally show ?case .
qed

text \<open>The three accounts that a Run's transaction loads: the rows of its business request, all different.\<close>

lemma loadAccounts_effect:
  assumes "loadAccounts tenant bid db = Inr accs"
  shows "map accID accs = businessAccounts tenant bid (business_requests db)" "distinct (map accID accs)" "length accs = 3"
    "set accs \<subseteq> set (budget_accounts db)"
proof -
  define find where "find = (\<lambda>i. find_row (\<lambda>x. accID x = i) (budget_accounts db))"
  have mem: "b \<in> set (budget_accounts db) \<and> accID b = i" if "find i = Some b" for i b
    using that unfolding find_def by (rule find_key_some)
  from assms obtain b f t g where b: "find_row (\<lambda>b. bq_TenantID b = tenant \<and> bq_ID b = bid) (business_requests db) = Some b"
    and rows: "find (bq_FamilyAccountID b) = Some f" "find (bq_TenantAccountID b) = Some t" "find (bq_BatchAccountID b) = Some g"
      "ac_Scope (br_Account f) = ''family''" "ac_Scope (br_Account t) = ''tenant''" "ac_Scope (br_Account g) = ''batch''"
      "accs = [f, t, g]"
    unfolding find_def loadAccounts_def Let_def by (auto simp: result_simps split: option.splits if_splits)
  note m = mem [OF rows(1)] mem [OF rows(2)] mem [OF rows(3)]
  show "map accID accs = businessAccounts tenant bid (business_requests db)"
    using m rows(7) b by (simp add: businessAccounts_def)
  show "length accs = 3" "set accs \<subseteq> set (budget_accounts db)" using m rows(7) by auto
  have "accID f \<noteq> accID t" using rows(1,2,4,5) m by auto
  moreover have "accID f \<noteq> accID g" using rows(1,3,4,6) m by auto
  moreover have "accID t \<noteq> accID g" using rows(2,3,5,6) m by auto
  ultimately show "distinct (map accID accs)" using rows(7) by simp
qed

lemma reserveEach_effect:
  assumes "reserveEach accs d = Inr accs'"
  shows "list_all2 (\<lambda>b b'. \<exists>acc. ReserveAccount (br_Account b) d = Inr acc \<and> b' = b\<lparr>br_Account := acc\<rparr>) accs accs'"
  using assms
proof (induction accs arbitrary: accs')
  case (Cons b accs)
  from Cons.prems obtain acc rest where "ReserveAccount (br_Account b) d = Inr acc" "reserveEach accs d = Inr rest"
    "accs' = b\<lparr>br_Account := acc\<rparr> # rest" by (auto simp: result_simps)
  with Cons.IH show ?case by auto
qed simp

lemma settleEach_effect:
  assumes "settleEach accs ht hc kt kc = Inr accs'"
  shows "list_all2 (\<lambda>b b'. \<exists>acc. SettleAccount (br_Account b) ht hc kt kc = Inr acc \<and> b' = b\<lparr>br_Account := acc\<rparr>) accs accs'"
  using assms
proof (induction accs arbitrary: accs')
  case (Cons b accs)
  from Cons.prems obtain acc rest where "SettleAccount (br_Account b) ht hc kt kc = Inr acc" "settleEach accs ht hc kt kc = Inr rest"
    "accs' = b\<lparr>br_Account := acc\<rparr> # rest" by (auto simp: result_simps)
  with Cons.IH show ?case by auto
qed simp

text \<open>
  Saving the changed copies of loaded rows: every row of the table that was not loaded stays, a
  loaded one becomes its changed copy (with freezes and stop codes kept).
\<close>

lemma saved_loaded:
  assumes "list_all2 (\<lambda>b b'. \<exists>acc. R (br_Account b) acc \<and> b' = b\<lparr>br_Account := acc\<rparr>) accs accs'"
    and "\<forall>a a'. R a a' \<longrightarrow> ac_ID a' = ac_ID a" and "distinct (map accID accs)"
  shows "map accID accs' = map accID accs"
    and "x \<in> set accs \<Longrightarrow> \<exists>acc. R (br_Account x) acc \<and> saved accs' x = x\<lparr>br_Account := savedAccount acc (br_Account x)\<rparr>"
    and "accID x \<notin> accID ` set accs \<Longrightarrow> saved accs' x = x"
proof -
  show ids: "map accID accs' = map accID accs"
    using assms(1,2) by (induction rule: list_all2_induct) auto
  show "saved accs' x = x" if "accID x \<notin> accID ` set accs"
  proof -
    have "accID ` set accs' = accID ` set accs" using arg_cong [OF ids, of set] by simp
    with that have "find_row (\<lambda>b. accID b = accID x) accs' = None" by (intro find_key_none) simp
    then show ?thesis by (simp add: saved_def)
  qed
  show "\<exists>acc. R (br_Account x) acc \<and> saved accs' x = x\<lparr>br_Account := savedAccount acc (br_Account x)\<rparr>" if x: "x \<in> set accs"
  proof -
    from x obtain n where n: "n < length accs" "accs ! n = x" by (auto simp: in_set_conv_nth)
    define b' where "b' = accs' ! n"
    have b': "b' \<in> set accs'" using n list_all2_lengthD [OF assms(1)] by (simp add: b'_def)
    from list_all2_nthD [OF assms(1) n(1)] obtain acc where acc: "R (br_Account x) acc" "b' = x\<lparr>br_Account := acc\<rparr>"
      by (auto simp: n b'_def)
    have "accID b' = accID x" using acc assms(2) by simp
    moreover have "distinct (map accID accs')" using ids assms(3) by simp
    ultimately have "find_row (\<lambda>b. accID b = accID x) accs' = Some b'"
      using find_row_Some_iff [where k = accID and t = accs' and i = "accID x" and r = b'] b' by simp
    with acc show ?thesis by (auto simp: saved_def)
  qed
qed

section \<open>Transactions that leave holds and counters alone\<close>

text \<open>A call row that still holds what it held; an account row that may have been frozen.\<close>

definition same_hold :: "callRow \<Rightarrow> callRow \<Rightarrow> bool" where
  "same_hold c c' \<longleftrightarrow> pc_PhysicalCallID c' = pc_PhysicalCallID c \<and> pc_Lease c' = pc_Lease c \<and> pc_TotalTokens c' = pc_TotalTokens c \<and>
     pc_CostMicroyuan c' = pc_CostMicroyuan c \<and> open_call c' = open_call c \<and> (\<not> open_call c \<longrightarrow> pc_UsageHash c' = pc_UsageHash c)"

definition same_funds :: "budgetRow \<Rightarrow> budgetRow \<Rightarrow> bool" where
  "same_funds x x' \<longleftrightarrow> (br_Account x')\<lparr>ac_Frozen := False, ac_BatchStopCode := ''''\<rparr> =
     (br_Account x)\<lparr>ac_Frozen := False, ac_BatchStopCode := ''''\<rparr>"

text \<open>The identity and the cursor of the Runs, and the accepted steps.\<close>

definition runcore :: "Run \<times> Authority \<Rightarrow> ((string \<times> string) \<times> (string \<times> string option)) \<times> int" where
  "runcore x = (bizkey x, run_CursorVersion (fst x))"

definition steps_same :: "run_db \<Rightarrow> run_db \<Rightarrow> bool" where
  "steps_same db db' \<longleftrightarrow> map runcore (runs db') = map runcore (runs db) \<and> run_steps db' = run_steps db"

definition calm :: "run_db \<Rightarrow> run_db \<Rightarrow> bool" where
  "calm db db' \<longleftrightarrow> map bizkey (runs db') = map bizkey (runs db) \<and> business_requests db' = business_requests db \<and>
     list_all2 same_hold (physical_calls db) (physical_calls db') \<and> list_all2 same_funds (budget_accounts db) (budget_accounts db')"

definition quiet :: "run_db \<Rightarrow> run_db \<Rightarrow> bool" where
  "quiet db db' \<longleftrightarrow> steps_same db db' \<and> business_requests db' = business_requests db \<and>
     list_all2 same_hold (physical_calls db) (physical_calls db') \<and> list_all2 same_funds (budget_accounts db) (budget_accounts db')"

lemma same_hold_refl [simp]: "same_hold c c"
  by (simp add: same_hold_def)

lemma same_funds_refl [simp]: "same_funds x x"
  by (simp add: same_funds_def)

lemma account_ok_unfrozen: "account_ok (acc\<lparr>ac_Frozen := f, ac_BatchStopCode := c\<rparr>) = account_ok acc"
  by (simp add: account_ok_def account_inv_def fun_eq_iff)

lemma same_funds_fields:
  assumes "same_funds x x'"
  shows "accID x' = accID x" "account_ok (br_Account x') = account_ok (br_Account x)"
proof -
  have "ac_ID ((br_Account x')\<lparr>ac_Frozen := False, ac_BatchStopCode := ''''\<rparr>) = ac_ID ((br_Account x)\<lparr>ac_Frozen := False, ac_BatchStopCode := ''''\<rparr>)"
    using assms unfolding same_funds_def by (rule arg_cong)
  then show "accID x' = accID x" by simp
  show "account_ok (br_Account x') = account_ok (br_Account x)"
    using assms unfolding same_funds_def by (metis account_ok_unfrozen)
qed

lemma quiet_frame:
  "runs db' = runs db \<Longrightarrow> business_requests db' = business_requests db \<Longrightarrow> physical_calls db' = physical_calls db \<Longrightarrow>
   budget_accounts db' = budget_accounts db \<Longrightarrow> run_steps db' = run_steps db \<Longrightarrow> quiet db db'"
  by (simp add: quiet_def steps_same_def list_all2_refl)

lemma steps_same_refl [simp]: "steps_same db db"
  by (simp add: steps_same_def)

lemma steps_same_trans: "steps_same db db1 \<Longrightarrow> steps_same db1 db2 \<Longrightarrow> steps_same db db2"
  by (simp add: steps_same_def)

lemma steps_same_biz: "steps_same db db' \<Longrightarrow> map bizkey (runs db') = map bizkey (runs db)"
  unfolding steps_same_def by (drule conjunct1, drule arg_cong [of _ _ "map fst"]) (simp add: runcore_def comp_def)

lemma quiet_biz: "quiet db db' \<Longrightarrow> map bizkey (runs db') = map bizkey (runs db)"
  by (simp add: quiet_def steps_same_biz)

lemma quiet_refl [simp]: "quiet db db"
  by (rule quiet_frame) simp_all

lemma quiet_trans:
  assumes "quiet db db1" and "quiet db1 db2"
  shows "quiet db db2"
proof -
  have h: "list_all2 same_hold (physical_calls db) (physical_calls db2)"
    by (rule list_all2_trans [where as = "physical_calls db" and bs = "physical_calls db1" and cs = "physical_calls db2" and
          ?P1.0 = same_hold and ?P2.0 = same_hold])
      (use assms in \<open>auto simp: quiet_def same_hold_def\<close>)
  have f: "list_all2 same_funds (budget_accounts db) (budget_accounts db2)"
    by (rule list_all2_trans [where as = "budget_accounts db" and bs = "budget_accounts db1" and cs = "budget_accounts db2" and
          ?P1.0 = same_funds and ?P2.0 = same_funds])
      (use assms in \<open>auto simp: quiet_def same_funds_def\<close>)
  from assms h f show ?thesis by (simp add: quiet_def steps_same_def)
qed

lemma map_rkey_bizkey: "map rkey rs = map fst (map bizkey rs)"
  by (simp add: bizkey_def)

lemma same_hold_accounts: "same_hold c c' \<Longrightarrow> callAccounts biz bs c' = callAccounts biz bs c"
  by (auto simp: callAccounts_def same_hold_def callRun_def split: option.split)

lemma list_all2_same_map: "list_all2 R xs ys \<Longrightarrow> (\<And>x y. R x y \<Longrightarrow> g y = f x) \<Longrightarrow> map g ys = map f xs"
  by (induction rule: list_all2_induct) auto

lemma quiet_calm: "quiet db db' \<Longrightarrow> calm db db'"
  by (simp add: quiet_def calm_def steps_same_biz)

lemma calm_held:
  assumes "calm db db'"
  shows "heldTokens db' i = heldTokens db i" "heldCost db' i = heldCost db i"
proof -
  have "holds_on db' i c' = holds_on db i c \<and> pc_TotalTokens c' = pc_TotalTokens c \<and> pc_CostMicroyuan c' = pc_CostMicroyuan c"
    if "same_hold c c'" for c c'
    using assms that same_hold_accounts [OF that] by (simp add: holds_on_def calm_def same_hold_def)
  note hold = this
  have calls: "list_all2 same_hold (physical_calls db) (physical_calls db')" using assms by (simp add: calm_def)
  have "map (\<lambda>r. if holds_on db' i r then pc_TotalTokens r else 0) (physical_calls db') =
      map (\<lambda>r. if holds_on db i r then pc_TotalTokens r else 0) (physical_calls db)"
    "map (\<lambda>r. if holds_on db' i r then pc_CostMicroyuan r else 0) (physical_calls db') =
      map (\<lambda>r. if holds_on db i r then pc_CostMicroyuan r else 0) (physical_calls db)"
    by (rule list_all2_same_map [OF calls]; use hold in simp)+
  then show "heldTokens db' i = heldTokens db i" "heldCost db' i = heldCost db i"
    by (simp_all add: heldTokens_def heldCost_def sum_where_def)
qed

lemma list_all2_mem2: "list_all2 R xs ys \<Longrightarrow> y \<in> set ys \<Longrightarrow> \<exists>x \<in> set xs. R x y"
  by (induction rule: list_all2_induct) auto

lemma calm_inv:
  assumes inv: "ledger_inv db" and q: "calm db db'"
  shows "ledger_inv db'"
proof -
  have calls: "list_all2 same_hold (physical_calls db) (physical_calls db')"
    and accs: "list_all2 same_funds (budget_accounts db) (budget_accounts db')" using q by (simp_all add: calm_def)
  have "map rkey (runs db') = map rkey (runs db)" using q by (simp add: calm_def map_rkey_bizkey)
  from arg_cong [OF this, of set] have keys: "rkey ` set (runs db') = rkey ` set (runs db)" by simp
  have "map accID (budget_accounts db') = map accID (budget_accounts db)"
    by (rule list_all2_same_map [OF accs]) (rule same_funds_fields)
  moreover have "map pc_PhysicalCallID (physical_calls db') = map pc_PhysicalCallID (physical_calls db)"
    by (rule list_all2_same_map [OF calls]) (simp add: same_hold_def)
  moreover have "call_ok db' c'" if "c' \<in> set (physical_calls db')" for c'
  proof -
    from list_all2_mem2 [OF calls that] obtain c where "c \<in> set (physical_calls db)" "same_hold c c'" by blast
    with inv keys show ?thesis by (auto simp: ledger_inv_def call_ok_def same_hold_def callRun_def)
  qed
  moreover have "account_ok (br_Account x') (heldTokens db' (accID x')) (heldCost db' (accID x'))"
    if "x' \<in> set (budget_accounts db')" for x'
  proof -
    from list_all2_mem2 [OF accs that] obtain x where "x \<in> set (budget_accounts db)" "same_funds x x'" by blast
    with inv show ?thesis by (simp add: ledger_inv_def same_funds_fields calm_held [OF q])
  qed
  ultimately show ?thesis using inv by (simp add: ledger_inv_def)
qed

lemma quiet_inv: "ledger_inv db \<Longrightarrow> quiet db db' \<Longrightarrow> ledger_inv db'"
  by (rule calm_inv [OF _ quiet_calm])

text \<open>Replacing a Run row keeps its business request.\<close>

lemma putRun_core:
  assumes "distinct (map rkey rows)" "x \<in> set rows" "runcore y = runcore x"
  shows "map runcore (putRun y rows) = map runcore rows"
proof -
  have key: "rkey y = rkey x" using assms(3) by (simp add: runcore_def bizkey_def)
  have "z = x" if "z \<in> set rows" "rkey z = rkey y" for z
    using that assms(1,2) key by (metis distinct_map inj_onD)
  then show ?thesis using assms(3) by (simp add: putRun_def update_where_def)
qed

lemma quiet_put:
  assumes "distinct (map rkey (runs db))" "(r, a) \<in> set (runs db)" "same_run r r'"
    and "runs db' = putRun (r', a') (runs db)" "business_requests db' = business_requests db" "physical_calls db' = physical_calls db"
      "budget_accounts db' = budget_accounts db" "run_steps db' = run_steps db"
  shows "quiet db db'"
proof -
  have "runcore (r', a') = runcore (r, a)" using assms(3) by (simp add: runcore_def bizkey_def rkey_def same_run_def)
  from putRun_core [OF assms(1,2) this] assms(4-) show ?thesis by (simp add: quiet_def steps_same_def list_all2_refl)
qed

lemma same_run_stamped [simp]: "same_run r (stamped clk r') = same_run r r'"
  by (simp add: same_run_def)

lemma quiet_record:
  assumes "distinct (map rkey (runs db))" "(r, a) \<in> set (runs db)" "same_run r r'" "recordRun clk r' a' kind now db = Inr db'"
  shows "quiet db db'"
proof -
  from recordRun_effect [OF assms(4)] obtain n evs where
    db': "db' = db\<lparr>runs := putRun (stamped clk r', a'\<lparr>au_EventSequence := n\<rparr>) (runs db), run_events := evs\<rparr>" by blast
  show ?thesis by (rule quiet_put [OF assms(1,2)]) (use assms(3) db' in simp_all)
qed

lemma quiet_save:
  assumes "distinct (map rkey (runs db))" "(r, a) \<in> set (runs db)" "same_run r r'"
  shows "quiet db (saveRun clk r' a' db)"
  by (rule quiet_put [OF assms(1,2)]) (use assms(3) in \<open>simp_all add: saveRun_eq\<close>)

section \<open>Lifecycle transactions are quiet\<close>

lemma same_hold_markUnknown [simp]: "same_hold c (markUnknown c)"
  by (simp add: same_hold_def markUnknown_def)

lemma list_all2_update_where: "(\<And>x. R x x) \<Longrightarrow> (\<And>x. x \<in> set t \<Longrightarrow> P x \<Longrightarrow> R x (f x)) \<Longrightarrow> list_all2 R t (update_where P f t)"
  by (induction t) (auto simp: update_where_def)

lemma quiet_markCalls: "quiet db (markCalls r res db)"
  by (auto simp: quiet_def steps_same_def markCalls_def Let_def list_all2_refl intro: list_all2_update_where split: option.split)

lemma slots_only_trans:
  fixes db :: run_db
  assumes "db1 = db\<lparr>execution_slots := sl1\<rparr>" "db2 = db1\<lparr>execution_slots := sl2\<rparr>"
  shows "db2 = db\<lparr>execution_slots := sl2\<rparr>"
  using assms by simp

lemma saveSlots_frame:
  "saveSlots ss d db = Inr db' \<Longrightarrow> db' = db\<lparr>execution_slots := execution_slots db'\<rparr>"
proof (induction ss arbitrary: db)
  case (Cons s ss)
  from Cons.prems obtain sl where rest: "saveSlots ss d (db\<lparr>execution_slots := sl\<rparr>) = Inr db'"
    by (auto simp: Let_def split: if_splits)
  show ?case by (rule slots_only_trans [OF refl Cons.IH [OF rest]])
qed simp

lemma closeRun_quiet:
  assumes "distinct (map rkey (runs db))" "(r0, a0) \<in> set (runs db)" "same_run r0 r" "closeRun clk r a res reason now db = Inr (outcome, db')"
  shows "quiet db db'"
proof -
  from assms(4) obtain r1 a1 r2 a2 db1 where pol: "CloseAttempt r a reason now = Inr (outcome, r1, a1)"
    and rec: "closeAttemptRecords r1 a1 res outcome now db = Inr (r2, a2, db1)"
    and fin: "recordRun clk r2 a2 ''attempt_closed'' now db1 = Inr db'"
    by (auto simp: closeRun_def result_simps)
  from rec obtain ats where save: "saveSlots (ar_Slots res) (- 1) ((markCalls r1 res db)\<lparr>run_attempts := ats\<rparr>) = Inr db1"
    and r2: "r2 = r1\<lparr>run_LeaseUntil := None, run_AttemptDeadline := None\<rparr>"
    by (auto simp: closeAttemptRecords_def Let_def result_simps split: if_splits)
  from saveSlots_frame [OF save] obtain sl where db1: "db1 = (markCalls r1 res db)\<lparr>run_attempts := ats, execution_slots := sl\<rparr>" by simp
  have "same_run r0 r1" using pol assms(3) by (elim CloseAttempt_cases) (auto simp: same_run_def finishRun_def)
  with r2 have same: "same_run r0 r2" by (simp add: same_run_def)
  have "quiet db db1" using quiet_markCalls [of db r1 res] by (simp add: quiet_def steps_same_def db1)
  moreover have "quiet db1 db'"
    by (rule quiet_record [OF _ _ same fin, where a = a0]) (use assms(1,2) in \<open>simp_all add: db1\<close>)
  ultimately show ?thesis by (rule quiet_trans)
qed

lemma lockSlot_frame: "lockSlot k c db = Inr (s, db') \<Longrightarrow> db' = db\<lparr>execution_slots := execution_slots db'\<rparr>"
  by (cases c) (auto simp: lockSlot_def Let_def split: option.splits if_splits)

lemma lockSlots_frame: "lockSlots ks cs db = Inr (ss, db') \<Longrightarrow> db' = db\<lparr>execution_slots := execution_slots db'\<rparr>"
proof (induction ks arbitrary: cs db ss)
  case (Cons k ks)
  show ?case
  proof (cases cs)
    case Nil
    with Cons.prems show ?thesis by simp
  next
    case (Cons c cs')
    with Cons.prems obtain s db1 ss1 where one: "lockSlot k c db = Inr (s, db1)" and rest: "lockSlots ks cs' db1 = Inr (ss1, db')"
      by (auto simp: result_simps)
    show ?thesis by (rule slots_only_trans [OF lockSlot_frame [OF one] Cons.IH [OF rest]])
  qed
qed simp

lemma grantLease_quiet:
  assumes "distinct (map rkey (runs db))" "(r, a) \<in> set (runs db)" "grantLease clk r a ss w sid now db = Inr (lease, r1, a1, db')"
  shows "quiet db db'"
proof -
  from assms(3) obtain ats db1 where claim: "ClaimExecution r a w sid now = Inr (lease, r1, a1)"
    and save: "saveSlots ss 1 (db\<lparr>run_attempts := ats\<rparr>) = Inr db1" and rec: "recordRun clk r1 a1 ''claimed'' now db1 = Inr db'"
    by (auto simp: grantLease_def result_simps split: if_splits)
  from saveSlots_frame [OF save] obtain sl where db1: "db1 = db\<lparr>run_attempts := ats, execution_slots := sl\<rparr>" by simp
  from recordRun_effect [OF rec] obtain n evs where
    db': "db' = db1\<lparr>runs := putRun (stamped clk r1, a1\<lparr>au_EventSequence := n\<rparr>) (runs db1), run_events := evs\<rparr>" by blast
  have "runcore (stamped clk r1, a1\<lparr>au_EventSequence := n\<rparr>) = runcore (r, a)"
    using ClaimExecution_effect(4,10,11,12) [OF claim] by (simp add: runcore_def bizkey_def rkey_def)
  from putRun_core [OF assms(1,2) this] show ?thesis by (simp add: quiet_def steps_same_def db' db1 list_all2_refl)
qed

lemma expireAtClaim_quiet:
  assumes "distinct (map rkey (runs db))" "(r, a) \<in> set (runs db)" "expireAtClaim clk r a now db = Inr db'"
  shows "quiet db db'"
proof -
  from assms(3) obtain r1 where exp: "ExpireWaiting r now = Inr r1" and rec: "recordRun clk r1 a ''deadline_exceeded'' now db = Inr db'"
    by (auto simp: expireAtClaim_def result_simps)
  show ?thesis by (rule quiet_record [OF assms(1,2) ExpireWaiting_effect(1) [OF exp] rec])
qed

lemma lockSlots_quiet: "lockSlots ks cs db = Inr (ss, db') \<Longrightarrow> quiet db db' \<and> runs db' = runs db"
  by (drule lockSlots_frame) (metis quiet_frame run_db.select_convs run_db.surjective run_db.update_convs)

lemma StoreClaimRun_quiet:
  assumes keys: "distinct (map rkey (runs db))"
    and claim: "StoreClaimRun cfg locked guard loadCheckpoint caller sid now1 now2 now3 clk db = Inr (res, db')"
  shows "quiet db db'"
  using claim
proof (cases rule: StoreClaimRun_cases)
  case (slots worker r a ss)
  then show ?thesis using lockSlots_quiet by blast
next
  case (expired worker r a ss db1 now)
  with lockSlots_quiet have "quiet db db1" "runs db1 = runs db" by blast+
  moreover have "quiet db1 db'" by (rule expireAtClaim_quiet [OF _ _ expired(4)]) (use calculation keys expired(2) in simp_all)
  ultimately show ?thesis by (blast intro: quiet_trans)
next
  case (granted worker r a ss db1 lease r1 a1 checkpoint)
  with lockSlots_quiet have "quiet db db1" "runs db1 = runs db" by blast+
  moreover have "quiet db1 db'" by (rule grantLease_quiet [OF _ _ granted(4)]) (use calculation keys granted(2) in simp_all)
  ultimately show ?thesis by (blast intro: quiet_trans)
qed simp

lemma stopIfDue_same: "stopIfDue r now = Inr r1 \<Longrightarrow> same_run r r1"
  by (elim stopIfDue_cases) (auto simp: same_run_def)

lemma heartbeatRun_quiet:
  assumes keys: "distinct (map rkey (runs db))" "(r, a) \<in> set (runs db)"
    and hb: "heartbeatRun cfg caller lease now clk r a db = Inr (continue, until, reason, db')"
  shows "quiet db db'"
  using hb
proof (cases rule: heartbeatRun_cases)
  case (2 r1)
  show ?thesis by (rule quiet_record [OF keys stopIfDue_same [OF 2(1)] 2(2)])
next
  case (3 r1 r2)
  have "same_run r r2" using stopIfDue_same [OF 3(1)] Heartbeat_effect(1) [OF 3(2)] by (simp add: same_run_def)
  with 3 quiet_save [OF keys] show ?thesis by simp
qed simp

lemma renewSession_quiet [simp]: "quiet db (renewSession w s now db1) = quiet db db1"
  by (simp add: quiet_def steps_same_def renewSession_def)

lemma HeartbeatExecution_quiet:
  assumes keys: "distinct (map rkey (runs db))" and hb: "HeartbeatExecution cfg caller lease now clk db = Inr (res, db')"
  shows "quiet db db'"
  using hb
proof (cases rule: HeartbeatExecution_cases)
  case (1 r a continue until reason db1 session)
  have "quiet db db1" by (rule heartbeatRun_quiet [OF keys _ 1(4)]) (rule conjunct1 [OF lockRun_mem [OF 1(1)]])
  with 1(6) show ?thesis by simp
qed

lemma close_row_quiet:
  assumes "distinct (map rkey (runs db))" "lockRun t i db = Inr (r, a)" "closeRun clk r a res reason now db = Inr (outcome, db')"
  shows "quiet db db'"
  by (rule closeRun_quiet [OF assms(1) _ _ assms(3)]) (use lockRun_mem [OF assms(2)] in \<open>auto simp: same_run_def\<close>)

lemma operations_quiet [simp]: "quiet db (db1\<lparr>run_operations := ops\<rparr>) = quiet db db1" "quiet db (db1\<lparr>worker_sessions := ss\<rparr>) = quiet db db1"
  by (simp_all add: quiet_def steps_same_def)

lemma StoreCancelRun_quiet:
  assumes keys: "distinct (map rkey (runs db))" and cancel: "StoreCancelRun cfg newID tenant i key now clk db = Inr (res, db')"
  shows "quiet db db'"
  using cancel
proof (cases rule: StoreCancelRun_cases)
  case (accepted r a r1 db1 ops)
  have "quiet db db1" if "recordRun clk r1 a ''cancel_requested'' now db = Inr db1"
    by (rule quiet_record [OF keys _ RequestCancel_effect(1) [OF accepted(2)] that]) (rule conjunct1 [OF lockRun_mem [OF accepted(1)]])
  with accepted show ?thesis by auto
qed simp

lemma sweepRun_quiet:
  assumes keys: "distinct (map rkey (runs db))" and sweep: "sweepRun cfg tenant i now clk db = Inr (changed, db')"
  shows "quiet db db'"
  using sweep
proof (cases rule: sweepRun_cases)
  case (stop r a r1)
  show ?thesis by (rule quiet_record [OF keys _ stopIfDue_same [OF stop(2)] stop(4)]) (rule conjunct1 [OF lockRun_mem [OF stop(1)]])
next
  case (close r a r1 res reason outcome)
  show ?thesis by (rule closeRun_quiet [OF keys _ stopIfDue_same [OF close(2)] close(5)]) (rule conjunct1 [OF lockRun_mem [OF close(1)]])
next
  case (expire r a r1)
  show ?thesis by (rule quiet_record [OF keys _ ExpireWaiting_effect(1) [OF expire(2)] expire(3)]) (rule conjunct1 [OF lockRun_mem [OF expire(1)]])
qed simp

section \<open>Account transitions of the ledger\<close>

lemma ledger_parts:
  assumes "ledger_inv db"
  shows "distinct (map accID (budget_accounts db))" "distinct (map pc_PhysicalCallID (physical_calls db))"
    and "\<And>c. c \<in> set (physical_calls db) \<Longrightarrow> call_ok db c"
    and "\<And>x. x \<in> set (budget_accounts db) \<Longrightarrow> account_ok (br_Account x) (heldTokens db (accID x)) (heldCost db (accID x))"
  using assms by (auto simp: ledger_inv_def)

text \<open>
  The changed copies of the loaded accounts are saved; each is right for the new holds of its
  account, and the holds of the other accounts have not changed.
\<close>

lemma accounts_step:
  assumes inv: "ledger_inv db" and load: "loadAccounts tenant bid db = Inr accs"
    and R: "list_all2 (\<lambda>b b'. \<exists>acc. R (br_Account b) acc \<and> b' = b\<lparr>br_Account := acc\<rparr>) accs accs'"
    and ids: "\<forall>a a'. R a a' \<longrightarrow> ac_ID a' = ac_ID a \<and> ac_Limits a' = ac_Limits a"
    and ok: "\<forall>x acc. x \<in> set accs \<longrightarrow> R (br_Account x) acc \<longrightarrow> account_ok acc (T (accID x)) (C (accID x))"
    and others: "\<forall>i. i \<notin> set (map accID accs) \<longrightarrow> T i = heldTokens db i \<and> C i = heldCost db i"
  shows "saveLedgerAccounts accs' db0 = db0\<lparr>budget_accounts := map (saved accs') (budget_accounts db0)\<rparr>"
    and "x \<in> set (budget_accounts db) \<Longrightarrow> account_ok (br_Account (saved accs' x)) (T (accID x)) (C (accID x))"
proof -
  note l = loadAccounts_effect [OF load]
  have ids': "\<forall>a a'. R a a' \<longrightarrow> ac_ID a' = ac_ID a" using ids by blast
  note s = saved_loaded [OF R ids' l(2)]
  show "saveLedgerAccounts accs' db0 = db0\<lparr>budget_accounts := map (saved accs') (budget_accounts db0)\<rparr>"
    by (rule saveLedgerAccounts_eq) (use s(1) l(2) in simp)
  show "account_ok (br_Account (saved accs' x)) (T (accID x)) (C (accID x))" if x: "x \<in> set (budget_accounts db)"
  proof (cases "accID x \<in> accID ` set accs")
    case True
    then obtain b where "b \<in> set accs" "accID b = accID x" by auto
    with l(4) x ledger_parts(1) [OF inv] have mem: "x \<in> set accs" by (metis (mono_tags, lifting) distinct_map inj_onD subsetD)
    from s(2) [OF mem] obtain acc where acc: "R (br_Account x) acc" "saved accs' x = x\<lparr>br_Account := savedAccount acc (br_Account x)\<rparr>" by blast
    then have "account_ok acc (T (accID x)) (C (accID x))" "ac_Limits acc = ac_Limits (br_Account x)" using ok mem ids by blast+
    with acc(2) account_ok_saved show ?thesis by simp
  next
    case False
    with s(3) spec [OF others, of "accID x"] ledger_parts(4) [OF inv x] show ?thesis by simp
  qed
qed

lemma saved_ids: "map accID (map (saved accs) t) = map accID t"
  by simp

text \<open>Which accounts a call row of a locked Run uses.\<close>

lemma callAccounts_of:
  assumes "distinct (map rkey (runs db))" "lockRun t i db = Inr (r, a)" "callRun c = (t, i)"
  shows "callAccounts (map bizkey (runs db)) (business_requests db) c =
    businessAccounts (run_TenantID r) (run_BusinessRequestID r) (business_requests db)"
proof -
  have mem: "(r, a) \<in> set (runs db)" "rkey (r, a) = (t, i)" using lockRun_mem [OF assms(2)] by auto
  have "map_of (map bizkey (runs db)) (rkey (r, a)) = Some (run_BusinessRequestID r, run_RetryOfRunID r)"
    by (rule map_of_is_SomeI) (use assms(1) mem(1) in \<open>auto simp: bizkey_def comp_def image_iff intro!: bexI [of _ "(r, a)"]\<close>)
  with mem(2) assms(3) show ?thesis by (simp add: callAccounts_def rkey_def)
qed

lemma heldTokens_cong:
  assumes "map bizkey (runs db') = map bizkey (runs db)" "business_requests db' = business_requests db"
  shows "holds_on db' = holds_on db"
  using assms by (simp add: holds_on_def fun_eq_iff)

lemma reserveLedgerAccounts_effect:
  assumes "reserveLedgerAccounts accs d now = Inr accs'"
  shows "list_all2 (\<lambda>b b'. \<exists>acc. ReserveAccount (br_Account b) d = Inr acc \<and> b' = b\<lparr>br_Account := acc\<rparr>) accs accs'"
  using assms by (intro reserveEach_effect) (auto simp: reserveLedgerAccounts_def result_simps)

text \<open>Reserving: the new calls hold on the loaded accounts exactly what is reserved there.\<close>

lemma reserve_step:
  assumes inv: "ledger_inv db" and load: "loadAccounts tenant bid db = Inr accs" and res: "reserveLedgerAccounts accs d now = Inr accs'"
    and held: "\<And>i. T i = heldTokens db i + (if i \<in> set (map accID accs) then us_Tokens d else 0)"
      "\<And>i. C i = heldCost db i + (if i \<in> set (map accID accs) then us_CostMicroyuan d else 0)"
  shows "saveLedgerAccounts accs' db0 = db0\<lparr>budget_accounts := map (saved accs') (budget_accounts db0)\<rparr>"
    and "x \<in> set (budget_accounts db) \<Longrightarrow> account_ok (br_Account (saved accs' x)) (T (accID x)) (C (accID x))"
proof -
  note l = loadAccounts_effect [OF load]
  let ?R = "\<lambda>b acc. ReserveAccount b d = Inr acc"
  have "account_ok acc (T (accID x)) (C (accID x))" if "x \<in> set accs" "ReserveAccount (br_Account x) d = Inr acc" for x acc
    using account_ok_reserve(1) [OF ledger_parts(4) [OF inv] that(2)] that(1) l(4) held [of "accID x"] by (auto simp: add.commute)
  then have ok: "\<forall>x acc. x \<in> set accs \<longrightarrow> ?R (br_Account x) acc \<longrightarrow> account_ok acc (T (accID x)) (C (accID x))" by blast
  have ids: "\<forall>b acc. ?R b acc \<longrightarrow> ac_ID acc = ac_ID b \<and> ac_Limits acc = ac_Limits b"
    using ReserveAccount_cases(5) by fastforce
  have others: "\<forall>i. i \<notin> set (map accID accs) \<longrightarrow> T i = heldTokens db i \<and> C i = heldCost db i" using held by auto
  note step = accounts_step [where R = ?R, OF inv load reserveLedgerAccounts_effect [OF res] ids ok others]
  show "saveLedgerAccounts accs' db0 = db0\<lparr>budget_accounts := map (saved accs') (budget_accounts db0)\<rparr>" by (rule step(1))
  show "account_ok (br_Account (saved accs' x)) (T (accID x)) (C (accID x))" if "x \<in> set (budget_accounts db)" by (rule step(2) [OF that])
qed

section \<open>Starting a tool and reserving a call\<close>

text \<open>A ledger transaction on the locked Run: what it may change beside accounts and call rows is the Run row.\<close>

definition ledger_only :: "run_db \<Rightarrow> run_db \<Rightarrow> bool" where
  "ledger_only db db' \<longleftrightarrow> runs db' = runs db \<and> run_attempts db' = run_attempts db \<and> execution_slots db' = execution_slots db \<and>
     run_steps db' = run_steps db"

lemma saveAccount_only [simp]: "ledger_only db (saveAccount b db1) = ledger_only db db1"
  by (simp add: ledger_only_def saveAccount_def)

lemma saveLedgerAccounts_only [simp]: "ledger_only db (saveLedgerAccounts accs db1) = ledger_only db db1"
  by (induction accs arbitrary: db1) (simp_all add: saveLedgerAccounts_def)

lemma updateCall_only [simp]: "ledger_only db (updateCall call f db1) = ledger_only db db1"
  by (simp add: ledger_only_def updateCall_def)

lemma ledger_only_refl [simp]: "ledger_only db db"
  by (simp add: ledger_only_def)

lemma callConflict_ok [simp]: "callConflict m = Inr x \<longleftrightarrow> m = Inr x"
  by (auto simp: callConflict_def split: sum.splits)

lemma BeginTool_cases:
  assumes "BeginTool cfg rc caller req now now2 db = Inr (started, db')"
  obtains (replay) "\<not> started" "db' = db"
    | (new) r a accs accs' tools where "started" "lockRun (ls_TenantID (bg_Lease req)) (ls_RunID (bg_Lease req)) db = Inr (r, a)"
      "loadAccounts (run_TenantID r) (run_BusinessRequestID r) db = Inr accs" "CheckExecution r a (bg_Lease req) now = Inr ()"
      "au_ActiveCallID a = None" "readTool (bg_ToolInvocationID req) db = None"
      "reserveLedgerAccounts accs (no_usage\<lparr>us_LogicalTools := 1\<rparr>) now = Inr accs'"
      "db' = saveLedgerAccounts accs' (db\<lparr>tool_invocations := tools\<rparr>)"
  using assms unfolding BeginTool_def ledgerExecution_def Let_def
  by (auto simp: result_simps split: option.splits if_splits)

lemma BeginTool_ledger:
  assumes inv: "ledger_inv db" and start: "BeginTool cfg rc caller req now now2 db = Inr (started, db')"
  shows "ledger_inv db' \<and> ledger_only db db'"
  using start
proof (cases rule: BeginTool_cases)
  case (new r a accs accs' tools)
  have u: "us_Tokens (no_usage\<lparr>us_LogicalTools := 1\<rparr>) = 0" "us_CostMicroyuan (no_usage\<lparr>us_LogicalTools := 1\<rparr>) = 0"
    by (simp_all add: no_usage_def)
  note step = reserve_step [where T = "heldTokens db" and C = "heldCost db", OF inv new(3,7)]
  have eq: "db' = db\<lparr>tool_invocations := tools, budget_accounts := map (saved accs') (budget_accounts db)\<rparr>"
    using step(1) u new(8) by simp
  have "holds_on db' = holds_on db" by (rule heldTokens_cong) (simp_all add: eq)
  then have held: "heldTokens db' = heldTokens db" "heldCost db' = heldCost db"
    unfolding heldTokens_def [abs_def] heldCost_def [abs_def] by (simp_all add: eq)
  have "\<forall>x \<in> set (budget_accounts db). account_ok (br_Account (saved accs' x)) (heldTokens db (accID x)) (heldCost db (accID x))"
    using step(2) u by simp
  with inv show ?thesis unfolding ledger_inv_def held
    by (simp add: eq call_ok_def comp_def ledger_only_def)
qed (use inv in simp)

lemma ReservationUsage_hold [simp]:
  "us_Tokens (ReservationUsage kind subcall budget) = cb_TotalTokens budget"
  "us_CostMicroyuan (ReservationUsage kind subcall budget) = cb_CostMicroyuan budget"
  by (simp_all add: ReservationUsage_def Let_def no_usage_def)

lemma newCall_fields [simp]:
  "pc_PhysicalCallID (newCall r req p b accs n binding now) = rq_PhysicalCallID req"
  "pc_TotalTokens (newCall r req p b accs n binding now) = cb_TotalTokens b"
  "pc_CostMicroyuan (newCall r req p b accs n binding now) = cb_CostMicroyuan b"
  "pc_Lease (newCall r req p b accs n binding now) = rq_Lease req" "pc_Status (newCall r req p b accs n binding now) = ''reserved''"
  "pc_Ordinal (newCall r req p b accs n binding now) = n" "pc_ReservedAt (newCall r req p b accs n binding now) = now"
  by (simp_all add: newCall_def Let_def)

lemma grantCall_cases:
  assumes "grantCall cfg rc caller req profile accs r a now now2 db = Inr (c, db')"
  obtains budget accs' binding where "ReservationBudgetForStep profile (st_Kind (rq_Step req)) (rq_Subcall req) = Inr budget"
    "reserveLedgerAccounts accs (ReservationUsage (st_Kind (rq_Step req)) (rq_Subcall req) budget) now = Inr accs'"
    "callOrdinal r db \<le> 44" "c = newCall r req profile budget accs' (callOrdinal r db) binding now"
    "rq_PhysicalCallID req \<notin> pc_PhysicalCallID ` set (physical_calls db)"
    "db' = saveRun now2 (r\<lparr>run_UpdatedAt := now\<rparr>) (a\<lparr>au_ActiveCallID := Some (rq_PhysicalCallID req)\<rparr>)
       (saveLedgerAccounts accs' (db\<lparr>physical_calls := physical_calls db @ [c]\<rparr>))"
proof -
  from assms obtain budget accs' binding where b: "ReservationBudgetForStep profile (st_Kind (rq_Step req)) (rq_Subcall req) = Inr budget"
    and res: "reserveLedgerAccounts accs (ReservationUsage (st_Kind (rq_Step req)) (rq_Subcall req) budget) now = Inr accs'"
    and rest: "\<not> callOrdinal r db > 44" "\<not> list_ex (\<lambda>c. pc_PhysicalCallID c = rq_PhysicalCallID req) (physical_calls db)"
      "newCall r req profile budget accs' (callOrdinal r db) binding now = c"
      "saveRun now2 (r\<lparr>run_UpdatedAt := now\<rparr>) (a\<lparr>au_ActiveCallID := Some (rq_PhysicalCallID req)\<rparr>)
         (saveLedgerAccounts accs' (db\<lparr>physical_calls := physical_calls db @ [newCall r req profile budget accs' (callOrdinal r db) binding now]\<rparr>)) = db'"
    unfolding grantCall_def Let_def bindE_Inr_iff if_Inl_eq_Inr sum.inject prod.inject by blast
  show thesis by (rule that [OF b res]) (use rest in \<open>auto simp: list_ex_iff\<close>)
qed

lemma ReserveCall_cases:
  assumes "ReserveCall cfg rc caller req now now2 db = Inr ((c, newly), db')"
  obtains (replay) "\<not> newly" "db' = db" "c \<in> set (physical_calls db)" "sameReservation c req" "pc_PhysicalCallID c = rq_PhysicalCallID req"
    | (granted) r a accs profile where newly "lockRun (ls_TenantID (rq_Lease req)) (ls_RunID (rq_Lease req)) db = Inr (r, a)"
      "loadAccounts (run_TenantID r) (run_BusinessRequestID r) db = Inr accs" "CheckExecution r a (rq_Lease req) now = Inr ()"
      "readCall r (rq_PhysicalCallID req) db = None" "au_ActiveCallID a = None"
      "grantCall cfg rc caller req profile accs r a now now2 db = Inr (c, db')"
proof -
  from assms obtain r a accs profile where lock: "lockRun (ls_TenantID (rq_Lease req)) (ls_RunID (rq_Lease req)) db = Inr (r, a)"
    and load: "loadAccounts (run_TenantID r) (run_BusinessRequestID r) db = Inr accs"
    and exec: "CheckExecution r a (rq_Lease req) now = Inr ()"
    and rest: "(case readCall r (rq_PhysicalCallID req) db of
        Some prior \<Rightarrow> bindE (replayReservation cfg profile req prior) (\<lambda>c. Inr ((c, False), db))
      | None \<Rightarrow>
        if au_ActiveCallID a \<noteq> None then Inl ErrCallConflict
        else if (case map_of (cfg_profiles cfg) (run_ProfileID r) of None \<Rightarrow> True
            | Some registered \<Rightarrow> \<not> pf_Executable registered \<or> pf_Hash registered \<noteq> pf_Hash profile) then Inl ErrProfileUnavailable
        else if pr_Hash (pf_Pricing profile) \<noteq> rq_PriceHash req then Inl ErrProfileUnavailable
        else bindE (checkSubcall req (if rq_ToolInvocationID req = '''' then None else readTool (rq_ToolInvocationID req) db) db) (\<lambda>_.
        bindE (grantCall cfg rc caller req profile accs r a now now2 db) (\<lambda>(c, db1). Inr ((c, True), db1)))) = Inr ((c, newly), db')"
    unfolding ReserveCall_def ledgerExecution_def Let_def callConflict_ok if_Inl_eq_Inr bindE_Inr_iff
    by (auto simp: if_Inl_eq_Inr bindE_Inr_iff)
  show thesis
  proof (cases "readCall r (rq_PhysicalCallID req) db")
    case None
    with rest show ?thesis by (intro granted [OF _ lock load exec]) (auto simp: result_simps split: if_splits)
  next
    case (Some prior)
    with rest have "c = prior" "\<not> newly" "db' = db" "sameReservation c req"
      by (auto simp: replayReservation_def result_simps split: if_splits)
    with Some show ?thesis by (intro replay) (auto simp: readCall_def dest!: find_row_SomeD)
  qed
qed

lemma held_append:
  assumes "map bizkey (runs db') = map bizkey (runs db)" "business_requests db' = business_requests db"
    "physical_calls db' = physical_calls db @ [c]"
  shows "heldTokens db' i = heldTokens db i + (if holds_on db i c then pc_TotalTokens c else 0)"
    "heldCost db' i = heldCost db i + (if holds_on db i c then pc_CostMicroyuan c else 0)"
  using heldTokens_cong [OF assms(1,2)] by (simp_all add: heldTokens_def heldCost_def assms(3))

lemma ReservationBudget_nonneg:
  assumes "ReserveAccount acc d = Inr acc'"
  shows "0 \<le> us_Tokens d" "0 \<le> us_CostMicroyuan d"
  using ReserveAccount_cases(2) [OF assms] by (simp_all add: usage_defs)

lemma grantCall_ledger:
  assumes inv: "ledger_inv db" and keys: "distinct (map rkey (runs db))"
    and lock: "lockRun (ls_TenantID (rq_Lease req)) (ls_RunID (rq_Lease req)) db = Inr (r, a)"
    and load: "loadAccounts (run_TenantID r) (run_BusinessRequestID r) db = Inr accs"
    and grant: "grantCall cfg rc caller req profile accs r a now now2 db = Inr (c, db')"
  shows "ledger_inv db' \<and> steps_same db db'"
  using grant
proof (cases rule: grantCall_cases)
  case (1 budget accs' binding)
  note l = loadAccounts_effect [OF load]
  have run: "callRun c = (ls_TenantID (rq_Lease req), ls_RunID (rq_Lease req))" by (simp add: callRun_def 1(4))
  have mem: "(r, a) \<in> set (runs db)" "rkey (r, a) = callRun c" using lockRun_mem [OF lock] run by auto
  define mid where "mid = db\<lparr>physical_calls := physical_calls db @ [c], budget_accounts := map (saved accs') (budget_accounts db)\<rparr>"
  have holds: "holds_on db i c \<longleftrightarrow> i \<in> set (map accID accs)" for i
    using callAccounts_of [OF keys lock run] l(1) by (simp add: holds_on_def 1(4))
  have held: "heldTokens mid i = heldTokens db i + (if i \<in> set (map accID accs) then us_Tokens (ReservationUsage (st_Kind (rq_Step req)) (rq_Subcall req) budget) else 0)"
    "heldCost mid i = heldCost db i + (if i \<in> set (map accID accs) then us_CostMicroyuan (ReservationUsage (st_Kind (rq_Step req)) (rq_Subcall req) budget) else 0)" for i
    using held_append [of mid db c i] holds by (simp_all add: mid_def 1(4))
  note step = reserve_step [where T = "heldTokens mid" and C = "heldCost mid", OF inv load 1(2) held]
  have "\<exists>b acc. ReserveAccount b (ReservationUsage (st_Kind (rq_Step req)) (rq_Subcall req) budget) = Inr acc"
    using reserveLedgerAccounts_effect [OF 1(2)] l(3) by (cases accs) (auto simp: list_all2_Cons1)
  then have "0 \<le> cb_TotalTokens budget" "0 \<le> cb_CostMicroyuan budget" using ReservationBudget_nonneg by fastforce+
  then have "call_ok mid c" using mem by (auto simp: call_ok_def 1(4) mid_def image_iff intro: bexI [of _ "(r, a)"])
  moreover have "call_ok mid x" if "x \<in> set (physical_calls db)" for x
    using ledger_parts(3) [OF inv that] by (simp add: call_ok_def mid_def)
  ultimately have "ledger_inv mid" unfolding ledger_inv_def
    using ledger_parts(1,2) [OF inv] 1(5) step(2) by (simp add: mid_def 1(4) comp_def)
  moreover have "quiet mid db'" unfolding 1(6) step(1)
    using quiet_save [where db = mid and r = r and a = a and r' = "r\<lparr>run_UpdatedAt := now\<rparr>"] keys mem(1)
    by (simp add: mid_def same_run_def)
  moreover have "steps_same db mid" by (simp add: steps_same_def mid_def)
  ultimately show ?thesis using quiet_inv steps_same_trans by (auto simp: quiet_def)
qed

lemma ReserveCall_ledger:
  assumes "ledger_inv db" "distinct (map rkey (runs db))" "ReserveCall cfg rc caller req now now2 db = Inr ((c, newly), db')"
  shows "ledger_inv db' \<and> steps_same db db'"
  using assms(3)
proof (cases rule: ReserveCall_cases)
  case (granted r a accs profile)
  show ?thesis by (rule grantCall_ledger [OF assms(1,2) granted(2,3,7)])
qed (use assms(1) in simp)

lemma CheckExecution_running: "CheckExecution r a lease now = Inr () \<Longrightarrow> run_State r = Running"
  by (auto simp: CheckExecution_def split: if_splits option.splits)

text \<open>A ledger transaction touches the Run row only in its active call and its update time.\<close>

lemma touch_inv:
  assumes inv: "lifecycle_inv db" and x: "(r, a) \<in> set (runs db)" and run: "run_State r = Running"
    and db1: "runs db1 = runs db" "run_attempts db1 = run_attempts db" "execution_slots db1 = execution_slots db"
  shows "lifecycle_inv (saveRun clk (r\<lparr>run_UpdatedAt := now\<rparr>) (a\<lparr>au_ActiveCallID := i\<rparr>) db1)"
proof (rule save_inv [OF inv x])
  show "run_ok (stamped clk (r\<lparr>run_UpdatedAt := now\<rparr>)) (a\<lparr>au_ActiveCallID := i\<rparr>)"
    using inv_parts(4) [OF inv x] run by (simp add: run_ok_def stamped_def)
qed (use run in \<open>simp_all add: saveRun_eq db1 same_run_def\<close>)

lemma ReserveCall_lifecycle:
  assumes inv: "lifecycle_inv db" "ledger_inv db" and res: "ReserveCall cfg rc caller req now now2 db = Inr ((c, newly), db')"
  shows "lifecycle_inv db'"
  using res
proof (cases rule: ReserveCall_cases)
  case (granted r a accs profile)
  have x: "(r, a) \<in> set (runs db)" by (rule conjunct1 [OF lockRun_mem [OF granted(2)]])
  from granted(7) show ?thesis
  proof (cases rule: grantCall_cases)
    case (1 budget accs' binding)
    note ids = saved_loaded(1) [where R = "\<lambda>b acc. ReserveAccount b (ReservationUsage (st_Kind (rq_Step req)) (rq_Subcall req) budget) = Inr acc",
        OF reserveLedgerAccounts_effect [OF 1(2)] _ loadAccounts_effect(2) [OF granted(3)]]
    have "distinct (map accID accs')" using ids ReserveAccount_cases(5) loadAccounts_effect(2) [OF granted(3)] by fastforce
    then have "saveLedgerAccounts accs' (db\<lparr>physical_calls := physical_calls db @ [c]\<rparr>) =
        db\<lparr>physical_calls := physical_calls db @ [c], budget_accounts := map (saved accs') (budget_accounts db)\<rparr>"
      by (simp add: saveLedgerAccounts_eq)
    then show ?thesis unfolding 1(6)
      by (intro touch_inv [OF inv(1) x CheckExecution_running [OF granted(4)]]) simp_all
  qed
qed (use inv in simp)

section \<open>Settling\<close>

definition thaw :: "Account \<Rightarrow> Account" where
  "thaw acc = acc\<lparr>ac_Frozen := False, ac_BatchStopCode := ''''\<rparr>"

lemma thaw_fields:
  assumes "thaw acc' = thaw acc"
  shows "ac_ID acc' = ac_ID acc" "ac_Limits acc' = ac_Limits acc" "account_ok acc' = account_ok acc"
proof -
  show "ac_ID acc' = ac_ID acc" using arg_cong [OF assms, of ac_ID] by (simp add: thaw_def)
  show "ac_Limits acc' = ac_Limits acc" using arg_cong [OF assms, of ac_Limits] by (simp add: thaw_def)
  show "account_ok acc' = account_ok acc" using assms unfolding thaw_def by (metis account_ok_unfrozen)
qed

lemma same_funds_thaw: "same_funds x x' \<longleftrightarrow> thaw (br_Account x') = thaw (br_Account x)"
  by (simp add: same_funds_def thaw_def)

text \<open>An account that settles a hold, possibly frozen on the way.\<close>

definition settles :: "int \<Rightarrow> int \<Rightarrow> int \<Rightarrow> int \<Rightarrow> Account \<Rightarrow> Account \<Rightarrow> bool" where
  "settles ht hc kt kc acc acc' \<longleftrightarrow> (\<exists>acc1. SettleAccount acc ht hc kt kc = Inr acc1 \<and> thaw acc' = thaw acc1)"

lemma settle_step:
  assumes inv: "ledger_inv db" and load: "loadAccounts tenant bid db = Inr accs"
    and R: "list_all2 (\<lambda>b b'. \<exists>acc. settles ht hc kt kc (br_Account b) acc \<and> b' = b\<lparr>br_Account := acc\<rparr>) accs accs'"
    and within: "kt \<le> ht" "kc \<le> hc" and hold: "\<forall>i \<in> set (map accID accs). ht \<le> heldTokens db i \<and> hc \<le> heldCost db i"
    and held: "\<And>i. T i = heldTokens db i - (if i \<in> set (map accID accs) then ht else 0)"
      "\<And>i. C i = heldCost db i - (if i \<in> set (map accID accs) then hc else 0)"
  shows "saveLedgerAccounts accs' db0 = db0\<lparr>budget_accounts := map (saved accs') (budget_accounts db0)\<rparr>"
    and "x \<in> set (budget_accounts db) \<Longrightarrow> account_ok (br_Account (saved accs' x)) (T (accID x)) (C (accID x))"
proof -
  note l = loadAccounts_effect [OF load]
  have one: "ac_ID acc = ac_ID b \<and> ac_Limits acc = ac_Limits b" if "settles ht hc kt kc b acc" for b acc
  proof -
    from that obtain acc1 where s: "SettleAccount b ht hc kt kc = Inr acc1" "thaw acc = thaw acc1" by (auto simp: settles_def)
    from s(1) have "ac_ID acc1 = ac_ID b \<and> ac_Limits acc1 = ac_Limits b" by (cases rule: SettleAccount_cases) auto
    with thaw_fields [OF s(2)] show ?thesis by simp
  qed
  have "account_ok acc (T (accID x)) (C (accID x))" if x: "x \<in> set accs" and s: "settles ht hc kt kc (br_Account x) acc" for x acc
  proof -
    from s obtain acc1 where s1: "SettleAccount (br_Account x) ht hc kt kc = Inr acc1" "thaw acc = thaw acc1" by (auto simp: settles_def)
    have i: "accID x \<in> set (map accID accs)" using x by simp
    have ok: "account_ok (br_Account x) (heldTokens db (accID x)) (heldCost db (accID x))" using ledger_parts(4) [OF inv] l(4) x by blast
    from account_ok_settle(1) [OF ok s1(1) within] bspec [OF hold i] held [of "accID x"] i thaw_fields(3) [OF s1(2)] show ?thesis by simp
  qed
  then have ok: "\<forall>x acc. x \<in> set accs \<longrightarrow> settles ht hc kt kc (br_Account x) acc \<longrightarrow> account_ok acc (T (accID x)) (C (accID x))" by blast
  have ids: "\<forall>b acc. settles ht hc kt kc b acc \<longrightarrow> ac_ID acc = ac_ID b \<and> ac_Limits acc = ac_Limits b" using one by blast
  have others: "\<forall>i. i \<notin> set (map accID accs) \<longrightarrow> T i = heldTokens db i \<and> C i = heldCost db i" using held by auto
  note step = accounts_step [where R = "settles ht hc kt kc", OF inv load R ids ok others]
  show "saveLedgerAccounts accs' db0 = db0\<lparr>budget_accounts := map (saved accs') (budget_accounts db0)\<rparr>" by (rule step(1))
  show "account_ok (br_Account (saved accs' x)) (T (accID x)) (C (accID x))" if "x \<in> set (budget_accounts db)" by (rule step(2) [OF that])
qed

text \<open>The rows that an update of one call reaches: the call alone.\<close>

abbreviation sameCall :: "callRow \<Rightarrow> callRow \<Rightarrow> bool" where
  "sameCall call \<equiv> (\<lambda>c. ls_TenantID (pc_Lease c) = ls_TenantID (pc_Lease call) \<and>
     ls_RunID (pc_Lease c) = ls_RunID (pc_Lease call) \<and> pc_PhysicalCallID c = pc_PhysicalCallID call)"

lemma sameCall_unique:
  assumes "distinct (map pc_PhysicalCallID calls)" "call \<in> set calls" "c \<in> set calls" "pc_PhysicalCallID c = pc_PhysicalCallID call"
  shows "c = call"
  using assms by (metis distinct_map inj_onD)

lemma held_drop:
  assumes "map bizkey (runs db') = map bizkey (runs db)" "business_requests db' = business_requests db"
    and calls: "physical_calls db' = update_where (sameCall call) f (physical_calls db)"
    and "distinct (map pc_PhysicalCallID (physical_calls db))" "call \<in> set (physical_calls db)" "pc_Status (f call) = ''known''"
  shows "heldTokens db' i = heldTokens db i - (if holds_on db i call then pc_TotalTokens call else 0)"
    "heldCost db' i = heldCost db i - (if holds_on db i call then pc_CostMicroyuan call else 0)"
proof -
  define g where "g = (\<lambda>c. if sameCall call c then f c else c)"
  have calls': "physical_calls db' = map g (physical_calls db)" using calls by (simp add: g_def update_where_def)
  have gone: "\<not> holds_on db i (g c)" if "c \<in> set (physical_calls db)" "pc_PhysicalCallID c = pc_PhysicalCallID call" for c
    using sameCall_unique [OF assms(4,5) that] assms(6) by (simp add: g_def holds_on_def)
  have keep: "g c = c" if "pc_PhysicalCallID c \<noteq> pc_PhysicalCallID call" for c using that by (simp add: g_def)
  have drop: "sum_where (holds_on db i) h (map g (physical_calls db)) =
      sum_where (holds_on db i) h (physical_calls db) - (if holds_on db i call then h call else 0)" for h :: "callRow \<Rightarrow> int"
  proof (cases "holds_on db i call")
    case True
    with sum_where_drop [where k = pc_PhysicalCallID and P = "holds_on db i" and g = g and f = h, OF assms(4,5) True gone keep]
    show ?thesis by simp
  next
    case False
    have "holds_on db i (g c) = holds_on db i c \<and> (holds_on db i c \<longrightarrow> g c = c)" if "c \<in> set (physical_calls db)" for c
      using gone [OF that] keep [of c] False sameCall_unique [OF assms(4,5) that] by (cases "pc_PhysicalCallID c = pc_PhysicalCallID call") auto
    then have "map (\<lambda>c. if holds_on db i (g c) then h (g c) else 0) (physical_calls db) = map (\<lambda>c. if holds_on db i c then h c else 0) (physical_calls db)"
      by auto
    from arg_cong [OF this, of sum_list] False show ?thesis by (simp add: sum_where_def comp_def del: map_eq_conv)
  qed
  show "heldTokens db' i = heldTokens db i - (if holds_on db i call then pc_TotalTokens call else 0)"
    "heldCost db' i = heldCost db i - (if holds_on db i call then pc_CostMicroyuan call else 0)"
    unfolding heldTokens_def heldCost_def heldTokens_cong [OF assms(1,2)] calls' by (simp_all add: drop)
qed

lemma holds_le:
  assumes "ledger_inv db" "call \<in> set (physical_calls db)" "holds_on db i call"
  shows "pc_TotalTokens call \<le> heldTokens db i" "pc_CostMicroyuan call \<le> heldCost db i"
  unfolding heldTokens_def heldCost_def
  by (rule sum_where_ge; use assms ledger_parts(3) [OF assms(1)] in \<open>auto simp: call_ok_def\<close>)+

text \<open>One call is settled: its row becomes known and its accounts give up exactly its hold.\<close>

lemma settle_call_inv:
  assumes inv: "ledger_inv db" and keys: "distinct (map rkey (runs db))" and lock: "lockRun t i db = Inr (r, a)"
    and load: "loadAccounts (run_TenantID r) (run_BusinessRequestID r) db = Inr accs"
    and call: "call \<in> set (physical_calls db)" "callRun call = (t, i)" "open_call call"
    and R: "list_all2 (\<lambda>b b'. \<exists>acc. settles (pc_TotalTokens call) (pc_CostMicroyuan call) kt kc (br_Account b) acc \<and> b' = b\<lparr>br_Account := acc\<rparr>) accs accs'"
    and within: "kt \<le> pc_TotalTokens call" "kc \<le> pc_CostMicroyuan call"
    and f: "pc_Status (f call) = ''known''" "pc_UsageHash (f call) \<noteq> None" "pc_PhysicalCallID (f call) = pc_PhysicalCallID call"
      "pc_Lease (f call) = pc_Lease call" "pc_TotalTokens (f call) = pc_TotalTokens call" "pc_CostMicroyuan (f call) = pc_CostMicroyuan call"
  shows "ledger_inv (updateCall call f (saveLedgerAccounts accs' db))"
    "updateCall call f (saveLedgerAccounts accs' db) = db\<lparr>budget_accounts := map (saved accs') (budget_accounts db),
      physical_calls := update_where (sameCall call) f (physical_calls db)\<rparr>"
proof -
  define new where "new = db\<lparr>budget_accounts := map (saved accs') (budget_accounts db),
      physical_calls := update_where (sameCall call) f (physical_calls db)\<rparr>"
  note l = loadAccounts_effect [OF load] and parts = ledger_parts [OF inv]
  have holds: "holds_on db j call \<longleftrightarrow> j \<in> set (map accID accs)" for j
    using callAccounts_of [OF keys lock call(2)] l(1) call(3) by (simp add: holds_on_def)
  have held: "heldTokens new j = heldTokens db j - (if j \<in> set (map accID accs) then pc_TotalTokens call else 0)"
    "heldCost new j = heldCost db j - (if j \<in> set (map accID accs) then pc_CostMicroyuan call else 0)" for j
    using held_drop [of new db call f j] parts(2) call(1) f(1) holds by (simp_all add: new_def)
  have le: "\<forall>j \<in> set (map accID accs). pc_TotalTokens call \<le> heldTokens db j \<and> pc_CostMicroyuan call \<le> heldCost db j"
    using holds_le [OF inv call(1)] holds by blast
  note step = settle_step [where T = "heldTokens new" and C = "heldCost new", OF inv load R within le held]
  show eq: "updateCall call f (saveLedgerAccounts accs' db) = db\<lparr>budget_accounts := map (saved accs') (budget_accounts db),
      physical_calls := update_where (sameCall call) f (physical_calls db)\<rparr>"
    unfolding step(1) updateCall_def by simp
  have only: "c = call" if "c \<in> set (physical_calls db)" "sameCall call c" for c
    using sameCall_unique [OF parts(2) call(1) that(1)] that(2) by blast
  have ids: "map pc_PhysicalCallID (update_where (sameCall call) f (physical_calls db)) = map pc_PhysicalCallID (physical_calls db)"
    unfolding update_where_def map_map using only f(3) by (auto simp: comp_def)
  have ok: "call_ok new c" if c: "c \<in> set (physical_calls new)" for c
  proof -
    from c obtain c0 where c0: "c0 \<in> set (physical_calls db)" "c = (if sameCall call c0 then f c0 else c0)"
      by (auto simp: new_def update_where_def)
    show ?thesis
    proof (cases "sameCall call c0")
      case True
      with only [OF c0(1)] c0(2) have "c = f call" by simp
      with parts(3) [OF call(1)] f show ?thesis by (simp add: call_ok_def callRun_def new_def)
    next
      case False
      with c0 parts(3) [OF c0(1)] show ?thesis by (simp add: call_ok_def new_def)
    qed
  qed
  have accs: "account_ok (br_Account x) (heldTokens new (accID x)) (heldCost new (accID x))" if "x \<in> set (budget_accounts new)" for x
    using that step(2) by (auto simp: new_def)
  have "ledger_inv new" unfolding ledger_inv_def using ok accs parts(1,2) ids by (simp add: new_def comp_def)
  then show "ledger_inv (updateCall call f (saveLedgerAccounts accs' db))" unfolding eq new_def .
qed

text \<open>Freezing accounts and rewriting an open call without settling it are quiet.\<close>

lemma quiet_updateCall:
  assumes "\<And>c. c \<in> set (physical_calls db) \<Longrightarrow> sameCall call c \<Longrightarrow> same_hold c (f c)"
  shows "quiet db (updateCall call f db)"
  using assms by (auto simp: quiet_def steps_same_def updateCall_def list_all2_refl intro: list_all2_update_where)

lemma thaw_saved: "thaw new = thaw old \<Longrightarrow> thaw (savedAccount new old) = thaw old"
  by (cases new; cases old) (simp add: thaw_def savedAccount_def)

lemma frozen_quiet:
  assumes inv: "ledger_inv db" and load: "loadAccounts tenant bid db = Inr accs"
    and R: "list_all2 (\<lambda>b b'. \<exists>acc. thaw acc = thaw (br_Account b) \<and> b' = b\<lparr>br_Account := acc\<rparr>) accs accs'"
  shows "saveLedgerAccounts accs' db0 = db0\<lparr>budget_accounts := map (saved accs') (budget_accounts db0)\<rparr>"
    and "budget_accounts db0 = budget_accounts db \<Longrightarrow> quiet db0 (saveLedgerAccounts accs' db0)"
proof -
  note l = loadAccounts_effect [OF load]
  have ids: "\<forall>a a'. thaw a' = thaw a \<longrightarrow> ac_ID a' = ac_ID a" using thaw_fields(1) by blast
  note s = saved_loaded [where R = "\<lambda>a a'. thaw a' = thaw a", OF R ids l(2)]
  show eq: "saveLedgerAccounts accs' db0 = db0\<lparr>budget_accounts := map (saved accs') (budget_accounts db0)\<rparr>"
    by (rule saveLedgerAccounts_eq) (use s(1) l(2) in simp)
  have "same_funds x (saved accs' x)" if x: "x \<in> set (budget_accounts db)" for x
  proof (cases "accID x \<in> accID ` set accs")
    case True
    then obtain b where "b \<in> set accs" "accID b = accID x" by auto
    with l(4) x ledger_parts(1) [OF inv] have "x \<in> set accs" by (metis (mono_tags, lifting) distinct_map inj_onD subsetD)
    from s(2) [OF this] obtain acc where "thaw acc = thaw (br_Account x)" "saved accs' x = x\<lparr>br_Account := savedAccount acc (br_Account x)\<rparr>" by blast
    then show ?thesis using thaw_saved by (simp add: same_funds_thaw)
  qed (use s(3) in simp)
  then show "quiet db0 (saveLedgerAccounts accs' db0)" if "budget_accounts db0 = budget_accounts db"
    unfolding eq using that by (simp add: quiet_def steps_same_def list_all2_refl list_all2_conv_all_nth)
qed

lemma freezeAccounts_effect:
  "list_all2 (\<lambda>b b'. \<exists>acc. thaw acc = thaw (br_Account b) \<and> b' = b\<lparr>br_Account := acc\<rparr>) accs (freezeAccounts accs)"
proof -
  have "\<exists>acc. thaw acc = thaw (br_Account b) \<and> b\<lparr>br_Account := (br_Account b)\<lparr>ac_Frozen := True\<rparr>\<rparr> = b\<lparr>br_Account := acc\<rparr>" for b
    by (rule exI [of _ "(br_Account b)\<lparr>ac_Frozen := True\<rparr>"]) (simp add: thaw_def)
  then show ?thesis unfolding freezeAccounts_def list_all2_map2 by (intro list_all2_refl)
qed

lemma freezeReportBatch_effect:
  assumes "list_all2 (\<lambda>b b'. \<exists>acc. R (br_Account b) acc \<and> b' = b\<lparr>br_Account := acc\<rparr>) accs accs1" and "length accs = 3"
  shows "list_all2 (\<lambda>b b'. \<exists>acc. (\<exists>acc1. R (br_Account b) acc1 \<and> thaw acc = thaw acc1) \<and> b' = b\<lparr>br_Account := acc\<rparr>) accs
    (if code \<noteq> '''' then freezeReportBatch code accs1 else accs1)"
proof -
  have len: "length accs1 = 3" using list_all2_lengthD [OF assms(1)] assms(2) by simp
  have "\<exists>acc. (\<exists>acc1. R (br_Account (accs ! n)) acc1 \<and> thaw acc = thaw acc1) \<and> (accs1[2 := freezeBatch code (accs1 ! 2)]) ! n = (accs ! n)\<lparr>br_Account := acc\<rparr>"
    if n: "n < 3" for n
  proof -
    from list_all2_nthD [OF assms(1), of n] n assms(2) obtain acc where acc: "R (br_Account (accs ! n)) acc" "accs1 ! n = (accs ! n)\<lparr>br_Account := acc\<rparr>" by auto
    show ?thesis
    proof (cases "n = 2")
      case True
      show ?thesis by (rule exI [of _ "br_Account (freezeBatch code (accs1 ! 2))"]) (use True acc len in \<open>auto simp: freezeBatch_def thaw_def\<close>)
    qed (use acc in auto)
  qed
  moreover have "list_all2 (\<lambda>b b'. \<exists>acc. (\<exists>acc1. R (br_Account b) acc1 \<and> thaw acc = thaw acc1) \<and> b' = b\<lparr>br_Account := acc\<rparr>) accs accs1"
    using assms(1) by (rule list_all2_mono) blast
  ultimately show ?thesis using assms(2) len by (auto simp: freezeReportBatch_def list_all2_conv_all_nth)
qed

section \<open>Reports\<close>

lemma restoreCallBudget_ok:
  assumes "restoreCallBudget c p = Inr budget"
  shows "ReservationBudgetForStep p (pc_StepKind c) (pc_Subcall c) = Inr budget" "cb_TotalTokens budget = pc_TotalTokens c"
    "cb_CostMicroyuan budget = pc_CostMicroyuan c"
  using assms by (auto simp: restoreCallBudget_def result_simps split: if_splits)

lemma reservation_total:
  "ReservationBudgetForStep p kind subcall = Inr b \<Longrightarrow> cb_InputTokens b + cb_OutputTokens b = cb_TotalTokens b"
  by (auto simp: ReservationBudgetForStep_def ReservationBudget_def reservationBudget_def no_budget_def Let_def result_simps split: if_splits)

lemma usageAnomaly_bounds:
  assumes "usageAnomaly call profile budget usage = Inr (False, cost)"
  shows "ur_InputTokens usage \<le> cb_InputTokens budget" "ur_OutputTokens usage \<le> cb_OutputTokens budget" "cost \<le> cb_CostMicroyuan budget"
  using assms by (auto simp: usageAnomaly_def Let_def split: if_splits sum.splits)

lemma settled_ids:
  assumes "settleEach accs ht hc kt kc = Inr accs'"
  shows "list_all2 (\<lambda>b b'. \<exists>acc. settles ht hc kt kc (br_Account b) acc \<and> b' = b\<lparr>br_Account := acc\<rparr>) accs accs'"
  using settleEach_effect [OF assms] by (rule list_all2_mono) (auto simp: settles_def)

lemma anomalous_quiet:
  assumes inv: "ledger_inv db" and call: "call \<in> set (physical_calls db)" and "open_call call"
    and f: "\<And>c. same_hold c (f c) \<or> \<not> open_call c"
  shows "quiet db (updateCall call f db)"
proof (rule quiet_updateCall)
  fix c assume "c \<in> set (physical_calls db)" "sameCall call c"
  then have "c = call" using sameCall_unique [OF ledger_parts(2) [OF inv] call] by blast
  with f [of call] assms(3) show "same_hold c (f c)" by simp
qed

lemma settleLedgerUsage_cases:
  assumes "settleLedgerUsage cfg call budget profile accs usage now db = Inr (settled, call', db')"
  obtains (replay) "\<not> settled" "db' = db" "call' = call" "pc_UsageHash call = Some (ur_UsageHash usage)"
    | (anomaly) cost where "\<not> settled" "pc_UsageHash call = None" "usageAnomaly call profile budget usage = Inr (True, cost)"
      "db' = updateCall call (anomalousCall usage) (saveLedgerAccounts (freezeAccounts accs) db)"
    | (settled) cost accs' where settled "pc_UsageHash call = None" "usageAnomaly call profile budget usage = Inr (False, cost)"
      "settleEach accs (cb_TotalTokens budget) (cb_CostMicroyuan budget) (ur_InputTokens usage + ur_OutputTokens usage) cost = Inr accs'"
      "db' = updateCall call (settledCall usage (ur_InputTokens usage + ur_OutputTokens usage) cost now) (saveLedgerAccounts accs' db)"
proof (cases "pc_UsageHash call")
  case (Some h)
  with assms replay show ?thesis by (auto simp: settleLedgerUsage_def result_simps split: if_splits)
next
  case None
  with assms obtain anom cost where u: "usageAnomaly call profile budget usage = Inr (anom, cost)"
    and rest: "(if anom then Inr (False, anomalousCall usage call, updateCall call (anomalousCall usage) (saveLedgerAccounts (freezeAccounts accs) db))
        else bindE (settleEach accs (cb_TotalTokens budget) (cb_CostMicroyuan budget) (ur_InputTokens usage + ur_OutputTokens usage) cost) (\<lambda>accounts'.
          Inr (True, settledCall usage (ur_InputTokens usage + ur_OutputTokens usage) cost now call,
               updateCall call (settledCall usage (ur_InputTokens usage + ur_OutputTokens usage) cost now) (saveLedgerAccounts accounts' db))))
      = Inr (settled, call', db')"
    unfolding settleLedgerUsage_def Let_def if_Inl_eq_Inr bindE_Inr_iff by (auto simp: if_Inl_eq_Inr bindE_Inr_iff)
  show ?thesis
  proof (cases anom)
    case True
    with rest u show ?thesis by (intro anomaly [OF _ None]) auto
  next
    case False
    with rest obtain accs' where "settleEach accs (cb_TotalTokens budget) (cb_CostMicroyuan budget) (ur_InputTokens usage + ur_OutputTokens usage) cost = Inr accs'"
      "settled" "db' = updateCall call (settledCall usage (ur_InputTokens usage + ur_OutputTokens usage) cost now) (saveLedgerAccounts accs' db)"
      by (auto simp: result_simps)
    with False u show ?thesis by (intro settled [OF _ None]) auto
  qed
qed

end
