(* ===== verification/RunLedgerSteps.thy ===== *)
theory RunLedgerSteps
  imports RunLedgerInv
begin

text \<open>
  The settling transactions of the ledger keep both invariants: \<open>ObserveCall\<close> and
  \<open>SettleUsage\<close>, with and without provider audit, on every branch.
\<close>

section \<open>Settling under the locked Run\<close>

text \<open>The call found by \<open>readCall\<close> belongs to the locked Run.\<close>

definition call_of :: "run_db \<Rightarrow> string \<times> string \<Rightarrow> Run \<Rightarrow> Authority \<Rightarrow> budgetRow list \<Rightarrow> callRow \<Rightarrow> bool" where
  "call_of db k r a accs call \<longleftrightarrow> lockRun (fst k) (snd k) db = Inr (r, a) \<and>
     loadAccounts (run_TenantID r) (run_BusinessRequestID r) db = Inr accs \<and> call \<in> set (physical_calls db) \<and> callRun call = k"

lemma readCall_of:
  assumes "lockRun t i db = Inr (r, a)" "loadAccounts (run_TenantID r) (run_BusinessRequestID r) db = Inr accs" "readCall r j db = Some call"
  shows "call_of db (t, i) r a accs call" "pc_PhysicalCallID call = j"
  using assms lockRun_mem [OF assms(1)] by (auto simp: call_of_def readCall_def callRun_def rkey_def dest!: find_row_SomeD)

lemma unhashed_open: "ledger_inv db \<Longrightarrow> call_of db k r a accs call \<Longrightarrow> pc_UsageHash call = None \<Longrightarrow> open_call call"
  using ledger_parts(3) by (fastforce simp: call_ok_def call_of_def)

lemma quiet_only: "quiet db db' \<Longrightarrow> ledger_inv db \<Longrightarrow> ledger_only db db' \<Longrightarrow> ledger_inv db' \<and> ledger_only db db'"
  by (simp add: quiet_inv)

lemma settleLedgerUsage_inv:
  assumes inv: "ledger_inv db" and keys: "distinct (map rkey (runs db))" and of_call: "call_of db k r a accs call"
    and budget: "restoreCallBudget call profile = Inr budget"
    and settle: "settleLedgerUsage cfg call budget profile accs usage now db = Inr (settled, call', db')"
  shows "ledger_inv db' \<and> ledger_only db db'"
  using settle
proof (cases rule: settleLedgerUsage_cases)
  case (anomaly cost)
  have o: "open_call call" by (rule unhashed_open [OF inv of_call anomaly(2)])
  have load: "loadAccounts (run_TenantID r) (run_BusinessRequestID r) db = Inr accs" using of_call by (simp add: call_of_def)
  define mid where "mid = saveLedgerAccounts (freezeAccounts accs) db"
  have q: "quiet db mid" unfolding mid_def by (rule frozen_quiet(2) [OF inv load freezeAccounts_effect]) simp
  have calls: "physical_calls mid = physical_calls db" unfolding mid_def frozen_quiet(1) [OF inv load freezeAccounts_effect] by simp
  have "quiet mid db'" unfolding anomaly(4) mid_def [symmetric]
    by (rule anomalous_quiet [OF quiet_inv [OF inv q]])
      (use o calls of_call in \<open>auto simp: call_of_def same_hold_def anomalousCall_def\<close>)
  moreover have "ledger_only db db'" by (simp add: anomaly(4))
  ultimately show ?thesis using quiet_only quiet_trans [OF q] inv by blast
next
  case (settled cost accs')
  note b = restoreCallBudget_ok [OF budget] and u = usageAnomaly_bounds [OF settled(3)]
  have o: "open_call call" by (rule unhashed_open [OF inv of_call settled(2)])
  have "ledger_inv db'" unfolding settled(5)
    by (rule settle_call_inv(1) [OF inv keys, of "fst k" "snd k" r a])
      (use of_call o b u reservation_total [OF b(1)] settled_ids [OF settled(4)] in \<open>auto simp: call_of_def settledCall_def\<close>)
  then show ?thesis by (simp add: settled(5))
qed (use inv in simp)

lemma settleCallReport_cases:
  assumes "settleCallReport cfg call budget profile accs req now db = Inr ((settled, conflict), call', db')"
  obtains (replay) "\<not> settled" "\<not> conflict" "db' = db" "call' = call" "pc_ReportHash call = su_ReportHash req"
    | (conflict) f where "\<not> settled" "conflict" "call' = call" "\<And>c. same_hold c (f c)"
      "db' = saveAccount (freezeBatch BatchStopReportConflict (accs ! 2)) (updateCall call f db)"
    | (report) d accs1 where "pc_UsageHash call = None" "pc_Report call = None" "settled = rd_UsageKnown d" "\<not> conflict"
      "FirstReportDisposition (cfg_parseUUID cfg) (cfg_sha cfg) (reportBinding call profile)
         \<lparr>cr_Usage = su_Usage req, cr_ProviderAudit = su_ProviderAudit req\<rparr> budget (pf_Pricing profile) = Inr d"
      "(if rd_MeasurementAnomaly d then Inr (freezeAccounts accs)
          else if rd_UsageKnown d then settleEach accs (cb_TotalTokens budget) (cb_CostMicroyuan budget) (rd_KnownTokens d) (rd_KnownCostMicroyuan d)
          else Inr accs) = Inr accs1"
      "db' = updateCall call (reportedCall \<lparr>cr_Usage = su_Usage req, cr_ProviderAudit = su_ProviderAudit req\<rparr> (su_ReportHash req) d now)
         (saveLedgerAccounts (if rd_BatchStopCode d \<noteq> '''' then freezeReportBatch (rd_BatchStopCode d) accs1 else accs1) db)"
proof (cases "pc_Report call")
  case (Some original)
  show ?thesis
  proof (cases "pc_ReportHash call = su_ReportHash req")
    case True
    with assms Some replay show ?thesis by (auto simp: settleCallReport_def Let_def result_simps split: if_splits)
  next
    case False
    define f :: "callRow \<Rightarrow> callRow" where "f = (\<lambda>c. c\<lparr>pc_ReportConflictHash := (case pc_ReportConflictHash c of None \<Rightarrow> Some (su_ReportHash req) | Some h \<Rightarrow> Some h)\<rparr>)"
    from assms Some False have "\<not> settled" "conflict" "call' = call"
      "db' = saveAccount (freezeBatch BatchStopReportConflict (accs ! 2)) (updateCall call f db)"
      by (auto simp: settleCallReport_def Let_def result_simps f_def split: if_splits)
    then show ?thesis by (intro conflict [of f]) (auto simp: f_def same_hold_def)
  qed
next
  case None
  with assms show ?thesis
    unfolding settleCallReport_def Let_def if_Inl_eq_Inr bindE_Inr_iff
    by (elim exE conjE) (auto simp: if_Inl_eq_Inr bindE_Inr_iff intro!: report)
qed

lemma known_has_usage:
  "FirstReportDisposition parseUUID sha b report budget price = Inr d \<Longrightarrow> rd_UsageKnown d \<Longrightarrow> cr_Usage report \<noteq> None"
  by (cases "cr_Usage report") (auto simp: FirstReportDisposition_def split: if_splits)

lemma conflict_freeze_quiet:
  assumes inv: "ledger_inv db" and load: "loadAccounts tenant bid db = Inr accs" and "budget_accounts db0 = budget_accounts db"
  shows "quiet db0 (saveAccount (freezeBatch reason (accs ! 2)) db0)"
proof -
  have three: "length accs = 3" "set accs \<subseteq> set (budget_accounts db)" using loadAccounts_effect [OF load] by simp_all
  have mem: "accs ! 2 \<in> set (budget_accounts db)" using three nth_mem [of 2 accs] by auto
  have "same_funds x (x\<lparr>br_Account := savedAccount (br_Account (freezeBatch reason (accs ! 2))) (br_Account x)\<rparr>)"
    if "x \<in> set (budget_accounts db)" "accID x = accID (accs ! 2)" for x
  proof -
    have "x = accs ! 2" using ledger_parts(1) [OF inv] that mem by (metis distinct_map inj_onD)
    then have "thaw (br_Account (freezeBatch reason (accs ! 2))) = thaw (br_Account x)" by (simp add: freezeBatch_def thaw_def)
    from thaw_saved [OF this] show ?thesis by (simp add: same_funds_thaw)
  qed
  then show ?thesis using assms(3)
    by (auto simp: quiet_def steps_same_def saveAccount_def list_all2_refl freezeBatch_def intro!: list_all2_update_where)
qed

lemma settleCallReport_inv:
  assumes inv: "ledger_inv db" and keys: "distinct (map rkey (runs db))" and of_call: "call_of db k r a accs call"
    and budget: "restoreCallBudget call profile = Inr budget"
    and settle: "settleCallReport cfg call budget profile accs req now db = Inr ((settled, conflict), call', db')"
  shows "ledger_inv db' \<and> ledger_only db db'"
  using settle
proof (cases rule: settleCallReport_cases)
  case (conflict f)
  have load: "loadAccounts (run_TenantID r) (run_BusinessRequestID r) db = Inr accs" using of_call by (simp add: call_of_def)
  have "quiet db (updateCall call f db)" by (rule quiet_updateCall) (rule conflict(4))
  moreover have "quiet (updateCall call f db) db'" unfolding conflict(5)
    by (rule conflict_freeze_quiet [OF inv load]) (simp add: updateCall_def)
  ultimately show ?thesis using quiet_only quiet_trans inv by (auto simp: conflict(5))
next
  case (report d accs1)
  note b = restoreCallBudget_ok [OF budget]
  have o: "open_call call" by (rule unhashed_open [OF inv of_call report(1)])
  have load: "loadAccounts (run_TenantID r) (run_BusinessRequestID r) db = Inr accs" and call: "call \<in> set (physical_calls db)"
    using of_call by (simp_all add: call_of_def)
  have three: "length accs = 3" using loadAccounts_effect [OF load] by simp
  define accs2 where "accs2 = (if rd_BatchStopCode d \<noteq> '''' then freezeReportBatch (rd_BatchStopCode d) accs1 else accs1)"
  define f where "f = reportedCall \<lparr>cr_Usage = su_Usage req, cr_ProviderAudit = su_ProviderAudit req\<rparr> (su_ReportHash req) d now"
  have db': "db' = updateCall call f (saveLedgerAccounts accs2 db)" by (simp add: report(7) f_def accs2_def)
  have "ledger_inv db'"
  proof (cases "rd_UsageKnown d")
    case True
    note h = disposition_within_hold [OF report(5) True]
    have "settleEach accs (pc_TotalTokens call) (pc_CostMicroyuan call) (rd_KnownTokens d) (rd_KnownCostMicroyuan d) = Inr accs1"
      using report(6) True h(1) b by simp
    from freezeReportBatch_effect [where R = "settles (pc_TotalTokens call) (pc_CostMicroyuan call) (rd_KnownTokens d) (rd_KnownCostMicroyuan d)",
        OF settled_ids [OF this] three, of "rd_BatchStopCode d"]
    have R: "list_all2 (\<lambda>b b'. \<exists>acc. settles (pc_TotalTokens call) (pc_CostMicroyuan call) (rd_KnownTokens d) (rd_KnownCostMicroyuan d) (br_Account b) acc
        \<and> b' = b\<lparr>br_Account := acc\<rparr>) accs accs2"
      unfolding accs2_def [symmetric] by (rule list_all2_mono) (auto simp: settles_def)
    show ?thesis unfolding db'
      by (rule settle_call_inv(1) [OF inv keys, of "fst k" "snd k" r a, OF _ _ _ _ _ R])
        (use of_call o b h True known_has_usage [OF report(5) True] in \<open>auto simp: call_of_def f_def reportedCall_def\<close>)
  next
    case False
    have "list_all2 (\<lambda>b b'. \<exists>acc. thaw acc = thaw (br_Account b) \<and> b' = b\<lparr>br_Account := acc\<rparr>) accs accs1"
    proof (cases "rd_MeasurementAnomaly d")
      case True
      with report(6) have "accs1 = freezeAccounts accs" by simp
      then show ?thesis using freezeAccounts_effect [of accs] by simp
    next
      case nonanomaly: False
      have "\<exists>acc. thaw acc = thaw (br_Account b) \<and> b = b\<lparr>br_Account := acc\<rparr>" for b
        by (rule exI [of _ "br_Account b"]) simp
      note same = list_all2_refl [where P = "\<lambda>b b'. \<exists>acc. thaw acc = thaw (br_Account b) \<and> b' = b\<lparr>br_Account := acc\<rparr>", OF this]
      from report(6) False nonanomaly have "accs1 = accs" by simp
      then show ?thesis using same [of accs] by simp
    qed
    from freezeReportBatch_effect [where R = "\<lambda>acc acc'. thaw acc' = thaw acc", OF this three, of "rd_BatchStopCode d"]
    have R: "list_all2 (\<lambda>b b'. \<exists>acc. thaw acc = thaw (br_Account b) \<and> b' = b\<lparr>br_Account := acc\<rparr>) accs accs2"
      unfolding accs2_def [symmetric] by (rule list_all2_mono) auto
    have q: "quiet db (saveLedgerAccounts accs2 db)" by (rule frozen_quiet(2) [OF inv load R]) simp
    have calls: "physical_calls (saveLedgerAccounts accs2 db) = physical_calls db" unfolding frozen_quiet(1) [OF inv load R] by simp
    have "quiet (saveLedgerAccounts accs2 db) db'" unfolding db'
      by (rule anomalous_quiet [OF quiet_inv [OF inv q]])
        (use o calls call False in \<open>auto simp: same_hold_def f_def reportedCall_def\<close>)
    then show ?thesis using quiet_inv [OF inv quiet_trans [OF q]] by blast
  qed
  then show ?thesis by (simp add: report(7))
qed (use inv in simp)

section \<open>Observation and late settlement\<close>

lemma ObserveCall_cases:
  assumes "ObserveCall cfg caller req now db = Inr (c, db')"
  obtains (replay) call where "db' = db" "call \<in> set (physical_calls db)" "pc_ObservationHash call \<noteq> None"
    | (observed) r a accs call profile budget settled call1 db1 hash where
      "lockRun (ls_TenantID (oc_Lease req)) (ls_RunID (oc_Lease req)) db = Inr (r, a)"
      "loadAccounts (run_TenantID r) (run_BusinessRequestID r) db = Inr accs" "CheckExecution r a (oc_Lease req) now = Inr ()"
      "readCall r (oc_PhysicalCallID req) db = Some call" "restoreCallBudget call profile = Inr budget"
      "au_ActiveCallID a = Some (oc_PhysicalCallID req)" "pc_ObservationHash call = None"
      "(settled, call1, db1) = (False, call, db) \<or>
         (\<exists>usage. settleLedgerUsage cfg call budget profile accs usage now db = Inr (settled, call1, db1))"
      "db' = saveRun now (r\<lparr>run_UpdatedAt := now\<rparr>) (a\<lparr>au_ActiveCallID := None\<rparr>) (updateCall call (observedCall req hash now) db1)"
proof -
  from assms obtain r a accs call where lock: "lockRun (ls_TenantID (oc_Lease req)) (ls_RunID (oc_Lease req)) db = Inr (r, a)"
    and load: "loadAccounts (run_TenantID r) (run_BusinessRequestID r) db = Inr accs"
    and read: "readCall r (oc_PhysicalCallID req) db = Some call"
    and rest: "observeLocked cfg caller req now r a accs call db = Inr (c, db')"
    unfolding ObserveCall_def by (auto simp: result_simps split: option.splits)
  show thesis
  proof (cases "pc_ObservationHash call")
    case (Some h)
    with rest have "db' = db" by (auto simp: observeLocked_def result_simps split: if_splits)
    with read Some show ?thesis by (intro replay) (auto simp: readCall_def dest: find_row_SomeD)
  next
    case None
    with rest obtain profile budget hash settled call1 db1 where exec: "CheckExecution r a (oc_Lease req) now = Inr ()"
      and budget: "restoreCallBudget call profile = Inr budget" and act: "au_ActiveCallID a = Some (oc_PhysicalCallID req)"
      and settle: "(case oc_Usage req of
              Some usage \<Rightarrow> if AuditEnabled profile then Inr (False, call, db)
                else settleLedgerUsage cfg call budget profile accs usage now db
            | None \<Rightarrow> Inr (False, call, db)) = Inr (settled, call1, db1)"
      and db': "saveRun now (r\<lparr>run_UpdatedAt := now\<rparr>) (a\<lparr>au_ActiveCallID := None\<rparr>) (updateCall call (observedCall req hash now) db1) = db'"
      unfolding observeLocked_def Let_def ledgerExecution_def by (auto simp: if_Inl_eq_Inr bindE_Inr_iff)
    have "(settled, call1, db1) = (False, call, db) \<or> (\<exists>usage. settleLedgerUsage cfg call budget profile accs usage now db = Inr (settled, call1, db1))"
      using settle by (auto split: option.splits if_splits)
    then show ?thesis by (rule observed [OF lock load exec read budget act None]) (rule db' [symmetric])
  qed
qed

lemma observedCall_hold: "same_hold c (observedCall req hash now c)"
  by (simp add: observedCall_def same_hold_def markUnknown_def)

lemma ledger_only_lifecycle: "lifecycle_inv db \<Longrightarrow> ledger_only db db' \<Longrightarrow> lifecycle_inv db'"
  by (rule inv_frame_eq) (simp_all add: ledger_only_def)

lemma ObserveCall_inv:
  assumes inv: "lifecycle_inv db" "ledger_inv db" and obs: "ObserveCall cfg caller req now db = Inr (c, db')"
  shows "lifecycle_inv db' \<and> ledger_inv db' \<and> steps_same db db'"
  using obs
proof (cases rule: ObserveCall_cases)
  case (observed r a accs call profile budget settled call1 db1 hash)
  note keys = inv_parts(1) [OF inv(1)]
  have x: "(r, a) \<in> set (runs db)" by (rule conjunct1 [OF lockRun_mem [OF observed(1)]])
  note ofc = readCall_of(1) [OF observed(1,2,4)]
  have one: "ledger_inv db1 \<and> ledger_only db db1"
    using observed(8) settleLedgerUsage_inv [OF inv(2) keys ofc observed(5)] inv(2) by auto
  define mid where "mid = updateCall call (observedCall req hash now) db1"
  have q: "quiet db1 mid" unfolding mid_def by (rule quiet_updateCall) (rule observedCall_hold)
  have only: "ledger_only db mid" using one by (simp add: mid_def)
  have "quiet mid db'" unfolding observed(9) mid_def [symmetric]
    by (rule quiet_save [where a = a]) (use keys x only in \<open>auto simp: ledger_only_def same_run_def\<close>)
  note q2 = this
  then have "ledger_inv db'" using quiet_inv one q by blast
  moreover have "steps_same db db'"
    using only q2 by (auto simp: quiet_def steps_same_def ledger_only_def)
  moreover have "lifecycle_inv db'" unfolding observed(9) mid_def [symmetric]
    by (rule touch_inv [OF inv(1) x CheckExecution_running [OF observed(3)]]) (use only in \<open>simp_all add: ledger_only_def\<close>)
  ultimately show ?thesis by blast
qed (use inv in simp)

lemma SettleUsage_cases:
  assumes "SettleUsage cfg caller req now db = Inr (res, db')"
  obtains r a accs call profile budget call1 where
      "lockRun (ls_TenantID (su_Lease req)) (ls_RunID (su_Lease req)) db = Inr (r, a)"
      "loadAccounts (run_TenantID r) (run_BusinessRequestID r) db = Inr accs"
      "readCall r (su_PhysicalCallID req) db = Some call" "pc_Lease call = su_Lease req" "restoreCallBudget call profile = Inr budget"
      "settleReported cfg call budget profile accs req now db = Inr ((sx_NewlySettled res, sx_ReportConflict res), call1, db')"
  using assms unfolding SettleUsage_def if_Inl_eq_Inr bindE_Inr_iff
  by (auto simp: if_Inl_eq_Inr bindE_Inr_iff split: option.splits)

lemma settleReported_inv:
  assumes inv: "ledger_inv db" and keys: "distinct (map rkey (runs db))" and of_call: "call_of db k r a accs call"
    and budget: "restoreCallBudget call profile = Inr budget"
    and settle: "settleReported cfg call budget profile accs req now db = Inr ((settled, conflict), call', db')"
  shows "ledger_inv db' \<and> ledger_only db db'"
proof (cases "AuditEnabled profile")
  case True
  with settle settleCallReport_inv [OF inv keys of_call budget] show ?thesis by (simp add: settleReported_def)
next
  case False
  with settle obtain u where "settleLedgerUsage cfg call budget profile accs u now db = Inr (settled, call', db')"
    by (auto simp: settleReported_def result_simps split: if_splits)
  from settleLedgerUsage_inv [OF inv keys of_call budget this] show ?thesis .
qed

lemma SettleUsage_inv:
  assumes inv: "lifecycle_inv db" "ledger_inv db" and settle: "SettleUsage cfg caller req now db = Inr (res, db')"
  shows "lifecycle_inv db' \<and> ledger_inv db' \<and> ledger_only db db'"
  using settle
proof (cases rule: SettleUsage_cases)
  case (1 r a accs call profile budget call1)
  from settleReported_inv [OF inv(2) inv_parts(1) [OF inv(1)] readCall_of(1) [OF 1(1-3)] 1(5,6)] show ?thesis
    using ledger_only_lifecycle [OF inv(1)] by blast
qed

end
