(* ===== verification/RunAdmissionInv.thy ===== *)
theory RunAdmissionInv
  imports RunAdmission RunLedgerSteps
begin

text \<open>
  The invariant of admission: business requests are unique by id and by the tenant's key, each has
  exactly one root Run, every Run belongs to a business request of its tenant, a retry belongs to
  the family of its source, and no Run is retried twice. It speaks only of identities, so every
  transaction of the lifecycle and of the ledger keeps it as a frame.
\<close>

section \<open>The invariant\<close>

type_synonym runIdentity = "(string \<times> string) \<times> (string \<times> string option)"

abbreviation bizID :: "BusinessRequest \<Rightarrow> string \<times> string" where
  "bizID b \<equiv> (bq_TenantID b, bq_ID b)"

definition family_ok :: "runIdentity list \<Rightarrow> BusinessRequest \<Rightarrow> bool" where
  "family_ok biz b \<longleftrightarrow> ((bq_TenantID b, bq_RootRunID b), (bq_ID b, None)) \<in> set biz \<and>
     (\<forall>x \<in> set biz. fst (fst x) = bq_TenantID b \<longrightarrow> snd x = (bq_ID b, None) \<longrightarrow> snd (fst x) = bq_RootRunID b)"

definition run_identity_ok :: "runIdentity list \<Rightarrow> BusinessRequest list \<Rightarrow> runIdentity \<Rightarrow> bool" where
  "run_identity_ok biz bs x \<longleftrightarrow> (case x of (k, (i, retry)) \<Rightarrow> (fst k, i) \<in> bizID ` set bs \<and>
     (\<forall>s. retry = Some s \<longrightarrow> (\<exists>r. ((fst k, s), (i, r)) \<in> set biz)))"

definition retries :: "runIdentity list \<Rightarrow> string list" where
  "retries biz = List.map_filter (\<lambda>x. snd (snd x)) biz"

definition admission_ok :: "runIdentity list \<Rightarrow> BusinessRequest list \<Rightarrow> string list \<Rightarrow> bool" where
  "admission_ok biz bs accs \<longleftrightarrow> distinct (map (snd \<circ> fst) biz) \<and> distinct (retries biz) \<and>
     distinct (map bq_ID bs) \<and> distinct (map (\<lambda>b. (bq_TenantID b, bq_Key b)) bs) \<and>
     (\<forall>b \<in> set bs. {bq_FamilyAccountID b, bq_TenantAccountID b, bq_BatchAccountID b} \<subseteq> set accs \<and> family_ok biz b) \<and>
     (\<forall>x \<in> set biz. run_identity_ok biz bs x)"

definition admission_inv :: "run_db \<Rightarrow> bool" where
  "admission_inv db \<longleftrightarrow> admission_ok (map bizkey (runs db)) (business_requests db) (map accID (budget_accounts db))"

lemma admission_frame:
  "admission_inv db \<Longrightarrow> map bizkey (runs db') = map bizkey (runs db) \<Longrightarrow> business_requests db' = business_requests db \<Longrightarrow>
   map accID (budget_accounts db') = map accID (budget_accounts db) \<Longrightarrow> admission_inv db'"
  by (simp add: admission_inv_def)

lemma calm_admission:
  assumes "admission_inv db" "calm db db'"
  shows "admission_inv db'"
proof (rule admission_frame [OF assms(1)])
  show "map accID (budget_accounts db') = map accID (budget_accounts db)"
    by (rule list_all2_same_map [where R = same_funds]) (use assms(2) in \<open>simp_all add: calm_def same_funds_fields\<close>)
qed (use assms(2) in \<open>simp_all add: calm_def\<close>)

section \<open>Growing the tables\<close>

lemma retries_append: "retries (biz @ biz') = retries biz @ retries biz'"
  by (simp add: retries_def map_filter_def)

lemma retries_none: "retries biz = [] \<longleftrightarrow> (\<forall>x \<in> set biz. snd (snd x) = None)"
  by (auto simp: retries_def map_filter_def filter_empty_conv)

lemma mem_retries: "s \<in> set (retries biz) \<longleftrightarrow> (\<exists>x \<in> set biz. snd (snd x) = Some s)"
  by (force simp: retries_def map_filter_def)

lemma run_identity_mono:
  "run_identity_ok biz bs x \<Longrightarrow> set biz \<subseteq> set biz' \<Longrightarrow> set bs \<subseteq> set bs' \<Longrightarrow> run_identity_ok biz' bs' x"
  by (fastforce simp: run_identity_ok_def split: prod.splits)

text \<open>A submit adds a business request and its root Run.\<close>

lemma admission_ok_submit:
  assumes ok: "admission_ok biz bs accs"
    and run: "fst k = bq_TenantID b" "snd k = bq_RootRunID b" "snd k \<notin> set (map (snd \<circ> fst) biz)"
    and fresh: "bq_ID b \<notin> bq_ID ` set bs" "(bq_TenantID b, bq_Key b) \<notin> (\<lambda>b. (bq_TenantID b, bq_Key b)) ` set bs"
    and accs: "{bq_FamilyAccountID b, bq_TenantAccountID b, bq_BatchAccountID b} \<subseteq> set accs'" "set accs \<subseteq> set accs'"
  shows "admission_ok (biz @ [(k, (bq_ID b, None))]) (bs @ [b]) accs'"
proof -
  let ?biz = "biz @ [(k, (bq_ID b, None))]"
  have none: "snd x \<noteq> (bq_ID b, None)" if "x \<in> set biz" for x
  proof
    assume "snd x = (bq_ID b, None)"
    with ok that have "(fst (fst x), bq_ID b) \<in> bizID ` set bs" by (fastforce simp: admission_ok_def run_identity_ok_def)
    with fresh(1) show False by auto
  qed
  have "family_ok ?biz b" unfolding family_ok_def using run(1,2) none by (cases k) auto
  moreover have "family_ok ?biz c" if "c \<in> set bs" for c
    using ok that fresh(1) by (auto simp: admission_ok_def family_ok_def image_iff)
  moreover have "run_identity_ok ?biz (bs @ [b]) x" if "x \<in> set biz" for x
    by (rule run_identity_mono [of biz bs]) (use ok that in \<open>auto simp: admission_ok_def\<close>)
  moreover have "run_identity_ok ?biz (bs @ [b]) (k, (bq_ID b, None))" using run(1) by (auto simp: run_identity_ok_def)
  moreover have "retries ?biz = retries biz" by (simp add: retries_append retries_none)
  ultimately show ?thesis using ok run(3) fresh accs unfolding admission_ok_def by auto
qed

text \<open>A retry adds a Run to the family of its source.\<close>

lemma admission_ok_retry:
  assumes ok: "admission_ok biz bs accs" and new: "snd k \<notin> set (map (snd \<circ> fst) biz)" "s \<notin> set (retries biz)"
    and source: "((fst k, s), (i, r)) \<in> set biz"
  shows "admission_ok (biz @ [(k, (i, Some s))]) bs accs"
proof -
  let ?biz = "biz @ [(k, (i, Some s))]"
  have "(fst k, i) \<in> bizID ` set bs" using ok source by (fastforce simp: admission_ok_def run_identity_ok_def)
  then have "run_identity_ok ?biz bs (k, (i, Some s))" using source by (auto simp: run_identity_ok_def)
  moreover have "run_identity_ok ?biz bs x" if "x \<in> set biz" for x
    by (rule run_identity_mono [of biz bs]) (use ok that in \<open>auto simp: admission_ok_def\<close>)
  moreover have "family_ok ?biz b" if "b \<in> set bs" for b using ok that by (auto simp: admission_ok_def family_ok_def)
  moreover have "retries ?biz = retries biz @ [s]" by (simp add: retries_append) (simp add: retries_def map_filter_def)
  ultimately show ?thesis using ok new unfolding admission_ok_def by auto
qed

lemma admission_ok_accounts: "admission_ok biz bs accs \<Longrightarrow> set accs \<subseteq> set accs' \<Longrightarrow> admission_ok biz bs accs'"
  by (auto simp: admission_ok_def)
text \<open>
  New Runs, business requests and empty accounts do not change what the calls hold: a call belongs
  to a Run that was there before, whose business request and accounts were there before.
\<close>

lemma callAccounts_grow:
  assumes adm: "admission_inv db" and run: "callRun c \<in> rkey ` set (runs db)"
  shows "callAccounts (map bizkey (runs db) @ biz) (business_requests db @ bs) c = callAccounts (map bizkey (runs db)) (business_requests db) c"
    and "set (callAccounts (map bizkey (runs db)) (business_requests db) c) \<subseteq> set (map accID (budget_accounts db))"
proof -
  let ?biz = "map bizkey (runs db)" and ?bs = "business_requests db"
  have "callRun c \<in> fst ` set ?biz" using run by (auto simp: bizkey_def image_iff)
  then obtain v where v: "map_of ?biz (callRun c) = Some v" using map_of_eq_None_iff [of ?biz "callRun c"] by (cases "map_of ?biz (callRun c)") simp_all
  then have "(callRun c, v) \<in> set ?biz" by (rule map_of_SomeD)
  moreover have "\<forall>x \<in> set ?biz. run_identity_ok ?biz ?bs x" using adm unfolding admission_inv_def admission_ok_def by blast
  ultimately have "run_identity_ok ?biz ?bs (callRun c, v)" by blast
  then have "(fst (callRun c), fst v) \<in> bizID ` set ?bs" by (cases v) (simp add: run_identity_ok_def)
  then obtain b where b: "find_row (\<lambda>b. bq_TenantID b = fst (callRun c) \<and> bq_ID b = fst v) ?bs = Some b"
    by (cases "find_row (\<lambda>b. bq_TenantID b = fst (callRun c) \<and> bq_ID b = fst v) ?bs") (auto simp: find_row_None_iff)
  show "callAccounts (?biz @ biz) (?bs @ bs) c = callAccounts ?biz ?bs c"
    using v b find_row_append_hit [OF b, of bs] by (simp add: callAccounts_def businessAccounts_def map_add_Some_iff)
  have "b \<in> set ?bs" using find_row_SomeD [OF b] by simp
  with adm v b show "set (callAccounts ?biz ?bs c) \<subseteq> set (map accID (budget_accounts db))"
    by (auto simp: callAccounts_def businessAccounts_def admission_inv_def admission_ok_def)
qed

lemma account_ok_empty: "account_ok (emptyAccount i scope limits) 0 0 \<longleftrightarrow> UsageValid limits"
  by (auto simp: account_ok_def account_inv_def emptyAccount_def usage_defs no_usage_def MaxSafeInteger_def)

lemma grow_ledger:
  assumes inv: "ledger_inv db" and adm: "admission_inv db"
    and tables: "map bizkey (runs db') = map bizkey (runs db) @ biz" "business_requests db' = business_requests db @ bs"
      "physical_calls db' = physical_calls db" "budget_accounts db' = budget_accounts db @ accs"
    and new: "\<forall>x \<in> set accs. account_ok (br_Account x) 0 0 \<and> accID x \<notin> accID ` set (budget_accounts db)" "distinct (map accID accs)"
  shows "ledger_inv db'"
proof -
  have calls: "callRun c \<in> rkey ` set (runs db)" if "c \<in> set (physical_calls db)" for c
    using ledger_parts(3) [OF inv that] by (simp add: call_ok_def)
  have "holds_on db' i c = holds_on db i c" if "c \<in> set (physical_calls db)" for i c
    using callAccounts_grow(1) [OF adm calls [OF that]] by (simp add: holds_on_def tables)
  then have held: "heldTokens db' i = heldTokens db i" "heldCost db' i = heldCost db i" for i
    unfolding heldTokens_def heldCost_def tables by (auto intro: sum_where_cong)
  have zero: "sum_where (holds_on db i) f (physical_calls db) = 0" if "i \<notin> accID ` set (budget_accounts db)" for i and f :: "callRow \<Rightarrow> int"
  proof -
    have "sum_where (holds_on db i) f (physical_calls db) = sum_where (\<lambda>_. False) f (physical_calls db)"
      by (rule sum_where_cong) (use callAccounts_grow(2) [OF adm calls] that in \<open>auto simp: holds_on_def\<close>)
    also have "\<dots> = 0" by (simp add: sum_where_def)
    finally show ?thesis .
  qed
  have "rkey ` set (runs db) \<subseteq> rkey ` set (runs db')"
    using arg_cong [OF tables(1), of "\<lambda>l. fst ` set l"] by (auto simp: bizkey_def image_image image_Un)
  then have "call_ok db' c" if "c \<in> set (physical_calls db)" for c
    using ledger_parts(3) [OF inv that] by (auto simp: call_ok_def)
  moreover have "account_ok (br_Account x) (heldTokens db' (accID x)) (heldCost db' (accID x))" if "x \<in> set (budget_accounts db')" for x
    using that ledger_parts(4) [OF inv] new(1) zero unfolding held by (auto simp: tables heldTokens_def heldCost_def)
  moreover have "distinct (map accID (budget_accounts db'))"
  proof -
    have "set (map accID (budget_accounts db)) \<inter> set (map accID accs) = {}"
    proof (intro Int_emptyI)
      fix i assume i: "i \<in> set (map accID (budget_accounts db))" "i \<in> set (map accID accs)"
      then obtain x where "x \<in> set accs" "accID x = i" by auto
      with new(1) have "i \<notin> accID ` set (budget_accounts db)" by blast
      with i(1) show False by simp
    qed
    then show ?thesis unfolding tables map_append distinct_append using ledger_parts(1) [OF inv] new(2) by blast
  qed
  ultimately show ?thesis using ledger_parts(2) [OF inv] unfolding ledger_inv_def by (simp add: tables)
qed

lemma grow_lifecycle:
  assumes inv: "lifecycle_inv db" and x: "rkey x \<notin> rkey ` set (runs db)" "run_ok (fst x) (snd x)" "\<not> active (run_State (fst x))"
    and db': "runs db' = runs db @ [x]" "run_attempts db' = run_attempts db" "execution_slots db' = execution_slots db"
  shows "lifecycle_inv db'"
proof -
  have atts: "fst (akey y) \<in> rkey ` set (runs db)" if "y \<in> set (run_attempts db)" for y
    using inv that by (auto simp: lifecycle_inv_def attempt_rows_ok_def)
  have "fst (akey y) \<noteq> rkey x" if "y \<in> set (run_attempts db)" for y using atts [OF that] x(1) by metis
  then have "row_attempts (run_attempts db) x" using x(3) by (auto simp: row_attempts_def split: prod.splits)
  moreover have "load k db' = load k db" for k using x(3) by (simp add: load_def db' occupies_def count_where_def)
  ultimately show ?thesis using inv x unfolding lifecycle_inv_def slots_ok_def attempt_rows_ok_def by (auto simp: db')
qed

section \<open>What an admission writes\<close>

lemma putRun_append: "rkey y \<notin> rkey ` set rows \<Longrightarrow> rkey y = rkey x \<Longrightarrow> putRun y (rows @ [x]) = rows @ [y]"
  by (induction rows) (auto simp: putRun_def update_where_def)

lemma admissionRun_effect:
  assumes "admissionRun cfg input business now = Inr (r, a)"
  shows "run_ID r = ad_RunID input" "run_TenantID r = ad_TenantID input" "run_BusinessRequestID r = bq_ID business"
    "run_RetryOfRunID r = (if ad_SourceRunID input \<noteq> '''' then Some (ad_SourceRunID input) else None)"
    "run_State r = Ready" "fresh_run (r, a)" "run_ContentPurgedAt r = None" "run_RunDeadline r \<ge> now + (if ad_SourceRunID input \<noteq> ''''
       then rr_RunTimeoutSeconds (ad_Retry input) else sr_RunTimeoutSeconds (ad_Submit input)) * Second" "run_CursorVersion r = 0"
  using assms by (auto simp: admissionRun_def Let_def fresh_run_def split: if_splits)

lemma fresh_run_ok: "fresh_run (r, a) \<Longrightarrow> run_ok r a" "fresh_run (r, a) \<Longrightarrow> \<not> active (run_State r)"
  by (auto simp: fresh_run_def run_ok_def MaxRecoveries_def)

lemma insertRun_effect:
  assumes "insertRun hash r a db = Inr db1"
  shows "run_ID r \<notin> (\<lambda>x. run_ID (fst x)) ` set (runs db)"
    "run_RetryOfRunID r = None \<or> run_RetryOfRunID r \<notin> (\<lambda>x. run_RetryOfRunID (fst x)) ` set (runs db)"
    "db1 = db\<lparr>runs := runs db @ [(r, a)], admission_hashes := admission_hashes db @ [((run_TenantID r, run_ID r), hash)]\<rparr>"
  using assms unfolding insertRun_def by (auto simp: result_simps list_ex_iff image_iff split: if_splits)

lemma acceptRun_effect:
  assumes "acceptRun cfg input business now clk db = Inr (view, db')"
  obtains r a x where "fresh_run (r, a)" "run_ID r = ad_RunID input" "run_TenantID r = ad_TenantID input"
    "run_BusinessRequestID r = bq_ID business" "run_ContentPurgedAt r = None"
    "run_RetryOfRunID r = (if ad_SourceRunID input \<noteq> '''' then Some (ad_SourceRunID input) else None)"
    "run_ID r \<notin> (\<lambda>x. run_ID (fst x)) ` set (runs db)"
    "run_RetryOfRunID r = None \<or> run_RetryOfRunID r \<notin> (\<lambda>x. run_RetryOfRunID (fst x)) ` set (runs db)"
    "runs db' = runs db @ [(r, a)]" "view = r" "business_requests db' = business_requests db" "budget_accounts db' = budget_accounts db"
    "physical_calls db' = physical_calls db" "run_attempts db' = run_attempts db" "execution_slots db' = execution_slots db"
    "findOperation (ad_TenantID input) (admissionKind (ad_SourceRunID input)) (ad_SourceRunID input) (ad_OperationKey input) db' = Some x"
    "op_RequestHash x = ad_RequestHash input" "op_ResultRunID x = run_ID r" "run_CursorVersion r = 0" "run_steps db' = run_steps db"
proof -
  define new :: "Run \<Rightarrow> Operation" where "new = (\<lambda>r. newOperation (ad_OperationID input) (ad_TenantID input) (ad_SourceRunID input) (ad_OperationKey input)
        (ad_RequestHash input) (run_ID r) now)"
  from assms obtain r a db1 db2 where r: "admissionRun cfg input business now = Inr (r, a)"
    and ins: "insertRun (ad_RequestHash input) r a db = Inr db1" and rec: "recordRun clk r a ''admitted'' now db1 = Inr db2"
    and op: "insertOperation (new r) db2 = Inr db'" and view: "getView (ad_TenantID input) (run_ID r) db' = Inr view"
    unfolding acceptRun_def new_def by (auto simp: result_simps)
  note e = admissionRun_effect [OF r]
  note fresh = insertRun_effect(1,2) [OF ins] and db1 = insertRun_effect(3) [OF ins]
  from recordRun_effect [OF rec] obtain n evs where
    db2: "db2 = db1\<lparr>runs := putRun (stamped clk r, a\<lparr>au_EventSequence := n\<rparr>) (runs db1), run_events := evs\<rparr>" by blast
  have "stamped clk r = r" using e(5) by (simp add: stamped_def)
  moreover have key: "rkey (r, a\<lparr>au_EventSequence := n\<rparr>) \<notin> rkey ` set (runs db)" using fresh(1) by (auto simp: rkey_def)
  ultimately have runs2: "runs db2 = runs db @ [(r, a\<lparr>au_EventSequence := n\<rparr>)]"
    unfolding db2 db1 by (simp add: putRun_append rkey_def)
  from insertOperation_frame [OF op] obtain ops where db': "db' = db2\<lparr>run_operations := ops\<rparr>" by blast
  from insertOperation_found [OF op] obtain x where
    x: "findOperation (op_TenantID (new r)) (op_Kind (new r)) (op_SourceRunID (new r)) (op_Key (new r)) db' = Some x"
      "op_RequestHash x = op_RequestHash (new r)" "op_ResultRunID x = op_ResultRunID (new r)" by blast
  have "view = r"
  proof -
    from view obtain a' where "lockRun (ad_TenantID input) (run_ID r) db' = Inr (view, a')" by (auto simp: getView_def result_simps)
    then have "(view, a') \<in> set (runs db')" "run_ID view = run_ID r" using lockRun_mem by (fastforce simp: rkey_def)+
    with fresh(1) runs2 db' show ?thesis by (auto simp: image_iff)
  qed
  show thesis
    by (rule that [of r "a\<lparr>au_EventSequence := n\<rparr>" x])
      (use e fresh runs2 \<open>view = r\<close> x in \<open>auto simp: db' db2 db1 new_def newOperation_def fresh_run_def\<close>)
qed

lemma insertBudget_effect:
  assumes "insertBudget spec db = Inr db'"
  obtains x where "db' = db\<lparr>budget_accounts := budget_accounts db @ [x]\<rparr>" "accID x = bs_ID spec" "accID x \<notin> accID ` set (budget_accounts db)"
    "account_ok (br_Account x) 0 0"
proof -
  define x where "x = \<lparr>br_Account = emptyAccount (bs_ID spec) (bs_Scope spec) (bs_Limits spec),
        br_Key = bs_Key spec, br_ValidFrom = bs_ValidFrom spec, br_ValidUntil = bs_ValidUntil spec\<rparr>"
  have id: "accID x = bs_ID spec" by (simp add: x_def emptyAccount_def)
  from assms have "db' = db\<lparr>budget_accounts := budget_accounts db @ [x]\<rparr>" "UsageValid (bs_Limits spec)"
    "\<not> list_ex (\<lambda>x. accID x = bs_ID spec) (budget_accounts db)"
    by (auto simp: insertBudget_def x_def list_ex_iff split: if_splits)
  with id show thesis by (intro that [of x]) (auto simp: list_ex_iff account_ok_empty x_def)
qed

lemma admissionAccounts_mem:
  assumes "admissionAccounts tenant key now db = Inr (t, b)"
  shows "t \<in> set (budget_accounts db)" "b \<in> set (budget_accounts db)"
  using assms by (auto simp: admissionAccounts_def readAccount_def result_simps split: option.splits if_splits dest: find_row_SomeD)

lemma submitBusiness_effect:
  assumes "submitBusiness cfg input now db = Inr (b, db')"
  obtains x where "db' = db\<lparr>budget_accounts := budget_accounts db @ [x], business_requests := business_requests db @ [b]\<rparr>"
    "accID x = bq_FamilyAccountID b" "accID x \<notin> accID ` set (budget_accounts db)" "account_ok (br_Account x) 0 0"
    "bq_TenantID b = ad_TenantID input" "bq_RootRunID b = ad_RunID input" "bq_ID b \<notin> bq_ID ` set (business_requests db)"
    "(bq_TenantID b, bq_Key b) \<notin> (\<lambda>b. (bq_TenantID b, bq_Key b)) ` set (business_requests db)"
    "bq_TenantAccountID b \<in> accID ` set (budget_accounts db)" "bq_BatchAccountID b \<in> accID ` set (budget_accounts db)"
    "bq_Key b = sr_BusinessRequestKey (ad_Submit input)"
proof -
  from assms obtain t g db1 where accs: "admissionAccounts (ad_TenantID input) (sr_BudgetBatchID (ad_Submit input)) now db = Inr (t, g)"
    and b: "b = \<lparr>bq_ID = ad_BusinessID input, bq_TenantID = ad_TenantID input, bq_Key = sr_BusinessRequestKey (ad_Submit input),
              bq_RequestHash = ad_RequestHash input, bq_RootRunID = ad_RunID input, bq_FamilyAccountID = ad_FamilyAccountID input,
              bq_TenantAccountID = accID t, bq_BatchAccountID = accID g, bq_CreatedAt = now, bq_RetryUntil = now + retryWindow\<rparr>"
    and bud: "insertBudget \<lparr>bs_ID = bq_FamilyAccountID b, bs_Scope = ''family'', bs_Key = bq_ID b, bs_ValidFrom = now,
            bs_ValidUntil = bq_RetryUntil b + 24 * Hour,
            bs_Limits = FamilyLimits (pf_FamilyTokenLimit (ad_Profile input)) (pf_FamilyCostMicroyuan (ad_Profile input))\<rparr> db = Inr db1"
    and biz: "insertBusiness b db1 = Inr db'"
    unfolding submitBusiness_def Let_def by (auto simp: result_simps)
  from insertBudget_effect [OF bud] obtain x where x: "db1 = db\<lparr>budget_accounts := budget_accounts db @ [x]\<rparr>"
    "accID x = bq_FamilyAccountID b" "accID x \<notin> accID ` set (budget_accounts db)" "account_ok (br_Account x) 0 0" by auto
  from biz x(1) have "db' = db\<lparr>budget_accounts := budget_accounts db @ [x], business_requests := business_requests db @ [b]\<rparr>"
    "bq_ID b \<notin> bq_ID ` set (business_requests db)"
    "(bq_TenantID b, bq_Key b) \<notin> (\<lambda>b. (bq_TenantID b, bq_Key b)) ` set (business_requests db)"
    by (auto simp: insertBusiness_def list_ex_iff split: if_splits)
  note new = this
  show thesis by (rule that [OF new(1) x(2-4) _ _ new(2,3)]) (use admissionAccounts_mem [OF accs] in \<open>auto simp: b\<close>)
qed

lemma update_where_absent: "i \<notin> k ` set t \<Longrightarrow> update_where (\<lambda>x. k x = i) f t = t"
  unfolding update_where_def by (rule map_idI) auto

lemma stampBusiness_effect:
  assumes "db = db0\<lparr>budget_accounts := accs @ [x], business_requests := bs @ [b]\<rparr>" "accID x = bq_FamilyAccountID b"
    "accID x \<notin> accID ` set accs" "bq_ID b \<notin> bq_ID ` set bs"
  shows "stampBusiness b now db = db0\<lparr>budget_accounts := accs @ [x\<lparr>br_ValidFrom := now, br_ValidUntil := now + retryWindow + 24 * Hour\<rparr>],
    business_requests := bs @ [b\<lparr>bq_CreatedAt := now, bq_RetryUntil := now + retryWindow\<rparr>]\<rparr>"
proof -
  have "update_where (\<lambda>y. accID y = bq_FamilyAccountID b) f accs = accs" for f
    by (rule update_where_absent) (use assms(2,3) in simp)
  moreover have "update_where (\<lambda>c. bq_TenantID c = bq_TenantID b \<and> bq_ID c = bq_ID b) f bs = bs" for f
    unfolding update_where_def using assms(4) by (intro map_idI) (metis imageI)
  ultimately show ?thesis using assms(2) by (simp add: stampBusiness_def assms(1) update_where_def)
qed

lemma retryBusiness_effect:
  assumes "retryBusiness cfg input db = Inr (b, source)"
  obtains a where "(source, a) \<in> set (runs db)" "rkey (source, a) = (ad_TenantID input, ad_SourceRunID input)"
    "run_BusinessRequestID source = bq_ID b" "bq_TenantID b = ad_TenantID input"
proof -
  from assms obtain a where biz: "businessOfRun (ad_TenantID input) (ad_SourceRunID input) db = Some b"
    and lock: "lockRun (ad_TenantID input) (ad_SourceRunID input) db = Inr (source, a)"
    by (auto simp: retryBusiness_def result_simps split: option.splits if_splits)
  from lock have "find_row (runKey (ad_TenantID input) (ad_SourceRunID input)) (runs db) = Some (source, a)"
    by (auto simp: lockRun_def split: option.splits)
  with biz have "bq_TenantID b = ad_TenantID input" "bq_ID b = run_BusinessRequestID source"
    by (auto simp: businessOfRun_def dest!: find_row_SomeD)
  with lockRun_mem [OF lock] show thesis by (intro that [of a]) simp_all
qed

section \<open>Admission keeps the invariants\<close>

definition system_inv :: "run_db \<Rightarrow> bool" where
  "system_inv db \<longleftrightarrow> lifecycle_inv db \<and> ledger_inv db \<and> admission_inv db"

lemma calm_system: "system_inv db \<Longrightarrow> lifecycle_inv db' \<Longrightarrow> calm db db' \<Longrightarrow> system_inv db'"
  using calm_inv calm_admission unfolding system_inv_def by blast

lemma quiet_system: "system_inv db \<Longrightarrow> lifecycle_inv db' \<Longrightarrow> quiet db db' \<Longrightarrow> system_inv db'"
  using calm_system quiet_calm by blast

lemma admitNew_cases:
  assumes "admitNew cfg ck input now0 now clk db = Inr (view, db')"
  obtains (submit) input' b db1 where "ad_SourceRunID input = ''''" "\<exists>p. input' = input\<lparr>ad_Profile := p\<rparr>" "submitBusiness cfg input' now0 db = Inr (b, db1)"
      "acceptRun cfg input' b now clk (stampBusiness b now db1) = Inr (view, db')"
    | (retry) input' b source where "ad_SourceRunID input \<noteq> ''''" "\<exists>p. input' = input\<lparr>ad_Profile := p\<rparr>"
      "retryBusiness cfg input' db = Inr (b, source)" "run_State source \<in> {Failed, Cancelled}" "now < bq_RetryUntil b"
      "acceptRun cfg input' b now clk db = Inr (view, db')"
proof -
  from assms obtain p b source db1 where prep: "prepareBusiness cfg (input\<lparr>ad_Profile := p\<rparr>) now0 db = Inr ((b, source), db1)"
    and gate: "\<not> (case source of None \<Rightarrow> False | Some s \<Rightarrow> \<not> bq_RetryUntil b > now \<or> (run_State s \<noteq> Failed \<and> run_State s \<noteq> Cancelled))"
    and acc: "acceptRun cfg (input\<lparr>ad_Profile := p\<rparr>) b now clk (case source of None \<Rightarrow> stampBusiness b now db1 | Some _ \<Rightarrow> db1) = Inr (view, db')"
    unfolding admitNew_def Let_def if_Inl_eq_Inr bindE_Inr_iff by (auto simp: if_Inl_eq_Inr bindE_Inr_iff)
  show thesis
  proof (cases "ad_SourceRunID input = ''''")
    case True
    with prep acc show ?thesis by (intro submit [of "input\<lparr>ad_Profile := p\<rparr>" b db1]) (auto simp: prepareBusiness_def result_simps)
  next
    case False
    with prep obtain s where "retryBusiness cfg (input\<lparr>ad_Profile := p\<rparr>) db = Inr (b, s)" "source = Some s" "db1 = db"
      by (auto simp: prepareBusiness_def result_simps)
    with False gate acc show ?thesis by (intro retry [of "input\<lparr>ad_Profile := p\<rparr>" b s]) auto
  qed
qed

text \<open>The common end of every admission: a new Run row that holds no attempt, over grown tables.\<close>

lemma admit_system:
  assumes inv: "system_inv db" and new: "run_ok r a" "\<not> active (run_State r)" and run: "run_ID r \<notin> (\<lambda>x. run_ID (fst x)) ` set (runs db)"
    and tables: "runs db' = runs db @ [(r, a)]" "business_requests db' = business_requests db @ bs"
      "budget_accounts db' = budget_accounts db @ accs" "physical_calls db' = physical_calls db"
      "run_attempts db' = run_attempts db" "execution_slots db' = execution_slots db"
    and accs: "\<forall>x \<in> set accs. account_ok (br_Account x) 0 0 \<and> accID x \<notin> accID ` set (budget_accounts db)" "distinct (map accID accs)"
    and adm: "admission_inv db'"
  shows "system_inv db'"
proof -
  have "rkey (r, a) \<notin> rkey ` set (runs db)" using run by (auto simp: rkey_def)
  note key = this
  have "lifecycle_inv db'"
    by (rule grow_lifecycle [where x = "(r, a)" and db = db, OF _ key])
      (use inv new tables in \<open>auto simp: system_inv_def\<close>)
  moreover have "ledger_inv db'"
    by (rule grow_ledger [where db = db and biz = "[bizkey (r, a)]"]) (use inv tables accs in \<open>simp_all add: system_inv_def\<close>)
  ultimately show ?thesis using adm by (simp add: system_inv_def)
qed

lemma snd_fst_bizkey: "map (snd \<circ> fst) (map bizkey rs) = map (\<lambda>x. run_ID (fst x)) rs"
  by (simp add: bizkey_def rkey_def)

lemma retries_bizkey: "s \<in> set (retries (map bizkey rs)) \<longleftrightarrow> Some s \<in> (\<lambda>x. run_RetryOfRunID (fst x)) ` set rs"
  by (simp add: mem_retries bizkey_def image_iff eq_commute [of "Some s"])

lemma admitNew_system:
  assumes inv: "system_inv db" and admit: "admitNew cfg ck input now0 now clk db = Inr (view, db')"
  shows "system_inv db'"
  using admit
proof (cases rule: admitNew_cases)
  case (submit input' b db1)
  from submit(3) obtain x where sub: "db1 = db\<lparr>budget_accounts := budget_accounts db @ [x], business_requests := business_requests db @ [b]\<rparr>"
    "accID x = bq_FamilyAccountID b" "accID x \<notin> accID ` set (budget_accounts db)" "account_ok (br_Account x) 0 0"
    "bq_TenantID b = ad_TenantID input'" "bq_RootRunID b = ad_RunID input'" "bq_ID b \<notin> bq_ID ` set (business_requests db)"
    "(bq_TenantID b, bq_Key b) \<notin> (\<lambda>b. (bq_TenantID b, bq_Key b)) ` set (business_requests db)"
    "bq_TenantAccountID b \<in> accID ` set (budget_accounts db)" "bq_BatchAccountID b \<in> accID ` set (budget_accounts db)"
    by (rule submitBusiness_effect)
  define x' where "x' = x\<lparr>br_ValidFrom := now, br_ValidUntil := now + retryWindow + 24 * Hour\<rparr>"
  define b' where "b' = b\<lparr>bq_CreatedAt := now, bq_RetryUntil := now + retryWindow\<rparr>"
  note st = stampBusiness_effect [OF sub(1-3,7), of now, folded x'_def b'_def]
  have src: "ad_SourceRunID input' = ''''" using submit(1,2) by auto
  from submit(4) obtain r a where acc: "fresh_run (r, a)" "run_ID r = ad_RunID input'" "run_TenantID r = ad_TenantID input'"
    "run_BusinessRequestID r = bq_ID b" "run_RetryOfRunID r = None" "run_ID r \<notin> (\<lambda>x. run_ID (fst x)) ` set (runs db)"
    "runs db' = runs db @ [(r, a)]" "business_requests db' = business_requests db @ [b']" "budget_accounts db' = budget_accounts db @ [x']"
    "physical_calls db' = physical_calls db" "run_attempts db' = run_attempts db" "execution_slots db' = execution_slots db"
    by (rule acceptRun_effect) (simp_all add: st src)
  have biz: "map bizkey (runs db') = map bizkey (runs db) @ [(rkey (r, a), (bq_ID b', None))]"
    using acc(4,5,7) by (simp add: bizkey_def b'_def)
  have "admission_inv db'" unfolding admission_inv_def biz acc(8,9)
  proof (rule admission_ok_submit)
    show "admission_ok (map bizkey (runs db)) (business_requests db) (map accID (budget_accounts db))"
      using inv by (simp add: system_inv_def admission_inv_def)
    show "snd (rkey (r, a)) \<notin> set (map (snd \<circ> fst) (map bizkey (runs db)))"
      unfolding snd_fst_bizkey using acc(6) by (simp add: rkey_def)
  qed (use sub acc in \<open>auto simp: b'_def x'_def rkey_def\<close>)
  then show ?thesis
    by (intro admit_system [OF inv fresh_run_ok [OF acc(1)] acc(6,7,8,9,10-12)]) (use sub in \<open>simp_all add: x'_def\<close>)
next
  case (retry input' b source)
  have src: "ad_SourceRunID input' \<noteq> ''''" using retry(1,2) by auto
  from retry(3) obtain sa where so: "(source, sa) \<in> set (runs db)" "rkey (source, sa) = (ad_TenantID input', ad_SourceRunID input')"
    "run_BusinessRequestID source = bq_ID b" by (rule retryBusiness_effect)
  from retry(6) obtain r a where acc: "fresh_run (r, a)" "run_TenantID r = ad_TenantID input'"
    "run_BusinessRequestID r = bq_ID b" "run_RetryOfRunID r = Some (ad_SourceRunID input')" "run_ID r \<notin> (\<lambda>x. run_ID (fst x)) ` set (runs db)"
    "Some (ad_SourceRunID input') \<notin> (\<lambda>x. run_RetryOfRunID (fst x)) ` set (runs db)"
    "runs db' = runs db @ [(r, a)]" "business_requests db' = business_requests db @ []" "budget_accounts db' = budget_accounts db @ []"
    "physical_calls db' = physical_calls db" "run_attempts db' = run_attempts db" "execution_slots db' = execution_slots db"
    by (rule acceptRun_effect) (simp_all add: src)
  have biz: "map bizkey (runs db') = map bizkey (runs db) @ [(rkey (r, a), (bq_ID b, Some (ad_SourceRunID input')))]"
    using acc(3,4,7) by (simp add: bizkey_def)
  have mem: "((fst (rkey (r, a)), ad_SourceRunID input'), (bq_ID b, run_RetryOfRunID source)) \<in> set (map bizkey (runs db))"
    using so acc(2) by (force simp: bizkey_def rkey_def image_iff)
  have "admission_inv db'" unfolding admission_inv_def biz acc(8,9) append_Nil2
    by (rule admission_ok_retry [OF _ _ _ mem])
      (use inv acc(5,6) in \<open>auto simp: system_inv_def admission_inv_def snd_fst_bizkey retries_bizkey rkey_def simp del: map_map\<close>)
  then show ?thesis by (intro admit_system [OF inv fresh_run_ok [OF acc(1)] acc(5,7,8,9,10-12)]) simp_all
qed

text \<open>Resolving an accepted request writes at most one more operation key.\<close>

lemma resolveAdmission_frame:
  assumes "resolveAdmission aliasID tenant key sourceID hash businessKey now db = Inr (res, db')"
  shows "\<exists>ops. db' = db\<lparr>run_operations := ops\<rparr>"
proof -
  have aliased: "\<exists>ops. db' = db\<lparr>run_operations := ops\<rparr>"
    if "aliasAdmission aliasID tenant key sourceID hash i h now db = Inr (res, db')" for i h
    using that insertOperation_frame by (fastforce simp: aliasAdmission_def result_simps split: if_splits)
  have "db' = db \<or> (\<exists>i h. aliasAdmission aliasID tenant key sourceID hash i h now db = Inr (res, db'))"
    using assms unfolding resolveAdmission_def by (auto simp: result_simps split: option.splits if_splits)
  moreover have "db = db\<lparr>run_operations := run_operations db\<rparr>" by simp
  ultimately show ?thesis using aliased by blast
qed

lemma inv_operations_system: "system_inv db \<Longrightarrow> system_inv (db\<lparr>run_operations := ops\<rparr>)"
  by (rule quiet_system) (auto simp: system_inv_def inv_operations)

lemma Admit_cases:
  assumes "Admit cfg ck aliasID input nowAlias now0 now clk db = Inr ((r, reused), db')"
  obtains (reused) ops where reused "db' = db\<lparr>run_operations := ops\<rparr>"
      "resolveAdmission aliasID (ad_TenantID input) (ad_OperationKey input) (ad_SourceRunID input) (ad_RequestHash input)
          (sr_BusinessRequestKey (ad_Submit input)) nowAlias db = Inr (Some r, db')"
    | (new) ops where "\<not> reused" "admitNew cfg ck input now0 now clk (db\<lparr>run_operations := ops\<rparr>) = Inr (r, db')"
      "resolveAdmission aliasID (ad_TenantID input) (ad_OperationKey input) (ad_SourceRunID input) (ad_RequestHash input)
          (sr_BusinessRequestKey (ad_Submit input)) nowAlias db = Inr (None, db\<lparr>run_operations := ops\<rparr>)"
proof -
  from assms obtain res db1 where resolve: "resolveAdmission aliasID (ad_TenantID input) (ad_OperationKey input) (ad_SourceRunID input)
      (ad_RequestHash input) (sr_BusinessRequestKey (ad_Submit input)) nowAlias db = Inr (res, db1)"
    and rest: "(case res of Some r \<Rightarrow> Inr ((r, True), db1)
        | None \<Rightarrow> bindE (admitNew cfg ck input now0 now clk db1) (\<lambda>(r, db2). Inr ((r, False), db2))) = Inr ((r, reused), db')"
    unfolding Admit_def by (auto simp: result_simps)
  from resolveAdmission_frame [OF resolve] obtain ops where db1: "db1 = db\<lparr>run_operations := ops\<rparr>" by blast
  show thesis
  proof (cases res)
    case None
    with rest resolve db1 show ?thesis by (intro new [of ops]) (auto simp: result_simps)
  next
    case (Some r')
    with rest resolve db1 show ?thesis by (intro reused [of ops]) auto
  qed
qed

lemma Admit_system:
  assumes inv: "system_inv db" and admit: "Admit cfg ck aliasID input nowAlias now0 now clk db = Inr ((r, reused), db')"
  shows "system_inv db'"
  using admit
proof (cases rule: Admit_cases)
  case (reused ops)
  then show ?thesis using inv_operations_system [OF inv] by simp
next
  case (new ops)
  show ?thesis by (rule admitNew_system [OF inv_operations_system [OF inv] new(2)])
qed

lemma insertBudget_system:
  assumes inv: "system_inv db" and ins: "insertBudget spec db = Inr db'"
  shows "system_inv db'"
proof -
  from insertBudget_effect [OF ins] obtain x where x: "db' = db\<lparr>budget_accounts := budget_accounts db @ [x]\<rparr>"
    "accID x \<notin> accID ` set (budget_accounts db)" "account_ok (br_Account x) 0 0" by metis
  have "ledger_inv db'" by (rule grow_ledger [where db = db and biz = "[]" and bs = "[]" and accs = "[x]"]) (use inv x in \<open>simp_all add: system_inv_def\<close>)
  moreover have "admission_inv db'"
    unfolding admission_inv_def by (rule admission_ok_accounts [of _ _ "map accID (budget_accounts db)"])
      (use inv in \<open>auto simp: system_inv_def admission_inv_def x(1)\<close>)
  moreover have "lifecycle_inv db'" by (rule inv_frame_eq [of db]) (use inv in \<open>simp_all add: system_inv_def x(1)\<close>)
  ultimately show ?thesis by (simp add: system_inv_def)
qed

lemma CreateBudget_system: "system_inv db \<Longrightarrow> CreateBudget cfg pgUUID spec db = Inr db' \<Longrightarrow> system_inv db'"
  by (auto simp: CreateBudget_def Let_def intro: insertBudget_system split: if_splits option.splits)

lemma BindBudgetTenant_frame:
  assumes "BindBudgetTenant pgUUID tenant batch account db = Inr db'"
  shows "db' = db\<lparr>budget_batch_tenants := budget_batch_tenants db'\<rparr>"
  using assms unfolding BindBudgetTenant_def Let_def by (auto split: if_splits option.splits)

lemma tenants_system: "system_inv db \<Longrightarrow> system_inv (db\<lparr>budget_batch_tenants := ts\<rparr>)"
  by (rule quiet_system) (auto simp: system_inv_def intro: inv_frame_eq quiet_frame)

lemma profiles_system: "system_inv db \<Longrightarrow> system_inv (db\<lparr>agent_profiles := ps\<rparr>)"
  by (rule quiet_system) (auto simp: system_inv_def intro: inv_frame_eq quiet_frame)

lemma EnsureProfiles_system: "system_inv db \<Longrightarrow> system_inv (snd (EnsureProfiles validate ps db))"
proof (induction ps arbitrary: db)
  case (Cons p ps)
  show ?case using Cons.IH [OF Cons.prems] Cons.IH [OF profiles_system [OF Cons.prems]] Cons.prems
    by (auto simp: Let_def split: sum.split option.split)
qed simp

end
