(* ===== verification/RunCheckpoint.thy ===== *)
theory RunCheckpoint
  imports RunAdmissionInv
begin

text \<open>
  Step commits (\<open>checkpoint.go\<close> of the domain and of the store): the acknowledgement of a step
  that was accepted before, the checks of a new one against the persisted call evidence, the
  cursor's advance, and the end of the attempt with a proposal or without an action.

  The registered graph (\<open>DecideCommit\<close>), the canonical JSON of a result and the checkpoint read
  are fields of \<open>commit_checks\<close>: they only read and may refuse. A result as they decode it is a
  \<open>CommitDecision\<close>. The output of a step is the canonical text that was stored.
\<close>

section \<open>The commit in the domain\<close>

record CommitStepRequest =
  cm_Lease :: Lease
  cm_Step :: StepIdentity
  cm_ResultJSON :: string
  cm_CommitHash :: string

text \<open>A proposal; its claims are kept as their JSON, and \<open>pp_JSON\<close> is the text that its fingerprint is taken of.\<close>

record SupportProposalFields =
  sf_Conclusion :: string
  sf_RequestedFields :: "string list option"
  sf_TargetTicketStatus :: string
  sf_Claims :: string

record Proposal =
  pp_Decision :: string
  pp_Summary :: string
  pp_EvidenceRefs :: "string list option"
  pp_Action :: string
  pp_Support :: "SupportProposalFields option"
  pp_JSON :: string

record StepResult =
  sr_ToolInvocationID :: string
  sr_PhysicalCallID :: string
  sr_CorrectionRequired :: bool

record CommitDecision =
  cd_CanonicalJSON :: string
  cd_Result :: StepResult
  cd_NextKind :: string
  cd_CloseAttempt :: bool
  cd_Proposal :: "Proposal option"

definition CommitHash :: "(string \<Rightarrow> string) \<Rightarrow> StepIdentity \<Rightarrow> string \<Rightarrow> string" where
  "CommitHash sha step canonical = Fingerprint sha ''jobforge.run.commit.v1'' [st_ID step, show_int (st_Sequence step), st_Kind step,
     show_int (st_CursorVersion step), st_InputHash step, st_ProfileID step, st_ProfileHash step, st_SnapshotID step, st_SnapshotHash step, canonical]"

definition YieldForApproval :: "Run \<Rightarrow> time \<Rightarrow> RunError + Run" where
  "YieldForApproval r now =
     (if run_State r \<noteq> Running \<or> \<not> run_RunDeadline r > now then Inl ErrInvalidTransition
      else let expires = (if run_RunDeadline r < now + Hour then run_RunDeadline r else now + Hour) in
        Inr (r\<lparr>run_State := AwaitingApproval, run_PermissionExpiresAt := Some expires, run_ProposalRef := Some (''run-proposal:'' @ run_ID r),
               run_UpdatedAt := now\<rparr>))"

definition ApplyCommit ::
    "store_config \<Rightarrow> Run \<Rightarrow> Authority \<Rightarrow> CommitStepRequest \<Rightarrow> CommitDecision \<Rightarrow> string \<Rightarrow> time \<Rightarrow> RunError + (Run \<times> Authority)" where
  "ApplyCommit cfg r a req decision nextStepID now =
     bindE (CheckExecution r a (cm_Lease req) now) (\<lambda>_.
     bindE (CheckStep (cfg_parseUUID cfg) r a (cm_Step req)) (\<lambda>_.
     let size = int (length (cd_CanonicalJSON decision)) in
     if au_ActiveCallID a \<noteq> None then Inl ErrCallConflict
     else if run_CursorVersion r \<ge> 32 \<or> au_CheckpointBytes a < 0 \<or> au_CheckpointBytes a > MaxCheckpointBytes \<or>
        size > MaxCheckpointBytes - au_CheckpointBytes a then Inl ErrCheckpointTooLarge
     else if \<not> cd_CloseAttempt decision \<and> (\<not> validStepKind (cd_NextKind decision) \<or> \<not> ValidUUID (cfg_parseUUID cfg) nextStepID)
     then Inl ErrInternal
     else let r1 = r\<lparr>run_CursorVersion := run_CursorVersion r + 1, run_UpdatedAt := now\<rparr>;
          a1 = a\<lparr>au_CheckpointBytes := au_CheckpointBytes a + size\<rparr> in
       if cd_CloseAttempt decision then
         (case cd_Proposal decision of
            None \<Rightarrow> Inl ErrInternal
          | Some p \<Rightarrow>
            if pp_Decision p = ''proposal'' then bindE (YieldForApproval r1 now) (\<lambda>r2. Inr (r2, a1))
            else Inr (r1\<lparr>run_State := Succeeded, run_Outcome := Some ''no_action''\<rparr>, a1))
       else Inr (r1, a1\<lparr>au_NextStepID := nextStepID, au_NextStepKind := cd_NextKind decision,
         au_NextInputHash := NextInputHash (cfg_sha cfg) (run_ProfileHash r) (run_SnapshotHash r) (run_CursorVersion r1) (cm_CommitHash req)\<rparr>)))"

section \<open>The commit in the store\<close>

record 'c commit_checks =
  cc_canonical :: "string \<Rightarrow> string \<Rightarrow> RunError + string"
  cc_loadCheckpoint :: "run_db \<Rightarrow> Run \<Rightarrow> Authority \<Rightarrow> RunError + 'c"
  cc_DecideCommit :: "Profile \<Rightarrow> 'c \<Rightarrow> CommitStepRequest \<Rightarrow> RunError + CommitDecision"

definition StepReference :: "string \<Rightarrow> int \<Rightarrow> string" where
  "StepReference runID sequence = ''run-step:'' @ runID @ '':'' @ show_int sequence"

record AcceptedStep =
  as_Identity :: StepIdentity
  as_CommitHash :: string
  as_ResultJSON :: string
  as_ResultRef :: string

record CommitStepResponse =
  cp_AcceptedStep :: AcceptedStep
  cp_CursorVersion :: int
  cp_State :: State
  cp_AttemptClosed :: bool
  cp_NextStep :: "StepIdentity option"

definition stepKey :: "Run \<Rightarrow> StepRow \<Rightarrow> bool" where
  "stepKey r s \<longleftrightarrow> sr_tenant s = run_TenantID r \<and> sr_run s = run_ID r"

definition readStep :: "Run \<Rightarrow> string \<Rightarrow> run_db \<Rightarrow> StepRow option" where
  "readStep r i db = find_row (\<lambda>s. stepKey r s \<and> sr_ID s = i) (run_steps db)"

definition acceptedStep :: "Run \<Rightarrow> StepRow \<Rightarrow> string \<Rightarrow> AcceptedStep" where
  "acceptedStep r s output = \<lparr>as_Identity = \<lparr>st_ID = sr_ID s, st_Sequence = sr_Sequence s, st_Kind = sr_Kind s,
       st_CursorVersion = sr_Sequence s - 1, st_InputHash = sr_InputHash s, st_ProfileID = run_ProfileID r,
       st_ProfileHash = sr_ProfileHash s, st_SnapshotID = run_SnapshotID r, st_SnapshotHash = sr_SnapshotHash s\<rparr>,
     as_CommitHash = sr_CommitHash s, as_ResultJSON = output, as_ResultRef = sr_OutputRef s\<rparr>"

definition commitResponse :: "Run \<Rightarrow> Authority \<Rightarrow> AcceptedStep \<Rightarrow> bool \<Rightarrow> CommitStepResponse" where
  "commitResponse r a accepted closed = \<lparr>cp_AcceptedStep = accepted, cp_CursorVersion = run_CursorVersion r, cp_State = run_State r,
     cp_AttemptClosed = closed, cp_NextStep = (if closed then None else Some (PendingStep r a))\<rparr>"

text \<open>A step that was accepted before is acknowledged if the request is that step.\<close>

definition acknowledgeStep :: "store_config \<Rightarrow> 'c commit_checks \<Rightarrow> CommitStepRequest \<Rightarrow> Run \<Rightarrow> Authority \<Rightarrow> StepRow \<Rightarrow> RunError + CommitStepResponse" where
  "acknowledgeStep cfg cc req r a prior =
     (case sr_Output prior of
        None \<Rightarrow> Inl ErrResultExpired
      | Some output \<Rightarrow>
        bindE (cc_canonical cc (cm_ResultJSON req) (st_Kind (cm_Step req))) (\<lambda>canonical.
        let accepted = acceptedStep r prior output in
        if as_Identity accepted \<noteq> cm_Step req \<or> sr_CommitHash prior \<noteq> cm_CommitHash req \<or>
           cm_CommitHash req \<noteq> CommitHash (cfg_sha cfg) (cm_Step req) canonical \<or> output \<noteq> canonical then Inl ErrStepConflict
        else Inr (commitResponse r a accepted False)))"

definition zeroLease :: Lease where
  "zeroLease = \<lparr>ls_TenantID = '''', ls_RunID = '''', ls_WorkerID = '''', ls_SessionID = '''', ls_AttemptNo = 0, ls_FencingToken = 0\<rparr>"

definition zeroStep :: StepIdentity where
  "zeroStep = \<lparr>st_ID = '''', st_Sequence = 0, st_Kind = '''', st_CursorVersion = 0, st_InputHash = '''', st_ProfileID = '''',
     st_ProfileHash = '''', st_SnapshotID = '''', st_SnapshotHash = ''''\<rparr>"

definition persistedChatObservation :: "store_config \<Rightarrow> callRow \<Rightarrow> Profile \<Rightarrow> bool" where
  "persistedChatObservation cfg call profile =
     (case (pc_Report call, pc_ObservationHash call, pc_HTTPStatus call, pc_ErrorCode call, pc_TransportOutcome call, pc_BusinessOutcome call) of
        (Some report, Some h, Some status, Some code, Some transport, Some business) \<Rightarrow>
          AuditEnabled profile \<and>
          (case cr_ProviderAudit report of None \<Rightarrow> False | Some audit \<Rightarrow> pa_IdentityState audit = ProviderIdentityCompatible) \<and>
          AllowsProviderAudit profile (pc_StepKind call) (cr_ProviderAudit report) \<and> pc_ReportRecordedAt call \<noteq> None \<and>
          pc_ObservedAt call \<noteq> None \<and> pc_Usage call \<noteq> None \<and> cr_Usage report \<noteq> None \<and> pc_Usage call = cr_Usage report \<and>
          checkAuditObservation cfg call profile
            \<lparr>oc_Lease = zeroLease, oc_Step = zeroStep, oc_PhysicalCallID = pc_PhysicalCallID call, oc_TransportOutcome = transport,
             oc_HTTPStatus = status, oc_ErrorCode = code, oc_BusinessOutcome = business, oc_UsageKnown = (pc_Status call = ''known''),
             oc_Usage = cr_Usage report, oc_AuditHash = (case cr_ProviderAudit report of None \<Rightarrow> '''' | Some a \<Rightarrow> pa_AuditHash a)\<rparr> = Inr h
      | _ \<Rightarrow> False)"
text \<open>The persisted evidence of a step: its call, observed with the outcome the result claims, and the whole tool sequence.\<close>

definition sequenceComplete :: "callRow list \<Rightarrow> Subcall list \<Rightarrow> string \<Rightarrow> bool" where
  "sequenceComplete calls sequence lastID \<longleftrightarrow> sequencePosition calls sequence = Some [] \<and> calls \<noteq> [] \<and> pc_PhysicalCallID (last calls) = lastID"

definition validateCommitObservation :: "store_config \<Rightarrow> CommitStepRequest \<Rightarrow> StepResult \<Rightarrow> Profile \<Rightarrow> run_db \<Rightarrow> RunError + unit" where
  "validateCommitObservation cfg req result profile db =
     (let lease = cm_Lease req; step = cm_Step req in
      if st_Kind step = ''read_ticket'' \<or> st_Kind step = ''submit_proposal'' then Inr ()
      else case find_row (\<lambda>c. ls_TenantID (pc_Lease c) = ls_TenantID lease \<and> ls_RunID (pc_Lease c) = ls_RunID lease \<and>
          pc_PhysicalCallID c = sr_PhysicalCallID result) (physical_calls db) of
        None \<Rightarrow> Inl ErrNotFound
      | Some call \<Rightarrow>
        if pc_Lease call \<noteq> lease \<or> pc_StepID call \<noteq> st_ID step \<or> pc_StepKind call \<noteq> st_Kind step \<or>
           pc_ProfileHash call \<noteq> st_ProfileHash step \<or> pc_ObservationHash call = None \<or> pc_TransportOutcome call \<noteq> Some ''response'' \<or>
           pc_ToolInvocationID call \<noteq> sr_ToolInvocationID result \<or>
           pc_BusinessOutcome call \<noteq> Some (if sr_CorrectionRequired result then ''rejected'' else ''accepted'') then Inl ErrCallConflict
        else if AuditEnabled profile \<and>
           (ExecutionBindingHash (cfg_parseUUID cfg) (cfg_sha cfg) lease step \<noteq> Inr (pc_ExecutionBindingHash call) \<or>
            (pc_Subcall call = SubcallChat \<and> \<not> persistedChatObservation cfg call profile)) then Inl ErrCallConflict
        else if ToolSequence (st_Kind step) = [] then ensureE (pc_Subcall call = SubcallChat) ErrCallConflict
        else case readTool (sr_ToolInvocationID result) db of
          None \<Rightarrow> Inl ErrNotFound
        | Some tool \<Rightarrow>
          if \<not> toolMatches tool \<lparr>bg_Lease = lease, bg_Step = step, bg_ToolInvocationID = sr_ToolInvocationID result\<rparr> then Inl ErrCallConflict
          else ensureE (sequenceComplete (toolCalls lease (sr_ToolInvocationID result) db) (ToolSequence (st_Kind step)) (sr_PhysicalCallID result))
            ErrCallConflict)"

text \<open>The result columns of the Run and, for a proposal, its pending approval.\<close>

definition setResult :: "Run \<Rightarrow> string \<times> string \<Rightarrow> run_db \<Rightarrow> run_db" where
  "setResult r result db = (let key = (run_TenantID r, run_ID r) in
     db\<lparr>run_results := (key, result) # filter (\<lambda>x. fst x \<noteq> key) (run_results db)\<rparr>)"

definition newApproval :: "store_config \<Rightarrow> Run \<Rightarrow> CommitDecision \<Rightarrow> time \<Rightarrow> ApprovalRow" where
  "newApproval cfg r decision now = \<lparr>av_tenant = run_TenantID r, av_run = run_ID r, av_Status = ''pending'',
     av_ProposalHash = Fingerprint (cfg_sha cfg) ''jobforge.run.proposal.v1'' [case cd_Proposal decision of None \<Rightarrow> ''null'' | Some p \<Rightarrow> pp_JSON p],
     av_ProposalRef = the (run_ProposalRef r), av_SnapshotID = run_SnapshotID r, av_SnapshotHash = run_SnapshotHash r,
     av_PermissionExpiresAt = run_PermissionExpiresAt r, av_ApprovalID = None, av_ActorID = None, av_DecidedAt = None, av_CreatedAt = now\<rparr>"

definition saveProposalResult :: "store_config \<Rightarrow> Run \<Rightarrow> CommitDecision \<Rightarrow> string \<Rightarrow> time \<Rightarrow> run_db \<Rightarrow> RunError + run_db" where
  "saveProposalResult cfg r decision stepRef now db =
     (if run_State r = AwaitingApproval then
        (if list_ex (\<lambda>v. av_tenant v = run_TenantID r \<and> av_run v = run_ID r) (run_approvals db) then Inl ErrConflict
         else Inr (setResult r (''proposal'', the (run_ProposalRef r)) (db\<lparr>run_approvals := run_approvals db @ [newApproval cfg r decision now]\<rparr>)))
      else Inr (setResult r (''no_action'', stepRef) db))"

definition newStep :: "CommitStepRequest \<Rightarrow> Run \<Rightarrow> string \<Rightarrow> time \<Rightarrow> StepRow" where
  "newStep req r output now = \<lparr>sr_tenant = run_TenantID r, sr_run = run_ID r, sr_attempt = ls_AttemptNo (cm_Lease req),
     sr_ID = st_ID (cm_Step req), sr_Sequence = st_Sequence (cm_Step req), sr_Kind = st_Kind (cm_Step req),
     sr_InputHash = st_InputHash (cm_Step req), sr_ProfileHash = st_ProfileHash (cm_Step req), sr_SnapshotHash = st_SnapshotHash (cm_Step req),
     sr_CommitHash = cm_CommitHash req, sr_OutputRef = StepReference (run_ID r) (st_Sequence (cm_Step req)), sr_Output = Some output,
     sr_CursorVersion = run_CursorVersion r, sr_CreatedAt = now\<rparr>"

definition insertStep :: "CommitStepRequest \<Rightarrow> Run \<Rightarrow> string \<Rightarrow> time \<Rightarrow> run_db \<Rightarrow> RunError + run_db" where
  "insertStep req r output now db =
     (if list_ex (\<lambda>s. stepKey r s \<and> (sr_Sequence s = st_Sequence (cm_Step req) \<or> sr_ID s = st_ID (cm_Step req))) (run_steps db)
      then Inl ErrConflict
      else Inr (db\<lparr>run_steps := run_steps db @ [newStep req r output now]\<rparr>))"

text \<open>The end of a commit: the step row, the closed attempt of a final step, the event and the save.\<close>

definition closeCommit ::
    "store_config \<Rightarrow> CommitDecision \<Rightarrow> attemptResources option \<Rightarrow> string \<Rightarrow> time \<Rightarrow> Run \<Rightarrow> Authority \<Rightarrow> run_db \<Rightarrow> RunError + (Run \<times> Authority \<times> run_db)" where
  "closeCommit cfg decision resources ref now r a db =
     (if cd_CloseAttempt decision then
        bindE (saveProposalResult cfg r decision ref now db) (\<lambda>db1.
        case resources of
          None \<Rightarrow> Inl ErrStaleLease
        | Some res \<Rightarrow> closeAttemptRecords r a res (if run_State r = AwaitingApproval then ''yielded_approval'' else ''succeeded'') now db1)
      else Inr (r, a, db))"

definition applyStep ::
    "store_config \<Rightarrow> CommitStepRequest \<Rightarrow> CommitDecision \<Rightarrow> attemptResources option \<Rightarrow> string \<Rightarrow> time \<Rightarrow> time \<Rightarrow> Run \<Rightarrow> Authority \<Rightarrow> run_db \<Rightarrow>
     RunError + (CommitStepResponse \<times> run_db)" where
  "applyStep cfg req decision resources nextID now clk r a db =
     bindE (ApplyCommit cfg r a req decision nextID now) (\<lambda>(r1, a1).
     let ref = StepReference (run_ID r1) (st_Sequence (cm_Step req)) in
     bindE (insertStep req r1 (cd_CanonicalJSON decision) now db) (\<lambda>db1.
     bindE (closeCommit cfg decision resources ref now r1 a1 db1) (\<lambda>(r2, a2, db2).
     bindE (appendEvent r2 a2 ''step_committed'' now db2) (\<lambda>(a3, db3).
       Inr (commitResponse r2 a3 \<lparr>as_Identity = cm_Step req, as_CommitHash = cm_CommitHash req,
           as_ResultJSON = cd_CanonicalJSON decision, as_ResultRef = ref\<rparr> (cd_CloseAttempt decision), saveRun clk r2 a3 db3)))))"

text \<open>
  A new step of the locked Run. A final decision (\<open>CloseAttempt\<close>) only comes from a step
  \<open>submit_proposal\<close>, the kind for which the resources were locked; without them the closing of
  the zero resources is refused as a stale lease.
\<close>

definition commitNew ::
    "store_config \<Rightarrow> 'c commit_checks \<Rightarrow> string \<Rightarrow> CommitStepRequest \<Rightarrow> bool \<Rightarrow> string \<Rightarrow> time \<Rightarrow> time \<Rightarrow> Profile \<Rightarrow>
     attemptResources option \<Rightarrow> Run \<Rightarrow> Authority \<Rightarrow> run_db \<Rightarrow> RunError + (CommitStepResponse \<times> run_db)" where
  "commitNew cfg cc caller req requireProposal nextID now clk profile resources r a db =
     bindE (CheckStep (cfg_parseUUID cfg) r a (cm_Step req)) (\<lambda>_.
     if au_ActiveCallID a \<noteq> None then Inl ErrCallConflict
     else if (case map_of (cfg_profiles cfg) (run_ProfileID r) of None \<Rightarrow> True
         | Some registered \<Rightarrow> \<not> pf_Executable registered \<or> pf_Hash registered \<noteq> pf_Hash profile) then Inl ErrProfileUnavailable
     else bindE (cc_loadCheckpoint cc db r a) (\<lambda>checkpoint.
     bindE (cc_DecideCommit cc profile checkpoint req) (\<lambda>decision.
     if requireProposal \<and> (\<not> cd_CloseAttempt decision \<or> (case cd_Proposal decision of None \<Rightarrow> True | Some p \<Rightarrow> pp_Decision p \<noteq> ''proposal''))
     then Inl ErrInvalidTransition
     else bindE (validateCommitObservation cfg req (cd_Result decision) profile db) (\<lambda>_.
     bindE (checkSession cfg caller (ls_WorkerID (cm_Lease req)) (ls_SessionID (cm_Lease req)) (run_TenantID r) (run_ProfileID r) now True db) (\<lambda>_.
     applyStep cfg req decision resources nextID now clk r a db)))))"

definition commitStep ::
    "store_config \<Rightarrow> 'c commit_checks \<Rightarrow> string \<Rightarrow> CommitStepRequest \<Rightarrow> bool \<Rightarrow> string \<Rightarrow> time \<Rightarrow> time \<Rightarrow> time \<Rightarrow> run_db \<Rightarrow>
     RunError + (CommitStepResponse \<times> run_db)" where
  "commitStep cfg cc caller req requireProposal nextID now0 now clk db =
     (if \<not> validateLedgerLease cfg (cm_Lease req) \<or> \<not> ValidUUID (cfg_parseUUID cfg) (st_ID (cm_Step req)) \<or> \<not> ValidHash (cm_CommitHash req)
      then Inl ErrInvalidArgument
      else bindE (lockRun (ls_TenantID (cm_Lease req)) (ls_RunID (cm_Lease req)) db) (\<lambda>(r, a).
      bindE (ledgerProfile cfg r False db) (\<lambda>profile.
      bindE (if AuditEnabled profile then loadAccounts (run_TenantID r) (run_BusinessRequestID r) db else Inr []) (\<lambda>accounts.
      bindE (if st_Kind (cm_Step req) = ''submit_proposal'' then bindE (lockAttemptResources r a db) (\<lambda>res. Inr (Some res)) else Inr None) (\<lambda>resources.
      bindE (checkSession cfg caller (ls_WorkerID (cm_Lease req)) (ls_SessionID (cm_Lease req)) (run_TenantID r) '''' now0 True db) (\<lambda>_.
      bindE (CheckExecution r a (cm_Lease req) now0) (\<lambda>_.
      bindE (accountsUnfrozen accounts) (\<lambda>_.
      case readStep r (st_ID (cm_Step req)) db of
        Some prior \<Rightarrow> bindE (acknowledgeStep cfg cc req r a prior) (\<lambda>response. Inr (response, db))
      | None \<Rightarrow> commitNew cfg cc caller req requireProposal nextID now clk profile resources r a db))))))))"

definition CommitStep ::
    "store_config \<Rightarrow> 'c commit_checks \<Rightarrow> string \<Rightarrow> CommitStepRequest \<Rightarrow> string \<Rightarrow> time \<Rightarrow> time \<Rightarrow> time \<Rightarrow> run_db \<Rightarrow> RunError + (CommitStepResponse \<times> run_db)" where
  "CommitStep cfg cc caller req nextID now0 now clk db = commitStep cfg cc caller req False nextID now0 now clk db"

definition StoreYieldForApproval ::
    "store_config \<Rightarrow> 'c commit_checks \<Rightarrow> string \<Rightarrow> CommitStepRequest \<Rightarrow> string \<Rightarrow> time \<Rightarrow> time \<Rightarrow> time \<Rightarrow> run_db \<Rightarrow> RunError + (CommitStepResponse \<times> run_db)" where
  "StoreYieldForApproval cfg cc caller req nextID now0 now clk db = commitStep cfg cc caller req True nextID now0 now clk db"

definition GetCheckpoint :: "store_config \<Rightarrow> (run_db \<Rightarrow> Run \<Rightarrow> Authority \<Rightarrow> RunError + 'c) \<Rightarrow> string \<Rightarrow> Lease \<Rightarrow> time \<Rightarrow> run_db \<Rightarrow> RunError + 'c" where
  "GetCheckpoint cfg loadCheckpoint caller lease now db =
     (if \<not> validateLedgerLease cfg lease then Inl ErrInvalidArgument
      else bindE (lockRun (ls_TenantID lease) (ls_RunID lease) db) (\<lambda>(r, a).
      bindE (checkSession cfg caller (ls_WorkerID lease) (ls_SessionID lease) (run_TenantID r) '''' now True db) (\<lambda>_.
      bindE (CheckExecution r a lease now) (\<lambda>_. loadCheckpoint db r a))))"

text \<open>\<open>GetAcceptedCommit\<close>: the answer is the step if it was accepted, the attempt's outcome and the state.\<close>

definition GetAcceptedCommit ::
    "store_config \<Rightarrow> string \<Rightarrow> Lease \<Rightarrow> string \<Rightarrow> time \<Rightarrow> run_db \<Rightarrow> RunError + (AcceptedStep option \<times> string \<times> State)" where
  "GetAcceptedCommit cfg caller lease stepID now db =
     (if \<not> validateLedgerLease cfg lease \<or> \<not> ValidUUID (cfg_parseUUID cfg) stepID then Inl ErrInvalidArgument
      else bindE (lockRun (ls_TenantID lease) (ls_RunID lease) db) (\<lambda>(r, _).
      bindE (checkSession cfg caller (ls_WorkerID lease) (ls_SessionID lease) (run_TenantID r) '''' now False db) (\<lambda>_.
      case find_row (\<lambda>x. ra_tenant x = ls_TenantID lease \<and> ra_run x = ls_RunID lease \<and> ra_no x = ls_AttemptNo lease) (run_attempts db) of
        None \<Rightarrow> Inl ErrNotFound
      | Some x \<Rightarrow>
        if ra_worker x \<noteq> ls_WorkerID lease \<or> ra_session x \<noteq> ls_SessionID lease \<or> ra_token x \<noteq> ls_FencingToken lease then Inl ErrStaleLease
        else let outcome = (case ra_outcome x of None \<Rightarrow> '''' | Some oc \<Rightarrow> oc) in
          (case find_row (\<lambda>s. stepKey r s \<and> sr_ID s = stepID \<and> sr_attempt s = ls_AttemptNo lease) (run_steps db) of
             None \<Rightarrow> Inr (None, outcome, run_State r)
           | Some s \<Rightarrow> (case sr_Output s of None \<Rightarrow> Inl ErrResultExpired
               | Some output \<Rightarrow> Inr (Some (acceptedStep r s output), outcome, run_State r))))))"

end
