(* ===== verification/RunCheckpointInv.thy ===== *)
theory RunCheckpointInv
  imports RunCheckpoint
begin

text \<open>
  Step commits keep the invariants of the store, and the accepted steps of a Run are exactly the
  sequence one, two, up to its cursor, which is at most thirty-two.
\<close>

section \<open>The commit of a step\<close>

lemma CheckStep_sequence:
  "CheckStep parseUUID r a step = Inr () \<Longrightarrow> st_Sequence step = run_CursorVersion r + 1 \<and> st_CursorVersion step = run_CursorVersion r \<and>
     st_ID step = au_NextStepID a \<and> st_Kind step = au_NextStepKind a \<and> st_InputHash step = au_NextInputHash a \<and>
     st_ProfileID step = run_ProfileID r \<and> st_ProfileHash step = run_ProfileHash r \<and> st_SnapshotID step = run_SnapshotID r \<and>
     st_SnapshotHash step = run_SnapshotHash r \<and> run_CursorVersion r < 32"
  by (auto simp: CheckStep_def split: if_splits)

lemma YieldForApproval_effect:
  "YieldForApproval r now = Inr r' \<Longrightarrow> \<exists>e ref. r' = r\<lparr>run_State := AwaitingApproval, run_PermissionExpiresAt := Some e,
     run_ProposalRef := Some ref, run_UpdatedAt := now\<rparr>"
  by (auto simp: YieldForApproval_def Let_def split: if_splits)

lemma ApplyCommit_effect:
  assumes "ApplyCommit cfg r a req decision nextID now = Inr (r1, a1)"
  shows "CheckExecution r a (cm_Lease req) now = Inr ()" "CheckStep (cfg_parseUUID cfg) r a (cm_Step req) = Inr ()" "same_row r r1"
    "run_CursorVersion r1 = run_CursorVersion r + 1" "au_WorkerID a1 = au_WorkerID a" "au_SessionID a1 = au_SessionID a"
    "au_FencingToken a1 = au_FencingToken a" "au_ActiveCallID a1 = None"
    "\<not> cd_CloseAttempt decision \<Longrightarrow> r1 = r\<lparr>run_CursorVersion := run_CursorVersion r + 1, run_UpdatedAt := now\<rparr>"
    "cd_CloseAttempt decision \<Longrightarrow> run_State r1 = AwaitingApproval \<or> run_State r1 = Succeeded"
    "run_ok r a \<Longrightarrow> cd_CloseAttempt decision \<Longrightarrow> run_ok (r1\<lparr>run_LeaseUntil := None, run_AttemptDeadline := None\<rparr>)
       (a1\<lparr>au_WorkerID := '''', au_SessionID := '''', au_ActiveCallID := None\<rparr>)"
    "run_ok r a \<Longrightarrow> \<not> cd_CloseAttempt decision \<Longrightarrow> run_ok r1 a1"
proof -
  from assms show exec: "CheckExecution r a (cm_Lease req) now = Inr ()" and "CheckStep (cfg_parseUUID cfg) r a (cm_Step req) = Inr ()"
    unfolding ApplyCommit_def by (auto simp: result_simps)
  have run: "run_State r = Running" by (rule CheckExecution_running [OF exec])
  define r0 where "r0 = r\<lparr>run_CursorVersion := run_CursorVersion r + 1, run_UpdatedAt := now\<rparr>"
  from assms consider (go) "\<not> cd_CloseAttempt decision" "r1 = r0" "\<exists>b i k h. a1 = a\<lparr>au_CheckpointBytes := b, au_NextStepID := i, au_NextStepKind := k, au_NextInputHash := h\<rparr>"
    | (yield) b where "cd_CloseAttempt decision" "YieldForApproval r0 now = Inr r1" "a1 = a\<lparr>au_CheckpointBytes := b\<rparr>"
    | (finish) b where "cd_CloseAttempt decision" "r1 = r0\<lparr>run_State := Succeeded, run_Outcome := Some ''no_action''\<rparr>" "a1 = a\<lparr>au_CheckpointBytes := b\<rparr>"
    unfolding ApplyCommit_def Let_def r0_def
    by (cases "cd_CloseAttempt decision") (auto simp: result_simps split: if_splits option.splits)
  note c = this
  have none: "au_ActiveCallID a = None" using assms unfolding ApplyCommit_def Let_def by (auto simp: result_simps split: if_splits)
  show "same_row r r1" "run_CursorVersion r1 = run_CursorVersion r + 1" "au_WorkerID a1 = au_WorkerID a" "au_SessionID a1 = au_SessionID a"
    "au_FencingToken a1 = au_FencingToken a" "au_ActiveCallID a1 = None"
    by (cases rule: c; use none in \<open>auto simp: r0_def same_row_def dest!: YieldForApproval_effect\<close>)+
  show "r1 = r\<lparr>run_CursorVersion := run_CursorVersion r + 1, run_UpdatedAt := now\<rparr>" if "\<not> cd_CloseAttempt decision"
    by (cases rule: c) (use that in \<open>auto simp: r0_def\<close>)
  show "run_State r1 = AwaitingApproval \<or> run_State r1 = Succeeded" if "cd_CloseAttempt decision"
    by (cases rule: c) (use that in \<open>auto dest!: YieldForApproval_effect\<close>)
  show "run_ok (r1\<lparr>run_LeaseUntil := None, run_AttemptDeadline := None\<rparr>) (a1\<lparr>au_WorkerID := '''', au_SessionID := '''', au_ActiveCallID := None\<rparr>)"
    if "run_ok r a" "cd_CloseAttempt decision"
    by (cases rule: c) (use that run in \<open>auto simp: r0_def run_ok_def dest!: YieldForApproval_effect\<close>)
  show "run_ok r1 a1" if "run_ok r a" "\<not> cd_CloseAttempt decision"
    by (cases rule: c) (use that run in \<open>auto simp: r0_def run_ok_def\<close>)
qed
lemma insertStep_effect:
  assumes "insertStep req r output now db = Inr db'"
  shows "db' = db\<lparr>run_steps := run_steps db @ [newStep req r output now]\<rparr>"
    "\<forall>s \<in> set (run_steps db). stepKey r s \<longrightarrow> sr_Sequence s \<noteq> st_Sequence (cm_Step req) \<and> sr_ID s \<noteq> st_ID (cm_Step req)"
  using assms by (auto simp: insertStep_def list_ex_iff split: if_splits)

lemma saveProposalResult_frame:
  assumes "saveProposalResult cfg r decision ref now db = Inr db'"
  shows "db' = db\<lparr>run_results := run_results db', run_approvals := run_approvals db'\<rparr>"
  using assms by (auto simp: saveProposalResult_def setResult_def Let_def split: if_splits)

text \<open>An applied step: the Run goes on, or its attempt is closed.\<close>

lemma applyStep_cases:
  assumes "applyStep cfg req decision resources nextID now clk r a db = Inr (response, db')"
  obtains (advance) r1 a1 where "\<not> cd_CloseAttempt decision" "ApplyCommit cfg r a req decision nextID now = Inr (r1, a1)"
      "recordRun clk r1 a1 ''step_committed'' now (db\<lparr>run_steps := run_steps db @ [newStep req r1 (cd_CanonicalJSON decision) now]\<rparr>) = Inr db'"
      "insertStep req r1 (cd_CanonicalJSON decision) now db = Inr (db\<lparr>run_steps := run_steps db @ [newStep req r1 (cd_CanonicalJSON decision) now]\<rparr>)"
      "\<exists>n. response = commitResponse r1 (a1\<lparr>au_EventSequence := n\<rparr>) \<lparr>as_Identity = cm_Step req, as_CommitHash = cm_CommitHash req,
           as_ResultJSON = cd_CanonicalJSON decision, as_ResultRef = StepReference (run_ID r1) (st_Sequence (cm_Step req))\<rparr> False"
    | (close) r1 a1 r2 a2 res rs avs outcome db2 where "cd_CloseAttempt decision" "resources = Some res"
      "ApplyCommit cfg r a req decision nextID now = Inr (r1, a1)"
      "closeAttemptRecords r1 a1 res outcome now (db\<lparr>run_steps := run_steps db @ [newStep req r1 (cd_CanonicalJSON decision) now],
         run_results := rs, run_approvals := avs\<rparr>) = Inr (r2, a2, db2)"
      "recordRun clk r2 a2 ''step_committed'' now db2 = Inr db'"
      "insertStep req r1 (cd_CanonicalJSON decision) now db = Inr (db\<lparr>run_steps := run_steps db @ [newStep req r1 (cd_CanonicalJSON decision) now]\<rparr>)"
      "cp_AttemptClosed response"
proof -
  from assms obtain r1 a1 db1 r2 a2 db2 a3 db3 where app: "ApplyCommit cfg r a req decision nextID now = Inr (r1, a1)"
    and ins: "insertStep req r1 (cd_CanonicalJSON decision) now db = Inr db1"
    and cl: "closeCommit cfg decision resources (StepReference (run_ID r1) (st_Sequence (cm_Step req))) now r1 a1 db1 = Inr (r2, a2, db2)"
    and ev: "appendEvent r2 a2 ''step_committed'' now db2 = Inr (a3, db3)" and db': "db' = saveRun clk r2 a3 db3"
    and resp: "response = commitResponse r2 a3 \<lparr>as_Identity = cm_Step req, as_CommitHash = cm_CommitHash req,
           as_ResultJSON = cd_CanonicalJSON decision, as_ResultRef = StepReference (run_ID r1) (st_Sequence (cm_Step req))\<rparr> (cd_CloseAttempt decision)"
    unfolding applyStep_def Let_def by (auto simp: result_simps)
  have rec: "recordRun clk r2 a2 ''step_committed'' now db2 = Inr db'" using ev db' by (simp add: recordRun_def)
  note db1 = insertStep_effect(1) [OF ins]
  show thesis
  proof (cases "cd_CloseAttempt decision")
    case False
    with cl have "r2 = r1" "a2 = a1" "db2 = db1" by (simp_all add: closeCommit_def)
    moreover from appendEvent_effect [OF ev] obtain evs where "a3 = a2\<lparr>au_EventSequence := au_EventSequence a2 + 1\<rparr>" by blast
    ultimately show ?thesis using advance [OF False app] rec ins db1 resp False by auto
  next
    case True
    with cl obtain res db1' where sp: "saveProposalResult cfg r1 decision (StepReference (run_ID r1) (st_Sequence (cm_Step req))) now db1 = Inr db1'"
      and res: "resources = Some res" and rc: "closeAttemptRecords r1 a1 res (if run_State r1 = AwaitingApproval then ''yielded_approval'' else ''succeeded'') now db1' = Inr (r2, a2, db2)"
      by (auto simp: closeCommit_def result_simps split: option.splits)
    from saveProposalResult_frame [OF sp] obtain rs avs where "db1' = db1\<lparr>run_results := rs, run_approvals := avs\<rparr>" by blast
    with rc have rc': "closeAttemptRecords r1 a1 res (if run_State r1 = AwaitingApproval then ''yielded_approval'' else ''succeeded'') now
        (db\<lparr>run_steps := run_steps db @ [newStep req r1 (cd_CanonicalJSON decision) now], run_results := rs, run_approvals := avs\<rparr>) = Inr (r2, a2, db2)"
      by (simp add: db1)
    show ?thesis by (rule close [OF True res app rc' rec]) (use ins db1 resp True in \<open>simp_all add: commitResponse_def\<close>)
  qed
qed

lemma commitStep_cases:
  assumes "commitStep cfg cc caller req requireProposal nextID now0 now clk db = Inr (response, db')"
  obtains (replay) r a prior where "db' = db" "lockRun (ls_TenantID (cm_Lease req)) (ls_RunID (cm_Lease req)) db = Inr (r, a)"
      "readStep r (st_ID (cm_Step req)) db = Some prior" "acknowledgeStep cfg cc req r a prior = Inr response"
    | (new) r a decision resources where "lockRun (ls_TenantID (cm_Lease req)) (ls_RunID (cm_Lease req)) db = Inr (r, a)"
      "CheckExecution r a (cm_Lease req) now0 = Inr ()" "readStep r (st_ID (cm_Step req)) db = None"
      "resources = None \<or> (\<exists>res. lockAttemptResources r a db = Inr res \<and> resources = Some res)"
      "applyStep cfg req decision resources nextID now clk r a db = Inr (response, db')"
proof -
  from assms obtain r a profile resources where lock: "lockRun (ls_TenantID (cm_Lease req)) (ls_RunID (cm_Lease req)) db = Inr (r, a)"
    and exec: "CheckExecution r a (cm_Lease req) now0 = Inr ()"
    and res: "(if st_Kind (cm_Step req) = ''submit_proposal'' then bindE (lockAttemptResources r a db) (\<lambda>res. Inr (Some res)) else Inr None) = Inr resources"
    and rest: "(case readStep r (st_ID (cm_Step req)) db of
        Some prior \<Rightarrow> bindE (acknowledgeStep cfg cc req r a prior) (\<lambda>response. Inr (response, db))
      | None \<Rightarrow> commitNew cfg cc caller req requireProposal nextID now clk profile resources r a db) = Inr (response, db')"
    unfolding commitStep_def by (auto simp: if_Inl_eq_Inr bindE_Inr_iff)
  show thesis
  proof (cases "readStep r (st_ID (cm_Step req)) db")
    case None
    with rest obtain decision where "applyStep cfg req decision resources nextID now clk r a db = Inr (response, db')"
      by (auto simp: commitNew_def result_simps)
    moreover have "resources = None \<or> (\<exists>res. lockAttemptResources r a db = Inr res \<and> resources = Some res)"
      using res by (auto simp: result_simps split: if_splits)
    ultimately show ?thesis using new [OF lock exec None] by blast
  next
    case (Some prior)
    with rest show ?thesis by (intro replay [OF _ lock Some]) (auto simp: result_simps)
  qed
qed

section \<open>The commit keeps the invariants\<close>

lemma inv_steps: "lifecycle_inv db \<Longrightarrow> lifecycle_inv (db\<lparr>run_steps := st, run_results := rs, run_approvals := avs\<rparr>)"
  by (rule inv_frame_eq) simp_all

lemma resources_frame:
  "resources_of r a db res \<Longrightarrow> execution_slots db' = execution_slots db \<Longrightarrow> resources_of r a db' res"
  by (simp add: resources_of_def)

lemma CheckExecution_active: "CheckExecution r a lease now = Inr () \<Longrightarrow> active (run_State r)"
  using CheckExecution_running by fastforce

lemma applyStep_lifecycle:
  assumes inv: "lifecycle_inv db" and x: "(r, a) \<in> set (runs db)"
    and res: "resources = None \<or> (\<exists>res. lockAttemptResources r a db = Inr res \<and> resources = Some res)"
    and app: "applyStep cfg req decision resources nextID now clk r a db = Inr (response, db')"
  shows "lifecycle_inv db'"
  using app
proof (cases rule: applyStep_cases)
  case (advance r1 a1)
  define db1 where "db1 = db\<lparr>run_steps := run_steps db @ [newStep req r1 (cd_CanonicalJSON decision) now]\<rparr>"
  note e = ApplyCommit_effect [OF advance(2)]
  have inv1: "lifecycle_inv db1" unfolding db1_def by (rule inv_frame_eq [OF inv]) simp_all
  from recordRun_effect [OF advance(3)] obtain n evs where
    db': "db' = db1\<lparr>runs := putRun (stamped clk r1, a1\<lparr>au_EventSequence := n\<rparr>) (runs db1), run_events := evs\<rparr>" unfolding db1_def by blast
  show ?thesis
    by (rule save_row_inv [OF inv1, of r a "stamped clk r1" "a1\<lparr>au_EventSequence := n\<rparr>"])
      (use x e advance(1) inv_parts(4) [OF inv x] db' in \<open>auto simp: db1_def same_row_def run_ok_stamped\<close>)
next
  case (close r1 a1 r2 a2 res rs avs outcome db2)
  define db1 where "db1 = db\<lparr>run_steps := run_steps db @ [newStep req r1 (cd_CanonicalJSON decision) now], run_results := rs, run_approvals := avs\<rparr>"
  note e = ApplyCommit_effect [OF close(3)]
  have inv1: "lifecycle_inv db1" unfolding db1_def by (rule inv_steps [OF inv])
  have x1: "(r, a) \<in> set (runs db1)" using x by (simp add: db1_def)
  have "lockAttemptResources r a db = Inr res" using assms(3) close(2) by auto
  from lockAttemptResources_effect [OF this inv_parts(2) [OF inv]] have res1: "resources_of r a db1 res"
    by (rule resources_frame) (simp add: db1_def)
  have no: "run_AttemptNo r1 = run_AttemptNo r" using e(3) by (simp add: same_row_def)
  note ce = closeAttemptRecords_effect(1,2) [OF close(4) [folded db1_def] inv_parts(2) [OF inv1] res1 no]
  have "run_ok r2 a2" using e(11) inv_parts(4) [OF inv x] close(1) by (simp add: ce)
  moreover have "\<not> active (run_State r1)" using e(10) [OF close(1)] by auto
  ultimately show ?thesis
    by (intro close_records_inv [OF inv1 x1 CheckExecution_active [OF e(1)] e(3) _ res1 close(4) [folded db1_def] _ close(5)])
qed

section \<open>Cursor and steps\<close>

text \<open>The sequence numbers of a Run's accepted steps, in the order they were accepted.\<close>

definition stepsOf :: "StepRow list \<Rightarrow> string \<times> string \<Rightarrow> int list" where
  "stepsOf steps k = map sr_Sequence (filter (\<lambda>s. (sr_tenant s, sr_run s) = k) steps)"

definition cursor_ok :: "StepRow list \<Rightarrow> runIdentity \<times> int \<Rightarrow> bool" where
  "cursor_ok steps x \<longleftrightarrow> 0 \<le> snd x \<and> snd x \<le> 32 \<and> stepsOf steps (fst (fst x)) = [1..snd x]"

definition steps_inv :: "run_db \<Rightarrow> bool" where
  "steps_inv db \<longleftrightarrow> (\<forall>x \<in> set (map runcore (runs db)). cursor_ok (run_steps db) x) \<and>
     (\<forall>s \<in> set (run_steps db). (sr_tenant s, sr_run s) \<in> (\<lambda>x. fst (fst x)) ` set (map runcore (runs db)))"

lemma steps_frame: "steps_inv db \<Longrightarrow> steps_same db db' \<Longrightarrow> steps_inv db'"
  by (simp add: steps_inv_def steps_same_def)

lemma quiet_steps: "steps_inv db \<Longrightarrow> quiet db db' \<Longrightarrow> steps_inv db'"
  using steps_frame unfolding quiet_def by blast

lemma runcore_key: "fst (fst (runcore x)) = rkey x" "snd (runcore x) = run_CursorVersion (fst x)"
  by (simp_all add: runcore_def bizkey_def)

text \<open>A commit appends the next step of one Run and moves its cursor there.\<close>

lemma commit_steps:
  assumes inv: "steps_inv db" and keys: "distinct (map rkey (runs db))" and x: "(r, a) \<in> set (runs db)"
    and run: "same_row r r'" "run_CursorVersion r' = run_CursorVersion r + 1" "run_CursorVersion r < 32"
    and step: "(sr_tenant s, sr_run s) = rkey (r, a)" "sr_Sequence s = run_CursorVersion r + 1"
    and db': "runs db' = putRun (r', a') (runs db)" "run_steps db' = run_steps db @ [s]"
  shows "steps_inv db'"
proof -
  have key: "rkey (r', a') = rkey (r, a)" using run(1) by (rule same_row_key)
  have old: "cursor_ok (run_steps db) (runcore y)" if "y \<in> set (runs db)" for y using inv that by (auto simp: steps_inv_def)
  have one: "y = (r', a') \<or> (y \<in> set (runs db) \<and> rkey y \<noteq> rkey (r, a))" if "y \<in> set (runs db')" for y
    using that set_putRun [OF x, of "(r', a')"] key by (auto simp: db')
  have "cursor_ok (run_steps db') (runcore y)" if y: "y \<in> set (runs db')" for y
  proof (cases "y = (r', a')")
    case True
    have "[1..run_CursorVersion r + 1] = [1..run_CursorVersion r] @ [run_CursorVersion r + 1]"
      by (rule upto_rec2 [of 1 "run_CursorVersion r + 1", simplified]) (use old [OF x] in \<open>simp add: cursor_ok_def runcore_key\<close>)
    with True old [OF x] run(2,3) step key show ?thesis by (simp add: cursor_ok_def runcore_key stepsOf_def db'(2))
  next
    case False
    with one [OF y] have "y \<in> set (runs db)" "rkey y \<noteq> rkey (r, a)" by auto
    with old [of y] step(1) show ?thesis by (auto simp: cursor_ok_def runcore_key stepsOf_def db'(2))
  qed
  moreover have "rkey ` set (runs db') = rkey ` set (runs db)" using arg_cong [OF putRun_keys [of "(r', a')" "runs db"], of set] by (simp only: set_map db'(1))
  moreover have "rkey (r, a) \<in> rkey ` set (runs db)" using x by simp
  ultimately show ?thesis using inv step(1) unfolding steps_inv_def
    by (simp add: db'(2) image_image runcore_key image_iff) 
qed

lemma calm_trans:
  assumes "calm db db1" "calm db1 db2"
  shows "calm db db2"
proof -
  have "list_all2 same_hold (physical_calls db) (physical_calls db2)"
    by (rule list_all2_trans [where bs = "physical_calls db1" and ?P1.0 = same_hold and ?P2.0 = same_hold])
      (use assms in \<open>auto simp: calm_def same_hold_def\<close>)
  moreover have "list_all2 same_funds (budget_accounts db) (budget_accounts db2)"
    by (rule list_all2_trans [where bs = "budget_accounts db1" and ?P1.0 = same_funds and ?P2.0 = same_funds])
      (use assms in \<open>auto simp: calm_def same_funds_def\<close>)
  ultimately show ?thesis using assms by (simp add: calm_def)
qed

lemma putRun_biz:
  assumes "distinct (map rkey rows)" "x \<in> set rows" "bizkey y = bizkey x"
  shows "map bizkey (putRun y rows) = map bizkey rows"
proof -
  have "z = x" if "z \<in> set rows" "rkey z = rkey y" for z
    using that assms by (metis bizkey_def distinct_map fst_conv inj_onD)
  then show ?thesis using assms(3) by (simp add: putRun_def update_where_def)
qed

lemma same_row_biz: "same_row r r' \<Longrightarrow> bizkey (r', a') = bizkey (r, a)"
  by (simp add: same_row_def bizkey_def rkey_def)

lemma calm_record:
  assumes "distinct (map rkey (runs db))" "(r, a) \<in> set (runs db)" "same_row r r'" "recordRun clk r' a' kind now db = Inr db'"
  shows "calm db db'"
proof -
  from recordRun_effect [OF assms(4)] obtain n evs where
    db': "db' = db\<lparr>runs := putRun (stamped clk r', a'\<lparr>au_EventSequence := n\<rparr>) (runs db), run_events := evs\<rparr>" by blast
  have "bizkey (stamped clk r', a'\<lparr>au_EventSequence := n\<rparr>) = bizkey (r, a)"
    by (rule same_row_biz) (use assms(3) in \<open>simp add: same_row_def\<close>)
  from putRun_biz [OF assms(1,2) this] show ?thesis by (simp add: calm_def db' list_all2_refl)
qed

lemma closeAttemptRecords_calm:
  assumes "closeAttemptRecords r a res outcome now db = Inr (r', a', db')"
  shows "calm db db'" "runs db' = runs db" "run_steps db' = run_steps db" "r' = r\<lparr>run_LeaseUntil := None, run_AttemptDeadline := None\<rparr>"
    "a' = a\<lparr>au_WorkerID := '''', au_SessionID := '''', au_ActiveCallID := None\<rparr>"
proof -
  from assms obtain ats where save: "saveSlots (ar_Slots res) (- 1) ((markCalls r res db)\<lparr>run_attempts := ats\<rparr>) = Inr db'"
    and r': "r' = r\<lparr>run_LeaseUntil := None, run_AttemptDeadline := None\<rparr>" "a' = a\<lparr>au_WorkerID := '''', au_SessionID := '''', au_ActiveCallID := None\<rparr>"
    by (auto simp: closeAttemptRecords_def Let_def result_simps split: if_splits)
  from saveSlots_frame [OF save] obtain sl where db': "db' = (markCalls r res db)\<lparr>run_attempts := ats, execution_slots := sl\<rparr>" by simp
  have "run_steps (markCalls r res db) = run_steps db" by (simp add: markCalls_def Let_def split: option.split)
  then show "calm db db'" "runs db' = runs db" "run_steps db' = run_steps db" "r' = r\<lparr>run_LeaseUntil := None, run_AttemptDeadline := None\<rparr>"
    "a' = a\<lparr>au_WorkerID := '''', au_SessionID := '''', au_ActiveCallID := None\<rparr>"
    using quiet_calm [OF quiet_markCalls [of db r res]] r' by (simp_all add: db' calm_def)
qed

lemma applyStep_core:
  assumes keys: "distinct (map rkey (runs db))" and x: "(r, a) \<in> set (runs db)"
    and app: "applyStep cfg req decision resources nextID now clk r a db = Inr (response, db')"
  shows "calm db db'" "steps_inv db \<Longrightarrow> steps_inv db'"
    "\<exists>r' a'. runs db' = putRun (r', a') (runs db) \<and> same_row r r' \<and> run_CursorVersion r' = run_CursorVersion r + 1 \<and> au_FencingToken a' = au_FencingToken a"
proof -
  from app obtain r1 a1 r2 a2 db1 where ap: "ApplyCommit cfg r a req decision nextID now = Inr (r1, a1)"
    and r2: "same_row r1 r2" "run_CursorVersion r2 = run_CursorVersion r1" "au_FencingToken a2 = au_FencingToken a1"
    and db1: "calm db db1" "runs db1 = runs db" "run_steps db1 = run_steps db @ [newStep req r1 (cd_CanonicalJSON decision) now]"
    and rec: "recordRun clk r2 a2 ''step_committed'' now db1 = Inr db'"
  proof (cases rule: applyStep_cases)
    case (advance r1 a1)
    show ?thesis by (rule that [OF advance(2) _ _ _ _ _ _ advance(3)]) (auto simp: same_row_def calm_def list_all2_refl)
  next
    case (close r1 a1 r2 a2 res rs avs outcome db2)
    note c = closeAttemptRecords_calm [OF close(4)]
    show ?thesis by (rule that [OF close(3) _ _ _ _ _ _ close(5)]) (use c in \<open>auto simp: same_row_def calm_def\<close>)
  qed
  note e = ApplyCommit_effect [OF ap] and q = CheckStep_sequence [OF ApplyCommit_effect(2) [OF ap]]
  have same: "same_row r r2" using e(3) r2(1) by (simp add: same_row_def)
  have "calm db1 db'" by (rule calm_record [OF _ _ same rec]) (use keys x db1(2) in simp_all)
  with db1(1) show "calm db db'" by (rule calm_trans)
  from recordRun_effect [OF rec] obtain n evs where
    db': "db' = db1\<lparr>runs := putRun (stamped clk r2, a2\<lparr>au_EventSequence := n\<rparr>) (runs db1), run_events := evs\<rparr>" by blast
  have same': "same_row r (stamped clk r2)" using same by (simp add: same_row_def)
  then show "\<exists>r' a'. runs db' = putRun (r', a') (runs db) \<and> same_row r r' \<and> run_CursorVersion r' = run_CursorVersion r + 1 \<and> au_FencingToken a' = au_FencingToken a"
    using e(4,7) r2(2,3) db' db1(2) by (intro exI [of _ "stamped clk r2"] exI [of _ "a2\<lparr>au_EventSequence := n\<rparr>"]) simp
  show "steps_inv db'" if "steps_inv db"
    by (rule commit_steps [OF that keys x same', where s = "newStep req r1 (cd_CanonicalJSON decision) now" and a' = "a2\<lparr>au_EventSequence := n\<rparr>"])
      (use e(3,4) r2(2) q db' db1(2,3) in \<open>auto simp: newStep_def rkey_def same_row_def\<close>)
qed

lemma commitStep_system:
  assumes inv: "system_inv db" "steps_inv db" and commit: "commitStep cfg cc caller req requireProposal nextID now0 now clk db = Inr (response, db')"
  shows "system_inv db' \<and> steps_inv db'"
  using commit
proof (cases rule: commitStep_cases)
  case (new r a decision resources)
  have x: "(r, a) \<in> set (runs db)" by (rule conjunct1 [OF lockRun_mem [OF new(1)]])
  have li: "lifecycle_inv db" using inv(1) by (simp add: system_inv_def)
  note core = applyStep_core [OF inv_parts(1) [OF li] x new(5)]
  show ?thesis using calm_system [OF inv(1) applyStep_lifecycle [OF li x new(4,5)] core(1)] core(2) inv(2) by blast
qed (use inv in simp)

end
