(* ===== verification/BusinessContract.thy ===== *)
theory BusinessContract
  imports RunBudget
begin

text \<open>
  The contract of business actions (\<open>internal/business/action_contract.go\<close>, \<open>version_vector.go\<close>,
  the data of \<open>contracts.go\<close>): the facts of a tenant, the immutable snapshot and its version
  vector, the signed authorization of a ticket resolution, and the receipt of its execution.

  Standard functions that the code calls are fields of \<open>business_env\<close>: SHA-256 in hexadecimal,
  the parser of UUIDs, the canonical JSON text of each value the code marshals (\<open>actionJSON\<close> or
  \<open>json.Marshal\<close>), Ed25519 with its base64 transport encoding, and the decoding of the claims, which
  are protected JSON in the code too.
\<close>

section \<open>Errors\<close>

datatype BusinessError = BizInvalidArgument | BizNotFound | BizConflict | BizProfileUnavailable | BizDependencyUnavailable | BizInternal
  | BizActionConflict | BizAuthorizationExpired | BizActionForbidden

section \<open>Facts and snapshots\<close>

record Ticket =
  tk_TenantID :: string
  tk_TicketID :: string
  tk_Revision :: int
  tk_ObservedAt :: time
  tk_OrderID :: "string option"
  tk_PolicyVersion :: string
  tk_Subject :: string
  tk_Description :: string
  tk_Status :: string

record Order =
  or_TenantID :: string
  or_OrderID :: string
  or_Revision :: int
  or_DeliveryID :: "string option"
  or_Status :: string
  or_OrderedAt :: time
  or_PromisedDeliveryAt :: time

record DeliveryEvent =
  de_EventID :: string
  de_OccurredAt :: time
  de_Status :: string
  de_Note :: string

record Delivery =
  dl_TenantID :: string
  dl_DeliveryID :: string
  dl_OrderID :: string
  dl_AggregateRevision :: int
  dl_Status :: string
  dl_Events :: "DeliveryEvent list"

record PolicyVersion =
  pv_TenantID :: string
  pv_PolicyVersion :: string
  pv_Revision :: int
  pv_CorpusSHA256 :: string

record IndexProfile =
  ip_PolicyVersion :: string
  ip_CorpusSHA256 :: string
  ip_ChunkerVersion :: string
  ip_EmbeddingModel :: string
  ip_EmbeddingDigest :: string
  ip_Dimensions :: int

record PublishedIndex =
  ix_ID :: string
  ix_TenantID :: string
  ix_ProfileHash :: string
  ix_ContentHash :: string
  ix_Profile :: IndexProfile
  ix_PublishedAt :: time

record Snapshot =
  sn_ID :: string
  sn_TenantID :: string
  sn_SchemaVersion :: int
  sn_AsOf :: time
  sn_CreatedAt :: time
  sn_ContentHash :: string
  sn_Ticket :: Ticket
  sn_Order :: "Order option"
  sn_Delivery :: "Delivery option"
  sn_Policy :: PolicyVersion
  sn_Index :: PublishedIndex

text \<open>The version vector, with the expected identifiers of missing rows.\<close>

record VersionVector =
  vv_SchemaVersion :: int
  vv_TicketID :: string
  vv_TicketRevision :: int
  vv_OrderID :: "string option"
  vv_OrderExists :: bool
  vv_OrderRevision :: "int option"
  vv_DeliveryID :: "string option"
  vv_DeliveryExists :: bool
  vv_AggregateRevision :: "int option"
  vv_PolicyVersion :: string
  vv_PolicyRevision :: int
  vv_CorpusSHA256 :: string
  vv_IndexID :: string
  vv_ProfileHash :: string
  vv_ContentHash :: string

definition snapshotVector :: "Ticket \<Rightarrow> Order option \<Rightarrow> Delivery option \<Rightarrow> PolicyVersion \<Rightarrow> string \<times> string \<times> string \<Rightarrow> VersionVector" where
  "snapshotVector t o' d p index =
     (let base = \<lparr>vv_SchemaVersion = 1, vv_TicketID = tk_TicketID t, vv_TicketRevision = tk_Revision t,
        vv_OrderID = None, vv_OrderExists = False, vv_OrderRevision = None, vv_DeliveryID = None, vv_DeliveryExists = False,
        vv_AggregateRevision = None, vv_PolicyVersion = pv_PolicyVersion p, vv_PolicyRevision = pv_Revision p,
        vv_CorpusSHA256 = pv_CorpusSHA256 p, vv_IndexID = fst index, vv_ProfileHash = fst (snd index), vv_ContentHash = snd (snd index)\<rparr> in
      case tk_OrderID t of
        None \<Rightarrow> base
      | Some i \<Rightarrow>
        (let withOrder = base\<lparr>vv_OrderID := Some i\<rparr> in
         case o' of
           None \<Rightarrow> withOrder
         | Some od \<Rightarrow>
           (let present = withOrder\<lparr>vv_OrderExists := True, vv_OrderRevision := Some (or_Revision od)\<rparr> in
            case or_DeliveryID od of
              None \<Rightarrow> present
            | Some j \<Rightarrow>
              (case d of
                 None \<Rightarrow> present\<lparr>vv_DeliveryID := Some j\<rparr>
               | Some dl \<Rightarrow> present\<lparr>vv_DeliveryID := Some j, vv_DeliveryExists := True, vv_AggregateRevision := Some (dl_AggregateRevision dl)\<rparr>))))"

definition SnapshotVersionVector :: "Snapshot \<Rightarrow> VersionVector" where
  "SnapshotVersionVector s = snapshotVector (sn_Ticket s) (sn_Order s) (sn_Delivery s) (sn_Policy s)
     (ix_ID (sn_Index s), ix_ProfileHash (sn_Index s), ix_ContentHash (sn_Index s))"

section \<open>Actions and receipts\<close>

record ResolutionParameters =
  rp_TicketID :: string
  rp_Decision :: string
  rp_Action :: string
  rp_Conclusion :: string
  rp_RequestedFields :: "string list option"
  rp_TargetTicketStatus :: string
  rp_Summary :: string
  rp_Claims :: string
  rp_EvidenceRefs :: "string list option"

record ActionAuthorization =
  aa_SchemaVersion :: int
  aa_KeyID :: string
  aa_Operation :: string
  aa_TenantID :: string
  aa_BusinessRequestID :: string
  aa_BusinessRequestCreatedAt :: int
  aa_OperationID :: string
  aa_RunID :: string
  aa_ApprovalID :: string
  aa_ActorID :: string
  aa_DecidedAt :: int
  aa_ProposalHash :: string
  aa_ParametersHash :: string
  aa_SnapshotID :: string
  aa_SnapshotHash :: string
  aa_VersionVector :: VersionVector
  aa_AuthorizedAt :: int
  aa_PermissionExpiresAt :: int
  aa_AuthorizationExpiresAt :: int
  aa_RunDeadline :: int

record SignedAction =
  sa_Authorization :: ActionAuthorization
  sa_Parameters :: ResolutionParameters
  sa_Signature :: string

record ActionReceipt =
  rt_SchemaVersion :: int
  rt_TenantID :: string
  rt_OperationID :: string
  rt_BusinessRequestID :: string
  rt_AuthorizationHash :: string
  rt_ProposalHash :: string
  rt_ParametersHash :: string
  rt_ApprovalID :: string
  rt_TicketID :: string
  rt_BeforeRevision :: int
  rt_AfterRevision :: int
  rt_TicketStatus :: string
  rt_AppliedAt :: int
  rt_RetainUntil :: int
  rt_ReceiptHash :: string

text \<open>The values that the code marshals; a receipt without its own hash, the other values whole.\<close>

datatype business_value = VTicket Ticket | VOrder Order | VDelivery Delivery | VPolicy PolicyVersion | VSnapshot Snapshot
  | VVector VersionVector | VParameters ResolutionParameters | VReceipt ActionReceipt | VRequest int string
  | VProfile IndexProfile | VIndex IndexProfile "(string \<times> string \<times> string \<times> string) list"
  | VDataset int string "PolicyVersion list" "Ticket list" "Order list" "Delivery list"

record business_env =
  be_sha :: "string \<Rightarrow> string"
  be_parseUUID :: "string \<Rightarrow> string option"
  be_json :: "business_value \<Rightarrow> string"
  be_claims :: "string \<Rightarrow> string list \<Rightarrow> bool"
  be_public :: "string \<Rightarrow> string"
  be_sign :: "string \<Rightarrow> string \<Rightarrow> string"
  be_verify :: "string \<Rightarrow> string \<Rightarrow> string \<Rightarrow> bool"

definition actionSafeInteger :: int where
  "actionSafeInteger = 9007199254740991"

definition ResolutionOperation :: string where
  "ResolutionOperation = ''apply_ticket_resolution''"

text \<open>\<open>ActionReceiptRetention.Microseconds()\<close> and \<open>Time.UnixMicro\<close>.\<close>

definition retentionMicros :: int where
  "retentionMicros = 30 * 24 * 3600 * 1000000"

definition UnixMicro :: "time \<Rightarrow> int" where
  "UnixMicro t = t div 1000"

definition ActionFingerprint :: "business_env \<Rightarrow> string \<Rightarrow> string list \<Rightarrow> string" where
  "ActionFingerprint env domain fs = be_sha env (fingerprint_preimage (domain # fs))"

definition validText :: "string \<Rightarrow> int \<Rightarrow> bool" where
  "validText value limit \<longleftrightarrow> utf8_runes (map of_char value) \<noteq> None \<and> int (length value) \<le> limit \<and> CHR 0x00 \<notin> set value"

section \<open>Parameters\<close>

definition actionRequestedFields :: "string list" where
  "actionRequestedFields = [''ticket.order_id'', ''order.delivery_id'', ''delivery.usable_tracking_events'', ''delivery.delivered_event'',
     ''ticket.problem_description'']"

fun uniqueStrings :: "string list \<Rightarrow> string list \<Rightarrow> bool" where
  "uniqueStrings seen [] = True"
| "uniqueStrings seen (v # vs) = (if v = '''' \<or> v \<in> set seen then False else uniqueStrings (v # seen) vs)"

definition uniqueActionStrings :: "string list option \<Rightarrow> bool" where
  "uniqueActionStrings values = (case values of None \<Rightarrow> False | Some vs \<Rightarrow> uniqueStrings [] vs)"

definition validResolutionClaims :: "business_env \<Rightarrow> ResolutionParameters \<Rightarrow> bool" where
  "validResolutionClaims env p =
     (case (rp_RequestedFields p, rp_EvidenceRefs p) of
        (Some requested, Some refs) \<Rightarrow>
          uniqueActionStrings (Some requested) \<and> uniqueActionStrings (Some refs) \<and> list_all (\<lambda>f. f \<in> set actionRequestedFields) requested \<and>
          list_all (\<lambda>r. validText r 256) refs \<and> be_claims env (rp_Claims p) refs
      | _ \<Rightarrow> False)"

definition validTarget :: "ResolutionParameters \<Rightarrow> bool" where
  "validTarget p \<longleftrightarrow>
     (if rp_Action p = ''record_conclusion''
      then rp_TargetTicketStatus p \<in> {''open'', ''informational_only'', ''escalated'', ''awaiting_information''}
      else (rp_Action p = ''request_information'' \<and> rp_TargetTicketStatus p = ''awaiting_information'') \<or>
        (rp_Action p = ''escalate'' \<and> rp_TargetTicketStatus p = ''escalated''))"

definition ParametersHash :: "business_env \<Rightarrow> ResolutionParameters \<Rightarrow> BusinessError + string" where
  "ParametersHash env p =
     (if \<not> ValidIdentifier (rp_TicketID p) \<or> rp_Decision p \<noteq> ''proposal'' \<or> \<not> validText (rp_Summary p) 8192 \<or> rp_Summary p = '''' \<or>
        (case (rp_RequestedFields p, rp_EvidenceRefs p) of
           (Some requested, Some refs) \<Rightarrow> length refs < 1 \<or> length refs > 32 \<or> length requested > 5
         | _ \<Rightarrow> True) then Inl BizInvalidArgument
      else if \<not> validTarget p then Inl BizInvalidArgument
      else if rp_Conclusion p \<notin> {''on_time'', ''delayed'', ''disputed'', ''insufficient'', ''conflicting''} then Inl BizInvalidArgument
      else if \<not> validResolutionClaims env p then Inl BizInvalidArgument
      else let raw = be_json env (VParameters p) in
        if length raw > 16384 then Inl BizInvalidArgument
        else Inr (ActionFingerprint env ''jobforge.business.parameters.v1'' [''1'', raw]))"

section \<open>Authorizations\<close>

definition validVector :: "business_env \<Rightarrow> VersionVector \<Rightarrow> bool" where
  "validVector env v \<longleftrightarrow> vv_SchemaVersion v = 1 \<and> ValidIdentifier (vv_TicketID v) \<and> 1 \<le> vv_TicketRevision v \<and>
     vv_TicketRevision v < actionSafeInteger \<and> vv_OrderExists v = (vv_OrderRevision v \<noteq> None) \<and>
     vv_DeliveryExists v = (vv_AggregateRevision v \<noteq> None) \<and> (vv_OrderExists v \<longrightarrow> vv_OrderID v \<noteq> None) \<and>
     (vv_DeliveryExists v \<longrightarrow> vv_DeliveryID v \<noteq> None) \<and> (\<not> vv_OrderExists v \<longrightarrow> vv_DeliveryID v = None) \<and>
     ValidIdentifier (vv_PolicyVersion v) \<and> 1 \<le> vv_PolicyRevision v \<and> vv_PolicyRevision v \<le> actionSafeInteger \<and>
     ValidHash (vv_CorpusSHA256 v) \<and> ValidUUID (be_parseUUID env) (vv_IndexID v) \<and> ValidHash (vv_ProfileHash v) \<and> ValidHash (vv_ContentHash v) \<and>
     list_all (\<lambda>i. case i of None \<Rightarrow> True | Some x \<Rightarrow> ValidIdentifier x) [vv_OrderID v, vv_DeliveryID v] \<and>
     list_all (\<lambda>n. case n of None \<Rightarrow> True | Some x \<Rightarrow> 1 \<le> x \<and> x \<le> actionSafeInteger) [vv_OrderRevision v, vv_AggregateRevision v]"

definition validAuthorization :: "business_env \<Rightarrow> ActionAuthorization \<Rightarrow> bool" where
  "validAuthorization env a \<longleftrightarrow>
     aa_SchemaVersion a = 1 \<and> aa_Operation a = ResolutionOperation \<and> ValidIdentifier (aa_KeyID a) \<and> ValidIdentifier (aa_TenantID a) \<and>
     ValidIdentifier (aa_ActorID a) \<and> list_all (ValidUUID (be_parseUUID env)) [aa_BusinessRequestID a, aa_OperationID a, aa_RunID a, aa_ApprovalID a, aa_SnapshotID a] \<and>
     ValidHash (aa_ParametersHash a) \<and> ValidHash (aa_ProposalHash a) \<and> ValidHash (aa_SnapshotHash a) \<and>
     list_all (\<lambda>n. 1 \<le> n \<and> n \<le> actionSafeInteger) [aa_BusinessRequestCreatedAt a, aa_DecidedAt a, aa_AuthorizedAt a, aa_PermissionExpiresAt a,
       aa_AuthorizationExpiresAt a, aa_RunDeadline a] \<and>
     aa_BusinessRequestCreatedAt a \<le> aa_DecidedAt a \<and> aa_DecidedAt a \<le> aa_AuthorizedAt a \<and> aa_AuthorizedAt a < aa_AuthorizationExpiresAt a \<and>
     aa_AuthorizationExpiresAt a \<le> aa_PermissionExpiresAt a \<and> aa_PermissionExpiresAt a \<le> aa_RunDeadline a \<and>
     validVector env (aa_VersionVector a)"

definition authorization_fields :: "business_env \<Rightarrow> ActionAuthorization \<Rightarrow> string list" where
  "authorization_fields env a = [''1'', aa_KeyID a, aa_Operation a, aa_TenantID a, aa_BusinessRequestID a, show_int (aa_BusinessRequestCreatedAt a),
     aa_OperationID a, aa_RunID a, aa_ApprovalID a, aa_ActorID a, show_int (aa_DecidedAt a), aa_ProposalHash a, aa_ParametersHash a,
     aa_SnapshotID a, aa_SnapshotHash a,
     ActionFingerprint env ''jobforge.business.version-vector.v1'' [''1'', be_json env (VVector (aa_VersionVector a))],
     show_int (aa_AuthorizedAt a), show_int (aa_PermissionExpiresAt a), show_int (aa_AuthorizationExpiresAt a), show_int (aa_RunDeadline a)]"

definition AuthorizationHash :: "business_env \<Rightarrow> ActionAuthorization \<Rightarrow> BusinessError + string" where
  "AuthorizationHash env a =
     (if \<not> validAuthorization env a then Inl BizInvalidArgument
      else Inr (ActionFingerprint env ''jobforge.business.authorization.v1'' (authorization_fields env a)))"

definition SignAction :: "business_env \<Rightarrow> ActionAuthorization \<Rightarrow> ResolutionParameters \<Rightarrow> string \<Rightarrow> BusinessError + SignedAction" where
  "SignAction env a p key =
     (if ParametersHash env p \<noteq> Inr (aa_ParametersHash a) \<or> vv_TicketID (aa_VersionVector a) \<noteq> rp_TicketID p then Inl BizInvalidArgument
      else bindE (AuthorizationHash env a) (\<lambda>hash.
        Inr \<lparr>sa_Authorization = a, sa_Parameters = p, sa_Signature = be_sign env key hash\<rparr>))"

definition Verify :: "business_env \<Rightarrow> SignedAction \<Rightarrow> string \<Rightarrow> BusinessError + unit" where
  "Verify env s key =
     (if ParametersHash env (sa_Parameters s) \<noteq> Inr (aa_ParametersHash (sa_Authorization s)) \<or>
        rp_TicketID (sa_Parameters s) \<noteq> vv_TicketID (aa_VersionVector (sa_Authorization s)) then Inl BizActionForbidden
      else case AuthorizationHash env (sa_Authorization s) of
        Inl _ \<Rightarrow> Inl BizActionForbidden
      | Inr hash \<Rightarrow> ensureE (be_verify env key hash (sa_Signature s)) BizActionForbidden)"

section \<open>Receipts\<close>

definition ActionReceiptHash :: "business_env \<Rightarrow> ActionReceipt \<Rightarrow> string" where
  "ActionReceiptHash env r = ActionFingerprint env ''jobforge.business.receipt.v1'' [''1'', be_json env (VReceipt (r\<lparr>rt_ReceiptHash := ''''\<rparr>))]"

definition ReceiptValidate :: "business_env \<Rightarrow> ActionReceipt \<Rightarrow> SignedAction \<Rightarrow> BusinessError + unit" where
  "ReceiptValidate env r action =
     (let a = sa_Authorization action in
      ensureE (AuthorizationHash env a = Inr (rt_AuthorizationHash r) \<and> rt_SchemaVersion r = 1 \<and> rt_TenantID r = aa_TenantID a \<and>
        rt_OperationID r = aa_OperationID a \<and> rt_BusinessRequestID r = aa_BusinessRequestID a \<and> rt_ProposalHash r = aa_ProposalHash a \<and>
        rt_ParametersHash r = aa_ParametersHash a \<and> rt_ApprovalID r = aa_ApprovalID a \<and> rt_TicketID r = rp_TicketID (sa_Parameters action) \<and>
        rt_TicketStatus r = rp_TargetTicketStatus (sa_Parameters action) \<and> rt_BeforeRevision r = vv_TicketRevision (aa_VersionVector a) \<and>
        rt_AfterRevision r = rt_BeforeRevision r + 1 \<and> aa_AuthorizedAt a \<le> rt_AppliedAt r \<and> rt_AppliedAt r < aa_AuthorizationExpiresAt a \<and>
        rt_RetainUntil r \<le> actionSafeInteger \<and> rt_AppliedAt r + retentionMicros \<le> rt_RetainUntil r \<and>
        rt_ReceiptHash r = ActionReceiptHash env r) BizActionConflict)"

end
