(* ===== verification/RunAction.thy ===== *)
theory RunAction
  imports RunCheckpointInv BusinessContract
begin

text \<open>
  Approvals and actions of a Run (\<open>internal/run/action.go\<close>, \<open>postgres/approval.go\<close>, \<open>action.go\<close>,
  \<open>action_calls.go\<close>, \<open>action_recovery.go\<close>): the decision on a proposal, the signed authorization
  of one operation per business request, the permits for its physical calls, its completion with
  a receipt of the business store, and the recovery of a receipt after the Run has ended.

  The tables of actions are a record of their own, \<open>action_db\<close>, and a transaction works on the
  pair with the Run database. A row of \<open>action_calls\<close> is split: the columns that closing an
  attempt touches stay in \<open>run_db\<close> (\<open>CallStatus\<close>), the others are an \<open>ActionCall\<close> here.
  \<open>action_env\<close> holds what is not modelled: the decoders of profile definition, step output and
  version vector, the deployment's signing keys, and the marshalled action output.
\<close>

section \<open>Decisions\<close>

record ApprovalRequest =
  aq_SchemaVersion :: int
  aq_Decision :: string
  aq_ProposalHash :: string

definition ApprovalValidate :: "ApprovalRequest \<Rightarrow> RunError + unit" where
  "ApprovalValidate q =
     (if aq_SchemaVersion q \<noteq> 1 \<or> (aq_Decision q \<noteq> ''approve'' \<and> aq_Decision q \<noteq> ''reject'') \<or> \<not> ValidHash (aq_ProposalHash q)
      then Inl ErrInvalidArgument else Inr ())"

definition ApprovalHash :: "(string \<Rightarrow> string) \<Rightarrow> ApprovalRequest \<Rightarrow> string \<Rightarrow> string \<Rightarrow> string \<Rightarrow> string" where
  "ApprovalHash sha q tenant i actor = Fingerprint sha ''jobforge.run.approval.v1'' [''1'', tenant, i, actor, aq_Decision q, aq_ProposalHash q]"

record ApprovalView =
  vw_RunID :: string
  vw_Status :: string
  vw_ProposalHash :: string
  vw_ProposalRef :: string
  vw_Proposal :: Proposal
  vw_PermissionExpiresAt :: "time option"
  vw_ApprovalID :: "string option"
  vw_ActorID :: "string option"
  vw_DecidedAt :: "time option"
  vw_Available :: bool

definition DecideApproval :: "(string \<Rightarrow> string) \<Rightarrow> Run \<Rightarrow> Authority \<Rightarrow> ApprovalRequest \<Rightarrow> string \<Rightarrow> string \<Rightarrow> string \<Rightarrow> time \<Rightarrow> RunError + (Run \<times> Authority)" where
  "DecideApproval sha r a request proposalCommitHash decisionHash nextID now =
     (if run_State r \<noteq> AwaitingApproval \<or> run_CancelRequestedAt r \<noteq> None then Inl ErrInvalidTransition
      else if (case run_PermissionExpiresAt r of None \<Rightarrow> True | Some e \<Rightarrow> \<not> e > now) \<or> \<not> run_RunDeadline r > now then Inl ErrApprovalExpired
      else if aq_Decision request = ''reject'' then Inr (r\<lparr>run_State := Succeeded, run_Outcome := Some ''rejected'', run_UpdatedAt := now\<rparr>, a)
      else Inr (r\<lparr>run_State := Ready, run_UpdatedAt := now\<rparr>,
        a\<lparr>au_NextStepID := nextID, au_NextStepKind := ResolutionOperation,
          au_NextInputHash := Fingerprint sha ''jobforge.run.action-input.v1'' [run_ProfileHash r, run_SnapshotHash r, proposalCommitHash, decisionHash]\<rparr>))"

definition ResolutionFromProposal :: "business_env \<Rightarrow> string \<Rightarrow> Proposal \<Rightarrow> RunError + ResolutionParameters" where
  "ResolutionFromProposal env ticket proposal =
     (case pp_Support proposal of
        None \<Rightarrow> Inl ErrInvalidArgument
      | Some f \<Rightarrow>
        (let p = \<lparr>rp_TicketID = ticket, rp_Decision = pp_Decision proposal, rp_Action = pp_Action proposal, rp_Conclusion = sf_Conclusion f,
               rp_RequestedFields = sf_RequestedFields f, rp_TargetTicketStatus = sf_TargetTicketStatus f, rp_Summary = pp_Summary proposal,
               rp_Claims = sf_Claims f, rp_EvidenceRefs = pp_EvidenceRefs proposal\<rparr> in
         if isOk (ParametersHash env p) then Inr p else Inl ErrInvalidArgument))"

section \<open>Tables and environment\<close>

record AuthorizationRow =
  az_TenantID :: string
  az_BusinessRequestID :: string
  az_RunID :: string
  az_OperationID :: string
  az_ApprovalID :: string
  az_Hash :: string
  az_Action :: SignedAction
  az_QueryCount :: int
  az_WriteCount :: int
  az_AuthorizedAt :: time
  az_ExpiresAt :: time

record ActionCall =
  al_ID :: string
  al_Lease :: Lease
  al_Step :: StepIdentity
  al_OperationID :: string
  al_AuthorizationHash :: string
  al_Kind :: string
  al_ReservedAt :: time
  al_DispatchExpiresAt :: time
  al_Deadline :: time
  al_TransportOutcome :: "string option"
  al_ObservationHash :: "string option"
  al_ObservedAt :: "time option"

record ReceiptView =
  rv_TenantID :: string
  rv_OperationID :: string
  rv_Receipt :: ActionReceipt
  rv_EffectVersion :: int
  rv_Source :: string
  rv_ObservedAt :: time

record QueryGate =
  qg_TenantID :: string
  qg_QueryID :: "string option"
  qg_QueryUntil :: "time option"
  qg_NextAllowedAt :: time

record ReceiptQuery =
  qr_ID :: string
  qr_TenantID :: string
  qr_OperationID :: string
  qr_SourceRunID :: string
  qr_Source :: string
  qr_ReservedAt :: time
  qr_Deadline :: time
  qr_Outcome :: "string option"
  qr_FinishedAt :: "time option"

record action_db =
  action_authorizations :: "AuthorizationRow list"
  action_call_rows :: "ActionCall list"
  action_receipt_views :: "ReceiptView list"
  tenant_receipt_query_gates :: "QueryGate list"
  action_receipt_queries :: "ReceiptQuery list"

definition empty_actions :: action_db where
  "empty_actions = \<lparr>action_authorizations = [], action_call_rows = [], action_receipt_views = [], tenant_receipt_query_gates = [], action_receipt_queries = []\<rparr>"

record action_env =
  ae_business :: business_env
  ae_proposal :: "string \<Rightarrow> Proposal option"
  ae_actionKey :: "Profile \<Rightarrow> RunError + (string \<times> string)"
  ae_signers :: "(string \<times> string) list"
  ae_vector :: "Run \<Rightarrow> VersionVector option"
  ae_output :: "ActionReceipt \<Rightarrow> RunError + string"

section \<open>The approval of a Run\<close>

text \<open>The proposal comes from the accepted step that submitted it; the second result is that step's commit hash.\<close>

definition approvalView :: "store_config \<Rightarrow> action_env \<Rightarrow> Run \<Rightarrow> time \<Rightarrow> run_db \<Rightarrow> RunError + (ApprovalView \<times> string)" where
  "approvalView cfg ae r now db =
     (if run_ContentPurgedAt r \<noteq> None then Inl ErrResultExpired
      else case find_row (\<lambda>v. av_tenant v = run_TenantID r \<and> av_run v = run_ID r) (run_approvals db) of
        None \<Rightarrow> Inl ErrNotFound
      | Some v \<Rightarrow>
        (case find_row (\<lambda>s. stepKey r s \<and> sr_Kind s = ''submit_proposal'') (run_steps db) of
           None \<Rightarrow> Inl ErrNotFound
         | Some s \<Rightarrow>
           (case Option.bind (sr_Output s) (ae_proposal ae) of
              None \<Rightarrow> Inl ErrInternal
            | Some proposal \<Rightarrow>
              if Fingerprint (cfg_sha cfg) ''jobforge.run.proposal.v1'' [pp_JSON proposal] \<noteq> av_ProposalHash v then Inl ErrInternal
              else case find_row (\<lambda>p. ap_ID p = run_ProfileID r \<and> ap_Hash p = run_ProfileHash r) (agent_profiles db) of
                None \<Rightarrow> Inl ErrNotFound
              | Some row \<Rightarrow> (case ap_Profile row of None \<Rightarrow> Inl ErrInternal
                  | Some profile \<Rightarrow>
                    Inr (\<lparr>vw_RunID = run_ID r, vw_Status = av_Status v, vw_ProposalHash = av_ProposalHash v, vw_ProposalRef = av_ProposalRef v,
                      vw_Proposal = proposal, vw_PermissionExpiresAt = av_PermissionExpiresAt v, vw_ApprovalID = av_ApprovalID v,
                      vw_ActorID = av_ActorID v, vw_DecidedAt = av_DecidedAt v,
                      vw_Available = (run_State r = AwaitingApproval \<and> run_CancelRequestedAt r = None \<and> run_RunDeadline r > now \<and>
                        (case av_PermissionExpiresAt v of None \<Rightarrow> False | Some e \<Rightarrow> e > now) \<and> pf_ApprovalEnabled profile)\<rparr>, sr_CommitHash s)))))"

definition Approval :: "store_config \<Rightarrow> action_env \<Rightarrow> string \<Rightarrow> string \<Rightarrow> time \<Rightarrow> run_db \<Rightarrow> RunError + ApprovalView" where
  "Approval cfg ae tenant i now db =
     (if \<not> ValidUUID (cfg_parseUUID cfg) i \<or> \<not> ValidIdentifier tenant then Inl ErrInvalidArgument
      else bindE (lockRun tenant i db) (\<lambda>(r, _). bindE (approvalView cfg ae r now db) (\<lambda>(view, _). Inr view)))"

definition wantedStatus :: "string \<Rightarrow> string" where
  "wantedStatus decision = (if decision = ''approve'' then ''approved'' else if decision = ''reject'' then ''rejected'' else '''')"

text \<open>
  The decision is written to the pending row. The table keeps decision identifiers unique and
  refuses a decision before the row was created.
\<close>

definition recordDecision :: "Run \<Rightarrow> string \<Rightarrow> string \<Rightarrow> string \<Rightarrow> time \<Rightarrow> run_db \<Rightarrow> RunError + run_db" where
  "recordDecision r want approvalID actor now db =
     (let pending = (\<lambda>v. av_tenant v = run_TenantID r \<and> av_run v = run_ID r \<and> av_Status v = ''pending'') in
      if list_ex (\<lambda>v. av_tenant v = run_TenantID r \<and> av_ApprovalID v = Some approvalID) (run_approvals db) then Inl ErrConflict
      else if list_ex (\<lambda>v. pending v \<and> now < av_CreatedAt v) (run_approvals db) then Inl ErrDependencyUnavailable
      else Inr (db\<lparr>run_approvals := update_where pending
        (\<lambda>v. v\<lparr>av_Status := want, av_ApprovalID := Some approvalID, av_ActorID := Some actor, av_DecidedAt := Some now\<rparr>) (run_approvals db)\<rparr>))"

text \<open>The first decision on a pending proposal; \<open>now\<close> is read again after the protected content.\<close>

definition decidePending ::
    "store_config \<Rightarrow> action_env \<Rightarrow> string \<Rightarrow> ApprovalRequest \<Rightarrow> string \<Rightarrow> string \<Rightarrow> time \<Rightarrow> time \<Rightarrow> ApprovalView \<Rightarrow> string \<Rightarrow> Run \<Rightarrow> Authority \<Rightarrow> run_db \<Rightarrow>
     RunError + (Run \<times> run_db)" where
  "decidePending cfg ae actor request nextID approvalID now clk view commit r a db =
     bindE (ledgerProfile cfg r False db) (\<lambda>profile.
     if \<not> pf_ApprovalEnabled profile then Inl ErrProfileUnavailable
     else bindE (ResolutionFromProposal (ae_business ae) (run_TicketID r) (vw_Proposal view)) (\<lambda>_.
     bindE (DecideApproval (cfg_sha cfg) r a request commit (ApprovalHash (cfg_sha cfg) request (run_TenantID r) (run_ID r) actor) nextID now) (\<lambda>(r1, a1).
     bindE (recordDecision r (wantedStatus (aq_Decision request)) approvalID actor now db) (\<lambda>db1.
     let db2 = (if aq_Decision request = ''reject'' then setResult r (''final'', ''approval:'' @ approvalID) db1 else db1) in
     bindE (recordRun clk r1 a1 (''approval_'' @ wantedStatus (aq_Decision request)) now db2) (\<lambda>db3. Inr (r1, db3))))))"

definition approvalOperation :: "string \<Rightarrow> string \<Rightarrow> string \<Rightarrow> string \<Rightarrow> string \<Rightarrow> time \<Rightarrow> Operation" where
  "approvalOperation opID tenant i key hash now = \<lparr>op_ID = opID, op_TenantID = tenant, op_Kind = ''approval'', op_SourceRunID = i, op_Scope = '''',
     op_Key = key, op_RequestHash = hash, op_ResultRunID = i, op_CreatedAt = now\<rparr>"

text \<open>The answer is the view of the approval, the Run and whether the decision was there before.\<close>

definition StoreDecideApproval ::
    "store_config \<Rightarrow> action_env \<Rightarrow> string \<Rightarrow> string \<Rightarrow> string \<Rightarrow> string \<Rightarrow> ApprovalRequest \<Rightarrow> string \<Rightarrow> string \<Rightarrow> string \<Rightarrow> time \<Rightarrow> time \<Rightarrow> time \<Rightarrow> run_db \<Rightarrow>
     RunError + ((ApprovalView \<times> Run \<times> bool) \<times> run_db)" where
  "StoreDecideApproval cfg ae tenant i actor key request nextID approvalID opID now0 now clk db =
     (if \<not> ValidUUID (cfg_parseUUID cfg) i \<or> \<not> ValidIdentifier tenant \<or> \<not> ValidIdentifier actor \<or> \<not> ValidIdentifier key \<or> \<not> isOk (ApprovalValidate request)
      then Inl ErrInvalidArgument
      else let hash = ApprovalHash (cfg_sha cfg) request tenant i actor in
      bindE (lockRun tenant i db) (\<lambda>(r, a).
      if run_ContentPurgedAt r \<noteq> None then Inl ErrResultExpired
      else let prior = findOperation tenant ''approval'' i key db in
      if (case prior of None \<Rightarrow> False | Some p \<Rightarrow> op_RequestHash p \<noteq> hash \<or> op_ResultRunID p \<noteq> i) then Inl ErrConflict
      else bindE (approvalView cfg ae r now0 db) (\<lambda>(view, commit).
      bindE (if prior \<noteq> None then Inr (True, now0, r, db)
         else if aq_ProposalHash request \<noteq> vw_ProposalHash view then Inl ErrApprovalConflict
         else if vw_Status view \<noteq> ''pending'' then
           (if vw_Status view \<noteq> wantedStatus (aq_Decision request) \<or> vw_ActorID view \<noteq> Some actor then Inl ErrApprovalConflict
            else bindE (insertOperation (approvalOperation opID tenant i key hash now0) db) (\<lambda>db1. Inr (True, now0, r, db1)))
         else bindE (decidePending cfg ae actor request nextID approvalID now clk view commit r a db) (\<lambda>(r1, db1).
           bindE (insertOperation (approvalOperation approvalID tenant i key hash now) db1) (\<lambda>db2. Inr (False, now, r1, db2)))) (\<lambda>(reused, seen, r1, db1).
      bindE (approvalView cfg ae r1 seen db1) (\<lambda>(answer, _).
      bindE (getView tenant i db1) (\<lambda>run. Inr ((answer, run, reused), db1)))))))"

section \<open>Authorizations and effects\<close>

definition findAuthorization :: "string \<Rightarrow> string \<Rightarrow> action_db \<Rightarrow> AuthorizationRow option" where
  "findAuthorization tenant businessID t = find_row (\<lambda>z. az_TenantID z = tenant \<and> az_BusinessRequestID z = businessID) (action_authorizations t)"

definition readAction :: "string \<Rightarrow> string \<Rightarrow> action_db \<Rightarrow> SignedAction option" where
  "readAction tenant businessID t = map_option az_Action (findAuthorization tenant businessID t)"

record EffectView =
  fv_State :: string
  fv_OperationID :: "string option"
  fv_AuthorizationHash :: "string option"
  fv_EffectVersion :: int
  fv_ReceiptRef :: "string option"
  fv_Receipt :: "ActionReceipt option"
  fv_Source :: "string option"
  fv_ObservedAt :: "time option"

definition authHash :: "business_env \<Rightarrow> SignedAction \<Rightarrow> string" where
  "authHash env action = (case AuthorizationHash env (sa_Authorization action) of Inl _ \<Rightarrow> '''' | Inr h \<Rightarrow> h)"

abbreviation viewKey :: "ActionAuthorization \<Rightarrow> ReceiptView \<Rightarrow> bool" where
  "viewKey a \<equiv> (\<lambda>v. rv_TenantID v = aa_TenantID a \<and> rv_OperationID v = aa_OperationID a)"

definition readEffect :: "business_env \<Rightarrow> SignedAction option \<Rightarrow> action_db \<Rightarrow> RunError + EffectView" where
  "readEffect env action t =
     (let none = \<lparr>fv_State = ''none'', fv_OperationID = None, fv_AuthorizationHash = None, fv_EffectVersion = 0, fv_ReceiptRef = None, fv_Receipt = None,
        fv_Source = None, fv_ObservedAt = None\<rparr> in
      case action of
        None \<Rightarrow> Inr none
      | Some s \<Rightarrow>
        (let a = sa_Authorization s;
             unknown = none\<lparr>fv_State := ''unknown'', fv_OperationID := Some (aa_OperationID a), fv_AuthorizationHash := Some (authHash env s)\<rparr> in
         case find_row (viewKey a) (action_receipt_views t) of
           None \<Rightarrow> Inr unknown
         | Some v \<Rightarrow>
           if \<not> isOk (ReceiptValidate env (rv_Receipt v) s) then Inl ErrInternal
           else Inr (unknown\<lparr>fv_State := ''applied'', fv_Receipt := Some (rv_Receipt v), fv_ReceiptRef := Some (''action-receipt:'' @ aa_OperationID a),
             fv_EffectVersion := rv_EffectVersion v, fv_Source := Some (rv_Source v), fv_ObservedAt := Some (rv_ObservedAt v)\<rparr>)))"

text \<open>The first receipt of an operation is kept; a later one must be the same.\<close>

definition saveEffect :: "business_env \<Rightarrow> SignedAction \<Rightarrow> ActionReceipt \<Rightarrow> string \<Rightarrow> time \<Rightarrow> action_db \<Rightarrow> RunError + action_db" where
  "saveEffect env action receipt source now t =
     (if \<not> isOk (ReceiptValidate env receipt action) then Inl ErrActionConflict
      else let key = (\<lambda>v. rv_TenantID v = rt_TenantID receipt \<and> rv_OperationID v = rt_OperationID receipt) in
        case find_row key (action_receipt_views t) of
          None \<Rightarrow> Inr (t\<lparr>action_receipt_views := action_receipt_views t @ [\<lparr>rv_TenantID = rt_TenantID receipt, rv_OperationID = rt_OperationID receipt,
            rv_Receipt = receipt, rv_EffectVersion = 1, rv_Source = source, rv_ObservedAt = now\<rparr>]\<rparr>)
        | Some v \<Rightarrow> if rv_Receipt v = receipt then Inr t else Inl ErrActionConflict)"

definition Effect :: "store_config \<Rightarrow> action_env \<Rightarrow> string \<Rightarrow> string \<Rightarrow> run_db \<times> action_db \<Rightarrow> RunError + EffectView" where
  "Effect cfg ae tenant i s =
     (if \<not> ValidUUID (cfg_parseUUID cfg) i \<or> \<not> ValidIdentifier tenant then Inl ErrInvalidArgument
      else bindE (lockRun tenant i (fst s)) (\<lambda>(r, _). readEffect (ae_business ae) (readAction tenant (run_BusinessRequestID r) (snd s)) (snd s)))"

definition actionExecution :: "store_config \<Rightarrow> action_env \<Rightarrow> string \<Rightarrow> Run \<Rightarrow> Authority \<Rightarrow> Lease \<Rightarrow> StepIdentity \<Rightarrow> time \<Rightarrow> run_db \<Rightarrow> RunError + unit" where
  "actionExecution cfg ae caller r a lease step now db =
     (if st_Kind step \<noteq> ResolutionOperation then Inl ErrInvalidTransition
      else bindE (ledgerExecution cfg caller r a lease step now db) (\<lambda>_.
      bindE (ledgerProfile cfg r False db) (\<lambda>p. if pf_ApprovalEnabled p then Inr () else Inl ErrProfileUnavailable)))"

definition GetAction ::
    "store_config \<Rightarrow> action_env \<Rightarrow> string \<Rightarrow> Lease \<Rightarrow> StepIdentity \<Rightarrow> time \<Rightarrow> run_db \<times> action_db \<Rightarrow> RunError + (SignedAction option \<times> EffectView)" where
  "GetAction cfg ae caller lease step now s =
     (if \<not> validateLedgerLease cfg lease then Inl ErrInvalidArgument
      else bindE (lockRun (ls_TenantID lease) (ls_RunID lease) (fst s)) (\<lambda>(r, a).
      bindE (actionExecution cfg ae caller r a lease step now (fst s)) (\<lambda>_.
      let action = readAction (run_TenantID r) (run_BusinessRequestID r) (snd s) in
      bindE (readEffect (ae_business ae) action (snd s)) (\<lambda>effect. Inr (action, effect)))))"

text \<open>The key of the profile, which must be the one the deployment holds.\<close>

definition signingKey :: "action_env \<Rightarrow> Profile \<Rightarrow> RunError + (string \<times> string)" where
  "signingKey ae p =
     bindE (ae_actionKey ae p) (\<lambda>(keyID, publicHash).
     case map_of (ae_signers ae) keyID of
       None \<Rightarrow> Inl ErrProfileUnavailable
     | Some key \<Rightarrow> if be_sha (ae_business ae) (be_public (ae_business ae) key) \<noteq> publicHash then Inl ErrProfileUnavailable else Inr (keyID, key))"

text \<open>The authorization that is signed: the approved proposal, its snapshot and versions, and the times.\<close>

definition newAuthorization ::
    "string \<Rightarrow> string \<Rightarrow> Run \<Rightarrow> ApprovalView \<Rightarrow> string \<Rightarrow> time \<Rightarrow> VersionVector \<Rightarrow> time \<Rightarrow> time \<Rightarrow> ActionAuthorization" where
  "newAuthorization operationID keyID r view parametersHash created vector expires now =
     \<lparr>aa_SchemaVersion = 1, aa_KeyID = keyID, aa_Operation = ResolutionOperation, aa_TenantID = run_TenantID r,
      aa_BusinessRequestID = run_BusinessRequestID r, aa_BusinessRequestCreatedAt = UnixMicro created, aa_OperationID = operationID, aa_RunID = run_ID r,
      aa_ApprovalID = the (vw_ApprovalID view), aa_ActorID = the (vw_ActorID view), aa_DecidedAt = UnixMicro (the (vw_DecidedAt view)),
      aa_ProposalHash = vw_ProposalHash view, aa_ParametersHash = parametersHash, aa_SnapshotID = run_SnapshotID r, aa_SnapshotHash = run_SnapshotHash r,
      aa_VersionVector = vector, aa_AuthorizedAt = UnixMicro now, aa_PermissionExpiresAt = UnixMicro expires,
      aa_AuthorizationExpiresAt = UnixMicro expires, aa_RunDeadline = UnixMicro (run_RunDeadline r)\<rparr>"

definition insertAuthorization :: "business_env \<Rightarrow> SignedAction \<Rightarrow> time \<Rightarrow> time \<Rightarrow> action_db \<Rightarrow> RunError + action_db" where
  "insertAuthorization env s now expires t =
     (let a = sa_Authorization s in
      if list_ex (\<lambda>z. az_TenantID z = aa_TenantID a \<and> (az_BusinessRequestID z = aa_BusinessRequestID a \<or> az_OperationID z = aa_OperationID a))
          (action_authorizations t) then Inl ErrConflict
      else Inr (t\<lparr>action_authorizations := action_authorizations t @ [\<lparr>az_TenantID = aa_TenantID a, az_BusinessRequestID = aa_BusinessRequestID a,
        az_RunID = aa_RunID a, az_OperationID = aa_OperationID a, az_ApprovalID = aa_ApprovalID a, az_Hash = authHash env s, az_Action = s,
        az_QueryCount = 0, az_WriteCount = 0, az_AuthorizedAt = now, az_ExpiresAt = expires\<rparr>]\<rparr>))"

definition authorizeNew ::
    "store_config \<Rightarrow> 'c read_checks \<Rightarrow> action_env \<Rightarrow> string \<Rightarrow> Lease \<Rightarrow> StepIdentity \<Rightarrow> string \<Rightarrow> time \<Rightarrow> time \<Rightarrow> budgetRow list \<Rightarrow> Run \<Rightarrow> Authority \<Rightarrow>
     run_db \<times> action_db \<Rightarrow> RunError + (SignedAction \<times> action_db)" where
  "authorizeNew cfg rc ae caller lease step operationID now0 now accounts r a s =
     bindE (ledgerProfile cfg r True (fst s)) (\<lambda>p.
     bindE (accountsAvailable accounts now0) (\<lambda>_.
     bindE (rc_guard rc (fst s) (ac_ID (br_Account (accounts ! 2))) p r a now0) (\<lambda>_.
     bindE (approvalView cfg ae r now0 (fst s)) (\<lambda>(view, _).
     if vw_Status view \<noteq> ''approved'' \<or> vw_ApprovalID view = None \<or> vw_ActorID view = None \<or> vw_DecidedAt view = None then Inl ErrApprovalConflict
     else bindE (ResolutionFromProposal (ae_business ae) (run_TicketID r) (vw_Proposal view)) (\<lambda>params.
     bindE (signingKey ae p) (\<lambda>(keyID, key).
     case find_row (\<lambda>b. bq_TenantID b = run_TenantID r \<and> bq_ID b = run_BusinessRequestID r) (business_requests (fst s)) of
       None \<Rightarrow> Inl ErrNotFound
     | Some b \<Rightarrow>
       (case ae_vector ae r of
          None \<Rightarrow> Inl ErrInternal
        | Some vector \<Rightarrow>
          bindE (actionExecution cfg ae caller r a lease step now (fst s)) (\<lambda>_.
          case run_PermissionExpiresAt r of
            None \<Rightarrow> Inl ErrActionAuthorizationExpired
          | Some expires \<Rightarrow>
            if \<not> expires > now then Inl ErrActionAuthorizationExpired
            else bindE (accountsAvailable accounts now) (\<lambda>_.
            let parametersHash = (case ParametersHash (ae_business ae) params of Inl _ \<Rightarrow> '''' | Inr h \<Rightarrow> h);
                authorization = newAuthorization operationID keyID r view parametersHash (bq_CreatedAt b) vector expires now in
            case SignAction (ae_business ae) authorization params key of
              Inl _ \<Rightarrow> Inl ErrInternal
            | Inr signed \<Rightarrow> bindE (insertAuthorization (ae_business ae) signed now expires (snd s)) (\<lambda>t1. Inr (signed, t1)))))))))))"

definition AuthorizeAction ::
    "store_config \<Rightarrow> 'c read_checks \<Rightarrow> action_env \<Rightarrow> string \<Rightarrow> Lease \<Rightarrow> StepIdentity \<Rightarrow> string \<Rightarrow> time \<Rightarrow> time \<Rightarrow>
     run_db \<times> action_db \<Rightarrow> RunError + ((SignedAction \<times> EffectView) \<times> (run_db \<times> action_db))" where
  "AuthorizeAction cfg rc ae caller lease step operationID now0 now s =
     (if \<not> validateLedgerLease cfg lease then Inl ErrInvalidArgument
      else bindE (lockRun (ls_TenantID lease) (ls_RunID lease) (fst s)) (\<lambda>(r, a).
      bindE (loadAccounts (run_TenantID r) (run_BusinessRequestID r) (fst s)) (\<lambda>accounts.
      bindE (actionExecution cfg ae caller r a lease step now0 (fst s)) (\<lambda>_.
      bindE (case readAction (run_TenantID r) (run_BusinessRequestID r) (snd s) of
          Some action \<Rightarrow> Inr (action, snd s)
        | None \<Rightarrow> authorizeNew cfg rc ae caller lease step operationID now0 now accounts r a s) (\<lambda>(action, t1).
      if aa_RunID (sa_Authorization action) \<noteq> run_ID r then Inl ErrActionConflict
      else bindE (readEffect (ae_business ae) (Some action) t1) (\<lambda>effect. Inr ((action, effect), (fst s, t1))))))))"

section \<open>Permits for physical calls\<close>

record ReserveActionCallRequest =
  rac_Lease :: Lease
  rac_Step :: StepIdentity
  rac_ID :: string
  rac_Kind :: string
  rac_OperationID :: string
  rac_AuthorizationHash :: string

definition MaxActionCalls :: nat where "MaxActionCalls = 8"

abbreviation actionCallKey :: "string \<Rightarrow> string \<Rightarrow> string \<Rightarrow> ActionCall \<Rightarrow> bool" where
  "actionCallKey tenant run i \<equiv> (\<lambda>c. ls_TenantID (al_Lease c) = tenant \<and> ls_RunID (al_Lease c) = run \<and> al_ID c = i)"

definition readActionCall :: "Run \<Rightarrow> string \<Rightarrow> action_db \<Rightarrow> ActionCall option" where
  "readActionCall r i t = find_row (actionCallKey (run_TenantID r) (run_ID r) i) (action_call_rows t)"

definition ActionCalls :: "store_config \<Rightarrow> string \<Rightarrow> string \<Rightarrow> run_db \<times> action_db \<Rightarrow> RunError + ActionCall list" where
  "ActionCalls cfg tenant i s =
     (if \<not> ValidUUID (cfg_parseUUID cfg) i \<or> \<not> ValidIdentifier tenant then Inl ErrInvalidArgument
      else bindE (lockRun tenant i (fst s)) (\<lambda>_.
      let rows = take 9 (sort_key (\<lambda>c. (al_ReservedAt c, al_ID c)) (filter (\<lambda>c. ls_TenantID (al_Lease c) = tenant \<and> ls_RunID (al_Lease c) = i) (action_call_rows (snd s)))) in
      if length rows > MaxActionCalls then Inl ErrInternal else Inr rows))"

text \<open>The checks of a write that a receipt query does not need.\<close>

definition writeAllowed ::
    "store_config \<Rightarrow> 'c read_checks \<Rightarrow> SignedAction \<Rightarrow> int \<Rightarrow> budgetRow list \<Rightarrow> time \<Rightarrow> Run \<Rightarrow> Authority \<Rightarrow> run_db \<Rightarrow> RunError + unit" where
  "writeAllowed cfg rc action writes accounts now r a db =
     (if writes \<ge> 4 then Inl ErrBudgetExhausted
      else bindE (ledgerProfile cfg r True db) (\<lambda>p.
      bindE (accountsAvailable accounts now) (\<lambda>_.
      bindE (rc_guard rc db (ac_ID (br_Account (accounts ! 2))) p r a now) (\<lambda>_.
      if aa_AuthorizationExpiresAt (sa_Authorization action) \<le> UnixMicro now then Inl ErrActionAuthorizationExpired else Inr ()))))"

definition callDeadline :: "Run \<Rightarrow> time \<Rightarrow> time" where
  "callDeadline r now = foldl minTime (now + 10 * Second) [the (run_LeaseUntil r), the (run_AttemptDeadline r), run_RunDeadline r]"

definition countCall :: "string \<Rightarrow> AuthorizationRow \<Rightarrow> AuthorizationRow" where
  "countCall kind z = (if kind = ''action_write'' then z\<lparr>az_WriteCount := az_WriteCount z + 1\<rparr> else z\<lparr>az_QueryCount := az_QueryCount z + 1\<rparr>)"

text \<open>The permit is inserted in both parts of the call table and counted on its authorization.\<close>

definition insertActionCall :: "ActionCall \<Rightarrow> Run \<Rightarrow> run_db \<times> action_db \<Rightarrow> RunError + (run_db \<times> action_db)" where
  "insertActionCall c r s =
     (if list_ex (\<lambda>x. al_ID x = al_ID c) (action_call_rows (snd s)) then Inl ErrConflict
      else Inr ((fst s)\<lparr>action_calls := action_calls (fst s) @ [\<lparr>ax_tenant = run_TenantID r, ax_run = run_ID r, ax_id = al_ID c,
          ax_attempt = run_AttemptNo r, ax_status = ''reserved''\<rparr>]\<rparr>,
        (snd s)\<lparr>action_call_rows := action_call_rows (snd s) @ [c],
          action_authorizations := update_where (\<lambda>z. az_TenantID z = run_TenantID r \<and> az_OperationID z = al_OperationID c) (countCall (al_Kind c))
            (action_authorizations (snd s))\<rparr>))"

definition grantActionCall ::
    "store_config \<Rightarrow> 'c read_checks \<Rightarrow> action_env \<Rightarrow> string \<Rightarrow> ReserveActionCallRequest \<Rightarrow> SignedAction \<Rightarrow> budgetRow list \<Rightarrow> time \<Rightarrow> time \<Rightarrow> Run \<Rightarrow> Authority \<Rightarrow>
     run_db \<times> action_db \<Rightarrow> RunError + (ActionCall \<times> (run_db \<times> action_db))" where
  "grantActionCall cfg rc ae caller req action accounts now0 now r a s =
     (case find_row (\<lambda>z. az_TenantID z = run_TenantID r \<and> az_OperationID z = rac_OperationID req) (action_authorizations (snd s)) of
        None \<Rightarrow> Inl ErrNotFound
      | Some z \<Rightarrow>
        bindE (if rac_Kind req = ''action_write'' then writeAllowed cfg rc action (az_WriteCount z) accounts now0 r a (fst s)
           else if az_QueryCount z \<ge> 4 then Inl ErrBudgetExhausted else Inr ()) (\<lambda>_.
        if list_ex (\<lambda>c. ls_TenantID (al_Lease c) = run_TenantID r \<and> ls_RunID (al_Lease c) = run_ID r \<and> ls_AttemptNo (al_Lease c) = run_AttemptNo r \<and>
            al_Kind c = rac_Kind req) (action_call_rows (snd s)) then Inl ErrCallConflict
        else bindE (actionExecution cfg ae caller r a (rac_Lease req) (rac_Step req) now (fst s)) (\<lambda>_.
        let bound = callDeadline r now; expires = aa_AuthorizationExpiresAt (sa_Authorization action) * 1000 in
        bindE (if rac_Kind req = ''action_write'' then bindE (accountsAvailable accounts now) (\<lambda>_.
            if \<not> expires > now then Inl ErrActionAuthorizationExpired else Inr (minTime bound expires)) else Inr bound) (\<lambda>deadline.
        let c = \<lparr>al_ID = rac_ID req, al_Lease = rac_Lease req, al_Step = rac_Step req, al_OperationID = rac_OperationID req,
              al_AuthorizationHash = rac_AuthorizationHash req, al_Kind = rac_Kind req, al_ReservedAt = now,
              al_DispatchExpiresAt = minTime (now + 2 * Second) deadline, al_Deadline = deadline, al_TransportOutcome = None, al_ObservationHash = None,
              al_ObservedAt = None\<rparr> in
        bindE (insertActionCall c r s) (\<lambda>s1. Inr (c, s1))))))"

definition ReserveActionCall ::
    "store_config \<Rightarrow> 'c read_checks \<Rightarrow> action_env \<Rightarrow> string \<Rightarrow> ReserveActionCallRequest \<Rightarrow> time \<Rightarrow> time \<Rightarrow> run_db \<times> action_db \<Rightarrow>
     RunError + ((ActionCall \<times> bool) \<times> (run_db \<times> action_db))" where
  "ReserveActionCall cfg rc ae caller req now0 now s =
     (if \<not> validateLedgerLease cfg (rac_Lease req) \<or> \<not> ValidUUID (cfg_parseUUID cfg) (rac_ID req) \<or> \<not> ValidUUID (cfg_parseUUID cfg) (rac_OperationID req) \<or>
         \<not> ValidHash (rac_AuthorizationHash req) \<or> (rac_Kind req \<noteq> ''receipt_query'' \<and> rac_Kind req \<noteq> ''action_write'') then Inl ErrInvalidArgument
      else bindE (lockRun (ls_TenantID (rac_Lease req)) (ls_RunID (rac_Lease req)) (fst s)) (\<lambda>(r, a).
      bindE (if rac_Kind req = ''action_write'' then loadAccounts (run_TenantID r) (run_BusinessRequestID r) (fst s) else Inr []) (\<lambda>accounts.
      case readAction (run_TenantID r) (run_BusinessRequestID r) (snd s) of
        None \<Rightarrow> Inl ErrInvalidTransition
      | Some action \<Rightarrow>
        if aa_RunID (sa_Authorization action) \<noteq> run_ID r \<or> aa_OperationID (sa_Authorization action) \<noteq> rac_OperationID req \<or>
           authHash (ae_business ae) action \<noteq> rac_AuthorizationHash req then Inl ErrActionConflict
        else bindE (actionExecution cfg ae caller r a (rac_Lease req) (rac_Step req) now0 (fst s)) (\<lambda>_.
        case readActionCall r (rac_ID req) (snd s) of
          Some prior \<Rightarrow>
            if al_Lease prior \<noteq> rac_Lease req \<or> al_Step prior \<noteq> rac_Step req \<or> al_Kind prior \<noteq> rac_Kind req \<or>
               al_OperationID prior \<noteq> rac_OperationID req \<or> al_AuthorizationHash prior \<noteq> rac_AuthorizationHash req then Inl ErrCallConflict
            else Inr ((prior, False), s)
        | None \<Rightarrow> bindE (grantActionCall cfg rc ae caller req action accounts now0 now r a s) (\<lambda>(c, s1). Inr ((c, True), s1))))))"

record ObserveActionCallRequest =
  oac_Lease :: Lease
  oac_ID :: string
  oac_TransportOutcome :: string
  oac_ObservationHash :: string

text \<open>The first observation of a permit is kept; a later one must be the same.\<close>

definition observeActionRow :: "ObserveActionCallRequest \<Rightarrow> time \<Rightarrow> Run \<Rightarrow> ActionCall \<Rightarrow> run_db \<times> action_db \<Rightarrow> RunError + (ActionCall \<times> (run_db \<times> action_db))" where
  "observeActionRow req now r c s =
     (case al_ObservationHash c of
        Some h \<Rightarrow> if h \<noteq> oac_ObservationHash req \<or> al_TransportOutcome c \<noteq> Some (oac_TransportOutcome req) then Inl ErrCallConflict else Inr (c, s)
      | None \<Rightarrow>
        let seen = c\<lparr>al_TransportOutcome := Some (oac_TransportOutcome req), al_ObservationHash := Some (oac_ObservationHash req), al_ObservedAt := Some now\<rparr> in
        Inr (seen, ((fst s)\<lparr>action_calls := update_where (\<lambda>x. ax_tenant x = run_TenantID r \<and> ax_run x = run_ID r \<and> ax_id x = al_ID c)
            (\<lambda>x. x\<lparr>ax_status := ''observed''\<rparr>) (action_calls (fst s))\<rparr>,
          (snd s)\<lparr>action_call_rows := update_where (actionCallKey (run_TenantID r) (run_ID r) (al_ID c)) (\<lambda>_. seen) (action_call_rows (snd s))\<rparr>)))"

definition ObserveActionCall ::
    "store_config \<Rightarrow> string \<Rightarrow> ObserveActionCallRequest \<Rightarrow> time \<Rightarrow> run_db \<times> action_db \<Rightarrow> RunError + (ActionCall \<times> (run_db \<times> action_db))" where
  "ObserveActionCall cfg caller req now s =
     (if \<not> validateLedgerLease cfg (oac_Lease req) \<or> \<not> ValidUUID (cfg_parseUUID cfg) (oac_ID req) \<or> \<not> ValidHash (oac_ObservationHash req) \<or>
         oac_TransportOutcome req \<notin> {''response'', ''timeout'', ''network_error''} then Inl ErrInvalidArgument
      else bindE (lockRun (ls_TenantID (oac_Lease req)) (ls_RunID (oac_Lease req)) (fst s)) (\<lambda>(r, _).
      case readActionCall r (oac_ID req) (snd s) of
        None \<Rightarrow> Inl ErrNotFound
      | Some c \<Rightarrow>
        bindE (checkSession cfg caller (ls_WorkerID (oac_Lease req)) (ls_SessionID (oac_Lease req)) (run_TenantID r) '''' now False (fst s)) (\<lambda>_.
        if al_Lease c \<noteq> oac_Lease req then Inl ErrStaleLease
        else observeActionRow req now r c s)))"

section \<open>Completion\<close>

record CompleteActionRequest =
  cac_Lease :: Lease
  cac_Step :: StepIdentity
  cac_Receipt :: ActionReceipt
  cac_PhysicalCallID :: string

definition actionCallStatus :: "Run \<Rightarrow> string \<Rightarrow> run_db \<Rightarrow> string option" where
  "actionCallStatus r i db = map_option ax_status (find_row (\<lambda>x. ax_tenant x = run_TenantID r \<and> ax_run x = run_ID r \<and> ax_id x = i) (action_calls db))"

text \<open>Where the receipt comes from: the recorded effect, or an observed call of this attempt that carried exactly this receipt.\<close>

definition receiptSource :: "store_config \<Rightarrow> CompleteActionRequest \<Rightarrow> EffectView \<Rightarrow> Run \<Rightarrow> run_db \<times> action_db \<Rightarrow> RunError + string" where
  "receiptSource cfg req effect r s =
     (if fv_State effect = ''applied'' then Inr ''action_response''
      else if \<not> ValidUUID (cfg_parseUUID cfg) (cac_PhysicalCallID req) then Inl ErrCallConflict
      else case readActionCall r (cac_PhysicalCallID req) (snd s) of
        None \<Rightarrow> Inl ErrNotFound
      | Some call \<Rightarrow>
        if al_Lease call \<noteq> cac_Lease req \<or> al_Step call \<noteq> cac_Step req \<or> actionCallStatus r (cac_PhysicalCallID req) (fst s) \<noteq> Some ''observed'' \<or>
           al_TransportOutcome call \<noteq> Some ''response'' \<or>
           al_ObservationHash call \<noteq> Some (Fingerprint (cfg_sha cfg) ''jobforge.run.action-receipt-observation.v1'' [rt_ReceiptHash (cac_Receipt req)])
        then Inl ErrCallConflict
        else Inr (if al_Kind call = ''receipt_query'' then ''worker_query'' else ''action_response''))"

text \<open>The step of a completed action, with its output; the Run has succeeded with the outcome \<open>applied\<close>.\<close>

definition actionStep :: "store_config \<Rightarrow> CompleteActionRequest \<Rightarrow> string \<Rightarrow> CommitStepRequest" where
  "actionStep cfg req output = \<lparr>cm_Lease = cac_Lease req, cm_Step = cac_Step req, cm_ResultJSON = output,
     cm_CommitHash = CommitHash (cfg_sha cfg) (cac_Step req) output\<rparr>"

definition completedRun :: "Run \<Rightarrow> time \<Rightarrow> Run" where
  "completedRun r now = r\<lparr>run_CursorVersion := run_CursorVersion r + 1, run_State := Succeeded, run_Outcome := Some ''applied'', run_UpdatedAt := now\<rparr>"

definition finishAction ::
    "store_config \<Rightarrow> CompleteActionRequest \<Rightarrow> string \<Rightarrow> attemptResources \<Rightarrow> time \<Rightarrow> time \<Rightarrow> Run \<Rightarrow> Authority \<Rightarrow> run_db \<Rightarrow> RunError + (CommitStepResponse \<times> run_db)" where
  "finishAction cfg req output resources now clk r a db =
     (let r1 = completedRun r now; a1 = a\<lparr>au_CheckpointBytes := au_CheckpointBytes a + int (length output)\<rparr>;
          commit = actionStep cfg req output; ref = StepReference (run_ID r) (st_Sequence (cac_Step req)) in
      bindE (insertStep commit r1 output now db) (\<lambda>db1.
      bindE (closeAttemptRecords r1 a1 resources ''succeeded'' now (setResult r1 (''final'', ''action-receipt:'' @ rt_OperationID (cac_Receipt req)) db1)) (\<lambda>(r2, a2, db2).
      bindE (appendEvent r2 a2 ''action_completed'' now db2) (\<lambda>(a3, db3).
        Inr (commitResponse r2 a3 \<lparr>as_Identity = cac_Step req, as_CommitHash = cm_CommitHash commit, as_ResultJSON = output, as_ResultRef = ref\<rparr> True,
          saveRun clk r2 a3 db3)))))"

definition CompleteAction ::
    "store_config \<Rightarrow> action_env \<Rightarrow> string \<Rightarrow> CompleteActionRequest \<Rightarrow> time \<Rightarrow> time \<Rightarrow> time \<Rightarrow> run_db \<times> action_db \<Rightarrow>
     RunError + (CommitStepResponse \<times> (run_db \<times> action_db))" where
  "CompleteAction cfg ae caller req now0 now clk s =
     (if \<not> validateLedgerLease cfg (cac_Lease req) then Inl ErrInvalidArgument
      else bindE (lockRun (ls_TenantID (cac_Lease req)) (ls_RunID (cac_Lease req)) (fst s)) (\<lambda>(r, a).
      case readAction (run_TenantID r) (run_BusinessRequestID r) (snd s) of
        None \<Rightarrow> Inl ErrActionConflict
      | Some action \<Rightarrow>
        if \<not> isOk (ReceiptValidate (ae_business ae) (cac_Receipt req) action) then Inl ErrActionConflict
        else bindE (readEffect (ae_business ae) (Some action) (snd s)) (\<lambda>effect.
        bindE (receiptSource cfg req effect r s) (\<lambda>source.
        bindE (lockAttemptResources r a (fst s)) (\<lambda>resources.
        bindE (actionExecution cfg ae caller r a (cac_Lease req) (cac_Step req) now0 (fst s)) (\<lambda>_.
        bindE (saveEffect (ae_business ae) action (cac_Receipt req) source now0 (snd s)) (\<lambda>t1.
        bindE (ae_output ae (cac_Receipt req)) (\<lambda>output.
        if run_CursorVersion r \<ge> 32 \<or> au_CheckpointBytes a + int (length output) > MaxCheckpointBytes then Inl ErrCheckpointTooLarge
        else bindE (actionExecution cfg ae caller r a (cac_Lease req) (cac_Step req) now (fst s)) (\<lambda>_.
        bindE (finishAction cfg req output resources now clk r a (fst s)) (\<lambda>(response, db1). Inr (response, (db1, t1))))))))))))"

section \<open>Recovery of receipts\<close>

definition RecoveryAction ::
    "store_config \<Rightarrow> action_env \<Rightarrow> string \<Rightarrow> string \<Rightarrow> bool \<Rightarrow> time \<Rightarrow> run_db \<times> action_db \<Rightarrow> RunError + (SignedAction option \<times> EffectView)" where
  "RecoveryAction cfg ae tenant i retry now s =
     (if \<not> ValidUUID (cfg_parseUUID cfg) i \<or> \<not> ValidIdentifier tenant then Inl ErrInvalidArgument
      else bindE (lockRun tenant i (fst s)) (\<lambda>(r, _).
      if \<not> Terminal (run_State r) \<or> (retry \<and> run_State r \<noteq> Failed \<and> run_State r \<noteq> Cancelled) then Inl ErrInvalidTransition
      else bindE (if retry then
            (case find_row (\<lambda>b. bq_TenantID b = tenant \<and> bq_ID b = run_BusinessRequestID r) (business_requests (fst s)) of
               None \<Rightarrow> Inl ErrNotFound
             | Some b \<Rightarrow> if \<not> bq_RetryUntil b > now then Inl ErrInvalidTransition else Inr ())
          else Inr ()) (\<lambda>_.
      let action = readAction tenant (run_BusinessRequestID r) (snd s) in
      bindE (readEffect (ae_business ae) action (snd s)) (\<lambda>effect.
      bindE (if action = None then Inr () else bindE (ledgerProfile cfg r False (fst s)) (\<lambda>_. Inr ())) (\<lambda>_. Inr (action, effect))))))"

definition epoch :: time where "epoch = 0"

text \<open>
  One query of a receipt at a time per tenant, and not before the gate opens. A permit lasts ten
  seconds; the next one is given a second later at the earliest.
\<close>

definition ReserveReceiptQuery ::
    "store_config \<Rightarrow> string \<Rightarrow> string \<Rightarrow> string \<Rightarrow> string \<Rightarrow> time \<Rightarrow> run_db \<times> action_db \<Rightarrow> RunError + ((string \<times> time) \<times> (run_db \<times> action_db))" where
  "ReserveReceiptQuery cfg tenant i source queryID now s =
     (if \<not> ValidUUID (cfg_parseUUID cfg) i \<or> \<not> ValidUUID (cfg_parseUUID cfg) queryID \<or> \<not> ValidIdentifier tenant \<or> (source \<noteq> ''retry'' \<and> source \<noteq> ''reconcile'')
      then Inl ErrInvalidArgument
      else bindE (lockRun tenant i (fst s)) (\<lambda>(r, _).
      case findAuthorization tenant (run_BusinessRequestID r) (snd s) of
        None \<Rightarrow> Inl ErrNotFound
      | Some z \<Rightarrow>
        if \<not> Terminal (run_State r) then Inl ErrNotFound
        else let gates = tenant_receipt_query_gates (snd s);
             gates1 = (if list_ex (\<lambda>g. qg_TenantID g = tenant) gates then gates
               else gates @ [\<lparr>qg_TenantID = tenant, qg_QueryID = None, qg_QueryUntil = None, qg_NextAllowedAt = epoch\<rparr>]) in
          (case find_row (\<lambda>g. qg_TenantID g = tenant) gates1 of
             None \<Rightarrow> Inl ErrNotFound
           | Some g \<Rightarrow>
             if qg_NextAllowedAt g > now \<or> (case qg_QueryUntil g of None \<Rightarrow> False | Some until \<Rightarrow> until > now) then Inl ErrRateLimited
             else if list_ex (\<lambda>q. qr_ID q = queryID) (action_receipt_queries (snd s)) then Inl ErrConflict
             else Inr ((queryID, now + 10 * Second), (fst s, (snd s)\<lparr>
               tenant_receipt_query_gates := update_where (\<lambda>g. qg_TenantID g = tenant)
                 (\<lambda>g. g\<lparr>qg_QueryID := Some queryID, qg_QueryUntil := Some (now + 10 * Second), qg_NextAllowedAt := now + Second\<rparr>) gates1,
               action_receipt_queries := action_receipt_queries (snd s) @ [\<lparr>qr_ID = queryID, qr_TenantID = tenant, qr_OperationID = az_OperationID z,
                 qr_SourceRunID = i, qr_Source = source, qr_ReservedAt = now, qr_Deadline = now + 10 * Second, qr_Outcome = None, qr_FinishedAt = None\<rparr>]\<rparr>)))))"

text \<open>The outcome is written once; the gate is cleared when it is still held by this query.\<close>

definition finishQuery :: "string \<Rightarrow> string \<Rightarrow> string \<Rightarrow> ReceiptQuery \<Rightarrow> time \<Rightarrow> action_db \<Rightarrow> action_db" where
  "finishQuery tenant queryID outcome q now t =
     t\<lparr>action_receipt_queries := (if qr_FinishedAt q \<noteq> None then action_receipt_queries t
         else update_where (\<lambda>q. qr_TenantID q = tenant \<and> qr_ID q = queryID) (\<lambda>q. q\<lparr>qr_Outcome := Some outcome, qr_FinishedAt := Some now\<rparr>)
           (action_receipt_queries t)),
       tenant_receipt_query_gates := update_where (\<lambda>g. qg_TenantID g = tenant \<and> qg_QueryID g = Some queryID)
         (\<lambda>g. g\<lparr>qg_QueryID := None, qg_QueryUntil := None\<rparr>) (tenant_receipt_query_gates t)\<rparr>"

definition RecordReceiptQuery ::
    "store_config \<Rightarrow> action_env \<Rightarrow> string \<Rightarrow> string \<Rightarrow> SignedAction \<Rightarrow> ActionReceipt option \<Rightarrow> string \<Rightarrow> time \<Rightarrow> run_db \<times> action_db \<Rightarrow> RunError + (run_db \<times> action_db)" where
  "RecordReceiptQuery cfg ae tenant queryID action receipt outcome now s =
     (if \<not> ValidIdentifier tenant \<or> \<not> ValidUUID (cfg_parseUUID cfg) queryID \<or> outcome \<notin> {''found'', ''absent'', ''unavailable''} \<or>
         (outcome = ''found'') \<noteq> (receipt \<noteq> None) then Inl ErrInvalidArgument
      else let env = ae_business ae; key = (\<lambda>q. qr_TenantID q = tenant \<and> qr_ID q = queryID); a = sa_Authorization action in
      case find_row key (action_receipt_queries (snd s)) of
        None \<Rightarrow> Inl ErrNotFound
      | Some q \<Rightarrow>
        if qr_FinishedAt q \<noteq> None \<and> qr_Outcome q \<noteq> Some outcome then Inl ErrActionConflict
        else if aa_TenantID a \<noteq> tenant \<or> aa_OperationID a \<noteq> qr_OperationID q then Inl ErrActionConflict
        else (case readAction tenant (aa_BusinessRequestID a) (snd s) of
          None \<Rightarrow> Inl ErrActionConflict
        | Some original \<Rightarrow>
          if aa_OperationID (sa_Authorization original) \<noteq> qr_OperationID q then Inl ErrActionConflict
          else if (case (AuthorizationHash env (sa_Authorization original), AuthorizationHash env a) of (Inr e, Inr h) \<Rightarrow> e \<noteq> h | _ \<Rightarrow> True)
          then Inl ErrActionConflict
          else bindE (case receipt of None \<Rightarrow> Inr (snd s) | Some rc \<Rightarrow> saveEffect env original rc (qr_Source q) now (snd s)) (\<lambda>t1.
            Inr (fst s, finishQuery tenant queryID outcome q now t1))))"

text \<open>
  The terminal successor of a Run whose action was authorized: it has succeeded when the effect is
  known, and has failed with an unknown outcome otherwise. It never executes.
\<close>

definition recoveredRun :: "Admission \<Rightarrow> SignedAction \<Rightarrow> EffectView \<Rightarrow> Run \<Rightarrow> time \<Rightarrow> Run \<times> (string \<times> string)" where
  "recoveredRun input action effect source now =
     (let applied = (fv_State effect = ''applied'');
          code = error_code ErrActionOutcomeUnknown in
      (source\<lparr>run_ID := ad_RunID input, run_RetryOfRunID := Some (run_ID source), run_State := (if applied then Succeeded else Failed),
         run_Outcome := (if applied then Some ''applied'' else None),
         run_Error := (if applied then None else Some \<lparr>fl_Code = code, fl_Message = code\<rparr>),
         run_AttemptNo := 0, run_RecoveryCount := 0, run_CursorVersion := 0, run_RunTimeoutSeconds := rr_RunTimeoutSeconds (ad_Retry input),
         run_RunDeadline := now + rr_RunTimeoutSeconds (ad_Retry input) * Second, run_AttemptDeadline := None, run_LeaseUntil := None, run_NextAttemptAt := None,
         run_PermissionExpiresAt := None, run_ProposalRef := None, run_StopReason := None, run_CancelRequestedAt := None, run_CreatedAt := now,
         run_UpdatedAt := now, run_TerminalAt := None, run_ContentPurgedAt := None\<rparr>,
       (''final'', (if applied then the (fv_ReceiptRef effect) else ''action-unknown:'' @ aa_OperationID (sa_Authorization action)))))"

definition recoveredAuthority :: "Admission \<Rightarrow> Authority \<Rightarrow> Authority" where
  "recoveredAuthority input a = \<lparr>au_WorkerID = '''', au_SessionID = '''', au_FencingToken = 0, au_ActiveCallID = None, au_CheckpointBytes = 0,
     au_EventSequence = 0, au_NextStepID = ad_FirstStepID input, au_NextStepKind = ResolutionOperation, au_NextInputHash = au_NextInputHash a\<rparr>"

definition insertRecovered ::
    "store_config \<Rightarrow> action_env \<Rightarrow> Admission \<Rightarrow> SignedAction \<Rightarrow> time \<Rightarrow> time \<Rightarrow> run_db \<times> action_db \<Rightarrow> RunError + ((Run \<times> bool) \<times> (run_db \<times> action_db))" where
  "insertRecovered cfg ae input expected now clk s =
     (case businessOfRun (ad_TenantID input) (ad_SourceRunID input) (fst s) of
        None \<Rightarrow> Inl ErrNotFound
      | Some b \<Rightarrow>
        bindE (lockRun (ad_TenantID input) (ad_SourceRunID input) (fst s)) (\<lambda>(source, a).
        case readAction (ad_TenantID input) (bq_ID b) (snd s) of
          None \<Rightarrow> Inl ErrActionConflict
        | Some action \<Rightarrow>
          if authHash (ae_business ae) expected \<noteq> authHash (ae_business ae) action then Inl ErrActionConflict
          else bindE (readEffect (ae_business ae) (Some action) (snd s)) (\<lambda>effect.
          if \<not> bq_RetryUntil b > now \<or> (run_State source \<noteq> Failed \<and> run_State source \<noteq> Cancelled) then Inl ErrInvalidTransition
          else let (r, result) = recoveredRun input action effect source now; a1 = recoveredAuthority input a in
          bindE (insertRun (ad_RequestHash input) r a1 (fst s)) (\<lambda>db1.
          bindE (recordRun clk r a1 ''action_retry_recorded'' now (setResult r result db1)) (\<lambda>db2.
          bindE (insertOperation (newOperation (ad_OperationID input) (ad_TenantID input) (ad_SourceRunID input) (ad_OperationKey input)
             (ad_RequestHash input) (run_ID r) now) db2) (\<lambda>db3.
          bindE (getView (ad_TenantID input) (run_ID r) db3) (\<lambda>view. Inr ((view, False), (db3, snd s)))))))))"

text \<open>
  The transaction of \<open>AdmitActionRetry\<close>; the second resolution after the locks sees the same
  database. An error other than an invalid transition is resolved once more (\<open>nowAgain\<close>).
\<close>

definition admitActionRetryTx ::
    "store_config \<Rightarrow> action_env \<Rightarrow> string \<Rightarrow> Admission \<Rightarrow> SignedAction \<Rightarrow> time \<Rightarrow> time \<Rightarrow> time \<Rightarrow> run_db \<times> action_db \<Rightarrow>
     RunError + ((Run \<times> bool) \<times> (run_db \<times> action_db))" where
  "admitActionRetryTx cfg ae aliasID input expected nowAlias now clk s =
     bindE (resolveAdmission aliasID (ad_TenantID input) (ad_OperationKey input) (ad_SourceRunID input) (ad_RequestHash input) '''' nowAlias (fst s)) (\<lambda>(reused, db1).
        case reused of
          Some r \<Rightarrow> Inr ((r, True), (db1, snd s))
        | None \<Rightarrow> insertRecovered cfg ae input expected now clk (db1, snd s))"

definition AdmitActionRetry ::
    "store_config \<Rightarrow> action_env \<Rightarrow> string \<Rightarrow> string \<Rightarrow> Admission \<Rightarrow> SignedAction \<Rightarrow> time \<Rightarrow> time \<Rightarrow> time \<Rightarrow> time \<Rightarrow> run_db \<times> action_db \<Rightarrow>
     RunError + ((Run \<times> bool) \<times> (run_db \<times> action_db))" where
  "AdmitActionRetry cfg ae aliasID aliasAgain input expected nowAlias now nowAgain clk s =
     (if \<not> isOk (RetryValidate (ad_Retry input)) \<or> \<not> ValidUUID (cfg_parseUUID cfg) (ad_RunID input) \<or> \<not> ValidUUID (cfg_parseUUID cfg) (ad_OperationID input) \<or>
         \<not> ValidUUID (cfg_parseUUID cfg) (ad_FirstStepID input) \<or> ad_RequestHash input \<noteq> RetryHash (cfg_sha cfg) (ad_Retry input) (ad_SourceRunID input)
      then Inl ErrInvalidArgument
      else case admitActionRetryTx cfg ae aliasID input expected nowAlias now clk s of
        Inr x \<Rightarrow> Inr x
      | Inl e \<Rightarrow>
        if e = ErrInvalidTransition then Inl e
        else case resolveAdmission aliasAgain (ad_TenantID input) (ad_OperationKey input) (ad_SourceRunID input) (ad_RequestHash input) '''' nowAgain (fst s) of
          Inr (Some r, db1) \<Rightarrow> Inr ((r, True), (db1, snd s))
        | _ \<Rightarrow> Inl e)"

end
