(* ===== verification/RunProgress.thy ===== *)
theory RunProgress
  imports RunCheckpointInv
begin

text \<open>
  What no transaction takes back: a Run row keeps its key, its fencing token and its cursor never
  fall, and a terminal state is final. Every transaction replaces the rows of the table by rows
  that are further on in this order, and admission appends.
\<close>

section \<open>Progress of rows\<close>

definition progress :: "Run \<times> Authority \<Rightarrow> Run \<times> Authority \<Rightarrow> bool" where
  "progress x y \<longleftrightarrow> rkey y = rkey x \<and> au_FencingToken (snd x) \<le> au_FencingToken (snd y) \<and>
     run_CursorVersion (fst x) \<le> run_CursorVersion (fst y) \<and>
     (Terminal (run_State (fst x)) \<longrightarrow> run_State (fst y) = run_State (fst x))"

definition rows_grow :: "(Run \<times> Authority) list \<Rightarrow> (Run \<times> Authority) list \<Rightarrow> bool" where
  "rows_grow rows rows' \<longleftrightarrow> (\<forall>x \<in> set rows. \<exists>y \<in> set rows'. progress x y)"

lemma progress_refl [simp]: "progress x x"
  by (simp add: progress_def)

lemma progress_trans: "progress x y \<Longrightarrow> progress y z \<Longrightarrow> progress x z"
  by (auto simp: progress_def)

lemma rows_grow_refl [simp]: "rows_grow rows rows"
  unfolding rows_grow_def using progress_refl by blast

lemma rows_grow_trans: "rows_grow a b \<Longrightarrow> rows_grow b c \<Longrightarrow> rows_grow a c"
  unfolding rows_grow_def using progress_trans by blast

lemma rows_grow_append [simp]: "rows_grow rows (rows @ new)"
  unfolding rows_grow_def set_append using progress_refl by blast

lemma rows_grow_all2: "list_all2 progress rows rows' \<Longrightarrow> rows_grow rows rows'"
  unfolding rows_grow_def by (induction rule: list_all2_induct) auto

lemma progress_row:
  "same_row r r' \<Longrightarrow> run_CursorVersion r \<le> run_CursorVersion r' \<Longrightarrow> au_FencingToken a \<le> au_FencingToken a' \<Longrightarrow> \<not> Terminal (run_State r) \<Longrightarrow>
   progress (r, a) (r', a')"
  by (simp add: progress_def same_row_def rkey_def)

section \<open>The policy makes progress\<close>

lemma ClaimExecution_progress: "ClaimExecution r a w s now = Inr (lease, r', a') \<Longrightarrow> progress (r, a) (r', a')"
  by (auto simp: progress_def rkey_def ClaimExecution_def Let_def split: if_splits)

lemma ExpireWaiting_progress: "ExpireWaiting r now = Inr r' \<Longrightarrow> progress (r, a) (r', a)"
  using ExpireWaiting_waiting [of r now r'] ExpireWaiting_effect(1) [of r now r'] by (intro progress_row) (auto simp: same_run_def same_row_def)

lemma stopIfDue_progress: "stopIfDue r now = Inr r' \<Longrightarrow> progress (r, a) (r', a)"
  by (erule stopIfDue_cases) (auto simp: progress_def rkey_def)

lemma Heartbeat_progress: "Heartbeat r a lease now = Inr r' \<Longrightarrow> progress (r, a) (r', a)"
  using Heartbeat_effect [of r a lease now r'] by (auto simp: progress_def rkey_def same_run_def)

lemma RequestCancel_progress: "RequestCancel r now = Inr r' \<Longrightarrow> progress (r, a) (r', a)"
  using RequestCancel_effect(1) [of r now r'] by (intro progress_row) (auto simp: RequestCancel_def same_run_def same_row_def split: if_splits)

lemma CloseAttempt_progress:
  assumes "CloseAttempt r a reason now = Inr (outcome, r', a')"
  shows "progress (r, a) (r', a')"
proof -
  note e = CloseAttempt_authority [OF assms]
  from assms have "same_row r r' \<and> run_CursorVersion r' = run_CursorVersion r"
    by (cases rule: CloseAttempt_cases) (auto simp: same_row_def finishRun_def)
  with e show ?thesis by (intro progress_row) auto
qed

section \<open>Row policies\<close>

text \<open>
  A row policy is a relation between the old and the new row of a Run that the lifecycle policy
  obeys: it holds across every operation of \<open>policy.go\<close>, the clearing of a closed attempt, the release
  of an active call and the stamps of a save. Then every transaction that applies the policy relates
  the tables of Runs row by row.
\<close>

locale row_policy =
  fixes R :: "Run \<times> Authority \<Rightarrow> Run \<times> Authority \<Rightarrow> bool"
  assumes row_key: "R x y \<Longrightarrow> rkey y = rkey x"
    and row_refl: "R x x"
    and row_trans: "R x y \<Longrightarrow> R y z \<Longrightarrow> R x z"
    and row_stamped: "R (r, a) (stamped clk r, a\<lparr>au_EventSequence := n\<rparr>)"
    and row_claim: "ClaimExecution r a w s now = Inr (lease, r', a') \<Longrightarrow> R (r, a) (r', a')"
    and row_expire: "ExpireWaiting r now = Inr r' \<Longrightarrow> R (r, a) (r', a)"
    and row_stop: "stopIfDue r now = Inr r' \<Longrightarrow> R (r, a) (r', a)"
    and row_heartbeat: "Heartbeat r a lease now = Inr r' \<Longrightarrow> R (r, a) (r', a)"
    and row_cancel: "RequestCancel r now = Inr r' \<Longrightarrow> R (r, a) (r', a)"
    and row_close: "CloseAttempt r a reason now = Inr (outcome, r', a') \<Longrightarrow> R (r, a) (r', a')"
    and row_clear: "R (r, a) (r\<lparr>run_LeaseUntil := None, run_AttemptDeadline := None\<rparr>,
      a\<lparr>au_WorkerID := '''', au_SessionID := '''', au_ActiveCallID := None\<rparr>)"
    and row_release: "R (r, a) (r\<lparr>run_UpdatedAt := now\<rparr>, a\<lparr>au_ActiveCallID := None\<rparr>)"
begin

lemma rows_refl: "list_all2 R rows rows"
  by (rule list_all2_refl) (rule row_refl)

lemma put_rows:
  assumes keys: "distinct (map rkey rows)" and x: "x \<in> set rows" and rel: "R x y"
  shows "list_all2 R rows (putRun y rows)"
  unfolding putRun_def
proof (rule list_all2_update_where [OF row_refl])
  fix z assume "z \<in> set rows" "rkey z = rkey y"
  with keys x row_key [OF rel] have "z = x" by (metis distinct_map inj_onD)
  with rel show "R z y" by simp
qed

lemma save_rows:
  assumes "runs db1 = runs db" "distinct (map rkey (runs db))" "(r, a) \<in> set (runs db)" "R (r, a) (r', a')"
  shows "list_all2 R (runs db) (runs (saveRun clk r' a' db1))"
proof -
  have "R (r', a') (stamped clk r', a'\<lparr>au_EventSequence := au_EventSequence a'\<rparr>)" by (rule row_stamped)
  then have "R (r, a) (stamped clk r', a')" using row_trans [OF assms(4)] by simp
  from put_rows [OF assms(2,3) this] show ?thesis by (simp add: saveRun_eq assms(1))
qed

lemma record_rows:
  assumes "recordRun clk r' a' kind now db1 = Inr db'" "runs db1 = runs db" "distinct (map rkey (runs db))" "(r, a) \<in> set (runs db)" "R (r, a) (r', a')"
  shows "list_all2 R (runs db) (runs db')"
proof -
  from recordRun_effect [OF assms(1)] obtain n evs where
    db': "db' = db1\<lparr>runs := putRun (stamped clk r', a'\<lparr>au_EventSequence := n\<rparr>) (runs db1), run_events := evs\<rparr>" by blast
  from put_rows [OF assms(3,4) row_trans [OF assms(5) row_stamped]] show ?thesis by (simp add: db' assms(2))
qed

lemma closeRun_rows:
  assumes keys: "distinct (map rkey (runs db))" and x: "(r0, a) \<in> set (runs db)" "R (r0, a) (r, a)"
    and close: "closeRun clk r a res reason now db = Inr (outcome, db')"
  shows "list_all2 R (runs db) (runs db')"
proof -
  from close obtain r1 a1 r2 a2 db1 where pol: "CloseAttempt r a reason now = Inr (outcome, r1, a1)"
    and rec: "closeAttemptRecords r1 a1 res outcome now db = Inr (r2, a2, db1)"
    and fin: "recordRun clk r2 a2 ''attempt_closed'' now db1 = Inr db'"
    by (auto simp: closeRun_def result_simps)
  note c = closeAttemptRecords_calm [OF rec]
  have "R (r1, a1) (r2, a2)" unfolding c(4,5) by (rule row_clear)
  with row_trans [OF x(2) row_trans [OF row_close [OF pol]]] have "R (r0, a) (r2, a2)" by blast
  then show ?thesis by (rule record_rows [OF fin c(2) keys x(1)])
qed

lemma close_rows:
  assumes "distinct (map rkey (runs db))" "lockRun t i db = Inr (r, a)" "closeRun clk r a res reason now db = Inr (outcome, db')"
  shows "list_all2 R (runs db) (runs db')"
  by (rule closeRun_rows [OF assms(1) _ row_refl assms(3)]) (rule conjunct1 [OF lockRun_mem [OF assms(2)]])

lemma claim_rows:
  assumes keys: "distinct (map rkey (runs db))"
    and claim: "StoreClaimRun cfg locked guard loadCheckpoint caller sid now1 now2 now3 clk db = Inr (res, db')"
  shows "list_all2 R (runs db) (runs db')"
  using claim
proof (cases rule: StoreClaimRun_cases)
  case (slots worker r a ss)
  then show ?thesis using lockSlots_quiet [OF slots(3)] rows_refl by simp
next
  case (expired worker r a ss db1 now)
  from expired(4) obtain r1 where "ExpireWaiting r now = Inr r1" "recordRun clk r1 a ''deadline_exceeded'' now db1 = Inr db'"
    by (auto simp: expireAtClaim_def result_simps)
  then show ?thesis using record_rows [OF _ _ keys expired(2)] row_expire lockSlots_quiet [OF expired(3)] by blast
next
  case (granted worker r a ss db1 lease r1 a1 checkpoint)
  from granted(4) obtain ats db2 where claim: "ClaimExecution r a caller sid now3 = Inr (lease, r1, a1)"
    and save: "saveSlots ss 1 (db1\<lparr>run_attempts := ats\<rparr>) = Inr db2" and rec: "recordRun clk r1 a1 ''claimed'' now3 db2 = Inr db'"
    by (auto simp: grantLease_def result_simps split: if_splits)
  have "runs db2 = runs db1" using arg_cong [OF saveSlots_frame [OF save], of runs] by simp
  then show ?thesis using record_rows [OF rec _ keys granted(2) row_claim [OF claim]] lockSlots_quiet [OF granted(3)] by simp
qed (simp add: rows_refl)

lemma heartbeat_rows:
  assumes keys: "distinct (map rkey (runs db))" and hb: "HeartbeatExecution cfg caller lease now clk db = Inr (res, db')"
  shows "list_all2 R (runs db) (runs db')"
  using hb
proof (cases rule: HeartbeatExecution_cases)
  case (1 r a continue until reason db1 session)
  have x: "(r, a) \<in> set (runs db)" by (rule conjunct1 [OF lockRun_mem [OF 1(1)]])
  from 1(4) have "list_all2 R (runs db) (runs db1)"
  proof (cases rule: heartbeatRun_cases)
    case (2 r1)
    then show ?thesis using record_rows [OF _ refl keys x] row_stop by blast
  next
    case (3 r1 r2)
    then show ?thesis using save_rows [OF refl keys x] row_trans [OF row_stop row_heartbeat] by blast
  qed (simp add: rows_refl)
  then show ?thesis by (simp add: 1(6) renewSession_def)
qed

lemma cancel_rows:
  assumes keys: "distinct (map rkey (runs db))" and cancel: "StoreCancelRun cfg newID tenant i key now clk db = Inr (res, db')"
  shows "list_all2 R (runs db) (runs db')"
  using cancel
proof (cases rule: StoreCancelRun_cases)
  case (accepted r a r1 db1 ops)
  have x: "(r, a) \<in> set (runs db)" by (rule conjunct1 [OF lockRun_mem [OF accepted(1)]])
  from accepted(4) have "list_all2 R (runs db) (runs db1)"
    using record_rows [OF _ refl keys x row_cancel [OF accepted(2)]] rows_refl by auto
  then show ?thesis by (simp add: accepted(5))
qed (simp add: rows_refl)

lemma sweep_rows:
  assumes keys: "distinct (map rkey (runs db))" and sweep: "sweepRun cfg tenant i now clk db = Inr (changed, db')"
  shows "list_all2 R (runs db) (runs db')"
  using sweep
proof (cases rule: sweepRun_cases)
  case (stop r a r1)
  then show ?thesis using record_rows [OF _ refl keys] row_stop lockRun_mem by blast
next
  case (close r a r1 res reason outcome)
  then show ?thesis using closeRun_rows [OF keys _ row_stop [OF close(2)] close(5)] lockRun_mem by blast
next
  case (expire r a r1)
  then show ?thesis using record_rows [OF _ refl keys] row_expire lockRun_mem by blast
qed (simp add: rows_refl)

lemma lifecycle_rows:
  assumes keys: "distinct (map rkey (runs db))"
  shows "FailExecution cfg caller lease step reason now clk db = Inr (view, db') \<Longrightarrow> list_all2 R (runs db) (runs db')"
    "AcknowledgeStop cfg caller lease now clk db = Inr (closed, db') \<Longrightarrow> list_all2 R (runs db) (runs db')"
  by (auto elim!: FailExecution_cases AcknowledgeStop_cases intro: close_rows [OF keys])

lemma observe_rows:
  assumes inv: "lifecycle_inv db" "ledger_inv db" and obs: "ObserveCall cfg caller req now db = Inr (c, db')"
  shows "list_all2 R (runs db) (runs db')"
  using obs
proof (cases rule: ObserveCall_cases)
  case (observed r a accs call profile budget settled call1 db1 hash)
  have "runs db1 = runs db" using observed(8)
    settleLedgerUsage_inv [OF inv(2) inv_parts(1) [OF inv(1)] readCall_of(1) [OF observed(1,2,4)] observed(5)]
    by (auto simp: ledger_only_def)
  then show ?thesis unfolding observed(9)
    by (intro save_rows [OF _ inv_parts(1) [OF inv(1)] conjunct1 [OF lockRun_mem [OF observed(1)]] row_release]) (simp add: updateCall_def)
qed (simp add: rows_refl)

end

lemma runs_ledger [simp]:
  "runs (saveAccount b db) = runs db" "runs (updateCall call f db) = runs db" "runs (saveLedgerAccounts accs db) = runs db"
proof -
  show "runs (saveAccount b db) = runs db" for b db by (simp add: saveAccount_def)
  then show "runs (saveLedgerAccounts accs db) = runs db" by (induction accs arbitrary: db) (simp_all add: saveLedgerAccounts_def)
qed (simp add: updateCall_def)

lemma calls_accounts [simp]: "physical_calls (saveAccount b db) = physical_calls db" "physical_calls (saveLedgerAccounts accs db) = physical_calls db"
proof -
  show "physical_calls (saveAccount b db) = physical_calls db" for b db by (simp add: saveAccount_def)
  then show "physical_calls (saveLedgerAccounts accs db) = physical_calls db" by (induction accs arbitrary: db) (simp_all add: saveLedgerAccounts_def)
qed

text \<open>The row that a reservation saves: the active call is the new call and nothing else of the Run changes.\<close>

lemma ReserveCall_row:
  assumes "ReserveCall cfg rc caller req now now2 db = Inr ((c, newly), db')"
  obtains "db' = db" | r a where "lockRun (ls_TenantID (rq_Lease req)) (ls_RunID (rq_Lease req)) db = Inr (r, a)"
    "runs db' = putRun (stamped now2 (r\<lparr>run_UpdatedAt := now\<rparr>), a\<lparr>au_ActiveCallID := Some (rq_PhysicalCallID req)\<rparr>) (runs db)"
    "physical_calls db' = physical_calls db @ [c]" "pc_PhysicalCallID c = rq_PhysicalCallID req" "pc_Lease c = rq_Lease req"
    "CheckExecution r a (rq_Lease req) now = Inr ()"
  using assms
proof (cases rule: ReserveCall_cases)
  case (granted r a accs profile)
  from granted(7) show ?thesis
  proof (cases rule: grantCall_cases)
    case (1 budget accs' binding)
    show ?thesis by (rule that(2) [OF granted(2) _ _ _ _ granted(4)]) (simp_all add: 1(4,6) saveRun_eq)
  qed
qed (rule that(1))

section \<open>Every transaction makes progress\<close>

interpretation advancing: row_policy progress
proof unfold_locales
  show "rkey y = rkey x" if "progress x y" for x y using that by (simp add: progress_def)
  show "progress (r, a) (stamped clk r, a\<lparr>au_EventSequence := n\<rparr>)" for r a clk n by (simp add: progress_def rkey_def)
  show "progress (r, a) (r\<lparr>run_LeaseUntil := None, run_AttemptDeadline := None\<rparr>,
      a\<lparr>au_WorkerID := '''', au_SessionID := '''', au_ActiveCallID := None\<rparr>)" for r a by (simp add: progress_def rkey_def)
  show "progress (r, a) (r\<lparr>run_UpdatedAt := now\<rparr>, a\<lparr>au_ActiveCallID := None\<rparr>)" for r a now by (simp add: progress_def rkey_def)
qed (auto intro: progress_trans ClaimExecution_progress ExpireWaiting_progress stopIfDue_progress Heartbeat_progress
    RequestCancel_progress CloseAttempt_progress)

lemmas record_grow = rows_grow_all2 [OF advancing.record_rows]
lemmas StoreClaimRun_grow = rows_grow_all2 [OF advancing.claim_rows]
lemmas HeartbeatExecution_grow = rows_grow_all2 [OF advancing.heartbeat_rows]
lemmas close_row_grow = rows_grow_all2 [OF advancing.close_rows]
lemmas StoreCancelRun_grow = rows_grow_all2 [OF advancing.cancel_rows]
lemmas sweepRun_grow = rows_grow_all2 [OF advancing.sweep_rows]
lemmas ObserveCall_grow = rows_grow_all2 [OF advancing.observe_rows]

lemma ReserveCall_grow:
  assumes keys: "distinct (map rkey (runs db))" and res: "ReserveCall cfg rc caller req now now2 db = Inr ((c, newly), db')"
  shows "rows_grow (runs db) (runs db')"
  using res
proof (cases rule: ReserveCall_row)
  case (2 r a)
  have "progress (r, a) (stamped now2 (r\<lparr>run_UpdatedAt := now\<rparr>), a\<lparr>au_ActiveCallID := Some (rq_PhysicalCallID req)\<rparr>)"
    by (simp add: progress_def rkey_def)
  from advancing.put_rows [OF keys conjunct1 [OF lockRun_mem [OF 2(1)]] this] show ?thesis by (simp add: 2(2) rows_grow_all2)
qed simp

lemma commitStep_grow:
  assumes inv: "lifecycle_inv db" and commit: "commitStep cfg cc caller req requireProposal nextID now0 now clk db = Inr (response, db')"
  shows "rows_grow (runs db) (runs db')"
  using commit
proof (cases rule: commitStep_cases)
  case (new r a decision resources)
  have x: "(r, a) \<in> set (runs db)" by (rule conjunct1 [OF lockRun_mem [OF new(1)]])
  from applyStep_core(3) [OF inv_parts(1) [OF inv] x new(5)] obtain r' a' where
    "runs db' = putRun (r', a') (runs db)" "same_row r r'" "run_CursorVersion r' = run_CursorVersion r + 1" "au_FencingToken a' = au_FencingToken a"
    by blast
  moreover have "run_State r = Running" by (rule CheckExecution_running [OF new(2)])
  ultimately show ?thesis using rows_grow_all2 [OF advancing.put_rows [OF inv_parts(1) [OF inv] x progress_row, of r' a']] by simp
qed simp

section \<open>What an admission appends\<close>

lemma admitNew_runs:
  assumes "admitNew cfg ck input now0 now clk db = Inr (view, db')"
  obtains r a where "fresh_run (r, a)" "run_CursorVersion r = 0" "run_ID r \<notin> (\<lambda>x. run_ID (fst x)) ` set (runs db)"
    "runs db' = runs db @ [(r, a)]" "run_steps db' = run_steps db"
  using assms
proof (cases rule: admitNew_cases)
  case (submit input' b db1)
  from submit(3) have db1: "runs db1 = runs db" "run_steps db1 = run_steps db" by (auto elim!: submitBusiness_effect)
  from submit(4) obtain r a where "fresh_run (r, a)" "run_CursorVersion r = 0" "run_ID r \<notin> (\<lambda>x. run_ID (fst x)) ` set (runs db)"
    "runs db' = runs db @ [(r, a)]" "run_steps db' = run_steps db"
    by (rule acceptRun_effect) (simp_all add: stampBusiness_def db1)
  then show ?thesis by (rule that)
next
  case (retry input' b source)
  from retry(6) obtain r a where "fresh_run (r, a)" "run_CursorVersion r = 0" "run_ID r \<notin> (\<lambda>x. run_ID (fst x)) ` set (runs db)"
    "runs db' = runs db @ [(r, a)]" "run_steps db' = run_steps db"
    by (rule acceptRun_effect)
  then show ?thesis by (rule that)
qed

lemma Admit_grow:
  assumes "Admit cfg ck aliasID input nowAlias now0 now clk db = Inr ((r, reused), db')"
  shows "rows_grow (runs db) (runs db')"
  using assms by (cases rule: Admit_cases) (auto elim!: admitNew_runs)

lemma new_run_steps:
  assumes inv: "steps_inv db" and n: "run_CursorVersion r = 0" "run_ID r \<notin> (\<lambda>x. run_ID (fst x)) ` set (runs db)"
    "runs db' = runs db @ [(r, a)]" "run_steps db' = run_steps db"
  shows "steps_inv db'"
proof -
  have "rkey (r, a) \<notin> rkey ` set (runs db)" using n(2) by (auto simp: rkey_def)
  moreover have "(sr_tenant s, sr_run s) \<in> rkey ` set (runs db)" if "s \<in> set (run_steps db)" for s
    using inv that unfolding steps_inv_def by (auto simp: image_image runcore_key)
  ultimately have "\<forall>s \<in> set (run_steps db). (sr_tenant s, sr_run s) \<noteq> rkey (r, a)" by metis
  then have "cursor_ok (run_steps db) (runcore (r, a))" using n(1) by (simp add: cursor_ok_def runcore_key stepsOf_def filter_empty_conv)
  then show ?thesis using inv unfolding steps_inv_def by (auto simp: n(3,4))
qed

lemma Admit_steps:
  assumes inv: "steps_inv db" and admit: "Admit cfg ck aliasID input nowAlias now0 now clk db = Inr ((r, reused), db')"
  shows "steps_inv db'"
  using admit
proof (cases rule: Admit_cases)
  case (new ops)
  from new(2) obtain r a where n: "run_CursorVersion r = 0" "run_ID r \<notin> (\<lambda>x. run_ID (fst x)) ` set (runs db)"
    "runs db' = runs db @ [(r, a)]" "run_steps db' = run_steps db" by (auto elim!: admitNew_runs)
  then show ?thesis by (rule new_run_steps [OF inv])
qed (use inv in \<open>auto intro: steps_frame simp: steps_same_def\<close>)

section \<open>The books of the ledger transactions\<close>

text \<open>The ledger transactions keep the business requests and the identities of the accounts.\<close>

definition same_books :: "run_db \<Rightarrow> run_db \<Rightarrow> bool" where
  "same_books db db' \<longleftrightarrow> business_requests db' = business_requests db \<and> map accID (budget_accounts db') = map accID (budget_accounts db)"

lemma saveAccount_books: "same_books db (saveAccount b db1) = same_books db db1"
proof -
  have "map accID (update_where P (\<lambda>x. x\<lparr>br_Account := savedAccount (br_Account b) (br_Account x)\<rparr>) t) = map accID t" for P t
    by (rule map_update_where) (simp add: savedAccount_def)
  then show ?thesis by (simp add: same_books_def saveAccount_def)
qed

lemma books_simps [simp]:
  "same_books db db" "same_books db (saveAccount b db1) = same_books db db1" "same_books db (saveLedgerAccounts accs db1) = same_books db db1"
  "same_books db (updateCall call f db1) = same_books db db1" "same_books db (saveRun clk r a db1) = same_books db db1"
  "same_books db (db1\<lparr>physical_calls := cs\<rparr>) = same_books db db1" "same_books db (db1\<lparr>tool_invocations := ts\<rparr>) = same_books db db1"
proof -
  show "same_books db (saveLedgerAccounts accs db1) = same_books db db1"
    by (induction accs arbitrary: db1) (simp_all add: saveLedgerAccounts_def saveAccount_books)
qed (simp_all add: saveAccount_books, simp_all add: same_books_def updateCall_def saveRun_eq)

lemma settleLedgerUsage_books:
  "settleLedgerUsage cfg call budget profile accs usage now db = Inr (settled, call', db') \<Longrightarrow> same_books db db'"
  by (erule settleLedgerUsage_cases) simp_all

lemma settleReported_books:
  assumes "settleReported cfg call budget profile accs req now db = Inr ((settled, conflict), call', db')"
  shows "same_books db db'"
proof (cases "AuditEnabled profile")
  case True
  with assms have "settleCallReport cfg call budget profile accs req now db = Inr ((settled, conflict), call', db')"
    by (simp add: settleReported_def)
  then show ?thesis by (cases rule: settleCallReport_cases) simp_all
next
  case False
  with assms show ?thesis by (auto simp: settleReported_def result_simps intro: settleLedgerUsage_books split: if_splits)
qed

lemma ledger_books:
  "BeginTool cfg rc caller breq now now2 db = Inr (started, db') \<Longrightarrow> same_books db db'"
  "ReserveCall cfg rc caller rreq now now2 db = Inr ((c, newly), db') \<Longrightarrow> same_books db db'"
  "ObserveCall cfg caller oreq now db = Inr (c, db') \<Longrightarrow> same_books db db'"
  "SettleUsage cfg caller sreq now db = Inr (res, db') \<Longrightarrow> same_books db db'"
  by (auto elim!: BeginTool_cases ReserveCall_cases grantCall_cases ObserveCall_cases SettleUsage_cases
      intro: settleLedgerUsage_books settleReported_books)

lemma books_system:
  assumes "system_inv db" "lifecycle_inv db'" "ledger_inv db'" "steps_same db db'" "same_books db db'"
  shows "system_inv db'"
  using assms admission_frame [of db db'] steps_same_biz [of db db'] by (simp add: system_inv_def same_books_def)

section \<open>The invariant of the store\<close>

definition store_inv :: "run_db \<Rightarrow> bool" where
  "store_inv db \<longleftrightarrow> system_inv db \<and> steps_inv db"

lemma store_inv_parts:
  assumes "store_inv db"
  shows "lifecycle_inv db" "ledger_inv db" "admission_inv db" "steps_inv db" "system_inv db" "distinct (map rkey (runs db))"
  using assms inv_parts(1) by (auto simp: store_inv_def system_inv_def)

lemma quiet_store: "store_inv db \<Longrightarrow> lifecycle_inv db' \<Longrightarrow> quiet db db' \<Longrightarrow> store_inv db'"
  unfolding store_inv_def using quiet_system quiet_steps by blast

end
