(* ===== verification/RunActionInv.thy ===== *)
theory RunActionInv
  imports RunAction RunProgress
begin

text \<open>
  Approvals and actions keep the invariants of the Run store: a decision releases or ends a Run
  that holds no attempt, a completed action closes its attempt like any final step, and the
  recovery of an action adds a terminal Run to its family.
\<close>

section \<open>Decisions\<close>

lemma DecideApproval_effect:
  assumes "DecideApproval sha r a request commit hash nextID now = Inr (r1, a1)"
  shows "same_run r r1" "run_State r = AwaitingApproval" "run_State r1 \<in> {Ready, Succeeded}" "run_ok r a \<Longrightarrow> run_ok r1 a1"
    "au_WorkerID a1 = au_WorkerID a" "au_SessionID a1 = au_SessionID a" "au_FencingToken a1 = au_FencingToken a"
  using assms by (auto simp: DecideApproval_def same_run_def run_ok_def split: if_splits option.splits)

lemma recordDecision_frame: "recordDecision r want i actor now db = Inr db' \<Longrightarrow> \<exists>avs. db' = db\<lparr>run_approvals := avs\<rparr>"
  by (auto simp: recordDecision_def Let_def split: if_splits)

lemma decidePending_effect:
  assumes "decidePending cfg ae actor request nextID approvalID now clk view commit r a db = Inr (r1, db')"
  obtains a1 rs avs where "DecideApproval (cfg_sha cfg) r a request commit (ApprovalHash (cfg_sha cfg) request (run_TenantID r) (run_ID r) actor) nextID now = Inr (r1, a1)"
    "recordRun clk r1 a1 (''approval_'' @ wantedStatus (aq_Decision request)) now (db\<lparr>run_results := rs, run_approvals := avs\<rparr>) = Inr db'"
proof -
  from assms obtain a1 db1 where d: "DecideApproval (cfg_sha cfg) r a request commit (ApprovalHash (cfg_sha cfg) request (run_TenantID r) (run_ID r) actor) nextID now = Inr (r1, a1)"
    and rd: "recordDecision r (wantedStatus (aq_Decision request)) approvalID actor now db = Inr db1"
    and rec: "recordRun clk r1 a1 (''approval_'' @ wantedStatus (aq_Decision request)) now
      (if aq_Decision request = ''reject'' then setResult r (''final'', ''approval:'' @ approvalID) db1 else db1) = Inr db'"
    unfolding decidePending_def Let_def by (auto simp: result_simps split: if_splits)
  from recordDecision_frame [OF rd] obtain avs where db1: "db1 = db\<lparr>run_approvals := avs\<rparr>" by blast
  define rs where "rs = run_results (if aq_Decision request = ''reject'' then setResult r (''final'', ''approval:'' @ approvalID) db1 else db1)"
  have "(if aq_Decision request = ''reject'' then setResult r (''final'', ''approval:'' @ approvalID) db1 else db1) = db\<lparr>run_results := rs, run_approvals := avs\<rparr>"
    by (simp add: rs_def db1 setResult_def Let_def)
  with d rec show thesis by (intro that [where rs = rs and avs = avs]) simp_all
qed

lemma StoreDecideApproval_cases:
  assumes "StoreDecideApproval cfg ae tenant i actor key request nextID approvalID opID now0 now clk db = Inr (answer, db')"
  obtains (reused) ops where "db' = db\<lparr>run_operations := ops\<rparr>"
    | (decided) r a view commit r1 db1 ops where "lockRun tenant i db = Inr (r, a)" "approvalView cfg ae r now0 db = Inr (view, commit)"
      "vw_Status view = ''pending''" "aq_ProposalHash request = vw_ProposalHash view"
      "decidePending cfg ae actor request nextID approvalID now clk view commit r a db = Inr (r1, db1)" "db' = db1\<lparr>run_operations := ops\<rparr>"
proof -
  define hash where "hash = ApprovalHash (cfg_sha cfg) request tenant i actor"
  from assms obtain r a view commit reused seen r1 where lock: "lockRun tenant i db = Inr (r, a)" "approvalView cfg ae r now0 db = Inr (view, commit)"
    and mid: "(if findOperation tenant ''approval'' i key db \<noteq> None then Inr (True, now0, r, db)
         else if aq_ProposalHash request \<noteq> vw_ProposalHash view then Inl ErrApprovalConflict
         else if vw_Status view \<noteq> ''pending'' then
           (if vw_Status view \<noteq> wantedStatus (aq_Decision request) \<or> vw_ActorID view \<noteq> Some actor then Inl ErrApprovalConflict
            else bindE (insertOperation (approvalOperation opID tenant i key hash now0) db) (\<lambda>db1. Inr (True, now0, r, db1)))
         else bindE (decidePending cfg ae actor request nextID approvalID now clk view commit r a db) (\<lambda>(r1, db1).
           bindE (insertOperation (approvalOperation approvalID tenant i key hash now) db1) (\<lambda>db2. Inr (False, now, r1, db2)))) = Inr (reused, seen, r1, db')"
    unfolding StoreDecideApproval_def Let_def hash_def [symmetric] if_Inl_eq_Inr by (auto simp: if_Inl_eq_Inr bindE_Inr_iff)
  show thesis
  proof (cases "findOperation tenant ''approval'' i key db \<noteq> None \<or> vw_Status view \<noteq> ''pending''")
    case True
    with mid have "db' = db \<or> (\<exists>op. insertOperation op db = Inr db')" by (auto simp: result_simps split: if_splits)
    then have "\<exists>ops. db' = db\<lparr>run_operations := ops\<rparr>" using insertOperation_frame by (metis run_db.surjective run_db.update_convs(5))
    then show thesis using reused by blast
  next
    case False
    with mid obtain db1 where d: "aq_ProposalHash request = vw_ProposalHash view"
      "decidePending cfg ae actor request nextID approvalID now clk view commit r a db = Inr (r1, db1)"
      "insertOperation (approvalOperation approvalID tenant i key hash now) db1 = Inr db'"
      by (auto simp: result_simps split: if_splits)
    from insertOperation_frame [OF d(3)] obtain ops where "db' = db1\<lparr>run_operations := ops\<rparr>" by blast
    with False lock d show thesis by (intro decided) simp_all
  qed
qed

lemma StoreDecideApproval_store:
  assumes inv: "lifecycle_inv db" and dec: "StoreDecideApproval cfg ae tenant i actor key request nextID approvalID opID now0 now clk db = Inr (answer, db')"
  shows "lifecycle_inv db'" "quiet db db'" "rows_grow (runs db) (runs db')"
proof -
  note keys = inv_parts(1) [OF inv]
  have "lifecycle_inv db' \<and> quiet db db' \<and> rows_grow (runs db) (runs db')"
    using dec
  proof (cases rule: StoreDecideApproval_cases)
    case (reused ops)
    then show ?thesis using inv_operations [OF inv] operations_quiet by simp
  next
    case (decided r a view commit r1 db1 ops)
    have x: "(r, a) \<in> set (runs db)" by (rule conjunct1 [OF lockRun_mem [OF decided(1)]])
    from decidePending_effect [OF decided(5)] obtain a1 rs avs where
      d: "DecideApproval (cfg_sha cfg) r a request commit (ApprovalHash (cfg_sha cfg) request (run_TenantID r) (run_ID r) actor) nextID now = Inr (r1, a1)"
      and rec: "recordRun clk r1 a1 (''approval_'' @ wantedStatus (aq_Decision request)) now (db\<lparr>run_results := rs, run_approvals := avs\<rparr>) = Inr db1" by blast
    note e = DecideApproval_effect [OF d]
    from recordRun_effect [OF rec] obtain n evs where
      db1: "db1 = db\<lparr>run_results := rs, run_approvals := avs, runs := putRun (stamped clk r1, a1\<lparr>au_EventSequence := n\<rparr>) (runs db), run_events := evs\<rparr>" by auto
    have li: "lifecycle_inv db'"
      by (rule save_row_inv [OF inv x, of "stamped clk r1" "a1\<lparr>au_EventSequence := n\<rparr>"])
        (use e inv_parts(4) [OF inv x] decided(6) db1 in \<open>auto simp: same_run_row same_row_def run_ok_stamped\<close>)
    have "quiet db db'" by (rule quiet_put [OF keys x, of "stamped clk r1" _ "a1\<lparr>au_EventSequence := n\<rparr>"]) (use e(1) decided(6) db1 in simp_all)
    moreover have "progress (r, a) (r1, a1)" using e by (intro progress_row) (auto simp: same_run_row)
    then have "rows_grow (runs db) (runs db')"
      using record_grow [OF rec _ keys x] decided(6) by simp
    ultimately show ?thesis using li by simp
  qed
  then show "lifecycle_inv db'" "quiet db db'" "rows_grow (runs db) (runs db')" by simp_all
qed

section \<open>Authorizations, permits and queries\<close>

lemma AuthorizeAction_run: "AuthorizeAction cfg rc ae caller lease step operationID now0 now s = Inr (answer, s') \<Longrightarrow> fst s' = fst s"
  unfolding AuthorizeAction_def by (auto simp: result_simps)

lemma insertActionCall_effect:
  assumes "insertActionCall c r s = Inr s'"
  shows "\<exists>xs. fst s' = (fst s)\<lparr>action_calls := xs\<rparr>"
    "snd s' = (snd s)\<lparr>action_call_rows := action_call_rows (snd s) @ [c],
       action_authorizations := update_where (\<lambda>z. az_TenantID z = run_TenantID r \<and> az_OperationID z = al_OperationID c) (countCall (al_Kind c))
         (action_authorizations (snd s))\<rparr>"
    "al_ID c \<notin> al_ID ` set (action_call_rows (snd s))"
  using assms by (auto simp: insertActionCall_def list_ex_iff split: if_splits)

lemma grantActionCall_cases:
  assumes "grantActionCall cfg rc ae caller req action accounts now0 now r a s = Inr (c, s')"
  obtains z where "find_row (\<lambda>z. az_TenantID z = run_TenantID r \<and> az_OperationID z = rac_OperationID req) (action_authorizations (snd s)) = Some z"
    "rac_Kind req = ''action_write'' \<Longrightarrow> az_WriteCount z < 4" "rac_Kind req \<noteq> ''action_write'' \<Longrightarrow> az_QueryCount z < 4"
    "\<forall>x \<in> set (action_call_rows (snd s)). \<not> (ls_TenantID (al_Lease x) = run_TenantID r \<and> ls_RunID (al_Lease x) = run_ID r \<and>
       ls_AttemptNo (al_Lease x) = run_AttemptNo r \<and> al_Kind x = rac_Kind req)"
    "actionExecution cfg ae caller r a (rac_Lease req) (rac_Step req) now (fst s) = Inr ()"
    "al_ID c = rac_ID req" "al_Lease c = rac_Lease req" "al_Step c = rac_Step req" "al_OperationID c = rac_OperationID req" "al_Kind c = rac_Kind req"
    "al_ReservedAt c = now" "al_Deadline c \<le> now + 10 * Second" "al_ObservationHash c = None"
    "rac_Kind req = ''action_write'' \<Longrightarrow> al_Deadline c \<le> aa_AuthorizationExpiresAt (sa_Authorization action) * 1000"
    "insertActionCall c r s = Inr s'"
proof -
  from assms obtain z deadline where z: "find_row (\<lambda>z. az_TenantID z = run_TenantID r \<and> az_OperationID z = rac_OperationID req) (action_authorizations (snd s)) = Some z"
    and allowed: "(if rac_Kind req = ''action_write'' then writeAllowed cfg rc action (az_WriteCount z) accounts now0 r a (fst s)
           else if az_QueryCount z \<ge> 4 then Inl ErrBudgetExhausted else Inr ()) = Inr ()"
    and once: "\<not> list_ex (\<lambda>c. ls_TenantID (al_Lease c) = run_TenantID r \<and> ls_RunID (al_Lease c) = run_ID r \<and> ls_AttemptNo (al_Lease c) = run_AttemptNo r \<and>
            al_Kind c = rac_Kind req) (action_call_rows (snd s))"
    and exec: "actionExecution cfg ae caller r a (rac_Lease req) (rac_Step req) now (fst s) = Inr ()"
    and deadline: "(if rac_Kind req = ''action_write'' then bindE (accountsAvailable accounts now) (\<lambda>_.
            if \<not> aa_AuthorizationExpiresAt (sa_Authorization action) * 1000 > now then Inl ErrActionAuthorizationExpired
            else Inr (minTime (callDeadline r now) (aa_AuthorizationExpiresAt (sa_Authorization action) * 1000))) else Inr (callDeadline r now)) = Inr deadline"
    and c: "c = \<lparr>al_ID = rac_ID req, al_Lease = rac_Lease req, al_Step = rac_Step req, al_OperationID = rac_OperationID req,
              al_AuthorizationHash = rac_AuthorizationHash req, al_Kind = rac_Kind req, al_ReservedAt = now,
              al_DispatchExpiresAt = minTime (now + 2 * Second) deadline, al_Deadline = deadline, al_TransportOutcome = None, al_ObservationHash = None,
              al_ObservedAt = None\<rparr>" and ins: "insertActionCall c r s = Inr s'"
    unfolding grantActionCall_def Let_def by (auto simp: bindE_Inr_iff if_Inl_eq_Inr case_option_Inr)
  have "callDeadline r now \<le> now + 10 * Second" by (simp add: callDeadline_def minTime_def)
  then have "deadline \<le> now + 10 * Second" "rac_Kind req = ''action_write'' \<Longrightarrow> deadline \<le> aa_AuthorizationExpiresAt (sa_Authorization action) * 1000"
    using deadline by (auto simp: minTime_def result_simps split: if_splits)
  then show thesis
    by (intro that [OF z _ _ _ exec _ _ _ _ _ _ _ _ _ ins])
      (use allowed once c in \<open>auto simp: list_ex_iff writeAllowed_def split: if_splits\<close>)
qed

lemma action_calls_quiet [simp]: "quiet db (db1\<lparr>action_calls := xs\<rparr>) = quiet db db1"
  by (simp add: quiet_def steps_same_def)

lemma ReserveActionCall_cases:
  assumes "ReserveActionCall cfg rc ae caller req now0 now s = Inr ((c, newly), s')"
  obtains (replay) "\<not> newly" "s' = s"
    | (granted) r a action accounts where newly "lockRun (ls_TenantID (rac_Lease req)) (ls_RunID (rac_Lease req)) (fst s) = Inr (r, a)"
      "readAction (run_TenantID r) (run_BusinessRequestID r) (snd s) = Some action" "aa_RunID (sa_Authorization action) = run_ID r"
      "aa_OperationID (sa_Authorization action) = rac_OperationID req" "rac_Kind req \<in> {''receipt_query'', ''action_write''}"
      "grantActionCall cfg rc ae caller req action accounts now0 now r a s = Inr (c, s')"
  using assms unfolding ReserveActionCall_def
  by (auto simp: if_Inl_eq_Inr bindE_Inr_iff split: option.splits if_splits)

lemma ReserveActionCall_run:
  assumes "ReserveActionCall cfg rc ae caller req now0 now s = Inr ((c, newly), s')"
  shows "\<exists>xs. fst s' = (fst s)\<lparr>action_calls := xs\<rparr>"
  using assms
proof (cases rule: ReserveActionCall_cases)
  case (granted r a action accounts)
  from granted(7) have "insertActionCall c r s = Inr s'" by (cases rule: grantActionCall_cases)
  then show ?thesis by (rule insertActionCall_effect(1))
qed (simp add: exI [of _ "action_calls (fst s)"])

lemma ObserveActionCall_cases:
  assumes "ObserveActionCall cfg caller req now s = Inr (c, s')"
  obtains (replay) "s' = s"
    | (observed) r a c0 xs where "lockRun (ls_TenantID (oac_Lease req)) (ls_RunID (oac_Lease req)) (fst s) = Inr (r, a)"
      "readActionCall r (oac_ID req) (snd s) = Some c0" "al_ObservationHash c0 = None" "al_Lease c0 = oac_Lease req"
      "c = c0\<lparr>al_TransportOutcome := Some (oac_TransportOutcome req), al_ObservationHash := Some (oac_ObservationHash req), al_ObservedAt := Some now\<rparr>"
      "s' = ((fst s)\<lparr>action_calls := xs\<rparr>,
         (snd s)\<lparr>action_call_rows := update_where (actionCallKey (run_TenantID r) (run_ID r) (al_ID c0)) (\<lambda>_. c) (action_call_rows (snd s))\<rparr>)"
proof -
  from assms obtain r a c0 where lock: "lockRun (ls_TenantID (oac_Lease req)) (ls_RunID (oac_Lease req)) (fst s) = Inr (r, a)"
    "readActionCall r (oac_ID req) (snd s) = Some c0" "al_Lease c0 = oac_Lease req"
    and row: "observeActionRow req now r c0 s = Inr (c, s')"
    unfolding ObserveActionCall_def by (auto simp: case_option_Inr if_Inl_eq_Inr bindE_Inr_iff)
  show thesis
  proof (cases "al_ObservationHash c0")
    case None
    show ?thesis by (rule observed [OF lock(1,2) None lock(3), where xs = "action_calls (fst s')"])
        (use row None in \<open>auto simp: observeActionRow_def Let_def\<close>)
  next
    case (Some h)
    with row show ?thesis using replay by (simp add: observeActionRow_def split: if_splits)
  qed
qed

lemma ObserveActionCall_run: "ObserveActionCall cfg caller req now s = Inr (c, s') \<Longrightarrow> \<exists>xs. fst s' = (fst s)\<lparr>action_calls := xs\<rparr>"
  by (erule ObserveActionCall_cases) (simp add: exI [of _ "action_calls (fst s)"], auto)

lemma ReserveReceiptQuery_run: "ReserveReceiptQuery cfg tenant i source queryID now s = Inr (permit, s') \<Longrightarrow> fst s' = fst s"
  unfolding ReserveReceiptQuery_def Let_def by (auto simp: if_Inl_eq_Inr bindE_Inr_iff case_option_Inr)

lemma RecordReceiptQuery_run: "RecordReceiptQuery cfg ae tenant queryID action receipt outcome now s = Inr s' \<Longrightarrow> fst s' = fst s"
  unfolding RecordReceiptQuery_def Let_def by (auto simp: if_Inl_eq_Inr bindE_Inr_iff case_option_Inr)

section \<open>Completion\<close>

lemma CompleteAction_cases:
  assumes "CompleteAction cfg ae caller req now0 now clk s = Inr (response, s')"
  obtains r a action effect source resources out where
    "lockRun (ls_TenantID (cac_Lease req)) (ls_RunID (cac_Lease req)) (fst s) = Inr (r, a)"
    "readAction (run_TenantID r) (run_BusinessRequestID r) (snd s) = Some action"
    "isOk (ReceiptValidate (ae_business ae) (cac_Receipt req) action)"
    "readEffect (ae_business ae) (Some action) (snd s) = Inr effect" "receiptSource cfg req effect r s = Inr source"
    "lockAttemptResources r a (fst s) = Inr resources"
    "saveEffect (ae_business ae) action (cac_Receipt req) source now0 (snd s) = Inr (snd s')"
    "actionExecution cfg ae caller r a (cac_Lease req) (cac_Step req) now (fst s) = Inr ()"
    "finishAction cfg req out resources now clk r a (fst s) = Inr (response, fst s')"
  using assms unfolding CompleteAction_def by (auto simp: if_Inl_eq_Inr bindE_Inr_iff case_option_Inr)

lemma actionExecution_effect:
  assumes "actionExecution cfg ae caller r a lease step now db = Inr ()"
  shows "st_Kind step = ResolutionOperation" "CheckExecution r a lease now = Inr ()" "CheckStep (cfg_parseUUID cfg) r a step = Inr ()"
  using assms by (auto simp: actionExecution_def ledgerExecution_def result_simps split: if_splits)

lemma finishAction_effect:
  assumes "finishAction cfg req out resources now clk r a db = Inr (response, db')"
  obtains rs a1 r2 a2 db2 where "a1 = a\<lparr>au_CheckpointBytes := au_CheckpointBytes a + int (length out)\<rparr>"
    "closeAttemptRecords (completedRun r now) a1 resources ''succeeded'' now
       (db\<lparr>run_steps := run_steps db @ [newStep (actionStep cfg req out) (completedRun r now) out now], run_results := rs\<rparr>) = Inr (r2, a2, db2)"
    "recordRun clk r2 a2 ''action_completed'' now db2 = Inr db'" "cp_AttemptClosed response"
proof -
  from assms obtain db1 r2 a2 db2 a3 db3 where ins: "insertStep (actionStep cfg req out) (completedRun r now) out now db = Inr db1"
    and cl: "closeAttemptRecords (completedRun r now) (a\<lparr>au_CheckpointBytes := au_CheckpointBytes a + int (length out)\<rparr>) resources ''succeeded'' now
        (setResult (completedRun r now) (''final'', ''action-receipt:'' @ rt_OperationID (cac_Receipt req)) db1) = Inr (r2, a2, db2)"
    and ev: "appendEvent r2 a2 ''action_completed'' now db2 = Inr (a3, db3)" "db' = saveRun clk r2 a3 db3" and resp: "cp_AttemptClosed response"
    unfolding finishAction_def Let_def by (auto simp: result_simps commitResponse_def)
  have "recordRun clk r2 a2 ''action_completed'' now db2 = Inr db'" using ev by (simp add: recordRun_def)
  then show thesis using that [OF refl _ _ resp] cl insertStep_effect(1) [OF ins] by (simp add: setResult_def Let_def)
qed

lemma finishAction_store:
  assumes inv: "store_inv db" and x: "(r, a) \<in> set (runs db)" and res: "lockAttemptResources r a db = Inr resources"
    and exec: "CheckExecution r a lease now = Inr ()" "CheckStep (cfg_parseUUID cfg) r a (cac_Step req) = Inr ()"
    and fin: "finishAction cfg req out resources now clk r a db = Inr (response, db')"
  shows "store_inv db' \<and> rows_grow (runs db) (runs db')"
proof -
  note p = store_inv_parts [OF inv]
  from fin obtain rs a1 r2 a2 db2 where a1: "a1 = a\<lparr>au_CheckpointBytes := au_CheckpointBytes a + int (length out)\<rparr>"
    and cl: "closeAttemptRecords (completedRun r now) a1 resources ''succeeded'' now
       (db\<lparr>run_steps := run_steps db @ [newStep (actionStep cfg req out) (completedRun r now) out now], run_results := rs\<rparr>) = Inr (r2, a2, db2)"
    and rec: "recordRun clk r2 a2 ''action_completed'' now db2 = Inr db'" by (rule finishAction_effect)
  define step where "step = newStep (actionStep cfg req out) (completedRun r now) out now"
  define db1 where "db1 = db\<lparr>run_steps := run_steps db @ [step], run_results := rs\<rparr>"
  note cl = cl [folded step_def, folded db1_def]
  have run: "run_State r = Running" by (rule CheckExecution_running [OF exec(1)])
  have same: "same_row r (completedRun r now)" by (simp add: same_row_def completedRun_def)
  have inv1: "lifecycle_inv db1" unfolding db1_def by (rule inv_frame_eq [OF p(1)]) simp_all
  from lockAttemptResources_effect [OF res inv_parts(2) [OF p(1)]] have res1: "resources_of r a db1 resources"
    by (rule resources_frame) (simp add: db1_def)
  note c = closeAttemptRecords_calm [OF cl]
  have "run_ok r2 a2" using inv_parts(4) [OF p(1) x] run by (auto simp: c(4,5) a1 completedRun_def run_ok_def)
  then have li: "lifecycle_inv db'"
    by (intro close_records_inv [OF inv1 _ _ same _ res1 cl _ rec]) (use x run in \<open>simp_all add: db1_def completedRun_def\<close>)
  have same2: "same_row r r2" using same by (simp add: c(4) same_row_def)
  have "calm db db1" by (simp add: calm_def db1_def list_all2_refl)
  moreover have "calm db2 db'" by (rule calm_record [OF _ _ same2 rec]) (use p(6) x c(2) in \<open>simp_all add: db1_def\<close>)
  ultimately have calm: "calm db db'" using c(1) calm_trans by blast
  from recordRun_effect [OF rec] obtain n evs where
    db': "db' = db2\<lparr>runs := putRun (stamped clk r2, a2\<lparr>au_EventSequence := n\<rparr>) (runs db2), run_events := evs\<rparr>" by blast
  have "steps_inv db'"
    by (rule commit_steps [OF p(4) p(6) x, of "stamped clk r2" step _ "a2\<lparr>au_EventSequence := n\<rparr>"])
      (use same2 CheckStep_sequence [OF exec(2)] c(2,3,4) db' in
        \<open>auto simp: step_def newStep_def actionStep_def rkey_def same_row_def completedRun_def db1_def\<close>)
  moreover have "progress (r, a) (r2, a2)"
    by (rule progress_row) (use same2 run in \<open>simp_all add: c(4,5) a1 completedRun_def\<close>)
  then have "rows_grow (runs db) (runs db')" using record_grow [OF rec _ p(6) x] c(2) by (simp add: db1_def)
  ultimately show ?thesis using calm_system [OF p(5) li calm] by (simp add: store_inv_def)
qed

lemma CompleteAction_store:
  assumes inv: "store_inv (fst s)" and fin: "CompleteAction cfg ae caller req now0 now clk s = Inr (response, s')"
  shows "store_inv (fst s') \<and> rows_grow (runs (fst s)) (runs (fst s'))"
  using fin
proof (cases rule: CompleteAction_cases)
  case (1 r a action effect source resources out)
  show ?thesis by (rule finishAction_store [OF inv conjunct1 [OF lockRun_mem [OF 1(1)]] 1(6) actionExecution_effect(2,3) [OF 1(8)] 1(9)])
qed

section \<open>Recovery\<close>

text \<open>The rows of \<open>run_operations\<close> that record decisions on approvals.\<close>

abbreviation approvalScope :: "Operation \<Rightarrow> bool" where
  "approvalScope \<equiv> (\<lambda>x. take 9 (op_Scope x) = ''approval:'')"

lemma insertOperation_scope:
  assumes "insertOperation new db = Inr db'" "op_Kind new \<in> {''submit'', ''retry'', ''cancel''}"
  shows "filter approvalScope (run_operations db') = filter approvalScope (run_operations db)"
  using assms unfolding insertOperation_def by (auto simp: operationScope_def result_simps split: if_splits option.splits)

lemma recoveredRun_effect:
  assumes "recoveredRun input action effect source now = (r, result)"
  shows "run_ID r = ad_RunID input" "run_TenantID r = run_TenantID source" "run_BusinessRequestID r = run_BusinessRequestID source"
    "run_RetryOfRunID r = Some (run_ID source)" "run_State r \<in> {Succeeded, Failed}" "run_CursorVersion r = 0" "run_ok r (recoveredAuthority input a)"
    "run_State r = Succeeded \<longleftrightarrow> fv_State effect = ''applied''" "run_AttemptNo r = 0" "run_ProposalRef r = None"
proof -
  have "r = fst (recoveredRun input action effect source now)" by (simp add: assms)
  then show "run_ID r = ad_RunID input" "run_TenantID r = run_TenantID source" "run_BusinessRequestID r = run_BusinessRequestID source"
    "run_RetryOfRunID r = Some (run_ID source)" "run_State r \<in> {Succeeded, Failed}" "run_CursorVersion r = 0" "run_ok r (recoveredAuthority input a)"
    "run_State r = Succeeded \<longleftrightarrow> fv_State effect = ''applied''" "run_AttemptNo r = 0" "run_ProposalRef r = None"
    by (simp_all add: recoveredRun_def recoveredAuthority_def run_ok_def MaxRecoveries_def Let_def)
qed

lemma insertRecovered_effect:
  assumes "insertRecovered cfg ae input expected now clk s = Inr ((view, reused), s')"
  obtains source sa r a ops evs hs rs where "(source, sa) \<in> set (runs (fst s))" "run_State source \<in> {Failed, Cancelled}"
    "run_TenantID r = run_TenantID source" "run_BusinessRequestID r = run_BusinessRequestID source"
    "run_RetryOfRunID r = Some (run_ID source)" "run_State r \<in> {Succeeded, Failed}" "run_CursorVersion r = 0" "run_ok r a"
    "run_ID r \<notin> (\<lambda>x. run_ID (fst x)) ` set (runs (fst s))" "Some (run_ID source) \<notin> (\<lambda>x. run_RetryOfRunID (fst x)) ` set (runs (fst s))"
    "fst s' = (fst s)\<lparr>runs := runs (fst s) @ [(r, a)], run_operations := ops, run_events := evs, admission_hashes := hs, run_results := rs\<rparr>"
    "snd s' = snd s" "\<not> reused" "run_AttemptNo r = 0" "run_ProposalRef r = None" "filter approvalScope ops = filter approvalScope (run_operations (fst s))"
proof -
  define body where "body = (\<lambda>sa (r, result). bindE (insertRun (ad_RequestHash input) r (recoveredAuthority input sa) (fst s)) (\<lambda>db1.
          bindE (recordRun clk r (recoveredAuthority input sa) ''action_retry_recorded'' now (setResult r result db1)) (\<lambda>db2.
          bindE (insertOperation (newOperation (ad_OperationID input) (ad_TenantID input) (ad_SourceRunID input) (ad_OperationKey input)
             (ad_RequestHash input) (run_ID r) now) db2) (\<lambda>db3.
          bindE (getView (ad_TenantID input) (run_ID r) db3) (\<lambda>view. Inr ((view, False), (db3, snd s)))))))"
  from assms obtain source sa action effect where lock: "lockRun (ad_TenantID input) (ad_SourceRunID input) (fst s) = Inr (source, sa)"
    and st: "run_State source \<in> {Failed, Cancelled}" and rest: "body sa (recoveredRun input action effect source now) = Inr ((view, reused), s')"
    unfolding insertRecovered_def Let_def body_def by (auto simp: if_Inl_eq_Inr bindE_Inr_iff case_option_Inr simp del: split_paired_Ex split_paired_All split: if_splits)
  obtain r0 result where rec: "recoveredRun input action effect source now = (r0, result)" by (cases "recoveredRun input action effect source now")
  from rest obtain db1 db2 db3 where ins: "insertRun (ad_RequestHash input) r0 (recoveredAuthority input sa) (fst s) = Inr db1"
    and ev: "recordRun clk r0 (recoveredAuthority input sa) ''action_retry_recorded'' now (setResult r0 result db1) = Inr db2"
    and op: "insertOperation (newOperation (ad_OperationID input) (ad_TenantID input) (ad_SourceRunID input) (ad_OperationKey input)
             (ad_RequestHash input) (run_ID r0) now) db2 = Inr db3" and s': "s' = (db3, snd s)" "\<not> reused"
    unfolding rec body_def by (auto simp: bindE_Inr_iff)
  define a0 where "a0 = recoveredAuthority input sa"
  note e = recoveredRun_effect [OF rec] and i = insertRun_effect [OF ins]
  from recordRun_effect [OF ev] obtain n evs where
    db2: "db2 = (setResult r0 result db1)\<lparr>runs := putRun (stamped clk r0, a0\<lparr>au_EventSequence := n\<rparr>) (runs (setResult r0 result db1)), run_events := evs\<rparr>"
    unfolding a0_def by blast
  have "rkey (stamped clk r0, a0\<lparr>au_EventSequence := n\<rparr>) \<notin> rkey ` set (runs (fst s))" using i(1) by (auto simp: rkey_def)
  then have runs2: "runs db2 = runs (fst s) @ [(stamped clk r0, a0\<lparr>au_EventSequence := n\<rparr>)]"
    unfolding db2 i(3) a0_def [symmetric] by (simp add: setResult_def Let_def putRun_append rkey_def)
  from insertOperation_frame [OF op] obtain ops where db3: "db3 = db2\<lparr>run_operations := ops\<rparr>" by blast
  have "filter approvalScope ops = filter approvalScope (run_operations (fst s))"
    using insertOperation_scope [OF op] i(3) by (simp add: db3 db2 newOperation_def admissionKind_def setResult_def Let_def)
  moreover have "run_ok (stamped clk r0) (a0\<lparr>au_EventSequence := n\<rparr>)" using e(7) [of sa] by (simp add: run_ok_stamped a0_def)
  moreover have "run_RetryOfRunID (stamped clk r0) = Some (run_ID source)" "run_BusinessRequestID (stamped clk r0) = run_BusinessRequestID source"
    "run_CursorVersion (stamped clk r0) = 0" "run_ProposalRef (stamped clk r0) = None" using e(3,4,6,10) by (simp_all add: stamped_def)
  ultimately show thesis
    by (intro that [where source = source and sa = sa and r = "stamped clk r0" and a = "a0\<lparr>au_EventSequence := n\<rparr>" and ops = ops and evs = evs and
        hs = "admission_hashes db1" and rs = "run_results db2"])
      (use lockRun_mem [OF lock] st e i s' runs2 in \<open>auto simp: db3 db2 setResult_def Let_def\<close>)
qed

lemma insertRecovered_store:
  assumes inv: "store_inv (fst s)" and ins: "insertRecovered cfg ae input expected now clk s = Inr ((view, reused), s')"
  shows "store_inv (fst s') \<and> rows_grow (runs (fst s)) (runs (fst s'))"
  using ins
proof (cases rule: insertRecovered_effect)
  case (1 source sa r a ops evs hs rs)
  note p = store_inv_parts [OF inv]
  have runs': "runs (fst s') = runs (fst s) @ [(r, a)]" by (simp add: 1(11))
  have biz: "map bizkey (runs (fst s')) = map bizkey (runs (fst s)) @ [(rkey (r, a), (run_BusinessRequestID source, Some (run_ID source)))]"
    using 1(4,5) by (simp add: bizkey_def runs')
  have mem: "((fst (rkey (r, a)), run_ID source), (run_BusinessRequestID source, run_RetryOfRunID source)) \<in> set (map bizkey (runs (fst s)))"
    using 1(1,3) by (force simp: bizkey_def rkey_def image_iff)
  have "admission_inv (fst s')" unfolding admission_inv_def biz
    using admission_ok_retry [OF _ _ _ mem, of "business_requests (fst s)" "map accID (budget_accounts (fst s))"] p(3) 1(9,10)
    by (simp add: 1(11) admission_inv_def snd_fst_bizkey retries_bizkey rkey_def del: map_map)
  then have "system_inv (fst s')"
    by (intro admit_system [OF p(5) 1(8) _ 1(9) runs', where bs = "[]" and accs = "[]"]) (use 1(6) in \<open>auto simp: 1(11)\<close>)
  moreover have "steps_inv (fst s')" by (rule new_run_steps [OF p(4) 1(7,9) runs']) (simp add: 1(11))
  ultimately show ?thesis by (simp add: store_inv_def runs')
qed

text \<open>What resolving an admission adds is never the operation of an approval.\<close>

lemma resolveAdmission_scope:
  assumes "resolveAdmission aliasID tenant key sourceID hash businessKey now db = Inr (res, db')"
  shows "filter approvalScope (run_operations db') = filter approvalScope (run_operations db)"
proof -
  have "db' = db \<or> (\<exists>i h. aliasAdmission aliasID tenant key sourceID hash i h now db = Inr (res, db'))"
    using assms unfolding resolveAdmission_def by (auto simp: result_simps split: option.splits if_splits)
  then show ?thesis
    by (auto simp: aliasAdmission_def result_simps newOperation_def admissionKind_def dest!: insertOperation_scope split: if_splits)
qed

lemma AdmitActionRetry_cases:
  assumes "AdmitActionRetry cfg ae aliasID aliasAgain input expected nowAlias now nowAgain clk s = Inr ((view, reused), s')"
  obtains (reused) ops where reused "fst s' = (fst s)\<lparr>run_operations := ops\<rparr>" "snd s' = snd s"
      "filter approvalScope ops = filter approvalScope (run_operations (fst s))"
    | (recovered) ops where "insertRecovered cfg ae input expected now clk ((fst s)\<lparr>run_operations := ops\<rparr>, snd s) = Inr ((view, reused), s')"
      "filter approvalScope ops = filter approvalScope (run_operations (fst s))"
proof -
  define again where "again = resolveAdmission aliasAgain (ad_TenantID input) (ad_OperationKey input) (ad_SourceRunID input) (ad_RequestHash input) '''' nowAgain (fst s)"
  from assms consider (tx) "admitActionRetryTx cfg ae aliasID input expected nowAlias now clk s = Inr ((view, reused), s')"
    | (retry) db1 where "again = Inr (Some view, db1)" "s' = (db1, snd s)" reused
    unfolding AdmitActionRetry_def again_def [symmetric] by (auto simp: if_Inl_eq_Inr split: sum.splits if_splits option.splits)
  then show thesis
  proof cases
    case tx
    from tx obtain res db1 where resolve: "resolveAdmission aliasID (ad_TenantID input) (ad_OperationKey input) (ad_SourceRunID input)
        (ad_RequestHash input) '''' nowAlias (fst s) = Inr (res, db1)"
      and rest: "(case res of Some r \<Rightarrow> Inr ((r, True), (db1, snd s)) | None \<Rightarrow> insertRecovered cfg ae input expected now clk (db1, snd s)) = Inr ((view, reused), s')"
      unfolding admitActionRetryTx_def by (auto simp: bindE_Inr_iff)
    from resolveAdmission_frame [OF resolve] obtain ops where db1: "db1 = (fst s)\<lparr>run_operations := ops\<rparr>" by blast
    have "filter approvalScope ops = filter approvalScope (run_operations (fst s))" using resolveAdmission_scope [OF resolve] by (simp add: db1)
    then show ?thesis by (cases res) (use rest db1 reused recovered in auto)
  next
    case retry
    from resolveAdmission_frame [OF retry(1) [unfolded again_def]] obtain ops where db1: "db1 = (fst s)\<lparr>run_operations := ops\<rparr>" by blast
    show ?thesis by (rule reused [of ops]) (use retry db1 resolveAdmission_scope [OF retry(1) [unfolded again_def]] in simp_all)
  qed
qed

lemma AdmitActionRetry_store:
  assumes inv: "store_inv (fst s)"
    and admit: "AdmitActionRetry cfg ae aliasID aliasAgain input expected nowAlias now nowAgain clk s = Inr ((view, reused), s')"
  shows "store_inv (fst s') \<and> rows_grow (runs (fst s)) (runs (fst s'))"
proof -
  note p = store_inv_parts [OF inv]
  have ops: "store_inv ((fst s)\<lparr>run_operations := ops\<rparr>)" for ops
    by (rule quiet_store [OF inv]) (simp_all add: inv_operations p(1))
  from admit show ?thesis
  proof (cases rule: AdmitActionRetry_cases)
    case (reused xs)
    then show ?thesis using ops [of xs] by simp
  next
    case (recovered xs)
    from insertRecovered_store [OF _ recovered(1)] ops [of xs] show ?thesis by simp
  qed
qed

end
