(* ===== verification/RunSystem.thy ===== *)
theory RunSystem
  imports RunActionInv
begin

text \<open>
  The Run store as a transition system: from an empty database, any interleaving of the committed
  transactions of the store, at any times and with any arguments. The deployment is \<open>cfg\<close>, the
  read-only checks are \<open>rc\<close> and \<open>cc\<close>. Approvals and actions work on the pair of the Run database and
  the tables of actions; the Run store takes their steps with any tables beside it. The interfaces of the prelude are interpreted on it: the
  invariants of slots and attempts, of accounts and calls, of business requests and of steps hold
  in every reachable database, and the store is fenced by the Run's token.
\<close>

section \<open>The transitions\<close>

definition empty_store :: run_db where
  "empty_store = \<lparr>runs = [], run_attempts = [], execution_slots = [], worker_sessions = [], run_operations = [], run_events = [],
     physical_calls = [], tool_invocations = [], action_calls = [], budget_accounts = [], budget_batch_tenants = [],
     business_requests = [], agent_profiles = [], run_steps = [], admission_hashes = [], run_results = [], run_approvals = []\<rparr>"

text \<open>Setup by the administrator and the admission of Runs.\<close>

inductive setup_step :: "store_config \<Rightarrow> run_db \<Rightarrow> run_db \<Rightarrow> bool"
  for cfg :: store_config where
  budget: "CreateBudget cfg pgUUID spec db = Inr db' \<Longrightarrow> setup_step cfg db db'"
| bind: "BindBudgetTenant pgUUID tenant batch account db = Inr db' \<Longrightarrow> setup_step cfg db db'"
| profiles: "EnsureProfiles validate ps db = (failure, db') \<Longrightarrow> setup_step cfg db db'"
| admit: "Admit cfg ck aliasID input nowAlias now0 now clk db = Inr ((r, reused), db') \<Longrightarrow> setup_step cfg db db'"
| resolve: "resolveAdmission aliasID tenant key sourceID hash businessKey now db = Inr (found, db') \<Longrightarrow> setup_step cfg db db'"

text \<open>Sessions, claims and the ends of attempts.\<close>

inductive lifecycle_step :: "store_config \<Rightarrow> 'c read_checks \<Rightarrow> run_db \<Rightarrow> run_db \<Rightarrow> bool"
  for cfg :: store_config and rc :: "'c read_checks" where
  register: "Register cfg newID caller startup version now db = Inr (session, db') \<Longrightarrow> lifecycle_step cfg rc db db'"
| session: "HeartbeatSession cfg caller w sid now db = Inr (session, db') \<Longrightarrow> lifecycle_step cfg rc db db'"
| claim: "StoreClaimRun cfg locked (rc_guard rc) (rc_loadCheckpoint rc) caller sid now1 now2 now3 clk db = Inr (granted, db') \<Longrightarrow>
    lifecycle_step cfg rc db db'"
| heartbeat: "HeartbeatExecution cfg caller lease now clk db = Inr (hb, db') \<Longrightarrow> lifecycle_step cfg rc db db'"
| fail: "FailExecution cfg caller lease step reason now clk db = Inr (view, db') \<Longrightarrow> lifecycle_step cfg rc db db'"
| stopped: "AcknowledgeStop cfg caller lease now clk db = Inr (closed, db') \<Longrightarrow> lifecycle_step cfg rc db db'"
| cancel: "StoreCancelRun cfg newID tenant i key now clk db = Inr (cancelled, db') \<Longrightarrow> lifecycle_step cfg rc db db'"
| sweep: "sweepRun cfg tenant i now clk db = Inr (changed, db') \<Longrightarrow> lifecycle_step cfg rc db db'"

text \<open>The executing worker: tools, calls, usage and steps.\<close>

inductive ledger_step :: "store_config \<Rightarrow> 'c read_checks \<Rightarrow> 'c commit_checks \<Rightarrow> run_db \<Rightarrow> run_db \<Rightarrow> bool"
  for cfg :: store_config and rc :: "'c read_checks" and cc :: "'c commit_checks" where
  tool: "BeginTool cfg rc caller breq now now2 db = Inr (started, db') \<Longrightarrow> ledger_step cfg rc cc db db'"
| reserve: "ReserveCall cfg rc caller rreq now now2 db = Inr ((c, newly), db') \<Longrightarrow> ledger_step cfg rc cc db db'"
| observe: "ObserveCall cfg caller oreq now db = Inr (c, db') \<Longrightarrow> ledger_step cfg rc cc db db'"
| settle: "SettleUsage cfg caller sreq now db = Inr (settled, db') \<Longrightarrow> ledger_step cfg rc cc db db'"
| commit: "commitStep cfg cc caller creq requireProposal nextID now0 now clk db = Inr (response, db') \<Longrightarrow> ledger_step cfg rc cc db db'"

inductive store_step :: "store_config \<Rightarrow> 'c read_checks \<Rightarrow> 'c commit_checks \<Rightarrow> run_db \<Rightarrow> run_db \<Rightarrow> bool"
  for cfg :: store_config and rc :: "'c read_checks" and cc :: "'c commit_checks" where
  on_setup: "setup_step cfg db db' \<Longrightarrow> store_step cfg rc cc db db'"
| on_lifecycle: "lifecycle_step cfg rc db db' \<Longrightarrow> store_step cfg rc cc db db'"
| on_ledger: "ledger_step cfg rc cc db db' \<Longrightarrow> store_step cfg rc cc db db'"

text \<open>Approvals and actions, on the pair of the two groups of tables.\<close>

inductive action_step :: "store_config \<Rightarrow> 'c read_checks \<Rightarrow> action_env \<Rightarrow> run_db \<times> action_db \<Rightarrow> run_db \<times> action_db \<Rightarrow> bool"
  for cfg :: store_config and rc :: "'c read_checks" and ae :: action_env where
  decide: "StoreDecideApproval cfg ae tenant i actor key request nextID approvalID opID now0 now clk db = Inr (answer, db') \<Longrightarrow>
    action_step cfg rc ae (db, t) (db', t)"
| authorize: "AuthorizeAction cfg rc ae caller lease step operationID now0 now s = Inr (signed, s') \<Longrightarrow> action_step cfg rc ae s s'"
| permit: "ReserveActionCall cfg rc ae caller rreq now0 now s = Inr ((call, newly), s') \<Longrightarrow> action_step cfg rc ae s s'"
| see: "ObserveActionCall cfg caller oreq now s = Inr (seen, s') \<Longrightarrow> action_step cfg rc ae s s'"
| complete: "CompleteAction cfg ae caller creq now0 now clk s = Inr (response, s') \<Longrightarrow> action_step cfg rc ae s s'"
| ask: "ReserveReceiptQuery cfg tenant i source queryID now s = Inr (granted, s') \<Longrightarrow> action_step cfg rc ae s s'"
| answer: "RecordReceiptQuery cfg ae tenant queryID action receipt outcome now s = Inr s' \<Longrightarrow> action_step cfg rc ae s s'"
| recover: "AdmitActionRetry cfg ae aliasID aliasAgain input expected nowAlias now nowAgain clk s = Inr ((view, reused), s') \<Longrightarrow> action_step cfg rc ae s s'"

section \<open>Preservation\<close>

lemma only_steps_same: "ledger_only db db' \<Longrightarrow> steps_same db db'"
  by (simp add: ledger_only_def steps_same_def)

lemma ledger_store:
  "store_inv db \<Longrightarrow> lifecycle_inv db' \<Longrightarrow> ledger_inv db' \<Longrightarrow> steps_same db db' \<Longrightarrow> same_books db db' \<Longrightarrow> store_inv db'"
  unfolding store_inv_def using books_system steps_frame by blast

lemma setup_store:
  assumes "store_inv db" "system_inv db'" "runs db' = runs db" "run_steps db' = run_steps db"
  shows "store_inv db'" "rows_grow (runs db) (runs db')"
  using assms steps_frame [of db db'] by (simp_all add: store_inv_def steps_same_def)

lemma CreateBudget_runs:
  assumes "CreateBudget cfg pgUUID spec db = Inr db'"
  shows "runs db' = runs db \<and> run_steps db' = run_steps db"
  using assms by (auto simp: CreateBudget_def Let_def elim!: insertBudget_effect split: if_splits option.splits)

lemma EnsureProfiles_runs:
  "runs (snd (EnsureProfiles validate ps db)) = runs db \<and> run_steps (snd (EnsureProfiles validate ps db)) = run_steps db"
proof (induction ps arbitrary: db)
  case (Cons p ps)
  show ?case using Cons.IH [of db] Cons.IH [of "db\<lparr>agent_profiles := agent_profiles db @ [storedProfile p]\<rparr>"]
    by (auto simp: Let_def split: sum.split option.split)
qed simp

lemma lifecycle_quiet_steps:
  assumes inv: "store_inv db"
  shows "Register cfg newID caller startup version now db = Inr (s, db') \<Longrightarrow> lifecycle_inv db' \<and> quiet db db' \<and> runs db' = runs db"
    "HeartbeatSession cfg caller w sid now db = Inr (s, db') \<Longrightarrow> lifecycle_inv db' \<and> quiet db db' \<and> runs db' = runs db"
    "resolveAdmission aliasID tenant key sourceID hash businessKey now db = Inr (found, db') \<Longrightarrow>
       lifecycle_inv db' \<and> quiet db db' \<and> runs db' = runs db"
  using inv_sessions [OF store_inv_parts(1) [OF inv]] inv_operations [OF store_inv_parts(1) [OF inv]] store_inv_parts(1) [OF inv]
  by (auto elim!: Register_cases HeartbeatSession_frame dest!: resolveAdmission_frame)

lemma close_store:
  assumes inv: "store_inv db" and close: "lockRun t i db = Inr (r, a)" "lockClosingAttemptResources cfg r a db = Inr res"
      "closeRun clk r a res reason now db = Inr (outcome, db')"
  shows "store_inv db' \<and> rows_grow (runs db) (runs db')"
  using quiet_store [OF inv close_row_inv [OF store_inv_parts(1) [OF inv] close] close_row_quiet [OF store_inv_parts(6) [OF inv] close(1,3)]]
    close_row_grow [OF store_inv_parts(6) [OF inv] close(1,3)] by blast

text \<open>One step keeps the invariant and only moves the Run rows on.\<close>

lemma setup_preserves:
  assumes "setup_step cfg db db'" and inv: "store_inv db"
  shows "store_inv db' \<and> rows_grow (runs db) (runs db')"
proof -
  note p = store_inv_parts [OF inv]
  from assms(1) show ?thesis
  proof (cases rule: setup_step.cases)
    case (budget pgUUID spec)
    then show ?thesis using setup_store [OF inv CreateBudget_system [OF p(5)]] CreateBudget_runs by blast
  next
    case (bind pgUUID tenant batch account)
    note frame = BindBudgetTenant_frame [OF bind(1)]
    have "system_inv db'" by (subst frame) (rule tenants_system [OF p(5)])
    then show ?thesis using setup_store [OF inv] arg_cong [OF frame, of runs] arg_cong [OF frame, of run_steps] by simp
  next
    case (profiles validate ps failure)
    then show ?thesis using setup_store [OF inv EnsureProfiles_system [OF p(5)]] EnsureProfiles_runs [of validate ps db] by fastforce
  next
    case (admit ck aliasID input nowAlias now0 now clk r reused)
    then show ?thesis using Admit_system [OF p(5) admit] Admit_steps [OF p(4) admit] Admit_grow [OF admit] by (simp add: store_inv_def)
  next
    case (resolve aliasID tenant key sourceID hash businessKey now found)
    then show ?thesis using lifecycle_quiet_steps(3) [OF inv] quiet_store [OF inv] by fastforce
  qed
qed

lemma lifecycle_preserves:
  assumes "lifecycle_step cfg rc db db'" and inv: "store_inv db" and cfg: "config_ok cfg"
  shows "store_inv db' \<and> rows_grow (runs db) (runs db')"
proof -
  note p = store_inv_parts [OF inv]
  from assms(1) show ?thesis
  proof (cases rule: lifecycle_step.cases)
    case (register newID caller startup version now session)
    then show ?thesis using lifecycle_quiet_steps(1) [OF inv] quiet_store [OF inv] by fastforce
  next
    case (session caller w sid now session)
    then show ?thesis using lifecycle_quiet_steps(2) [OF inv] quiet_store [OF inv] by fastforce
  next
    case (claim locked caller sid now1 now2 now3 clk granted)
    show ?thesis using quiet_store [OF inv StoreClaimRun_inv [OF p(1) cfg claim] StoreClaimRun_quiet [OF p(6) claim]]
      StoreClaimRun_grow [OF p(6) claim] by blast
  next
    case (heartbeat caller lease now clk hb)
    then show ?thesis using quiet_store [OF inv HeartbeatExecution_inv [OF p(1)] HeartbeatExecution_quiet [OF p(6)]]
      HeartbeatExecution_grow [OF p(6)] by blast
  next
    case (fail caller lease step reason now clk view)
    then show ?thesis using close_store [OF inv] by (auto elim!: FailExecution_cases)
  next
    case (stopped caller lease now clk closed)
    then show ?thesis using close_store [OF inv] by (auto elim!: AcknowledgeStop_cases)
  next
    case (cancel newID tenant i key now clk cancelled)
    show ?thesis using quiet_store [OF inv StoreCancelRun_inv [OF p(1) cancel] StoreCancelRun_quiet [OF p(6) cancel]]
      StoreCancelRun_grow [OF p(6) cancel] by blast
  next
    case (sweep tenant i now clk changed)
    then show ?thesis using quiet_store [OF inv sweepRun_inv [OF p(1)] sweepRun_quiet [OF p(6)]] sweepRun_grow [OF p(6)] by blast
  qed
qed

lemma ledger_preserves:
  assumes "ledger_step cfg rc cc db db'" and inv: "store_inv db"
  shows "store_inv db' \<and> rows_grow (runs db) (runs db')"
proof -
  note p = store_inv_parts [OF inv]
  from assms(1) show ?thesis
  proof (cases rule: ledger_step.cases)
    case (tool caller breq now now2 started)
    from BeginTool_ledger [OF p(2) tool(1)] have l: "ledger_inv db'" "ledger_only db db'" by simp_all
    show ?thesis using ledger_store [OF inv ledger_only_lifecycle [OF p(1) l(2)] l(1) only_steps_same [OF l(2)] ledger_books(1) [OF tool(1)]] l(2)
      by (simp add: ledger_only_def)
  next
    case (reserve caller rreq now now2 c newly)
    show ?thesis using ledger_store [OF inv ReserveCall_lifecycle [OF p(1,2) reserve] _ _ ledger_books(2) [OF reserve]]
      ReserveCall_ledger [OF p(2,6) reserve] ReserveCall_grow [OF p(6) reserve] by blast
  next
    case (observe caller oreq now c)
    then show ?thesis using ledger_store [OF inv] ObserveCall_inv [OF p(1,2)] ledger_books(3) ObserveCall_grow [OF p(1,2)] by blast
  next
    case (settle caller sreq now settled)
    from SettleUsage_inv [OF p(1,2) settle(1)] have l: "lifecycle_inv db'" "ledger_inv db'" "ledger_only db db'" by simp_all
    show ?thesis using ledger_store [OF inv l(1,2) only_steps_same [OF l(3)] ledger_books(4) [OF settle(1)]] l(3) by (simp add: ledger_only_def)
  next
    case (commit caller creq requireProposal nextID now0 now clk response)
    show ?thesis using commitStep_system [OF p(5,4) commit] commitStep_grow [OF p(1) commit] by (simp add: store_inv_def)
  qed
qed

lemma store_step_preserves:
  "store_step cfg rc cc db db' \<Longrightarrow> config_ok cfg \<Longrightarrow> store_inv db \<Longrightarrow> store_inv db' \<and> rows_grow (runs db) (runs db')"
  by (cases rule: store_step.cases) (auto dest: setup_preserves lifecycle_preserves ledger_preserves)

lemma action_calls_store: "store_inv db \<Longrightarrow> store_inv (db\<lparr>action_calls := xs\<rparr>)"
  by (rule quiet_store) (auto intro: inv_frame_eq store_inv_parts(1))

lemma action_preserves:
  assumes "action_step cfg rc ae s s'" and inv: "store_inv (fst s)"
  shows "store_inv (fst s') \<and> rows_grow (runs (fst s)) (runs (fst s'))"
  using assms(1)
proof (cases rule: action_step.cases)
  case (decide tenant i actor key request nextID approvalID opID now0 now clk db answer db' t)
  then show ?thesis using StoreDecideApproval_store [OF store_inv_parts(1) decide(3)] quiet_store inv by simp
next
  case (authorize caller lease step operationID now0 now signed)
  then show ?thesis using AuthorizeAction_run inv by fastforce
next
  case (permit caller rreq now0 now call newly)
  from ReserveActionCall_run [OF this] inv show ?thesis by (auto simp: action_calls_store)
next
  case (see caller oreq now seen)
  from ObserveActionCall_run [OF this] inv show ?thesis by (auto simp: action_calls_store)
next
  case (complete caller creq now0 now clk response)
  then show ?thesis by (rule CompleteAction_store [OF inv])
next
  case (ask tenant i source queryID now granted)
  from ReserveReceiptQuery_run [OF this] inv show ?thesis by simp
next
  case (answer tenant queryID action receipt outcome now)
  from RecordReceiptQuery_run [OF this] inv show ?thesis by simp
next
  case (recover aliasID aliasAgain input expected nowAlias now nowAgain clk view reused)
  then show ?thesis by (rule AdmitActionRetry_store [OF inv])
qed

section \<open>The interfaces of the prelude\<close>

lemma empty_store_inv: "store_inv empty_store"
  by (simp add: empty_store_def store_inv_def system_inv_def lifecycle_inv_def slots_ok_def slot_used_def load_def count_where_def
      attempt_rows_ok_def ledger_inv_def admission_inv_def admission_ok_def retries_def map_filter_def steps_inv_def)

abbreviation any_step :: "store_config \<Rightarrow> run_db \<Rightarrow> run_db \<Rightarrow> bool" where
  "any_step cfg \<equiv> (\<lambda>db db'. config_ok cfg \<and> ((\<exists>(rc :: string read_checks) cc. store_step cfg rc cc db db') \<or>
     (\<exists>(rc :: string read_checks) ae t t'. action_step cfg rc ae (db, t) (db', t'))))"

lemma any_stepI: "config_ok cfg \<Longrightarrow> store_step cfg (rc :: string read_checks) cc db db' \<Longrightarrow> any_step cfg db db'"
  by blast

lemma any_step_preserves: "any_step cfg db db' \<Longrightarrow> store_inv db \<Longrightarrow> store_inv db' \<and> rows_grow (runs db) (runs db')"
  by (elim conjE disjE exE) (auto dest: store_step_preserves action_preserves)

abbreviation any_start :: "run_db \<Rightarrow> bool" where
  "any_start \<equiv> (\<lambda>db. db = empty_store)"

text \<open>The fencing token of the Run with a key, zero when there is none.\<close>

definition fencing :: "run_db \<Rightarrow> string \<times> string \<Rightarrow> int" where
  "fencing db k = (case find_row (\<lambda>x. rkey x = k) (runs db) of None \<Rightarrow> 0 | Some x \<Rightarrow> au_FencingToken (snd x))"

text \<open>
  Some operation of the executing worker that needs the current lease would succeed under the lease:
  the heartbeat, the failure and the stop acknowledgement of the attempt, the reading of the
  checkpoint, a tool, the reservation and the observation of a call, the commit of a step, and the
  reading, the authorization, the permit and the completion of an action. Three operations take a
  lease and accept an old one by design, and are not listed: the late reports \<open>SettleUsage\<close> and
  \<open>ObserveActionCall\<close>, and the answer to a commit that may have been accepted (\<open>GetAcceptedCommit\<close>, which
  changes nothing).
\<close>

definition executes :: "store_config \<Rightarrow> run_db \<Rightarrow> Lease \<Rightarrow> bool" where
  "executes cfg db lease \<longleftrightarrow>
     (\<exists>caller now clk. isOk (HeartbeatExecution cfg caller lease now clk db)) \<or>
     (\<exists>caller step reason now clk. isOk (FailExecution cfg caller lease step reason now clk db)) \<or>
     (\<exists>caller now clk. isOk (AcknowledgeStop cfg caller lease now clk db)) \<or>
     (\<exists>(loadCheckpoint :: run_db \<Rightarrow> Run \<Rightarrow> Authority \<Rightarrow> RunError + string) caller now. isOk (GetCheckpoint cfg loadCheckpoint caller lease now db)) \<or>
     (\<exists>(rc :: string read_checks) caller req now now2. bg_Lease req = lease \<and> isOk (BeginTool cfg rc caller req now now2 db)) \<or>
     (\<exists>(rc :: string read_checks) caller req now now2. rq_Lease req = lease \<and> isOk (ReserveCall cfg rc caller req now now2 db)) \<or>
     (\<exists>caller req now. oc_Lease req = lease \<and> isOk (ObserveCall cfg caller req now db)) \<or>
     (\<exists>(cc :: string commit_checks) caller req proposal nextID now0 now clk. cm_Lease req = lease \<and>
        isOk (commitStep cfg cc caller req proposal nextID now0 now clk db)) \<or>
     (\<exists>ae caller step now t. isOk (GetAction cfg ae caller lease step now (db, t))) \<or>
     (\<exists>(rc :: string read_checks) ae caller step operationID now0 now t. isOk (AuthorizeAction cfg rc ae caller lease step operationID now0 now (db, t))) \<or>
     (\<exists>(rc :: string read_checks) ae caller req now0 now t. rac_Lease req = lease \<and> isOk (ReserveActionCall cfg rc ae caller req now0 now (db, t))) \<or>
     (\<exists>ae caller req now0 now clk t. cac_Lease req = lease \<and> isOk (CompleteAction cfg ae caller req now0 now clk (db, t)))"

lemma fencing_row: "distinct (map rkey (runs db)) \<Longrightarrow> x \<in> set (runs db) \<Longrightarrow> fencing db (rkey x) = au_FencingToken (snd x)"
  using find_row_Some_iff [of rkey "runs db" "rkey x" x] by (simp add: fencing_def)

lemma fencing_none: "k \<notin> rkey ` set (runs db) \<Longrightarrow> fencing db k = 0"
  by (auto simp: fencing_def find_row_None_iff image_iff split: option.splits dest!: find_row_SomeD)

lemma fencing_nonneg: "store_inv db \<Longrightarrow> 0 \<le> fencing db k"
  using inv_parts(4) [OF store_inv_parts(1)] by (auto simp: fencing_def run_ok_def split: option.splits dest!: find_row_SomeD)

lemma fencing_mono:
  assumes "store_inv db" "store_inv db'" "rows_grow (runs db) (runs db')"
  shows "fencing db k \<le> fencing db' k"
proof (cases "k \<in> rkey ` set (runs db)")
  case True
  then obtain x where x: "x \<in> set (runs db)" "rkey x = k" by blast
  with assms(3) obtain y where y: "y \<in> set (runs db')" "progress x y" unfolding rows_grow_def by blast
  have "rkey y = k" using y(2) x(2) by (simp add: progress_def)
  then show ?thesis using fencing_row [OF store_inv_parts(6) [OF assms(1)] x(1)] fencing_row [OF store_inv_parts(6) [OF assms(2)] y(1)]
      x(2) y(2) by (simp add: progress_def)
next
  case False
  then show ?thesis using fencing_none [OF False] fencing_nonneg [OF assms(2), of k] by simp
qed

interpretation run_store: inductive_invariant any_start "any_step cfg" store_inv
  by unfold_locales (use any_step_preserves in \<open>auto simp: empty_store_inv\<close>)

text \<open>An operation that succeeds under a lease has found the lease's token current.\<close>

lemma CheckExecution_token: "CheckExecution r a lease now = Inr () \<Longrightarrow> au_FencingToken a = ls_FencingToken lease"
  by (auto simp: CheckExecution_def matchesExecution_def split: if_splits)

lemma locked_token:
  assumes "distinct (map rkey (runs db))" "lockRun (ls_TenantID lease) (ls_RunID lease) db = Inr (r, a)" "au_FencingToken a = ls_FencingToken lease"
  shows "ls_FencingToken lease = fencing db (ls_TenantID lease, ls_RunID lease)"
  using fencing_row [OF assms(1) conjunct1 [OF lockRun_mem [OF assms(2)]]] lockRun_mem [OF assms(2)] assms(3) by simp

lemma isOk_obtain: "isOk m \<Longrightarrow> \<exists>x. m = Inr x"
  by (cases m) auto

lemma lifecycle_token:
  assumes keys: "distinct (map rkey (runs db))"
  shows "isOk (HeartbeatExecution cfg caller lease now clk db) \<Longrightarrow> ls_FencingToken lease = fencing db (ls_TenantID lease, ls_RunID lease)"
    "isOk (FailExecution cfg caller lease step reason now clk db) \<Longrightarrow> ls_FencingToken lease = fencing db (ls_TenantID lease, ls_RunID lease)"
    "isOk (AcknowledgeStop cfg caller lease now clk db) \<Longrightarrow> ls_FencingToken lease = fencing db (ls_TenantID lease, ls_RunID lease)"
  by (auto dest!: isOk_obtain CheckExecution_token elim!: HeartbeatExecution_cases FailExecution_cases AcknowledgeStop_cases
      intro: locked_token [OF keys] simp: sameAttempt_def)

lemma ledgerExecution_token: "ledgerExecution cfg caller r a lease step now db = Inr () \<Longrightarrow> au_FencingToken a = ls_FencingToken lease"
  by (auto simp: ledgerExecution_def result_simps dest: CheckExecution_token)

lemma GetCheckpoint_token:
  assumes "distinct (map rkey (runs db))" "isOk (GetCheckpoint cfg loadCheckpoint caller lease now db)"
  shows "ls_FencingToken lease = fencing db (ls_TenantID lease, ls_RunID lease)"
  using assms(2) unfolding GetCheckpoint_def
  by (auto dest!: isOk_obtain CheckExecution_token simp: if_Inl_eq_Inr bindE_Inr_iff intro: locked_token [OF assms(1)])

lemma BeginTool_token:
  assumes keys: "distinct (map rkey (runs db))" and ok: "isOk (BeginTool cfg rc caller req now now2 db)"
  shows "ls_FencingToken (bg_Lease req) = fencing db (ls_TenantID (bg_Lease req), ls_RunID (bg_Lease req))"
proof -
  from ok obtain x where "BeginTool cfg rc caller req now now2 db = Inr x" by (auto dest: isOk_obtain)
  then obtain r a where "lockRun (ls_TenantID (bg_Lease req)) (ls_RunID (bg_Lease req)) db = Inr (r, a)"
    "ledgerExecution cfg caller r a (bg_Lease req) (bg_Step req) now db = Inr ()"
    unfolding BeginTool_def if_Inl_eq_Inr callConflict_ok bindE_Inr_iff by (auto simp: if_Inl_eq_Inr bindE_Inr_iff)
  then show ?thesis using locked_token [OF keys] ledgerExecution_token by blast
qed

lemma ReserveCall_token:
  assumes keys: "distinct (map rkey (runs db))" and ok: "isOk (ReserveCall cfg rc caller req now now2 db)"
  shows "ls_FencingToken (rq_Lease req) = fencing db (ls_TenantID (rq_Lease req), ls_RunID (rq_Lease req))"
proof -
  from ok obtain x where "ReserveCall cfg rc caller req now now2 db = Inr x" by (auto dest: isOk_obtain)
  then obtain r a where "lockRun (ls_TenantID (rq_Lease req)) (ls_RunID (rq_Lease req)) db = Inr (r, a)"
    "ledgerExecution cfg caller r a (rq_Lease req) (rq_Step req) now db = Inr ()"
    unfolding ReserveCall_def if_Inl_eq_Inr callConflict_ok bindE_Inr_iff Let_def by (auto simp: if_Inl_eq_Inr bindE_Inr_iff)
  then show ?thesis using locked_token [OF keys] ledgerExecution_token by blast
qed

lemma ObserveCall_token:
  assumes keys: "distinct (map rkey (runs db))" and ok: "isOk (ObserveCall cfg caller req now db)"
  shows "ls_FencingToken (oc_Lease req) = fencing db (ls_TenantID (oc_Lease req), ls_RunID (oc_Lease req))"
proof -
  from ok obtain x where "ObserveCall cfg caller req now db = Inr x" by (auto dest: isOk_obtain)
  then obtain r a where "lockRun (ls_TenantID (oc_Lease req)) (ls_RunID (oc_Lease req)) db = Inr (r, a)"
    "ledgerExecution cfg caller r a (oc_Lease req) (oc_Step req) now db = Inr ()"
    unfolding ObserveCall_def if_Inl_eq_Inr observeLocked_def bindE_Inr_iff
    by (auto simp: if_Inl_eq_Inr bindE_Inr_iff split: option.splits)
  then show ?thesis using locked_token [OF keys] ledgerExecution_token by blast
qed

lemma commitStep_token:
  assumes keys: "distinct (map rkey (runs db))" and ok: "isOk (commitStep cfg cc caller req proposal nextID now0 now clk db)"
  shows "ls_FencingToken (cm_Lease req) = fencing db (ls_TenantID (cm_Lease req), ls_RunID (cm_Lease req))"
proof -
  from ok obtain x where "commitStep cfg cc caller req proposal nextID now0 now clk db = Inr x" by (auto dest: isOk_obtain)
  then obtain r a where "lockRun (ls_TenantID (cm_Lease req)) (ls_RunID (cm_Lease req)) db = Inr (r, a)"
    "CheckExecution r a (cm_Lease req) now0 = Inr ()"
    unfolding commitStep_def if_Inl_eq_Inr bindE_Inr_iff by (auto simp: if_Inl_eq_Inr bindE_Inr_iff)
  then show ?thesis using locked_token [OF keys] CheckExecution_token by blast
qed

lemma action_token:
  assumes keys: "distinct (map rkey (runs db))" and lock: "lockRun (ls_TenantID lease) (ls_RunID lease) db = Inr (r, a)"
    and exec: "actionExecution cfg ae caller r a lease step now db = Inr ()"
  shows "ls_FencingToken lease = fencing db (ls_TenantID lease, ls_RunID lease)"
  using locked_token [OF keys lock] CheckExecution_token [OF actionExecution_effect(2) [OF exec]] by blast

lemma GetAction_token:
  assumes "distinct (map rkey (runs db))" "isOk (GetAction cfg ae caller lease step now (db, t))"
  shows "ls_FencingToken lease = fencing db (ls_TenantID lease, ls_RunID lease)"
  using assms(2) unfolding GetAction_def
  by (auto dest!: isOk_obtain simp: if_Inl_eq_Inr bindE_Inr_iff intro: action_token [OF assms(1)])

lemma AuthorizeAction_token:
  assumes "distinct (map rkey (runs db))" "isOk (AuthorizeAction cfg rc ae caller lease step operationID now0 now (db, t))"
  shows "ls_FencingToken lease = fencing db (ls_TenantID lease, ls_RunID lease)"
  using assms(2) unfolding AuthorizeAction_def
  by (auto dest!: isOk_obtain simp: if_Inl_eq_Inr bindE_Inr_iff intro: action_token [OF assms(1)])

lemma ReserveActionCall_token:
  assumes "distinct (map rkey (runs db))" "isOk (ReserveActionCall cfg rc ae caller req now0 now (db, t))"
  shows "ls_FencingToken (rac_Lease req) = fencing db (ls_TenantID (rac_Lease req), ls_RunID (rac_Lease req))"
  using assms(2) unfolding ReserveActionCall_def
  by (auto dest!: isOk_obtain simp: if_Inl_eq_Inr bindE_Inr_iff case_option_Inr intro: action_token [OF assms(1)])

lemma CompleteAction_token:
  assumes "distinct (map rkey (runs db))" "isOk (CompleteAction cfg ae caller req now0 now clk (db, t))"
  shows "ls_FencingToken (cac_Lease req) = fencing db (ls_TenantID (cac_Lease req), ls_RunID (cac_Lease req))"
  using assms(2) by (auto dest!: isOk_obtain elim!: CompleteAction_cases intro: action_token [OF assms(1)])

lemma executes_current:
  assumes "store_inv db" "executes cfg db lease"
  shows "ls_FencingToken lease = fencing db (ls_TenantID lease, ls_RunID lease)"
proof -
  note keys = store_inv_parts(6) [OF assms(1)]
  note tokens = lifecycle_token [OF keys] GetCheckpoint_token [OF keys] BeginTool_token [OF keys] ReserveCall_token [OF keys] ObserveCall_token [OF keys] commitStep_token [OF keys]
    GetAction_token [OF keys] AuthorizeAction_token [OF keys] ReserveActionCall_token [OF keys] CompleteAction_token [OF keys]
  from assms(2) show ?thesis unfolding executes_def by (elim disjE exE conjE) (auto dest: tokens)
qed

text \<open>The late reports, which an old lease may still make, leave the Runs, their attempts, slots and steps alone.\<close>

lemma SettleUsage_late:
  assumes "store_inv db" "SettleUsage cfg caller req now db = Inr (settled, db')"
  shows "runs db' = runs db \<and> run_attempts db' = run_attempts db \<and> execution_slots db' = execution_slots db \<and> run_steps db' = run_steps db"
  using SettleUsage_inv [OF store_inv_parts(1,2) [OF assms(1)] assms(2)] by (simp add: ledger_only_def)

text \<open>The store fences its Runs: a lease is admitted when some operation would succeed under it.\<close>

definition admits_lease :: "store_config \<Rightarrow> run_db \<Rightarrow> string \<times> string \<Rightarrow> int \<Rightarrow> bool" where
  "admits_lease cfg db k t \<longleftrightarrow> (\<exists>lease. (ls_TenantID lease, ls_RunID lease) = k \<and> ls_FencingToken lease = t \<and> executes cfg db lease)"

interpretation run_fence: fenced_store any_start "any_step cfg" store_inv fencing "admits_lease cfg"
proof unfold_locales
  show "fencing s k \<le> fencing s' k" if "any_step cfg s s'" "store_inv s" for s s' k
    using that fencing_mono any_step_preserves by blast
  show "t = fencing s k" if "store_inv s" "admits_lease cfg s k t" for s k t
    using that executes_current unfolding admits_lease_def by blast
qed

end
