(* ===== verification/RunScenario.thy ===== *)
theory RunScenario
  imports RunSystem
begin

text \<open>
  A small deployment and a history of its store, evaluated in the kernel: two budgets, a binding,
  a profile, an admitted Run, a registered worker and a claim. The witnesses of the store's theorems
  use its states.
\<close>

section \<open>The deployment\<close>

definition demo_profile :: Profile where
  "demo_profile = sample_profile\<lparr>pf_Hash := sample_hash, pf_ExecutorVersion := ''v1'', pf_FamilyTokenLimit := 1000,
     pf_FamilyCostMicroyuan := 1000, pf_ApprovalEnabled := True, pf_Pricing := sample_pricing\<lparr>pr_Hash := sample_hash\<rparr>\<rparr>"

text \<open>A hash that tells one text, the rejection that is never recorded, from all others.\<close>

definition demo_sha :: "string \<Rightarrow> string" where
  "demo_sha x = (if x = fingerprint_preimage [''jobforge.run.approval.v1'', ''1'', ''t1'', ''r1'', ''alice'', ''reject'', sample_hash]
     then ''other'' else sample_hash)"

lemma demo_sha_other:
  assumes "d \<noteq> ''jobforge.run.approval.v1''" "length d < 100"
  shows "Fingerprint demo_sha d fs = sample_hash"
proof -
  have "fingerprint_preimage (d # fs) \<noteq> fingerprint_preimage [''jobforge.run.approval.v1'', ''1'', ''t1'', ''r1'', ''alice'', ''reject'', sample_hash]"
  proof
    assume "fingerprint_preimage (d # fs) = fingerprint_preimage [''jobforge.run.approval.v1'', ''1'', ''t1'', ''r1'', ''alice'', ''reject'', sample_hash]"
    then have "d = ''jobforge.run.approval.v1''" by (rule fingerprint_head) (use assms(2) in \<open>simp add: go_strings_def\<close>)
    with assms(1) show False by blast
  qed
  then show ?thesis by (simp only: Fingerprint_def demo_sha_def if_False)
qed

definition demo_cfg :: store_config where
  "demo_cfg = \<lparr>cfg_profiles = [(''p1'', demo_profile)],
     cfg_workers = [(''w1'', \<lparr>wc_ID = ''w1'', wc_Tenants = [''t1''], wc_ProfileIDs = [''p1''], wc_Capacity = 1\<rparr>)],
     cfg_tenantCapacity = 2, cfg_profileCapacity = 3, cfg_parseUUID = Some, cfg_sha = demo_sha,
     cfg_marshalAudit = (\<lambda>_. ''audit''), cfg_marshalReport = (\<lambda>_. ''report'')\<rparr>"

definition demo_rc :: "string read_checks" where
  "demo_rc = \<lparr>rc_guard = (\<lambda>_ _ _ _ _ _. Inr ()), rc_loadCheckpoint = (\<lambda>_ _ _. Inr ''checkpoint''),
     rc_CheckSupportAgentTool = (\<lambda>_ _ _. Inr ()), rc_CheckPolicyBundleStep = (\<lambda>_ _ _. Inr ()),
     rc_CheckStatusPolicyAdjudication = (\<lambda>_ _. Inr ())\<rparr>"

text \<open>A graph that proposes to escalate the ticket once it has been read, with the results as they came.\<close>

definition demo_proposal :: Proposal where
  "demo_proposal = \<lparr>pp_Decision = ''proposal'', pp_Summary = ''late parcel'', pp_EvidenceRefs = Some [''ticket''], pp_Action = ''escalate'',
     pp_Support = Some \<lparr>sf_Conclusion = ''delayed'', sf_RequestedFields = Some [], sf_TargetTicketStatus = ''escalated'', sf_Claims = ''[]''\<rparr>,
     pp_JSON = ''{}''\<rparr>"

definition demo_cc :: "string commit_checks" where
  "demo_cc = \<lparr>cc_canonical = (\<lambda>json kind. Inr json), cc_loadCheckpoint = (\<lambda>_ _ _. Inr ''checkpoint''),
     cc_DecideCommit = (\<lambda>_ _ req. let final = (st_Kind (cm_Step req) = ''submit_proposal'') in Inr \<lparr>cd_CanonicalJSON = cm_ResultJSON req,
       cd_Result = \<lparr>sr_ToolInvocationID = '''', sr_PhysicalCallID = '''', sr_CorrectionRequired = False\<rparr>,
       cd_NextKind = (if final then '''' else ''submit_proposal''), cd_CloseAttempt = final, cd_Proposal = (if final then Some demo_proposal else None)\<rparr>)\<rparr>"

definition demo_ck :: admission_checks where
  "demo_ck = \<lparr>ck_ValidTraceContext = (\<lambda>_. True), ck_ValidateSupportProfile = (\<lambda>_. Inr ()), ck_ValidateSupportSnapshot = (\<lambda>_ _. Inr ())\<rparr>"

definition demo_limits :: Usage where
  "demo_limits = FamilyLimits 5000 5000"

definition demo_budget :: "string \<Rightarrow> string \<Rightarrow> string \<Rightarrow> BudgetSpec" where
  "demo_budget i scope key = \<lparr>bs_ID = i, bs_Scope = scope, bs_Key = key, bs_ValidFrom = 0, bs_ValidUntil = 1000 * Hour, bs_Limits = demo_limits\<rparr>"

definition demo_submit :: Admission where
  "demo_submit = \<lparr>ad_TraceContext = '''', ad_TenantID = ''t1'', ad_OperationKey = ''k1'', ad_RequestHash = sample_hash, ad_SourceRunID = '''',
     ad_Submit = \<lparr>sr_SchemaVersion = 1, sr_TicketID = ''ticket'', sr_BusinessRequestKey = ''biz'', sr_ProfileID = ''p1'',
       sr_BudgetBatchID = ''b1'', sr_RunTimeoutSeconds = 600\<rparr>,
     ad_Retry = \<lparr>rr_SchemaVersion = 1, rr_RunTimeoutSeconds = 600\<rparr>, ad_Profile = demo_profile,
     ad_Snapshot = \<lparr>sb_TenantID = ''t1'', sb_TicketID = ''ticket'', sb_ID = ''s1'', sb_ContentHash = sample_hash, sb_VersionVector = ''v'',
       sb_Ticket = ''text'', sb_IndexID = ''i1''\<rparr>,
     ad_RunID = ''r1'', ad_BusinessID = ''q1'', ad_FamilyAccountID = ''f1'', ad_OperationID = ''o1'', ad_FirstStepID = ''step1''\<rparr>"

section \<open>The history\<close>

definition demo_account :: "string \<Rightarrow> string \<Rightarrow> string \<Rightarrow> budgetRow" where
  "demo_account i scope key = \<lparr>br_Account = emptyAccount i scope demo_limits, br_Key = key, br_ValidFrom = 0, br_ValidUntil = 1000 * Hour\<rparr>"

definition demo_binding :: BatchTenant where
  "demo_binding = \<lparr>bt_BatchAccountID = ''a2'', bt_TenantID = ''t1'', bt_TenantAccountID = ''a1''\<rparr>"

definition demo_setup :: run_db where
  "demo_setup = empty_store\<lparr>budget_accounts := [demo_account ''a1'' ''tenant'' ''t1'', demo_account ''a2'' ''batch'' ''b1''],
     budget_batch_tenants := [demo_binding], agent_profiles := [storedProfile demo_profile]\<rparr>"

lemmas scenario_defs = demo_cfg_def demo_budget_def demo_account_def demo_binding_def demo_setup_def empty_store_def

lemma empty_tables [simp]:
  "runs empty_store = []" "run_attempts empty_store = []" "execution_slots empty_store = []" "worker_sessions empty_store = []"
  "run_operations empty_store = []" "run_events empty_store = []" "physical_calls empty_store = []" "tool_invocations empty_store = []"
  "budget_accounts empty_store = []" "budget_batch_tenants empty_store = []" "business_requests empty_store = []"
  "agent_profiles empty_store = []" "run_steps empty_store = []" "admission_hashes empty_store = []" "run_approvals empty_store = []"
  by (simp_all add: empty_store_def)

lemma demo_limits_valid: "UsageValid demo_limits" by code_simp

lemma demo_identifiers: "ValidIdentifier ''t1''" "ValidIdentifier ''b1''" "ValidIdentifier ''k1''" "ValidIdentifier ''biz''"
  "ValidIdentifier ''ticket''" "ValidIdentifier ''p1''" "ValidIdentifier ''w1''" "ValidIdentifier ''v1''"
  by code_simp+

lemma demo_create:
  "CreateBudget demo_cfg Some (demo_budget ''a1'' ''tenant'' ''t1'') empty_store = Inr (empty_store\<lparr>budget_accounts := [demo_account ''a1'' ''tenant'' ''t1'']\<rparr>)"
  "CreateBudget demo_cfg Some (demo_budget ''a2'' ''batch'' ''b1'') (empty_store\<lparr>budget_accounts := [demo_account ''a1'' ''tenant'' ''t1'']\<rparr>) =
     Inr (empty_store\<lparr>budget_accounts := [demo_account ''a1'' ''tenant'' ''t1'', demo_account ''a2'' ''batch'' ''b1'']\<rparr>)"
  by (simp_all add: CreateBudget_def insertBudget_def Let_def demo_budget_def demo_account_def demo_cfg_def demo_limits_valid demo_identifiers
      truncateMicro_def emptyAccount_def Hour_def Minute_def Second_def)

lemma demo_bind:
  "BindBudgetTenant Some ''t1'' ''a2'' ''a1'' (empty_store\<lparr>budget_accounts := [demo_account ''a1'' ''tenant'' ''t1'', demo_account ''a2'' ''batch'' ''b1'']\<rparr>) =
     Inr (empty_store\<lparr>budget_accounts := [demo_account ''a1'' ''tenant'' ''t1'', demo_account ''a2'' ''batch'' ''b1''], budget_batch_tenants := [demo_binding]\<rparr>)"
  by (simp add: BindBudgetTenant_def Let_def demo_identifiers demo_account_def emptyAccount_def demo_binding_def)

lemma demo_profiles:
  "EnsureProfiles (\<lambda>_. Inr ()) [demo_profile] (empty_store\<lparr>budget_accounts := [demo_account ''a1'' ''tenant'' ''t1'', demo_account ''a2'' ''batch'' ''b1''],
     budget_batch_tenants := [demo_binding]\<rparr>) = (None, demo_setup)"
  by (simp add: demo_setup_def storedProfile_def demo_profile_def)

text \<open>The admitted Run.\<close>

definition demo_run :: Run where
  "demo_run = \<lparr>run_ID = ''r1'', run_TenantID = ''t1'', run_BusinessRequestID = ''q1'', run_BusinessRequestKey = ''biz'', run_TicketID = ''ticket'',
     run_RetryOfRunID = None, run_ProfileID = ''p1'', run_ProfileHash = sample_hash, run_BudgetBatchID = ''b1'', run_SnapshotID = ''s1'',
     run_SnapshotHash = sample_hash, run_State = Ready, run_Outcome = None, run_Error = None, run_AttemptNo = 0, run_RecoveryCount = 0,
     run_CursorVersion = 0, run_RunTimeoutSeconds = 600, run_RunDeadline = Hour + 600 * Second, run_AttemptDeadline = None,
     run_LeaseUntil = None, run_NextAttemptAt = None, run_PermissionExpiresAt = None, run_ProposalRef = None, run_StopReason = None,
     run_CancelRequestedAt = None, run_CreatedAt = Hour, run_UpdatedAt = Hour, run_TerminalAt = None, run_ContentPurgedAt = None\<rparr>"

definition demo_auth :: Authority where
  "demo_auth = \<lparr>au_WorkerID = '''', au_SessionID = '''', au_FencingToken = 0, au_ActiveCallID = None, au_CheckpointBytes = 5,
     au_EventSequence = 1, au_NextStepID = ''step1'', au_NextStepKind = ''read_ticket'', au_NextInputHash = sample_hash\<rparr>"

definition demo_family :: budgetRow where
  "demo_family = \<lparr>br_Account = emptyAccount ''f1'' ''family'' (FamilyLimits 1000 1000), br_Key = ''q1'', br_ValidFrom = Hour,
     br_ValidUntil = Hour + retryWindow + 24 * Hour\<rparr>"

definition demo_business :: BusinessRequest where
  "demo_business = \<lparr>bq_ID = ''q1'', bq_TenantID = ''t1'', bq_Key = ''biz'', bq_RequestHash = sample_hash, bq_RootRunID = ''r1'',
     bq_FamilyAccountID = ''f1'', bq_TenantAccountID = ''a1'', bq_BatchAccountID = ''a2'', bq_CreatedAt = Hour, bq_RetryUntil = Hour + retryWindow\<rparr>"

definition demo_operation :: Operation where
  "demo_operation = \<lparr>op_ID = ''o1'', op_TenantID = ''t1'', op_Kind = ''submit'', op_SourceRunID = '''', op_Scope = ''submit'', op_Key = ''k1'',
     op_RequestHash = sample_hash, op_ResultRunID = ''r1'', op_CreatedAt = Hour\<rparr>"

definition demo_admitted :: run_db where
  "demo_admitted = demo_setup\<lparr>runs := [(demo_run, demo_auth)], run_operations := [demo_operation],
     run_events := [newEvent demo_run demo_auth ''admitted'' Hour],
     budget_accounts := [demo_account ''a1'' ''tenant'' ''t1'', demo_account ''a2'' ''batch'' ''b1'', demo_family],
     business_requests := [demo_business], admission_hashes := [((''t1'', ''r1''), sample_hash)]\<rparr>"

lemmas demo_time = Hour_def Minute_def Second_def retryWindow_def

lemma demo_family_valid: "UsageValid (FamilyLimits 1000 1000)" by code_simp

lemma demo_gate: "admissionGate demo_cfg demo_ck demo_submit demo_setup = Inr demo_profile"
  by (simp add: admissionGate_def StoreProfile_def demo_cfg_def demo_ck_def demo_submit_def demo_profile_def sample_profile_def
      profileRegistered_def IsSupportStrategy_def SupportFixedStrategy_def SupportAgentStrategy_def)

lemma demo_resolve: "resolveAdmission ''x1'' ''t1'' ''k1'' '''' sample_hash ''biz'' Hour demo_setup = Inr (None, demo_setup)"
  by (simp add: resolveAdmission_def findOperation_def businessByKey_def demo_setup_def)

lemma demo_accounts: "admissionAccounts ''t1'' ''b1'' Hour demo_setup = Inr (demo_account ''a1'' ''tenant'' ''t1'', demo_account ''a2'' ''batch'' ''b1'')"
  by (simp add: admissionAccounts_def demo_setup_def demo_binding_def demo_account_def emptyAccount_def readAccount_def available_def demo_time)

definition demo_prepared :: run_db where
  "demo_prepared = demo_setup\<lparr>budget_accounts := [demo_account ''a1'' ''tenant'' ''t1'', demo_account ''a2'' ''batch'' ''b1'', demo_family],
     business_requests := [demo_business]\<rparr>"

lemma demo_business_ok: "submitBusiness demo_cfg demo_submit Hour demo_setup = Inr (demo_business, demo_prepared)"
proof -
  have "SubmitHash demo_sha (ad_Submit demo_submit) = sample_hash" by (simp add: SubmitHash_def demo_sha_other)
  moreover have "isOk (SubmitValidate (ad_Submit demo_submit))" by (simp add: SubmitValidate_def demo_submit_def demo_identifiers)
  moreover have "admissionAccounts (ad_TenantID demo_submit) (sr_BudgetBatchID (ad_Submit demo_submit)) Hour demo_setup =
      Inr (demo_account ''a1'' ''tenant'' ''t1'', demo_account ''a2'' ''batch'' ''b1'')" by (simp add: demo_submit_def demo_accounts)
  ultimately show ?thesis
    by (simp add: submitBusiness_def ValidUUID_def demo_cfg_def Let_def insertBudget_def insertBusiness_def demo_setup_def demo_prepared_def
        demo_submit_def demo_profile_def sample_profile_def demo_family_valid demo_account_def emptyAccount_def demo_business_def demo_family_def demo_time)
qed

lemma demo_profile_input: "demo_submit\<lparr>ad_Profile := demo_profile\<rparr> = demo_submit"
  by (simp add: demo_submit_def)

lemma demo_admit: "Admit demo_cfg demo_ck ''x1'' demo_submit Hour Hour Hour Hour demo_setup = Inr ((demo_run, False), demo_admitted)"
proof -
  have load: "loadAccounts ''t1'' ''q1'' demo_prepared = Inr [demo_family, demo_account ''a1'' ''tenant'' ''t1'', demo_account ''a2'' ''batch'' ''b1'']"
    by (simp add: loadAccounts_def demo_prepared_def demo_setup_def demo_business_def demo_account_def emptyAccount_def demo_family_def)
  have av: "list_all (available Hour) [demo_family, demo_account ''a1'' ''tenant'' ''t1'', demo_account ''a2'' ''batch'' ''b1'']"
    by (simp add: available_def demo_account_def emptyAccount_def demo_family_def demo_time)
  have stamp: "stampBusiness demo_business Hour demo_prepared = demo_prepared"
    by (simp add: stampBusiness_def demo_prepared_def demo_setup_def demo_business_def demo_account_def emptyAccount_def demo_family_def update_where_def)
  have run: "admissionRun demo_cfg demo_submit demo_business Hour = Inr (demo_run, demo_auth\<lparr>au_EventSequence := 0\<rparr>)"
    by (simp add: admissionRun_def demo_submit_def demo_cfg_def ValidUUID_def MaxCheckpointBytes_def demo_run_def demo_auth_def demo_business_def
        demo_profile_def sample_profile_def InitialStepInput_def NextInputHash_def demo_sha_other)
  have input: "ad_TenantID demo_submit = ''t1''" "ad_SourceRunID demo_submit = ''''" "ad_OperationKey demo_submit = ''k1''"
    "ad_RequestHash demo_submit = sample_hash" "sr_BusinessRequestKey (ad_Submit demo_submit) = ''biz''" "bq_ID demo_business = ''q1''"
    "ad_OperationID demo_submit = ''o1''"
    by (simp_all add: demo_submit_def demo_business_def)
  have accept: "acceptRun demo_cfg demo_submit demo_business Hour Hour demo_prepared = Inr (demo_run, demo_admitted)"
    by (simp add: acceptRun_def run insertRun_def demo_prepared_def demo_setup_def storedProfile_def demo_profile_def sample_profile_def
        recordRun_def appendEvent_def MaxSafeInteger_def saveRun_def update_where_def insertOperation_def findOperation_def newOperation_def
        admissionKind_def operationScope_def getView_def lockRun_def input demo_run_def demo_auth_def demo_admitted_def
        demo_operation_def newEvent_def Let_def)
  have "admitNew demo_cfg demo_ck demo_submit Hour Hour Hour demo_setup = Inr (demo_run, demo_admitted)"
    using av by (simp add: admitNew_def demo_gate demo_profile_input prepareBusiness_def input demo_business_ok load stamp accept Let_def)
  moreover have "validAdmission demo_cfg demo_ck demo_submit"
    by (simp add: validAdmission_def ValidUUID_def demo_cfg_def demo_ck_def demo_submit_def demo_identifiers)
  ultimately show ?thesis by (simp add: Admit_def input demo_resolve)
qed

text \<open>The worker's session, the claim and the attempt.\<close>

definition demo_session :: Session where
  "demo_session = \<lparr>se_WorkerID = ''w1'', se_ID = ''ws1'', se_StartupID = ''boot1'', se_Version = ''v1'', se_CreatedAt = Hour, se_SeenAt = Hour,
     se_ExpiresAt = Hour + sessionTTL\<rparr>"

definition demo_ready :: run_db where
  "demo_ready = demo_admitted\<lparr>worker_sessions := [demo_session]\<rparr>"

lemma demo_register: "Register demo_cfg ''ws1'' ''w1'' ''boot1'' ''v1'' Hour demo_admitted = Inr (demo_session, demo_ready)"
  by (simp add: Register_def demo_cfg_def ValidUUID_def demo_identifiers demo_admitted_def demo_setup_def checkExecutorVersion_def
      demo_profile_def demo_session_def demo_ready_def Let_def)

definition demo_lease :: Lease where
  "demo_lease = \<lparr>ls_TenantID = ''t1'', ls_RunID = ''r1'', ls_WorkerID = ''w1'', ls_SessionID = ''ws1'', ls_AttemptNo = 1, ls_FencingToken = 1\<rparr>"

definition demo_run1 :: Run where
  "demo_run1 = demo_run\<lparr>run_State := Running, run_AttemptNo := 1, run_AttemptDeadline := Some (Hour + AttemptTTL),
     run_LeaseUntil := Some (Hour + LeaseTTL)\<rparr>"

definition demo_auth1 :: Authority where
  "demo_auth1 = demo_auth\<lparr>au_WorkerID := ''w1'', au_SessionID := ''ws1'', au_FencingToken := 1, au_EventSequence := 2\<rparr>"

definition demo_slots :: "executionSlot list" where
  "demo_slots = [\<lparr>sl_Kind = ''worker'', sl_ID = ''w1'', sl_Capacity = 1, sl_Used = 1\<rparr>,
     \<lparr>sl_Kind = ''tenant'', sl_ID = ''t1'', sl_Capacity = 2, sl_Used = 1\<rparr>, \<lparr>sl_Kind = ''profile'', sl_ID = ''p1'', sl_Capacity = 3, sl_Used = 1\<rparr>]"

definition demo_claimed :: run_db where
  "demo_claimed = demo_ready\<lparr>runs := [(demo_run1, demo_auth1)], run_attempts := [newAttempt demo_run1 demo_auth1 ''w1'' ''ws1'' Hour],
     execution_slots := demo_slots, run_events := [newEvent demo_run demo_auth ''admitted'' Hour, newEvent demo_run1 demo_auth1 ''claimed'' Hour]\<rparr>"

lemma demo_profile_facts:
  "isOk (ValidateAuditPolicy (demo_profile\<lparr>pf_Executable := False\<rparr>))" "pf_ID demo_profile = ''p1''" "pf_Hash demo_profile = sample_hash"
  "ValidHash (pr_Hash (pf_Pricing demo_profile))" "pf_Executable demo_profile"
proof -
  show "isOk (ValidateAuditPolicy (demo_profile\<lparr>pf_Executable := False\<rparr>))" by code_simp
qed (simp_all add: demo_profile_def sample_profile_def sample_hash_valid)

lemma demo_ledgerProfile:
  "agent_profiles db = [storedProfile demo_profile] \<Longrightarrow> run_ProfileID r = ''p1'' \<Longrightarrow> run_ProfileHash r = sample_hash \<Longrightarrow>
   ledgerProfile demo_cfg r executable db = Inr (demo_profile\<lparr>pf_Executable := False\<rparr>)"
  using demo_profile_facts by (simp add: ledgerProfile_def storedProfile_def demo_cfg_def)

lemma demo_checkSession:
  "worker_sessions db = [demo_session] \<Longrightarrow> now < Hour + sessionTTL \<Longrightarrow>
   checkSession demo_cfg ''w1'' ''w1'' ''ws1'' ''t1'' ''p1'' now live db = Inr () \<and> checkSession demo_cfg ''w1'' ''w1'' ''ws1'' '''' '''' now live db = Inr () \<and>
   checkSession demo_cfg ''w1'' ''w1'' ''ws1'' ''t1'' '''' now live db = Inr ()"
  by (simp add: checkSession_def demo_cfg_def demo_session_def checkExecutorVersion_def demo_profile_def)

lemma demo_loadAccounts:
  "business_requests db = [demo_business] \<Longrightarrow>
   budget_accounts db = [demo_account ''a1'' ''tenant'' ''t1'', demo_account ''a2'' ''batch'' ''b1'', demo_family] \<Longrightarrow>
   loadAccounts ''t1'' ''q1'' db = Inr [demo_family, demo_account ''a1'' ''tenant'' ''t1'', demo_account ''a2'' ''batch'' ''b1'']"
  by (simp add: loadAccounts_def demo_business_def demo_account_def emptyAccount_def demo_family_def)

lemma demo_available:
  "Hour \<le> now \<Longrightarrow> now < 2 * Hour \<Longrightarrow>
   accountsAvailable [demo_family, demo_account ''a1'' ''tenant'' ''t1'', demo_account ''a2'' ''batch'' ''b1''] now = Inr ()"
  by (simp add: accountsAvailable_def demo_account_def emptyAccount_def demo_family_def demo_time)

lemma demo_run_fields [simp]:
  "run_ID demo_run = ''r1''" "run_TenantID demo_run = ''t1''" "run_ProfileID demo_run = ''p1''" "run_BusinessRequestID demo_run = ''q1''"
  "run_State demo_run = Ready" "run_RunDeadline demo_run = Hour + 600 * Second" "run_ProfileHash demo_run = sample_hash"
  "au_NextStepKind demo_auth = ''read_ticket''"
  by (simp_all add: demo_run_def demo_auth_def)

lemma demo_candidate:
  "map_of (cfg_workers demo_cfg) ''w1'' = Some w \<Longrightarrow> runs db = [(demo_run, demo_auth)] \<Longrightarrow> execution_slots db = [] \<Longrightarrow>
   claimCandidate (\<lambda>_. False) w (claimProfiles demo_cfg pf_Executable w) (claimProfiles demo_cfg pf_ApprovalEnabled w) ''w1'' db = Some (demo_run, demo_auth)"
  by (auto simp: demo_cfg_def claimCandidate_def claimProfiles_def claimableRun_def slotFull_def demo_profile_def sample_profile_def)

lemma demo_claim_lease: "ClaimExecution demo_run demo_auth ''w1'' ''ws1'' Hour = Inr (demo_lease, demo_run1, demo_auth1\<lparr>au_EventSequence := 1\<rparr>)"
proof -
  have "ValidIdentifier ''ws1''" by code_simp
  then show ?thesis by (simp add: ClaimExecution_def demo_identifiers demo_run_def demo_auth_def MaxSafeInteger_def MaxRecoveries_def Let_def minTime_def
        AttemptTTL_def LeaseTTL_def demo_lease_def demo_run1_def demo_auth1_def demo_time)
qed

definition demo_slots0 :: "executionSlot list" where
  "demo_slots0 = map (\<lambda>s. s\<lparr>sl_Used := 0\<rparr>) demo_slots"

lemma demo_lockSlots:
  "execution_slots db = [] \<Longrightarrow> lockSlots (slotKeys demo_run ''w1'') [Some 1, Some 2, Some 3] db = Inr (demo_slots0, db\<lparr>execution_slots := demo_slots0\<rparr>)"
  by (simp add: slotKeys_def lockSlot_def Let_def demo_slots0_def demo_slots_def)

lemma demo_claim:
  "StoreClaimRun demo_cfg (\<lambda>_. False) (rc_guard demo_rc) (rc_loadCheckpoint demo_rc) ''w1'' ''ws1'' Hour Hour Hour Hour demo_ready =
     Inr (Some (demo_lease, ''checkpoint'', Hour), demo_claimed)"
proof -
  define w where "w = \<lparr>wc_ID = ''w1'', wc_Tenants = [''t1''], wc_ProfileIDs = [''p1''], wc_Capacity = 1\<rparr>"
  define db1 where "db1 = demo_ready\<lparr>execution_slots := demo_slots0\<rparr>"
  have w: "map_of (cfg_workers demo_cfg) ''w1'' = Some w" "wc_Capacity w = 1" "cfg_tenantCapacity demo_cfg = 2" "cfg_profileCapacity demo_cfg = 3"
    "claimProfiles demo_cfg pf_Executable w = [''p1'']"
    by (simp_all add: demo_cfg_def w_def claimProfiles_def demo_profile_def sample_profile_def)
  have ready: "runs demo_ready = [(demo_run, demo_auth)]" "execution_slots demo_ready = []" "business_requests demo_ready = [demo_business]"
    "budget_accounts demo_ready = [demo_account ''a1'' ''tenant'' ''t1'', demo_account ''a2'' ''batch'' ''b1'', demo_family]"
    "worker_sessions demo_ready = [demo_session]" "agent_profiles demo_ready = [storedProfile demo_profile]" "run_attempts demo_ready = []"
    "run_events demo_ready = [newEvent demo_run demo_auth ''admitted'' Hour]"
    by (simp_all add: demo_ready_def demo_admitted_def demo_setup_def)
  have live: "Hour < Hour + sessionTTL" by (simp add: sessionTTL_def demo_time)
  have grant: "grantLease Hour demo_run demo_auth demo_slots0 ''w1'' ''ws1'' Hour db1 = Inr (demo_lease, demo_run1, demo_auth1\<lparr>au_EventSequence := 1\<rparr>, demo_claimed)"
    by (simp add: grantLease_def demo_claim_lease db1_def ready demo_slots0_def demo_slots_def Let_def recordRun_def appendEvent_def MaxSafeInteger_def
        saveRun_def update_where_def demo_claimed_def demo_auth1_def demo_run1_def newAttempt_def newEvent_def)
  have free: "\<not> list_ex (\<lambda>s. sl_Capacity s \<le> sl_Used s) demo_slots0" by (simp add: demo_slots0_def demo_slots_def)
  have pos: "0 < Second" "0 < Hour" "0 < sessionTTL" by (simp_all add: demo_time sessionTTL_def)
  have db1: "worker_sessions db1 = [demo_session]" "agent_profiles db1 = [storedProfile demo_profile]" by (simp_all add: db1_def ready)
  have checks: "rc_guard demo_rc db1 i p r a now = Inr ()" "rc_loadCheckpoint demo_rc db2 r a = Inr ''checkpoint''" for i p r a now db2
    by (simp_all add: demo_rc_def)
  have "claimRow demo_cfg (rc_guard demo_rc) (rc_loadCheckpoint demo_rc) w ''w1'' ''ws1'' Hour Hour Hour demo_run demo_auth demo_ready =
      Inr (Some (demo_lease, ''checkpoint'', Hour), demo_claimed)"
    unfolding claimRow_def Let_def
    by (simp add: demo_loadAccounts ready w demo_lockSlots db1_def [symmetric] db1 demo_ledgerProfile live demo_available demo_checkSession
        free pos checks grant)
  moreover have "claimCandidate (\<lambda>_. False) w [''p1''] (claimProfiles demo_cfg pf_ApprovalEnabled w) ''w1'' demo_ready = Some (demo_run, demo_auth)"
    using demo_candidate [OF w(1) ready(1,2)] by (simp add: w)
  moreover have "ValidUUID (cfg_parseUUID demo_cfg) ''ws1''" by (simp add: demo_cfg_def ValidUUID_def)
  ultimately show ?thesis using pos by (simp add: StoreClaimRun_def w ready Let_def demo_checkSession)
qed

end
