(* ===== verification/RunScenario2.thy ===== *)
theory RunScenario2
  imports RunScenario
begin

text \<open>
  The history goes on: the first step is committed.
\<close>

section \<open>A committed step\<close>

definition demo_step :: StepIdentity where
  "demo_step = \<lparr>st_ID = ''step1'', st_Sequence = 1, st_Kind = ''read_ticket'', st_CursorVersion = 0, st_InputHash = sample_hash,
     st_ProfileID = ''p1'', st_ProfileHash = sample_hash, st_SnapshotID = ''s1'', st_SnapshotHash = sample_hash\<rparr>"

definition demo_commit :: CommitStepRequest where
  "demo_commit = \<lparr>cm_Lease = demo_lease, cm_Step = demo_step, cm_ResultJSON = ''{}'', cm_CommitHash = sample_hash\<rparr>"

definition demo_run2 :: Run where
  "demo_run2 = demo_run1\<lparr>run_CursorVersion := 1\<rparr>"

definition demo_auth2 :: Authority where
  "demo_auth2 = demo_auth1\<lparr>au_CheckpointBytes := 7, au_EventSequence := 3, au_NextStepID := ''step2'', au_NextStepKind := ''submit_proposal''\<rparr>"

definition demo_committed :: run_db where
  "demo_committed = demo_claimed\<lparr>runs := [(demo_run2, demo_auth2)], run_steps := [newStep demo_commit demo_run2 ''{}'' Hour],
     run_events := run_events demo_claimed @ [newEvent demo_run2 demo_auth2 ''step_committed'' Hour]\<rparr>"

lemma demo_tables [simp]:
  "worker_sessions demo_claimed = [demo_session]" "agent_profiles demo_claimed = [storedProfile demo_profile]"
  "business_requests demo_claimed = [demo_business]" "run_steps demo_claimed = []" "physical_calls demo_claimed = []"
  "budget_accounts demo_claimed = [demo_account ''a1'' ''tenant'' ''t1'', demo_account ''a2'' ''batch'' ''b1'', demo_family]"
  "runs demo_claimed = [(demo_run1, demo_auth1)]" "execution_slots demo_claimed = demo_slots"
  "run_attempts demo_claimed = [newAttempt demo_run1 demo_auth1 ''w1'' ''ws1'' Hour]"
  by (simp_all add: demo_claimed_def demo_ready_def demo_admitted_def demo_setup_def)

lemma demo_lock: "lockRun ''t1'' ''r1'' demo_claimed = Inr (demo_run1, demo_auth1)"
  by (simp add: lockRun_def demo_run1_def)

lemma demo_lease_fields [simp]: "ls_TenantID demo_lease = ''t1''" "ls_RunID demo_lease = ''r1''" "ls_WorkerID demo_lease = ''w1''"
  "ls_SessionID demo_lease = ''ws1''" "ls_AttemptNo demo_lease = 1" "ls_FencingToken demo_lease = 1"
  by (simp_all add: demo_lease_def)

lemma demo_lease_valid: "validateLedgerLease demo_cfg demo_lease"
  by (simp add: validateLedgerLease_def demo_identifiers ValidUUID_def MaxSafeInteger_def demo_cfg_def)

lemma demo_run1_fields [simp]:
  "run_ID demo_run1 = ''r1''" "run_TenantID demo_run1 = ''t1''" "run_ProfileID demo_run1 = ''p1''" "run_BusinessRequestID demo_run1 = ''q1''"
  "run_State demo_run1 = Running" "run_RunDeadline demo_run1 = Hour + 600 * Second" "run_ProfileHash demo_run1 = sample_hash"
  "run_AttemptNo demo_run1 = 1" "run_CursorVersion demo_run1 = 0" "run_SnapshotID demo_run1 = ''s1''" "run_SnapshotHash demo_run1 = sample_hash"
  "run_CancelRequestedAt demo_run1 = None" "run_LeaseUntil demo_run1 = Some (Hour + LeaseTTL)" "run_AttemptDeadline demo_run1 = Some (Hour + AttemptTTL)"
  "run_TerminalAt demo_run1 = None" "run_StopReason demo_run1 = None" "run_RecoveryCount demo_run1 = 0" "run_UpdatedAt demo_run1 = Hour"
  by (simp_all add: demo_run1_def demo_run_def)

lemma demo_auth1_fields [simp]:
  "au_WorkerID demo_auth1 = ''w1''" "au_SessionID demo_auth1 = ''ws1''" "au_FencingToken demo_auth1 = 1" "au_ActiveCallID demo_auth1 = None"
  "au_CheckpointBytes demo_auth1 = 5" "au_EventSequence demo_auth1 = 2" "au_NextStepID demo_auth1 = ''step1''"
  "au_NextStepKind demo_auth1 = ''read_ticket''" "au_NextInputHash demo_auth1 = sample_hash"
  by (simp_all add: demo_auth1_def demo_auth_def)

lemma demo_exec:
  "Hour \<le> now \<Longrightarrow> now < Hour + LeaseTTL \<Longrightarrow> CheckExecution demo_run1 demo_auth1 demo_lease now = Inr ()"
  by (simp add: CheckExecution_def afterNow_def matchesExecution_def LeaseTTL_def AttemptTTL_def demo_time)

lemma demo_step_ok: "CheckStep Some demo_run1 demo_auth1 demo_step = Inr ()"
  by (simp add: CheckStep_def demo_step_def demo_cfg_def ValidUUID_def sample_hash_valid demo_identifiers validStepKind_def)

lemma demo_run2_stamp: "demo_run1\<lparr>run_CursorVersion := 1, run_UpdatedAt := Hour\<rparr> = demo_run2"
  by (simp add: demo_run2_def demo_run1_def demo_run_def)

definition demo_decision :: CommitDecision where
  "demo_decision = \<lparr>cd_CanonicalJSON = ''{}'', cd_Result = \<lparr>sr_ToolInvocationID = '''', sr_PhysicalCallID = '''', sr_CorrectionRequired = False\<rparr>,
       cd_NextKind = ''submit_proposal'', cd_CloseAttempt = False, cd_Proposal = None\<rparr>"

lemma demo_parse: "cfg_parseUUID demo_cfg = Some" "cfg_sha demo_cfg = demo_sha" by (simp_all add: demo_cfg_def)

lemma demo_apply:
  "ApplyCommit demo_cfg demo_run1 demo_auth1 demo_commit demo_decision ''step2'' Hour = Inr (demo_run2, demo_auth2\<lparr>au_EventSequence := 2\<rparr>)"
proof -
  have "0 < LeaseTTL" by (simp add: LeaseTTL_def demo_time)
  then have "CheckExecution demo_run1 demo_auth1 demo_lease Hour = Inr ()" by (intro demo_exec) simp_all
  moreover have "au_NextInputHash demo_auth1 = sample_hash" by simp
  moreover have "demo_auth1\<lparr>au_CheckpointBytes := 7, au_NextStepID := ''step2'', au_NextStepKind := ''submit_proposal'', au_NextInputHash := sample_hash\<rparr> =
     demo_auth2\<lparr>au_EventSequence := 2\<rparr>" by (simp add: demo_auth2_def demo_auth1_def demo_auth_def)
  moreover have "cm_Lease demo_commit = demo_lease" "cm_Step demo_commit = demo_step" "cm_CommitHash demo_commit = sample_hash" by (simp_all add: demo_commit_def)
  ultimately show ?thesis
    by (simp add: ApplyCommit_def demo_decision_def demo_step_ok MaxCheckpointBytes_def validStepKind_def ValidUUID_def
        demo_run2_stamp NextInputHash_def demo_sha_other Let_def demo_parse)
qed

lemma demo_appended:
  "applyStep demo_cfg demo_commit demo_decision None ''step2'' Hour Hour demo_run1 demo_auth1 demo_claimed =
     Inr (commitResponse demo_run2 demo_auth2 \<lparr>as_Identity = demo_step, as_CommitHash = sample_hash, as_ResultJSON = ''{}'',
       as_ResultRef = StepReference ''r1'' 1\<rparr> False, demo_committed)"
proof -
  have req: "cm_Step demo_commit = demo_step" "cm_CommitHash demo_commit = sample_hash" "st_Sequence demo_step = 1" "run_ID demo_run2 = ''r1''"
    "run_TenantID demo_run2 = ''t1''"
    by (simp_all add: demo_commit_def demo_step_def demo_run2_def)
  have decision: "cd_CanonicalJSON demo_decision = ''{}''" "\<not> cd_CloseAttempt demo_decision" by (simp_all add: demo_decision_def)
  have auth: "run_State demo_run2 = Running" "au_EventSequence demo_auth2 = 3" "demo_auth2\<lparr>au_EventSequence := 3\<rparr> = demo_auth2" by (simp_all add: demo_auth2_def demo_run2_def)
  have stamp: "demo_run2\<lparr>run_UpdatedAt := Hour\<rparr> = demo_run2" by (simp add: demo_run2_def demo_run1_def demo_run_def)
  show ?thesis
    by (simp add: applyStep_def demo_apply req decision insertStep_def closeCommit_def appendEvent_def MaxSafeInteger_def auth saveRun_def stamp
        update_where_def demo_committed_def Let_def)
qed

lemma demo_commitStep: "\<exists>resp. CommitStep demo_cfg demo_cc ''w1'' demo_commit ''step2'' Hour Hour Hour demo_claimed = Inr (resp, demo_committed)"
proof -
  define profile where "profile = demo_profile\<lparr>pf_Executable := False\<rparr>"
  have req: "cm_Lease demo_commit = demo_lease" "cm_Step demo_commit = demo_step" "cm_CommitHash demo_commit = sample_hash" "cm_ResultJSON demo_commit = ''{}''"
    by (simp_all add: demo_commit_def)
  have step: "st_ID demo_step = ''step1''" "st_Kind demo_step = ''read_ticket''" by (simp_all add: demo_step_def)
  have pos: "0 < LeaseTTL" "0 < sessionTTL" by (simp_all add: LeaseTTL_def sessionTTL_def demo_time)
  then have exec: "CheckExecution demo_run1 demo_auth1 demo_lease Hour = Inr ()" by (intro demo_exec) simp_all
  have profile: "ledgerProfile demo_cfg demo_run1 False demo_claimed = Inr profile" unfolding profile_def by (rule demo_ledgerProfile) simp_all
  have "\<not> AuditEnabled profile" by (simp add: profile_def AuditEnabled_def demo_profile_def sample_profile_def)
  moreover have "pf_Hash profile = sample_hash" by (simp add: profile_def demo_profile_facts)
  moreover have "map_of (cfg_profiles demo_cfg) ''p1'' = Some demo_profile" by (simp add: demo_cfg_def)
  moreover have "checkSession demo_cfg ''w1'' ''w1'' ''ws1'' ''t1'' p Hour True demo_claimed = Inr ()" if "p = '''' \<or> p = ''p1''" for p
    using that demo_checkSession [of demo_claimed Hour True] pos by auto
  moreover have "cc_DecideCommit demo_cc profile c demo_commit = Inr demo_decision" "cc_loadCheckpoint demo_cc db r a = Inr ''checkpoint''" for c db r a
    by (simp_all add: demo_cc_def demo_decision_def req step)
  moreover have "cd_Result demo_decision = \<lparr>sr_ToolInvocationID = '''', sr_PhysicalCallID = '''', sr_CorrectionRequired = False\<rparr>" by (simp add: demo_decision_def)
  ultimately show ?thesis
    by (simp add: CommitStep_def commitStep_def req step demo_lease_valid demo_parse ValidUUID_def sample_hash_valid demo_lock profile exec
        readStep_def accountsUnfrozen_def commitNew_def demo_step_ok demo_profile_facts validateCommitObservation_def demo_appended Let_def)
qed


lemma demo_config: "config_ok demo_cfg"
  by (simp add: config_ok_def demo_cfg_def)

lemma demo_committed_step: "store_step demo_cfg demo_rc demo_cc demo_claimed demo_committed"
  using demo_commitStep store_step.on_ledger [OF ledger_step.commit] unfolding CommitStep_def by blast

end
