(* ===== verification/RunActionSystem.thy ===== *)
theory RunActionSystem
  imports RunSystem
begin

text \<open>
  The Run store together with the tables of actions as one transition system, and what its steps
  keep of those tables: one authorization per business request, permits that are counted and
  bounded, receipts that belong to their authorization, and spaced receipt queries. Authorizations
  and receipts are never taken back.
\<close>

lemma case_sum_Inr: "(case m of Inl _ \<Rightarrow> Inl e | Inr x \<Rightarrow> f x) = Inr y \<longleftrightarrow> (\<exists>x. m = Inr x \<and> f x = Inr y)"
  by (cases m) auto

section \<open>The tables of actions\<close>

abbreviation azRequest :: "AuthorizationRow \<Rightarrow> string \<times> string" where
  "azRequest z \<equiv> (az_TenantID z, az_BusinessRequestID z)"

abbreviation azKey :: "AuthorizationRow \<Rightarrow> string \<times> string" where
  "azKey z \<equiv> (az_TenantID z, az_OperationID z)"

abbreviation alKey :: "ActionCall \<Rightarrow> string \<times> string" where
  "alKey c \<equiv> (ls_TenantID (al_Lease c), al_OperationID c)"

abbreviation alSlot :: "ActionCall \<Rightarrow> (string \<times> string) \<times> int \<times> string" where
  "alSlot c \<equiv> ((ls_TenantID (al_Lease c), ls_RunID (al_Lease c)), (ls_AttemptNo (al_Lease c), al_Kind c))"

abbreviation rvKey :: "ReceiptView \<Rightarrow> string \<times> string" where
  "rvKey v \<equiv> (rv_TenantID v, rv_OperationID v)"

text \<open>The number of permits of a kind that were given for an authorization.\<close>

definition permits :: "string \<Rightarrow> string \<times> string \<Rightarrow> ActionCall list \<Rightarrow> int" where
  "permits kind k cs = count_where (\<lambda>c. alKey c = k \<and> al_Kind c = kind) cs"

definition auth_ok :: "business_env \<Rightarrow> ActionCall list \<Rightarrow> AuthorizationRow \<Rightarrow> bool" where
  "auth_ok env cs z \<longleftrightarrow>
     (let a = sa_Authorization (az_Action z) in
      az_TenantID z = aa_TenantID a \<and> az_BusinessRequestID z = aa_BusinessRequestID a \<and> az_RunID z = aa_RunID a \<and>
      az_OperationID z = aa_OperationID a \<and> az_Hash z = authHash env (az_Action z)) \<and>
     az_WriteCount z = permits ''action_write'' (azKey z) cs \<and> az_WriteCount z \<le> 4 \<and>
     az_QueryCount z = permits ''receipt_query'' (azKey z) cs \<and> az_QueryCount z \<le> 4"

definition call_permitted :: "AuthorizationRow list \<Rightarrow> ActionCall \<Rightarrow> bool" where
  "call_permitted zs c \<longleftrightarrow> al_Kind c \<in> {''receipt_query'', ''action_write''} \<and> (\<exists>z \<in> set zs. azKey z = alKey c \<and> az_RunID z = ls_RunID (al_Lease c))"

definition view_ok :: "business_env \<Rightarrow> AuthorizationRow list \<Rightarrow> ReceiptView \<Rightarrow> bool" where
  "view_ok env zs v \<longleftrightarrow> (\<exists>z \<in> set zs. azKey z = rvKey v \<and> isOk (ReceiptValidate env (rv_Receipt v) (az_Action z)))"

definition permits_inv :: "business_env \<Rightarrow> AuthorizationRow list \<Rightarrow> ActionCall list \<Rightarrow> bool" where
  "permits_inv env zs cs \<longleftrightarrow> distinct (map azRequest zs) \<and> distinct (map azKey zs) \<and> (\<forall>z \<in> set zs. auth_ok env cs z) \<and>
     distinct (map al_ID cs) \<and> distinct (map alSlot cs) \<and> (\<forall>c \<in> set cs. call_permitted zs c)"

definition views_inv :: "business_env \<Rightarrow> AuthorizationRow list \<Rightarrow> ReceiptView list \<Rightarrow> bool" where
  "views_inv env zs vs \<longleftrightarrow> distinct (map rvKey vs) \<and> (\<forall>v \<in> set vs. view_ok env zs v)"

text \<open>Two queries of one tenant: a second apart, and the first one finished or out of its time.\<close>

definition spaced :: "ReceiptQuery \<Rightarrow> ReceiptQuery \<Rightarrow> bool" where
  "spaced q p \<longleftrightarrow> qr_TenantID q = qr_TenantID p \<longrightarrow>
     qr_ReservedAt q + Second \<le> qr_ReservedAt p \<and> (qr_FinishedAt q = None \<longrightarrow> qr_Deadline q \<le> qr_ReservedAt p)"

text \<open>The gate of the tenant remembers its last query until it is finished or out of time.\<close>

definition gated :: "QueryGate list \<Rightarrow> ReceiptQuery \<Rightarrow> bool" where
  "gated gs q \<longleftrightarrow> (\<exists>g \<in> set gs. qg_TenantID g = qr_TenantID q \<and> qr_ReservedAt q + Second \<le> qg_NextAllowedAt g \<and>
     (qr_FinishedAt q = None \<longrightarrow> qr_Deadline q \<le> qg_NextAllowedAt g \<or> (qg_QueryID g = Some (qr_ID q) \<and> qg_QueryUntil g = Some (qr_Deadline q))))"

definition queries_inv :: "QueryGate list \<Rightarrow> ReceiptQuery list \<Rightarrow> bool" where
  "queries_inv gs qs \<longleftrightarrow> distinct (map qg_TenantID gs) \<and> distinct (map qr_ID qs) \<and> sorted_wrt spaced qs \<and> (\<forall>q \<in> set qs. gated gs q)"

definition actions_inv :: "business_env \<Rightarrow> action_db \<Rightarrow> bool" where
  "actions_inv env t \<longleftrightarrow> permits_inv env (action_authorizations t) (action_call_rows t) \<and>
     views_inv env (action_authorizations t) (action_receipt_views t) \<and>
     queries_inv (tenant_receipt_query_gates t) (action_receipt_queries t)"

text \<open>Authorizations keep their signed action and receipts stay.\<close>

definition same_authorization :: "AuthorizationRow \<Rightarrow> AuthorizationRow \<Rightarrow> bool" where
  "same_authorization z z' \<longleftrightarrow> azRequest z' = azRequest z \<and> azKey z' = azKey z \<and> az_RunID z' = az_RunID z \<and> az_Action z' = az_Action z \<and>
     az_WriteCount z \<le> az_WriteCount z' \<and> az_QueryCount z \<le> az_QueryCount z'"

definition actions_grow :: "action_db \<Rightarrow> action_db \<Rightarrow> bool" where
  "actions_grow t t' \<longleftrightarrow> (\<forall>z \<in> set (action_authorizations t). \<exists>z' \<in> set (action_authorizations t'). same_authorization z z') \<and>
     set (action_receipt_views t) \<subseteq> set (action_receipt_views t')"

lemma same_authorization_refl [simp]: "same_authorization z z"
  by (simp add: same_authorization_def)

lemma actions_grow_refl [simp]: "actions_grow t t"
  unfolding actions_grow_def using same_authorization_refl by blast

lemma actions_grow_trans:
  assumes "actions_grow t u" "actions_grow u w"
  shows "actions_grow t w"
proof -
  have "same_authorization x z" if "same_authorization x y" "same_authorization y z" for x y z
    using that by (auto simp: same_authorization_def)
  with assms show ?thesis unfolding actions_grow_def by (meson subset_trans)
qed

lemma actions_grow_frame:
  "action_authorizations t' = action_authorizations t \<Longrightarrow> set (action_receipt_views t) \<subseteq> set (action_receipt_views t') \<Longrightarrow> actions_grow t t'"
  unfolding actions_grow_def using same_authorization_refl by metis

section \<open>Authorizations\<close>

lemma authorization_unique:
  assumes "permits_inv env zs cs" "z \<in> set zs" "z' \<in> set zs" "azKey z = azKey z' \<or> azRequest z = azRequest z'"
  shows "z = z'"
  using assms inj_onD [of azKey "set zs" z z'] inj_onD [of azRequest "set zs" z z'] by (auto simp: permits_inv_def distinct_map)

lemma findAuthorization_mem: "findAuthorization tenant b t = Some z \<Longrightarrow> z \<in> set (action_authorizations t) \<and> azRequest z = (tenant, b)"
  unfolding findAuthorization_def by (drule find_row_SomeD) simp

lemma readAction_mem:
  assumes "readAction tenant b t = Some action"
  obtains z where "z \<in> set (action_authorizations t)" "azRequest z = (tenant, b)" "az_Action z = action"
  using assms findAuthorization_mem unfolding readAction_def by blast

lemma insertAuthorization_effect:
  assumes "insertAuthorization env s now expires t = Inr t'"
  obtains z where "t' = t\<lparr>action_authorizations := action_authorizations t @ [z]\<rparr>" "az_Action z = s" "az_WriteCount z = 0" "az_QueryCount z = 0"
    "azKey z \<notin> azKey ` set (action_authorizations t)" "azRequest z \<notin> azRequest ` set (action_authorizations t)"
    "az_TenantID z = aa_TenantID (sa_Authorization s)" "az_BusinessRequestID z = aa_BusinessRequestID (sa_Authorization s)"
    "az_RunID z = aa_RunID (sa_Authorization s)" "az_OperationID z = aa_OperationID (sa_Authorization s)" "az_Hash z = authHash env s"
proof -
  define z where "z = \<lparr>az_TenantID = aa_TenantID (sa_Authorization s), az_BusinessRequestID = aa_BusinessRequestID (sa_Authorization s),
        az_RunID = aa_RunID (sa_Authorization s), az_OperationID = aa_OperationID (sa_Authorization s), az_ApprovalID = aa_ApprovalID (sa_Authorization s),
        az_Hash = authHash env s, az_Action = s, az_QueryCount = 0, az_WriteCount = 0, az_AuthorizedAt = now, az_ExpiresAt = expires\<rparr>"
  from assms have "t' = t\<lparr>action_authorizations := action_authorizations t @ [z]\<rparr>"
    and "\<forall>x \<in> set (action_authorizations t). azKey x \<noteq> azKey z \<and> azRequest x \<noteq> azRequest z"
    by (auto simp: insertAuthorization_def Let_def z_def list_ex_iff split: if_splits)
  then show thesis by (intro that [of z]) (auto simp: z_def)
qed

lemma permits_zero:
  assumes "\<forall>c \<in> set cs. call_permitted zs c" "k \<notin> azKey ` set zs"
  shows "permits kind k cs = 0"
  unfolding permits_def by (rule count_where_zero) (use assms in \<open>force simp: call_permitted_def\<close>)

lemma insertAuthorization_inv:
  assumes inv: "actions_inv env t" and ins: "insertAuthorization env s now expires t = Inr t'"
  shows "actions_inv env t'" "actions_grow t t'"
proof -
  from ins obtain z where t': "t' = t\<lparr>action_authorizations := action_authorizations t @ [z]\<rparr>" and z: "az_Action z = s" "az_WriteCount z = 0" "az_QueryCount z = 0"
    "azKey z \<notin> azKey ` set (action_authorizations t)" "azRequest z \<notin> azRequest ` set (action_authorizations t)"
    "az_TenantID z = aa_TenantID (sa_Authorization s)" "az_BusinessRequestID z = aa_BusinessRequestID (sa_Authorization s)"
    "az_RunID z = aa_RunID (sa_Authorization s)" "az_OperationID z = aa_OperationID (sa_Authorization s)" "az_Hash z = authHash env s"
    by (rule insertAuthorization_effect)
  have "permits kind (azKey z) (action_call_rows t) = 0" for kind
    by (rule permits_zero [OF _ z(4)]) (use inv in \<open>simp add: actions_inv_def permits_inv_def\<close>)
  then have "auth_ok env (action_call_rows t) z" using z by (simp add: auth_ok_def Let_def)
  moreover have "call_permitted (action_authorizations t @ [z]) c" if "call_permitted (action_authorizations t) c" for c
    using that by (auto simp: call_permitted_def)
  moreover have "view_ok env (action_authorizations t @ [z]) v" if "view_ok env (action_authorizations t) v" for v
    using that by (auto simp: view_ok_def)
  ultimately show "actions_inv env t'" using inv z(4,5)
    unfolding actions_inv_def permits_inv_def views_inv_def t' by (auto simp del: prod.inject)
  show "actions_grow t t'" unfolding actions_grow_def t' using same_authorization_refl by (metis Un_iff set_append action_db.select_convs(1,3) action_db.update_convs(1) action_db.surjective subset_refl)
qed

lemma AuthorizeAction_cases:
  assumes "AuthorizeAction cfg rc ae caller lease step operationID now0 now s = Inr ((action, effect), s')"
  obtains (known) "s' = s" "\<exists>r a. lockRun (ls_TenantID lease) (ls_RunID lease) (fst s) = Inr (r, a) \<and>
      readAction (run_TenantID r) (run_BusinessRequestID r) (snd s) = Some action"
    | (new) accounts r a where "lockRun (ls_TenantID lease) (ls_RunID lease) (fst s) = Inr (r, a)"
      "readAction (run_TenantID r) (run_BusinessRequestID r) (snd s) = None"
      "authorizeNew cfg rc ae caller lease step operationID now0 now accounts r a s = Inr (action, snd s')" "fst s' = fst s"
proof -
  from assms obtain r a accounts t1 where lock: "lockRun (ls_TenantID lease) (ls_RunID lease) (fst s) = Inr (r, a)"
    and act: "(case readAction (run_TenantID r) (run_BusinessRequestID r) (snd s) of
          Some action \<Rightarrow> Inr (action, snd s)
        | None \<Rightarrow> authorizeNew cfg rc ae caller lease step operationID now0 now accounts r a s) = Inr (action, t1)"
    and s': "s' = (fst s, t1)"
    unfolding AuthorizeAction_def by (auto simp: if_Inl_eq_Inr bindE_Inr_iff)
  show thesis
    by (cases "readAction (run_TenantID r) (run_BusinessRequestID r) (snd s)") (use lock act s' known new in auto)
qed

lemma authorizeNew_effect:
  assumes "authorizeNew cfg rc ae caller lease step operationID now0 now accounts r a s = Inr (action, t')"
  obtains p view commit params keyID key and b :: BusinessRequest and vector expires where "ledgerProfile cfg r True (fst s) = Inr p" "approvalView cfg ae r now0 (fst s) = Inr (view, commit)" "vw_Status view = ''approved''"
    "ResolutionFromProposal (ae_business ae) (run_TicketID r) (vw_Proposal view) = Inr params"
    "signingKey ae p = Inr (keyID, key)" "run_PermissionExpiresAt r = Some expires" "now < expires"
    "SignAction (ae_business ae) (newAuthorization operationID keyID r view
       (case ParametersHash (ae_business ae) params of Inl _ \<Rightarrow> '''' | Inr h \<Rightarrow> h) (bq_CreatedAt b) vector expires now) params key = Inr action"
    "insertAuthorization (ae_business ae) action now expires (snd s) = Inr t'"
  using assms unfolding authorizeNew_def Let_def
  by (auto simp: bindE_Inr_iff if_Inl_eq_Inr case_option_Inr case_sum_Inr)

lemma SignAction_authorization: "SignAction env a p key = Inr s \<Longrightarrow> sa_Authorization s = a \<and> sa_Parameters s = p"
  by (auto simp: SignAction_def result_simps split: if_splits)

lemma AuthorizeAction_inv:
  assumes inv: "actions_inv (ae_business ae) (snd s)" and auth: "AuthorizeAction cfg rc ae caller lease step operationID now0 now s = Inr (answer, s')"
  shows "actions_inv (ae_business ae) (snd s') \<and> actions_grow (snd s) (snd s')"
proof -
  obtain action effect where answer: "answer = (action, effect)" by (cases answer)
  from auth [unfolded answer] show ?thesis
  proof (cases rule: AuthorizeAction_cases)
    case (new accounts r a)
    from new(3) show ?thesis by (rule authorizeNew_effect) (use insertAuthorization_inv [OF inv] in blast)
  qed (use inv in simp)
qed

section \<open>Permits\<close>

lemma countCall_fields [simp]:
  "azKey (countCall kind z) = azKey z" "az_TenantID (countCall kind z) = az_TenantID z" "az_OperationID (countCall kind z) = az_OperationID z"
  "az_BusinessRequestID (countCall kind z) = az_BusinessRequestID z" "az_RunID (countCall kind z) = az_RunID z" "az_Action (countCall kind z) = az_Action z"
  "az_Hash (countCall kind z) = az_Hash z"
  "az_WriteCount (countCall kind z) = az_WriteCount z + (if kind = ''action_write'' then 1 else 0)"
  "az_QueryCount (countCall kind z) = az_QueryCount z + (if kind = ''action_write'' then 0 else 1)"
  by (simp_all add: countCall_def)

lemma countCall_same: "same_authorization z (countCall kind z)"
  by (simp add: same_authorization_def)

text \<open>A new permit is counted on the authorization of its operation and on no other.\<close>

lemma permits_append: "permits kind k (cs @ [c]) = permits kind k cs + (if alKey c = k \<and> al_Kind c = kind then 1 else 0)"
  by (simp add: permits_def)

lemma update_authorizations:
  assumes "zs' = update_where P (countCall kind) zs"
  shows "map azRequest zs' = map azRequest zs" "map azKey zs' = map azKey zs" "call_permitted zs' c = call_permitted zs c" "view_ok env zs' v = view_ok env zs v"
    "\<forall>z \<in> set zs. \<exists>z' \<in> set zs'. same_authorization z z'"
proof -
  show "map azRequest zs' = map azRequest zs" "map azKey zs' = map azKey zs" unfolding assms by (rule map_update_where, simp)+
  have "map (\<lambda>z. (azKey z, az_RunID z)) zs' = map (\<lambda>z. (azKey z, az_RunID z)) zs" "map (\<lambda>z. (azKey z, az_Action z)) zs' = map (\<lambda>z. (azKey z, az_Action z)) zs"
    unfolding assms by (rule map_update_where, simp)+
  note sets = this [THEN arg_cong [where f = set], unfolded set_map]
  have "(\<exists>z \<in> set xs. azKey z = k \<and> az_RunID z = i) \<longleftrightarrow> (k, i) \<in> (\<lambda>z. (azKey z, az_RunID z)) ` set xs" for xs k i by (auto simp: image_iff)
  then show "call_permitted zs' c = call_permitted zs c" unfolding call_permitted_def by (simp only: sets)
  have "view_ok env xs v \<longleftrightarrow> (\<exists>y \<in> (\<lambda>z. (azKey z, az_Action z)) ` set xs. fst y = rvKey v \<and> isOk (ReceiptValidate env (rv_Receipt v) (snd y)))" for xs
    by (auto simp: view_ok_def)
  then show "view_ok env zs' v = view_ok env zs v" by (simp only: sets)
  show "\<forall>z \<in> set zs. \<exists>z' \<in> set zs'. same_authorization z z'"
    unfolding assms set_update_where using countCall_same same_authorization_refl by blast
qed

lemma permits_inv_grant:
  assumes inv: "permits_inv env zs cs" and z: "z \<in> set zs" "azKey z = alKey c" "az_RunID z = ls_RunID (al_Lease c)"
    and new: "al_ID c \<notin> al_ID ` set cs" "alSlot c \<notin> alSlot ` set cs" "al_Kind c \<in> {''receipt_query'', ''action_write''}"
    and room: "al_Kind c = ''action_write'' \<Longrightarrow> az_WriteCount z < 4" "al_Kind c \<noteq> ''action_write'' \<Longrightarrow> az_QueryCount z < 4"
    and zs': "zs' = update_where (\<lambda>z. azKey z = alKey c) (countCall (al_Kind c)) zs"
  shows "permits_inv env zs' (cs @ [c])"
proof -
  note u = update_authorizations [OF zs']
  have old: "auth_ok env cs y" if "y \<in> set zs" for y using inv that by (simp add: permits_inv_def)
  have "\<forall>y \<in> set zs'. auth_ok env (cs @ [c]) y" unfolding zs'
  proof (rule ball_update_where)
    fix y assume y: "y \<in> set zs" "azKey y = alKey c"
    with authorization_unique [OF inv y(1) z(1)] z(2) have "y = z" by simp
    with y old [OF y(1)] room new(3) show "auth_ok env (cs @ [c]) (countCall (al_Kind c) y)" by (auto simp: auth_ok_def Let_def permits_append)
  next
    fix y assume y: "y \<in> set zs" "azKey y \<noteq> alKey c"
    with old [OF y(1)] show "auth_ok env (cs @ [c]) y" by (auto simp: auth_ok_def Let_def permits_append simp del: prod.inject)
  qed
  moreover have "call_permitted zs c" using new(3) z unfolding call_permitted_def by blast
  ultimately show ?thesis using inv new u(1,2,3) unfolding permits_inv_def by (auto simp del: prod.inject)
qed

lemma ReserveActionCall_inv:
  assumes inv: "actions_inv (ae_business ae) (snd s)" and res: "ReserveActionCall cfg rc ae caller req now0 now s = Inr ((c, newly), s')"
  shows "actions_inv (ae_business ae) (snd s') \<and> actions_grow (snd s) (snd s')"
  using res
proof (cases rule: ReserveActionCall_cases)
  case (granted r a action accounts)
  define zs where "zs = action_authorizations (snd s)"
  have p: "permits_inv (ae_business ae) zs (action_call_rows (snd s))" using inv by (simp add: actions_inv_def zs_def)
  from granted(7) obtain z where z: "find_row (\<lambda>z. az_TenantID z = run_TenantID r \<and> az_OperationID z = rac_OperationID req) zs = Some z"
    "rac_Kind req = ''action_write'' \<Longrightarrow> az_WriteCount z < 4" "rac_Kind req \<noteq> ''action_write'' \<Longrightarrow> az_QueryCount z < 4"
    and once: "\<forall>x \<in> set (action_call_rows (snd s)). \<not> (ls_TenantID (al_Lease x) = run_TenantID r \<and> ls_RunID (al_Lease x) = run_ID r \<and>
       ls_AttemptNo (al_Lease x) = run_AttemptNo r \<and> al_Kind x = rac_Kind req)"
    and exec: "actionExecution cfg ae caller r a (rac_Lease req) (rac_Step req) now (fst s) = Inr ()"
    and c: "al_Lease c = rac_Lease req" "al_OperationID c = rac_OperationID req" "al_Kind c = rac_Kind req" and ins: "insertActionCall c r s = Inr s'"
    unfolding zs_def by (rule grantActionCall_cases) blast
  have lease: "run_TenantID r = ls_TenantID (rac_Lease req)" "run_ID r = ls_RunID (rac_Lease req)" "run_AttemptNo r = ls_AttemptNo (rac_Lease req)"
    using actionExecution_effect(2) [OF exec] by (auto simp: CheckExecution_def matchesExecution_def split: if_splits)
  from readAction_mem [OF granted(3)] obtain y where y: "y \<in> set zs" "azRequest y = (run_TenantID r, run_BusinessRequestID r)" "az_Action y = action"
    unfolding zs_def by blast
  have "auth_ok (ae_business ae) (action_call_rows (snd s)) y" using p y(1) by (simp add: permits_inv_def)
  with y(2,3) granted(4,5) c lease have yk: "azKey y = alKey c" "az_RunID y = ls_RunID (al_Lease c)" by (auto simp: auth_ok_def Let_def)
  have "z \<in> set zs" "azKey z = alKey c" using find_row_SomeD [OF z(1)] c lease by simp_all
  with authorization_unique [OF p y(1), of z] yk have "y = z" by simp
  note e = insertActionCall_effect [OF ins]
  define zs' where "zs' = update_where (\<lambda>z. azKey z = alKey c) (countCall (al_Kind c)) zs"
  have "action_authorizations (snd s') = zs'" unfolding e(2) zs'_def zs_def by (simp add: c lease)
  moreover have "permits_inv (ae_business ae) zs' (action_call_rows (snd s) @ [c])"
    by (rule permits_inv_grant [OF p y(1) yk e(3) _ _ _ _ zs'_def])
      (use once granted(6) z(2,3) \<open>y = z\<close> c lease in \<open>auto simp: image_iff\<close>)
  moreover note u = update_authorizations [OF zs'_def]
  ultimately show ?thesis using inv u(4,5) unfolding actions_inv_def views_inv_def actions_grow_def zs_def by (simp add: e(2))
qed (use inv in simp)

lemma permits_map: "permits kind k cs = count_where (\<lambda>y. y = (k, kind)) (map (\<lambda>c. (alKey c, al_Kind c)) cs)"
  unfolding permits_def by (induction cs) auto

lemma observe_calls:
  assumes keep: "al_Lease c' = al_Lease c" "al_OperationID c' = al_OperationID c" "al_Kind c' = al_Kind c" "al_ID c' = al_ID c"
    and one: "\<And>x. x \<in> set cs \<Longrightarrow> P x \<Longrightarrow> x = c" and inv: "permits_inv env zs cs"
  shows "permits_inv env zs (update_where P (\<lambda>_. c') cs)"
proof -
  define cs' where "cs' = update_where P (\<lambda>_. c') cs"
  have same: "map f cs' = map f cs" if "f c' = f c" for f :: "ActionCall \<Rightarrow> 'x"
    unfolding cs'_def update_where_def using that one by auto
  have "permits kind k cs' = permits kind k cs" for kind k
    unfolding permits_map using same [of "\<lambda>c. (alKey c, al_Kind c)"] keep by simp
  then have "auth_ok env cs' z = auth_ok env cs z" for z by (simp add: auth_ok_def)
  moreover have "\<forall>x \<in> set cs'. call_permitted zs x" unfolding cs'_def
    by (rule ball_update_where) (use inv one keep in \<open>auto simp: permits_inv_def call_permitted_def\<close>)
  ultimately show ?thesis using inv same [of al_ID] same [of alSlot] keep
    unfolding permits_inv_def cs'_def [symmetric] by simp
qed

lemma ObserveActionCall_inv:
  assumes inv: "actions_inv env (snd s)" and obs: "ObserveActionCall cfg caller req now s = Inr (c, s')"
  shows "actions_inv env (snd s') \<and> actions_grow (snd s) (snd s')"
  using obs
proof (cases rule: ObserveActionCall_cases)
  case (observed r a c0 xs)
  have p: "permits_inv env (action_authorizations (snd s)) (action_call_rows (snd s))" using inv by (simp add: actions_inv_def)
  have c0: "c0 \<in> set (action_call_rows (snd s))" using find_row_SomeD [OF observed(2) [unfolded readActionCall_def]] by simp
  have "inj_on al_ID (set (action_call_rows (snd s)))" using p by (simp add: permits_inv_def distinct_map)
  then have "x = c0" if "x \<in> set (action_call_rows (snd s))" "al_ID x = al_ID c0" for x using that c0 by (meson inj_onD)
  then have "permits_inv env (action_authorizations (snd s)) (update_where (actionCallKey (run_TenantID r) (run_ID r) (al_ID c0)) (\<lambda>_. c) (action_call_rows (snd s)))"
    by (intro observe_calls [where c = c0, OF _ _ _ _ _ p]) (auto simp: observed(5))
  then show ?thesis using inv by (auto simp: observed(6) actions_inv_def intro: actions_grow_frame)
qed (use inv in simp)

section \<open>Receipts\<close>

lemma ReceiptValidate_keys:
  assumes "isOk (ReceiptValidate env receipt s)"
  shows "rt_TenantID receipt = aa_TenantID (sa_Authorization s)" "rt_OperationID receipt = aa_OperationID (sa_Authorization s)"
  using assms by (auto simp: ReceiptValidate_def Let_def ensureE_def split: if_splits)

lemma saveEffect_inv:
  assumes inv: "actions_inv env t" and z: "z \<in> set (action_authorizations t)" "az_Action z = action"
    and save: "saveEffect env action receipt source now t = Inr t'"
  shows "actions_inv env t'" "actions_grow t t'" "tenant_receipt_query_gates t' = tenant_receipt_query_gates t"
    "action_receipt_queries t' = action_receipt_queries t"
proof -
  have ok: "isOk (ReceiptValidate env receipt action)" using save by (auto simp: saveEffect_def split: if_splits)
  have key: "azKey z = (rt_TenantID receipt, rt_OperationID receipt)"
    using inv z ReceiptValidate_keys [OF ok] by (auto simp: actions_inv_def permits_inv_def auth_ok_def Let_def)
  have "t' = t \<or> (\<exists>v. t' = t\<lparr>action_receipt_views := action_receipt_views t @ [v]\<rparr> \<and> rv_Receipt v = receipt \<and> rvKey v = azKey z \<and>
      rvKey v \<notin> rvKey ` set (action_receipt_views t))"
    using save unfolding key by (fastforce simp: saveEffect_def Let_def find_row_None_iff split: if_splits option.splits)
  then have "actions_inv env t' \<and> actions_grow t t' \<and> tenant_receipt_query_gates t' = tenant_receipt_query_gates t \<and> action_receipt_queries t' = action_receipt_queries t"
  proof (elim disjE exE conjE)
    fix v assume v: "t' = t\<lparr>action_receipt_views := action_receipt_views t @ [v]\<rparr>" "rv_Receipt v = receipt" "rvKey v = azKey z"
      "rvKey v \<notin> rvKey ` set (action_receipt_views t)"
    have "view_ok env (action_authorizations t) v" unfolding view_ok_def using z v(2,3) ok by auto
    with inv v show ?thesis by (auto simp: actions_inv_def views_inv_def intro: actions_grow_frame simp del: prod.inject)
  qed (use inv in simp)
  then show "actions_inv env t'" "actions_grow t t'" "tenant_receipt_query_gates t' = tenant_receipt_query_gates t"
    "action_receipt_queries t' = action_receipt_queries t" by simp_all
qed

lemma CompleteAction_inv:
  assumes inv: "actions_inv (ae_business ae) (snd s)" and fin: "CompleteAction cfg ae caller req now0 now clk s = Inr (response, s')"
  shows "actions_inv (ae_business ae) (snd s') \<and> actions_grow (snd s) (snd s')"
  using fin
proof (cases rule: CompleteAction_cases)
  case (1 r a action effect source resources out)
  from readAction_mem [OF 1(2)] obtain z where "z \<in> set (action_authorizations (snd s))" "az_Action z = action" by blast
  from saveEffect_inv [OF inv this 1(7)] show ?thesis by simp
qed

section \<open>Receipt queries\<close>

text \<open>A query is reserved when the gate of its tenant is open.\<close>

lemma reserve_queries:
  assumes inv: "queries_inv gs qs" and gate: "g \<in> set gs" "qg_TenantID g = qr_TenantID q"
    and free: "qg_NextAllowedAt g \<le> qr_ReservedAt q" "\<And>u. qg_QueryUntil g = Some u \<Longrightarrow> u \<le> qr_ReservedAt q"
    and new: "qr_ID q \<notin> qr_ID ` set qs" "qr_Deadline q = qr_ReservedAt q + 10 * Second"
    and f: "f = (\<lambda>g. g\<lparr>qg_QueryID := Some (qr_ID q), qg_QueryUntil := Some (qr_Deadline q), qg_NextAllowedAt := qr_ReservedAt q + Second\<rparr>)"
  shows "queries_inv (update_where (\<lambda>g. qg_TenantID g = qr_TenantID q) f gs) (qs @ [q])"
proof -
  define gs' where "gs' = update_where (\<lambda>g. qg_TenantID g = qr_TenantID q) f gs"
  have inj: "inj_on qg_TenantID (set gs)" using inv by (simp add: queries_inv_def distinct_map)
  have mine: "f g \<in> set gs'" "qg_TenantID (f g) = qr_TenantID q" using gate by (auto simp: gs'_def set_update_where f)
  have at: "spaced p q \<and> gated gs' p" if p: "p \<in> set qs" for p
  proof -
    from inv p obtain h where h: "h \<in> set gs" "qg_TenantID h = qr_TenantID p" "qr_ReservedAt p + Second \<le> qg_NextAllowedAt h"
      "qr_FinishedAt p = None \<Longrightarrow> qr_Deadline p \<le> qg_NextAllowedAt h \<or> (qg_QueryID h = Some (qr_ID p) \<and> qg_QueryUntil h = Some (qr_Deadline p))"
      unfolding queries_inv_def gated_def by blast
    show ?thesis
    proof (cases "qr_TenantID p = qr_TenantID q")
      case True
      with h(1,2) gate have "h = g" by (intro inj_onD [OF inj]) simp_all
      with h free have late: "qr_ReservedAt p + Second \<le> qr_ReservedAt q" "qr_FinishedAt p = None \<Longrightarrow> qr_Deadline p \<le> qr_ReservedAt q"
        by force+
      have "0 < Second" by (simp add: Second_def)
      with late mine True show ?thesis by (auto simp: spaced_def gated_def f intro!: bexI [of _ "f g"])
    next
      case False
      with h have "h \<in> set gs'" by (auto simp: gs'_def set_update_where)
      with h False show ?thesis by (auto simp: spaced_def gated_def)
    qed
  qed
  have "gated gs' q" using mine by (auto simp: gated_def f intro!: bexI [of _ "f g"])
  moreover have "map qg_TenantID gs' = map qg_TenantID gs" unfolding gs'_def by (rule map_update_where) (simp add: f)
  ultimately show ?thesis using inv at new(1) unfolding queries_inv_def gs'_def [symmetric] by (auto simp: sorted_wrt_append)
qed

lemma new_gate:
  assumes "queries_inv gs qs" "qg_TenantID g \<notin> qg_TenantID ` set gs"
  shows "queries_inv (gs @ [g]) qs"
  using assms unfolding queries_inv_def gated_def by auto

lemma ReserveReceiptQuery_inv:
  assumes inv: "actions_inv env (snd s)" and res: "ReserveReceiptQuery cfg tenant i source queryID now s = Inr (permit, s')"
  shows "actions_inv env (snd s') \<and> actions_grow (snd s) (snd s')"
proof -
  define gs where "gs = tenant_receipt_query_gates (snd s)"
  define g0 where "g0 = \<lparr>qg_TenantID = tenant, qg_QueryID = None, qg_QueryUntil = None, qg_NextAllowedAt = epoch\<rparr>"
  define gs1 where "gs1 = (if list_ex (\<lambda>g. qg_TenantID g = tenant) gs then gs else gs @ [g0])"
  define query where "query = (\<lambda>z :: AuthorizationRow. \<lparr>qr_ID = queryID, qr_TenantID = tenant, qr_OperationID = az_OperationID z,
                 qr_SourceRunID = i, qr_Source = source, qr_ReservedAt = now, qr_Deadline = now + 10 * Second, qr_Outcome = None, qr_FinishedAt = None\<rparr>)"
  from res obtain z g where found: "find_row (\<lambda>g. qg_TenantID g = tenant) gs1 = Some g"
    and free: "\<not> (qg_NextAllowedAt g > now \<or> (case qg_QueryUntil g of None \<Rightarrow> False | Some until \<Rightarrow> until > now))"
    and id: "\<not> list_ex (\<lambda>q. qr_ID q = queryID) (action_receipt_queries (snd s))"
    and s'0: "snd s' = (snd s)\<lparr>tenant_receipt_query_gates := update_where (\<lambda>g. qg_TenantID g = tenant)
                 (\<lambda>g. g\<lparr>qg_QueryID := Some queryID, qg_QueryUntil := Some (now + 10 * Second), qg_NextAllowedAt := now + Second\<rparr>) gs1,
               action_receipt_queries := action_receipt_queries (snd s) @ [query z]\<rparr>"
    unfolding ReserveReceiptQuery_def Let_def gs_def [symmetric] g0_def [symmetric] gs1_def [symmetric] query_def
    by (auto simp: if_Inl_eq_Inr bindE_Inr_iff case_option_Inr)
  define q where "q = query z"
  note s' = s'0 [folded q_def]
  have g: "find_row (\<lambda>g. qg_TenantID g = tenant) gs1 = Some g" "qg_NextAllowedAt g \<le> now" "\<And>u. qg_QueryUntil g = Some u \<Longrightarrow> u \<le> now"
    using found free by auto
  have q: "queryID \<notin> qr_ID ` set (action_receipt_queries (snd s))" using id by (auto simp: list_ex_iff)
  have i0: "queries_inv gs (action_receipt_queries (snd s))" using inv by (simp add: actions_inv_def gs_def)
  have i1: "queries_inv gs1 (action_receipt_queries (snd s))"
  proof (cases "list_ex (\<lambda>g. qg_TenantID g = tenant) gs")
    case False
    then have "qg_TenantID g0 \<notin> qg_TenantID ` set gs" by (auto simp: list_ex_iff g0_def)
    from new_gate [OF i0 this] False show ?thesis by (simp add: gs1_def)
  qed (use i0 in \<open>simp add: gs1_def\<close>)
  have qf: "qr_ID q = queryID" "qr_TenantID q = tenant" "qr_ReservedAt q = now" "qr_Deadline q = now + 10 * Second" by (simp_all add: q_def query_def)
  have "queries_inv (update_where (\<lambda>g. qg_TenantID g = qr_TenantID q) (\<lambda>g. g\<lparr>qg_QueryID := Some (qr_ID q), qg_QueryUntil := Some (qr_Deadline q),
      qg_NextAllowedAt := qr_ReservedAt q + Second\<rparr>) gs1) (action_receipt_queries (snd s) @ [q])"
    by (rule reserve_queries [OF i1 _ _ _ _ _ _ refl, of g]) (use find_row_SomeD [OF g(1)] g(2,3) q in \<open>simp_all add: qf\<close>)
  then show ?thesis using inv by (auto simp: actions_inv_def s' qf intro: actions_grow_frame)
qed

text \<open>The end of a query clears the gate only when the gate is still its own.\<close>

lemma finish_queries:
  assumes inv: "queries_inv gs qs"
    and qs': "qs' = update_where (\<lambda>q. qr_TenantID q = tenant \<and> qr_ID q = i) (\<lambda>q. q\<lparr>qr_Outcome := Some outcome, qr_FinishedAt := Some now\<rparr>) qs \<or>
      (qs' = qs \<and> (\<forall>q \<in> set qs. qr_TenantID q = tenant \<and> qr_ID q = i \<longrightarrow> qr_FinishedAt q \<noteq> None))"
  shows "queries_inv (update_where (\<lambda>g. qg_TenantID g = tenant \<and> qg_QueryID g = Some i) (\<lambda>g. g\<lparr>qg_QueryID := None, qg_QueryUntil := None\<rparr>) gs) qs'"
proof -
  define gs' where "gs' = update_where (\<lambda>g. qg_TenantID g = tenant \<and> qg_QueryID g = Some i) (\<lambda>g. g\<lparr>qg_QueryID := None, qg_QueryUntil := None\<rparr>) gs"
  define ended where "ended = (\<lambda>(q :: ReceiptQuery) (p :: ReceiptQuery). qr_TenantID p = qr_TenantID q \<and> qr_ID p = qr_ID q \<and> qr_ReservedAt p = qr_ReservedAt q \<and> qr_Deadline p = qr_Deadline q \<and>
     (qr_FinishedAt p = None \<longrightarrow> qr_FinishedAt q = None))"
  have rel: "list_all2 ended qs qs'" using qs'
  proof (elim disjE conjE)
    assume "qs' = update_where (\<lambda>q. qr_TenantID q = tenant \<and> qr_ID q = i) (\<lambda>q. q\<lparr>qr_Outcome := Some outcome, qr_FinishedAt := Some now\<rparr>) qs"
    then show ?thesis by (simp add: update_where_def list_all2_map2 list_all2_same ended_def)
  qed (simp add: list_all2_same ended_def)
  have fin: "qr_FinishedAt p \<noteq> None" if "p \<in> set qs'" "qr_TenantID p = tenant" "qr_ID p = i" for p
    using qs'
  proof (elim disjE conjE)
    assume eq: "qs' = update_where (\<lambda>q. qr_TenantID q = tenant \<and> qr_ID q = i) (\<lambda>q. q\<lparr>qr_Outcome := Some outcome, qr_FinishedAt := Some now\<rparr>) qs"
    have "\<forall>p \<in> set qs'. qr_TenantID p = tenant \<and> qr_ID p = i \<longrightarrow> qr_FinishedAt p \<noteq> None" unfolding eq by (rule ball_update_where) auto
    with that show ?thesis by blast
  qed (use that in blast)
  have "gated gs' p" if pq: "ended q p" "p \<in> set qs'" "gated gs q" for q p
  proof -
    from pq(3) obtain h where h: "h \<in> set gs" "qg_TenantID h = qr_TenantID q" "qr_ReservedAt q + Second \<le> qg_NextAllowedAt h"
      "qr_FinishedAt q = None \<longrightarrow> qr_Deadline q \<le> qg_NextAllowedAt h \<or> (qg_QueryID h = Some (qr_ID q) \<and> qg_QueryUntil h = Some (qr_Deadline q))"
      unfolding gated_def by (elim bexE conjE)
    define h' where "h' = (if qg_TenantID h = tenant \<and> qg_QueryID h = Some i then h\<lparr>qg_QueryID := None, qg_QueryUntil := None\<rparr> else h)"
    have "h' \<in> set gs'" using h(1) by (auto simp: gs'_def h'_def set_update_where)
    moreover have "qr_FinishedAt p = None \<longrightarrow> qr_Deadline p \<le> qg_NextAllowedAt h' \<or> (qg_QueryID h' = Some (qr_ID p) \<and> qg_QueryUntil h' = Some (qr_Deadline p))"
      using h pq fin [OF pq(2)] by (auto simp: h'_def ended_def)
    moreover have "qg_TenantID h' = qr_TenantID p" "qr_ReservedAt p + Second \<le> qg_NextAllowedAt h'" using h pq(1) by (auto simp: h'_def ended_def)
    ultimately show ?thesis unfolding gated_def by (intro bexI [of _ h'] conjI)
  qed
  then have "\<forall>p \<in> set qs'. gated gs' p" using inv rel unfolding queries_inv_def
    by (metis in_set_conv_nth list_all2_conv_all_nth)
  moreover have "sorted_wrt spaced qs'" using inv rel unfolding queries_inv_def sorted_wrt_iff_nth_less list_all2_conv_all_nth
    by (auto simp: spaced_def ended_def)
  moreover have "map qr_ID qs' = map qr_ID qs" using rel by (auto simp: list_all2_conv_all_nth ended_def list_eq_iff_nth_eq)
  moreover have "map qg_TenantID gs' = map qg_TenantID gs" unfolding gs'_def by (rule map_update_where) simp
  ultimately show ?thesis using inv unfolding queries_inv_def gs'_def [symmetric] by simp
qed

lemma RecordReceiptQuery_inv:
  assumes inv: "actions_inv (ae_business ae) (snd s)" and rec: "RecordReceiptQuery cfg ae tenant queryID action receipt outcome now s = Inr s'"
  shows "actions_inv (ae_business ae) (snd s') \<and> actions_grow (snd s) (snd s')"
proof -
  define env where "env = ae_business ae"
  define key where "key = (\<lambda>q :: ReceiptQuery. qr_TenantID q = tenant \<and> qr_ID q = queryID)"
  from rec obtain q original t1 where q: "find_row key (action_receipt_queries (snd s)) = Some q"
    and orig: "readAction tenant (aa_BusinessRequestID (sa_Authorization action)) (snd s) = Some original"
    and save: "(case receipt of None \<Rightarrow> Inr (snd s) | Some rc \<Rightarrow> saveEffect env original rc (qr_Source q) now (snd s)) = Inr t1"
    and s': "Inr (fst s, finishQuery tenant queryID outcome q now t1) = (Inr s' :: RunError + _)"
    unfolding RecordReceiptQuery_def Let_def if_Inl_eq_Inr case_option_Inr bindE_Inr_iff env_def [symmetric] key_def [symmetric] by (elim conjE exE) (rule that)
  then have s': "snd s' = finishQuery tenant queryID outcome q now t1" by auto
  from readAction_mem [OF orig] obtain z where z: "z \<in> set (action_authorizations (snd s))" "az_Action z = original" by blast
  have t1: "actions_inv env t1" "actions_grow (snd s) t1" "action_receipt_queries t1 = action_receipt_queries (snd s)"
    using save saveEffect_inv [OF inv z] inv unfolding env_def by (auto split: option.splits)
  define qs' where "qs' = (if qr_FinishedAt q = None then update_where key (\<lambda>q. q\<lparr>qr_Outcome := Some outcome, qr_FinishedAt := Some now\<rparr>)
      (action_receipt_queries t1) else action_receipt_queries t1)"
  have "\<forall>p \<in> set (action_receipt_queries t1). qr_TenantID p = tenant \<and> qr_ID p = queryID \<longrightarrow> p = q"
    using t1(1) find_row_SomeD [OF q] unfolding actions_inv_def queries_inv_def t1(3) key_def by (auto simp: distinct_map dest: inj_onD)
  then have "queries_inv (tenant_receipt_query_gates (snd s')) qs'"
    unfolding s' using t1(1) by (auto simp: actions_inv_def qs'_def key_def finishQuery_def intro!: finish_queries)
  moreover have "action_receipt_queries (snd s') = qs'" by (simp add: s' qs'_def finishQuery_def key_def)
  moreover have same: "action_authorizations (snd s') = action_authorizations t1" "action_call_rows (snd s') = action_call_rows t1"
    "action_receipt_views (snd s') = action_receipt_views t1" by (simp_all add: s' finishQuery_def)
  ultimately have "actions_inv env (snd s')" using t1(1) by (simp add: actions_inv_def)
  moreover have "actions_grow t1 (snd s')" by (rule actions_grow_frame) (simp_all add: same)
  ultimately show ?thesis using t1(2) actions_grow_trans unfolding env_def by blast
qed

section \<open>The system of Runs and actions\<close>

text \<open>A step of the Run store, or a step of approvals and actions in the deployment \<open>ae\<close>.\<close>

inductive full_step :: "store_config \<Rightarrow> action_env \<Rightarrow> run_db \<times> action_db \<Rightarrow> run_db \<times> action_db \<Rightarrow> bool"
  for cfg :: store_config and ae :: action_env where
  on_store: "config_ok cfg \<Longrightarrow> store_step cfg (rc :: string read_checks) cc db db' \<Longrightarrow> full_step cfg ae (db, t) (db', t)"
| on_action: "config_ok cfg \<Longrightarrow> action_step cfg (rc :: string read_checks) ae s s' \<Longrightarrow> full_step cfg ae s s'"

inductive_cases full_stepE: "full_step cfg ae s s'"

definition full_inv :: "action_env \<Rightarrow> run_db \<times> action_db \<Rightarrow> bool" where
  "full_inv ae s \<longleftrightarrow> store_inv (fst s) \<and> actions_inv (ae_business ae) (snd s)"

lemma AdmitActionRetry_actions:
  "AdmitActionRetry cfg ae aliasID aliasAgain input expected nowAlias now nowAgain clk s = Inr ((view, reused), s') \<Longrightarrow> snd s' = snd s"
  by (erule AdmitActionRetry_cases) (auto elim!: insertRecovered_effect)

lemma action_step_actions:
  assumes step: "action_step cfg rc ae s s'" and inv: "actions_inv (ae_business ae) (snd s)"
  shows "actions_inv (ae_business ae) (snd s') \<and> actions_grow (snd s) (snd s')"
  using step
proof (cases rule: action_step.cases)
  case (authorize caller lease step operationID now0 now signed)
  then show ?thesis by (rule AuthorizeAction_inv [OF inv])
next
  case (permit caller rreq now0 now call newly)
  then show ?thesis by (rule ReserveActionCall_inv [OF inv])
next
  case (see caller oreq now seen)
  then show ?thesis by (rule ObserveActionCall_inv [OF inv])
next
  case (complete caller creq now0 now clk response)
  then show ?thesis by (rule CompleteAction_inv [OF inv])
next
  case (ask tenant i source queryID now granted)
  then show ?thesis by (rule ReserveReceiptQuery_inv [OF inv])
next
  case (answer tenant queryID action receipt outcome now)
  then show ?thesis by (rule RecordReceiptQuery_inv [OF inv])
next
  case (recover aliasID aliasAgain input expected nowAlias now nowAgain clk view reused)
  from AdmitActionRetry_actions [OF this] inv show ?thesis by simp
qed (use inv in simp)

lemma full_step_run: "full_step cfg ae s s' \<Longrightarrow> any_step cfg (fst s) (fst s')"
proof (erule full_stepE)
  fix rc :: "string read_checks" assume "config_ok cfg" "action_step cfg rc ae s s'"
  then show ?thesis by (metis prod.collapse)
qed (use any_stepI in auto)

lemma full_step_inv:
  assumes "full_step cfg ae s s'" "full_inv ae s"
  shows "full_inv ae s' \<and> actions_grow (snd s) (snd s')"
proof -
  have run: "store_inv (fst s')" using any_step_preserves [OF full_step_run [OF assms(1)]] assms(2) by (simp add: full_inv_def)
  from assms(1) have "actions_inv (ae_business ae) (snd s') \<and> actions_grow (snd s) (snd s')"
  proof (rule full_stepE)
    fix rc :: "string read_checks" assume "action_step cfg rc ae s s'"
    then show ?thesis by (rule action_step_actions) (use assms(2) in \<open>simp add: full_inv_def\<close>)
  qed (use assms(2) in \<open>simp add: full_inv_def\<close>)
  with run show ?thesis by (simp add: full_inv_def)
qed

lemma empty_actions_inv: "actions_inv env empty_actions"
  by (simp add: actions_inv_def permits_inv_def views_inv_def queries_inv_def empty_actions_def)

abbreviation full_start :: "run_db \<times> action_db \<Rightarrow> bool" where
  "full_start \<equiv> (\<lambda>s. s = (empty_store, empty_actions))"

interpretation full_store: inductive_invariant full_start "full_step cfg ae" "full_inv ae"
  by unfold_locales (use full_step_inv in \<open>auto simp: full_inv_def empty_store_inv empty_actions_inv\<close>)

definition reachable_actions :: "store_config \<Rightarrow> action_env \<Rightarrow> run_db \<times> action_db \<Rightarrow> bool" where
  "reachable_actions cfg ae = reachable full_start (full_step cfg ae)"

lemma reachable_actions_inv: "reachable_actions cfg ae s \<Longrightarrow> full_inv ae s"
  unfolding reachable_actions_def by (rule full_store.invariant)

lemma actions_grow_steps:
  assumes "(full_step cfg ae)\<^sup>*\<^sup>* s s'" "full_inv ae s"
  shows "actions_grow (snd s) (snd s')"
  using assms
proof (induction rule: rtranclp_induct)
  case (step y z)
  have "full_inv ae y" using full_store.invariant_steps [OF step.prems step.hyps(1)] .
  with step.hyps(2) full_step_inv have "actions_grow (snd y) (snd z)" by blast
  with step.IH [OF step.prems] show ?case by (rule actions_grow_trans)
qed simp

end
