(* ===== verification/RunApprovals.thy ===== *)
theory RunApprovals
  imports RunActionSystem
begin

text \<open>
  Approvals across the whole system: a decision, once recorded, is never changed or lost, and every
  signed authorization rests on the recorded approval of its own proposal. Every transaction of the
  store leaves the decided approvals as they are; only a submitted proposal adds a row, and only a
  decision changes one that is pending.
\<close>

section \<open>Transactions that do not touch approvals\<close>

text \<open>The approvals and the recorded operations of their decisions.\<close>

abbreviation decisions :: "run_db \<Rightarrow> ApprovalRow list \<times> Operation list" where
  "decisions db \<equiv> (run_approvals db, filter approvalScope (run_operations db))"

lemma lockSlots_approvals: "lockSlots ks cs db = Inr (ss, db') \<Longrightarrow> decisions db' = decisions db"
  by (drule lockSlots_frame) (erule ssubst, simp)

lemma saveSlots_approvals: "saveSlots ss d db = Inr db' \<Longrightarrow> decisions db' = decisions db"
  by (drule saveSlots_frame) (erule ssubst, simp)

lemma recordRun_approvals: "recordRun clk r a kind now db = Inr db' \<Longrightarrow> decisions db' = decisions db"
  by (auto dest!: recordRun_effect)

lemma closeAttemptRecords_approvals:
  assumes "closeAttemptRecords r a res outcome now db = Inr (r1, a1, db')"
  shows "decisions db' = decisions db"
proof -
  from assms obtain ats where "saveSlots (ar_Slots res) (- 1) ((markCalls r res db)\<lparr>run_attempts := ats\<rparr>) = Inr db'"
    by (auto simp: closeAttemptRecords_def Let_def result_simps split: if_splits)
  from saveSlots_approvals [OF this] show ?thesis by (simp add: markCalls_def Let_def split: option.split)
qed

lemma insertOperation_decisions:
  "insertOperation new db = Inr db' \<Longrightarrow> op_Kind new \<in> {''submit'', ''retry'', ''cancel''} \<Longrightarrow> decisions db' = decisions db"
  using insertOperation_frame [of new db db'] insertOperation_scope [of new db db'] by auto

lemma resolve_approvals:
  "resolveAdmission aliasID tenant key sourceID hash businessKey now db = Inr (found, db') \<Longrightarrow> decisions db' = decisions db"
  by (frule resolveAdmission_scope) (drule resolveAdmission_frame, auto)

lemma cancel_approvals:
  assumes "StoreCancelRun cfg newID tenant i key now clk db = Inr (cancelled, db')"
  shows "decisions db' = decisions db"
  using assms unfolding StoreCancelRun_def Let_def
  by (auto simp: result_simps dest!: insertOperation_decisions recordRun_approvals split: if_splits option.splits)

lemma closeRun_approvals: "closeRun clk r a res reason now db = Inr (outcome, db') \<Longrightarrow> decisions db' = decisions db"
  by (auto simp: closeRun_def result_simps dest!: closeAttemptRecords_approvals recordRun_approvals)

lemma claim_approvals:
  assumes "StoreClaimRun cfg locked guard loadCheckpoint caller sid now1 now2 now3 clk db = Inr (res, db')"
  shows "decisions db' = decisions db"
  using assms
proof (cases rule: StoreClaimRun_cases)
  case (granted worker r a ss db1 lease r1 a1 checkpoint)
  from granted(4) obtain ats db2 where "saveSlots ss 1 (db1\<lparr>run_attempts := ats\<rparr>) = Inr db2" "recordRun clk r1 a1 ''claimed'' now3 db2 = Inr db'"
    by (auto simp: grantLease_def result_simps split: if_splits)
  then show ?thesis using lockSlots_approvals [OF granted(3)] saveSlots_approvals recordRun_approvals by fastforce
next
  case (expired worker r a ss db1 now)
  from expired(4) obtain r1 where "recordRun clk r1 a ''deadline_exceeded'' now db1 = Inr db'" by (auto simp: expireAtClaim_def result_simps)
  then show ?thesis using lockSlots_approvals [OF expired(3)] recordRun_approvals by fastforce
qed (auto dest: lockSlots_approvals)

lemma lifecycle_approvals:
  assumes "lifecycle_step cfg rc db db'"
  shows "decisions db' = decisions db"
  using assms
proof (cases rule: lifecycle_step.cases)
  case (claim locked caller sid now1 now2 now3 clk granted)
  then show ?thesis by (rule claim_approvals)
next
  case (cancel newID tenant i key now clk cancelled)
  then show ?thesis by (rule cancel_approvals)
qed (auto elim!: Register_cases HeartbeatSession_frame HeartbeatExecution_cases heartbeatRun_cases FailExecution_cases AcknowledgeStop_cases
      sweepRun_cases simp: renewSession_def saveRun_eq dest: recordRun_approvals closeRun_approvals split: if_splits)

lemma saveAccount_approvals [simp]: "run_approvals (saveAccount b db) = run_approvals db" "run_operations (saveAccount b db) = run_operations db"
  by (simp_all add: saveAccount_def)

lemma saveLedgerAccounts_approvals [simp]:
  "run_approvals (saveLedgerAccounts accs db) = run_approvals db" "run_operations (saveLedgerAccounts accs db) = run_operations db"
  by (induction accs arbitrary: db) (simp_all add: saveLedgerAccounts_def)

lemma updateCall_approvals [simp]: "run_approvals (updateCall call f db) = run_approvals db" "run_operations (updateCall call f db) = run_operations db"
  by (simp_all add: updateCall_def)

lemma settleLedgerUsage_approvals:
  "settleLedgerUsage cfg call budget profile accs usage now db = Inr (settled, call', db') \<Longrightarrow> decisions db' = decisions db"
  by (erule settleLedgerUsage_cases) simp_all

lemma settleReported_approvals:
  assumes "settleReported cfg call budget profile accs req now db = Inr ((settled, conflict), call', db')"
  shows "decisions db' = decisions db"
proof (cases "AuditEnabled profile")
  case True
  with assms have "settleCallReport cfg call budget profile accs req now db = Inr ((settled, conflict), call', db')"
    by (simp add: settleReported_def)
  then show ?thesis by (cases rule: settleCallReport_cases) simp_all
next
  case False
  with assms show ?thesis by (auto simp: settleReported_def result_simps dest: settleLedgerUsage_approvals split: if_splits)
qed

lemma ledger_approvals:
  "BeginTool cfg rc caller breq now now2 db = Inr (started, db') \<Longrightarrow> decisions db' = decisions db"
  "ReserveCall cfg rc caller rreq now now2 db = Inr ((c, newly), db') \<Longrightarrow> decisions db' = decisions db"
  "ObserveCall cfg caller oreq now db = Inr (c, db') \<Longrightarrow> decisions db' = decisions db"
  "SettleUsage cfg caller sreq now db = Inr (res, db') \<Longrightarrow> decisions db' = decisions db"
  by (auto elim!: BeginTool_cases ReserveCall_cases grantCall_cases ObserveCall_cases SettleUsage_cases
      dest: settleLedgerUsage_approvals settleReported_approvals simp: saveRun_eq)

lemma acceptRun_approvals:
  assumes "acceptRun cfg input business now clk db = Inr (view, db')"
  shows "decisions db' = decisions db"
  using assms unfolding acceptRun_def
  by (auto simp: result_simps newOperation_def admissionKind_def dest!: insertRun_effect(3) insertOperation_decisions recordRun_approvals split: if_splits)

lemma Admit_approvals:
  assumes "Admit cfg ck aliasID input nowAlias now0 now clk db = Inr ((r, reused), db')"
  shows "decisions db' = decisions db"
proof -
  have new: "decisions d' = decisions d" if "admitNew cfg ck input now0 now clk d = Inr (view, d')" for view d d'
    using that
    by (elim admitNew_cases submitBusiness_effect) (auto dest!: acceptRun_approvals simp: stampBusiness_def)
  from assms show ?thesis by (cases rule: Admit_cases) (auto dest!: new resolveAdmission_scope)
qed

lemma EnsureProfiles_approvals: "decisions (snd (EnsureProfiles validate ps db)) = decisions db"
proof (induction ps arbitrary: db)
  case (Cons p ps)
  show ?case using Cons.IH [of db] Cons.IH [of "db\<lparr>agent_profiles := agent_profiles db @ [storedProfile p]\<rparr>"]
    by (auto simp: Let_def split: sum.split option.split)
qed simp

lemma setup_approvals:
  assumes "setup_step cfg db db'"
  shows "decisions db' = decisions db"
  using assms
proof (cases rule: setup_step.cases)
  case (bind pgUUID tenant batch account)
  then show ?thesis using arg_cong [OF BindBudgetTenant_frame [OF bind], of decisions] by simp
next
  case (profiles validate ps failure)
  then show ?thesis using EnsureProfiles_approvals [of validate ps db] by simp
qed (auto simp: CreateBudget_def Let_def elim!: insertBudget_effect dest!: Admit_approvals resolve_approvals split: if_splits option.splits)

section \<open>Decisions are final\<close>

abbreviation avKey :: "ApprovalRow \<Rightarrow> string \<times> string" where
  "avKey v \<equiv> (av_tenant v, av_run v)"

text \<open>Decided rows stay, a Run that has a row keeps one, and a Run never gets a second row.\<close>

definition approvals_kept :: "run_db \<Rightarrow> run_db \<Rightarrow> bool" where
  "approvals_kept db db' \<longleftrightarrow> (\<forall>v \<in> set (run_approvals db). av_Status v \<noteq> ''pending'' \<longrightarrow> v \<in> set (run_approvals db')) \<and>
     avKey ` set (run_approvals db) \<subseteq> avKey ` set (run_approvals db') \<and>
     (distinct (map avKey (run_approvals db)) \<longrightarrow> distinct (map avKey (run_approvals db')))"

lemma approvals_kept_same: "run_approvals db' = run_approvals db \<Longrightarrow> approvals_kept db db'"
  by (simp add: approvals_kept_def)

lemma approvals_kept_trans:
  assumes "approvals_kept db db1" "approvals_kept db1 db2"
  shows "approvals_kept db db2"
proof -
  have "avKey ` set (run_approvals db) \<subseteq> avKey ` set (run_approvals db2)" using assms unfolding approvals_kept_def by (meson subset_trans)
  with assms show ?thesis by (simp add: approvals_kept_def)
qed

text \<open>A submitted proposal adds a pending row.\<close>

lemma saveProposalResult_approvals:
  assumes "saveProposalResult cfg r decision ref now db = Inr db'"
  shows "approvals_kept db db'"
  using assms unfolding saveProposalResult_def
  by (auto simp: approvals_kept_def setResult_def newApproval_def Let_def list_ex_iff split: if_splits) blast

lemma applyStep_approvals:
  assumes "applyStep cfg req decision resources nextID now clk r a db = Inr (response, db')"
  shows "approvals_kept db db'"
proof -
  from assms obtain r1 a1 db1 r2 a2 db2 a3 db3 where ins: "insertStep req r1 (cd_CanonicalJSON decision) now db = Inr db1"
    and cl: "closeCommit cfg decision resources (StepReference (run_ID r1) (st_Sequence (cm_Step req))) now r1 a1 db1 = Inr (r2, a2, db2)"
    and ev: "appendEvent r2 a2 ''step_committed'' now db2 = Inr (a3, db3)" and db': "db' = saveRun clk r2 a3 db3"
    unfolding applyStep_def Let_def by (auto simp: result_simps)
  have last: "run_approvals db' = run_approvals db2" using appendEvent_effect [OF ev] db' by (auto simp: saveRun_eq)
  have "db2 = db1 \<or> (\<exists>d. approvals_kept db1 d \<and> run_approvals db2 = run_approvals d)" using cl
    by (auto simp: closeCommit_def result_simps dest!: closeAttemptRecords_approvals saveProposalResult_approvals split: if_splits option.splits)
  with last insertStep_effect(1) [OF ins] show ?thesis by (auto simp: approvals_kept_def)
qed

lemma commitStep_approvals: "commitStep cfg cc caller req proposal nextID now0 now clk db = Inr (response, db') \<Longrightarrow> approvals_kept db db'"
  by (elim commitStep_cases) (auto intro: approvals_kept_same dest!: applyStep_approvals)

lemma store_step_approvals: "store_step cfg rc cc db db' \<Longrightarrow> approvals_kept db db'"
  by (elim store_step.cases ledger_step.cases)
    (auto intro: approvals_kept_same commitStep_approvals dest: ledger_approvals setup_approvals lifecycle_approvals)

text \<open>A decision changes the pending row only.\<close>

lemma decidePending_approvals:
  assumes "decidePending cfg ae actor request nextID approvalID now clk view commit r a db = Inr (r1, db')"
  shows "approvals_kept db db'"
proof -
  from assms obtain a1 db1 where "DecideApproval (cfg_sha cfg) r a request commit (ApprovalHash (cfg_sha cfg) request (run_TenantID r) (run_ID r) actor) nextID now = Inr (r1, a1)"
    and rd: "recordDecision r (wantedStatus (aq_Decision request)) approvalID actor now db = Inr db1"
    and rec: "recordRun clk r1 a1 (''approval_'' @ wantedStatus (aq_Decision request)) now
      (if aq_Decision request = ''reject'' then setResult r (''final'', ''approval:'' @ approvalID) db1 else db1) = Inr db'"
    unfolding decidePending_def Let_def by (auto simp: result_simps split: if_splits)
  define pending where "pending = (\<lambda>v :: ApprovalRow. av_tenant v = run_TenantID r \<and> av_run v = run_ID r \<and> av_Status v = ''pending'')"
  obtain f where db1: "run_approvals db1 = update_where pending f (run_approvals db)" "\<And>v. avKey (f v) = avKey v"
    using rd that unfolding recordDecision_def Let_def pending_def [symmetric] by (auto split: if_splits)
  then have "map avKey (run_approvals db1) = map avKey (run_approvals db)" by (simp add: map_update_where)
  then have "avKey ` set (run_approvals db1) = avKey ` set (run_approvals db)" by (metis list.set_map)
  then have "approvals_kept db db1" using \<open>map avKey (run_approvals db1) = map avKey (run_approvals db)\<close>
    unfolding approvals_kept_def by (simp add: db1(1) set_update_where pending_def)
  moreover have "run_approvals db' = run_approvals db1" using recordRun_approvals [OF rec] by (simp add: setResult_def Let_def split: if_splits)
  ultimately show ?thesis by (simp add: approvals_kept_def)
qed

lemma StoreDecideApproval_approvals:
  "StoreDecideApproval cfg ae tenant i actor key request nextID approvalID opID now0 now clk db = Inr (answer, db') \<Longrightarrow> approvals_kept db db'"
  by (erule StoreDecideApproval_cases) (simp add: approvals_kept_def, drule decidePending_approvals, simp add: approvals_kept_def)

lemma CompleteAction_approvals:
  assumes "CompleteAction cfg ae caller req now0 now clk s = Inr (response, s')"
  shows "decisions (fst s') = decisions (fst s)"
  using assms
proof (cases rule: CompleteAction_cases)
  case (1 r a action effect source resources out)
  from 1(9) obtain rs a1 r2 a2 db2 where cl: "closeAttemptRecords (completedRun r now) a1 resources ''succeeded'' now ((fst s)\<lparr>run_steps := run_steps (fst s) @
       [newStep (actionStep cfg req out) (completedRun r now) out now], run_results := rs\<rparr>) = Inr (r2, a2, db2)"
    and rec: "recordRun clk r2 a2 ''action_completed'' now db2 = Inr (fst s')" by (rule finishAction_effect)
  from closeAttemptRecords_approvals [OF cl] recordRun_approvals [OF rec] show ?thesis by simp
qed

lemma AdmitActionRetry_approvals:
  "AdmitActionRetry cfg ae aliasID aliasAgain input expected nowAlias now nowAgain clk s = Inr ((view, reused), s') \<Longrightarrow>
     decisions (fst s') = decisions (fst s)"
  by (erule AdmitActionRetry_cases) (auto elim!: insertRecovered_effect)

lemma action_step_approvals:
  assumes "action_step cfg rc ae s s'"
  shows "approvals_kept (fst s) (fst s')"
  using assms
proof (cases rule: action_step.cases)
  case (decide tenant i actor key request nextID approvalID opID now0 now clk db answer db' t)
  from StoreDecideApproval_approvals [OF decide(3)] decide(1,2) show ?thesis by simp
qed (auto intro!: approvals_kept_same dest: AuthorizeAction_run ReserveActionCall_run ObserveActionCall_run CompleteAction_approvals
      ReserveReceiptQuery_run RecordReceiptQuery_run AdmitActionRetry_approvals)

lemma full_step_approvals: "full_step cfg ae s s' \<Longrightarrow> approvals_kept (fst s) (fst s')"
  by (erule full_stepE) (auto dest: store_step_approvals action_step_approvals)

text \<open>The view of an approval shows the row of the Run.\<close>

lemma approvalView_row:
  assumes "approvalView cfg ae r now db = Inr (view, commit)"
  obtains v where "v \<in> set (run_approvals db)" "av_tenant v = run_TenantID r" "av_run v = run_ID r" "av_Status v = vw_Status view"
    "av_ProposalHash v = vw_ProposalHash view" "av_ApprovalID v = vw_ApprovalID view" "av_ActorID v = vw_ActorID view" "av_DecidedAt v = vw_DecidedAt view"
  using assms unfolding approvalView_def
  by (auto simp: if_Inl_eq_Inr case_option_Inr dest!: find_row_SomeD)

section \<open>The recorded decisions\<close>

text \<open>The decision that a decided row records, and the text whose hash its operations carry.\<close>

definition decisionOn :: "ApprovalRow \<Rightarrow> ApprovalRequest" where
  "decisionOn v = \<lparr>aq_SchemaVersion = 1, aq_Decision = (if av_Status v = ''approved'' then ''approve'' else ''reject''), aq_ProposalHash = av_ProposalHash v\<rparr>"

definition records :: "(string \<Rightarrow> string) \<Rightarrow> ApprovalRow \<Rightarrow> Operation \<Rightarrow> bool" where
  "records sha v x \<longleftrightarrow> av_Status v \<in> {''approved'', ''rejected''} \<and> av_tenant v = op_TenantID x \<and> op_Scope x = ''approval:'' @ av_run v \<and>
     ValidHash (av_ProposalHash v) \<and>
     (\<exists>actor. av_ActorID v = Some actor \<and> ValidIdentifier actor \<and> op_RequestHash x = ApprovalHash sha (decisionOn v) (av_tenant v) (av_run v) actor)"

definition recorded_inv :: "(string \<Rightarrow> string) \<Rightarrow> run_db \<Rightarrow> bool" where
  "recorded_inv sha db \<longleftrightarrow> (\<forall>x \<in> set (run_operations db). approvalScope x \<longrightarrow> (\<exists>v \<in> set (run_approvals db). records sha v x))"

lemma recorded_kept:
  assumes inv: "recorded_inv sha db" and kept: "approvals_kept db db'"
    and ops: "\<And>x. x \<in> set (run_operations db') \<Longrightarrow> approvalScope x \<Longrightarrow> x \<in> set (run_operations db) \<or> (\<exists>v \<in> set (run_approvals db'). records sha v x)"
  shows "recorded_inv sha db'"
proof -
  have "\<exists>v \<in> set (run_approvals db'). records sha v x" if "x \<in> set (run_operations db)" "approvalScope x" for x
  proof -
    from inv that obtain v where v: "v \<in> set (run_approvals db)" "records sha v x" unfolding recorded_inv_def by blast
    then have "av_Status v \<noteq> ''pending''" by (auto simp: records_def)
    with v kept show ?thesis unfolding approvals_kept_def by blast
  qed
  with ops show ?thesis unfolding recorded_inv_def by blast
qed

lemma recorded_same:
  assumes "recorded_inv sha db" "approvals_kept db db'" "filter approvalScope (run_operations db') = filter approvalScope (run_operations db)"
  shows "recorded_inv sha db'"
proof (rule recorded_kept [OF assms(1,2)])
  fix x assume "x \<in> set (run_operations db')" "approvalScope x"
  then have "x \<in> set (filter approvalScope (run_operations db'))" by simp
  then have "x \<in> set (filter approvalScope (run_operations db))" unfolding assms(3) .
  then show "x \<in> set (run_operations db) \<or> (\<exists>v \<in> set (run_approvals db'). records sha v x)" by simp
qed

lemma closeCommit_operations:
  assumes "closeCommit cfg decision resources ref now r a db = Inr (r2, a2, db')"
  shows "run_operations db' = run_operations db \<or> filter approvalScope (run_operations db') = filter approvalScope (run_operations db)"
proof (cases "cd_CloseAttempt decision")
  case True
  with assms obtain db1 where save: "saveProposalResult cfg r decision ref now db = Inr db1"
    and "\<exists>res outcome. closeAttemptRecords r a res outcome now db1 = Inr (r2, a2, db')"
    by (auto simp: closeCommit_def result_simps split: option.splits)
  then have "filter approvalScope (run_operations db') = filter approvalScope (run_operations db1)" by (auto dest: closeAttemptRecords_approvals)
  moreover have "run_operations db1 = run_operations db" using save
    by (auto simp: saveProposalResult_def setResult_def Let_def split: if_splits)
  ultimately show ?thesis by simp
qed (use assms in \<open>simp add: closeCommit_def\<close>)

lemma commitStep_operations:
  assumes "commitStep cfg cc caller req proposal nextID now0 now clk db = Inr (response, db')"
  shows "filter approvalScope (run_operations db') = filter approvalScope (run_operations db)"
proof -
  have app: "filter approvalScope (run_operations d') = filter approvalScope (run_operations d)"
    if "applyStep cfg req decision resources nextID now clk r a d = Inr (rs, d')" for decision resources r a d rs d'
  proof -
    from that obtain r1 a1 db1 r2 a2 db2 a3 db3 where ins: "insertStep req r1 (cd_CanonicalJSON decision) now d = Inr db1"
      and cl: "closeCommit cfg decision resources (StepReference (run_ID r1) (st_Sequence (cm_Step req))) now r1 a1 db1 = Inr (r2, a2, db2)"
      and ev: "appendEvent r2 a2 ''step_committed'' now db2 = Inr (a3, db3)" and db': "d' = saveRun clk r2 a3 db3"
      unfolding applyStep_def Let_def by (auto simp: result_simps)
    have "run_operations d' = run_operations db2" "run_operations db1 = run_operations d"
      using appendEvent_effect [OF ev] db' insertStep_effect(1) [OF ins] by (auto simp: saveRun_eq)
    then show ?thesis using closeCommit_operations [OF cl] by auto
  qed
  from assms show ?thesis by (cases rule: commitStep_cases) (auto dest: app)
qed

lemma decisions_operations: "decisions db' = decisions db \<Longrightarrow> filter approvalScope (run_operations db') = filter approvalScope (run_operations db)"
  by simp

lemma ledger_step_operations:
  assumes "ledger_step cfg rc cc db db'"
  shows "filter approvalScope (run_operations db') = filter approvalScope (run_operations db)"
  using assms
proof (cases rule: ledger_step.cases)
  case (commit caller creq requireProposal nextID now0 now clk response)
  then show ?thesis by (rule commitStep_operations)
qed (rule decisions_operations, erule ledger_approvals)+

lemma store_step_operations:
  assumes "store_step cfg rc cc db db'"
  shows "filter approvalScope (run_operations db') = filter approvalScope (run_operations db)"
  using assms
proof (cases rule: store_step.cases)
  case on_setup
  from setup_approvals [OF this] show ?thesis by (rule decisions_operations)
next
  case on_lifecycle
  from lifecycle_approvals [OF this] show ?thesis by (rule decisions_operations)
next
  case on_ledger
  then show ?thesis by (rule ledger_step_operations)
qed

text \<open>A decision writes the pending row of the Run, and its operation carries the hash of what the row records.\<close>

lemma decidePending_row:
  assumes dec: "decidePending cfg ae actor request nextID approvalID now clk view commit r a db = Inr (r1, db')"
    and v: "v \<in> set (run_approvals db)" "av_tenant v = run_TenantID r" "av_run v = run_ID r" "av_Status v = ''pending''"
  shows "v\<lparr>av_Status := wantedStatus (aq_Decision request), av_ApprovalID := Some approvalID, av_ActorID := Some actor, av_DecidedAt := Some now\<rparr>
      \<in> set (run_approvals db')" "run_operations db' = run_operations db"
proof -
  from dec obtain a1 db1 where "DecideApproval (cfg_sha cfg) r a request commit (ApprovalHash (cfg_sha cfg) request (run_TenantID r) (run_ID r) actor) nextID now = Inr (r1, a1)"
    and rd: "recordDecision r (wantedStatus (aq_Decision request)) approvalID actor now db = Inr db1"
    and rec: "recordRun clk r1 a1 (''approval_'' @ wantedStatus (aq_Decision request)) now
      (if aq_Decision request = ''reject'' then setResult r (''final'', ''approval:'' @ approvalID) db1 else db1) = Inr db'"
    unfolding decidePending_def Let_def by (auto simp: result_simps split: if_splits)
  from recordRun_effect [OF rec] obtain n evs row where
    "run_approvals db' = run_approvals db1" "run_operations db' = run_operations db1" by (auto simp: setResult_def Let_def)
  moreover from rd have "run_approvals db1 = update_where (\<lambda>v. av_tenant v = run_TenantID r \<and> av_run v = run_ID r \<and> av_Status v = ''pending'')
        (\<lambda>v. v\<lparr>av_Status := wantedStatus (aq_Decision request), av_ApprovalID := Some approvalID, av_ActorID := Some actor, av_DecidedAt := Some now\<rparr>) (run_approvals db)"
      "run_operations db1 = run_operations db"
    by (auto simp: recordDecision_def Let_def split: if_splits)
  ultimately show "v\<lparr>av_Status := wantedStatus (aq_Decision request), av_ApprovalID := Some approvalID, av_ActorID := Some actor, av_DecidedAt := Some now\<rparr>
      \<in> set (run_approvals db')" "run_operations db' = run_operations db"
    using v by (auto simp: set_update_where)
qed

lemma insertOperation_new:
  assumes "insertOperation new db = Inr db'" "x \<in> set (run_operations db')"
  shows "x \<in> set (run_operations db) \<or> x = new\<lparr>op_Scope := operationScope (op_Kind new) (op_SourceRunID new)\<rparr>"
  using assms unfolding insertOperation_def by (auto simp: result_simps split: if_splits option.splits)

lemma StoreDecideApproval_records:
  assumes "StoreDecideApproval cfg ae tenant i actor key request nextID approvalID opID now0 now clk db = Inr (answer, db')"
  obtains (replay) "db' = db"
    | (same) r a view commit opID' now' where "lockRun tenant i db = Inr (r, a)" "approvalView cfg ae r now0 db = Inr (view, commit)"
      "ValidIdentifier actor" "ApprovalValidate request = Inr ()" "aq_ProposalHash request = vw_ProposalHash view"
      "vw_Status view = wantedStatus (aq_Decision request)" "vw_ActorID view = Some actor"
      "insertOperation (approvalOperation opID' tenant i key (ApprovalHash (cfg_sha cfg) request tenant i actor) now') db = Inr db'"
    | (first) r a view commit r1 db1 opID' now' where "lockRun tenant i db = Inr (r, a)" "approvalView cfg ae r now0 db = Inr (view, commit)"
      "ValidIdentifier actor" "ApprovalValidate request = Inr ()" "aq_ProposalHash request = vw_ProposalHash view" "vw_Status view = ''pending''"
      "decidePending cfg ae actor request nextID approvalID now clk view commit r a db = Inr (r1, db1)"
      "insertOperation (approvalOperation opID' tenant i key (ApprovalHash (cfg_sha cfg) request tenant i actor) now') db1 = Inr db'"
proof -
  from assms obtain r a view commit reused seen r1 where lock: "lockRun tenant i db = Inr (r, a)" "approvalView cfg ae r now0 db = Inr (view, commit)"
    and valid: "ValidIdentifier actor" "isOk (ApprovalValidate request)"
    and mid: "(if findOperation tenant ''approval'' i key db \<noteq> None then Inr (True, now0, r, db)
         else if aq_ProposalHash request \<noteq> vw_ProposalHash view then Inl ErrApprovalConflict
         else if vw_Status view \<noteq> ''pending'' then
           (if vw_Status view \<noteq> wantedStatus (aq_Decision request) \<or> vw_ActorID view \<noteq> Some actor then Inl ErrApprovalConflict
            else bindE (insertOperation (approvalOperation opID tenant i key (ApprovalHash (cfg_sha cfg) request tenant i actor) now0) db) (\<lambda>db1. Inr (True, now0, r, db1)))
         else bindE (decidePending cfg ae actor request nextID approvalID now clk view commit r a db) (\<lambda>(r1, db1).
           bindE (insertOperation (approvalOperation approvalID tenant i key (ApprovalHash (cfg_sha cfg) request tenant i actor) now) db1)
             (\<lambda>db2. Inr (False, now, r1, db2)))) = Inr (reused, seen, r1, db')"
    unfolding StoreDecideApproval_def Let_def if_Inl_eq_Inr by (auto simp: if_Inl_eq_Inr bindE_Inr_iff)
  have ok: "ApprovalValidate request = Inr ()" using valid(2) by (cases "ApprovalValidate request") simp_all
  show thesis
  proof (cases "findOperation tenant ''approval'' i key db \<noteq> None")
    case True
    with mid show thesis by (intro replay) simp
  next
    case new: False
    then have hash: "aq_ProposalHash request = vw_ProposalHash view" using mid by (simp split: if_splits)
    show thesis
    proof (cases "vw_Status view = ''pending''")
      case True
      with new mid obtain db1 where "decidePending cfg ae actor request nextID approvalID now clk view commit r a db = Inr (r1, db1)"
        "insertOperation (approvalOperation approvalID tenant i key (ApprovalHash (cfg_sha cfg) request tenant i actor) now) db1 = Inr db'"
        by (auto simp: result_simps split: if_splits)
      then show thesis by (rule first [OF lock valid(1) ok hash True])
    next
      case False
      with new mid have "insertOperation (approvalOperation opID tenant i key (ApprovalHash (cfg_sha cfg) request tenant i actor) now0) db = Inr db'"
        "vw_Status view = wantedStatus (aq_Decision request)" "vw_ActorID view = Some actor"
        by (auto simp: result_simps split: if_splits)
      then show thesis by (intro same [OF lock valid(1) ok hash])
    qed
  qed
qed

lemma StoreDecideApproval_valid:
  assumes "StoreDecideApproval cfg ae tenant i actor key request nextID approvalID opID now0 now clk db = Inr (answer, db')"
  shows "ValidIdentifier actor \<and> ApprovalValidate request = Inr () \<and>
     (\<forall>x. findOperation tenant ''approval'' i key db = Some x \<longrightarrow> op_RequestHash x = ApprovalHash (cfg_sha cfg) request tenant i actor)"
  using assms unfolding StoreDecideApproval_def Let_def if_Inl_eq_Inr
  by (cases "ApprovalValidate request") (auto simp: if_Inl_eq_Inr bindE_Inr_iff)

lemma StoreDecideApproval_unused:
  assumes "StoreDecideApproval cfg ae tenant i actor key request nextID approvalID opID now0 now clk db = Inr (answer, db')"
    and "findOperation tenant ''approval'' i key db = None"
  shows "\<exists>r a view commit. lockRun tenant i db = Inr (r, a) \<and> approvalView cfg ae r now0 db = Inr (view, commit) \<and>
     (vw_Status view = ''pending'' \<or> (vw_Status view = wantedStatus (aq_Decision request) \<and> vw_ActorID view = Some actor))"
  using assms unfolding StoreDecideApproval_def Let_def
  by (auto simp: if_Inl_eq_Inr bindE_Inr_iff split: if_splits)

lemma records_decision:
  assumes "av_tenant v = tenant" "av_run v = i" "av_Status v = wantedStatus (aq_Decision request)" "av_ActorID v = Some actor"
    "av_ProposalHash v = aq_ProposalHash request" "ValidIdentifier actor" "ApprovalValidate request = Inr ()"
  shows "records sha v ((approvalOperation opID tenant i key (ApprovalHash sha request tenant i actor) now)\<lparr>op_Scope := operationScope ''approval'' i\<rparr>)"
  using assms
  by (auto simp: records_def approvalOperation_def operationScope_def decisionOn_def ApprovalHash_def ApprovalValidate_def wantedStatus_def split: if_splits)

lemma decide_recorded:
  assumes inv: "recorded_inv (cfg_sha cfg) db"
    and dec: "StoreDecideApproval cfg ae tenant i actor key request nextID approvalID opID now0 now clk db = Inr (answer, db')"
  shows "recorded_inv (cfg_sha cfg) db'"
proof -
  note kept = StoreDecideApproval_approvals [OF dec]
  from dec show ?thesis
  proof (cases rule: StoreDecideApproval_records)
    case (same r a view commit opID' now')
    from same(2) obtain v where v: "v \<in> set (run_approvals db)" "av_tenant v = run_TenantID r" "av_run v = run_ID r" "av_Status v = vw_Status view"
      "av_ProposalHash v = vw_ProposalHash view" "av_ActorID v = vw_ActorID view" by (rule approvalView_row)
    have "v \<in> set (run_approvals db')" using v(1) insertOperation_frame [OF same(8)] by auto
    moreover have "records (cfg_sha cfg) v ((approvalOperation opID' tenant i key (ApprovalHash (cfg_sha cfg) request tenant i actor) now')\<lparr>op_Scope := operationScope ''approval'' i\<rparr>)"
      by (rule records_decision) (use v same lockRun_mem [OF same(1)] in \<open>simp_all add: rkey_def\<close>)
    ultimately show ?thesis using insertOperation_new [OF same(8)]
      by (intro recorded_kept [OF inv kept]) (auto simp: approvalOperation_def)
  next
    case (first r a view commit r1 db1 opID' now')
    from first(2) obtain v where v: "v \<in> set (run_approvals db)" "av_tenant v = run_TenantID r" "av_run v = run_ID r" "av_Status v = vw_Status view"
      "av_ProposalHash v = vw_ProposalHash view" by (rule approvalView_row)
    have pending: "av_Status v = ''pending''" using v(4) first(6) by simp
    define w where "w = v\<lparr>av_Status := wantedStatus (aq_Decision request), av_ApprovalID := Some approvalID, av_ActorID := Some actor, av_DecidedAt := Some now\<rparr>"
    note row = decidePending_row [OF first(7) v(1-3) pending]
    have "w \<in> set (run_approvals db')" using row(1) insertOperation_frame [OF first(8)] by (auto simp: w_def)
    moreover have "records (cfg_sha cfg) w ((approvalOperation opID' tenant i key (ApprovalHash (cfg_sha cfg) request tenant i actor) now')\<lparr>op_Scope := operationScope ''approval'' i\<rparr>)"
      by (rule records_decision) (use v first lockRun_mem [OF first(1)] in \<open>simp_all add: rkey_def w_def\<close>)
    ultimately show ?thesis using insertOperation_new [OF first(8)] row(2)
      by (intro recorded_kept [OF inv kept]) (auto simp: approvalOperation_def)
  qed (use inv in simp)
qed

lemma action_step_recorded:
  assumes "action_step cfg rc ae s s'" and inv: "recorded_inv (cfg_sha cfg) (fst s)"
  shows "recorded_inv (cfg_sha cfg) (fst s')"
  using assms(1)
proof (cases rule: action_step.cases)
  case (decide tenant i actor key request nextID approvalID opID now0 now clk db answer db' t)
  with decide_recorded [OF _ decide(3)] inv show ?thesis by simp
qed (use action_step_approvals [OF assms(1)] in \<open>auto intro!: recorded_same [OF inv] dest: AuthorizeAction_run ReserveActionCall_run ObserveActionCall_run
      CompleteAction_approvals ReserveReceiptQuery_run RecordReceiptQuery_run AdmitActionRetry_approvals\<close>)

lemma full_step_recorded:
  assumes "full_step cfg ae s s'" "recorded_inv (cfg_sha cfg) (fst s)"
  shows "recorded_inv (cfg_sha cfg) (fst s')"
  using assms(1)
proof (rule full_stepE)
  fix rc :: "string read_checks" and cc db db' t assume "s = (db, t)" "s' = (db', t)" "store_step cfg rc cc db db'"
  then show ?thesis using recorded_same [OF assms(2), of db'] store_step_approvals [of cfg rc cc db db'] store_step_operations [of cfg rc cc db db'] by simp
qed (rule action_step_recorded [OF _ assms(2)])

interpretation decided_store: inductive_invariant full_start "full_step cfg ae" "\<lambda>s. recorded_inv (cfg_sha cfg) (fst s)"
  by unfold_locales (use full_step_recorded in \<open>auto simp: recorded_inv_def empty_store_def\<close>)

text \<open>
  Fingerprints of two decisions on the same Run: when the hashed texts agree, so do the decision, the
  person and the proposal, because every field is hashed with its length.
\<close>

definition decision_text :: "ApprovalRequest \<Rightarrow> string \<Rightarrow> string \<Rightarrow> string \<Rightarrow> string" where
  "decision_text q tenant i actor =
     fingerprint_preimage [''jobforge.run.approval.v1'', ''1'', tenant, i, actor, aq_Decision q, aq_ProposalHash q]"

lemma ApprovalHash_text: "ApprovalHash sha q tenant i actor = sha (decision_text q tenant i actor)"
  by (simp add: ApprovalHash_def Fingerprint_def decision_text_def)

lemma hash_short: "ValidHash s \<Longrightarrow> length s < 18446744073709551616"
  by (simp add: ValidHash_def)

lemma decision_text_inj:
  assumes "decision_text q tenant i actor = decision_text q' tenant i actor'"
    and "ValidIdentifier actor" "ValidIdentifier actor'" "ValidHash (aq_ProposalHash q)" "ValidHash (aq_ProposalHash q')"
    and "aq_Decision q \<in> {''approve'', ''reject''}" "aq_Decision q' \<in> {''approve'', ''reject''}"
  shows "actor = actor' \<and> aq_Decision q = aq_Decision q' \<and> aq_ProposalHash q = aq_ProposalHash q'"
proof -
  have "fingerprint_preimage [actor, aq_Decision q, aq_ProposalHash q] = fingerprint_preimage [actor', aq_Decision q', aq_ProposalHash q']"
    using assms(1) by (simp add: decision_text_def fingerprint_preimage_def)
  moreover have "go_strings [actor, aq_Decision q, aq_ProposalHash q]" "go_strings [actor', aq_Decision q', aq_ProposalHash q']"
    using assms(2-) identifier_short hash_short by (auto simp: go_strings_def)
  ultimately have "[actor, aq_Decision q, aq_ProposalHash q] = [actor', aq_Decision q', aq_ProposalHash q']" by (intro fingerprint_preimage_inj)
  then show ?thesis by simp
qed

section \<open>Every authorization rests on an approval\<close>

text \<open>The approval of a Run that an authorization names: decided in its favour, on the same proposal and by the same person.\<close>

definition approves :: "ApprovalRow \<Rightarrow> AuthorizationRow \<Rightarrow> bool" where
  "approves v z \<longleftrightarrow> (let a = sa_Authorization (az_Action z) in
     av_Status v = ''approved'' \<and> av_tenant v = az_TenantID z \<and> av_run v = az_RunID z \<and> av_ApprovalID v = Some (aa_ApprovalID a) \<and>
     av_ActorID v = Some (aa_ActorID a) \<and> av_ProposalHash v = aa_ProposalHash a)"

definition approved_inv :: "run_db \<times> action_db \<Rightarrow> bool" where
  "approved_inv s \<longleftrightarrow> distinct (map avKey (run_approvals (fst s))) \<and> (\<forall>z \<in> set (action_authorizations (snd s)). \<exists>v \<in> set (run_approvals (fst s)). approves v z)"

lemma approves_pending: "approves v z \<Longrightarrow> av_Status v \<noteq> ''pending''"
  by (simp add: approves_def Let_def)

lemma approves_count: "approves v (countCall kind z) = approves v z"
  by (simp add: approves_def)

lemma approved_kept:
  assumes "approved_inv s" "approvals_kept (fst s) (fst s')"
    and "\<forall>z' \<in> set (action_authorizations (snd s')). \<exists>z \<in> set (action_authorizations (snd s)). \<forall>v. approves v z' = approves v z"
  shows "approved_inv s'"
  using assms approves_pending unfolding approved_inv_def approvals_kept_def by meson

lemma approved_same:
  "approved_inv s \<Longrightarrow> approvals_kept (fst s) (fst s') \<Longrightarrow> action_authorizations (snd s') = action_authorizations (snd s) \<Longrightarrow> approved_inv s'"
  by (erule approved_kept) auto

lemma authorizeNew_approved:
  assumes "authorizeNew cfg rc ae caller lease step operationID now0 now accounts r a s = Inr (action, t')"
  obtains v z where "v \<in> set (run_approvals (fst s))" "approves v z" "action_authorizations t' = action_authorizations (snd s) @ [z]"
    "az_Action z = action" "az_TenantID z = run_TenantID r" "az_RunID z = run_ID r"
proof -
  from assms obtain p view commit params keyID key and b :: BusinessRequest and vector expires where
    view: "approvalView cfg ae r now0 (fst s) = Inr (view, commit)"
      "\<not> (vw_Status view \<noteq> ''approved'' \<or> vw_ApprovalID view = None \<or> vw_ActorID view = None \<or> vw_DecidedAt view = None)"
    and sign: "SignAction (ae_business ae) (newAuthorization operationID keyID r view
       (case ParametersHash (ae_business ae) params of Inl _ \<Rightarrow> '''' | Inr h \<Rightarrow> h) (bq_CreatedAt b) vector expires now) params key = Inr action"
    and ins: "insertAuthorization (ae_business ae) action now expires (snd s) = Inr t'"
    unfolding authorizeNew_def Let_def by (auto simp: bindE_Inr_iff if_Inl_eq_Inr case_option_Inr case_sum_Inr)
  from view(1) obtain v where v: "v \<in> set (run_approvals (fst s))" "av_tenant v = run_TenantID r" "av_run v = run_ID r" "av_Status v = vw_Status view"
    "av_ProposalHash v = vw_ProposalHash view" "av_ApprovalID v = vw_ApprovalID view" "av_ActorID v = vw_ActorID view" by (rule approvalView_row)
  from ins obtain z where z: "t' = (snd s)\<lparr>action_authorizations := action_authorizations (snd s) @ [z]\<rparr>" "az_Action z = action"
    "az_TenantID z = aa_TenantID (sa_Authorization action)" "az_RunID z = aa_RunID (sa_Authorization action)" by (rule insertAuthorization_effect)
  have "approves v z" "az_TenantID z = run_TenantID r" "az_RunID z = run_ID r"
    using view(2) v z(2-4) SignAction_authorization [OF sign] by (auto simp: approves_def Let_def newAuthorization_def)
  with v(1) z show thesis by (intro that [of v z]) simp_all
qed

lemma AuthorizeAction_approved:
  assumes inv: "approved_inv s" and auth: "AuthorizeAction cfg rc ae caller lease step operationID now0 now s = Inr (answer, s')"
  shows "approved_inv s'"
proof -
  obtain action effect where answer: "answer = (action, effect)" by (cases answer)
  from auth [unfolded answer] show ?thesis
  proof (cases rule: AuthorizeAction_cases)
    case (new accounts r a)
    from new(3) obtain v z where "v \<in> set (run_approvals (fst s))" "approves v z" "action_authorizations (snd s') = action_authorizations (snd s) @ [z]"
      by (rule authorizeNew_approved)
    with inv new(4) show ?thesis by (auto simp: approved_inv_def)
  qed (use inv in simp)
qed

lemma saveEffect_authorizations: "saveEffect env action receipt source now t = Inr t' \<Longrightarrow> action_authorizations t' = action_authorizations t"
  by (auto simp: saveEffect_def Let_def split: if_splits option.splits)

lemma receipts_authorizations:
  "CompleteAction cfg ae caller creq now0 now clk s = Inr (response, s') \<Longrightarrow> action_authorizations (snd s') = action_authorizations (snd s)"
  "ObserveActionCall cfg caller oreq now s = Inr (c, s') \<Longrightarrow> action_authorizations (snd s') = action_authorizations (snd s)"
  "ReserveReceiptQuery cfg tenant i source queryID now s = Inr (permit, s') \<Longrightarrow> action_authorizations (snd s') = action_authorizations (snd s)"
proof -
  show "CompleteAction cfg ae caller creq now0 now clk s = Inr (response, s') \<Longrightarrow> action_authorizations (snd s') = action_authorizations (snd s)"
    by (erule CompleteAction_cases) (rule saveEffect_authorizations)
  show "ObserveActionCall cfg caller oreq now s = Inr (c, s') \<Longrightarrow> action_authorizations (snd s') = action_authorizations (snd s)"
    by (erule ObserveActionCall_cases) simp_all
  show "ReserveReceiptQuery cfg tenant i source queryID now s = Inr (permit, s') \<Longrightarrow> action_authorizations (snd s') = action_authorizations (snd s)"
    unfolding ReserveReceiptQuery_def Let_def by (auto simp: if_Inl_eq_Inr bindE_Inr_iff case_option_Inr)
qed

lemma RecordReceiptQuery_authorizations:
  assumes "RecordReceiptQuery cfg ae tenant queryID action receipt outcome now s = Inr s'"
  shows "action_authorizations (snd s') = action_authorizations (snd s)"
proof -
  from assms obtain q original t1 where
    save: "(case receipt of None \<Rightarrow> Inr (snd s) | Some rc \<Rightarrow> saveEffect (ae_business ae) original rc (qr_Source q) now (snd s)) = Inr t1"
    and s': "Inr (fst s, finishQuery tenant queryID outcome q now t1) = (Inr s' :: RunError + _)"
    unfolding RecordReceiptQuery_def Let_def if_Inl_eq_Inr case_option_Inr bindE_Inr_iff by (elim conjE exE) (rule that)
  from save have "action_authorizations t1 = action_authorizations (snd s)" by (cases receipt) (auto dest: saveEffect_authorizations)
  with s' show ?thesis by (auto simp: finishQuery_def)
qed

lemma ReserveActionCall_approved:
  assumes inv: "approved_inv s" and res: "ReserveActionCall cfg rc ae caller req now0 now s = Inr ((c, newly), s')"
    and kept: "approvals_kept (fst s) (fst s')"
  shows "approved_inv s'"
  using res
proof (cases rule: ReserveActionCall_cases)
  case (granted r a action accounts)
  from granted(7) obtain "insertActionCall c r s = Inr s'" by (rule grantActionCall_cases) blast
  note e = insertActionCall_effect [OF this]
  show ?thesis by (rule approved_kept [OF inv kept]) (auto simp: e(2) set_update_where approves_count)
qed (use inv in simp)

lemma action_step_approved:
  assumes step: "action_step cfg rc ae s s'" and inv: "approved_inv s"
  shows "approved_inv s'"
  using step
proof (cases rule: action_step.cases)
  case (authorize caller lease step operationID now0 now signed)
  then show ?thesis by (rule AuthorizeAction_approved [OF inv])
next
  case (permit caller rreq now0 now call newly)
  then show ?thesis by (rule ReserveActionCall_approved [OF inv _ action_step_approvals [OF step]])
next
  case (answer tenant queryID action receipt outcome now)
  from RecordReceiptQuery_authorizations [OF this] show ?thesis by (rule approved_same [OF inv action_step_approvals [OF step]])
next
  case (recover aliasID aliasAgain input expected nowAlias now nowAgain clk view reused)
  from AdmitActionRetry_actions [OF this] show ?thesis by (intro approved_same [OF inv action_step_approvals [OF step]]) simp
qed (rule approved_same [OF inv action_step_approvals [OF step]], auto dest: receipts_authorizations)+

lemma full_step_approved:
  assumes "full_step cfg ae s s'" "approved_inv s"
  shows "approved_inv s'"
  using assms(1)
proof (rule full_stepE)
  fix rc :: "string read_checks" and cc db db' t assume "s = (db, t)" "s' = (db', t)" "store_step cfg rc cc db db'"
  then show ?thesis using approved_same [OF assms(2), of s'] store_step_approvals [of cfg rc cc db db'] by simp
qed (rule action_step_approved [OF _ assms(2)])

interpretation approved_store: inductive_invariant full_start "full_step cfg ae" approved_inv
  by unfold_locales (use full_step_approved in \<open>auto simp: approved_inv_def empty_actions_def empty_store_def\<close>)

lemma reachable_approved: "reachable_actions cfg ae s \<Longrightarrow> approved_inv s"
  unfolding reachable_actions_def by (rule approved_store.invariant)

lemma approvals_kept_steps: "(full_step cfg ae)\<^sup>*\<^sup>* s s' \<Longrightarrow> approvals_kept (fst s) (fst s')"
  by (induction rule: rtranclp_induct) (auto intro: approvals_kept_same approvals_kept_trans full_step_approvals)

end
