(* ===== verification/RunAttempts.thy ===== *)
theory RunAttempts
  imports RunApprovals
begin

text \<open>
  How often a Run is executed, and what its active call is. A Run begins at most one execution for
  each recovery that was granted, one for its admission and one for an approval: the policy never
  lets the count of executions run ahead of these, a proposal is submitted once because the Run then
  has its row of approvals, and recovered or admitted Runs start at zero. An active call is always a
  recorded call of the current attempt.
\<close>

section \<open>Steady rows\<close>

text \<open>The executions of a Run beyond its recoveries; one that executes or is over is counted when it ends.\<close>

definition pace :: "Run \<Rightarrow> int" where
  "pace r = run_AttemptNo r - run_RecoveryCount r - (if active (run_State r) \<or> Terminal (run_State r) then 1 else 0)"

definition steady :: "Run \<times> Authority \<Rightarrow> Run \<times> Authority \<Rightarrow> bool" where
  "steady x y \<longleftrightarrow> rkey y = rkey x \<and> run_ProposalRef (fst y) = run_ProposalRef (fst x) \<and> pace (fst y) \<le> pace (fst x) \<and>
     (\<forall>i. au_ActiveCallID (snd y) = Some i \<longrightarrow> au_ActiveCallID (snd x) = Some i \<and> run_AttemptNo (fst y) = run_AttemptNo (fst x))"

lemma steady_same:
  "rkey (r', a') = rkey (r, a) \<Longrightarrow> run_ProposalRef r' = run_ProposalRef r \<Longrightarrow> run_AttemptNo r' = run_AttemptNo r \<Longrightarrow>
   run_RecoveryCount r' = run_RecoveryCount r \<Longrightarrow> (active (run_State r) \<Longrightarrow> active (run_State r') \<or> Terminal (run_State r')) \<Longrightarrow>
   (Terminal (run_State r) \<Longrightarrow> Terminal (run_State r')) \<Longrightarrow> au_ActiveCallID a' \<in> {None, au_ActiveCallID a} \<Longrightarrow> steady (r, a) (r', a')"
  by (auto simp: steady_def pace_def)

lemma steady_finish:
  assumes "\<not> Terminal (run_State r)" "Terminal s"
  shows "steady (r, a) (finishRun r s code now, a)"
  using assms by (intro steady_same) (auto simp: finishRun_def rkey_def)

lemma CloseAttempt_steady:
  assumes "CloseAttempt r a reason now = Inr (outcome, r', a')"
  shows "steady (r, a) (r', a')"
proof -
  note a' = CloseAttempt_authority [OF assms]
  from assms show ?thesis
  proof (cases rule: CloseAttempt_cases)
    case (retry code)
    then show ?thesis using a' by (auto simp: steady_def pace_def rkey_def)
  qed (use a' in \<open>auto simp: steady_def pace_def rkey_def finishRun_def\<close>)
qed

lemma ExpireWaiting_steady:
  assumes "ExpireWaiting r now = Inr r'"
  shows "steady (r, a) (r', a)"
  using assms
proof (cases rule: ExpireWaiting_cases)
  case (finished s code)
  then show ?thesis using steady_finish ExpireWaiting_waiting [OF assms] by blast
qed (auto simp: steady_def pace_def rkey_def)

interpretation steady_rows: row_policy steady
proof unfold_locales
  show "rkey y = rkey x" if "steady x y" for x y using that by (simp add: steady_def)
  show "steady x x" for x by (simp add: steady_def)
  show "steady x z" if "steady x y" "steady y z" for x y z using that by (auto simp: steady_def)
  show "steady (r, a) (stamped clk r, a\<lparr>au_EventSequence := n\<rparr>)" for r a clk n
    by (rule steady_same) (auto simp: stamped_def rkey_def)
  show "steady (r, a) (r', a')" if "ClaimExecution r a w s now = Inr (lease, r', a')" for r a w s now lease r' a'
    using that by (auto simp: steady_def pace_def rkey_def ClaimExecution_def Let_def split: if_splits)
  show "steady (r, a) (r', a)" if "stopIfDue r now = Inr r'" for r a now r'
    using that by (elim stopIfDue_cases) (auto intro!: steady_same simp: rkey_def)
  show "steady (r, a) (r', a)" if "Heartbeat r a lease now = Inr r'" for r a lease now r'
    using that by (auto intro!: steady_same simp: rkey_def Heartbeat_def CheckExecution_def result_simps split: if_splits)
  show "steady (r, a) (r', a)" if "RequestCancel r now = Inr r'" for r a now r'
    using that by (auto intro!: steady_same simp: rkey_def RequestCancel_def finishRun_def Let_def split: if_splits)
  show "steady (r, a) (r\<lparr>run_LeaseUntil := None, run_AttemptDeadline := None\<rparr>,
      a\<lparr>au_WorkerID := '''', au_SessionID := '''', au_ActiveCallID := None\<rparr>)" for r a
    by (rule steady_same) (auto simp: rkey_def)
  show "steady (r, a) (r\<lparr>run_UpdatedAt := now\<rparr>, a\<lparr>au_ActiveCallID := None\<rparr>)" for r a now
    by (rule steady_same) (auto simp: rkey_def)
qed (rule ExpireWaiting_steady CloseAttempt_steady; assumption)+

section \<open>The invariant\<close>

abbreviation callID :: "callRow \<Rightarrow> string \<times> Lease" where
  "callID c \<equiv> (pc_PhysicalCallID c, pc_Lease c)"

definition row_attempted :: "run_db \<Rightarrow> Run \<times> Authority \<Rightarrow> bool" where
  "row_attempted db x \<longleftrightarrow> (case x of (r, a) \<Rightarrow>
     pace r \<le> (if run_ProposalRef r = None then 0 else 1) \<and>
     (run_ProposalRef r \<noteq> None \<longrightarrow> rkey x \<in> avKey ` set (run_approvals db)) \<and>
     (\<forall>i. au_ActiveCallID a = Some i \<longrightarrow>
        (\<exists>c \<in> set (physical_calls db). callKey r i c \<and> ls_AttemptNo (pc_Lease c) = run_AttemptNo r)))"

definition attempts_inv :: "run_db \<Rightarrow> bool" where
  "attempts_inv db \<longleftrightarrow> (\<forall>x \<in> set (runs db). row_attempted db x)"

text \<open>Nothing that the invariant looks for is lost: the Runs with approvals and the recorded calls.\<close>

definition evidence_kept :: "run_db \<Rightarrow> run_db \<Rightarrow> bool" where
  "evidence_kept db db' \<longleftrightarrow> avKey ` set (run_approvals db) \<subseteq> avKey ` set (run_approvals db') \<and>
     callID ` set (physical_calls db) \<subseteq> callID ` set (physical_calls db')"

lemma row_attempted_kept:
  assumes x: "row_attempted db x" and y: "steady x y" and kept: "evidence_kept db db'"
  shows "row_attempted db' y"
proof -
  obtain r a r' a' where xy: "x = (r, a)" "y = (r', a')" by (cases x; cases y)
  have key: "rkey y = rkey x" using y by (simp add: steady_def)
  have "\<exists>c \<in> set (physical_calls db'). callKey r' i c \<and> ls_AttemptNo (pc_Lease c) = run_AttemptNo r'" if "au_ActiveCallID a' = Some i" for i
  proof -
    have "au_ActiveCallID a = Some i" "run_AttemptNo r' = run_AttemptNo r" using y that by (auto simp: steady_def xy)
    with x obtain c where c: "c \<in> set (physical_calls db)" "callKey r i c" "ls_AttemptNo (pc_Lease c) = run_AttemptNo r"
      by (auto simp: row_attempted_def xy)
    have "callID ` set (physical_calls db) \<subseteq> callID ` set (physical_calls db')" using kept unfolding evidence_kept_def by (rule conjunct2)
    from subsetD [OF this imageI [OF c(1)]] obtain c' where
      "c' \<in> set (physical_calls db')" "pc_PhysicalCallID c' = pc_PhysicalCallID c" "pc_Lease c' = pc_Lease c"
      by (rule imageE) simp
    with c key \<open>run_AttemptNo r' = run_AttemptNo r\<close> show ?thesis by (intro bexI [of _ c']) (simp_all add: rkey_def xy)
  qed
  moreover have "rkey y \<in> avKey ` set (run_approvals db')" if "run_ProposalRef r' \<noteq> None"
  proof -
    have "rkey x \<in> avKey ` set (run_approvals db)" using x y that by (auto simp: row_attempted_def steady_def xy)
    moreover have "avKey ` set (run_approvals db) \<subseteq> avKey ` set (run_approvals db')" using kept unfolding evidence_kept_def by (rule conjunct1)
    ultimately show ?thesis unfolding key by (rule subsetD [rotated])
  qed
  moreover have "pace r' \<le> (if run_ProposalRef r' = None then 0 else 1)" using x y by (auto simp: row_attempted_def steady_def xy)
  ultimately show ?thesis unfolding row_attempted_def xy by simp
qed

lemma attempts_rows:
  assumes inv: "attempts_inv db" and kept: "evidence_kept db db'"
    and rows: "\<And>y. y \<in> set (runs db') \<Longrightarrow> (\<exists>x \<in> set (runs db). steady x y) \<or> row_attempted db' y"
  shows "attempts_inv db'"
  unfolding attempts_inv_def
proof
  fix y assume "y \<in> set (runs db')"
  with rows consider x where "x \<in> set (runs db)" "steady x y" | "row_attempted db' y" by blast
  then show "row_attempted db' y"
  proof cases
    case 1
    with inv have "row_attempted db x" unfolding attempts_inv_def by blast
    then show ?thesis using row_attempted_kept 1(2) kept by blast
  qed
qed

lemma attempts_steady: "attempts_inv db \<Longrightarrow> evidence_kept db db' \<Longrightarrow> list_all2 steady (runs db) (runs db') \<Longrightarrow> attempts_inv db'"
  by (rule attempts_rows) (auto dest: list_all2_mem2)

lemma attempts_same: "attempts_inv db \<Longrightarrow> evidence_kept db db' \<Longrightarrow> runs db' = runs db \<Longrightarrow> attempts_inv db'"
  by (rule attempts_steady) (use steady_rows.rows_refl [of "runs db"] in simp_all)

lemma put_other:
  assumes "x \<in> set rows" "rkey y = rkey x" "z \<in> set (putRun y rows)" "z \<noteq> y"
  shows "\<exists>w \<in> set rows. steady w z"
proof (rule bexI)
  show "steady z z" by (rule steady_rows.row_refl)
  show "z \<in> set rows" using set_putRun [OF assms(1) assms(2) [symmetric]] assms(3,4) by simp
qed

text \<open>A Run that has just been admitted or recovered.\<close>

lemma row_attempted_new:
  "run_AttemptNo r = 0 \<Longrightarrow> run_ok r a \<Longrightarrow> run_ProposalRef r = None \<Longrightarrow> \<not> active (run_State r) \<Longrightarrow> row_attempted db (r, a)"
  by (auto simp: row_attempted_def pace_def run_ok_def)

lemma attempts_append:
  assumes "attempts_inv db" "evidence_kept db db'" "runs db' = runs db @ [(r, a)]" "row_attempted db' (r, a)"
  shows "attempts_inv db'"
  by (rule attempts_rows [OF assms(1,2)]) (use assms(3,4) steady_rows.row_refl in auto)

section \<open>Calls are never lost\<close>

lemma same_hold_ids: "list_all2 same_hold cs cs' \<Longrightarrow> map callID cs' = map callID cs"
  by (induction rule: list_all2_induct) (simp_all add: same_hold_def)

lemma evidence_calls:
  assumes "approvals_kept db db'" "map callID (physical_calls db') = map callID (physical_calls db)"
  shows "evidence_kept db db'"
proof -
  have "callID ` set (physical_calls db') = callID ` set (physical_calls db)" using assms(2) by (metis list.set_map)
  with assms(1) show ?thesis unfolding evidence_kept_def approvals_kept_def by blast
qed

lemma evidence_quiet: "approvals_kept db db' \<Longrightarrow> quiet db db' \<Longrightarrow> evidence_kept db db'"
  by (rule evidence_calls) (auto simp: quiet_def same_hold_ids)

lemma evidence_calm: "approvals_kept db db' \<Longrightarrow> calm db db' \<Longrightarrow> evidence_kept db db'"
  by (rule evidence_calls) (auto simp: calm_def same_hold_ids)

lemma evidence_frame: "approvals_kept db db' \<Longrightarrow> physical_calls db' = physical_calls db \<Longrightarrow> evidence_kept db db'"
  by (rule evidence_calls) simp_all

lemma updateCall_ids:
  assumes "\<And>c. callID (f c) = callID c"
  shows "map callID (physical_calls (updateCall call f db)) = map callID (physical_calls db)"
  unfolding updateCall_def by (simp, rule map_update_where) (simp add: assms)

lemma settleLedgerUsage_ids:
  "settleLedgerUsage cfg call budget profile accs usage now db = Inr (settled, call', db') \<Longrightarrow>
     map callID (physical_calls db') = map callID (physical_calls db)"
  by (erule settleLedgerUsage_cases) (simp_all add: updateCall_ids anomalousCall_def settledCall_def)

lemma settleReported_ids:
  assumes "settleReported cfg call budget profile accs req now db = Inr ((settled, conflict), call', db')"
  shows "map callID (physical_calls db') = map callID (physical_calls db)"
proof (cases "AuditEnabled profile")
  case True
  with assms have "settleCallReport cfg call budget profile accs req now db = Inr ((settled, conflict), call', db')"
    by (simp add: settleReported_def)
  then show ?thesis
  proof (cases rule: settleCallReport_cases)
    case (conflict f)
    then show ?thesis by (simp add: updateCall_ids same_hold_def)
  next
    case (report d accs1)
    then show ?thesis by (simp add: updateCall_ids reportedCall_def)
  qed simp
next
  case False
  with assms show ?thesis by (auto simp: settleReported_def result_simps dest: settleLedgerUsage_ids split: if_splits)
qed

lemma observe_ids:
  assumes "ObserveCall cfg caller req now db = Inr (c, db')"
  shows "map callID (physical_calls db') = map callID (physical_calls db)"
  using assms
proof (cases rule: ObserveCall_cases)
  case (observed r a accs call profile budget settled call1 db1 hash)
  have "map callID (physical_calls db1) = map callID (physical_calls db)" using observed(8) settleLedgerUsage_ids by auto
  then show ?thesis by (simp add: observed(9) saveRun_eq updateCall_ids observedCall_def markUnknown_def)
qed simp

section \<open>Every transaction keeps the invariant\<close>

lemma ApplyCommit_attempts:
  assumes "ApplyCommit cfg r a req decision nextID now = Inr (r1, a1)"
  shows "run_RecoveryCount r1 = run_RecoveryCount r" "run_State r1 \<noteq> AwaitingApproval \<Longrightarrow> run_ProposalRef r1 = run_ProposalRef r"
    "run_State r1 = AwaitingApproval \<Longrightarrow> run_ProposalRef r1 \<noteq> None"
  using CheckExecution_running [OF ApplyCommit_effect(1) [OF assms]] assms unfolding ApplyCommit_def Let_def
  by (auto simp: result_simps dest!: YieldForApproval_effect split: if_splits option.splits)

text \<open>A commit is steady, or it submits the first proposal of the Run and ends the execution.\<close>

lemma applyStep_row:
  assumes app: "applyStep cfg req decision resources nextID now clk r a db = Inr (response, db')"
  obtains (steady) r' a' where "runs db' = putRun (r', a') (runs db)" "steady (r, a) (r', a')"
    | (yield) r' a' where "runs db' = putRun (r', a') (runs db)" "rkey (r', a') = rkey (r, a)" "run_State r = Running" "run_State r' = AwaitingApproval" "run_ProposalRef r' \<noteq> None"
      "run_AttemptNo r' = run_AttemptNo r" "run_RecoveryCount r' = run_RecoveryCount r" "au_ActiveCallID a' = None"
      "rkey (r, a) \<notin> avKey ` set (run_approvals db)" "rkey (r, a) \<in> avKey ` set (run_approvals db')"
proof -
  from app obtain r1 a1 db1 r2 a2 db2 a3 db3 where ap: "ApplyCommit cfg r a req decision nextID now = Inr (r1, a1)"
    and ins: "insertStep req r1 (cd_CanonicalJSON decision) now db = Inr db1"
    and cl: "closeCommit cfg decision resources (StepReference (run_ID r1) (st_Sequence (cm_Step req))) now r1 a1 db1 = Inr (r2, a2, db2)"
    and ev: "appendEvent r2 a2 ''step_committed'' now db2 = Inr (a3, db3)" and db': "db' = saveRun clk r2 a3 db3"
    unfolding applyStep_def Let_def by (auto simp: result_simps)
  note e = ApplyCommit_effect [OF ap] and t = ApplyCommit_attempts [OF ap]
  have run: "run_State r = Running" by (rule CheckExecution_running [OF e(1)])
  have db1: "runs db1 = runs db" "run_approvals db1 = run_approvals db" using insertStep_effect(1) [OF ins] by simp_all
  from appendEvent_effect [OF ev] obtain evs where a3: "a3 = a2\<lparr>au_EventSequence := au_EventSequence a2 + 1\<rparr>" "db3 = db2\<lparr>run_events := evs\<rparr>" by blast
  have last: "runs db' = putRun (stamped clk r2, a3) (runs db2)" "run_approvals db' = run_approvals db2" by (simp_all add: db' a3 saveRun_eq)
  show thesis
  proof (cases "cd_CloseAttempt decision")
    case False
    with cl have same: "r2 = r1" "a2 = a1" "db2 = db1" by (simp_all add: closeCommit_def)
    have "steady (r, a) (stamped clk r1, a3)"
      by (rule steady_same) (use e(8) e(9) [OF False] run in \<open>simp_all add: a3 same stamped_def rkey_def\<close>)
    with last(1) show thesis by (intro steady) (simp_all add: same db1)
  next
    case True
    with cl obtain dbp res outcome where save: "saveProposalResult cfg r1 decision (StepReference (run_ID r1) (st_Sequence (cm_Step req))) now db1 = Inr dbp"
      and close: "closeAttemptRecords r1 a1 res outcome now dbp = Inr (r2, a2, db2)"
      by (auto simp: closeCommit_def result_simps split: option.splits)
    note c = closeAttemptRecords_calm [OF close]
    have dbp: "runs dbp = runs db" using save by (auto simp: saveProposalResult_def setResult_def Let_def db1 split: if_splits)
    have av: "run_approvals db' = run_approvals dbp" using closeAttemptRecords_approvals [OF close] last(2) by simp
    have row: "runs db' = putRun (stamped clk r2, a3) (runs db)" using last(1) c(2) dbp by simp
    have fields: "rkey (stamped clk r2, a3) = rkey (r, a)" "au_ActiveCallID a3 = None" "run_AttemptNo (stamped clk r2) = run_AttemptNo r"
      "run_RecoveryCount (stamped clk r2) = run_RecoveryCount r" "run_State (stamped clk r2) = run_State r1" "run_ProposalRef (stamped clk r2) = run_ProposalRef r1"
      using e(3) t(1) by (simp_all add: a3 c(4,5) stamped_def rkey_def same_row_def)
    show thesis
    proof (cases "run_State r1 = AwaitingApproval")
      case True
      with save have "rkey (r1, a1) \<notin> avKey ` set (run_approvals db)" "rkey (r1, a1) \<in> avKey ` set (run_approvals dbp)"
        by (auto simp: saveProposalResult_def setResult_def newApproval_def Let_def db1 list_ex_iff rkey_def split: if_splits)
      moreover have "rkey (r1, a1) = rkey (r, a)" using e(3) by (rule same_row_key)
      ultimately show thesis using fields run True av t(3) [OF True] by (intro yield [OF row]) simp_all
    next
      case False
      then have "Terminal (run_State r1)" using e(10) \<open>cd_CloseAttempt decision\<close> by auto
      then have "steady (r, a) (stamped clk r2, a3)" using fields t(2) [OF False] run by (intro steady_same) simp_all
      with row show thesis by (rule steady)
    qed
  qed
qed

lemma commitStep_attempts:
  assumes inv: "attempts_inv db" "store_inv db" and commit: "commitStep cfg cc caller req proposal nextID now0 now clk db = Inr (response, db')"
  shows "attempts_inv db'"
  using commit
proof (cases rule: commitStep_cases)
  case (new r a decision resources)
  have x: "(r, a) \<in> set (runs db)" by (rule conjunct1 [OF lockRun_mem [OF new(1)]])
  note keys = store_inv_parts(6) [OF inv(2)]
  have kept: "evidence_kept db db'" by (rule evidence_calm [OF commitStep_approvals [OF commit] applyStep_core(1) [OF keys x new(5)]])
  from new(5) show ?thesis
  proof (cases rule: applyStep_row)
    case (steady r' a')
    then show ?thesis using attempts_steady [OF inv(1) kept] steady_rows.put_rows [OF keys x] by simp
  next
    case (yield r' a')
    have old: "row_attempted db (r, a)" using inv(1) x unfolding attempts_inv_def by blast
    with yield(9) have "run_ProposalRef r = None" unfolding row_attempted_def by blast
    with old yield(3) have "run_AttemptNo r - run_RecoveryCount r - 1 \<le> 0" by (simp add: row_attempted_def pace_def)
    then have new': "row_attempted db' (r', a')" using yield by (auto simp: row_attempted_def pace_def)
    have "\<exists>z \<in> set (runs db). steady z y" if "y \<in> set (runs db')" "y \<noteq> (r', a')" for y
      using put_other [OF x yield(2)] that yield(1) by simp
    with new' show ?thesis by (intro attempts_rows [OF inv(1) kept]) blast
  qed
qed (use inv in simp)

lemma finishAction_steady:
  assumes keys: "distinct (map rkey (runs db))" and x: "(r, a) \<in> set (runs db)" and run: "run_State r = Running"
    and fin: "finishAction cfg req out resources now clk r a db = Inr (response, db')"
  shows "list_all2 steady (runs db) (runs db')" "map callID (physical_calls db') = map callID (physical_calls db)"
proof -
  from fin obtain rs a1 r2 a2 db2 where a1: "a1 = a\<lparr>au_CheckpointBytes := au_CheckpointBytes a + int (length out)\<rparr>"
    and cl: "closeAttemptRecords (completedRun r now) a1 resources ''succeeded'' now
       (db\<lparr>run_steps := run_steps db @ [newStep (actionStep cfg req out) (completedRun r now) out now], run_results := rs\<rparr>) = Inr (r2, a2, db2)"
    and rec: "recordRun clk r2 a2 ''action_completed'' now db2 = Inr db'" by (rule finishAction_effect)
  note c = closeAttemptRecords_calm [OF cl]
  have "steady (r, a) (r2, a2)" by (rule steady_same) (use run in \<open>simp_all add: c(4,5) a1 completedRun_def rkey_def\<close>)
  then show "list_all2 steady (runs db) (runs db')" by (intro steady_rows.record_rows [OF rec _ keys x]) (use c(2) in simp_all)
  from recordRun_effect [OF rec] show "map callID (physical_calls db') = map callID (physical_calls db)"
    using c(1) same_hold_ids by (auto simp: calm_def)
qed

lemma decide_attempts:
  assumes inv: "attempts_inv db" "store_inv db"
    and dec: "StoreDecideApproval cfg ae tenant i actor key request nextID approvalID opID now0 now clk db = Inr (answer, db')"
  shows "attempts_inv db'"
proof -
  note kept = evidence_quiet [OF StoreDecideApproval_approvals [OF dec] StoreDecideApproval_store(2) [OF store_inv_parts(1) [OF inv(2)] dec]]
  from dec show ?thesis
  proof (cases rule: StoreDecideApproval_cases)
    case (reused ops)
    then show ?thesis by (intro attempts_same [OF inv(1) kept]) simp
  next
    case (decided r a view commit r1 db1 ops)
    have x: "(r, a) \<in> set (runs db)" by (rule conjunct1 [OF lockRun_mem [OF decided(1)]])
    from decidePending_effect [OF decided(5)] obtain a1 rs avs where
      d: "DecideApproval (cfg_sha cfg) r a request commit (ApprovalHash (cfg_sha cfg) request (run_TenantID r) (run_ID r) actor) nextID now = Inr (r1, a1)"
      and rec: "recordRun clk r1 a1 (''approval_'' @ wantedStatus (aq_Decision request)) now (db\<lparr>run_results := rs, run_approvals := avs\<rparr>) = Inr db1" by blast
    have "steady (r, a) (r1, a1)" using d by (auto intro!: steady_same simp: DecideApproval_def rkey_def split: if_splits)
    then have "list_all2 steady (runs db) (runs db1)"
      by (intro steady_rows.record_rows [OF rec _ store_inv_parts(6) [OF inv(2)] x]) simp_all
    then show ?thesis by (intro attempts_steady [OF inv(1) kept]) (simp add: decided(6))
  qed
qed

lemma reserve_attempts:
  assumes inv: "attempts_inv db" "store_inv db" and res: "ReserveCall cfg rc caller req now now2 db = Inr ((c, newly), db')"
  shows "attempts_inv db'"
  using res
proof (cases rule: ReserveCall_row)
  case (2 r a)
  note x = lockRun_mem [OF 2(1)]
  define r' a' where "r' = stamped now2 (r\<lparr>run_UpdatedAt := now\<rparr>)" and "a' = a\<lparr>au_ActiveCallID := Some (rq_PhysicalCallID req)\<rparr>"
  have kept: "evidence_kept db db'" using approvals_kept_same ledger_approvals(2) [OF res] 2(3) by (auto simp: evidence_kept_def approvals_kept_def)
  have old: "row_attempted db (r, a)" using inv(1) x unfolding attempts_inv_def by blast
  have fields: "rkey (r', a') = rkey (r, a)" "run_ProposalRef r' = run_ProposalRef r" "pace r' = pace r" "run_AttemptNo r' = run_AttemptNo r"
    "au_ActiveCallID a' = Some (rq_PhysicalCallID req)" "run_TenantID r' = run_TenantID r" "run_ID r' = run_ID r"
    by (simp_all add: r'_def a'_def stamped_def pace_def rkey_def)
  have "ls_AttemptNo (rq_Lease req) = run_AttemptNo r" using 2(6) by (auto simp: CheckExecution_def matchesExecution_def split: if_splits)
  then have "row_attempted db' (r', a')" using old fields kept 2(3-5) x
    by (auto simp: row_attempted_def evidence_kept_def rkey_def)
  moreover have "\<exists>z \<in> set (runs db). steady z y" if "y \<in> set (runs db')" "y \<noteq> (r', a')" for y
    using put_other [OF conjunct1 [OF x] fields(1)] that 2(2) [folded r'_def a'_def] by simp
  ultimately show ?thesis by (intro attempts_rows [OF inv(1) kept]) blast
qed (use inv in simp)

lemma Admit_attempts:
  assumes inv: "attempts_inv db" and admit: "Admit cfg ck aliasID input nowAlias now0 now clk db = Inr ((r, reused), db')"
  shows "attempts_inv db'"
proof -
  have kept: "approvals_kept db db'" using approvals_kept_same Admit_approvals [OF admit] by auto
  from admit show ?thesis
  proof (cases rule: Admit_cases)
    case (reused ops)
    then show ?thesis by (intro attempts_same [OF inv evidence_frame [OF kept]]) simp_all
  next
    case (new ops)
    from new(2) obtain r0 a0 where n: "fresh_run (r0, a0)" "runs db' = runs db @ [(r0, a0)]" by (auto elim!: admitNew_runs)
    have "physical_calls db' = physical_calls db" using new(2) by (auto elim!: admitNew_cases submitBusiness_effect acceptRun_effect simp: stampBusiness_def)
    moreover have "row_attempted db' (r0, a0)"
      by (rule row_attempted_new) (use n(1) fresh_run_ok [OF n(1)] in \<open>simp_all add: fresh_run_def\<close>)
    ultimately show ?thesis by (intro attempts_append [OF inv evidence_frame [OF kept] n(2)])
  qed
qed

lemma AdmitActionRetry_attempts:
  assumes inv: "attempts_inv (fst s)" and kept: "approvals_kept (fst s) (fst s')"
    and admit: "AdmitActionRetry cfg ae aliasID aliasAgain input expected nowAlias now nowAgain clk s = Inr ((view, reused), s')"
  shows "attempts_inv (fst s')"
  using admit
proof (cases rule: AdmitActionRetry_cases)
  case (reused ops)
  then show ?thesis by (intro attempts_same [OF inv evidence_frame [OF kept]]) simp_all
next
  case (recovered ops)
  from recovered(1) show ?thesis
  proof (cases rule: insertRecovered_effect)
    case (1 source sa r a ops evs hs rs)
    have "row_attempted (fst s') (r, a)" by (rule row_attempted_new) (use 1 in auto)
    then show ?thesis by (intro attempts_append [OF inv evidence_frame [OF kept]]) (use 1 in simp_all)
  qed
qed

lemma setup_attempts:
  assumes "setup_step cfg db db'" and inv: "attempts_inv db" "store_inv db"
  shows "attempts_inv db'"
proof -
  have kept: "approvals_kept db db'" using setup_approvals [OF assms(1)] by (intro approvals_kept_same) simp
  from assms(1) show ?thesis
  proof (cases rule: setup_step.cases)
    case (budget pgUUID spec)
    have "physical_calls db' = physical_calls db" using budget by (auto simp: CreateBudget_def Let_def elim!: insertBudget_effect split: if_splits option.splits)
    then show ?thesis using attempts_same [OF inv(1) evidence_frame [OF kept]] CreateBudget_runs [OF budget] by simp
  next
    case (bind pgUUID tenant batch account)
    note frame = BindBudgetTenant_frame [OF bind]
    show ?thesis using attempts_same [OF inv(1) evidence_frame [OF kept]] arg_cong [OF frame, of runs] arg_cong [OF frame, of physical_calls] by simp
  next
    case (profiles validate ps failure)
    have calls: "physical_calls (snd (EnsureProfiles validate ps d)) = physical_calls d" for d
    proof (induction ps arbitrary: d)
      case (Cons p ps)
      show ?case using Cons.IH [of d] Cons.IH [of "d\<lparr>agent_profiles := agent_profiles d @ [storedProfile p]\<rparr>"]
        by (auto simp: Let_def split: sum.split option.split)
    qed simp
    then have "physical_calls db' = physical_calls db" using profiles by (metis snd_conv)
    then show ?thesis using attempts_same [OF inv(1) evidence_frame [OF kept]] EnsureProfiles_runs [of validate ps db] profiles by simp
  next
    case (admit ck aliasID input nowAlias now0 now clk r reused)
    then show ?thesis by (rule Admit_attempts [OF inv(1)])
  next
    case (resolve aliasID tenant key sourceID hash businessKey now found)
    from resolveAdmission_frame [OF this] show ?thesis by (intro attempts_same [OF inv(1) evidence_frame [OF kept]]) auto
  qed
qed

lemma lifecycle_attempts:
  assumes "lifecycle_step cfg rc db db'" and inv: "attempts_inv db" "store_inv db"
  shows "attempts_inv db'"
proof -
  have kept: "approvals_kept db db'" using lifecycle_approvals [OF assms(1)] by (intro approvals_kept_same) simp
  note keys = store_inv_parts(6) [OF inv(2)]
  have moved: "attempts_inv db'" if "quiet db db'" "list_all2 steady (runs db) (runs db')"
    using attempts_steady [OF inv(1) evidence_quiet [OF kept that(1)] that(2)] .
  have still: "attempts_inv db'" if "quiet db db'" "runs db' = runs db"
    using attempts_same [OF inv(1) evidence_quiet [OF kept that(1)] that(2)] .
  from assms(1) show ?thesis
  proof (cases rule: lifecycle_step.cases)
    case (register newID caller startup version now session)
    from lifecycle_quiet_steps(1) [OF inv(2) this] show ?thesis using still by blast
  next
    case (session caller w sid now session)
    from lifecycle_quiet_steps(2) [OF inv(2) this] show ?thesis using still by blast
  next
    case (claim locked caller sid now1 now2 now3 clk granted)
    show ?thesis by (rule moved [OF StoreClaimRun_quiet [OF keys claim] steady_rows.claim_rows [OF keys claim]])
  next
    case (heartbeat caller lease now clk hb)
    show ?thesis by (rule moved [OF HeartbeatExecution_quiet [OF keys heartbeat] steady_rows.heartbeat_rows [OF keys heartbeat]])
  next
    case (fail caller lease step reason now clk view)
    from fail show ?thesis
      by (elim FailExecution_cases) (rule moved [OF close_row_quiet [OF keys] steady_rows.close_rows [OF keys]])
  next
    case (stopped caller lease now clk closed)
    from stopped show ?thesis
      by (elim AcknowledgeStop_cases) (rule moved [OF close_row_quiet [OF keys] steady_rows.close_rows [OF keys]])
  next
    case (cancel newID tenant i key now clk cancelled)
    show ?thesis by (rule moved [OF StoreCancelRun_quiet [OF keys cancel] steady_rows.cancel_rows [OF keys cancel]])
  next
    case (sweep tenant i now clk changed)
    show ?thesis by (rule moved [OF sweepRun_quiet [OF keys sweep] steady_rows.sweep_rows [OF keys sweep]])
  qed
qed

lemma ledger_attempts:
  assumes "ledger_step cfg rc cc db db'" and inv: "attempts_inv db" "store_inv db"
  shows "attempts_inv db'"
proof -
  note p = store_inv_parts [OF inv(2)]
  from assms(1) show ?thesis
  proof (cases rule: ledger_step.cases)
    case (tool caller breq now now2 started)
    have "approvals_kept db db'" using ledger_approvals(1) [OF tool] by (intro approvals_kept_same) simp
    moreover have "physical_calls db' = physical_calls db" using tool by (cases rule: BeginTool_cases) simp_all
    moreover have "runs db' = runs db" using BeginTool_ledger [OF p(2) tool] by (simp add: ledger_only_def)
    ultimately show ?thesis using attempts_same [OF inv(1) evidence_frame] by blast
  next
    case (reserve caller rreq now now2 c newly)
    then show ?thesis by (rule reserve_attempts [OF inv])
  next
    case (observe caller oreq now c)
    have "approvals_kept db db'" using ledger_approvals(3) [OF observe] by (intro approvals_kept_same) simp
    from attempts_steady [OF inv(1) evidence_calls [OF this observe_ids [OF observe]] steady_rows.observe_rows [OF p(1,2) observe]]
    show ?thesis .
  next
    case (settle caller sreq now settled)
    have "approvals_kept db db'" using ledger_approvals(4) [OF settle] by (intro approvals_kept_same) simp
    moreover have "map callID (physical_calls db') = map callID (physical_calls db)"
      using settle by (cases rule: SettleUsage_cases) (rule settleReported_ids)
    moreover have "runs db' = runs db" using SettleUsage_inv [OF p(1,2) settle] by (simp add: ledger_only_def)
    ultimately show ?thesis using attempts_same [OF inv(1) evidence_calls] by blast
  next
    case (commit caller creq requireProposal nextID now0 now clk response)
    then show ?thesis by (rule commitStep_attempts [OF inv])
  qed
qed

lemma action_attempts:
  assumes "action_step cfg rc ae s s'" and inv: "attempts_inv (fst s)" "store_inv (fst s)"
  shows "attempts_inv (fst s')"
proof -
  note kept = action_step_approvals [OF assms(1)]
  have same: "attempts_inv (fst s')" if "runs (fst s') = runs (fst s)" "physical_calls (fst s') = physical_calls (fst s)"
    using attempts_same [OF inv(1) evidence_frame [OF kept that(2)] that(1)] .
  from assms(1) show ?thesis
  proof (cases rule: action_step.cases)
    case (decide tenant i actor key request nextID approvalID opID now0 now clk db answer db' t)
    with decide_attempts [OF _ _ decide(3)] inv show ?thesis by simp
  next
    case (complete caller creq now0 now clk response)
    from complete show ?thesis
    proof (cases rule: CompleteAction_cases)
      case (1 r a action effect source resources out)
      note e = actionExecution_effect(2) [OF 1(8)]
      note fin = finishAction_steady [OF store_inv_parts(6) [OF inv(2)] conjunct1 [OF lockRun_mem [OF 1(1)]] CheckExecution_running [OF e] 1(9)]
      show ?thesis by (rule attempts_steady [OF inv(1) evidence_calls [OF kept fin(2)] fin(1)])
    qed
  next
    case (recover aliasID aliasAgain input expected nowAlias now nowAgain clk view reused)
    then show ?thesis by (rule AdmitActionRetry_attempts [OF inv(1) kept])
  qed (rule same; auto dest: AuthorizeAction_run ReserveActionCall_run ObserveActionCall_run ReserveReceiptQuery_run RecordReceiptQuery_run)+
qed

lemma any_step_attempts:
  assumes "any_step cfg db db'" "attempts_inv db" "store_inv db"
  shows "attempts_inv db'"
proof -
  have store: "attempts_inv db'" if "store_step cfg rc cc db db'" for rc :: "string read_checks" and cc
    using that by (cases rule: store_step.cases) (simp_all add: setup_attempts [OF _ assms(2,3)] lifecycle_attempts [OF _ assms(2,3)] ledger_attempts [OF _ assms(2,3)])
  have act: "attempts_inv db'" if "action_step cfg rc ae (db, t) (db', t')" for rc :: "string read_checks" and ae t t'
    using action_attempts [OF that] assms(2,3) by simp
  from assms(1) store act show ?thesis by blast
qed

interpretation attempted_store: inductive_invariant any_start "any_step cfg" "\<lambda>db. store_inv db \<and> attempts_inv db"
proof unfold_locales
  show "store_inv db \<and> attempts_inv db" if "any_start db" for db
    using that empty_store_inv by (simp add: attempts_inv_def) (simp add: empty_store_def)
  show "store_inv db' \<and> attempts_inv db'" if "any_step cfg db db'" "store_inv db \<and> attempts_inv db" for db db'
    using any_step_attempts [OF that(1)] any_step_preserves [OF that(1)] that(2) by blast
qed

lemma reachable_actions_attempts:
  assumes "reachable_actions cfg ae s"
  shows "attempts_inv (fst s)"
proof -
  have "store_inv (fst s) \<and> attempts_inv (fst s)" using assms unfolding reachable_actions_def
  proof (induction rule: reachable.induct)
    case (reachable_start s)
    then have "fst s = empty_store" by simp
    then show ?case using attempted_store.invariant [OF reachable.reachable_start, of "fst s"] by blast
  next
    case (reachable_step s s')
    from attempted_store.invariant_steps [OF reachable_step.IH r_into_rtranclp [where r = "any_step cfg", OF full_step_run [OF reachable_step.hyps(2)]]]
    show ?case .
  qed
  then show ?thesis by blast
qed

end
