(* ===== verification/RunLiveness.thy ===== *)
theory RunLiveness
  imports RunAttempts
begin

text \<open>
  Every Run ends: a sweep at or after a Run's deadline finds everything it needs in a reachable
  store (its open attempt, its active call, its slots, an expired lease) and leaves the Run in a
  terminal state. What can stand in the way is data that no transaction of the store checks again,
  and is named: the stored profile of the Run, read before the closing of an attempt (\<open>profileStored\<close>),
  and for profiles with confirmed step recovery the scopes of the accounts and the fields of the
  pending step (\<open>closable\<close>); and an exhausted event sequence.
\<close>

section \<open>Locking the resources of an attempt\<close>

text \<open>The profile of the Run is stored under its identifier and hash, and is valid.\<close>

definition profileStored :: "Run \<Rightarrow> run_db \<Rightarrow> Profile \<Rightarrow> bool" where
  "profileStored r db p \<longleftrightarrow> (\<exists>row. find_row (\<lambda>x. ap_ID x = run_ProfileID r) (agent_profiles db) = Some row \<and> ap_Profile row = Some p \<and>
     ap_Hash row = run_ProfileHash r \<and> pf_ID p = run_ProfileID r \<and> pf_Hash p = run_ProfileHash r \<and>
     isOk (ValidateAuditPolicy p) \<and> ValidHash (pr_Hash (pf_Pricing p)))"

text \<open>The accounts of the business request have the scopes in which it names them.\<close>

definition scopesRight :: "Run \<Rightarrow> run_db \<Rightarrow> bool" where
  "scopesRight r db \<longleftrightarrow> (\<forall>b \<in> set (business_requests db). bizID b = (run_TenantID r, run_BusinessRequestID r) \<longrightarrow>
     (\<forall>x \<in> set (budget_accounts db). (accID x = bq_FamilyAccountID b \<longrightarrow> ac_Scope (br_Account x) = ''family'') \<and>
        (accID x = bq_TenantAccountID b \<longrightarrow> ac_Scope (br_Account x) = ''tenant'') \<and>
        (accID x = bq_BatchAccountID b \<longrightarrow> ac_Scope (br_Account x) = ''batch'')))"

text \<open>The columns from which the pending step is made are well formed and the Run has a step left.\<close>

definition pendingValid :: "store_config \<Rightarrow> Run \<Rightarrow> Authority \<Rightarrow> bool" where
  "pendingValid cfg r a \<longleftrightarrow> run_CursorVersion r < 32 \<and> ValidUUID (cfg_parseUUID cfg) (au_NextStepID a) \<and> validStepKind (au_NextStepKind a) \<and>
     ValidHash (au_NextInputHash a) \<and> ValidIdentifier (run_ProfileID r) \<and> ValidHash (run_ProfileHash r) \<and>
     ValidUUID (cfg_parseUUID cfg) (run_SnapshotID r) \<and> ValidHash (run_SnapshotHash r)"

definition closable :: "store_config \<Rightarrow> Run \<Rightarrow> Authority \<Rightarrow> run_db \<Rightarrow> bool" where
  "closable cfg r a db \<longleftrightarrow> (\<exists>p. profileStored r db p \<and> (pf_ConfirmedStepRecovery p \<longrightarrow> scopesRight r db \<and> pendingValid cfg r a))"

lemma lockSlots_found:
  "\<forall>k \<in> set ks. find_row (slotKey k) (execution_slots db) \<noteq> None \<Longrightarrow> isOk (lockSlots ks (map (\<lambda>_. None) ks) db)"
  by (induction ks) (auto simp: lockSlot_def Let_def isOk_iff)

lemma active_slot_row:
  assumes inv: "lifecycle_inv db" and x: "(r, a) \<in> set (runs db)" "active (run_State r)" and k: "k \<in> set (slotKeys r (au_WorkerID a))"
  shows "find_row (slotKey k) (execution_slots db) \<noteq> None"
proof
  assume "find_row (slotKey k) (execution_slots db) = None"
  then have "slot_used k (execution_slots db) = 0" by (simp only: slot_used_def) simp
  moreover have "occupies k (r, a)" using x(2) k by (simp add: occupies_def)
  then have "0 < load k db" using x(1) unfolding load_def count_where_def by (auto simp: filter_empty_conv)
  ultimately show False using inv_parts(6) [OF inv, of k] by simp
qed

lemma lockAttemptResources_succeeds:
  assumes inv: "store_inv db" "attempts_inv db" and x: "(r, a) \<in> set (runs db)" "active (run_State r)"
  shows "isOk (lockAttemptResources r a db)"
proof -
  note p = store_inv_parts [OF inv(1)]
  have ok: "au_WorkerID a \<noteq> ''''" "au_SessionID a \<noteq> ''''" "0 < run_AttemptNo r" using inv_parts(4) [OF p(1) x(1)] x(2) by (auto simp: run_ok_def)
  have call: "(case au_ActiveCallID a of None \<Rightarrow> Inr ()
         | Some i \<Rightarrow> (case find_row (callKey r i) (physical_calls db) of
             None \<Rightarrow> Inl ErrNotFound
           | Some c \<Rightarrow> if ls_AttemptNo (pc_Lease c) \<noteq> run_AttemptNo r then Inl ErrInternal else Inr ())) = Inr ()"
  proof (cases "au_ActiveCallID a")
    case (Some i)
    from inv(2) x(1) have "row_attempted db (r, a)" unfolding attempts_inv_def by blast
    with Some obtain c where c: "c \<in> set (physical_calls db)" "callKey r i c" "ls_AttemptNo (pc_Lease c) = run_AttemptNo r"
      by (auto simp: row_attempted_def)
    have "find_row (callKey r i) (physical_calls db) \<noteq> None" using c(1,2) by (auto simp: find_row_None_iff)
    then obtain d where d: "find_row (callKey r i) (physical_calls db) = Some d" by blast
    have "d = c" using find_row_SomeD [OF d] c(1,2) ledger_parts(2) [OF p(2)] by (auto simp: distinct_map dest: inj_onD)
    with Some c(3) d show ?thesis by simp
  qed simp
  from inv_parts(5) [OF p(1) x(1)] x(2) obtain y where y: "y \<in> set (run_attempts db)" "akey y = (rkey (r, a), run_AttemptNo r)" "ra_finished y = None"
    and who: "ra_worker y = au_WorkerID a" "ra_session y = au_SessionID a" "ra_token y = au_FencingToken a"
    by (fastforce simp: row_attempts_def)
  have "distinct (map akey (run_attempts db))" using p(1) by (simp add: lifecycle_inv_def attempt_rows_ok_def)
  from find_row_Some_iff [OF this, of "akey y" y] y(1,2) have att: "find_row (attemptKey r (run_AttemptNo r)) (run_attempts db) = Some y"
    by (simp add: attemptKey_eq rkey_def)
  have "isOk (lockSlots (slotKeys r (au_WorkerID a)) (map (\<lambda>_. None) (slotKeys r (au_WorkerID a))) db)"
    using active_slot_row [OF p(1) x] by (intro lockSlots_found) blast
  then have "isOk (lockSlots (slotKeys r (au_WorkerID a)) [None, None, None] db)" by (simp add: slotKeys_def)
  then obtain ss db' where "lockSlots (slotKeys r (au_WorkerID a)) [None, None, None] db = Inr (ss, db')" by (auto simp: isOk_iff)
  then show ?thesis using ok att y(3) who unfolding lockAttemptResources_def call by simp
qed

lemma loadAccounts_succeeds:
  assumes inv: "store_inv db" and x: "(r, a) \<in> set (runs db)" and scopes: "scopesRight r db"
  shows "isOk (loadAccounts (run_TenantID r) (run_BusinessRequestID r) db)"
proof -
  have adm: "admission_ok (map bizkey (runs db)) (business_requests db) (map accID (budget_accounts db))"
    using store_inv_parts(3) [OF inv] by (simp add: admission_inv_def)
  then have "run_identity_ok (map bizkey (runs db)) (business_requests db) (bizkey (r, a))" using x by (simp add: admission_ok_def)
  then have "(run_TenantID r, run_BusinessRequestID r) \<in> bizID ` set (business_requests db)" by (simp add: run_identity_ok_def bizkey_def rkey_def)
  then have "find_row (\<lambda>b. bq_TenantID b = run_TenantID r \<and> bq_ID b = run_BusinessRequestID r) (business_requests db) \<noteq> None"
    by (auto simp: find_row_None_iff)
  then obtain b where b: "find_row (\<lambda>b. bq_TenantID b = run_TenantID r \<and> bq_ID b = run_BusinessRequestID r) (business_requests db) = Some b" by blast
  have "b \<in> set (business_requests db)" "bizID b = (run_TenantID r, run_BusinessRequestID r)" using find_row_SomeD [OF b] by auto
  with adm scopes have accs: "{bq_FamilyAccountID b, bq_TenantAccountID b, bq_BatchAccountID b} \<subseteq> accID ` set (budget_accounts db)"
    and right: "\<forall>x \<in> set (budget_accounts db). (accID x = bq_FamilyAccountID b \<longrightarrow> ac_Scope (br_Account x) = ''family'') \<and>
        (accID x = bq_TenantAccountID b \<longrightarrow> ac_Scope (br_Account x) = ''tenant'') \<and>
        (accID x = bq_BatchAccountID b \<longrightarrow> ac_Scope (br_Account x) = ''batch'')"
    by (simp_all add: admission_ok_def scopesRight_def)
  have found: "\<exists>x \<in> set (budget_accounts db). find_row (\<lambda>x. accID x = i) (budget_accounts db) = Some x \<and> accID x = i"
    if "i \<in> accID ` set (budget_accounts db)" for i
  proof -
    have "find_row (\<lambda>x. accID x = i) (budget_accounts db) \<noteq> None" using that by (auto simp: find_row_None_iff)
    then obtain x where "find_row (\<lambda>x. accID x = i) (budget_accounts db) = Some x" by blast
    with find_row_SomeD [OF this] show ?thesis by auto
  qed
  from accs found obtain f t e where
    "f \<in> set (budget_accounts db)" "find_row (\<lambda>x. accID x = bq_FamilyAccountID b) (budget_accounts db) = Some f" "accID f = bq_FamilyAccountID b"
    "t \<in> set (budget_accounts db)" "find_row (\<lambda>x. accID x = bq_TenantAccountID b) (budget_accounts db) = Some t" "accID t = bq_TenantAccountID b"
    "e \<in> set (budget_accounts db)" "find_row (\<lambda>x. accID x = bq_BatchAccountID b) (budget_accounts db) = Some e" "accID e = bq_BatchAccountID b"
    by (metis insert_subset)
  then show ?thesis using b right by (simp add: loadAccounts_def Let_def)
qed

lemma lockClosing_succeeds:
  assumes inv: "store_inv db" "attempts_inv db" and x: "(r, a) \<in> set (runs db)" "active (run_State r)" and data: "closable cfg r a db"
  shows "\<exists>res. lockClosingAttemptResources cfg r a db = Inr res"
proof -
  from data obtain p where p: "profileStored r db p" "pf_ConfirmedStepRecovery p \<longrightarrow> scopesRight r db \<and> pendingValid cfg r a"
    unfolding closable_def by blast
  then have profile: "ledgerProfile cfg r False db = Inr p" by (auto simp: profileStored_def ledgerProfile_def)
  from lockAttemptResources_succeeds [OF inv x] obtain res where res: "lockAttemptResources r a db = Inr res" by (auto simp: isOk_iff)
  have "0 \<le> run_CursorVersion r" using store_inv_parts(4) [OF inv(1)] x(1) by (auto simp: steps_inv_def cursor_ok_def runcore_def)
  then have "CheckStep (cfg_parseUUID cfg) r a (PendingStep r a) = Inr ()" if "pendingValid cfg r a"
    using that by (simp add: CheckStep_def PendingStep_def pendingValid_def)
  moreover have "\<exists>accs. loadAccounts (run_TenantID r) (run_BusinessRequestID r) db = Inr accs" if "scopesRight r db"
    using loadAccounts_succeeds [OF inv(1) x(1) that] by (auto simp: isOk_iff)
  ultimately show ?thesis using p(2) res by (cases "pf_ConfirmedStepRecovery p") (auto simp: lockClosingAttemptResources_def profile)
qed

section \<open>Closing cannot fail halfway\<close>

lemma saveSlots_release:
  "(\<And>s. s \<in> set ss \<Longrightarrow> 1 \<le> sl_Used s \<and> sl_Used s \<le> sl_Capacity s) \<Longrightarrow> \<exists>db'. saveSlots ss (- 1) db = Inr db'"
proof (induction ss arbitrary: db)
  case (Cons s ss)
  have "1 \<le> sl_Used s" "sl_Used s \<le> sl_Capacity s" using Cons.prems [of s] by simp_all
  then have "\<not> (sl_Used s - 1 < 0 \<or> sl_Capacity s < sl_Used s - 1)" by simp
  then show ?case using Cons.IH Cons.prems by (simp add: Let_def)
qed simp

text \<open>An active Run occupies its slots, so their counters are positive.\<close>

lemma occupied_slots:
  assumes inv: "lifecycle_inv db" and x: "(r, a) \<in> set (runs db)" "active (run_State r)" and res: "resources_of r a db res"
    and s: "s \<in> set (ar_Slots res)"
  shows "1 \<le> sl_Used s \<and> sl_Used s \<le> sl_Capacity s"
proof -
  have row: "find_row (slotKey (skey s)) (execution_slots db) = Some s" and keys: "map skey (ar_Slots res) = slotKeys r (au_WorkerID a)"
    using res s by (auto simp: resources_of_def)
  have key: "skey s \<in> set (slotKeys r (au_WorkerID a))" unfolding keys [symmetric] using s by simp
  have "occupies (skey s) (r, a)" using x(2) key by (simp add: occupies_def)
  then have "0 < load (skey s) db" using x(1) unfolding load_def count_where_def by (auto simp: filter_empty_conv)
  moreover have "sl_Used s = slot_used (skey s) (execution_slots db)" using row by (simp add: slot_used_def)
  moreover have "sl_Used s \<le> sl_Capacity s"
    using inv_parts(2) [OF inv] find_row_SomeD [OF row] by (auto simp: slot_rows_ok_def)
  ultimately show ?thesis using inv_parts(6) [OF inv, of "skey s"] by simp
qed

lemma closeAttemptRecords_succeeds:
  assumes inv: "lifecycle_inv db" and x: "(r0, a) \<in> set (runs db)" "active (run_State r0)" and res: "resources_of r0 a db res"
    and r: "same_row r0 r" "au_FencingToken a1 = au_FencingToken a" and no: "recoveryEvidence r res outcome = Inr (step, ordinal)"
  shows "\<exists>r' a' db'. closeAttemptRecords r a1 res outcome now db = Inr (r', a', db')"
proof -
  define db1 where "db1 = markCalls r res db"
  define db2 where "db2 = db1\<lparr>run_attempts := update_where (\<lambda>x. attemptKey r (ar_AttemptNo res) x \<and> ra_finished x = None)
      (closedAttempt now outcome r step ordinal) (run_attempts db1)\<rparr>"
  have num: "run_AttemptNo r = ar_AttemptNo res" "au_FencingToken a1 = au_FencingToken (ar_Authority res)"
    using res r by (simp_all add: resources_of_def same_row_def)
  from inv_parts(5) [OF inv x(1)] x(2) obtain y where "y \<in> set (run_attempts db)" "akey y = (rkey (r0, a), run_AttemptNo r0)" "ra_finished y = None"
    by (auto simp: row_attempts_def)
  then have "list_ex (\<lambda>x. attemptKey r (ar_AttemptNo res) x \<and> ra_finished x = None) (run_attempts db1)"
    using num(1) r(1) by (auto simp: list_ex_iff db1_def akey_def rkey_def same_row_def)
  moreover from saveSlots_release [of "ar_Slots res" db2] occupied_slots [OF inv x res] obtain db' where "saveSlots (ar_Slots res) (- 1) db2 = Inr db'" by blast
  ultimately show ?thesis using num no by (simp add: closeAttemptRecords_def Let_def db1_def [symmetric] db2_def)
qed

lemma recordRun_succeeds:
  assumes "au_EventSequence a < MaxSafeInteger" "y \<in> set (runs db)" "rkey y = rkey (r, a)"
  shows "\<exists>db' a'. recordRun clk r a kind now db = Inr db' \<and> (stamped clk r, a') \<in> set (runs db')"
proof -
  from assms(1) obtain db' where rec: "recordRun clk r a kind now db = Inr db'"
    by (simp add: recordRun_def appendEvent_def Let_def)
  from recordRun_effect [OF rec] obtain n evs where
    "db' = db\<lparr>runs := putRun (stamped clk r, a\<lparr>au_EventSequence := n\<rparr>) (runs db), run_events := evs\<rparr>" by blast
  moreover have "rkey y = rkey (stamped clk r, a\<lparr>au_EventSequence := n\<rparr>)" using assms(3) by (simp add: rkey_def)
  ultimately have "(stamped clk r, a\<lparr>au_EventSequence := n\<rparr>) \<in> set (runs db')" using set_putRun [OF assms(2)] by simp
  with rec show ?thesis by blast
qed

text \<open>The Run with a key is terminal.\<close>

definition ended :: "run_db \<Rightarrow> string \<times> string \<Rightarrow> bool" where
  "ended db k \<longleftrightarrow> (\<exists>x \<in> set (runs db). rkey x = k \<and> Terminal (run_State (fst x)))"

lemma CloseAttempt_overdue:
  assumes ok: "run_ok r a" and stop: "run_State r = Stopping" "run_StopReason r = Some reason" and due: "run_RunDeadline r \<le> now"
  shows "\<exists>outcome r1 a1. CloseAttempt r a reason now = Inr (outcome, r1, a1) \<and> Terminal (run_State r1) \<and>
     \<not> (\<exists>code. RecoveryClosure outcome code)"
proof -
  have "reason \<in> set stopReasons" using ok stop by (auto simp: run_ok_def)
  moreover have "validCloseReason s" if "s \<in> set stopReasons" for s
    using that by (auto simp: validCloseReason_def recoverableReason_def stopReasons_def reason_defs)
  ultimately show ?thesis using ok stop due
    by (simp add: CloseAttempt_def Let_def run_ok_def RecoveryClosure_def finishRun_def)
qed

lemma closeRun_overdue:
  assumes inv: "lifecycle_inv db" and x: "(r0, a) \<in> set (runs db)" "active (run_State r0)"
    and res: "lockClosingAttemptResources cfg r0 a db = Inr res" and r: "same_run r0 r" "run_ok r a"
    and stop: "run_State r = Stopping" "run_StopReason r = Some reason" "run_RunDeadline r \<le> now" and ev: "au_EventSequence a < MaxSafeInteger"
  shows "\<exists>outcome db'. closeRun clk r a res reason now db = Inr (outcome, db') \<and> ended db' (rkey (r0, a))"
proof -
  from CloseAttempt_overdue [OF r(2) stop] obtain outcome r1 a1 where
    cl: "CloseAttempt r a reason now = Inr (outcome, r1, a1)" "Terminal (run_State r1)" "\<And>code. \<not> RecoveryClosure outcome code" by blast
  have row: "same_row r0 r1" using cl(1) r(1)
    by (cases rule: CloseAttempt_cases) (auto simp: same_run_row same_row_def finishRun_def)
  have a1: "a1 = a\<lparr>au_WorkerID := '''', au_SessionID := '''', au_ActiveCallID := None\<rparr>" using CloseAttempt_authority [OF cl(1)] by simp
  have "recoveryEvidence r1 res outcome = Inr (None, None)" using cl(3) by (simp add: recoveryEvidence_def split: option.split)
  note resources = lockClosing_effect [OF res inv_parts(2) [OF inv]]
  from closeAttemptRecords_succeeds [OF inv x resources row, of a1 outcome None None now] a1 \<open>recoveryEvidence r1 res outcome = Inr (None, None)\<close>
  obtain r2 a2 db1 where rec: "closeAttemptRecords r1 a1 res outcome now db = Inr (r2, a2, db1)" by auto
  note c = closeAttemptRecords_calm [OF rec]
  have key: "rkey (r0, a) = rkey (r2, a2)" using row c(4) by (simp add: rkey_def same_row_def)
  have "\<exists>db' a'. recordRun clk r2 a2 ''attempt_closed'' now db1 = Inr db' \<and> (stamped clk r2, a') \<in> set (runs db')"
    by (rule recordRun_succeeds [OF _ _ key]) (use ev a1 c x in simp_all)
  then obtain db' a' where fin: "recordRun clk r2 a2 ''attempt_closed'' now db1 = Inr db'" "(stamped clk r2, a') \<in> set (runs db')" by blast
  have "ended db' (rkey (r0, a))" unfolding ended_def
    by (rule bexI [OF _ fin(2)]) (use cl(2) c(4) key in \<open>simp add: rkey_def\<close>)
  with cl(1) rec fin(1) show ?thesis by (simp add: closeRun_def)
qed

section \<open>The sweep of an overdue Run\<close>

lemma stopIfDue_overdue:
  assumes "run_ok r a" "active (run_State r)" "run_RunDeadline r \<le> now"
  shows "\<exists>r1 reason. stopIfDue r now = Inr r1 \<and> run_State r1 = Stopping \<and> run_StopReason r1 = Some reason \<and>
     run_RunDeadline r1 = run_RunDeadline r \<and> run_LeaseUntil r1 = run_LeaseUntil r"
  using assms by (auto simp: stopIfDue_def RequestStop_def run_ok_def reason_defs)

lemma sweepRun_overdue_active:
  assumes inv: "lifecycle_inv db" and x: "(r, a) \<in> set (runs db)" "active (run_State r)" and due: "run_RunDeadline r \<le> now"
    and res: "lockClosingAttemptResources cfg r a db = Inr res" and ev: "au_EventSequence a < MaxSafeInteger"
  shows "\<exists>db'. sweepRun cfg (run_TenantID r) (run_ID r) now clk db = Inr (True, db') \<and> ended db' (rkey (r, a))"
proof -
  have ok: "run_ok r a" using inv_parts(4) [OF inv x(1)] by simp
  from stopIfDue_overdue [OF ok x(2) due] obtain r1 reason where stop: "stopIfDue r now = Inr r1" "run_State r1 = Stopping"
    "run_StopReason r1 = Some reason" "run_RunDeadline r1 = run_RunDeadline r" "run_LeaseUntil r1 = run_LeaseUntil r" by blast
  note e = stopIfDue_effect [OF stop(1) ok]
  obtain l where l: "run_LeaseUntil r = Some l" "l \<le> now" using ok x(2) due by (fastforce simp: run_ok_def)
  have row: "find_row (runKey (run_TenantID r) (run_ID r)) (runs db) = Some (r, a)"
    using find_row_Some_iff [OF inv_parts(1) [OF inv], of "rkey (r, a)" "(r, a)"] x(1) by (simp add: runKey_eq) (simp add: rkey_def)
  from closeRun_overdue [OF inv x res e(1,2) stop(2,3) _ ev, of now clk] due stop(4) obtain outcome db' where
    cl: "closeRun clk r1 a res reason now db = Inr (outcome, db')" "ended db' (rkey (r, a))" by auto
  then show ?thesis using row x(2) res stop l by (auto simp: sweepRun_def)
qed

lemma sweepRun_overdue_waiting:
  assumes inv: "lifecycle_inv db" and x: "(r, a) \<in> set (runs db)" "\<not> active (run_State r)" "\<not> Terminal (run_State r)"
    and due: "run_RunDeadline r \<le> now" and ev: "au_EventSequence a < MaxSafeInteger"
  shows "\<exists>db'. sweepRun cfg (run_TenantID r) (run_ID r) now clk db = Inr (True, db') \<and> ended db' (rkey (r, a))"
proof -
  have row: "find_row (runKey (run_TenantID r) (run_ID r)) (runs db) = Some (r, a)"
    using find_row_Some_iff [OF inv_parts(1) [OF inv], of "rkey (r, a)" "(r, a)"] x(1) by (simp add: runKey_eq) (simp add: rkey_def)
  have waiting: "run_State r \<in> {Ready, RetryWait, AwaitingApproval}" using x(2,3) by (cases "run_State r") auto
  have "\<exists>r1. ExpireWaiting r now = Inr r1 \<and> Terminal (run_State r1)"
    by (cases "run_CancelRequestedAt r") (use waiting due in \<open>auto simp: ExpireWaiting_def finishRun_def\<close>)
  then obtain r1 where ex: "ExpireWaiting r now = Inr r1" "Terminal (run_State r1)" by blast
  have key: "rkey (r, a) = rkey (r1, a)" using ExpireWaiting_effect(1) [OF ex(1)] by (simp add: rkey_def same_run_def)
  from recordRun_succeeds [OF ev x(1) key, of clk "''state_changed''" now] obtain db' a' where
    rec: "recordRun clk r1 a ''state_changed'' now db = Inr db'" "(stamped clk r1, a') \<in> set (runs db')" by blast
  have "ended db' (rkey (r, a))" unfolding ended_def by (rule bexI [OF _ rec(2)]) (use ex(2) key in \<open>simp add: rkey_def\<close>)
  moreover have "run_State r \<noteq> run_State r1" using ex(2) x(3) by auto
  ultimately show ?thesis using row waiting ex rec(1) x(3) by (auto simp: sweepRun_def)
qed

end
