(* ===== verification/RunProps.thy ===== *)
theory RunProps
  imports RunScenario2 RunLiveness
begin

text \<open>
  The properties of the Run store that hold in every reachable database, each with the scenario's
  database as its witness, and what a client of one operation relies on: replays, the sweep of an
  overdue Run, the order of a tool's calls.
\<close>

section \<open>Reachable databases\<close>

definition reachable_store :: "store_config \<Rightarrow> run_db \<Rightarrow> bool" where
  "reachable_store cfg = reachable any_start (any_step cfg)"

lemma reachable_store_inv: "reachable_store cfg db \<Longrightarrow> store_inv db"
  unfolding reachable_store_def by (rule run_store.invariant)

lemmas reachable_parts = store_inv_parts [OF reachable_store_inv]

lemma reachable_attempts: "reachable_store cfg db \<Longrightarrow> attempts_inv db"
  unfolding reachable_store_def by (drule attempted_store.invariant) simp

lemma demo_next:
  "reachable_store demo_cfg db \<Longrightarrow> store_step demo_cfg demo_rc demo_cc db db' \<Longrightarrow> reachable_store demo_cfg db'"
  unfolding reachable_store_def by (erule reachable_step) (rule any_stepI [OF demo_config])

lemma demo_ready_reachable: "reachable_store demo_cfg demo_ready"
proof -
  note setup_next = demo_next [OF _ store_step.on_setup]
  have "reachable_store demo_cfg empty_store" unfolding reachable_store_def by (rule reachable_start) simp
  note setup_next [OF this setup_step.budget [OF demo_create(1)]]
  note setup_next [OF this setup_step.budget [OF demo_create(2)]]
  note setup_next [OF this setup_step.bind [OF demo_bind]]
  note setup_next [OF this setup_step.profiles [OF demo_profiles]]
  note setup_next [OF this setup_step.admit [OF demo_admit]]
  then show ?thesis using demo_next [OF _ store_step.on_lifecycle [OF lifecycle_step.register [OF demo_register]]] by blast
qed

lemma demo_claimed_reachable: "reachable_store demo_cfg demo_claimed"
  by (rule demo_next [OF demo_ready_reachable store_step.on_lifecycle [OF lifecycle_step.claim [OF demo_claim]]])

lemma demo_committed_reachable: "reachable_store demo_cfg demo_committed"
  by (rule demo_next [OF demo_claimed_reachable demo_committed_step])

section \<open>Slots and attempts\<close>

text \<open>C3. In every reachable database the counter of every execution slot (worker, tenant or
  profile) is exactly the number of active Runs (\<open>running\<close> or \<open>stopping\<close>) that occupy the slot, and it
  never exceeds the capacity: no Run leaks a slot and none runs without one.\<close>

theorem slots_exact:
  assumes "reachable_store cfg db" and "s \<in> set (execution_slots db)"
  shows "sl_Used s = int (length (filter (\<lambda>(r, a). active (run_State r) \<and> (sl_Kind s, sl_ID s) \<in> set (slotKeys r (au_WorkerID a))) (runs db)))
     \<and> sl_Used s \<le> sl_Capacity s"
proof -
  have ok: "slots_ok db" using reachable_parts(1) [OF assms(1)] by (simp add: lifecycle_inv_def)
  then have "find_row (slotKey (skey s)) (execution_slots db) = Some s"
    unfolding slotKey_eq using find_row_Some_iff [of skey "execution_slots db" "skey s" s] assms(2) by (simp add: slots_ok_def)
  then have "slot_used (skey s) (execution_slots db) = sl_Used s" by (simp only: slot_used_def) simp
  then have "sl_Used s = load (skey s) db" using ok unfolding slots_ok_def by metis
  moreover have "load (skey s) db = int (length (filter (\<lambda>(r, a). active (run_State r) \<and> (sl_Kind s, sl_ID s) \<in> set (slotKeys r (au_WorkerID a))) (runs db)))"
    by (simp add: load_def count_where_def occupies_def [abs_def] case_prod_unfold skey_def)
  moreover have "sl_Used s \<le> sl_Capacity s" using ok assms(2) unfolding slots_ok_def by blast
  ultimately show ?thesis by simp
qed

theorem slots_exact_witness:
  "hd demo_slots \<in> set (execution_slots demo_committed) \<and> sl_Used (hd demo_slots) = 1 \<and> sl_Used (hd demo_slots) \<le> sl_Capacity (hd demo_slots)"
proof -
  have "hd demo_slots \<in> set (execution_slots demo_committed)" by (simp add: demo_committed_def demo_slots_def)
  with slots_exact [OF demo_committed_reachable this] show ?thesis by (simp add: demo_slots_def)
qed

text \<open>C7. In every reachable database an active Run has exactly one open attempt, the attempt of its
  current number, held by the worker and session and under the fencing token of the Run; a Run
  that is not active has no open attempt.\<close>

theorem one_open_attempt:
  assumes "reachable_store cfg db" and "(r, a) \<in> set (runs db)"
  shows "(active (run_State r) \<longleftrightarrow> (\<exists>y \<in> set (run_attempts db). ra_tenant y = run_TenantID r \<and> ra_run y = run_ID r \<and> ra_finished y = None)) \<and>
     (\<forall>y \<in> set (run_attempts db). ra_tenant y = run_TenantID r \<and> ra_run y = run_ID r \<and> ra_finished y = None \<longrightarrow>
        ra_no y = run_AttemptNo r \<and> ra_worker y = au_WorkerID a \<and> ra_session y = au_SessionID a \<and> ra_token y = au_FencingToken a) \<and>
     distinct (map (\<lambda>y. (ra_tenant y, ra_run y, ra_no y)) (run_attempts db))"
proof -
  note inv = reachable_parts(1) [OF assms(1)]
  have row: "row_attempts (run_attempts db) (r, a)" using inv_parts(5) [OF inv assms(2)] .
  have "distinct (map akey (run_attempts db))" using inv by (simp add: lifecycle_inv_def attempt_rows_ok_def)
  then have "distinct (map (\<lambda>y. (ra_tenant y, ra_run y, ra_no y)) (run_attempts db))"
    by (simp add: distinct_map inj_on_def akey_def)
  with row show ?thesis by (auto simp: row_attempts_def akey_def rkey_def)
qed

theorem one_open_attempt_witness:
  "(demo_run1, demo_auth1) \<in> set (runs demo_claimed) \<and>
   (\<exists>y \<in> set (run_attempts demo_claimed). ra_tenant y = ''t1'' \<and> ra_run y = ''r1'' \<and> ra_finished y = None)"
proof -
  have "(demo_run1, demo_auth1) \<in> set (runs demo_claimed)" by simp
  with one_open_attempt [OF demo_claimed_reachable this] show ?thesis by simp
qed

section \<open>Budgets\<close>

text \<open>C2. In every reachable database every budget account is within its limits in every
  dimension; the tokens and the cost it holds are exactly the sums over the physical calls that are
  not settled and are charged to it, and what it has used is what is known plus what is held.\<close>

theorem accounts_balance:
  assumes "reachable_store cfg db" and "x \<in> set (budget_accounts db)"
  shows "within (ac_Used (br_Account x)) (ac_Limits (br_Account x)) \<and>
     ac_HeldTokens (br_Account x) = heldTokens db (ac_ID (br_Account x)) \<and>
     ac_HeldCostMicroyuan (br_Account x) = heldCost db (ac_ID (br_Account x)) \<and>
     us_Tokens (ac_Used (br_Account x)) = ac_KnownTokens (br_Account x) + ac_HeldTokens (br_Account x) \<and>
     us_CostMicroyuan (ac_Used (br_Account x)) = ac_KnownCostMicroyuan (br_Account x) + ac_HeldCostMicroyuan (br_Account x)"
  using ledger_parts(4) [OF reachable_parts(2) [OF assms(1)] assms(2)] by (simp add: account_ok_def account_inv_def)

theorem accounts_balance_witness:
  "demo_family \<in> set (budget_accounts demo_committed) \<and> within (ac_Used (br_Account demo_family)) (ac_Limits (br_Account demo_family))"
proof -
  have "demo_family \<in> set (budget_accounts demo_committed)" by (simp add: demo_committed_def)
  with accounts_balance [OF demo_committed_reachable this] show ?thesis by simp
qed

section \<open>Business requests and retries\<close>

lemma map_filter_once:
  "distinct (List.map_filter f xs) \<Longrightarrow> x \<in> set xs \<Longrightarrow> y \<in> set xs \<Longrightarrow> f x = Some v \<Longrightarrow> f y = Some v \<Longrightarrow> x = y"
  by (rule inj_onD [of "the \<circ> f" "set (filter (\<lambda>x. f x \<noteq> None) xs)"]) (simp_all add: map_filter_def distinct_map)

text \<open>C9. In every reachable database the business requests of a tenant have distinct keys, a
  business request has exactly one root Run, and a Run is the source of at most one retry, which
  belongs to the same business request.\<close>

theorem one_root_run:
  assumes "reachable_store cfg db" and "b \<in> set (business_requests db)"
  shows "(\<exists>!k. \<exists>x \<in> set (runs db). rkey x = k \<and> run_TenantID (fst x) = bq_TenantID b \<and> run_BusinessRequestID (fst x) = bq_ID b \<and>
       run_RetryOfRunID (fst x) = None) \<and>
     (\<forall>b' \<in> set (business_requests db). bq_TenantID b' = bq_TenantID b \<longrightarrow> bq_Key b' = bq_Key b \<longrightarrow> b' = b) \<and>
     (\<forall>x \<in> set (runs db). \<forall>y \<in> set (runs db). run_RetryOfRunID (fst x) \<noteq> None \<longrightarrow> run_RetryOfRunID (fst x) = run_RetryOfRunID (fst y) \<longrightarrow> rkey x = rkey y) \<and>
     (\<forall>x \<in> set (runs db). \<forall>s. run_RetryOfRunID (fst x) = Some s \<longrightarrow>
        (\<exists>y \<in> set (runs db). rkey y = (run_TenantID (fst x), s) \<and> run_BusinessRequestID (fst y) = run_BusinessRequestID (fst x)))"
proof -
  have adm: "admission_ok (map bizkey (runs db)) (business_requests db) (map accID (budget_accounts db))"
    using reachable_parts(3) [OF assms(1)] by (simp add: admission_inv_def)
  have fam: "family_ok (map bizkey (runs db)) b" using adm assms(2) by (simp add: admission_ok_def)
  have "((bq_TenantID b, bq_RootRunID b), (bq_ID b, None)) \<in> bizkey ` set (runs db)" using fam by (simp add: family_ok_def)
  then have "\<exists>x \<in> set (runs db). rkey x = (bq_TenantID b, bq_RootRunID b) \<and> run_BusinessRequestID (fst x) = bq_ID b \<and> run_RetryOfRunID (fst x) = None"
    by (auto simp: image_iff bizkey_def)
  moreover have only: "\<And>x. x \<in> set (runs db) \<Longrightarrow> run_TenantID (fst x) = bq_TenantID b \<Longrightarrow> run_BusinessRequestID (fst x) = bq_ID b \<Longrightarrow>
      run_RetryOfRunID (fst x) = None \<Longrightarrow> run_ID (fst x) = bq_RootRunID b"
    using fam by (fastforce simp: family_ok_def bizkey_def rkey_def)
  ultimately have root: "\<exists>!k. \<exists>x \<in> set (runs db). rkey x = k \<and> run_TenantID (fst x) = bq_TenantID b \<and> run_BusinessRequestID (fst x) = bq_ID b \<and>
       run_RetryOfRunID (fst x) = None"
    by (intro ex1I [of _ "(bq_TenantID b, bq_RootRunID b)"]) (auto simp: rkey_def)
  have keys: "b' = b" if "b' \<in> set (business_requests db)" "bq_TenantID b' = bq_TenantID b" "bq_Key b' = bq_Key b" for b'
    using adm assms(2) that by (auto simp: admission_ok_def distinct_map inj_on_def)
  have once: "rkey x = rkey y" if "x \<in> set (runs db)" "y \<in> set (runs db)" "run_RetryOfRunID (fst x) \<noteq> None" "run_RetryOfRunID (fst x) = run_RetryOfRunID (fst y)" for x y
  proof -
    from that(3) obtain s where "run_RetryOfRunID (fst x) = Some s" by blast
    with map_filter_once [of "\<lambda>x. snd (snd x)" "map bizkey (runs db)" "bizkey x" "bizkey y" s] adm that(1,2,4) show ?thesis
      by (simp add: admission_ok_def retries_def) (simp add: bizkey_def)
  qed
  have family: "\<exists>y \<in> set (runs db). rkey y = (run_TenantID (fst x), s) \<and> run_BusinessRequestID (fst y) = run_BusinessRequestID (fst x)"
    if x: "x \<in> set (runs db)" "run_RetryOfRunID (fst x) = Some s" for x s
  proof -
    have "run_identity_ok (map bizkey (runs db)) (business_requests db) (bizkey x)" using adm x(1) by (simp add: admission_ok_def)
    then obtain r where "((run_TenantID (fst x), s), (run_BusinessRequestID (fst x), r)) \<in> bizkey ` set (runs db)"
      using x(2) by (auto simp: run_identity_ok_def bizkey_def rkey_def)
    then show ?thesis by (auto simp: bizkey_def)
  qed
  show ?thesis
    by (intro conjI ballI allI impI root keys family once) assumption+
qed

theorem one_root_run_witness:
  "demo_business \<in> set (business_requests demo_committed) \<and>
   (\<exists>!k. \<exists>x \<in> set (runs demo_committed). rkey x = k \<and> run_TenantID (fst x) = ''t1'' \<and> run_BusinessRequestID (fst x) = ''q1'' \<and> run_RetryOfRunID (fst x) = None)"
proof -
  have "demo_business \<in> set (business_requests demo_committed)" by (simp add: demo_committed_def)
  moreover have "bq_TenantID demo_business = ''t1''" "bq_ID demo_business = ''q1''" by (simp_all add: demo_business_def)
  ultimately show ?thesis using conjunct1 [OF one_root_run [OF demo_committed_reachable]] by metis
qed

section \<open>Fencing and progress\<close>

text \<open>C1. Once the fencing token of a Run has passed the token of a lease, none of the twelve operations
  of the executing worker that need the current lease (HeartbeatExecution, FailExecution,
  AcknowledgeStop, GetCheckpoint, BeginTool, ReserveCall, ObserveCall, commitStep, GetAction,
  AuthorizeAction, ReserveActionCall, CompleteAction) succeeds under that lease, now or after any
  further transactions of the store. The two late reports that the code accepts under an old lease,
  SettleUsage and ObserveActionCall, change no Run, attempt, slot or step: the second leaves the whole
  Run database as it is but for the list of permitted action calls.\<close>

theorem superseded_lease_refused:
  assumes "reachable_store cfg db" and "ls_FencingToken lease < fencing db (ls_TenantID lease, ls_RunID lease)"
    and "(any_step cfg)\<^sup>*\<^sup>* db db'"
  shows "\<not> executes cfg db' lease \<and>
     (\<forall>caller req now settled db2. su_Lease req = lease \<and> SettleUsage cfg caller req now db' = Inr (settled, db2) \<longrightarrow>
        runs db2 = runs db' \<and> run_attempts db2 = run_attempts db' \<and> execution_slots db2 = execution_slots db' \<and> run_steps db2 = run_steps db') \<and>
     (\<forall>caller req now seen t db2 t2. oac_Lease req = lease \<and> ObserveActionCall cfg caller req now (db', t) = Inr (seen, (db2, t2)) \<longrightarrow>
        db2 = db'\<lparr>action_calls := action_calls db2\<rparr>)"
proof (intro conjI allI impI)
  have inv: "store_inv db'" by (rule run_store.invariant_steps [OF reachable_store_inv [OF assms(1)] assms(3)])
  show "\<not> executes cfg db' lease"
  proof
    assume "executes cfg db' lease"
    then have "admits_lease cfg db' (ls_TenantID lease, ls_RunID lease) (ls_FencingToken lease)" unfolding admits_lease_def by blast
    with run_fence.superseded_for_ever [OF reachable_store_inv [OF assms(1)] assms(2,3)] show False by blast
  qed
  fix caller :: string and req :: SettleUsageRequest and now settled db2
  assume "su_Lease req = lease \<and> SettleUsage cfg caller req now db' = Inr (settled, db2)"
  with SettleUsage_late [OF inv] show "runs db2 = runs db'" "run_attempts db2 = run_attempts db'"
    "execution_slots db2 = execution_slots db'" "run_steps db2 = run_steps db'" by blast+
next
  fix caller :: string and req :: ObserveActionCallRequest and now seen t db2 t2
  assume "oac_Lease req = lease \<and> ObserveActionCall cfg caller req now (db', t) = Inr (seen, (db2, t2))"
  with ObserveActionCall_run [of cfg caller req now "(db', t)" seen "(db2, t2)"] show "db2 = db'\<lparr>action_calls := action_calls db2\<rparr>" by auto
qed

theorem superseded_lease_refused_witness: "\<not> executes demo_cfg demo_committed (demo_lease\<lparr>ls_FencingToken := 0\<rparr>)"
proof (rule conjunct1 [OF superseded_lease_refused [OF demo_claimed_reachable]])
  show "ls_FencingToken (demo_lease\<lparr>ls_FencingToken := 0\<rparr>) <
      fencing demo_claimed (ls_TenantID (demo_lease\<lparr>ls_FencingToken := 0\<rparr>), ls_RunID (demo_lease\<lparr>ls_FencingToken := 0\<rparr>))"
    by (simp add: fencing_def rkey_def)
  show "(any_step demo_cfg)\<^sup>*\<^sup>* demo_claimed demo_committed"
    by (rule r_into_rtranclp) (rule any_stepI [OF demo_config demo_committed_step])
qed

lemma rows_grow_steps:
  assumes "(any_step cfg)\<^sup>*\<^sup>* db db'" "store_inv db"
  shows "rows_grow (runs db) (runs db')"
  using assms
proof (induction rule: rtranclp_induct)
  case (step y z)
  have "store_inv y" using run_store.invariant_steps [OF step.prems step.hyps(1)] .
  with step.hyps(2) have "rows_grow (runs y) (runs z)" using any_step_preserves by blast
  with step.IH [OF step.prems] show ?case by (rule rows_grow_trans)
qed simp

text \<open>C11. Whatever the store does after a reachable database, a Run is never lost, its fencing
  token and its cursor never go back, and once it is terminal its state never changes again.\<close>

theorem runs_only_move_forward:
  assumes "reachable_store cfg db" and "(r, a) \<in> set (runs db)" and "(any_step cfg)\<^sup>*\<^sup>* db db'"
  shows "\<exists>r' a'. (r', a') \<in> set (runs db') \<and> run_TenantID r' = run_TenantID r \<and> run_ID r' = run_ID r \<and>
     au_FencingToken a \<le> au_FencingToken a' \<and> run_CursorVersion r \<le> run_CursorVersion r' \<and>
     (Terminal (run_State r) \<longrightarrow> run_State r' = run_State r)"
proof -
  from rows_grow_steps [OF assms(3) reachable_store_inv [OF assms(1)]] assms(2) obtain y where "y \<in> set (runs db')" "progress (r, a) y"
    unfolding rows_grow_def by blast
  then show ?thesis by (intro exI [of _ "fst y"] exI [of _ "snd y"]) (auto simp: progress_def rkey_def)
qed

theorem runs_only_move_forward_witness:
  "\<exists>r' a'. (r', a') \<in> set (runs demo_committed) \<and> run_TenantID r' = ''t1'' \<and> run_ID r' = ''r1'' \<and> 1 \<le> au_FencingToken a' \<and> 0 \<le> run_CursorVersion r'"
proof -
  have "(any_step demo_cfg)\<^sup>*\<^sup>* demo_claimed demo_committed"
    by (rule r_into_rtranclp) (rule any_stepI [OF demo_config demo_committed_step])
  from runs_only_move_forward [OF demo_claimed_reachable _ this, of demo_run1 demo_auth1] show ?thesis by auto
qed

text \<open>C8. In every reachable database the accepted steps of a Run are numbered exactly \<open>1\<close> to its
  cursor, in order, without gaps or repetitions, and there are at most 32.\<close>

theorem steps_are_consecutive:
  assumes "reachable_store cfg db" and "(r, a) \<in> set (runs db)"
  shows "map sr_Sequence (filter (\<lambda>s. sr_tenant s = run_TenantID r \<and> sr_run s = run_ID r) (run_steps db)) = [1..run_CursorVersion r] \<and>
     0 \<le> run_CursorVersion r \<and> run_CursorVersion r \<le> 32"
proof -
  have "cursor_ok (run_steps db) (runcore (r, a))" using reachable_parts(4) [OF assms(1)] assms(2) by (auto simp: steps_inv_def)
  then show ?thesis by (simp add: cursor_ok_def runcore_key stepsOf_def) (simp add: rkey_def)
qed

theorem steps_are_consecutive_witness:
  "(demo_run2, demo_auth2) \<in> set (runs demo_committed) \<and> run_CursorVersion demo_run2 = 1 \<and>
   map sr_Sequence (filter (\<lambda>s. sr_tenant s = ''t1'' \<and> sr_run s = ''r1'') (run_steps demo_committed)) = [1]"
proof -
  have "(demo_run2, demo_auth2) \<in> set (runs demo_committed)" by (simp add: demo_committed_def)
  with steps_are_consecutive [OF demo_committed_reachable this] show ?thesis by (simp add: demo_run2_def)
qed

section \<open>Replays of admission\<close>

lemma resolve_found:
  "findOperation tenant (admissionKind sourceID) sourceID key db = Some x \<Longrightarrow> op_RequestHash x = hash \<Longrightarrow>
   getView tenant (op_ResultRunID x) db = Inr r \<Longrightarrow> \<not> purged sourceID r \<Longrightarrow>
   resolveAdmission aliasID tenant key sourceID hash businessKey now db = Inr (Some r, db)"
  by (simp add: resolveAdmission_def)

lemma aliasAdmission_found:
  assumes "aliasAdmission aliasID tenant key sourceID hash resultID acceptedHash now db = Inr (Some r, db')"
  shows "\<exists>x. findOperation tenant (admissionKind sourceID) sourceID key db' = Some x \<and> op_RequestHash x = hash \<and>
    getView tenant (op_ResultRunID x) db' = Inr r \<and> \<not> purged sourceID r"
proof -
  define new where "new = newOperation aliasID tenant sourceID key hash resultID now"
  from assms obtain r0 where a: "getView tenant resultID db = Inr r0" "\<not> purged sourceID r0" "insertOperation new db = Inr db'"
    "getView tenant resultID db' = Inr r"
    unfolding aliasAdmission_def new_def by (auto simp: result_simps split: if_splits)
  from insertOperation_frame [OF a(3)] obtain ops where "db' = db\<lparr>run_operations := ops\<rparr>" by blast
  with a(1,4) have "r = r0" by (auto simp: getView_def lockRun_def result_simps split: option.splits)
  moreover from insertOperation_found [OF a(3)] obtain x where
    "findOperation (op_TenantID new) (op_Kind new) (op_SourceRunID new) (op_Key new) db' = Some x"
    "op_RequestHash x = op_RequestHash new" "op_ResultRunID x = op_ResultRunID new" by blast
  ultimately show ?thesis using a(2,4) by (simp add: new_def newOperation_def)
qed

lemma resolve_again:
  assumes "resolveAdmission aliasID tenant key sourceID hash businessKey now db = Inr (Some r, db')"
  shows "resolveAdmission aliasID' tenant key sourceID hash businessKey' now' db' = Inr (Some r, db')"
proof (cases "findOperation tenant (admissionKind sourceID) sourceID key db")
  case (Some x)
  with assms have "db' = db" "op_RequestHash x = hash" "getView tenant (op_ResultRunID x) db = Inr r" "\<not> purged sourceID r"
    by (auto simp: resolveAdmission_def result_simps split: if_splits)
  with Some resolve_found show ?thesis by blast
next
  case None
  then obtain resultID acceptedHash where "aliasAdmission aliasID tenant key sourceID hash resultID acceptedHash now db = Inr (Some r, db')"
    using assms by (auto simp: resolveAdmission_def result_simps split: if_splits option.splits)
  with aliasAdmission_found resolve_found show ?thesis by metis
qed

lemma accept_again:
  assumes "acceptRun cfg input b now clk db = Inr (view, db')"
  shows "resolveAdmission aliasID (ad_TenantID input) (ad_OperationKey input) (ad_SourceRunID input) (ad_RequestHash input) businessKey now' db' =
    Inr (Some view, db')"
proof -
  from assms obtain r a x where e: "run_ID r = ad_RunID input" "run_TenantID r = ad_TenantID input" "run_ContentPurgedAt r = None"
    "run_ID r \<notin> (\<lambda>x. run_ID (fst x)) ` set (runs db)" "runs db' = runs db @ [(r, a)]" "view = r"
    "findOperation (ad_TenantID input) (admissionKind (ad_SourceRunID input)) (ad_SourceRunID input) (ad_OperationKey input) db' = Some x"
    "op_RequestHash x = ad_RequestHash input" "op_ResultRunID x = run_ID r"
    by (rule acceptRun_effect)
  from assms obtain i where i: "getView (ad_TenantID input) i db' = Inr view" unfolding acceptRun_def by (auto simp: result_simps)
  then obtain a' where "lockRun (ad_TenantID input) i db' = Inr (view, a')" by (auto simp: getView_def result_simps)
  from lockRun_mem [OF this] i e(6) have "getView (ad_TenantID input) (run_ID r) db' = Inr r" by (simp add: rkey_def)
  with e(3,6-9) resolve_found [OF e(7,8), of r] show ?thesis by (simp add: purged_def)
qed

text \<open>C19. Admission is idempotent: when a submission or a retry has been answered with a Run, the
  same request, sent again with any fresh identifiers' operation id and at any later time, is
  answered with the same Run, marked as reused, and changes nothing.\<close>

theorem Admit_replay:
  assumes "Admit cfg ck aliasID input nowAlias now0 now clk db = Inr ((r, reused), db')"
  shows "Admit cfg ck aliasID' input nowAlias' now0' now' clk' db' = Inr ((r, True), db')"
proof -
  from assms obtain found db1 where valid: "validAdmission cfg ck input"
    and res: "resolveAdmission aliasID (ad_TenantID input) (ad_OperationKey input) (ad_SourceRunID input) (ad_RequestHash input)
      (sr_BusinessRequestKey (ad_Submit input)) nowAlias db = Inr (found, db1)"
    and new: "found = Some r \<and> db' = db1 \<or> found = None \<and> admitNew cfg ck input now0 now clk db1 = Inr (r, db')"
    unfolding Admit_def by (auto simp: result_simps split: if_splits option.splits)
  have "resolveAdmission aliasID' (ad_TenantID input) (ad_OperationKey input) (ad_SourceRunID input) (ad_RequestHash input)
      (sr_BusinessRequestKey (ad_Submit input)) nowAlias' db' = Inr (Some r, db')"
    using new
  proof (elim disjE conjE)
    assume "found = Some r" "db' = db1"
    with res resolve_again show ?thesis by blast
  next
    assume "admitNew cfg ck input now0 now clk db1 = Inr (r, db')"
    then obtain input' b db2 p where "input' = input\<lparr>ad_Profile := p\<rparr>" "acceptRun cfg input' b now clk db2 = Inr (r, db')"
      by (cases rule: admitNew_cases) blast+
    with accept_again [of cfg input' b now clk db2 r db'] show ?thesis by simp
  qed
  with valid show ?thesis by (simp add: Admit_def)
qed

theorem Admit_replay_witness:
  "Admit demo_cfg demo_ck ''x2'' demo_submit (2 * Hour) (2 * Hour) (2 * Hour) (2 * Hour) demo_admitted = Inr ((demo_run, True), demo_admitted)"
  by (rule Admit_replay [OF demo_admit])

section \<open>Overdue Runs end\<close>

text \<open>C21. Every Run ends: sweeping a Run of a reachable database at or after its deadline commits
  and leaves the Run in a terminal state, whatever state it was in, whoever holds its lease and
  whatever call is active. Two conditions on the stored data remain: an active Run is \<open>closable\<close>, that
  is its profile is stored under its identifier and hash and is valid and, if the profile asks for
  confirmed step recovery, the accounts of its business request have their scopes and its pending
  step is well formed with a step left; and the event sequence of the Run is not exhausted
  (\<open>2^53 - 1\<close> events).\<close>

theorem overdue_run_ends:
  assumes "reachable_store cfg db" and "(r, a) \<in> set (runs db)" and "run_RunDeadline r \<le> now" and "\<not> Terminal (run_State r)"
    and "active (run_State r) \<Longrightarrow> closable cfg r a db" and "au_EventSequence a < MaxSafeInteger"
  shows "\<exists>db'. sweepRun cfg (run_TenantID r) (run_ID r) now clk db = Inr (True, db') \<and> ended db' (run_TenantID r, run_ID r)"
proof (cases "active (run_State r)")
  case True
  from lockClosing_succeeds [OF reachable_store_inv [OF assms(1)] reachable_attempts [OF assms(1)] assms(2) True assms(5) [OF True]]
  obtain res where "lockClosingAttemptResources cfg r a db = Inr res" by blast
  with sweepRun_overdue_active [OF reachable_parts(1) [OF assms(1)] assms(2) True assms(3) _ assms(6)] show ?thesis by (simp add: rkey_def)
next
  case False
  with sweepRun_overdue_waiting [OF reachable_parts(1) [OF assms(1)] assms(2) False assms(4,3,6)] show ?thesis by (simp add: rkey_def)
qed

theorem overdue_run_ends_witness:
  "\<exists>db'. sweepRun demo_cfg ''t1'' ''r1'' (Hour + 600 * Second) (Hour + 600 * Second) demo_claimed = Inr (True, db') \<and> ended db' (''t1'', ''r1'')"
proof -
  have "profileStored demo_run1 demo_claimed (demo_profile\<lparr>pf_Executable := False\<rparr>)"
    using demo_ledgerProfile [of demo_claimed demo_run1 False] by (auto simp: profileStored_def ledgerProfile_def split: option.splits if_splits)
  moreover have "\<not> pf_ConfirmedStepRecovery (demo_profile\<lparr>pf_Executable := False\<rparr>)" by (simp add: demo_profile_def sample_profile_def)
  ultimately have "closable demo_cfg demo_run1 demo_auth1 demo_claimed" by (auto simp: closable_def)
  moreover have "\<not> Terminal (run_State demo_run1)" "au_EventSequence demo_auth1 < MaxSafeInteger" by (simp_all add: MaxSafeInteger_def)
  ultimately show ?thesis
    using overdue_run_ends [OF demo_claimed_reachable, of demo_run1 demo_auth1 "Hour + 600 * Second" "Hour + 600 * Second"] by simp
qed

section \<open>The calls of a tool\<close>

lemma sequencePosition_iff:
  "sequencePosition calls sequence = Some rest \<longleftrightarrow>
     length calls \<le> length sequence \<and> list_all2 subcallDone calls (take (length calls) sequence) \<and> rest = drop (length calls) sequence"
  by (induction calls sequence rule: sequencePosition.induct) auto

text \<open>For a call that belongs to a tool invocation the store grants exactly the next call of the
  tool's sequence: \<open>checkSubcall\<close> succeeds if and only if the calls made so far are the first calls
  of \<open>ToolSequence\<close>, in order, each answered and accepted, and the requested call is the one that
  follows.\<close>

theorem checkSubcall_next:
  assumes "rq_Subcall req \<noteq> SubcallChat" and "rq_ToolInvocationID req \<noteq> ''''"
    and "toolMatches t \<lparr>bg_Lease = rq_Lease req, bg_Step = rq_Step req, bg_ToolInvocationID = rq_ToolInvocationID req\<rparr>"
  shows "checkSubcall req (Some t) db = Inr () \<longleftrightarrow>
     (let calls = toolCalls (rq_Lease req) (rq_ToolInvocationID req) db; sequence = ToolSequence (st_Kind (rq_Step req)) in
        length calls < length sequence \<and> list_all2 subcallDone calls (take (length calls) sequence) \<and> sequence ! length calls = rq_Subcall req)"
proof -
  define calls where "calls = toolCalls (rq_Lease req) (rq_ToolInvocationID req) db"
  define sequence where "sequence = ToolSequence (st_Kind (rq_Step req))"
  have "checkSubcall req (Some t) db = Inr () \<longleftrightarrow> (\<exists>rest. sequencePosition calls sequence = Some (rq_Subcall req # rest))"
    using assms by (auto simp: checkSubcall_def calls_def sequence_def ensureE_def split: option.splits list.splits if_splits)
  also have "\<dots> \<longleftrightarrow> length calls < length sequence \<and> list_all2 subcallDone calls (take (length calls) sequence) \<and> sequence ! length calls = rq_Subcall req"
    unfolding sequencePosition_iff
    by (cases "length calls < length sequence") (auto simp: Cons_nth_drop_Suc [symmetric])
  finally show ?thesis by (simp add: calls_def sequence_def Let_def)
qed

theorem checkSubcall_next_witness:
  "checkSubcall \<lparr>rq_Lease = demo_lease, rq_Step = demo_step\<lparr>st_Kind := ''search_policy''\<rparr>, rq_PhysicalCallID = ''c1'', rq_ToolInvocationID = ''tool1'',
     rq_Subcall = SubcallProfileVersion, rq_ParameterHash = sample_hash, rq_PriceHash = sample_hash\<rparr>
     (Some \<lparr>tr_ID = ''tool1'', tr_TenantID = ''t1'', tr_RunID = ''r1'', tr_StepID = ''step1'', tr_Name = ''search_policy'', tr_InputHash = sample_hash,
       tr_AttemptNo = 1, tr_FencingToken = 1\<rparr>) demo_claimed = Inr ()"
  by (subst checkSubcall_next) (simp_all add: toolMatches_def demo_step_def toolCalls_def ToolSequence_def Let_def)

section \<open>Setting a budget up twice\<close>

lemma accounts_changed:
  assumes "accs \<noteq> budget_accounts db"
  shows "db\<lparr>budget_accounts := accs\<rparr> \<noteq> db"
proof
  assume "db\<lparr>budget_accounts := accs\<rparr> = db"
  from arg_cong [OF this, of budget_accounts] assms show False by simp
qed

text \<open>C37. Setting a budget up again never changes an account. It is accepted when the account was
  there before, or when the identifier is written the way the database prints it; a budget created
  under another spelling of its identifier (uppercase, braces) is a conflict from then on, although
  nothing about the request changed.\<close>

theorem CreateBudget_rerun:
  assumes "CreateBudget cfg pgUUID spec db = Inr db'"
  shows "CreateBudget cfg pgUUID spec db' = (if db' = db \<or> pgUUID (bs_ID spec) = Some (bs_ID spec) then Inr db' else Inl ErrConflict)"
proof (cases "find_row (\<lambda>x. ac_Scope (br_Account x) = bs_Scope spec \<and> br_Key x = bs_Key spec) (budget_accounts db)")
  case None
  define spec1 where "spec1 = spec\<lparr>bs_ValidFrom := truncateMicro (bs_ValidFrom spec), bs_ValidUntil := truncateMicro (bs_ValidUntil spec)\<rparr>"
  from assms None obtain i where i: "pgUUID (bs_ID spec) = Some i" "insertBudget (spec1\<lparr>bs_ID := i\<rparr>) db = Inr db'"
    by (auto simp: CreateBudget_def spec1_def Let_def split: if_splits option.splits)
  define x where "x = \<lparr>br_Account = emptyAccount i (bs_Scope spec) (bs_Limits spec), br_Key = bs_Key spec, br_ValidFrom = bs_ValidFrom spec1,
     br_ValidUntil = bs_ValidUntil spec1\<rparr>"
  have db': "db' = db\<lparr>budget_accounts := budget_accounts db @ [x]\<rparr>" using i(2) by (auto simp: insertBudget_def spec1_def x_def split: if_splits)
  then have "db' \<noteq> db" using accounts_changed [of "budget_accounts db @ [x]" db] by simp
  moreover have "find_row (\<lambda>x. ac_Scope (br_Account x) = bs_Scope spec \<and> br_Key x = bs_Key spec) (budget_accounts db') = Some x"
    using None by (simp add: db' find_row_append x_def emptyAccount_def)
  ultimately show ?thesis using assms i(1) None by (auto simp: CreateBudget_def x_def spec1_def Let_def emptyAccount_def split: if_splits)
next
  case (Some prior)
  with assms have "db' = db" by (auto simp: CreateBudget_def Let_def split: if_splits)
  with assms show ?thesis by simp
qed

theorem CreateBudget_rerun_witness:
  "CreateBudget demo_cfg (\<lambda>_. Some ''a1'') (demo_budget ''A1'' ''tenant'' ''t1'') (empty_store\<lparr>budget_accounts := [demo_account ''a1'' ''tenant'' ''t1'']\<rparr>) =
     Inl ErrConflict"
proof -
  have "CreateBudget demo_cfg (\<lambda>_. Some ''a1'') (demo_budget ''A1'' ''tenant'' ''t1'') empty_store =
      Inr (empty_store\<lparr>budget_accounts := [demo_account ''a1'' ''tenant'' ''t1'']\<rparr>)"
    by (simp add: CreateBudget_def insertBudget_def Let_def demo_budget_def demo_account_def demo_cfg_def demo_limits_valid demo_identifiers
        truncateMicro_def emptyAccount_def Hour_def Minute_def Second_def)
  moreover have "empty_store\<lparr>budget_accounts := [demo_account ''a1'' ''tenant'' ''t1'']\<rparr> \<noteq> empty_store"
    by (rule accounts_changed) simp
  ultimately show ?thesis using CreateBudget_rerun by (simp add: demo_budget_def)
qed

end
