(* ===== verification/BusinessStore.thy ===== *)
theory BusinessStore
  imports BusinessContract "HOL-Library.List_Lexorder" "HOL-Library.Product_Lexorder"
begin

text \<open>
  The isolated business database (\<open>internal/business/store.go\<close>, \<open>store_loader.go\<close>,
  \<open>action_store.go\<close>): the import of datasets, the publication of policy indexes, immutable
  snapshots, and the resolution of a ticket under a signed authorization. All transactions that
  write facts hold the same advisory lock, so they are whole steps. \<open>updateFact\<close> is what the
  triggers of the schema leave to a privileged writer.

  Not modelled: role checks, the schema version query, the retry loop of \<open>CreateSnapshot\<close> around
  serialization failures, byte limits of columns, the vectors of chunks (kept as the text that is
  bound) and the similarity search.
\<close>

section \<open>Tables\<close>

record IndexRow =
  ir_Index :: PublishedIndex
  ir_PolicyVersion :: string
  ir_CorpusSHA256 :: string
  ir_Chunks :: "(string \<times> string \<times> string \<times> string) list"

record SnapshotRow =
  sw_Key :: string
  sw_RequestHash :: string
  sw_Snapshot :: Snapshot

record ResolutionRow =
  rw_TenantID :: string
  rw_OperationID :: string
  rw_BusinessRequestID :: string
  rw_TicketID :: string
  rw_AuthorizationHash :: string
  rw_Parameters :: ResolutionParameters
  rw_Receipt :: ActionReceipt

record business_db =
  dataset_imports :: "(string \<times> string) list"
  policy_versions :: "PolicyVersion list"
  tickets :: "Ticket list"
  orders :: "Order list"
  deliveries :: "Delivery list"
  policy_indexes :: "IndexRow list"
  snapshots :: "SnapshotRow list"
  ticket_resolutions :: "ResolutionRow list"

definition empty_business :: business_db where
  "empty_business = \<lparr>dataset_imports = [], policy_versions = [], tickets = [], orders = [], deliveries = [], policy_indexes = [],
     snapshots = [], ticket_resolutions = []\<rparr>"

definition findTicket :: "string \<Rightarrow> string \<Rightarrow> business_db \<Rightarrow> Ticket option" where
  "findTicket tenant i db = find_row (\<lambda>t. tk_TenantID t = tenant \<and> tk_TicketID t = i) (tickets db)"

definition findOrder :: "string \<Rightarrow> string \<Rightarrow> business_db \<Rightarrow> Order option" where
  "findOrder tenant i db = find_row (\<lambda>t. or_TenantID t = tenant \<and> or_OrderID t = i) (orders db)"

definition findDelivery :: "string \<Rightarrow> string \<Rightarrow> business_db \<Rightarrow> Delivery option" where
  "findDelivery tenant i db = find_row (\<lambda>t. dl_TenantID t = tenant \<and> dl_DeliveryID t = i) (deliveries db)"

definition findPolicy :: "string \<Rightarrow> string \<Rightarrow> business_db \<Rightarrow> PolicyVersion option" where
  "findPolicy tenant v db = find_row (\<lambda>p. pv_TenantID p = tenant \<and> pv_PolicyVersion p = v) (policy_versions db)"

section \<open>Importing facts\<close>

record Dataset =
  ds_SchemaVersion :: int
  ds_DatasetVersion :: string
  ds_Policies :: "PolicyVersion list"
  ds_Tickets :: "Ticket list"
  ds_Orders :: "Order list"
  ds_Deliveries :: "Delivery list"

text \<open>\<open>checkKey\<close>: valid identifiers that were not seen before. The zero instant is \<open>0\<close>.\<close>

fun checkKeys :: "(string \<times> string) list \<Rightarrow> (string \<times> string) list \<Rightarrow> bool" where
  "checkKeys seen [] = True"
| "checkKeys seen (k # ks) = (ValidIdentifier (fst k) \<and> ValidIdentifier (snd k) \<and> k \<notin> set seen \<and> checkKeys (k # seen) ks)"

definition validTicket :: "PolicyVersion list \<Rightarrow> Ticket \<Rightarrow> bool" where
  "validTicket ps t \<longleftrightarrow> 1 \<le> tk_Revision t \<and> tk_ObservedAt t \<noteq> 0 \<and> ValidIdentifier (tk_PolicyVersion t) \<and>
     (case tk_OrderID t of None \<Rightarrow> True | Some i \<Rightarrow> ValidIdentifier i) \<and> validText (tk_Subject t) 256 \<and>
     validText (tk_Description t) 1024 \<and> ValidIdentifier (tk_Status t) \<and>
     (tk_TenantID t, tk_PolicyVersion t) \<in> set (map (\<lambda>p. (pv_TenantID p, pv_PolicyVersion p)) ps)"

definition validOrder :: "Order \<Rightarrow> bool" where
  "validOrder od \<longleftrightarrow> 1 \<le> or_Revision od \<and> ValidIdentifier (or_Status od) \<and>
     (case or_DeliveryID od of None \<Rightarrow> True | Some i \<Rightarrow> ValidIdentifier i) \<and> or_OrderedAt od \<noteq> 0 \<and> or_PromisedDeliveryAt od \<noteq> 0"

definition validDelivery :: "business_env \<Rightarrow> Delivery \<Rightarrow> bool" where
  "validDelivery env d \<longleftrightarrow> 1 \<le> dl_AggregateRevision d \<and> ValidIdentifier (dl_OrderID d) \<and> ValidIdentifier (dl_Status d) \<and>
     length (dl_Events d) \<le> 12 \<and> distinct (map de_EventID (dl_Events d)) \<and>
     list_all (\<lambda>e. ValidIdentifier (de_EventID e) \<and> de_OccurredAt e \<noteq> 0 \<and> ValidIdentifier (de_Status e) \<and> validText (de_Note e) 256) (dl_Events d) \<and>
     length (be_json env (VDelivery d)) \<le> 3072"

definition ValidateDataset :: "business_env \<Rightarrow> Dataset \<Rightarrow> BusinessError + unit" where
  "ValidateDataset env ds =
     ensureE (ds_SchemaVersion ds = 1 \<and> ValidIdentifier (ds_DatasetVersion ds) \<and> ds_Policies ds \<noteq> [] \<and> length (ds_Policies ds) \<le> 8 \<and>
        ds_Tickets ds \<noteq> [] \<and> length (ds_Tickets ds) \<le> 40 \<and> length (ds_Orders ds) \<le> 40 \<and> length (ds_Deliveries ds) \<le> 40 \<and>
        checkKeys [] (map (\<lambda>p. (pv_TenantID p, pv_PolicyVersion p)) (ds_Policies ds)) \<and>
        list_all (\<lambda>p. 1 \<le> pv_Revision p \<and> ValidHash (pv_CorpusSHA256 p)) (ds_Policies ds) \<and>
        checkKeys [] (map (\<lambda>t. (tk_TenantID t, tk_TicketID t)) (ds_Tickets ds)) \<and> list_all (validTicket (ds_Policies ds)) (ds_Tickets ds) \<and>
        checkKeys [] (map (\<lambda>t. (or_TenantID t, or_OrderID t)) (ds_Orders ds)) \<and> list_all validOrder (ds_Orders ds) \<and>
        checkKeys [] (map (\<lambda>t. (dl_TenantID t, dl_DeliveryID t)) (ds_Deliveries ds)) \<and> list_all (validDelivery env) (ds_Deliveries ds)) BizInvalidArgument"

text \<open>
  \<open>insertSource\<close>: a row with a new key is inserted, an existing row must have the same
  fingerprint. \<open>key\<close> is the primary key of the table and \<open>value\<close> the marshalled body.
\<close>

definition insertSource :: "business_env \<Rightarrow> ('r \<Rightarrow> string \<times> string) \<Rightarrow> ('r \<Rightarrow> business_value) \<Rightarrow> 'r \<Rightarrow> 'r list \<Rightarrow> BusinessError + 'r list" where
  "insertSource env key value r t =
     (case find_row (\<lambda>x. key x = key r) t of
        None \<Rightarrow> Inr (t @ [r])
      | Some x \<Rightarrow> if be_sha env (be_json env (value x)) \<noteq> be_sha env (be_json env (value r)) then Inl BizConflict else Inr t)"

fun insertSources :: "business_env \<Rightarrow> ('r \<Rightarrow> string \<times> string) \<Rightarrow> ('r \<Rightarrow> business_value) \<Rightarrow> 'r list \<Rightarrow> 'r list \<Rightarrow> BusinessError + 'r list" where
  "insertSources env key value [] t = Inr t"
| "insertSources env key value (r # rs) t = bindE (insertSource env key value r t) (\<lambda>t'. insertSources env key value rs t')"

abbreviation ticketKey :: "Ticket \<Rightarrow> string \<times> string" where
  "ticketKey t \<equiv> (tk_TenantID t, tk_TicketID t)"

abbreviation orderKey :: "Order \<Rightarrow> string \<times> string" where
  "orderKey t \<equiv> (or_TenantID t, or_OrderID t)"

abbreviation deliveryKey :: "Delivery \<Rightarrow> string \<times> string" where
  "deliveryKey t \<equiv> (dl_TenantID t, dl_DeliveryID t)"

abbreviation policyKey :: "PolicyVersion \<Rightarrow> string \<times> string" where
  "policyKey p \<equiv> (pv_TenantID p, pv_PolicyVersion p)"

definition datasetHash :: "business_env \<Rightarrow> Dataset \<Rightarrow> string" where
  "datasetHash env ds = be_sha env (be_json env (VDataset (ds_SchemaVersion ds) (ds_DatasetVersion ds) (ds_Policies ds) (ds_Tickets ds) (ds_Orders ds) (ds_Deliveries ds)))"

definition ImportDataset :: "business_env \<Rightarrow> Dataset \<Rightarrow> business_db \<Rightarrow> BusinessError + business_db" where
  "ImportDataset env ds db =
     bindE (ValidateDataset env ds) (\<lambda>_.
     case map_of (dataset_imports db) (ds_DatasetVersion ds) of
       Some stored \<Rightarrow> if datasetHash env ds \<noteq> stored then Inl BizConflict else Inr db
     | None \<Rightarrow>
       bindE (insertSources env policyKey VPolicy (ds_Policies ds) (policy_versions db)) (\<lambda>ps.
       bindE (insertSources env ticketKey VTicket (ds_Tickets ds) (tickets db)) (\<lambda>ts.
       bindE (insertSources env orderKey VOrder (ds_Orders ds) (orders db)) (\<lambda>os.
       bindE (insertSources env deliveryKey VDelivery (ds_Deliveries ds) (deliveries db)) (\<lambda>dls.
         Inr (db\<lparr>dataset_imports := (ds_DatasetVersion ds, datasetHash env ds) # dataset_imports db, policy_versions := ps, tickets := ts,
           orders := os, deliveries := dls\<rparr>))))))"

section \<open>Policy indexes\<close>

definition validProfile :: "IndexProfile \<Rightarrow> bool" where
  "validProfile p \<longleftrightarrow> ValidIdentifier (ip_PolicyVersion p) \<and> ValidHash (ip_CorpusSHA256 p) \<and> ip_ChunkerVersion p = ''paragraph-v1'' \<and>
     ip_EmbeddingModel p = ''all-minilm:22m'' \<and>
     ip_EmbeddingDigest p = ''1b226e2802dbb772b5fc32a58f103ca1804ef7501331012de126ab22f67475ef'' \<and> ip_Dimensions p = 384"

text \<open>A chunk is its id, source, text and the literal of its vector, which \<open>vectorLiteral\<close> accepted (\<open>vectorOK\<close>).\<close>

record IndexUpload =
  iu_SchemaVersion :: int
  iu_PrepareID :: string
  iu_TenantID :: string
  iu_Profile :: IndexProfile
  iu_Chunks :: "(string \<times> string \<times> string \<times> string) list"

definition ValidateIndexUpload :: "business_env \<Rightarrow> (string \<Rightarrow> bool) \<Rightarrow> IndexUpload \<Rightarrow> BusinessError + unit" where
  "ValidateIndexUpload env vectorOK up =
     (if iu_SchemaVersion up \<noteq> 1 \<or> \<not> ValidIdentifier (iu_TenantID up) \<or> (iu_PrepareID up \<noteq> '''' \<and> \<not> ValidUUID (be_parseUUID env) (iu_PrepareID up)) \<or>
         iu_Chunks up = [] \<or> length (iu_Chunks up) > 64 then Inl BizInvalidArgument
      else if \<not> validProfile (iu_Profile up) then Inl BizProfileUnavailable
      else ensureE (distinct (map fst (iu_Chunks up)) \<and>
         list_all (\<lambda>(i, source, body, vec). ValidIdentifier i \<and> validText source 128 \<and> source \<noteq> '''' \<and> validText body 768 \<and> body \<noteq> '''' \<and> vectorOK vec) (iu_Chunks up) \<and>
         sum_list (map (\<lambda>(i, source, body, vec). length body) (iu_Chunks up)) \<le> 64 * 1024) BizInvalidArgument)"

definition PublishIndex :: "business_env \<Rightarrow> (string \<Rightarrow> bool) \<Rightarrow> string \<Rightarrow> IndexUpload \<Rightarrow> time \<Rightarrow> business_db \<Rightarrow> BusinessError + ((PublishedIndex \<times> bool) \<times> business_db)" where
  "PublishIndex env vectorOK newID up now db =
     bindE (ValidateIndexUpload env vectorOK up) (\<lambda>_.
     let chunks = sort_key fst (iu_Chunks up);
         contentHash = be_sha env (be_json env (VIndex (iu_Profile up) chunks));
         profileHash = be_sha env (be_json env (VProfile (iu_Profile up))) in
     case findPolicy (iu_TenantID up) (ip_PolicyVersion (iu_Profile up)) db of
       None \<Rightarrow> Inl BizDependencyUnavailable
     | Some p \<Rightarrow>
       if pv_CorpusSHA256 p \<noteq> ip_CorpusSHA256 (iu_Profile up) then Inl BizConflict
       else case find_row (\<lambda>x. ix_TenantID (ir_Index x) = iu_TenantID up \<and> ix_ProfileHash (ir_Index x) = profileHash) (policy_indexes db) of
         Some x \<Rightarrow> if ix_ContentHash (ir_Index x) \<noteq> contentHash then Inl BizConflict else Inr ((ir_Index x, True), db)
       | None \<Rightarrow>
         if list_ex (\<lambda>x. ix_TenantID (ir_Index x) = iu_TenantID up \<and> ix_ID (ir_Index x) = newID) (policy_indexes db) then Inl BizConflict
         else let index = \<lparr>ix_ID = newID, ix_TenantID = iu_TenantID up, ix_ProfileHash = profileHash, ix_ContentHash = contentHash,
                ix_Profile = iu_Profile up, ix_PublishedAt = now\<rparr> in
           Inr ((index, False), db\<lparr>policy_indexes := policy_indexes db @ [\<lparr>ir_Index = index, ir_PolicyVersion = ip_PolicyVersion (iu_Profile up),
             ir_CorpusSHA256 = pv_CorpusSHA256 p, ir_Chunks = chunks\<rparr>]\<rparr>))"

section \<open>Snapshots\<close>

record SnapshotRequest =
  sq_SchemaVersion :: int
  sq_TicketID :: string
  sq_RequestKey :: string

text \<open>The most recently published index of the policy; \<open>order by published_at desc, index_id\<close>.\<close>

definition currentIndex :: "string \<Rightarrow> PolicyVersion \<Rightarrow> business_db \<Rightarrow> PublishedIndex option" where
  "currentIndex tenant p db =
     (case sort_key (\<lambda>x. (- ix_PublishedAt (ir_Index x), ix_ID (ir_Index x)))
         (filter (\<lambda>x. ix_TenantID (ir_Index x) = tenant \<and> ir_PolicyVersion x = pv_PolicyVersion p \<and> ir_CorpusSHA256 x = pv_CorpusSHA256 p)
           (policy_indexes db)) of
        [] \<Rightarrow> None | x # _ \<Rightarrow> Some (ir_Index x))"

definition capturedOrder :: "string \<Rightarrow> Ticket \<Rightarrow> business_db \<Rightarrow> Order option" where
  "capturedOrder tenant t db = (case tk_OrderID t of None \<Rightarrow> None | Some i \<Rightarrow> findOrder tenant i db)"

definition capturedDelivery :: "string \<Rightarrow> Order option \<Rightarrow> business_db \<Rightarrow> Delivery option" where
  "capturedDelivery tenant o' db = (case o' of None \<Rightarrow> None
     | Some od \<Rightarrow> (case or_DeliveryID od of None \<Rightarrow> None
         | Some i \<Rightarrow> (case findDelivery tenant i db of None \<Rightarrow> None | Some d \<Rightarrow> if dl_OrderID d = or_OrderID od then Some d else None)))"

definition createSnapshotOnce :: "business_env \<Rightarrow> string \<Rightarrow> string \<Rightarrow> SnapshotRequest \<Rightarrow> time \<Rightarrow> business_db \<Rightarrow> BusinessError + ((Snapshot \<times> bool) \<times> business_db)" where
  "createSnapshotOnce env newID tenant req now db =
     (let hash = be_sha env (be_json env (VRequest (sq_SchemaVersion req) (sq_TicketID req))) in
      case find_row (\<lambda>x. sn_TenantID (sw_Snapshot x) = tenant \<and> sw_Key x = sq_RequestKey req) (snapshots db) of
        Some x \<Rightarrow> if sw_RequestHash x \<noteq> hash then Inl BizConflict else Inr ((sw_Snapshot x, True), db)
      | None \<Rightarrow>
        (case findTicket tenant (sq_TicketID req) db of
           None \<Rightarrow> Inl BizNotFound
         | Some t \<Rightarrow>
           (case findPolicy tenant (tk_PolicyVersion t) db of
              None \<Rightarrow> Inl BizDependencyUnavailable
            | Some p \<Rightarrow>
              (case currentIndex tenant p db of
                 None \<Rightarrow> Inl BizDependencyUnavailable
               | Some index \<Rightarrow>
                 if \<not> validProfile (ix_Profile index) \<or> ip_PolicyVersion (ix_Profile index) \<noteq> pv_PolicyVersion p \<or>
                    ip_CorpusSHA256 (ix_Profile index) \<noteq> pv_CorpusSHA256 p then Inl BizDependencyUnavailable
                 else let od = capturedOrder tenant t db;
                     s0 = \<lparr>sn_ID = newID, sn_TenantID = tenant, sn_SchemaVersion = 1, sn_AsOf = tk_ObservedAt t, sn_CreatedAt = now, sn_ContentHash = '''',
                       sn_Ticket = t, sn_Order = od, sn_Delivery = capturedDelivery tenant od db, sn_Policy = p, sn_Index = index\<lparr>ix_TenantID := tenant\<rparr>\<rparr>;
                     s = s0\<lparr>sn_ContentHash := be_sha env (be_json env (VSnapshot s0))\<rparr> in
                   if length (be_json env (VSnapshot s)) > 6144 then Inl BizInvalidArgument
                   else if list_ex (\<lambda>x. sn_TenantID (sw_Snapshot x) = tenant \<and> sn_ID (sw_Snapshot x) = newID) (snapshots db) then Inl BizConflict
                   else Inr ((s, False), db\<lparr>snapshots := snapshots db @ [\<lparr>sw_Key = sq_RequestKey req, sw_RequestHash = hash, sw_Snapshot = s\<rparr>]\<rparr>)))))"

definition CreateSnapshot :: "business_env \<Rightarrow> string \<Rightarrow> string \<Rightarrow> SnapshotRequest \<Rightarrow> time \<Rightarrow> business_db \<Rightarrow> BusinessError + ((Snapshot \<times> bool) \<times> business_db)" where
  "CreateSnapshot env newID tenant req now db =
     (if \<not> ValidIdentifier tenant \<or> sq_SchemaVersion req \<noteq> 1 \<or> \<not> ValidIdentifier (sq_TicketID req) \<or> \<not> ValidIdentifier (sq_RequestKey req)
      then Inl BizInvalidArgument else createSnapshotOnce env newID tenant req now db)"

definition GetSnapshot :: "business_env \<Rightarrow> string \<Rightarrow> string \<Rightarrow> business_db \<Rightarrow> BusinessError + Snapshot" where
  "GetSnapshot env tenant i db =
     (if \<not> ValidIdentifier tenant \<or> \<not> ValidUUID (be_parseUUID env) i then Inl BizNotFound
      else case find_row (\<lambda>x. sn_TenantID (sw_Snapshot x) = tenant \<and> sn_ID (sw_Snapshot x) = i) (snapshots db) of
        None \<Rightarrow> Inl BizNotFound | Some x \<Rightarrow> Inr (sw_Snapshot x))"

text \<open>The evidence of a kind that the snapshot holds, or the reason why it is missing.\<close>

record Evidence =
  ev_SnapshotID :: string
  ev_EvidenceRef :: string
  ev_Kind :: string
  ev_Missing :: bool
  ev_MissingReason :: string
  ev_Ticket :: "Ticket option"
  ev_Order :: "Order option"
  ev_Delivery :: "Delivery option"

definition snapshotEvidence :: "string \<Rightarrow> string \<Rightarrow> Snapshot \<Rightarrow> Evidence" where
  "snapshotEvidence i kind s =
     (let result = \<lparr>ev_SnapshotID = i, ev_EvidenceRef = ''business-evidence:'' @ i @ '':'' @ kind, ev_Kind = kind, ev_Missing = False, ev_MissingReason = '''',
        ev_Ticket = None, ev_Order = None, ev_Delivery = None\<rparr> in
      if kind = ''ticket'' then result\<lparr>ev_Ticket := Some (sn_Ticket s)\<rparr>
      else if kind = ''order'' then
        (if sn_Order s = None then result\<lparr>ev_Missing := True, ev_MissingReason := (if tk_OrderID (sn_Ticket s) = None then ''not_associated'' else ''record_not_found'')\<rparr>
         else result\<lparr>ev_Order := sn_Order s\<rparr>)
      else
        (if sn_Delivery s = None then result\<lparr>ev_Missing := True, ev_MissingReason :=
             (case sn_Order s of None \<Rightarrow> ''not_associated'' | Some od \<Rightarrow> if or_DeliveryID od = None then ''not_associated'' else ''record_not_found'')\<rparr>
         else result\<lparr>ev_Delivery := sn_Delivery s\<rparr>))"

definition GetEvidence :: "business_env \<Rightarrow> string \<Rightarrow> string \<Rightarrow> string \<Rightarrow> business_db \<Rightarrow> BusinessError + Evidence" where
  "GetEvidence env tenant i kind db =
     (if kind \<noteq> ''ticket'' \<and> kind \<noteq> ''order'' \<and> kind \<noteq> ''delivery'' then Inl BizNotFound
      else bindE (GetSnapshot env tenant i db) (\<lambda>s. Inr (snapshotEvidence i kind s)))"

definition GetOrder :: "business_env \<Rightarrow> string \<Rightarrow> string \<Rightarrow> business_db \<Rightarrow> BusinessError + Evidence" where
  "GetOrder env tenant i db = GetEvidence env tenant i ''order'' db"

definition GetDelivery :: "business_env \<Rightarrow> string \<Rightarrow> string \<Rightarrow> business_db \<Rightarrow> BusinessError + Evidence" where
  "GetDelivery env tenant i db = GetEvidence env tenant i ''delivery'' db"

text \<open>A hit of the policy index that the snapshot is bound to, without the distance of a search.\<close>

record PolicyHit =
  ph_IndexID :: string
  ph_ChunkID :: string
  ph_PolicyVersion :: string
  ph_EvidenceRef :: string
  ph_Source :: string
  ph_Text :: string

definition policyHit :: "Snapshot \<Rightarrow> string \<Rightarrow> PolicyHit" where
  "policyHit s chunk = \<lparr>ph_IndexID = ix_ID (sn_Index s), ph_ChunkID = chunk, ph_PolicyVersion = pv_PolicyVersion (sn_Policy s),
     ph_EvidenceRef = ''business-policy:'' @ ix_ID (sn_Index s) @ '':'' @ chunk, ph_Source = '''', ph_Text = ''''\<rparr>"

definition GetPolicy :: "business_env \<Rightarrow> string \<Rightarrow> string \<Rightarrow> string \<Rightarrow> business_db \<Rightarrow> BusinessError + PolicyHit" where
  "GetPolicy env tenant i chunk db =
     (if \<not> ValidIdentifier chunk then Inl BizNotFound
      else bindE (GetSnapshot env tenant i db) (\<lambda>s.
        case find_row (\<lambda>x. ix_TenantID (ir_Index x) = tenant \<and> ix_ID (ir_Index x) = ix_ID (sn_Index s)) (policy_indexes db) of
          None \<Rightarrow> Inl BizNotFound
        | Some x \<Rightarrow> (case map_of (ir_Chunks x) chunk of
            None \<Rightarrow> Inl BizNotFound
          | Some (source, body, vec) \<Rightarrow> Inr ((policyHit s chunk)\<lparr>ph_Source := source, ph_Text := body\<rparr>))))"

section \<open>Readiness\<close>

definition latestIndexRow :: "string \<Rightarrow> PolicyVersion \<Rightarrow> business_db \<Rightarrow> IndexRow option" where
  "latestIndexRow tenant p db =
     (case sort_key (\<lambda>x. (- ix_PublishedAt (ir_Index x), ix_ID (ir_Index x)))
         (filter (\<lambda>x. ix_TenantID (ir_Index x) = tenant \<and> ir_PolicyVersion x = pv_PolicyVersion p \<and> ir_CorpusSHA256 x = pv_CorpusSHA256 p)
           (policy_indexes db)) of
        [] \<Rightarrow> None | x # _ \<Rightarrow> Some x)"

text \<open>One row of the readiness query: the ticket, its policy and its latest index; a missing one is null.\<close>

definition readyRow :: "string \<Rightarrow> business_db \<Rightarrow> Ticket \<Rightarrow> bool" where
  "readyRow tenant db t \<longleftrightarrow>
     (case findPolicy tenant (tk_PolicyVersion t) db of
        None \<Rightarrow> False
      | Some policy \<Rightarrow>
        (case latestIndexRow tenant policy db of
           None \<Rightarrow> False
         | Some x \<Rightarrow> (let profile = ix_Profile (ir_Index x) in
             1 \<le> length (ir_Chunks x) \<and> length (ir_Chunks x) \<le> 64 \<and>
             tk_TenantID t = tenant \<and> ValidIdentifier (tk_TicketID t) \<and> 1 \<le> tk_Revision t \<and> tk_ObservedAt t \<noteq> 0 \<and>
             ValidIdentifier (tk_Status t) \<and> validText (tk_Subject t) 256 \<and> validText (tk_Description t) 1024 \<and>
             (case tk_OrderID t of None \<Rightarrow> True | Some i \<Rightarrow> ValidIdentifier i) \<and>
             pv_TenantID policy = tenant \<and> pv_PolicyVersion policy = tk_PolicyVersion t \<and> 1 \<le> pv_Revision policy \<and>
             validProfile profile \<and> ip_PolicyVersion profile = pv_PolicyVersion policy \<and> ip_CorpusSHA256 profile = pv_CorpusSHA256 policy)))"

definition CheckTenantReady :: "string \<Rightarrow> business_db \<Rightarrow> BusinessError + unit" where
  "CheckTenantReady tenant db =
     (if \<not> ValidIdentifier tenant then Inl BizInvalidArgument
      else let rows = take 41 (sort_key tk_TicketID (filter (\<lambda>t. tk_TenantID t = tenant) (tickets db))) in
        ensureE (rows \<noteq> [] \<and> length rows \<le> 40 \<and> list_all (readyRow tenant db) rows) BizDependencyUnavailable)"

section \<open>Resolutions\<close>

record TrustedActionKey =
  tr_PublicKey :: string
  tr_Tenants :: "string list"

definition Receipt :: "business_env \<Rightarrow> string \<Rightarrow> string \<Rightarrow> business_db \<Rightarrow> BusinessError + ActionReceipt" where
  "Receipt env tenant operationID db =
     (if \<not> ValidIdentifier tenant \<or> \<not> ValidUUID (be_parseUUID env) operationID then Inl BizInvalidArgument
      else case find_row (\<lambda>x. rw_TenantID x = tenant \<and> rw_OperationID x = operationID) (ticket_resolutions db) of
        None \<Rightarrow> Inl BizNotFound
      | Some x \<Rightarrow> if rt_ReceiptHash (rw_Receipt x) \<noteq> ActionReceiptHash env (rw_Receipt x) then Inl BizInternal else Inr (rw_Receipt x))"

text \<open>The current order and delivery of the ticket, as the action re-reads them.\<close>

definition currentDelivery :: "string \<Rightarrow> Order option \<Rightarrow> business_db \<Rightarrow> BusinessError + Delivery option" where
  "currentDelivery tenant o' db =
     (case o' of None \<Rightarrow> Inr None
      | Some od \<Rightarrow> (case or_DeliveryID od of None \<Rightarrow> Inr None
          | Some i \<Rightarrow> (case findDelivery tenant i db of None \<Rightarrow> Inr None
              | Some d \<Rightarrow> if dl_OrderID d \<noteq> or_OrderID od then Inl BizActionConflict else Inr (Some d))))"

text \<open>The version vector of the facts as they are now, with the index that was authorized.\<close>

definition currentVector :: "string \<Rightarrow> string \<Rightarrow> Ticket \<Rightarrow> business_db \<Rightarrow> BusinessError + VersionVector" where
  "currentVector tenant indexID t db =
     (let od = capturedOrder tenant t db in
      bindE (currentDelivery tenant od db) (\<lambda>d.
      case findPolicy tenant (tk_PolicyVersion t) db of
        None \<Rightarrow> Inl BizActionConflict
      | Some policy \<Rightarrow>
        (case find_row (\<lambda>x. ix_TenantID (ir_Index x) = tenant \<and> ix_ID (ir_Index x) = indexID \<and>
             ir_PolicyVersion x = pv_PolicyVersion policy \<and> ir_CorpusSHA256 x = pv_CorpusSHA256 policy) (policy_indexes db) of
           None \<Rightarrow> Inl BizActionConflict
         | Some x \<Rightarrow> Inr (snapshotVector t od d policy (ix_ID (ir_Index x), ix_ProfileHash (ir_Index x), ix_ContentHash (ir_Index x))))))"

definition currentActionTicket :: "business_env \<Rightarrow> SignedAction \<Rightarrow> business_db \<Rightarrow> BusinessError + Ticket" where
  "currentActionTicket env action db =
     (let a = sa_Authorization action; tenant = aa_TenantID a; p = sa_Parameters action;
          vector = be_json env (VVector (aa_VersionVector a)) in
      case find_row (\<lambda>x. sn_TenantID (sw_Snapshot x) = tenant \<and> sn_ID (sw_Snapshot x) = aa_SnapshotID a) (snapshots db) of
        None \<Rightarrow> Inl BizActionConflict
      | Some row \<Rightarrow>
        (let s = sw_Snapshot row in
         if sn_ContentHash s \<noteq> aa_SnapshotHash a \<or> sn_TenantID s \<noteq> tenant \<or> vector \<noteq> be_json env (VVector (SnapshotVersionVector s)) \<or>
            tk_TicketID (sn_Ticket s) \<noteq> rp_TicketID p \<or>
            (rp_Action p = ''record_conclusion'' \<and> rp_TargetTicketStatus p \<noteq> tk_Status (sn_Ticket s)) then Inl BizActionConflict
         else case findTicket tenant (rp_TicketID p) db of
           None \<Rightarrow> Inl BizActionConflict
         | Some t \<Rightarrow>
           bindE (currentVector tenant (vv_IndexID (aa_VersionVector a)) t db) (\<lambda>actual.
             if be_json env (VVector actual) \<noteq> vector then Inl BizActionConflict else Inr t)))"

definition resolvedTicket :: "ResolutionParameters \<Rightarrow> Ticket \<Rightarrow> Ticket" where
  "resolvedTicket p t = t\<lparr>tk_Revision := tk_Revision t + 1, tk_Status := (if rp_Action p \<noteq> ''record_conclusion'' then rp_TargetTicketStatus p else tk_Status t)\<rparr>"

definition newReceipt :: "business_env \<Rightarrow> SignedAction \<Rightarrow> string \<Rightarrow> Ticket \<Rightarrow> time \<Rightarrow> ActionReceipt" where
  "newReceipt env action authHash t now =
     (let a = sa_Authorization action; updated = resolvedTicket (sa_Parameters action) t;
          r = \<lparr>rt_SchemaVersion = 1, rt_TenantID = aa_TenantID a, rt_OperationID = aa_OperationID a, rt_BusinessRequestID = aa_BusinessRequestID a,
            rt_AuthorizationHash = authHash, rt_ProposalHash = aa_ProposalHash a, rt_ParametersHash = aa_ParametersHash a,
            rt_ApprovalID = aa_ApprovalID a, rt_TicketID = tk_TicketID t, rt_BeforeRevision = tk_Revision t, rt_AfterRevision = tk_Revision updated,
            rt_TicketStatus = tk_Status updated, rt_AppliedAt = UnixMicro now, rt_RetainUntil = UnixMicro (now + retentionMicros * 1000),
            rt_ReceiptHash = ''''\<rparr> in
      r\<lparr>rt_ReceiptHash := ActionReceiptHash env r\<rparr>)"

definition insertResolution :: "ResolutionRow \<Rightarrow> business_db \<Rightarrow> BusinessError + business_db" where
  "insertResolution row db =
     (if list_ex (\<lambda>x. rw_TenantID x = rw_TenantID row \<and>
          (rw_OperationID x = rw_OperationID row \<or> rw_BusinessRequestID x = rw_BusinessRequestID row)) (ticket_resolutions db)
      then Inl BizActionConflict
      else Inr (db\<lparr>ticket_resolutions := ticket_resolutions db @ [row]\<rparr>))"

definition ApplyResolution ::
    "business_env \<Rightarrow> (string \<times> TrustedActionKey) list \<Rightarrow> string \<Rightarrow> SignedAction \<Rightarrow> time \<Rightarrow> business_db \<Rightarrow> BusinessError + (ActionReceipt \<times> business_db)" where
  "ApplyResolution env trusted tenant action now db =
     (let a = sa_Authorization action in
      if tenant \<noteq> aa_TenantID a then Inl BizNotFound
      else bindE (AuthorizationHash env a) (\<lambda>authHash.
      bindE (ParametersHash env (sa_Parameters action)) (\<lambda>parameterHash.
      case find_row (\<lambda>x. rw_TenantID x = tenant \<and> rw_OperationID x = aa_OperationID a) (ticket_resolutions db) of
        Some row \<Rightarrow>
          if rw_AuthorizationHash row \<noteq> authHash \<or> parameterHash \<noteq> aa_ParametersHash a \<or> \<not> isOk (ReceiptValidate env (rw_Receipt row) action)
          then Inl BizActionConflict else Inr (rw_Receipt row, db)
      | None \<Rightarrow>
        (case map_of trusted (aa_KeyID a) of
           None \<Rightarrow> Inl BizActionForbidden
         | Some key \<Rightarrow>
           if tenant \<notin> set (tr_Tenants key) \<or> \<not> isOk (Verify env action (tr_PublicKey key)) then Inl BizActionForbidden
           else bindE (currentActionTicket env action db) (\<lambda>t.
           if UnixMicro now \<ge> aa_AuthorizationExpiresAt a then Inl BizAuthorizationExpired
           else if UnixMicro now < aa_AuthorizedAt a then Inl BizActionForbidden
           else let receipt = newReceipt env action authHash t now;
               db1 = db\<lparr>tickets := update_where (\<lambda>x. tk_TenantID x = tenant \<and> tk_TicketID x = tk_TicketID t)
                 (\<lambda>_. resolvedTicket (sa_Parameters action) t) (tickets db)\<rparr> in
             bindE (insertResolution \<lparr>rw_TenantID = tenant, rw_OperationID = aa_OperationID a, rw_BusinessRequestID = aa_BusinessRequestID a,
               rw_TicketID = tk_TicketID t, rw_AuthorizationHash = authHash, rw_Parameters = sa_Parameters action, rw_Receipt = receipt\<rparr> db1) (\<lambda>db2.
               Inr (receipt, db2)))))))"

text \<open>
  What the schema's triggers leave to a privileged writer: an update of a fact that keeps its key
  and raises its revision.
\<close>

definition updateFact :: "('r \<Rightarrow> string \<times> string) \<Rightarrow> ('r \<Rightarrow> int) \<Rightarrow> 'r \<Rightarrow> 'r list \<Rightarrow> 'r list option" where
  "updateFact key revision r t =
     (case find_row (\<lambda>x. key x = key r) t of
        None \<Rightarrow> None
      | Some x \<Rightarrow> if revision r \<le> revision x then None else Some (update_where (\<lambda>x. key x = key r) (\<lambda>_. r) t))"

end
