(* ===== verification/BusinessInv.thy ===== *)
theory BusinessInv
  imports BusinessStore
begin

text \<open>
  The business database as a transition system. Revisions identify the contents of a ticket, so a
  resolution that passes the version vector acts on the very facts that were approved; every
  receipt is kept, and a repeated action is answered with its first receipt.
\<close>

section \<open>Transitions\<close>

inductive business_step :: "business_env \<Rightarrow> business_db \<Rightarrow> business_db \<Rightarrow> bool"
  for env :: business_env where
  import_facts: "ImportDataset env ds db = Inr db' \<Longrightarrow> business_step env db db'"
| publish: "PublishIndex env vectorOK newID up now db = Inr (index, db') \<Longrightarrow> business_step env db db'"
| snapshot: "CreateSnapshot env newID tenant req now db = Inr (s, db') \<Longrightarrow> business_step env db db'"
| resolve: "ApplyResolution env trusted tenant action now db = Inr (receipt, db') \<Longrightarrow> business_step env db db'"
| ticket_update: "updateFact ticketKey tk_Revision t (tickets db) = Some ts \<Longrightarrow> business_step env db (db\<lparr>tickets := ts\<rparr>)"
| order_update: "updateFact orderKey or_Revision od (orders db) = Some os \<Longrightarrow> business_step env db (db\<lparr>orders := os\<rparr>)"
| delivery_update: "updateFact deliveryKey dl_AggregateRevision d (deliveries db) = Some ds \<Longrightarrow> business_step env db (db\<lparr>deliveries := ds\<rparr>)"
| policy_update: "updateFact policyKey pv_Revision p (policy_versions db) = Some ps \<Longrightarrow> business_step env db (db\<lparr>policy_versions := ps\<rparr>)"

section \<open>The invariant\<close>

text \<open>A captured or resolved revision of a ticket is not ahead of the current row, and the same revision is the same row.\<close>

definition captured_ok :: "Ticket list \<Rightarrow> Ticket \<Rightarrow> bool" where
  "captured_ok ts t \<longleftrightarrow> (\<exists>u \<in> set ts. ticketKey u = ticketKey t \<and> tk_Revision t \<le> tk_Revision u \<and> (tk_Revision t = tk_Revision u \<longrightarrow> u = t))"

definition resolved_ok :: "Ticket list \<Rightarrow> ResolutionRow \<Rightarrow> bool" where
  "resolved_ok ts x \<longleftrightarrow> rt_AfterRevision (rw_Receipt x) = rt_BeforeRevision (rw_Receipt x) + 1 \<and>
     (\<exists>u \<in> set ts. ticketKey u = (rw_TenantID x, rw_TicketID x) \<and> rt_AfterRevision (rw_Receipt x) \<le> tk_Revision u)"

definition business_inv :: "business_db \<Rightarrow> bool" where
  "business_inv db \<longleftrightarrow> distinct (map ticketKey (tickets db)) \<and>
     (\<forall>x \<in> set (snapshots db). sn_TenantID (sw_Snapshot x) = tk_TenantID (sn_Ticket (sw_Snapshot x)) \<and>
        captured_ok (tickets db) (sn_Ticket (sw_Snapshot x))) \<and>
     (\<forall>x \<in> set (ticket_resolutions db). resolved_ok (tickets db) x) \<and>
     distinct (map (\<lambda>x. (rw_TenantID x, rw_OperationID x)) (ticket_resolutions db)) \<and>
     distinct (map (\<lambda>x. (rw_TenantID x, rw_BusinessRequestID x)) (ticket_resolutions db)) \<and>
     distinct (map (\<lambda>x. (rw_TenantID x, rw_TicketID x, rt_BeforeRevision (rw_Receipt x))) (ticket_resolutions db))"

lemma business_parts:
  assumes "business_inv db"
  shows "distinct (map ticketKey (tickets db))"
    "\<And>x. x \<in> set (snapshots db) \<Longrightarrow> sn_TenantID (sw_Snapshot x) = tk_TenantID (sn_Ticket (sw_Snapshot x)) \<and> captured_ok (tickets db) (sn_Ticket (sw_Snapshot x))"
    "\<And>x. x \<in> set (ticket_resolutions db) \<Longrightarrow> resolved_ok (tickets db) x"
  using assms by (simp_all add: business_inv_def)

text \<open>Tickets only appear or gain revisions.\<close>

definition tickets_grow :: "Ticket list \<Rightarrow> Ticket list \<Rightarrow> bool" where
  "tickets_grow ts ts' \<longleftrightarrow> distinct (map ticketKey ts') \<and>
     (\<forall>u \<in> set ts. \<exists>v \<in> set ts'. ticketKey v = ticketKey u \<and> (v = u \<or> tk_Revision u < tk_Revision v))"

lemma grow_captured: "tickets_grow ts ts' \<Longrightarrow> captured_ok ts t \<Longrightarrow> captured_ok ts' t"
  unfolding tickets_grow_def captured_ok_def by (metis order_less_imp_not_eq order_le_less_trans less_imp_le nless_le)

lemma grow_resolved: "tickets_grow ts ts' \<Longrightarrow> resolved_ok ts x \<Longrightarrow> resolved_ok ts' x"
  unfolding tickets_grow_def resolved_ok_def by (metis order_trans less_imp_le)

lemma grow_inv:
  assumes "business_inv db" "tickets_grow (tickets db) (tickets db')" "snapshots db' = snapshots db" "ticket_resolutions db' = ticket_resolutions db"
  shows "business_inv db'"
  using assms grow_captured [OF assms(2)] grow_resolved [OF assms(2)] by (auto simp: business_inv_def tickets_grow_def)

lemma tickets_grow_refl: "distinct (map ticketKey ts) \<Longrightarrow> tickets_grow ts ts"
  unfolding tickets_grow_def by blast

lemma tickets_grow_trans:
  assumes "tickets_grow ts ts'" "tickets_grow ts' ts''"
  shows "tickets_grow ts ts''"
proof -
  have "\<exists>w \<in> set ts''. ticketKey w = ticketKey u \<and> (w = u \<or> tk_Revision u < tk_Revision w)" if u: "u \<in> set ts" for u
  proof -
    from assms(1) u obtain v where v: "v \<in> set ts'" "ticketKey v = ticketKey u" "v = u \<or> tk_Revision u < tk_Revision v"
      unfolding tickets_grow_def by blast
    from assms(2) v(1) obtain w where w: "w \<in> set ts''" "ticketKey w = ticketKey v" "w = v \<or> tk_Revision v < tk_Revision w"
      unfolding tickets_grow_def by blast
    show ?thesis by (rule bexI [OF _ w(1)]) (use v w in auto)
  qed
  with assms(2) show ?thesis unfolding tickets_grow_def by blast
qed

lemma insertSources_grow:
  assumes "insertSources env ticketKey value rs ts = Inr ts'" "distinct (map ticketKey ts)"
  shows "tickets_grow ts ts'"
  using assms
proof (induction rs arbitrary: ts)
  case (Cons r rs)
  from Cons.prems(1) obtain ts1 where ins: "insertSource env ticketKey value r ts = Inr ts1" "insertSources env ticketKey value rs ts1 = Inr ts'"
    by (auto simp: result_simps)
  have "ts1 = ts \<or> (ts1 = ts @ [r] \<and> ticketKey r \<notin> ticketKey ` set ts)"
    using ins(1) by (auto simp: insertSource_def find_row_None_iff split: option.splits if_splits)
  then have one: "tickets_grow ts ts1" using Cons.prems(2) by (auto simp: tickets_grow_def)
  from Cons.IH [OF ins(2)] one have "tickets_grow ts1 ts'" by (auto simp: tickets_grow_def)
  with one show ?case by (rule tickets_grow_trans)
qed (simp add: tickets_grow_refl)

lemma ticket_keys_update: "(\<And>x. P x \<Longrightarrow> ticketKey (f x) = ticketKey x) \<Longrightarrow> map ticketKey (update_where P f ts) = map ticketKey ts"
  by (induction ts) (auto simp: update_where_def)

lemma replace_grow:
  assumes "distinct (map ticketKey ts)" "u \<in> set ts" "ticketKey v = ticketKey u" "tk_Revision u < tk_Revision v"
  shows "tickets_grow ts (update_where (\<lambda>x. ticketKey x = ticketKey u) (\<lambda>_. v) ts)"
proof -
  have keys: "map ticketKey (update_where (\<lambda>x. ticketKey x = ticketKey u) (\<lambda>_. v) ts) = map ticketKey ts"
    by (rule ticket_keys_update) (use assms(3) in simp)
  have "x = u" if "x \<in> set ts" "ticketKey x = ticketKey u" for x
    using assms(1,2) that by (auto simp: distinct_map inj_on_def)
  moreover have "v \<in> set (update_where (\<lambda>x. ticketKey x = ticketKey u) (\<lambda>_. v) ts)"
    using assms(2) by (auto simp: update_where_def image_iff)
  moreover have "x \<in> set (update_where (\<lambda>x. ticketKey x = ticketKey u) (\<lambda>_. v) ts)" if "x \<in> set ts" "ticketKey x \<noteq> ticketKey u" for x
    using that by (force simp: update_where_def image_iff)
  ultimately have "\<exists>w \<in> set (update_where (\<lambda>x. ticketKey x = ticketKey u) (\<lambda>_. v) ts). ticketKey w = ticketKey x \<and> (w = x \<or> tk_Revision x < tk_Revision w)"
    if "x \<in> set ts" for x
    using that assms(3,4) by (cases "ticketKey x = ticketKey u") blast+
  then show ?thesis unfolding tickets_grow_def keys using assms(1) by blast
qed

lemma updateFact_grow:
  assumes "updateFact ticketKey tk_Revision t ts = Some ts'" "distinct (map ticketKey ts)"
  shows "tickets_grow ts ts'"
proof -
  from assms(1) obtain u where u: "find_row (\<lambda>x. ticketKey x = ticketKey t) ts = Some u" "tk_Revision u < tk_Revision t"
    "ts' = update_where (\<lambda>x. ticketKey x = ticketKey t) (\<lambda>_. t) ts"
    by (auto simp: updateFact_def split: option.splits if_splits)
  from find_row_SomeD [OF u(1)] have "u \<in> set ts" "ticketKey t = ticketKey u" by auto
  with replace_grow [OF assms(2) this u(2)] u(3) show ?thesis by simp
qed

section \<open>The effect of a resolution\<close>

definition newResolution :: "SignedAction \<Rightarrow> string \<Rightarrow> Ticket \<Rightarrow> ActionReceipt \<Rightarrow> ResolutionRow" where
  "newResolution action authHash t receipt = (let a = sa_Authorization action in
     \<lparr>rw_TenantID = aa_TenantID a, rw_OperationID = aa_OperationID a, rw_BusinessRequestID = aa_BusinessRequestID a, rw_TicketID = tk_TicketID t,
      rw_AuthorizationHash = authHash, rw_Parameters = sa_Parameters action, rw_Receipt = receipt\<rparr>)"

definition resolutionKey :: "SignedAction \<Rightarrow> ResolutionRow \<Rightarrow> bool" where
  "resolutionKey action x \<longleftrightarrow> rw_TenantID x = aa_TenantID (sa_Authorization action) \<and> rw_OperationID x = aa_OperationID (sa_Authorization action)"

lemma ApplyResolution_cases:
  assumes "ApplyResolution env trusted tenant action now db = Inr (receipt, db')"
  obtains (replay) row where "tenant = aa_TenantID (sa_Authorization action)" "find_row (resolutionKey action) (ticket_resolutions db) = Some row"
      "AuthorizationHash env (sa_Authorization action) = Inr (rw_AuthorizationHash row)"
      "ParametersHash env (sa_Parameters action) = Inr (aa_ParametersHash (sa_Authorization action))"
      "isOk (ReceiptValidate env (rw_Receipt row) action)" "receipt = rw_Receipt row" "db' = db"
    | (fresh) authHash key t where "tenant = aa_TenantID (sa_Authorization action)" "find_row (resolutionKey action) (ticket_resolutions db) = None"
      "AuthorizationHash env (sa_Authorization action) = Inr authHash"
      "ParametersHash env (sa_Parameters action) = Inr (aa_ParametersHash (sa_Authorization action))"
      "map_of trusted (aa_KeyID (sa_Authorization action)) = Some key" "tenant \<in> set (tr_Tenants key)" "isOk (Verify env action (tr_PublicKey key))"
      "currentActionTicket env action db = Inr t"
      "aa_AuthorizedAt (sa_Authorization action) \<le> UnixMicro now" "UnixMicro now < aa_AuthorizationExpiresAt (sa_Authorization action)"
      "receipt = newReceipt env action authHash t now"
      "\<not> list_ex (\<lambda>x. rw_TenantID x = tenant \<and> rw_BusinessRequestID x = aa_BusinessRequestID (sa_Authorization action)) (ticket_resolutions db)"
      "db' = db\<lparr>tickets := update_where (\<lambda>x. ticketKey x = (tenant, tk_TicketID t)) (\<lambda>_. resolvedTicket (sa_Parameters action) t) (tickets db),
         ticket_resolutions := ticket_resolutions db @ [newResolution action authHash t receipt]\<rparr>"
proof -
  define a where "a = sa_Authorization action"
  from assms obtain authHash ph where h: "tenant = aa_TenantID a" "AuthorizationHash env a = Inr authHash" "ParametersHash env (sa_Parameters action) = Inr ph"
    by (auto simp: ApplyResolution_def a_def Let_def result_simps)
  have key: "find_row (\<lambda>x. rw_TenantID x = tenant \<and> rw_OperationID x = aa_OperationID a) (ticket_resolutions db) = find_row (resolutionKey action) (ticket_resolutions db)"
    by (simp add: resolutionKey_def [abs_def] h(1) a_def)
  show thesis
  proof (cases "find_row (resolutionKey action) (ticket_resolutions db)")
    case (Some row)
    have "rw_AuthorizationHash row = authHash \<and> ph = aa_ParametersHash a \<and> isOk (ReceiptValidate env (rw_Receipt row) action) \<and> receipt = rw_Receipt row \<and> db' = db"
      using assms h Some key unfolding ApplyResolution_def Let_def a_def [symmetric] by (simp split: if_splits)
    with replay Some h show thesis by (simp add: a_def)
  next
    case None
    define rest where "rest = (case map_of trusted (aa_KeyID a) of
           None \<Rightarrow> Inl BizActionForbidden
         | Some key \<Rightarrow>
           if tenant \<notin> set (tr_Tenants key) \<or> \<not> isOk (Verify env action (tr_PublicKey key)) then Inl BizActionForbidden
           else bindE (currentActionTicket env action db) (\<lambda>t.
           if UnixMicro now \<ge> aa_AuthorizationExpiresAt a then Inl BizAuthorizationExpired
           else if UnixMicro now < aa_AuthorizedAt a then Inl BizActionForbidden
           else bindE (insertResolution (newResolution action authHash t (newReceipt env action authHash t now))
             (db\<lparr>tickets := update_where (\<lambda>x. tk_TenantID x = tenant \<and> tk_TicketID x = tk_TicketID t)
                 (\<lambda>_. resolvedTicket (sa_Parameters action) t) (tickets db)\<rparr>)) (\<lambda>db2. Inr (newReceipt env action authHash t now, db2))))"
    have "rest = Inr (receipt, db')"
      using assms h(2,3) None key unfolding ApplyResolution_def rest_def newResolution_def Let_def a_def [symmetric] h(1) by simp
    then obtain k t db1 where f: "map_of trusted (aa_KeyID a) = Some k" "tenant \<in> set (tr_Tenants k)" "isOk (Verify env action (tr_PublicKey k))"
      "currentActionTicket env action db = Inr t" "aa_AuthorizedAt a \<le> UnixMicro now" "UnixMicro now < aa_AuthorizationExpiresAt a"
      "receipt = newReceipt env action authHash t now"
      "insertResolution (newResolution action authHash t receipt) (db\<lparr>tickets := update_where (\<lambda>x. tk_TenantID x = tenant \<and> tk_TicketID x = tk_TicketID t)
                 (\<lambda>_. resolvedTicket (sa_Parameters action) t) (tickets db)\<rparr>) = Inr db'"
      unfolding rest_def by (auto simp: result_simps split: option.splits if_splits)
    have "ph = aa_ParametersHash a" using f(3) h(3) by (auto simp: Verify_def a_def split: if_splits)
    moreover have "\<not> list_ex (\<lambda>x. rw_TenantID x = tenant \<and> rw_BusinessRequestID x = aa_BusinessRequestID a) (ticket_resolutions db)"
      using f(8) h(1) by (auto simp: insertResolution_def newResolution_def Let_def a_def list_ex_iff split: if_splits)
    moreover have "db' = db\<lparr>tickets := update_where (\<lambda>x. ticketKey x = (tenant, tk_TicketID t)) (\<lambda>_. resolvedTicket (sa_Parameters action) t) (tickets db),
         ticket_resolutions := ticket_resolutions db @ [newResolution action authHash t receipt]\<rparr>"
      using f(8) by (auto simp: insertResolution_def split: if_splits)
    ultimately show thesis using fresh [of authHash k t] None h f by (simp add: a_def)
  qed
qed

text \<open>The JSON text of a version vector with valid identifiers determines the vector.\<close>

definition vector_text_faithful :: "business_env \<Rightarrow> bool" where
  "vector_text_faithful env \<longleftrightarrow> (\<forall>v w. validVector env v \<longrightarrow> be_json env (VVector v) = be_json env (VVector w) \<longrightarrow> v = w)"

lemma snapshotVector_fields:
  "vv_TicketID (snapshotVector t od d p i) = tk_TicketID t" "vv_TicketRevision (snapshotVector t od d p i) = tk_Revision t"
  by (simp_all add: snapshotVector_def Let_def split: option.splits)

lemma currentVector_fields:
  "currentVector tenant i t db = Inr v \<Longrightarrow> vv_TicketID v = tk_TicketID t \<and> vv_TicketRevision v = tk_Revision t"
  by (auto simp: currentVector_def Let_def result_simps case_option_Inr snapshotVector_fields)

lemma currentActionTicket_effect:
  assumes "currentActionTicket env action db = Inr t" and json: "vector_text_faithful env" and auth: "AuthorizationHash env (sa_Authorization action) = Inr h"
  obtains row where "row \<in> set (snapshots db)" "sn_TenantID (sw_Snapshot row) = aa_TenantID (sa_Authorization action)"
    "sn_ID (sw_Snapshot row) = aa_SnapshotID (sa_Authorization action)" "sn_ContentHash (sw_Snapshot row) = aa_SnapshotHash (sa_Authorization action)"
    "SnapshotVersionVector (sw_Snapshot row) = aa_VersionVector (sa_Authorization action)"
    "tk_TicketID (sn_Ticket (sw_Snapshot row)) = rp_TicketID (sa_Parameters action)"
    "rp_Action (sa_Parameters action) = ''record_conclusion'' \<longrightarrow> rp_TargetTicketStatus (sa_Parameters action) = tk_Status (sn_Ticket (sw_Snapshot row))"
    "findTicket (aa_TenantID (sa_Authorization action)) (rp_TicketID (sa_Parameters action)) db = Some t"
    "currentVector (aa_TenantID (sa_Authorization action)) (vv_IndexID (aa_VersionVector (sa_Authorization action))) t db = Inr (aa_VersionVector (sa_Authorization action))"
proof -
  define a where "a = sa_Authorization action"
  have vec: "validVector env (aa_VersionVector a)" using auth by (auto simp: AuthorizationHash_def validAuthorization_def a_def split: if_splits)
  have eq: "be_json env (VVector (aa_VersionVector a)) = be_json env (VVector w) \<Longrightarrow> w = aa_VersionVector a" for w
    using json vec unfolding vector_text_faithful_def by metis
  from assms(1) obtain row where row: "find_row (\<lambda>x. sn_TenantID (sw_Snapshot x) = aa_TenantID a \<and> sn_ID (sw_Snapshot x) = aa_SnapshotID a) (snapshots db) = Some row"
    by (auto simp: currentActionTicket_def Let_def a_def split: option.splits)
  have "sn_ContentHash (sw_Snapshot row) = aa_SnapshotHash a" "be_json env (VVector (aa_VersionVector a)) = be_json env (VVector (SnapshotVersionVector (sw_Snapshot row)))"
    "tk_TicketID (sn_Ticket (sw_Snapshot row)) = rp_TicketID (sa_Parameters action)"
    "rp_Action (sa_Parameters action) = ''record_conclusion'' \<longrightarrow> rp_TargetTicketStatus (sa_Parameters action) = tk_Status (sn_Ticket (sw_Snapshot row))"
    "findTicket (aa_TenantID a) (rp_TicketID (sa_Parameters action)) db = Some t"
    "\<exists>v. currentVector (aa_TenantID a) (vv_IndexID (aa_VersionVector a)) t db = Inr v \<and> be_json env (VVector (aa_VersionVector a)) = be_json env (VVector v)"
    using assms(1) row unfolding currentActionTicket_def Let_def a_def [symmetric] by (auto simp: result_simps split: option.splits if_splits)
  note r = this
  from r(6) eq have "currentVector (aa_TenantID a) (vv_IndexID (aa_VersionVector a)) t db = Inr (aa_VersionVector a)" by blast
  with that [of row] find_row_SomeD [OF row] r(1,3,4,5) eq [OF r(2)] show thesis by (simp add: a_def)
qed

section \<open>The invariant is kept\<close>

lemma findTicket_mem: "findTicket tenant i db = Some t \<Longrightarrow> t \<in> set (tickets db) \<and> ticketKey t = (tenant, i)"
  unfolding findTicket_def by (drule find_row_SomeD) simp

lemma currentActionTicket_found:
  "currentActionTicket env action db = Inr t \<Longrightarrow> findTicket (aa_TenantID (sa_Authorization action)) (rp_TicketID (sa_Parameters action)) db = Some t"
  by (auto simp: currentActionTicket_def Let_def result_simps case_option_Inr split: if_splits)

lemma newReceipt_fields:
  "rt_BeforeRevision (newReceipt env action h t now) = tk_Revision t" "rt_AfterRevision (newReceipt env action h t now) = tk_Revision t + 1"
  by (simp_all add: newReceipt_def Let_def resolvedTicket_def)

lemma newResolution_fields:
  "rw_TenantID (newResolution action h t rc) = aa_TenantID (sa_Authorization action)" "rw_TicketID (newResolution action h t rc) = tk_TicketID t"
  "rw_OperationID (newResolution action h t rc) = aa_OperationID (sa_Authorization action)" "rw_Receipt (newResolution action h t rc) = rc"
  "rw_BusinessRequestID (newResolution action h t rc) = aa_BusinessRequestID (sa_Authorization action)" "rw_AuthorizationHash (newResolution action h t rc) = h"
  by (simp_all add: newResolution_def Let_def)

lemma resolve_preserves:
  assumes inv: "business_inv db" and res: "ApplyResolution env trusted tenant action now db = Inr (receipt, db')"
  shows "business_inv db'"
  using res
proof (cases rule: ApplyResolution_cases)
  case (fresh authHash key t)
  define row where "row = newResolution action authHash t receipt"
  define v where "v = resolvedTicket (sa_Parameters action) t"
  note t = findTicket_mem [OF currentActionTicket_found [OF fresh(8)]]
  have v: "ticketKey v = ticketKey t" "tk_Revision v = tk_Revision t + 1" by (simp_all add: v_def resolvedTicket_def)
  have tkey: "ticketKey t = (tenant, tk_TicketID t)" using t fresh(1) by simp
  have db': "tickets db' = update_where (\<lambda>x. ticketKey x = ticketKey t) (\<lambda>_. v) (tickets db)" "snapshots db' = snapshots db"
    "ticket_resolutions db' = ticket_resolutions db @ [row]"
    unfolding fresh(13) tkey by (simp_all add: v_def row_def)
  have grow: "tickets_grow (tickets db) (tickets db')" unfolding db'(1)
    by (rule replace_grow [OF business_parts(1) [OF inv] _ v(1)]) (use t v in simp_all)
  have vin: "v \<in> set (tickets db')" using t unfolding db'(1) by (auto simp: update_where_def image_iff)
  have row: "rw_TenantID row = tenant" "rw_TicketID row = tk_TicketID t" "rw_OperationID row = aa_OperationID (sa_Authorization action)"
    "rw_BusinessRequestID row = aa_BusinessRequestID (sa_Authorization action)" "rt_BeforeRevision (rw_Receipt row) = tk_Revision t"
    "rt_AfterRevision (rw_Receipt row) = tk_Revision t + 1"
    using fresh(1) by (simp_all add: row_def newResolution_fields fresh(11) newReceipt_fields)
  have "resolved_ok (tickets db') row" unfolding resolved_ok_def using vin v row tkey by auto
  moreover have older: "rt_BeforeRevision (rw_Receipt x) < tk_Revision t"
    if x: "x \<in> set (ticket_resolutions db)" "rw_TenantID x = tenant" "rw_TicketID x = tk_TicketID t" for x
  proof -
    from business_parts(3) [OF inv x(1)] obtain u where u: "rt_AfterRevision (rw_Receipt x) = rt_BeforeRevision (rw_Receipt x) + 1"
      "u \<in> set (tickets db)" "ticketKey u = ticketKey t" "rt_AfterRevision (rw_Receipt x) \<le> tk_Revision u"
      unfolding resolved_ok_def using x(2,3) tkey by auto
    have "u = t" using business_parts(1) [OF inv] u(2,3) t by (auto simp: distinct_map inj_on_def)
    with u show ?thesis by simp
  qed
  moreover have "(tenant, aa_OperationID (sa_Authorization action)) \<notin> (\<lambda>x. (rw_TenantID x, rw_OperationID x)) ` set (ticket_resolutions db)"
    using fresh(1,2) by (auto simp: find_row_None_iff resolutionKey_def)
  moreover have "(tenant, aa_BusinessRequestID (sa_Authorization action)) \<notin> (\<lambda>x. (rw_TenantID x, rw_BusinessRequestID x)) ` set (ticket_resolutions db)"
    using fresh(12) by (auto simp: list_ex_iff)
  moreover have "(tenant, tk_TicketID t, tk_Revision t) \<notin> (\<lambda>x. (rw_TenantID x, rw_TicketID x, rt_BeforeRevision (rw_Receipt x))) ` set (ticket_resolutions db)"
    using older by force
  ultimately show ?thesis using inv grow grow_captured [OF grow] grow_resolved [OF grow] unfolding business_inv_def db'(2,3)
    by (auto simp: row tickets_grow_def)
qed (use inv in simp)

lemma snapshot_preserves:
  assumes inv: "business_inv db" and create: "CreateSnapshot env newID tenant req now db = Inr (res, db')"
  shows "business_inv db'"
proof -
  from create have once: "createSnapshotOnce env newID tenant req now db = Inr (res, db')" by (simp add: CreateSnapshot_def split: if_splits)
  have "db' = db \<or> (\<exists>x t. db' = db\<lparr>snapshots := snapshots db @ [x]\<rparr> \<and> findTicket tenant (sq_TicketID req) db = Some t \<and>
      sn_Ticket (sw_Snapshot x) = t \<and> sn_TenantID (sw_Snapshot x) = tenant)"
  proof (cases "find_row (\<lambda>x. sn_TenantID (sw_Snapshot x) = tenant \<and> sw_Key x = sq_RequestKey req) (snapshots db)")
    case None
    with once show ?thesis unfolding createSnapshotOnce_def Let_def by (auto simp: case_option_Inr split: if_splits)
  next
    case (Some x)
    with once show ?thesis unfolding createSnapshotOnce_def Let_def by (auto split: if_splits)
  qed
  then show ?thesis
  proof (elim disjE exE conjE)
    fix x t
    assume x: "db' = db\<lparr>snapshots := snapshots db @ [x]\<rparr>" "findTicket tenant (sq_TicketID req) db = Some t" "sn_Ticket (sw_Snapshot x) = t"
      "sn_TenantID (sw_Snapshot x) = tenant"
    from findTicket_mem [OF x(2)] have "captured_ok (tickets db) t" "tk_TenantID t = tenant" unfolding captured_ok_def by auto
    with inv x show ?thesis by (auto simp: business_inv_def)
  qed (use inv in simp)
qed

lemma other_tables:
  assumes inv: "business_inv db"
  shows "PublishIndex env vectorOK newID up now db = Inr (index, db') \<Longrightarrow> business_inv db'"
    "business_inv (db\<lparr>orders := os\<rparr>)" "business_inv (db\<lparr>deliveries := ds\<rparr>)" "business_inv (db\<lparr>policy_versions := ps\<rparr>)"
proof -
  show "business_inv db'" if "PublishIndex env vectorOK newID up now db = Inr (index, db')"
  proof -
    from that obtain xs where "db' = db\<lparr>policy_indexes := xs\<rparr> \<or> db' = db"
      unfolding PublishIndex_def Let_def by (auto simp: result_simps case_option_Inr split: if_splits option.splits)
    with inv show ?thesis by (auto simp: business_inv_def)
  qed
qed (use inv in \<open>simp_all add: business_inv_def\<close>)

lemma import_preserves:
  assumes inv: "business_inv db" and imp: "ImportDataset env ds db = Inr db'"
  shows "business_inv db'"
proof -
  from imp consider "db' = db" | ts where "insertSources env ticketKey VTicket (ds_Tickets ds) (tickets db) = Inr ts" "tickets db' = ts"
      "snapshots db' = snapshots db" "ticket_resolutions db' = ticket_resolutions db"
    unfolding ImportDataset_def by (auto simp: result_simps split: option.splits if_splits)
  then show ?thesis
  proof cases
    case (2 ts)
    with grow_inv [OF inv _ 2(3,4)] insertSources_grow [OF 2(1) business_parts(1) [OF inv]] show ?thesis by simp
  qed (use inv in simp)
qed

lemma ticket_update_preserves:
  assumes inv: "business_inv db" and up: "updateFact ticketKey tk_Revision t (tickets db) = Some ts"
  shows "business_inv (db\<lparr>tickets := ts\<rparr>)"
  by (rule grow_inv [OF inv]) (use updateFact_grow [OF up business_parts(1) [OF inv]] in simp_all)

lemma business_step_preserves:
  assumes "business_step env db db'" and inv: "business_inv db"
  shows "business_inv db'"
  using assms(1)
proof (cases rule: business_step.cases)
  case (import_facts ds)
  then show ?thesis by (rule import_preserves [OF inv])
next
  case (publish vectorOK newID up now index)
  then show ?thesis by (rule other_tables(1) [OF inv])
next
  case (snapshot newID tenant req now s)
  then show ?thesis by (rule snapshot_preserves [OF inv])
next
  case (resolve trusted tenant action now receipt)
  then show ?thesis by (rule resolve_preserves [OF inv])
next
  case (ticket_update t ts)
  then show ?thesis using ticket_update_preserves [OF inv] by simp
qed (simp_all add: other_tables [OF inv])

lemma empty_business_inv: "business_inv empty_business"
  by (simp add: business_inv_def empty_business_def)

interpretation business: inductive_invariant "\<lambda>db. db = empty_business" "business_step env" business_inv
  by unfold_locales (blast intro: empty_business_inv business_step_preserves)+

section \<open>Receipts\<close>

text \<open>The ticket that passed the version vector is the ticket of the snapshot.\<close>

lemma current_is_captured:
  assumes inv: "business_inv db" and json: "vector_text_faithful env" and auth: "AuthorizationHash env (sa_Authorization action) = Inr h"
    and cur: "currentActionTicket env action db = Inr t"
  shows "\<exists>row \<in> set (snapshots db). sn_ID (sw_Snapshot row) = aa_SnapshotID (sa_Authorization action) \<and>
    sn_ContentHash (sw_Snapshot row) = aa_SnapshotHash (sa_Authorization action) \<and> sn_Ticket (sw_Snapshot row) = t \<and>
    SnapshotVersionVector (sw_Snapshot row) = aa_VersionVector (sa_Authorization action) \<and>
    (rp_Action (sa_Parameters action) = ''record_conclusion'' \<longrightarrow> rp_TargetTicketStatus (sa_Parameters action) = tk_Status t) \<and>
    currentVector (aa_TenantID (sa_Authorization action)) (vv_IndexID (aa_VersionVector (sa_Authorization action))) t db = Inr (aa_VersionVector (sa_Authorization action))"
proof -
  from cur json auth obtain row where row: "row \<in> set (snapshots db)" "sn_TenantID (sw_Snapshot row) = aa_TenantID (sa_Authorization action)"
    "sn_ID (sw_Snapshot row) = aa_SnapshotID (sa_Authorization action)" "sn_ContentHash (sw_Snapshot row) = aa_SnapshotHash (sa_Authorization action)"
    "SnapshotVersionVector (sw_Snapshot row) = aa_VersionVector (sa_Authorization action)"
    "tk_TicketID (sn_Ticket (sw_Snapshot row)) = rp_TicketID (sa_Parameters action)"
    "rp_Action (sa_Parameters action) = ''record_conclusion'' \<longrightarrow> rp_TargetTicketStatus (sa_Parameters action) = tk_Status (sn_Ticket (sw_Snapshot row))"
    "findTicket (aa_TenantID (sa_Authorization action)) (rp_TicketID (sa_Parameters action)) db = Some t"
    "currentVector (aa_TenantID (sa_Authorization action)) (vv_IndexID (aa_VersionVector (sa_Authorization action))) t db = Inr (aa_VersionVector (sa_Authorization action))"
    by (rule currentActionTicket_effect)
  define s where "s = sn_Ticket (sw_Snapshot row)"
  note t = findTicket_mem [OF row(8)]
  have key: "ticketKey s = ticketKey t" using business_parts(2) [OF inv row(1)] row(2,6) t by (simp add: s_def)
  have rev: "tk_Revision s = tk_Revision t"
    using currentVector_fields [OF row(9)] arg_cong [OF row(5), of vv_TicketRevision] by (simp add: SnapshotVersionVector_def snapshotVector_fields s_def)
  from business_parts(2) [OF inv row(1)] obtain u where u: "u \<in> set (tickets db)" "ticketKey u = ticketKey s" "tk_Revision s = tk_Revision u \<longrightarrow> u = s"
    unfolding captured_ok_def s_def by blast
  have "u = t" using business_parts(1) [OF inv] u(1,2) t key by (auto simp: distinct_map inj_on_def)
  with u(3) rev have "s = t" by simp
  with row show ?thesis unfolding s_def by blast
qed

lemma UnixMicro_retain: "UnixMicro (now + retentionMicros * 1000) = UnixMicro now + retentionMicros"
  by (simp add: UnixMicro_def)

lemma fresh_receipt_valid:
  assumes inv: "business_inv db" and json: "vector_text_faithful env" and auth: "AuthorizationHash env (sa_Authorization action) = Inr h"
    and cur: "currentActionTicket env action db = Inr t" and time: "aa_AuthorizedAt (sa_Authorization action) \<le> UnixMicro now"
      "UnixMicro now < aa_AuthorizationExpiresAt (sa_Authorization action)" "UnixMicro now + retentionMicros \<le> actionSafeInteger"
  shows "ReceiptValidate env (newReceipt env action h t now) action = Inr ()"
proof -
  from current_is_captured [OF inv json auth cur] obtain row where row:
    "rp_Action (sa_Parameters action) = ''record_conclusion'' \<longrightarrow> rp_TargetTicketStatus (sa_Parameters action) = tk_Status t"
    "currentVector (aa_TenantID (sa_Authorization action)) (vv_IndexID (aa_VersionVector (sa_Authorization action))) t db = Inr (aa_VersionVector (sa_Authorization action))"
    by blast
  note t = findTicket_mem [OF currentActionTicket_found [OF cur]] and v = currentVector_fields [OF row(2)]
  show ?thesis using auth row(1) t v time
    by (simp add: ReceiptValidate_def newReceipt_def Let_def resolvedTicket_def UnixMicro_retain ensureE_def ActionReceiptHash_def)
qed

lemma step_resolutions:
  assumes "business_step env db db'"
  shows "\<exists>rows. ticket_resolutions db' = ticket_resolutions db @ rows"
  using assms
proof (cases rule: business_step.cases)
  case (import_facts ds)
  then show ?thesis unfolding ImportDataset_def by (auto simp: result_simps split: option.splits if_splits)
next
  case (publish vectorOK newID up now index)
  then show ?thesis unfolding PublishIndex_def Let_def by (auto simp: result_simps case_option_Inr split: if_splits option.splits)
next
  case (snapshot newID tenant req now s)
  then show ?thesis unfolding CreateSnapshot_def createSnapshotOnce_def Let_def by (auto simp: case_option_Inr split: if_splits option.splits)
next
  case (resolve trusted tenant action now receipt)
  then show ?thesis by (cases rule: ApplyResolution_cases) auto
qed simp_all

lemma steps_resolutions:
  assumes "(business_step env)\<^sup>*\<^sup>* db db'"
  shows "\<exists>rows. ticket_resolutions db' = ticket_resolutions db @ rows"
  using assms
proof (induction rule: rtranclp_induct)
  case (step y z)
  then show ?case using step_resolutions [OF step.hyps(2)] by force
qed simp

lemma resolved_answer:
  assumes "find_row (resolutionKey action) (ticket_resolutions db) = Some row" "AuthorizationHash env (sa_Authorization action) = Inr (rw_AuthorizationHash row)"
    "ParametersHash env (sa_Parameters action) = Inr (aa_ParametersHash (sa_Authorization action))" "isOk (ReceiptValidate env (rw_Receipt row) action)"
  shows "ApplyResolution env trusted (aa_TenantID (sa_Authorization action)) action now db = Inr (rw_Receipt row, db)"
  using assms by (simp add: ApplyResolution_def Let_def resolutionKey_def [abs_def])

lemma step_snapshots:
  assumes "business_step env db db'"
  shows "\<exists>rows. snapshots db' = snapshots db @ rows"
  using assms
proof (cases rule: business_step.cases)
  case (import_facts ds)
  then show ?thesis unfolding ImportDataset_def by (auto simp: result_simps split: option.splits if_splits)
next
  case (publish vectorOK newID up now index)
  then show ?thesis unfolding PublishIndex_def Let_def by (auto simp: result_simps case_option_Inr split: if_splits option.splits)
next
  case (snapshot newID tenant req now s)
  then show ?thesis unfolding CreateSnapshot_def createSnapshotOnce_def Let_def by (auto simp: case_option_Inr split: if_splits option.splits)
next
  case (resolve trusted tenant action now receipt)
  then show ?thesis by (cases rule: ApplyResolution_cases) auto
qed simp_all

lemma steps_snapshots:
  assumes "(business_step env)\<^sup>*\<^sup>* db db'"
  shows "\<exists>rows. snapshots db' = snapshots db @ rows"
  using assms
proof (induction rule: rtranclp_induct)
  case (step y z)
  then show ?case using step_snapshots [OF step.hyps(2)] by force
qed simp

lemma GetSnapshot_kept:
  assumes "GetSnapshot env tenant i db = Inr s" "(business_step env)\<^sup>*\<^sup>* db db'"
  shows "GetSnapshot env tenant i db' = Inr s"
proof -
  from steps_snapshots [OF assms(2)] obtain rows where rows: "snapshots db' = snapshots db @ rows" by blast
  with assms(1) show ?thesis
    by (auto simp: GetSnapshot_def case_option_Inr find_row_append_hit split: if_splits)
qed

section \<open>Readiness\<close>

lemma currentIndex_latest: "currentIndex tenant p db = map_option ir_Index (latestIndexRow tenant p db)"
  by (simp add: currentIndex_def latestIndexRow_def split: list.splits)

lemma ready_ticket:
  assumes "CheckTenantReady tenant db = Inr ()" "t \<in> set (tickets db)" "tk_TenantID t = tenant"
  shows "readyRow tenant db t" "ValidIdentifier tenant"
proof -
  define rows where "rows = sort_key tk_TicketID (filter (\<lambda>t. tk_TenantID t = tenant) (tickets db))"
  from assms(1) have ready: "ValidIdentifier tenant" "length (take 41 rows) \<le> 40" "list_all (readyRow tenant db) (take 41 rows)"
    by (auto simp: CheckTenantReady_def rows_def Let_def ensureE_def split: if_splits)
  from ready(2) have "take 41 rows = rows" by simp
  moreover have "t \<in> set rows" using assms(2,3) by (simp add: rows_def)
  ultimately show "readyRow tenant db t" "ValidIdentifier tenant" using ready by (auto simp: list_all_iff)
qed

definition reachable_business :: "business_env \<Rightarrow> business_db \<Rightarrow> bool" where
  "reachable_business env = reachable (\<lambda>db. db = empty_business) (business_step env)"

lemma reachable_business_inv: "reachable_business env db \<Longrightarrow> business_inv db"
  unfolding reachable_business_def by (rule business.invariant)

end
