(* ===== verification/BusinessDemo.thy ===== *)
theory BusinessDemo
  imports BusinessInv RunAudit
begin

text \<open>
  A small business database, evaluated in the kernel: one policy with its index, one ticket, a
  snapshot, and an approved escalation that is applied. Its states are the witnesses of the
  component's theorems.
\<close>

section \<open>A faithful text of version vectors\<close>

definition enc_text :: "string \<Rightarrow> string" where
  "enc_text s = concat (map (\<lambda>c. [CHR ''+'', c]) s) @ ''.''"

definition enc_option :: "('a \<Rightarrow> string) \<Rightarrow> 'a option \<Rightarrow> string" where
  "enc_option f v = (case v of None \<Rightarrow> ''n'' | Some x \<Rightarrow> CHR ''s'' # f x)"

definition vector_fields :: "VersionVector \<Rightarrow> string list" where
  "vector_fields v = [show_int (vv_SchemaVersion v), vv_TicketID v, show_int (vv_TicketRevision v), enc_option id (vv_OrderID v),
     (if vv_OrderExists v then ''t'' else ''f''), enc_option show_int (vv_OrderRevision v), enc_option id (vv_DeliveryID v),
     (if vv_DeliveryExists v then ''t'' else ''f''), enc_option show_int (vv_AggregateRevision v), vv_PolicyVersion v,
     show_int (vv_PolicyRevision v), vv_CorpusSHA256 v, vv_IndexID v, vv_ProfileHash v, vv_ContentHash v]"

definition demo_json :: "business_value \<Rightarrow> string" where
  "demo_json value = (case value of VVector v \<Rightarrow> concat (map enc_text (vector_fields v)) | _ \<Rightarrow> ''{}'')"

definition demo_benv :: business_env where
  "demo_benv = \<lparr>be_sha = (\<lambda>_. sample_hash), be_parseUUID = Some, be_json = demo_json, be_claims = (\<lambda>_ _. True), be_public = (\<lambda>k. k),
     be_sign = (\<lambda>k h. k @ h), be_verify = (\<lambda>k h s. s = k @ h)\<rparr>"

lemma enc_text_cancel: "enc_text s @ x = enc_text t @ y \<Longrightarrow> s = t \<and> x = y"
proof (induction s arbitrary: t)
  case Nil
  then show ?case by (cases t) (auto simp: enc_text_def)
next
  case (Cons c s)
  then show ?case by (cases t) (auto simp: enc_text_def)
qed

lemma enc_list_inj: "length xs = length ys \<Longrightarrow> concat (map enc_text xs) = concat (map enc_text ys) \<Longrightarrow> xs = ys"
  by (induction xs ys rule: list_induct2) (auto dest: enc_text_cancel)

lemma enc_option_inj: "(\<And>x y. f x = f y \<longleftrightarrow> x = y) \<Longrightarrow> enc_option f v = enc_option f w \<longleftrightarrow> v = w"
  by (auto simp: enc_option_def split: option.splits)

lemma demo_faithful: "vector_text_faithful demo_benv"
proof -
  have "v = w" if "demo_json (VVector v) = demo_json (VVector w)" for v w
  proof -
    from that have "vector_fields v = vector_fields w" by (intro enc_list_inj) (simp_all add: demo_json_def vector_fields_def)
    then show ?thesis
      by (cases v; cases w) (simp add: vector_fields_def enc_option_inj show_int_inj split: if_splits)
  qed
  then show ?thesis by (simp add: vector_text_faithful_def demo_benv_def)
qed

section \<open>The history\<close>

definition demo_policy :: PolicyVersion where
  "demo_policy = \<lparr>pv_TenantID = ''t1'', pv_PolicyVersion = ''v1'', pv_Revision = 1, pv_CorpusSHA256 = sample_hash\<rparr>"

definition demo_ticket :: Ticket where
  "demo_ticket = \<lparr>tk_TenantID = ''t1'', tk_TicketID = ''ticket'', tk_Revision = 1, tk_ObservedAt = 1, tk_OrderID = None, tk_PolicyVersion = ''v1'',
     tk_Subject = ''late'', tk_Description = ''text'', tk_Status = ''open''\<rparr>"

definition demo_dataset :: Dataset where
  "demo_dataset = \<lparr>ds_SchemaVersion = 1, ds_DatasetVersion = ''d1'', ds_Policies = [demo_policy], ds_Tickets = [demo_ticket], ds_Orders = [], ds_Deliveries = []\<rparr>"

definition demo_iprofile :: IndexProfile where
  "demo_iprofile = \<lparr>ip_PolicyVersion = ''v1'', ip_CorpusSHA256 = sample_hash, ip_ChunkerVersion = ''paragraph-v1'', ip_EmbeddingModel = ''all-minilm:22m'',
     ip_EmbeddingDigest = ''1b226e2802dbb772b5fc32a58f103ca1804ef7501331012de126ab22f67475ef'', ip_Dimensions = 384\<rparr>"

definition demo_index :: PublishedIndex where
  "demo_index = \<lparr>ix_ID = ''i1'', ix_TenantID = ''t1'', ix_ProfileHash = sample_hash, ix_ContentHash = sample_hash, ix_Profile = demo_iprofile, ix_PublishedAt = 1\<rparr>"

definition demo_upload :: IndexUpload where
  "demo_upload = \<lparr>iu_SchemaVersion = 1, iu_PrepareID = '''', iu_TenantID = ''t1'', iu_Profile = demo_iprofile, iu_Chunks = [(''c1'', ''policy'', ''text'', ''[1]'')]\<rparr>"

definition demo_snap :: Snapshot where
  "demo_snap = \<lparr>sn_ID = ''s1'', sn_TenantID = ''t1'', sn_SchemaVersion = 1, sn_AsOf = 1, sn_CreatedAt = 5, sn_ContentHash = sample_hash, sn_Ticket = demo_ticket,
     sn_Order = None, sn_Delivery = None, sn_Policy = demo_policy, sn_Index = demo_index\<rparr>"

definition demo_facts :: business_db where
  "demo_facts = empty_business\<lparr>dataset_imports := [(''d1'', sample_hash)], policy_versions := [demo_policy], tickets := [demo_ticket]\<rparr>"

definition demo_published :: business_db where
  "demo_published = demo_facts\<lparr>policy_indexes := [\<lparr>ir_Index = demo_index, ir_PolicyVersion = ''v1'', ir_CorpusSHA256 = sample_hash,
     ir_Chunks = [(''c1'', ''policy'', ''text'', ''[1]'')]\<rparr>]\<rparr>"

definition demo_captured :: business_db where
  "demo_captured = demo_published\<lparr>snapshots := [\<lparr>sw_Key = ''k1'', sw_RequestHash = sample_hash, sw_Snapshot = demo_snap\<rparr>]\<rparr>"

lemma demo_import: "ImportDataset demo_benv demo_dataset empty_business = Inr demo_facts"
  by code_simp

lemma demo_publish: "PublishIndex demo_benv (\<lambda>_. True) ''i1'' demo_upload 1 demo_facts = Inr ((demo_index, False), demo_published)"
  by code_simp

lemma demo_snapshot: "CreateSnapshot demo_benv ''s1'' ''t1'' \<lparr>sq_SchemaVersion = 1, sq_TicketID = ''ticket'', sq_RequestKey = ''k1''\<rparr> 5 demo_published =
    Inr ((demo_snap, False), demo_captured)"
  by code_simp

section \<open>An approved action\<close>

definition demo_params :: ResolutionParameters where
  "demo_params = \<lparr>rp_TicketID = ''ticket'', rp_Decision = ''proposal'', rp_Action = ''escalate'', rp_Conclusion = ''delayed'', rp_RequestedFields = Some [],
     rp_TargetTicketStatus = ''escalated'', rp_Summary = ''late parcel'', rp_Claims = ''[]'', rp_EvidenceRefs = Some [''ticket'']\<rparr>"

definition demo_authorization :: ActionAuthorization where
  "demo_authorization = \<lparr>aa_SchemaVersion = 1, aa_KeyID = ''key'', aa_Operation = ''apply_ticket_resolution'', aa_TenantID = ''t1'', aa_BusinessRequestID = ''q1'',
     aa_BusinessRequestCreatedAt = 1, aa_OperationID = ''op1'', aa_RunID = ''r1'', aa_ApprovalID = ''ap1'', aa_ActorID = ''alice'', aa_DecidedAt = 2,
     aa_ProposalHash = sample_hash, aa_ParametersHash = sample_hash, aa_SnapshotID = ''s1'', aa_SnapshotHash = sample_hash,
     aa_VersionVector = SnapshotVersionVector demo_snap, aa_AuthorizedAt = 3, aa_PermissionExpiresAt = 1000, aa_AuthorizationExpiresAt = 1000, aa_RunDeadline = 2000\<rparr>"

definition demo_action :: SignedAction where
  "demo_action = \<lparr>sa_Authorization = demo_authorization, sa_Parameters = demo_params, sa_Signature = ''secret'' @ sample_hash\<rparr>"

definition demo_trusted :: "(string \<times> TrustedActionKey) list" where
  "demo_trusted = [(''key'', \<lparr>tr_PublicKey = ''secret'', tr_Tenants = [''t1'']\<rparr>)]"

definition demo_receipt :: ActionReceipt where
  "demo_receipt = \<lparr>rt_SchemaVersion = 1, rt_TenantID = ''t1'', rt_OperationID = ''op1'', rt_BusinessRequestID = ''q1'', rt_AuthorizationHash = sample_hash,
     rt_ProposalHash = sample_hash, rt_ParametersHash = sample_hash, rt_ApprovalID = ''ap1'', rt_TicketID = ''ticket'', rt_BeforeRevision = 1, rt_AfterRevision = 2,
     rt_TicketStatus = ''escalated'', rt_AppliedAt = 500, rt_RetainUntil = 500 + 2592000000000, rt_ReceiptHash = sample_hash\<rparr>"

definition demo_resolved :: business_db where
  "demo_resolved = demo_captured\<lparr>tickets := [demo_ticket\<lparr>tk_Revision := 2, tk_Status := ''escalated''\<rparr>],
     ticket_resolutions := [\<lparr>rw_TenantID = ''t1'', rw_OperationID = ''op1'', rw_BusinessRequestID = ''q1'', rw_TicketID = ''ticket'',
       rw_AuthorizationHash = sample_hash, rw_Parameters = demo_params, rw_Receipt = demo_receipt\<rparr>]\<rparr>"

lemma demo_fingerprint: "ActionFingerprint demo_benv d fs = sample_hash"
  by (simp add: ActionFingerprint_def demo_benv_def)

lemma demo_parameters: "ParametersHash demo_benv demo_params = Inr sample_hash"
proof -
  have "validText ''late parcel'' 8192" "ValidIdentifier ''ticket''" "validTarget demo_params" "validResolutionClaims demo_benv demo_params" by code_simp+
  then show ?thesis by (simp add: ParametersHash_def Let_def demo_fingerprint) (simp add: demo_params_def demo_benv_def demo_json_def)
qed

lemma demo_authorized: "AuthorizationHash demo_benv demo_authorization = Inr sample_hash"
proof -
  have "validAuthorization demo_benv demo_authorization" by code_simp
  then show ?thesis by (simp add: AuthorizationHash_def demo_fingerprint)
qed

lemma demo_action_fields:
  "sa_Authorization demo_action = demo_authorization" "sa_Parameters demo_action = demo_params" "sa_Signature demo_action = ''secret'' @ sample_hash"
  by (simp_all add: demo_action_def)

lemma demo_sign: "SignAction demo_benv demo_authorization demo_params ''secret'' = Inr demo_action"
proof -
  have "aa_ParametersHash demo_authorization = sample_hash" "vv_TicketID (aa_VersionVector demo_authorization) = ''ticket''" "rp_TicketID demo_params = ''ticket''"
    by (simp_all add: demo_authorization_def demo_params_def SnapshotVersionVector_def snapshotVector_fields demo_snap_def demo_ticket_def)
  then show ?thesis by (simp add: SignAction_def demo_parameters demo_authorized) (simp add: demo_action_def demo_benv_def)
qed

lemma demo_current: "currentActionTicket demo_benv demo_action demo_captured = Inr demo_ticket"
  by code_simp

lemma demo_verified: "Verify demo_benv demo_action ''secret'' = Inr ()"
proof -
  have "aa_ParametersHash demo_authorization = sample_hash" "vv_TicketID (aa_VersionVector demo_authorization) = ''ticket''" "rp_TicketID demo_params = ''ticket''"
    by (simp_all add: demo_authorization_def demo_params_def SnapshotVersionVector_def snapshotVector_fields demo_snap_def demo_ticket_def)
  then show ?thesis by (simp add: Verify_def demo_action_fields demo_parameters demo_authorized) (simp add: demo_benv_def)
qed

lemma demo_new_receipt: "newReceipt demo_benv demo_action sample_hash demo_ticket 500000 = demo_receipt"
  by (simp add: newReceipt_def Let_def demo_action_fields ActionReceiptHash_def demo_fingerprint)
    (simp add: demo_authorization_def demo_params_def demo_ticket_def resolvedTicket_def UnixMicro_def retentionMicros_def demo_receipt_def)

lemma demo_action_applied: "ApplyResolution demo_benv demo_trusted ''t1'' demo_action 500000 demo_captured = Inr (demo_receipt, demo_resolved)"
proof -
  have a: "aa_TenantID demo_authorization = ''t1''" "aa_KeyID demo_authorization = ''key''" "aa_AuthorizationExpiresAt demo_authorization = 1000"
    "aa_AuthorizedAt demo_authorization = 3" "aa_OperationID demo_authorization = ''op1''" "aa_BusinessRequestID demo_authorization = ''q1''"
    by (simp_all add: demo_authorization_def)
  have db: "ticket_resolutions demo_captured = []" "tickets demo_captured = [demo_ticket]"
    by (simp_all add: demo_captured_def demo_published_def demo_facts_def empty_business_def)
  have t: "tk_TenantID demo_ticket = ''t1''" "tk_TicketID demo_ticket = ''ticket''"
    "resolvedTicket demo_params demo_ticket = demo_ticket\<lparr>tk_Revision := 2, tk_Status := ''escalated''\<rparr>"
    by (simp_all add: demo_ticket_def resolvedTicket_def demo_params_def)
  show ?thesis
    by (simp add: ApplyResolution_def Let_def demo_action_fields a db t demo_authorized demo_parameters demo_trusted_def demo_verified demo_current
        UnixMicro_def demo_new_receipt insertResolution_def demo_resolved_def update_where_def)
qed

lemma demo_captured_reachable: "reachable_business demo_benv demo_captured"
proof -
  note next_state = reachable_step [of "\<lambda>db. db = empty_business" "business_step demo_benv"]
  have "reachable (\<lambda>db. db = empty_business) (business_step demo_benv) empty_business" by (rule reachable_start) simp
  note next_state [OF this business_step.import_facts [OF demo_import]]
  note next_state [OF this business_step.publish [OF demo_publish]]
  note next_state [OF this business_step.snapshot [OF demo_snapshot]]
  then show ?thesis unfolding reachable_business_def .
qed

lemma demo_resolved_reachable: "reachable_business demo_benv demo_resolved"
  using demo_captured_reachable unfolding reachable_business_def by (rule reachable_step) (rule business_step.resolve [OF demo_action_applied])

end
