(* ===== verification/BusinessProps.thy ===== *)
theory BusinessProps
  imports BusinessDemo
begin

text \<open>
  The properties of business actions: execution at most once with a lasting answer, execution only
  on the facts that were approved, one resolution per business request and per ticket revision,
  and what a signed authorization binds.
\<close>

text \<open>C14. A ticket resolution is executed at most once and is answered for ever: after an action
  has been applied, the same action, sent again at any time, under any set of trusted keys and after
  whatever else happened to the business database, is answered with the very same receipt and
  changes nothing; so a lost response can be repeated safely, even after the authorization expired.\<close>

theorem resolution_answered_for_ever:
  assumes "reachable_business env db" and "vector_text_faithful env"
    and "ApplyResolution env trusted tenant action now db = Inr (receipt, db')" and "UnixMicro now + retentionMicros \<le> actionSafeInteger"
    and "(business_step env)\<^sup>*\<^sup>* db' db''"
  shows "ApplyResolution env trusted' tenant action now' db'' = Inr (receipt, db'')"
proof -
  note inv = reachable_business_inv [OF assms(1)]
  from steps_resolutions [OF assms(5)] obtain rows where rows: "ticket_resolutions db'' = ticket_resolutions db' @ rows" by blast
  from assms(3) show ?thesis
  proof (cases rule: ApplyResolution_cases)
    case (replay row)
    show ?thesis unfolding replay(1,6)
      by (rule resolved_answer) (use replay(2-5,7) rows find_row_append_hit in simp_all)
  next
    case (fresh authHash key t)
    define row where "row = newResolution action authHash t receipt"
    have "find_row (resolutionKey action) (ticket_resolutions db') = Some row"
      unfolding fresh(13) using fresh(2) by (simp add: find_row_append row_def [symmetric]) (simp add: row_def resolutionKey_def newResolution_fields)
    then have found: "find_row (resolutionKey action) (ticket_resolutions db'') = Some row" unfolding rows by (rule find_row_append_hit)
    have valid: "isOk (ReceiptValidate env receipt action)"
      using fresh_receipt_valid [OF inv assms(2) fresh(3,8,9,10) assms(4)] fresh(11) by simp
    have "ApplyResolution env trusted' (aa_TenantID (sa_Authorization action)) action now' db'' = Inr (rw_Receipt row, db'')"
      by (rule resolved_answer [OF found]) (use fresh(3,4) valid in \<open>simp_all add: row_def newResolution_fields\<close>)
    then show ?thesis using fresh(1) by (simp add: row_def newResolution_fields)
  qed
qed

theorem resolution_answered_for_ever_witness:
  "ApplyResolution demo_benv [] ''t1'' demo_action (Hour * 24) demo_resolved = Inr (demo_receipt, demo_resolved)"
  by (rule resolution_answered_for_ever [OF demo_captured_reachable demo_faithful demo_action_applied])
    (simp_all add: UnixMicro_def retentionMicros_def actionSafeInteger_def)

section \<open>Only what was approved\<close>

text \<open>C15. A resolution takes effect only on the facts that were approved. When an action is
  applied for the first time, its key is trusted for the tenant and its signature verifies, the
  time is inside the authorization, the immutable snapshot with the authorized id and hash is there,
  the ticket is byte for byte the ticket of that snapshot, and the versions of ticket, order,
  delivery, policy and index are the authorized ones; the ticket then has the next revision with
  the approved status, no other ticket changes, and exactly one resolution is recorded.\<close>

theorem resolution_acts_on_approved_facts:
  assumes "reachable_business env db" and "vector_text_faithful env"
    and "ApplyResolution env trusted tenant action now db = Inr (receipt, db')" and "db' \<noteq> db"
  shows "\<exists>key row t. map_of trusted (aa_KeyID (sa_Authorization action)) = Some key \<and> tenant \<in> set (tr_Tenants key) \<and>
     isOk (Verify env action (tr_PublicKey key)) \<and> aa_AuthorizedAt (sa_Authorization action) \<le> UnixMicro now \<and>
     UnixMicro now < aa_AuthorizationExpiresAt (sa_Authorization action) \<and> row \<in> set (snapshots db) \<and>
     sn_ID (sw_Snapshot row) = aa_SnapshotID (sa_Authorization action) \<and> sn_ContentHash (sw_Snapshot row) = aa_SnapshotHash (sa_Authorization action) \<and>
     sn_Ticket (sw_Snapshot row) = t \<and> t \<in> set (tickets db) \<and>
     currentVector tenant (vv_IndexID (aa_VersionVector (sa_Authorization action))) t db = Inr (aa_VersionVector (sa_Authorization action)) \<and>
     tickets db' = map (\<lambda>x. if ticketKey x = ticketKey t then t\<lparr>tk_Revision := tk_Revision t + 1, tk_Status := rp_TargetTicketStatus (sa_Parameters action)\<rparr> else x) (tickets db) \<and>
     (\<exists>x. ticket_resolutions db' = ticket_resolutions db @ [x] \<and> rw_Receipt x = receipt)"
  using assms(3)
proof (cases rule: ApplyResolution_cases)
  case (fresh authHash key t)
  from current_is_captured [OF reachable_business_inv [OF assms(1)] assms(2) fresh(3,8)] obtain row where row: "row \<in> set (snapshots db)"
    "sn_ID (sw_Snapshot row) = aa_SnapshotID (sa_Authorization action)" "sn_ContentHash (sw_Snapshot row) = aa_SnapshotHash (sa_Authorization action)"
    "sn_Ticket (sw_Snapshot row) = t" "rp_Action (sa_Parameters action) = ''record_conclusion'' \<longrightarrow> rp_TargetTicketStatus (sa_Parameters action) = tk_Status t"
    "currentVector (aa_TenantID (sa_Authorization action)) (vv_IndexID (aa_VersionVector (sa_Authorization action))) t db = Inr (aa_VersionVector (sa_Authorization action))"
    by blast
  note t = findTicket_mem [OF currentActionTicket_found [OF fresh(8)]]
  have "resolvedTicket (sa_Parameters action) t = t\<lparr>tk_Revision := tk_Revision t + 1, tk_Status := rp_TargetTicketStatus (sa_Parameters action)\<rparr>"
    using row(5) by (simp add: resolvedTicket_def)
  moreover have "ticketKey t = (tenant, tk_TicketID t)" using t fresh(1) by simp
  ultimately have "tickets db' = map (\<lambda>x. if ticketKey x = ticketKey t then t\<lparr>tk_Revision := tk_Revision t + 1, tk_Status := rp_TargetTicketStatus (sa_Parameters action)\<rparr> else x) (tickets db)"
    unfolding fresh(13) by (simp add: update_where_def)
  moreover have "\<exists>x. ticket_resolutions db' = ticket_resolutions db @ [x] \<and> rw_Receipt x = receipt"
    unfolding fresh(13) by (simp add: newResolution_fields)
  moreover have "t \<in> set (tickets db)" using t by simp
  ultimately show ?thesis using fresh(1,5,6,7,9,10) row(1-4,6) by (intro exI [of _ key] exI [of _ row] exI [of _ t]) simp
qed (use assms(4) in simp)

theorem resolution_acts_on_approved_facts_witness:
  "\<exists>key row t. map_of demo_trusted ''key'' = Some key \<and> isOk (Verify demo_benv demo_action (tr_PublicKey key)) \<and> row \<in> set (snapshots demo_captured) \<and>
     sn_Ticket (sw_Snapshot row) = t \<and> t \<in> set (tickets demo_captured)"
proof -
  have "ticket_resolutions demo_resolved \<noteq> ticket_resolutions demo_captured"
    by (simp add: demo_resolved_def demo_captured_def demo_published_def demo_facts_def empty_business_def)
  then have "demo_resolved \<noteq> demo_captured" by metis
  from resolution_acts_on_approved_facts [OF demo_captured_reachable demo_faithful demo_action_applied this] show ?thesis
    unfolding demo_action_fields by (auto simp: demo_authorization_def)
qed

section \<open>One resolution each\<close>

text \<open>C26. In every reachable business database two different resolutions of a tenant never have the
  same operation or the same business request, and never the same ticket at the same revision; the
  current revision of the ticket is at least the one the resolution produced.\<close>

theorem resolutions_are_unique:
  assumes "reachable_business env db" and "x \<in> set (ticket_resolutions db)" and "y \<in> set (ticket_resolutions db)" and "rw_TenantID x = rw_TenantID y"
    and "rw_OperationID x = rw_OperationID y \<or> rw_BusinessRequestID x = rw_BusinessRequestID y \<or>
      (rw_TicketID x = rw_TicketID y \<and> rt_BeforeRevision (rw_Receipt x) = rt_BeforeRevision (rw_Receipt y))"
  shows "x = y \<and> (\<exists>t \<in> set (tickets db). ticketKey t = (rw_TenantID x, rw_TicketID x) \<and> rt_BeforeRevision (rw_Receipt x) + 1 \<le> tk_Revision t)"
proof -
  note inv = reachable_business_inv [OF assms(1)]
  have "x = y" using inv assms(2-5) unfolding business_inv_def distinct_map inj_on_def by auto
  moreover have "resolved_ok (tickets db) x" using business_parts(3) [OF inv assms(2)] .
  ultimately show ?thesis unfolding resolved_ok_def by auto
qed

theorem resolutions_are_unique_witness:
  "\<exists>t \<in> set (tickets demo_resolved). ticketKey t = (''t1'', ''ticket'') \<and> 2 \<le> tk_Revision t"
proof -
  define x where "x = \<lparr>rw_TenantID = ''t1'', rw_OperationID = ''op1'', rw_BusinessRequestID = ''q1'', rw_TicketID = ''ticket'',
       rw_AuthorizationHash = sample_hash, rw_Parameters = demo_params, rw_Receipt = demo_receipt\<rparr>"
  have "x \<in> set (ticket_resolutions demo_resolved)" by (simp add: demo_resolved_def x_def)
  from resolutions_are_unique [OF demo_resolved_reachable this this] show ?thesis by (simp add: x_def demo_receipt_def)
qed

section \<open>Snapshots\<close>

text \<open>C39. The evidence of a snapshot is frozen: what \<open>GetEvidence\<close> has returned for a snapshot it
  returns for ever, whatever is imported, published, updated or resolved afterwards.\<close>

theorem evidence_is_frozen:
  assumes "GetEvidence env tenant i kind db = Inr e" and "(business_step env)\<^sup>*\<^sup>* db db'"
  shows "GetEvidence env tenant i kind db' = Inr e"
proof -
  from assms(1) obtain s where s: "kind = ''ticket'' \<or> kind = ''order'' \<or> kind = ''delivery''" "GetSnapshot env tenant i db = Inr s" "e = snapshotEvidence i kind s"
    by (auto simp: GetEvidence_def result_simps split: if_splits)
  with GetSnapshot_kept [OF s(2) assms(2)] show ?thesis by (auto simp: GetEvidence_def)
qed

theorem evidence_is_frozen_witness: "\<exists>e. GetEvidence demo_benv ''t1'' ''s1'' ''order'' demo_resolved = Inr e \<and> ev_MissingReason e = ''not_associated''"
proof -
  have "GetEvidence demo_benv ''t1'' ''s1'' ''order'' demo_captured =
      Inr \<lparr>ev_SnapshotID = ''s1'', ev_EvidenceRef = ''business-evidence:s1:order'', ev_Kind = ''order'', ev_Missing = True, ev_MissingReason = ''not_associated'',
        ev_Ticket = None, ev_Order = None, ev_Delivery = None\<rparr>"
    by code_simp
  from evidence_is_frozen [OF this r_into_rtranclp [where r = "business_step demo_benv", OF business_step.resolve [OF demo_action_applied]]] show ?thesis by simp
qed

text \<open>A ready tenant can be served: when \<open>CheckTenantReady\<close> accepts a tenant, the snapshot of
  each of its tickets under a new request key and a new identifier holds the ticket as it is, and is
  stored unless its marshalled text exceeds the size limit, the only refusal left.\<close>

theorem ready_tenant_can_be_captured:
  assumes "reachable_business env db" and "CheckTenantReady tenant db = Inr ()" and "t \<in> set (tickets db)" and "tk_TenantID t = tenant"
    and "ValidIdentifier key" and "\<And>x. x \<in> set (snapshots db) \<Longrightarrow> sn_TenantID (sw_Snapshot x) = tenant \<Longrightarrow> sw_Key x \<noteq> key \<and> sn_ID (sw_Snapshot x) \<noteq> newID"
  shows "\<exists>row. sn_Ticket (sw_Snapshot row) = t \<and>
      CreateSnapshot env newID tenant \<lparr>sq_SchemaVersion = 1, sq_TicketID = tk_TicketID t, sq_RequestKey = key\<rparr> now db =
        (if length (be_json env (VSnapshot (sw_Snapshot row))) > 6144 then Inl BizInvalidArgument
         else Inr ((sw_Snapshot row, False), db\<lparr>snapshots := snapshots db @ [row]\<rparr>))"
proof -
  note ready = ready_ticket [OF assms(2-4)]
  from ready(1) obtain p x where px: "findPolicy tenant (tk_PolicyVersion t) db = Some p" "latestIndexRow tenant p db = Some x" "ValidIdentifier (tk_TicketID t)"
    "validProfile (ix_Profile (ir_Index x))" "ip_PolicyVersion (ix_Profile (ir_Index x)) = pv_PolicyVersion p" "ip_CorpusSHA256 (ix_Profile (ir_Index x)) = pv_CorpusSHA256 p"
    unfolding readyRow_def Let_def by (auto split: option.splits)
  have "findTicket tenant (tk_TicketID t) db = Some t"
    using find_row_Some_iff [OF business_parts(1) [OF reachable_business_inv [OF assms(1)]], of "(tenant, tk_TicketID t)" t] assms(3,4) by (simp add: findTicket_def)
  moreover have "find_row (\<lambda>x. sn_TenantID (sw_Snapshot x) = tenant \<and> sw_Key x = key) (snapshots db) = None"
    using assms(6) by (auto simp: find_row_None_iff)
  moreover have "\<not> list_ex (\<lambda>x. sn_TenantID (sw_Snapshot x) = tenant \<and> sn_ID (sw_Snapshot x) = newID) (snapshots db)"
    using assms(6) by (auto simp: list_ex_iff)
  moreover define s0 where "s0 = \<lparr>sn_ID = newID, sn_TenantID = tenant, sn_SchemaVersion = 1, sn_AsOf = tk_ObservedAt t, sn_CreatedAt = now, sn_ContentHash = '''',
      sn_Ticket = t, sn_Order = capturedOrder tenant t db, sn_Delivery = capturedDelivery tenant (capturedOrder tenant t db) db, sn_Policy = p,
      sn_Index = (ir_Index x)\<lparr>ix_TenantID := tenant\<rparr>\<rparr>"
  define row where "row = \<lparr>sw_Key = key, sw_RequestHash = be_sha env (be_json env (VRequest 1 (tk_TicketID t))),
      sw_Snapshot = s0\<lparr>sn_ContentHash := be_sha env (be_json env (VSnapshot s0))\<rparr>\<rparr>"
  ultimately show ?thesis using px ready(2) assms(5)
    by (intro exI [of _ row]) (simp add: CreateSnapshot_def createSnapshotOnce_def Let_def currentIndex_latest row_def s0_def)
qed

theorem ready_tenant_can_be_captured_witness:
  "\<exists>row. CreateSnapshot demo_benv ''s2'' ''t1'' \<lparr>sq_SchemaVersion = 1, sq_TicketID = ''ticket'', sq_RequestKey = ''k2''\<rparr> 9 demo_captured =
      Inr ((sw_Snapshot row, False), demo_captured\<lparr>snapshots := snapshots demo_captured @ [row]\<rparr>) \<and> sn_Ticket (sw_Snapshot row) = demo_ticket"
proof -
  have "CheckTenantReady ''t1'' demo_captured = Inr ()" by code_simp
  moreover have "demo_ticket \<in> set (tickets demo_captured)" "tk_TenantID demo_ticket = ''t1''" "tk_TicketID demo_ticket = ''ticket''" "snapshots demo_captured = [\<lparr>sw_Key = ''k1'', sw_RequestHash = sample_hash, sw_Snapshot = demo_snap\<rparr>]"
    "sn_ID demo_snap = ''s1''"
    by (simp_all add: demo_captured_def demo_published_def demo_facts_def empty_business_def demo_ticket_def demo_snap_def)
  moreover have "ValidIdentifier ''k2''" by code_simp
  moreover have "\<not> length (be_json demo_benv (VSnapshot s)) > 6144" for s by (simp add: demo_benv_def demo_json_def)
  ultimately show ?thesis
    using ready_tenant_can_be_captured [OF demo_captured_reachable, of "''t1''" demo_ticket "''k2''" "''s2''" 9] by auto
qed

section \<open>What a signature binds\<close>

text \<open>The texts that are hashed for an authorization: its version vector and its fields.\<close>

definition digests :: "business_env \<Rightarrow> ActionAuthorization \<Rightarrow> string set" where
  "digests env a = {fingerprint_preimage [''jobforge.business.version-vector.v1'', ''1'', be_json env (VVector (aa_VersionVector a))],
     fingerprint_preimage (''jobforge.business.authorization.v1'' # authorization_fields env a)}"

lemma authorization_fields_inj:
  assumes "authorization_fields env b = authorization_fields env a" and vectors: "be_json env (VVector (aa_VersionVector b)) = be_json env (VVector (aa_VersionVector a))"
    and valid: "validAuthorization env a" "validAuthorization env b" and json: "vector_text_faithful env"
  shows "b = a"
proof -
  have "aa_VersionVector a = aa_VersionVector b" using vectors json valid unfolding vector_text_faithful_def validAuthorization_def by metis
  then show ?thesis using assms(1) valid
    by (cases a; cases b) (simp add: authorization_fields_def show_int_inj validAuthorization_def)
qed

text \<open>C38. Signing and verification agree, and a signature binds everything: what the control plane
  signed verifies under its public key, and when another authorization has the same signed digest
  (collisions of SHA-256 among the texts hashed for the two apart) it is the same authorization, in
  every field and every version. Go strings are shorter than \<open>2^64\<close> bytes.\<close>

theorem signature_binds_authorization:
  assumes "\<And>k h. be_verify env (be_public env k) h (be_sign env k h)" and "vector_text_faithful env"
    and "inj_on (be_sha env) (digests env a \<union> digests env b)"
    and "go_strings (authorization_fields env a)" "go_strings (authorization_fields env b)"
    and "go_strings [be_json env (VVector (aa_VersionVector a)), be_json env (VVector (aa_VersionVector b))]"
    and "SignAction env a p key = Inr s" and "AuthorizationHash env b = AuthorizationHash env a"
  shows "Verify env s (be_public env key) = Inr () \<and> b = a"
proof
  from assms(7) obtain h where sign: "ParametersHash env p = Inr (aa_ParametersHash a)" "vv_TicketID (aa_VersionVector a) = rp_TicketID p"
    "AuthorizationHash env a = Inr h" "s = \<lparr>sa_Authorization = a, sa_Parameters = p, sa_Signature = be_sign env key h\<rparr>"
    by (auto simp: SignAction_def result_simps split: if_splits)
  show "Verify env s (be_public env key) = Inr ()" using sign assms(1) by (simp add: Verify_def)
  have valid: "validAuthorization env a" "validAuthorization env b" using sign(3) assms(8) by (auto simp: AuthorizationHash_def split: if_splits)
  from assms(8) valid have "be_sha env (fingerprint_preimage (''jobforge.business.authorization.v1'' # authorization_fields env b)) =
      be_sha env (fingerprint_preimage (''jobforge.business.authorization.v1'' # authorization_fields env a))"
    by (simp add: AuthorizationHash_def ActionFingerprint_def)
  with assms(3) have "fingerprint_preimage (''jobforge.business.authorization.v1'' # authorization_fields env b) =
      fingerprint_preimage (''jobforge.business.authorization.v1'' # authorization_fields env a)"
    by (rule inj_onD) (simp_all add: digests_def)
  then have eq: "authorization_fields env b = authorization_fields env a"
    using fingerprint_preimage_inj [of "''jobforge.business.authorization.v1'' # authorization_fields env b" "''jobforge.business.authorization.v1'' # authorization_fields env a"]
      assms(4,5) by (simp add: go_strings_def)
  then have "be_sha env (fingerprint_preimage [''jobforge.business.version-vector.v1'', ''1'', be_json env (VVector (aa_VersionVector b))]) =
      be_sha env (fingerprint_preimage [''jobforge.business.version-vector.v1'', ''1'', be_json env (VVector (aa_VersionVector a))])"
    by (simp add: authorization_fields_def ActionFingerprint_def)
  with assms(3) have "fingerprint_preimage [''jobforge.business.version-vector.v1'', ''1'', be_json env (VVector (aa_VersionVector b))] =
      fingerprint_preimage [''jobforge.business.version-vector.v1'', ''1'', be_json env (VVector (aa_VersionVector a))]"
    by (rule inj_onD) (simp_all add: digests_def)
  then have "be_json env (VVector (aa_VersionVector b)) = be_json env (VVector (aa_VersionVector a))"
    using fingerprint_preimage_inj [of "[''jobforge.business.version-vector.v1'', ''1'', be_json env (VVector (aa_VersionVector b))]"
        "[''jobforge.business.version-vector.v1'', ''1'', be_json env (VVector (aa_VersionVector a))]"] assms(6) by (simp add: go_strings_def)
  from authorization_fields_inj [OF eq this valid assms(2)] show "b = a" .
qed

text \<open>The same environment with a hash that tells the texts of a version vector from the others.\<close>

definition hash_b :: string where
  "hash_b = replicate 64 (CHR ''b'')"

definition demo_env2 :: business_env where
  "demo_env2 = demo_benv\<lparr>be_sha := (\<lambda>x. if length x > 26 \<and> x ! 26 = CHR ''v'' then sample_hash else hash_b)\<rparr>"

definition demo_auth_b :: ActionAuthorization where
  "demo_auth_b = demo_authorization\<lparr>aa_ParametersHash := hash_b\<rparr>"

lemma preimage_at:
  "26 < 8 + length d \<Longrightarrow> length (fingerprint_preimage (d # fs)) > 26 \<and> fingerprint_preimage (d # fs) ! 26 = d ! 18"
  by (simp add: fingerprint_preimage_def nth_append)

lemma demo_env2_fingerprints:
  "ActionFingerprint demo_env2 ''jobforge.business.version-vector.v1'' fs = sample_hash"
  "ActionFingerprint demo_env2 ''jobforge.business.authorization.v1'' fs = hash_b"
  "ActionFingerprint demo_env2 ''jobforge.business.parameters.v1'' fs = hash_b"
  using preimage_at [of "''jobforge.business.version-vector.v1''" fs] preimage_at [of "''jobforge.business.authorization.v1''" fs]
    preimage_at [of "''jobforge.business.parameters.v1''" fs]
  by (simp_all add: ActionFingerprint_def demo_env2_def)

lemma demo_env2_sign: "SignAction demo_env2 demo_auth_b demo_params ''secret'' = Inr \<lparr>sa_Authorization = demo_auth_b, sa_Parameters = demo_params, sa_Signature = ''secret'' @ hash_b\<rparr>"
proof -
  have "validText ''late parcel'' 8192" "ValidIdentifier ''ticket''" "validTarget demo_params" "validResolutionClaims demo_env2 demo_params" by code_simp+
  then have "ParametersHash demo_env2 demo_params = Inr hash_b"
    by (simp add: ParametersHash_def Let_def demo_env2_fingerprints) (simp add: demo_params_def demo_env2_def demo_benv_def demo_json_def)
  moreover have "validAuthorization demo_env2 demo_auth_b" by code_simp
  then have "AuthorizationHash demo_env2 demo_auth_b = Inr hash_b" by (simp add: AuthorizationHash_def demo_env2_fingerprints)
  moreover have "aa_ParametersHash demo_auth_b = hash_b" "vv_TicketID (aa_VersionVector demo_auth_b) = rp_TicketID demo_params"
    by (simp_all add: demo_auth_b_def demo_authorization_def demo_params_def SnapshotVersionVector_def snapshotVector_fields demo_snap_def demo_ticket_def)
  ultimately show ?thesis by (simp add: SignAction_def) (simp add: demo_env2_def demo_benv_def)
qed

theorem signature_binds_authorization_witness:
  "Verify demo_env2 \<lparr>sa_Authorization = demo_auth_b, sa_Parameters = demo_params, sa_Signature = ''secret'' @ hash_b\<rparr> ''secret'' = Inr ()"
proof -
  have "vector_text_faithful demo_env2" using demo_faithful by (simp add: vector_text_faithful_def demo_env2_def validVector_def)
  moreover have "inj_on (be_sha demo_env2) (digests demo_env2 demo_auth_b \<union> digests demo_env2 demo_auth_b)"
    using demo_env2_fingerprints(1) [of "[''1'', be_json demo_env2 (VVector (aa_VersionVector demo_auth_b))]"]
      demo_env2_fingerprints(2) [of "authorization_fields demo_env2 demo_auth_b"]
    by (auto simp: inj_on_def digests_def ActionFingerprint_def sample_hash_def hash_b_def)
  moreover have "go_strings (authorization_fields demo_env2 demo_auth_b)"
    by (simp add: go_strings_def authorization_fields_def demo_env2_fingerprints demo_auth_b_def demo_authorization_def timeout_short sample_hash_def hash_b_def)
  moreover have "go_strings [be_json demo_env2 (VVector (aa_VersionVector demo_auth_b)), be_json demo_env2 (VVector (aa_VersionVector demo_auth_b))]"
  proof -
    have "vector_fields (aa_VersionVector demo_auth_b) = [''1'', ''ticket'', ''1'', ''n'', ''f'', ''n'', ''n'', ''f'', ''n'', ''v1'', ''1'', sample_hash, ''i1'', sample_hash, sample_hash]"
      by code_simp
    moreover have "length (enc_text x) = 2 * length x + 1" for x by (induction x) (simp_all add: enc_text_def)
    moreover have "length sample_hash = 64" by (simp add: sample_hash_def)
    ultimately show ?thesis by (simp add: go_strings_def demo_env2_def demo_benv_def demo_json_def)
  qed
  moreover have "be_verify demo_env2 (be_public demo_env2 k) h (be_sign demo_env2 k h)" for k h by (simp add: demo_env2_def demo_benv_def)
  ultimately have "Verify demo_env2 \<lparr>sa_Authorization = demo_auth_b, sa_Parameters = demo_params, sa_Signature = ''secret'' @ hash_b\<rparr> (be_public demo_env2 ''secret'') = Inr ()"
    using signature_binds_authorization [of demo_env2 demo_auth_b demo_auth_b, OF _ _ _ _ _ _ demo_env2_sign] by blast
  then show ?thesis by (simp add: demo_env2_def demo_benv_def)
qed

section \<open>A delivery of another order\<close>

text \<open>C40. A snapshot takes a delivery that belongs to another order as missing, and its version
  vector says so; the execution of an action reads the same rows again and refuses them. So a ticket
  with such a delivery can be captured and approved, but every action on it that was not applied
  before is refused, whatever its authorization says.\<close>

theorem foreign_delivery_is_never_resolved:
  assumes "findTicket tenant i db = Some t" "tk_OrderID t = Some oi" "findOrder tenant oi db = Some od" "or_DeliveryID od = Some di"
    and "findDelivery tenant di db = Some d" "dl_OrderID d \<noteq> or_OrderID od"
    and "rp_TicketID (sa_Parameters action) = i" "find_row (resolutionKey action) (ticket_resolutions db) = None"
  shows "capturedDelivery tenant (capturedOrder tenant t db) db = None \<and> \<not> isOk (ApplyResolution env trusted tenant action now db)"
proof
  show "capturedDelivery tenant (capturedOrder tenant t db) db = None" using assms by (simp add: capturedOrder_def capturedDelivery_def)
  have "currentActionTicket env action db = Inl BizActionConflict" if "aa_TenantID (sa_Authorization action) = tenant"
    using assms that by (auto simp: capturedOrder_def currentActionTicket_def currentVector_def currentDelivery_def Let_def split: option.splits)
  then have "ApplyResolution env trusted tenant action now db \<noteq> Inr r" for r
    using assms(8) by (cases r) (auto elim!: ApplyResolution_cases)
  then show "\<not> isOk (ApplyResolution env trusted tenant action now db)" by (cases "ApplyResolution env trusted tenant action now db") auto
qed

definition demo_order :: Order where
  "demo_order = \<lparr>or_TenantID = ''t1'', or_OrderID = ''o1'', or_Revision = 1, or_DeliveryID = Some ''d1'', or_Status = ''sent'', or_OrderedAt = 1, or_PromisedDeliveryAt = 2\<rparr>"

definition demo_foreign :: business_db where
  "demo_foreign = demo_captured\<lparr>tickets := [demo_ticket\<lparr>tk_OrderID := Some ''o1''\<rparr>], orders := [demo_order],
     deliveries := [\<lparr>dl_TenantID = ''t1'', dl_DeliveryID = ''d1'', dl_OrderID = ''o2'', dl_AggregateRevision = 1, dl_Status = ''sent'', dl_Events = []\<rparr>]\<rparr>"

theorem foreign_delivery_is_never_resolved_witness: "\<not> isOk (ApplyResolution demo_benv demo_trusted ''t1'' demo_action 500000 demo_foreign)"
proof -
  have "ticket_resolutions demo_foreign = []" by (simp add: demo_foreign_def demo_captured_def demo_published_def demo_facts_def empty_business_def)
  moreover have "findTicket ''t1'' ''ticket'' demo_foreign = Some (demo_ticket\<lparr>tk_OrderID := Some ''o1''\<rparr>)"
    "findOrder ''t1'' ''o1'' demo_foreign = Some demo_order"
    by (simp_all add: demo_foreign_def findTicket_def findOrder_def demo_ticket_def demo_order_def)
  moreover have "findDelivery ''t1'' ''d1'' demo_foreign =
      Some \<lparr>dl_TenantID = ''t1'', dl_DeliveryID = ''d1'', dl_OrderID = ''o2'', dl_AggregateRevision = 1, dl_Status = ''sent'', dl_Events = []\<rparr>"
    by (simp add: demo_foreign_def findDelivery_def)
  moreover have "rp_TicketID (sa_Parameters demo_action) = ''ticket''" by (simp add: demo_action_fields demo_params_def)
  ultimately show ?thesis
    using foreign_delivery_is_never_resolved [of "''t1''" "''ticket''" demo_foreign "demo_ticket\<lparr>tk_OrderID := Some ''o1''\<rparr>" "''o1''" demo_order "''d1''"]
    by (simp add: demo_order_def)
qed

end
