(* ===== verification/RunActionDemo.thy ===== *)
theory RunActionDemo
  imports RunActionSystem RunScenario2 BusinessDemo
begin

text \<open>
  The history of \<open>RunScenario\<close> to its end: the Run proposes an escalation, a person approves it, the
  worker claims the Run again, has the action signed, takes a permit for the write, reports the
  answer of the business store and completes the action with its receipt.
\<close>

section \<open>The proposal\<close>

definition demo_step2 :: StepIdentity where
  "demo_step2 = \<lparr>st_ID = ''step2'', st_Sequence = 2, st_Kind = ''submit_proposal'', st_CursorVersion = 1, st_InputHash = sample_hash,
     st_ProfileID = ''p1'', st_ProfileHash = sample_hash, st_SnapshotID = ''s1'', st_SnapshotHash = sample_hash\<rparr>"

definition demo_commit2 :: CommitStepRequest where
  "demo_commit2 = \<lparr>cm_Lease = demo_lease, cm_Step = demo_step2, cm_ResultJSON = ''{}'', cm_CommitHash = sample_hash\<rparr>"

definition demo_expires :: time where
  "demo_expires = Hour + 600 * Second"

definition demo_run3 :: Run where
  "demo_run3 = demo_run2\<lparr>run_CursorVersion := 2, run_State := AwaitingApproval, run_PermissionExpiresAt := Some demo_expires,
     run_ProposalRef := Some ''run-proposal:r1'', run_LeaseUntil := None, run_AttemptDeadline := None\<rparr>"

definition demo_auth3 :: Authority where
  "demo_auth3 = demo_auth2\<lparr>au_CheckpointBytes := 9, au_WorkerID := '''', au_SessionID := '''', au_EventSequence := 4\<rparr>"

definition demo_decision2 :: CommitDecision where
  "demo_decision2 = \<lparr>cd_CanonicalJSON = ''{}'', cd_Result = \<lparr>sr_ToolInvocationID = '''', sr_PhysicalCallID = '''', sr_CorrectionRequired = False\<rparr>,
       cd_NextKind = '''', cd_CloseAttempt = True, cd_Proposal = Some demo_proposal\<rparr>"

definition demo_pending :: ApprovalRow where
  "demo_pending = \<lparr>av_tenant = ''t1'', av_run = ''r1'', av_Status = ''pending'', av_ProposalHash = sample_hash, av_ProposalRef = ''run-proposal:r1'',
     av_SnapshotID = ''s1'', av_SnapshotHash = sample_hash, av_PermissionExpiresAt = Some demo_expires, av_ApprovalID = None, av_ActorID = None,
     av_DecidedAt = None, av_CreatedAt = Hour\<rparr>"

definition demo_attempt1 :: RunAttempt where
  "demo_attempt1 = closedAttempt Hour ''yielded_approval'' demo_run3 None None (newAttempt demo_run1 demo_auth1 ''w1'' ''ws1'' Hour)"

definition demo_awaiting :: run_db where
  "demo_awaiting = demo_committed\<lparr>runs := [(demo_run3, demo_auth3)],
     run_steps := [newStep demo_commit demo_run2 ''{}'' Hour, newStep demo_commit2 demo_run3 ''{}'' Hour],
     run_results := [((''t1'', ''r1''), (''proposal'', ''run-proposal:r1''))], run_approvals := [demo_pending],
     run_attempts := [demo_attempt1], execution_slots := demo_slots0,
     run_events := run_events demo_committed @ [newEvent demo_run3 demo_auth3 ''step_committed'' Hour]\<rparr>"

lemma demo_committed_tables [simp]:
  "worker_sessions demo_committed = [demo_session]" "agent_profiles demo_committed = [storedProfile demo_profile]"
  "business_requests demo_committed = [demo_business]" "run_steps demo_committed = [newStep demo_commit demo_run2 ''{}'' Hour]"
  "physical_calls demo_committed = []" "runs demo_committed = [(demo_run2, demo_auth2)]" "execution_slots demo_committed = demo_slots"
  "run_attempts demo_committed = [newAttempt demo_run1 demo_auth1 ''w1'' ''ws1'' Hour]" "action_calls demo_committed = []"
  "budget_accounts demo_committed = [demo_account ''a1'' ''tenant'' ''t1'', demo_account ''a2'' ''batch'' ''b1'', demo_family]"
  "run_approvals demo_committed = []" "run_results demo_committed = []"
  by (simp_all add: demo_committed_def demo_claimed_def demo_ready_def demo_admitted_def demo_setup_def empty_store_def)

lemmas demo_run2_eq = demo_run2_def demo_run1_def demo_run_def
lemmas demo_auth2_eq = demo_auth2_def demo_auth1_def demo_auth_def

lemma demo_resources:
  "lockAttemptResources demo_run2 demo_auth2 demo_committed =
     Inr \<lparr>ar_Authority = demo_auth2, ar_AttemptNo = 1, ar_Slots = demo_slots, ar_RecoveryStep = None\<rparr>"
  by (simp add: lockAttemptResources_def newAttempt_def slotKeys_def lockSlot_def Let_def demo_slots_def demo_run2_def demo_auth2_def)

lemma demo_apply2:
  "ApplyCommit demo_cfg demo_run2 demo_auth2 demo_commit2 demo_decision2 ''step3'' Hour =
     Inr (demo_run3\<lparr>run_LeaseUntil := Some (Hour + LeaseTTL), run_AttemptDeadline := Some (Hour + AttemptTTL)\<rparr>,
       demo_auth2\<lparr>au_CheckpointBytes := 9\<rparr>)"
proof -
  have "CheckExecution demo_run2 demo_auth2 demo_lease Hour = Inr ()"
    by (simp add: CheckExecution_def afterNow_def matchesExecution_def LeaseTTL_def AttemptTTL_def demo_time demo_run2_def demo_auth2_def)
  moreover have "CheckStep Some demo_run2 demo_auth2 demo_step2 = Inr ()"
    by (simp add: CheckStep_def demo_step2_def ValidUUID_def sample_hash_valid demo_identifiers validStepKind_def demo_run2_def demo_auth2_def)
  ultimately show ?thesis
    by (simp add: ApplyCommit_def demo_commit2_def demo_parse demo_decision2_def MaxCheckpointBytes_def YieldForApproval_def demo_proposal_def Let_def)
      (simp add: demo_run3_def demo_run2_eq demo_auth2_eq demo_expires_def demo_time LeaseTTL_def AttemptTTL_def)
qed

lemma demo_run3_fields [simp]:
  "run_ID demo_run3 = ''r1''" "run_TenantID demo_run3 = ''t1''" "run_ProfileID demo_run3 = ''p1''" "run_BusinessRequestID demo_run3 = ''q1''"
  "run_State demo_run3 = AwaitingApproval" "run_RunDeadline demo_run3 = demo_expires" "run_ProfileHash demo_run3 = sample_hash"
  "run_AttemptNo demo_run3 = 1" "run_CursorVersion demo_run3 = 2" "run_SnapshotID demo_run3 = ''s1''" "run_SnapshotHash demo_run3 = sample_hash"
  "run_CancelRequestedAt demo_run3 = None" "run_PermissionExpiresAt demo_run3 = Some demo_expires" "run_ProposalRef demo_run3 = Some ''run-proposal:r1''"
  "run_Error demo_run3 = None" "run_TicketID demo_run3 = ''ticket''" "run_ContentPurgedAt demo_run3 = None"
  by (simp_all add: demo_run3_def demo_run2_eq demo_expires_def)

lemma demo_closed2:
  "applyStep demo_cfg demo_commit2 demo_decision2 (Some \<lparr>ar_Authority = demo_auth2, ar_AttemptNo = 1, ar_Slots = demo_slots, ar_RecoveryStep = None\<rparr>)
     ''step3'' Hour Hour demo_run2 demo_auth2 demo_committed =
   Inr (commitResponse demo_run3 demo_auth3 \<lparr>as_Identity = demo_step2, as_CommitHash = sample_hash, as_ResultJSON = ''{}'',
       as_ResultRef = StepReference ''r1'' 2\<rparr> True, demo_awaiting)"
proof -
  define r1 where "r1 = demo_run3\<lparr>run_LeaseUntil := Some (Hour + LeaseTTL), run_AttemptDeadline := Some (Hour + AttemptTTL)\<rparr>"
  define a1 where "a1 = demo_auth2\<lparr>au_CheckpointBytes := 9\<rparr>"
  define db1 where "db1 = demo_committed\<lparr>run_steps := [newStep demo_commit demo_run2 ''{}'' Hour, newStep demo_commit2 demo_run3 ''{}'' Hour]\<rparr>"
  define db2 where "db2 = db1\<lparr>run_results := [((''t1'', ''r1''), (''proposal'', ''run-proposal:r1''))], run_approvals := [demo_pending]\<rparr>"
  have r1: "run_TenantID r1 = ''t1''" "run_ID r1 = ''r1''" "run_State r1 = AwaitingApproval" "run_AttemptNo r1 = 1" "run_Error r1 = None" "run_CursorVersion r1 = 2"
    "r1\<lparr>run_LeaseUntil := None, run_AttemptDeadline := None\<rparr> = demo_run3" "newStep demo_commit2 r1 ''{}'' Hour = newStep demo_commit2 demo_run3 ''{}'' Hour"
    by (simp_all add: r1_def newStep_def) (simp add: demo_run3_def)
  have ins: "insertStep demo_commit2 r1 ''{}'' Hour demo_committed = Inr db1"
    by (simp add: insertStep_def db1_def r1 newStep_def stepKey_def demo_commit_def demo_commit2_def demo_step_def demo_step2_def)
  have save: "saveProposalResult demo_cfg r1 demo_decision2 (StepReference ''r1'' 2) Hour db1 = Inr db2"
    by (simp add: saveProposalResult_def r1 db1_def db2_def setResult_def Let_def newApproval_def demo_decision2_def demo_pending_def demo_parse
        demo_sha_other) (simp add: r1_def)
  have close: "closeAttemptRecords r1 a1 \<lparr>ar_Authority = demo_auth2, ar_AttemptNo = 1, ar_Slots = demo_slots, ar_RecoveryStep = None\<rparr> ''yielded_approval'' Hour db2 =
      Inr (demo_run3, demo_auth3\<lparr>au_EventSequence := 3\<rparr>, db2\<lparr>run_attempts := [demo_attempt1], execution_slots := demo_slots0\<rparr>)"
  proof -
    have "au_ActiveCallID demo_auth2 = None" "au_NextStepKind demo_auth2 = ''submit_proposal''" "au_FencingToken demo_auth2 = 1" "au_FencingToken a1 = 1"
      "a1\<lparr>au_WorkerID := '''', au_SessionID := '''', au_ActiveCallID := None\<rparr> = demo_auth3\<lparr>au_EventSequence := 3\<rparr>"
      by (simp_all add: a1_def demo_auth3_def demo_auth2_eq)
    then show ?thesis
      by (simp add: closeAttemptRecords_def markCalls_def recoveryEvidence_def r1 db2_def db1_def newAttempt_def Let_def demo_slots_def demo_slots0_def
          demo_attempt1_def closedAttempt_def)
  qed
  have req: "cm_Step demo_commit2 = demo_step2" "cm_CommitHash demo_commit2 = sample_hash" "st_Sequence demo_step2 = 2"
    "cd_CanonicalJSON demo_decision2 = ''{}''" "cd_CloseAttempt demo_decision2"
    by (simp_all add: demo_commit2_def demo_step2_def demo_decision2_def)
  have auth: "au_EventSequence demo_auth3 = 4" "demo_auth3\<lparr>au_EventSequence := 4\<rparr> = demo_auth3" by (simp_all add: demo_auth3_def)
  show ?thesis
    by (simp add: applyStep_def demo_apply2 r1_def [symmetric] a1_def [symmetric] req r1 ins closeCommit_def save close appendEvent_def MaxSafeInteger_def
        auth saveRun_def Let_def) (simp add: demo_awaiting_def db2_def db1_def demo_run2_eq)
qed

lemma demo_propose: "\<exists>resp. CommitStep demo_cfg demo_cc ''w1'' demo_commit2 ''step3'' Hour Hour Hour demo_committed = Inr (resp, demo_awaiting)"
proof -
  define profile where "profile = demo_profile\<lparr>pf_Executable := False\<rparr>"
  have req: "cm_Lease demo_commit2 = demo_lease" "cm_Step demo_commit2 = demo_step2" "cm_CommitHash demo_commit2 = sample_hash"
    by (simp_all add: demo_commit2_def)
  have step: "st_ID demo_step2 = ''step2''" "st_Kind demo_step2 = ''submit_proposal''" by (simp_all add: demo_step2_def)
  have pos: "0 < LeaseTTL" "0 < sessionTTL" by (simp_all add: LeaseTTL_def sessionTTL_def demo_time)
  have exec: "CheckExecution demo_run2 demo_auth2 demo_lease Hour = Inr ()"
    by (simp add: CheckExecution_def afterNow_def matchesExecution_def LeaseTTL_def AttemptTTL_def demo_time demo_run2_def demo_auth2_def)
  have check: "CheckStep Some demo_run2 demo_auth2 demo_step2 = Inr ()"
    by (simp add: CheckStep_def demo_step2_def ValidUUID_def sample_hash_valid demo_identifiers validStepKind_def demo_run2_def demo_auth2_def)
  have run: "run_ProfileID demo_run2 = ''p1''" "run_TenantID demo_run2 = ''t1''" "run_ID demo_run2 = ''r1''" "run_ProfileHash demo_run2 = sample_hash"
    "au_ActiveCallID demo_auth2 = None" by (simp_all add: demo_run2_def demo_auth2_def)
  have lock: "lockRun ''t1'' ''r1'' demo_committed = Inr (demo_run2, demo_auth2)" by (simp add: lockRun_def run)
  have read: "readStep demo_run2 ''step2'' demo_committed = None" by (simp add: readStep_def newStep_def demo_commit_def demo_step_def)
  have profile: "ledgerProfile demo_cfg demo_run2 False demo_committed = Inr profile" unfolding profile_def by (rule demo_ledgerProfile) (simp_all add: run)
  have "\<not> AuditEnabled profile" by (simp add: profile_def AuditEnabled_def demo_profile_def sample_profile_def)
  moreover have "pf_Hash profile = sample_hash" by (simp add: profile_def demo_profile_facts)
  moreover have "map_of (cfg_profiles demo_cfg) ''p1'' = Some demo_profile" by (simp add: demo_cfg_def)
  moreover have "checkSession demo_cfg ''w1'' ''w1'' ''ws1'' ''t1'' p Hour True demo_committed = Inr ()" if "p = '''' \<or> p = ''p1''" for p
    using that demo_checkSession [of demo_committed Hour True] pos by auto
  moreover have "cc_DecideCommit demo_cc profile c demo_commit2 = Inr demo_decision2" "cc_loadCheckpoint demo_cc db r a = Inr ''checkpoint''" for c db r a
    by (simp_all add: demo_cc_def demo_decision2_def req step demo_commit2_def)
  moreover have "validateCommitObservation demo_cfg demo_commit2 result profile demo_committed = Inr ()" for result
    by (simp add: validateCommitObservation_def req step Let_def)
  ultimately show ?thesis
    by (simp add: CommitStep_def commitStep_def req step demo_lease_valid demo_parse ValidUUID_def sample_hash_valid lock profile exec
        read accountsUnfrozen_def commitNew_def check demo_profile_facts run demo_resources demo_closed2 Let_def)
qed

section \<open>The approval\<close>

definition demo_ae :: action_env where
  "demo_ae = \<lparr>ae_business = demo_benv, ae_proposal = (\<lambda>_. Some demo_proposal), ae_actionKey = (\<lambda>_. Inr (''key'', sample_hash)),
     ae_signers = [(''key'', ''secret'')], ae_vector = (\<lambda>_. Some (SnapshotVersionVector demo_snap)), ae_output = (\<lambda>_. Inr ''{}'')\<rparr>"

definition demo_request :: ApprovalRequest where
  "demo_request = \<lparr>aq_SchemaVersion = 1, aq_Decision = ''approve'', aq_ProposalHash = sample_hash\<rparr>"

definition demo_approved :: ApprovalRow where
  "demo_approved = demo_pending\<lparr>av_Status := ''approved'', av_ApprovalID := Some ''ap1'', av_ActorID := Some ''alice'', av_DecidedAt := Some Hour\<rparr>"

definition demo_run4 :: Run where
  "demo_run4 = demo_run3\<lparr>run_State := Ready\<rparr>"

definition demo_auth4 :: Authority where
  "demo_auth4 = demo_auth3\<lparr>au_NextStepID := ''step3'', au_NextStepKind := ''apply_ticket_resolution'', au_EventSequence := 5\<rparr>"

definition demo_decided :: run_db where
  "demo_decided = demo_awaiting\<lparr>runs := [(demo_run4, demo_auth4)], run_approvals := [demo_approved],
     run_events := run_events demo_awaiting @ [newEvent demo_run4 demo_auth4 ''approval_approved'' Hour],
     run_operations := run_operations demo_awaiting @ [(approvalOperation ''ap1'' ''t1'' ''r1'' ''k2'' sample_hash Hour)\<lparr>op_Scope := operationScope ''approval'' ''r1''\<rparr>]\<rparr>"

lemma demo_awaiting_tables [simp]:
  "worker_sessions demo_awaiting = [demo_session]" "agent_profiles demo_awaiting = [storedProfile demo_profile]"
  "business_requests demo_awaiting = [demo_business]" "runs demo_awaiting = [(demo_run3, demo_auth3)]" "run_approvals demo_awaiting = [demo_pending]"
  "run_steps demo_awaiting = [newStep demo_commit demo_run2 ''{}'' Hour, newStep demo_commit2 demo_run3 ''{}'' Hour]"
  "execution_slots demo_awaiting = demo_slots0" "run_attempts demo_awaiting = [demo_attempt1]" "action_calls demo_awaiting = []"
  "budget_accounts demo_awaiting = [demo_account ''a1'' ''tenant'' ''t1'', demo_account ''a2'' ''batch'' ''b1'', demo_family]"
  "run_operations demo_awaiting = [demo_operation]" "physical_calls demo_awaiting = []"
  by (simp_all add: demo_awaiting_def) (simp add: demo_committed_def demo_claimed_def demo_ready_def demo_admitted_def)

lemma demo_view:
  assumes "run_approvals db = [v]" "run_steps db = run_steps demo_awaiting" "agent_profiles db = [storedProfile demo_profile]"
    and "av_tenant v = ''t1''" "av_run v = ''r1''" "av_ProposalHash v = sample_hash"
    and "run_TenantID r = ''t1''" "run_ID r = ''r1''" "run_ProfileID r = ''p1''" "run_ProfileHash r = sample_hash" "run_ContentPurgedAt r = None"
  shows "\<exists>view. approvalView demo_cfg demo_ae r now db = Inr (view, sample_hash) \<and> vw_Status view = av_Status v \<and> vw_ProposalHash view = sample_hash \<and>
     vw_Proposal view = demo_proposal \<and> vw_ApprovalID view = av_ApprovalID v \<and> vw_ActorID view = av_ActorID v \<and> vw_DecidedAt view = av_DecidedAt v"
proof -
  have kinds: "sr_Kind (newStep demo_commit demo_run2 ''{}'' Hour) = ''read_ticket''" "sr_Kind (newStep demo_commit2 demo_run3 ''{}'' Hour) = ''submit_proposal''"
    "stepKey r (newStep demo_commit2 demo_run3 ''{}'' Hour)" "sr_Output (newStep demo_commit2 demo_run3 ''{}'' Hour) = Some ''{}''"
    "sr_CommitHash (newStep demo_commit2 demo_run3 ''{}'' Hour) = sample_hash"
    using assms by (simp_all add: newStep_def demo_commit_def demo_commit2_def demo_step_def demo_step2_def stepKey_def)
  show ?thesis using assms
    by (simp add: approvalView_def kinds demo_ae_def demo_sha_other demo_parse storedProfile_def demo_profile_facts)
qed

lemma demo_approve_hash: "ApprovalHash (cfg_sha demo_cfg) demo_request ''t1'' ''r1'' ''alice'' = sample_hash"
proof -
  have req: "aq_Decision demo_request = ''approve''" "aq_ProposalHash demo_request = sample_hash" by (simp_all add: demo_request_def)
  have "fingerprint_preimage [''jobforge.run.approval.v1'', ''1'', ''t1'', ''r1'', ''alice'', ''approve'', sample_hash] \<noteq>
      fingerprint_preimage [''jobforge.run.approval.v1'', ''1'', ''t1'', ''r1'', ''alice'', ''reject'', sample_hash]"
  proof
    assume "fingerprint_preimage [''jobforge.run.approval.v1'', ''1'', ''t1'', ''r1'', ''alice'', ''approve'', sample_hash] =
      fingerprint_preimage [''jobforge.run.approval.v1'', ''1'', ''t1'', ''r1'', ''alice'', ''reject'', sample_hash]"
    from fingerprint_preimage_inj [OF _ _ this] sample_hash_valid show False by (simp add: go_strings_def ValidHash_def)
  qed
  then show ?thesis by (simp only: ApprovalHash_def Fingerprint_def demo_parse demo_sha_def req if_False)
qed

lemma demo_decide: "\<exists>answer. StoreDecideApproval demo_cfg demo_ae ''t1'' ''r1'' ''alice'' ''k2'' demo_request ''step3'' ''ap1'' ''o2'' Hour Hour Hour demo_awaiting =
    Inr (answer, demo_decided)"
proof -
  have valid: "ValidIdentifier ''alice''" "ValidIdentifier ''k2''" by code_simp+
  have req: "isOk (ApprovalValidate demo_request)" "aq_Decision demo_request = ''approve''" "aq_ProposalHash demo_request = sample_hash"
    by (simp_all add: ApprovalValidate_def demo_request_def sample_hash_valid)
  note hash = demo_approve_hash
  have lock: "lockRun ''t1'' ''r1'' demo_awaiting = Inr (demo_run3, demo_auth3)" by (simp add: lockRun_def)
  obtain view where view: "approvalView demo_cfg demo_ae demo_run3 Hour demo_awaiting = Inr (view, sample_hash)" "vw_Status view = ''pending''"
    "vw_ProposalHash view = sample_hash" "vw_Proposal view = demo_proposal"
    using demo_view [of demo_awaiting demo_pending demo_run3 Hour] by (auto simp: demo_pending_def)
  have prior: "findOperation ''t1'' ''approval'' ''r1'' ''k2'' demo_awaiting = None" by (simp add: findOperation_def demo_operation_def)
  have params: "ResolutionFromProposal demo_benv ''ticket'' demo_proposal = Inr demo_params"
  proof -
    have "ParametersHash demo_benv demo_params = Inr sample_hash" by (rule demo_parameters)
    then show ?thesis by (simp add: ResolutionFromProposal_def demo_proposal_def demo_params_def Let_def)
  qed
  have late: "Hour < demo_expires" by (simp add: demo_expires_def demo_time)
  have decide: "DecideApproval (cfg_sha demo_cfg) demo_run3 demo_auth3 demo_request sample_hash sample_hash ''step3'' Hour =
      Inr (demo_run4, demo_auth4\<lparr>au_EventSequence := 4\<rparr>)"
  proof -
    have "demo_run3\<lparr>run_State := Ready, run_UpdatedAt := Hour\<rparr> = demo_run4" by (simp add: demo_run4_def demo_run3_def demo_run2_eq)
    moreover have "demo_auth3\<lparr>au_NextStepID := ''step3'', au_NextStepKind := ''apply_ticket_resolution'', au_NextInputHash := sample_hash\<rparr> =
        demo_auth4\<lparr>au_EventSequence := 4\<rparr>" by (simp add: demo_auth4_def demo_auth3_def demo_auth2_eq)
    ultimately show ?thesis using late by (simp add: DecideApproval_def req demo_sha_other demo_parse ResolutionOperation_def)
  qed
  define db1 where "db1 = demo_awaiting\<lparr>run_approvals := [demo_approved]\<rparr>"
  have rec: "recordDecision demo_run3 ''approved'' ''ap1'' ''alice'' Hour demo_awaiting = Inr db1"
    by (simp add: recordDecision_def Let_def demo_pending_def db1_def demo_approved_def)
  define db2 where "db2 = db1\<lparr>runs := [(demo_run4, demo_auth4)], run_events := run_events demo_awaiting @ [newEvent demo_run4 demo_auth4 ''approval_approved'' Hour]\<rparr>"
  have run4: "run_TenantID demo_run4 = ''t1''" "run_ID demo_run4 = ''r1''" "run_State demo_run4 = Ready" "run_ProfileID demo_run4 = ''p1''"
    "run_ProfileHash demo_run4 = sample_hash" "run_ContentPurgedAt demo_run4 = None" by (simp_all add: demo_run4_def)
  have a4: "demo_auth4\<lparr>au_EventSequence := 5\<rparr> = demo_auth4" by (simp add: demo_auth4_def)
  have save: "recordRun Hour demo_run4 (demo_auth4\<lparr>au_EventSequence := 4\<rparr>) ''approval_approved'' Hour db1 = Inr db2"
    by (simp add: recordRun_def appendEvent_def MaxSafeInteger_def Let_def saveRun_def run4 a4 db1_def db2_def)
  have pend: "decidePending demo_cfg demo_ae ''alice'' demo_request ''step3'' ''ap1'' Hour Hour view sample_hash demo_run3 demo_auth3 demo_awaiting = Inr (demo_run4, db2)"
    by (simp add: decidePending_def demo_ledgerProfile demo_ae_def view params hash decide req wantedStatus_def rec save Let_def)
      (simp add: demo_profile_def)
  have ins: "insertOperation (approvalOperation ''ap1'' ''t1'' ''r1'' ''k2'' sample_hash Hour) db2 = Inr demo_decided"
    by (simp add: insertOperation_def findOperation_def approvalOperation_def db2_def db1_def demo_operation_def demo_decided_def)
  obtain view2 where view2: "approvalView demo_cfg demo_ae demo_run4 Hour demo_decided = Inr (view2, sample_hash)"
    using demo_view [of demo_decided demo_approved demo_run4 Hour] by (auto simp: demo_decided_def demo_approved_def demo_pending_def run4)
  have get: "getView ''t1'' ''r1'' demo_decided = Inr demo_run4" by (simp add: getView_def lockRun_def demo_decided_def run4)
  show ?thesis
    by (simp add: StoreDecideApproval_def ValidUUID_def demo_parse(1) valid demo_identifiers req hash lock prior view pend ins view2 get Let_def) auto
qed

section \<open>The claim of the action step\<close>

definition demo_lease2 :: Lease where
  "demo_lease2 = demo_lease\<lparr>ls_AttemptNo := 2, ls_FencingToken := 2\<rparr>"

definition demo_run5 :: Run where
  "demo_run5 = demo_run4\<lparr>run_State := Running, run_AttemptNo := 2, run_AttemptDeadline := Some (Hour + AttemptTTL), run_LeaseUntil := Some (Hour + LeaseTTL)\<rparr>"

definition demo_auth5 :: Authority where
  "demo_auth5 = demo_auth4\<lparr>au_WorkerID := ''w1'', au_SessionID := ''ws1'', au_FencingToken := 2, au_EventSequence := 6\<rparr>"

definition demo_acting :: run_db where
  "demo_acting = demo_decided\<lparr>runs := [(demo_run5, demo_auth5)], run_attempts := [demo_attempt1, newAttempt demo_run5 demo_auth5 ''w1'' ''ws1'' Hour],
     execution_slots := demo_slots, run_events := run_events demo_decided @ [newEvent demo_run5 demo_auth5 ''claimed'' Hour]\<rparr>"

lemma demo_decided_tables [simp]:
  "worker_sessions demo_decided = [demo_session]" "agent_profiles demo_decided = [storedProfile demo_profile]"
  "business_requests demo_decided = [demo_business]" "runs demo_decided = [(demo_run4, demo_auth4)]" "run_approvals demo_decided = [demo_approved]"
  "run_steps demo_decided = run_steps demo_awaiting" "execution_slots demo_decided = demo_slots0" "run_attempts demo_decided = [demo_attempt1]"
  "budget_accounts demo_decided = [demo_account ''a1'' ''tenant'' ''t1'', demo_account ''a2'' ''batch'' ''b1'', demo_family]" "action_calls demo_decided = []"
  by (simp_all add: demo_decided_def)

lemma demo_run4_fields [simp]:
  "run_ID demo_run4 = ''r1''" "run_TenantID demo_run4 = ''t1''" "run_ProfileID demo_run4 = ''p1''" "run_BusinessRequestID demo_run4 = ''q1''"
  "run_State demo_run4 = Ready" "run_RunDeadline demo_run4 = demo_expires" "run_ProfileHash demo_run4 = sample_hash" "au_NextStepKind demo_auth4 = ''apply_ticket_resolution''"
  by (simp_all add: demo_run4_def demo_auth4_def)

lemma demo_claim_lease2: "ClaimExecution demo_run4 demo_auth4 ''w1'' ''ws1'' Hour = Inr (demo_lease2, demo_run5, demo_auth5\<lparr>au_EventSequence := 5\<rparr>)"
proof -
  have "ValidIdentifier ''ws1''" by code_simp
  then show ?thesis by (simp add: ClaimExecution_def demo_identifiers demo_run4_def demo_run3_def demo_run2_eq demo_auth4_def demo_auth3_def demo_auth2_eq
        MaxSafeInteger_def MaxRecoveries_def Let_def minTime_def AttemptTTL_def LeaseTTL_def demo_lease_def demo_lease2_def demo_run5_def demo_auth5_def
        demo_expires_def demo_time)
qed

lemma demo_claim2:
  "StoreClaimRun demo_cfg (\<lambda>_. False) (rc_guard demo_rc) (rc_loadCheckpoint demo_rc) ''w1'' ''ws1'' Hour Hour Hour Hour demo_decided =
     Inr (Some (demo_lease2, ''checkpoint'', Hour), demo_acting)"
proof -
  define w where "w = \<lparr>wc_ID = ''w1'', wc_Tenants = [''t1''], wc_ProfileIDs = [''p1''], wc_Capacity = 1\<rparr>"
  have w: "map_of (cfg_workers demo_cfg) ''w1'' = Some w" "wc_Capacity w = 1" "cfg_tenantCapacity demo_cfg = 2" "cfg_profileCapacity demo_cfg = 3"
    "claimProfiles demo_cfg pf_Executable w = [''p1'']"
    by (simp_all add: demo_cfg_def w_def claimProfiles_def demo_profile_def sample_profile_def)
  have pos: "Hour < demo_expires" "0 < sessionTTL" by (simp_all add: demo_time sessionTTL_def demo_expires_def)
  have slots: "lockSlots (slotKeys demo_run4 ''w1'') [Some 1, Some 2, Some 3] demo_decided = Inr (demo_slots0, demo_decided)"
    by (simp add: slotKeys_def lockSlot_def Let_def demo_slots0_def demo_slots_def)
  have auth: "demo_auth5\<lparr>au_EventSequence := 6\<rparr> = demo_auth5" "run_AttemptNo demo_run5 = 2" "run_TenantID demo_run5 = ''t1''" "run_ID demo_run5 = ''r1''"
    "run_State demo_run5 = Running" "newAttempt demo_run5 (demo_auth5\<lparr>au_EventSequence := 5\<rparr>) ''w1'' ''ws1'' Hour = newAttempt demo_run5 demo_auth5 ''w1'' ''ws1'' Hour"
    by (simp_all add: demo_auth5_def demo_run5_def newAttempt_def)
  have att: "ra_no demo_attempt1 = 1" by (simp add: demo_attempt1_def closedAttempt_def newAttempt_def)
  have grant: "grantLease Hour demo_run4 demo_auth4 demo_slots0 ''w1'' ''ws1'' Hour demo_decided =
      Inr (demo_lease2, demo_run5, demo_auth5\<lparr>au_EventSequence := 5\<rparr>, demo_acting)"
    by (simp add: grantLease_def demo_claim_lease2 demo_slots0_def demo_slots_def Let_def recordRun_def appendEvent_def MaxSafeInteger_def
        saveRun_def auth att) (simp add: demo_acting_def demo_slots_def)
  have free: "\<not> list_ex (\<lambda>s. sl_Capacity s \<le> sl_Used s) demo_slots0" by (simp add: demo_slots0_def demo_slots_def)
  have profile: "ledgerProfile demo_cfg demo_run4 ex demo_decided = Inr (demo_profile\<lparr>pf_Executable := False\<rparr>)" for ex by (rule demo_ledgerProfile) simp_all
  have enabled: "pf_ApprovalEnabled (demo_profile\<lparr>pf_Executable := False\<rparr>)" by (simp add: demo_profile_def)
  have checks: "rc_loadCheckpoint demo_rc db2 r a = Inr ''checkpoint''" for r a db2 by (simp add: demo_rc_def)
  have "claimRow demo_cfg (rc_guard demo_rc) (rc_loadCheckpoint demo_rc) w ''w1'' ''ws1'' Hour Hour Hour demo_run4 demo_auth4 demo_decided =
      Inr (Some (demo_lease2, ''checkpoint'', Hour), demo_acting)"
    unfolding claimRow_def Let_def
    by (simp add: demo_loadAccounts w slots profile enabled demo_checkSession free pos checks grant)
  moreover have "claimCandidate (\<lambda>_. False) w [''p1''] (claimProfiles demo_cfg pf_ApprovalEnabled w) ''w1'' demo_decided = Some (demo_run4, demo_auth4)"
    by (simp add: claimCandidate_def claimableRun_def slotFull_def w_def demo_slots0_def demo_slots_def)
  moreover have "ValidUUID (cfg_parseUUID demo_cfg) ''ws1''" by (simp add: demo_cfg_def ValidUUID_def)
  ultimately show ?thesis using pos by (simp add: StoreClaimRun_def w Let_def demo_checkSession)
qed

section \<open>The signed action\<close>

definition demo_step3 :: StepIdentity where
  "demo_step3 = \<lparr>st_ID = ''step3'', st_Sequence = 3, st_Kind = ResolutionOperation, st_CursorVersion = 2, st_InputHash = sample_hash,
     st_ProfileID = ''p1'', st_ProfileHash = sample_hash, st_SnapshotID = ''s1'', st_SnapshotHash = sample_hash\<rparr>"

definition demo_authorization2 :: ActionAuthorization where
  "demo_authorization2 = demo_authorization\<lparr>aa_BusinessRequestCreatedAt := UnixMicro Hour, aa_DecidedAt := UnixMicro Hour, aa_AuthorizedAt := UnixMicro Hour,
     aa_PermissionExpiresAt := UnixMicro demo_expires, aa_AuthorizationExpiresAt := UnixMicro demo_expires, aa_RunDeadline := UnixMicro demo_expires\<rparr>"

definition demo_action2 :: SignedAction where
  "demo_action2 = \<lparr>sa_Authorization = demo_authorization2, sa_Parameters = demo_params, sa_Signature = ''secret'' @ sample_hash\<rparr>"

definition demo_authrow :: AuthorizationRow where
  "demo_authrow = \<lparr>az_TenantID = ''t1'', az_BusinessRequestID = ''q1'', az_RunID = ''r1'', az_OperationID = ''op1'', az_ApprovalID = ''ap1'', az_Hash = sample_hash,
     az_Action = demo_action2, az_QueryCount = 0, az_WriteCount = 0, az_AuthorizedAt = Hour, az_ExpiresAt = demo_expires\<rparr>"

definition demo_signed :: action_db where
  "demo_signed = empty_actions\<lparr>action_authorizations := [demo_authrow]\<rparr>"

lemma demo_acting_tables [simp]:
  "worker_sessions demo_acting = [demo_session]" "agent_profiles demo_acting = [storedProfile demo_profile]"
  "business_requests demo_acting = [demo_business]" "runs demo_acting = [(demo_run5, demo_auth5)]" "run_approvals demo_acting = [demo_approved]"
  "run_steps demo_acting = run_steps demo_awaiting" "execution_slots demo_acting = demo_slots"
  "run_attempts demo_acting = [demo_attempt1, newAttempt demo_run5 demo_auth5 ''w1'' ''ws1'' Hour]"
  "budget_accounts demo_acting = [demo_account ''a1'' ''tenant'' ''t1'', demo_account ''a2'' ''batch'' ''b1'', demo_family]" "action_calls demo_acting = []"
  by (simp_all add: demo_acting_def)

lemma demo_run5_fields [simp]:
  "run_ID demo_run5 = ''r1''" "run_TenantID demo_run5 = ''t1''" "run_ProfileID demo_run5 = ''p1''" "run_BusinessRequestID demo_run5 = ''q1''"
  "run_State demo_run5 = Running" "run_RunDeadline demo_run5 = demo_expires" "run_ProfileHash demo_run5 = sample_hash"
  "run_AttemptNo demo_run5 = 2" "run_CursorVersion demo_run5 = 2" "run_SnapshotID demo_run5 = ''s1''" "run_SnapshotHash demo_run5 = sample_hash"
  "run_CancelRequestedAt demo_run5 = None" "run_PermissionExpiresAt demo_run5 = Some demo_expires" "run_ContentPurgedAt demo_run5 = None"
  "run_Error demo_run5 = None" "run_TicketID demo_run5 = ''ticket''" "run_LeaseUntil demo_run5 = Some (Hour + LeaseTTL)"
  "run_AttemptDeadline demo_run5 = Some (Hour + AttemptTTL)" "run_TerminalAt demo_run5 = None"
  by (simp_all add: demo_run5_def demo_run4_def) (simp_all add: demo_run3_def demo_run2_eq)

lemma demo_auth5_fields [simp]:
  "au_WorkerID demo_auth5 = ''w1''" "au_SessionID demo_auth5 = ''ws1''" "au_FencingToken demo_auth5 = 2" "au_ActiveCallID demo_auth5 = None"
  "au_CheckpointBytes demo_auth5 = 9" "au_EventSequence demo_auth5 = 6" "au_NextStepID demo_auth5 = ''step3''"
  "au_NextStepKind demo_auth5 = ''apply_ticket_resolution''" "au_NextInputHash demo_auth5 = sample_hash"
  by (simp_all add: demo_auth5_def demo_auth4_def demo_auth3_def demo_auth2_eq)

lemma demo_lease2_fields [simp]: "ls_TenantID demo_lease2 = ''t1''" "ls_RunID demo_lease2 = ''r1''" "ls_WorkerID demo_lease2 = ''w1''"
  "ls_SessionID demo_lease2 = ''ws1''" "ls_AttemptNo demo_lease2 = 2" "ls_FencingToken demo_lease2 = 2"
  by (simp_all add: demo_lease2_def)

lemma demo_lease2_valid: "validateLedgerLease demo_cfg demo_lease2"
  by (simp add: validateLedgerLease_def demo_identifiers ValidUUID_def MaxSafeInteger_def demo_cfg_def)

lemma demo_lock5: "runs db = [(demo_run5, demo_auth5)] \<Longrightarrow> lockRun ''t1'' ''r1'' db = Inr (demo_run5, demo_auth5)"
  by (simp add: lockRun_def)

lemma demo_action_execution:
  assumes "worker_sessions db = [demo_session]" "agent_profiles db = [storedProfile demo_profile]"
  shows "actionExecution demo_cfg demo_ae ''w1'' demo_run5 demo_auth5 demo_lease2 demo_step3 Hour db = Inr ()"
proof -
  have "CheckExecution demo_run5 demo_auth5 demo_lease2 Hour = Inr ()"
    by (simp add: CheckExecution_def afterNow_def matchesExecution_def LeaseTTL_def AttemptTTL_def demo_time demo_expires_def)
  moreover have "CheckStep (cfg_parseUUID demo_cfg) demo_run5 demo_auth5 demo_step3 = Inr ()"
    by (simp add: CheckStep_def demo_step3_def ValidUUID_def sample_hash_valid demo_identifiers validStepKind_def demo_parse ResolutionOperation_def)
  moreover have "checkSession demo_cfg ''w1'' ''w1'' ''ws1'' ''t1'' ''p1'' Hour True db = Inr ()"
    using demo_checkSession [OF assms(1), of Hour True] by (simp add: sessionTTL_def demo_time)
  moreover have "st_Kind demo_step3 = ResolutionOperation" by (simp add: demo_step3_def)
  moreover have "ledgerProfile demo_cfg demo_run5 False db = Inr (demo_profile\<lparr>pf_Executable := False\<rparr>)" by (rule demo_ledgerProfile) (simp_all add: assms)
  moreover have "pf_ApprovalEnabled (demo_profile\<lparr>pf_Executable := False\<rparr>)" by (simp add: demo_profile_def)
  ultimately show ?thesis by (simp add: actionExecution_def ledgerExecution_def)
qed

lemma demo_authorized2: "AuthorizationHash demo_benv demo_authorization2 = Inr sample_hash"
proof -
  have "validAuthorization demo_benv demo_authorization2" by code_simp
  then show ?thesis by (simp add: AuthorizationHash_def demo_fingerprint)
qed

lemma demo_authHash2: "authHash demo_benv demo_action2 = sample_hash"
  by (simp add: authHash_def demo_action2_def demo_authorized2)

lemma demo_fields2:
  "aa_TenantID demo_authorization2 = ''t1''" "aa_BusinessRequestID demo_authorization2 = ''q1''" "aa_RunID demo_authorization2 = ''r1''"
  "aa_OperationID demo_authorization2 = ''op1''" "aa_ApprovalID demo_authorization2 = ''ap1''" "aa_ParametersHash demo_authorization2 = sample_hash"
  "aa_ProposalHash demo_authorization2 = sample_hash" "aa_AuthorizedAt demo_authorization2 = UnixMicro Hour"
  "aa_AuthorizationExpiresAt demo_authorization2 = UnixMicro demo_expires" "aa_KeyID demo_authorization2 = ''key''"
  "vv_TicketID (aa_VersionVector demo_authorization2) = ''ticket''" "rp_TicketID demo_params = ''ticket''" "vv_TicketRevision (aa_VersionVector demo_authorization2) = 1"
  "sa_Authorization demo_action2 = demo_authorization2" "sa_Parameters demo_action2 = demo_params" "rp_TargetTicketStatus demo_params = ''escalated''"
  by (simp_all add: demo_authorization2_def demo_authorization_def demo_action2_def)
    (simp_all add: demo_params_def SnapshotVersionVector_def snapshotVector_fields demo_snap_def demo_ticket_def)

lemma demo_sign2: "SignAction demo_benv demo_authorization2 demo_params ''secret'' = Inr demo_action2"
  by (simp add: SignAction_def demo_fields2 demo_parameters demo_authorized2) (simp add: demo_action2_def demo_benv_def)

lemma demo_params_of: "ResolutionFromProposal demo_benv ''ticket'' demo_proposal = Inr demo_params"
proof -
  have "ParametersHash demo_benv demo_params = Inr sample_hash" by (rule demo_parameters)
  then show ?thesis by (simp add: ResolutionFromProposal_def demo_proposal_def demo_params_def Let_def)
qed

lemma demo_authorize:
  "\<exists>effect. AuthorizeAction demo_cfg demo_rc demo_ae ''w1'' demo_lease2 demo_step3 ''op1'' Hour Hour (demo_acting, empty_actions) =
     Inr ((demo_action2, effect), (demo_acting, demo_signed))"
proof -
  have ae: "ae_business demo_ae = demo_benv" by (simp add: demo_ae_def)
  obtain view where view: "approvalView demo_cfg demo_ae demo_run5 Hour demo_acting = Inr (view, sample_hash)" "vw_Status view = ''approved''"
    "vw_ProposalHash view = sample_hash" "vw_Proposal view = demo_proposal" "vw_ApprovalID view = Some ''ap1''" "vw_ActorID view = Some ''alice''" "vw_DecidedAt view = Some Hour"
    using demo_view [of demo_acting demo_approved demo_run5 Hour] by (auto simp: demo_approved_def demo_pending_def)
  have auth: "newAuthorization ''op1'' ''key'' demo_run5 view sample_hash Hour (SnapshotVersionVector demo_snap) demo_expires Hour = demo_authorization2"
    by (simp add: newAuthorization_def view demo_authorization2_def demo_authorization_def ResolutionOperation_def)
  have key: "signingKey demo_ae p = Inr (''key'', ''secret'')" for p by (simp add: signingKey_def demo_ae_def demo_benv_def)
  have ins: "insertAuthorization demo_benv demo_action2 Hour demo_expires empty_actions = Inr demo_signed"
    by (simp add: insertAuthorization_def demo_fields2 demo_authHash2 demo_signed_def demo_authrow_def empty_actions_def Let_def)
  have late: "Hour < demo_expires" by (simp add: demo_expires_def demo_time)
  have accounts: "accountsAvailable [demo_family, demo_account ''a1'' ''tenant'' ''t1'', demo_account ''a2'' ''batch'' ''b1''] Hour = Inr ()"
    by (rule demo_available) (simp_all add: demo_time)
  have profile: "ledgerProfile demo_cfg demo_run5 True demo_acting = Inr (demo_profile\<lparr>pf_Executable := False\<rparr>)" by (rule demo_ledgerProfile) simp_all
  have vector: "ae_vector demo_ae r = Some (SnapshotVersionVector demo_snap)" for r by (simp add: demo_ae_def)
  have guard: "rc_guard demo_rc db i p r a now = Inr ()" for db i p r a now by (simp add: demo_rc_def)
  have biz: "bq_TenantID demo_business = ''t1''" "bq_ID demo_business = ''q1''" "bq_CreatedAt demo_business = Hour" by (simp_all add: demo_business_def)
  have exec: "actionExecution demo_cfg demo_ae ''w1'' demo_run5 demo_auth5 demo_lease2 demo_step3 Hour demo_acting = Inr ()" by (rule demo_action_execution) simp_all
  have new: "authorizeNew demo_cfg demo_rc demo_ae ''w1'' demo_lease2 demo_step3 ''op1'' Hour Hour
      [demo_family, demo_account ''a1'' ''tenant'' ''t1'', demo_account ''a2'' ''batch'' ''b1''] demo_run5 demo_auth5 (demo_acting, empty_actions) = Inr (demo_action2, demo_signed)"
    by (simp add: authorizeNew_def profile accounts guard view ae demo_params_of key biz vector exec late demo_parameters auth demo_sign2 ins Let_def)
  have none: "readAction ''t1'' ''q1'' empty_actions = None" by (simp add: readAction_def findAuthorization_def empty_actions_def)
  have load: "loadAccounts ''t1'' ''q1'' demo_acting = Inr [demo_family, demo_account ''a1'' ''tenant'' ''t1'', demo_account ''a2'' ''batch'' ''b1'']"
    by (rule demo_loadAccounts) simp_all
  show ?thesis
    by (simp add: AuthorizeAction_def demo_lease2_valid demo_lock5 load exec none new demo_fields2 readEffect_def demo_signed_def Let_def) (simp add: empty_actions_def)
qed

section \<open>The permit, the write and its observation\<close>

definition demo_reserve :: ReserveActionCallRequest where
  "demo_reserve = \<lparr>rac_Lease = demo_lease2, rac_Step = demo_step3, rac_ID = ''c1'', rac_Kind = ''action_write'', rac_OperationID = ''op1'',
     rac_AuthorizationHash = sample_hash\<rparr>"

definition demo_permit :: ActionCall where
  "demo_permit = \<lparr>al_ID = ''c1'', al_Lease = demo_lease2, al_Step = demo_step3, al_OperationID = ''op1'', al_AuthorizationHash = sample_hash,
     al_Kind = ''action_write'', al_ReservedAt = Hour, al_DispatchExpiresAt = Hour + 2 * Second, al_Deadline = Hour + 10 * Second,
     al_TransportOutcome = None, al_ObservationHash = None, al_ObservedAt = None\<rparr>"

definition demo_permitted :: "run_db \<times> action_db" where
  "demo_permitted = (demo_acting\<lparr>action_calls := [\<lparr>ax_tenant = ''t1'', ax_run = ''r1'', ax_id = ''c1'', ax_attempt = 2, ax_status = ''reserved''\<rparr>]\<rparr>,
     demo_signed\<lparr>action_authorizations := [demo_authrow\<lparr>az_WriteCount := 1\<rparr>], action_call_rows := [demo_permit]\<rparr>)"

lemma demo_signed_tables [simp]:
  "action_authorizations demo_signed = [demo_authrow]" "action_call_rows demo_signed = []" "action_receipt_views demo_signed = []"
  "readAction ''t1'' ''q1'' demo_signed = Some demo_action2"
  by (simp_all add: demo_signed_def empty_actions_def readAction_def findAuthorization_def demo_authrow_def)

lemma demo_reserve_call:
  "ReserveActionCall demo_cfg demo_rc demo_ae ''w1'' demo_reserve Hour Hour (demo_acting, demo_signed) = Inr ((demo_permit, True), demo_permitted)"
proof -
  have ae: "ae_business demo_ae = demo_benv" by (simp add: demo_ae_def)
  have req: "rac_Lease demo_reserve = demo_lease2" "rac_Step demo_reserve = demo_step3" "rac_ID demo_reserve = ''c1''" "rac_Kind demo_reserve = ''action_write''"
    "rac_OperationID demo_reserve = ''op1''" "rac_AuthorizationHash demo_reserve = sample_hash" by (simp_all add: demo_reserve_def)
  have row: "az_TenantID demo_authrow = ''t1''" "az_OperationID demo_authrow = ''op1''" "az_WriteCount demo_authrow = 0" by (simp_all add: demo_authrow_def)
  have exec: "actionExecution demo_cfg demo_ae ''w1'' demo_run5 demo_auth5 demo_lease2 demo_step3 Hour demo_acting = Inr ()" by (rule demo_action_execution) simp_all
  have accounts: "accountsAvailable [demo_family, demo_account ''a1'' ''tenant'' ''t1'', demo_account ''a2'' ''batch'' ''b1''] Hour = Inr ()"
    by (rule demo_available) (simp_all add: demo_time)
  have profile: "ledgerProfile demo_cfg demo_run5 True demo_acting = Inr (demo_profile\<lparr>pf_Executable := False\<rparr>)" by (rule demo_ledgerProfile) simp_all
  have guard: "rc_guard demo_rc db i p r a now = Inr ()" for db i p r a now by (simp add: demo_rc_def)
  have expires: "UnixMicro Hour < UnixMicro demo_expires" "UnixMicro demo_expires * 1000 = demo_expires" "Hour < demo_expires"
    by (simp_all add: UnixMicro_def demo_expires_def demo_time)
  have deadline: "callDeadline demo_run5 Hour = Hour + 10 * Second"
    by (simp add: callDeadline_def minTime_def demo_expires_def demo_time LeaseTTL_def AttemptTTL_def)
  have minimum: "minTime (Hour + 10 * Second) demo_expires = Hour + 10 * Second" "minTime (Hour + 2 * Second) (Hour + 10 * Second) = Hour + 2 * Second"
    by (simp_all add: minTime_def demo_expires_def demo_time)
  have wr: "writeAllowed demo_cfg demo_rc demo_action2 0 [demo_family, demo_account ''a1'' ''tenant'' ''t1'', demo_account ''a2'' ''batch'' ''b1''] Hour
      demo_run5 demo_auth5 demo_acting = Inr ()"
    using expires by (simp add: writeAllowed_def profile accounts guard demo_fields2)
  have ins: "insertActionCall demo_permit demo_run5 (demo_acting, demo_signed) = Inr demo_permitted"
    by (simp add: insertActionCall_def demo_permitted_def demo_permit_def countCall_def demo_authrow_def)
  have grant: "grantActionCall demo_cfg demo_rc demo_ae ''w1'' demo_reserve demo_action2
      [demo_family, demo_account ''a1'' ''tenant'' ''t1'', demo_account ''a2'' ''batch'' ''b1''] Hour Hour demo_run5 demo_auth5 (demo_acting, demo_signed) =
      Inr (demo_permit, demo_permitted)"
    by (simp add: grantActionCall_def req row wr exec accounts deadline expires demo_fields2 minimum demo_permit_def [symmetric] ins Let_def)
  have load: "loadAccounts ''t1'' ''q1'' demo_acting = Inr [demo_family, demo_account ''a1'' ''tenant'' ''t1'', demo_account ''a2'' ''batch'' ''b1'']"
    by (rule demo_loadAccounts) simp_all
  show ?thesis
    by (simp add: ReserveActionCall_def req demo_lease2_valid ValidUUID_def demo_parse(1) sample_hash_valid demo_lock5 load demo_fields2 ae demo_authHash2 exec
        readActionCall_def grant)
qed

definition demo_observe :: ObserveActionCallRequest where
  "demo_observe = \<lparr>oac_Lease = demo_lease2, oac_ID = ''c1'', oac_TransportOutcome = ''response'', oac_ObservationHash = sample_hash\<rparr>"

definition demo_seen :: ActionCall where
  "demo_seen = demo_permit\<lparr>al_TransportOutcome := Some ''response'', al_ObservationHash := Some sample_hash, al_ObservedAt := Some Hour\<rparr>"

definition demo_observed :: "run_db \<times> action_db" where
  "demo_observed = (demo_acting\<lparr>action_calls := [\<lparr>ax_tenant = ''t1'', ax_run = ''r1'', ax_id = ''c1'', ax_attempt = 2, ax_status = ''observed''\<rparr>]\<rparr>,
     demo_signed\<lparr>action_authorizations := [demo_authrow\<lparr>az_WriteCount := 1\<rparr>], action_call_rows := [demo_seen]\<rparr>)"

lemma demo_observe_call: "ObserveActionCall demo_cfg ''w1'' demo_observe Hour demo_permitted = Inr (demo_seen, demo_observed)"
proof -
  have "checkSession demo_cfg ''w1'' ''w1'' ''ws1'' ''t1'' '''' Hour False (fst demo_permitted) = Inr ()"
    using demo_checkSession [of "fst demo_permitted" Hour False] by (simp add: sessionTTL_def demo_time demo_permitted_def)
  moreover have "lockRun ''t1'' ''r1'' (fst demo_permitted) = Inr (demo_run5, demo_auth5)" by (rule demo_lock5) (simp add: demo_permitted_def)
  moreover have "readActionCall demo_run5 ''c1'' (snd demo_permitted) = Some demo_permit" by (simp add: readActionCall_def demo_permitted_def demo_permit_def)
  moreover have "observeActionRow demo_observe Hour demo_run5 demo_permit demo_permitted = Inr (demo_seen, demo_observed)"
    by (simp add: observeActionRow_def demo_observe_def demo_permitted_def demo_observed_def demo_seen_def demo_permit_def Let_def)
  moreover have "al_Lease demo_permit = demo_lease2" by (simp add: demo_permit_def)
  moreover have "oac_Lease demo_observe = demo_lease2" "oac_ID demo_observe = ''c1''" "oac_ObservationHash demo_observe = sample_hash" "oac_TransportOutcome demo_observe = ''response''"
    by (simp_all add: demo_observe_def)
  ultimately show ?thesis by (simp add: ObserveActionCall_def demo_lease2_valid ValidUUID_def demo_parse(1) sample_hash_valid)
qed

section \<open>The receipt of the business store and the completed action\<close>

definition demo_receipt2 :: ActionReceipt where
  "demo_receipt2 = demo_receipt\<lparr>rt_AppliedAt := UnixMicro Hour, rt_RetainUntil := UnixMicro Hour + retentionMicros\<rparr>"

definition demo_resolved2 :: business_db where
  "demo_resolved2 = demo_captured\<lparr>tickets := [demo_ticket\<lparr>tk_Revision := 2, tk_Status := ''escalated''\<rparr>],
     ticket_resolutions := [\<lparr>rw_TenantID = ''t1'', rw_OperationID = ''op1'', rw_BusinessRequestID = ''q1'', rw_TicketID = ''ticket'',
       rw_AuthorizationHash = sample_hash, rw_Parameters = demo_params, rw_Receipt = demo_receipt2\<rparr>]\<rparr>"

lemma demo_write: "ApplyResolution demo_benv demo_trusted ''t1'' demo_action2 Hour demo_captured = Inr (demo_receipt2, demo_resolved2)"
proof -
  have db: "ticket_resolutions demo_captured = []" "tickets demo_captured = [demo_ticket]"
    by (simp_all add: demo_captured_def demo_published_def demo_facts_def empty_business_def)
  have t: "tk_TenantID demo_ticket = ''t1''" "tk_TicketID demo_ticket = ''ticket''"
    "resolvedTicket demo_params demo_ticket = demo_ticket\<lparr>tk_Revision := 2, tk_Status := ''escalated''\<rparr>"
    by (simp_all add: demo_ticket_def resolvedTicket_def demo_params_def)
  have current: "currentActionTicket demo_benv demo_action2 demo_captured = Inr demo_ticket" by code_simp
  have verified: "Verify demo_benv demo_action2 ''secret'' = Inr ()"
    by (simp add: Verify_def demo_fields2 demo_parameters demo_authorized2) (simp add: demo_benv_def demo_action2_def)
  have "newReceipt demo_benv demo_action2 sample_hash demo_ticket Hour = demo_receipt2"
    by (simp add: newReceipt_def Let_def demo_fields2 ActionReceiptHash_def demo_fingerprint)
      (simp add: demo_ticket_def resolvedTicket_def demo_params_def demo_receipt_def demo_receipt2_def UnixMicro_def retentionMicros_def demo_time)
  moreover have "UnixMicro Hour < UnixMicro demo_expires" by (simp add: UnixMicro_def demo_expires_def demo_time)
  ultimately show ?thesis
    by (simp add: ApplyResolution_def Let_def demo_fields2 db t demo_authorized2 demo_parameters demo_trusted_def verified current
        insertResolution_def demo_resolved2_def)
qed

lemma demo_receipt2_valid: "ReceiptValidate demo_benv demo_receipt2 demo_action2 = Inr ()"
proof -
  have "rt_ReceiptHash demo_receipt2 = ActionReceiptHash demo_benv demo_receipt2" by (simp add: ActionReceiptHash_def demo_fingerprint demo_receipt2_def demo_receipt_def)
  then show ?thesis
    by (simp add: ReceiptValidate_def Let_def demo_fields2 demo_authorized2)
      (simp add: demo_receipt2_def demo_receipt_def UnixMicro_def demo_expires_def demo_time retentionMicros_def actionSafeInteger_def)
qed


definition demo_complete :: CompleteActionRequest where
  "demo_complete = \<lparr>cac_Lease = demo_lease2, cac_Step = demo_step3, cac_Receipt = demo_receipt2, cac_PhysicalCallID = ''c1''\<rparr>"

definition demo_run6 :: Run where
  "demo_run6 = demo_run5\<lparr>run_CursorVersion := 3, run_State := Succeeded, run_Outcome := Some ''applied'', run_LeaseUntil := None, run_AttemptDeadline := None\<rparr>"

definition demo_auth6 :: Authority where
  "demo_auth6 = demo_auth5\<lparr>au_CheckpointBytes := 11, au_WorkerID := '''', au_SessionID := '''', au_EventSequence := 7\<rparr>"

definition demo_attempt2 :: RunAttempt where
  "demo_attempt2 = closedAttempt Hour ''succeeded'' demo_run6 None None (newAttempt demo_run5 demo_auth5 ''w1'' ''ws1'' Hour)"

definition demo_effected :: action_db where
  "demo_effected = (snd demo_observed)\<lparr>action_receipt_views := [\<lparr>rv_TenantID = ''t1'', rv_OperationID = ''op1'', rv_Receipt = demo_receipt2, rv_EffectVersion = 1,
     rv_Source = ''action_response'', rv_ObservedAt = Hour\<rparr>]\<rparr>"

definition demo_completed :: "run_db \<times> action_db" where
  "demo_completed = ((fst demo_observed)\<lparr>runs := [(demo_run6\<lparr>run_TerminalAt := Some Hour\<rparr>, demo_auth6)],
     run_steps := run_steps demo_acting @ [newStep (actionStep demo_cfg demo_complete ''{}'') demo_run6 ''{}'' Hour],
     run_results := [((''t1'', ''r1''), (''final'', ''action-receipt:op1''))], run_attempts := [demo_attempt1, demo_attempt2], execution_slots := demo_slots0,
     run_events := run_events demo_acting @ [newEvent demo_run6 demo_auth6 ''action_completed'' Hour]\<rparr>, demo_effected)"

lemma demo_observed_tables [simp]:
  "worker_sessions (fst demo_observed) = [demo_session]" "agent_profiles (fst demo_observed) = [storedProfile demo_profile]"
  "runs (fst demo_observed) = [(demo_run5, demo_auth5)]" "run_steps (fst demo_observed) = run_steps demo_awaiting" "execution_slots (fst demo_observed) = demo_slots"
  "run_attempts (fst demo_observed) = [demo_attempt1, newAttempt demo_run5 demo_auth5 ''w1'' ''ws1'' Hour]" "physical_calls (fst demo_observed) = physical_calls demo_acting"
  "action_calls (fst demo_observed) = [\<lparr>ax_tenant = ''t1'', ax_run = ''r1'', ax_id = ''c1'', ax_attempt = 2, ax_status = ''observed''\<rparr>]"
  "run_events (fst demo_observed) = run_events demo_acting" "action_call_rows (snd demo_observed) = [demo_seen]" "action_receipt_views (snd demo_observed) = []"
  "run_results (fst demo_observed) = run_results demo_awaiting"
  "readAction ''t1'' ''q1'' (snd demo_observed) = Some demo_action2"
  by (simp_all add: demo_observed_def readAction_def findAuthorization_def demo_authrow_def) (simp add: demo_acting_def demo_decided_def)

lemma demo_receipt2_fields [simp]: "rt_TenantID demo_receipt2 = ''t1''" "rt_OperationID demo_receipt2 = ''op1''" "rt_ReceiptHash demo_receipt2 = sample_hash"
  by (simp_all add: demo_receipt2_def demo_receipt_def)

lemma demo_finish_action:
  "\<exists>resp. finishAction demo_cfg demo_complete ''{}'' \<lparr>ar_Authority = demo_auth5, ar_AttemptNo = 2, ar_Slots = demo_slots, ar_RecoveryStep = None\<rparr>
     Hour Hour demo_run5 demo_auth5 (fst demo_observed) = Inr (resp, fst demo_completed)"
proof -
  define r1 where "r1 = completedRun demo_run5 Hour"
  define a1 where "a1 = demo_auth5\<lparr>au_CheckpointBytes := 11\<rparr>"
  define commit where "commit = actionStep demo_cfg demo_complete ''{}''"
  define db1 where "db1 = (fst demo_observed)\<lparr>run_steps := run_steps demo_acting @ [newStep commit demo_run6 ''{}'' Hour]\<rparr>"
  define db2 where "db2 = db1\<lparr>run_results := [((''t1'', ''r1''), (''final'', ''action-receipt:op1''))]\<rparr>"
  have r1: "run_TenantID r1 = ''t1''" "run_ID r1 = ''r1''" "run_AttemptNo r1 = 2" "run_Error r1 = None"
    "r1\<lparr>run_LeaseUntil := None, run_AttemptDeadline := None\<rparr> = demo_run6" "newStep commit r1 ''{}'' Hour = newStep commit demo_run6 ''{}'' Hour"
    by (simp_all add: r1_def completedRun_def newStep_def demo_run6_def) (simp add: demo_run5_def demo_run4_def demo_run3_def demo_run2_eq)
  have req: "cac_Step demo_complete = demo_step3" "cac_Receipt demo_complete = demo_receipt2" by (simp_all add: demo_complete_def)
  have ins: "insertStep commit r1 ''{}'' Hour (fst demo_observed) = Inr db1"
  proof -
    have "cm_Step commit = demo_step3" by (simp add: commit_def actionStep_def req)
    moreover have "\<not> list_ex (\<lambda>s. stepKey r1 s \<and> (sr_Sequence s = st_Sequence demo_step3 \<or> sr_ID s = st_ID demo_step3)) (run_steps demo_awaiting)"
      by (simp add: demo_step3_def demo_awaiting_def newStep_def demo_commit_def demo_commit2_def demo_step_def demo_step2_def)
    ultimately show ?thesis by (simp add: insertStep_def db1_def r1)
  qed
  have set: "setResult r1 (''final'', ''action-receipt:op1'') db1 = db2"
    by (simp add: setResult_def Let_def r1 db1_def db2_def demo_awaiting_def)
  have close: "closeAttemptRecords r1 a1 \<lparr>ar_Authority = demo_auth5, ar_AttemptNo = 2, ar_Slots = demo_slots, ar_RecoveryStep = None\<rparr> ''succeeded'' Hour db2 =
      Inr (demo_run6, demo_auth6\<lparr>au_EventSequence := 6\<rparr>, db2\<lparr>run_attempts := [demo_attempt1, demo_attempt2], execution_slots := demo_slots0\<rparr>)"
  proof -
    have "a1\<lparr>au_WorkerID := '''', au_SessionID := '''', au_ActiveCallID := None\<rparr> = demo_auth6\<lparr>au_EventSequence := 6\<rparr>" "au_FencingToken a1 = 2"
      by (simp_all add: a1_def demo_auth6_def)
    moreover have "run_Error demo_run6 = None" by (simp add: demo_run6_def)
    ultimately show ?thesis
      by (simp add: closeAttemptRecords_def markCalls_def recoveryEvidence_def r1 db2_def db1_def newAttempt_def Let_def demo_slots_def demo_slots0_def
          demo_attempt1_def demo_attempt2_def closedAttempt_def)
  qed
  have auth: "au_EventSequence demo_auth6 = 7" "demo_auth6\<lparr>au_EventSequence := 7\<rparr> = demo_auth6" by (simp_all add: demo_auth6_def)
  have run6: "run_TenantID demo_run6 = ''t1''" "run_ID demo_run6 = ''r1''" "run_State demo_run6 = Succeeded" "run_TerminalAt demo_run6 = None" by (simp_all add: demo_run6_def)
  show ?thesis
    by (simp add: finishAction_def r1_def [symmetric] a1_def [symmetric] commit_def [symmetric] req ins set close appendEvent_def MaxSafeInteger_def
        auth saveRun_def run6 Let_def) (simp add: demo_completed_def db2_def db1_def commit_def)
qed

lemma demo_complete_action: "\<exists>resp. CompleteAction demo_cfg demo_ae ''w1'' demo_complete Hour Hour Hour demo_observed = Inr (resp, demo_completed)"
proof -
  have ae: "ae_business demo_ae = demo_benv" "ae_output demo_ae x = Inr ''{}''" for x by (simp_all add: demo_ae_def)
  have req: "cac_Lease demo_complete = demo_lease2" "cac_Step demo_complete = demo_step3" "cac_Receipt demo_complete = demo_receipt2" "cac_PhysicalCallID demo_complete = ''c1''"
    by (simp_all add: demo_complete_def)
  have lock: "lockRun ''t1'' ''r1'' (fst demo_observed) = Inr (demo_run5, demo_auth5)" by (rule demo_lock5) simp
  obtain effect where effect: "readEffect demo_benv (Some demo_action2) (snd demo_observed) = Inr effect" "fv_State effect = ''unknown''"
    by (simp add: readEffect_def Let_def)
  have source: "receiptSource demo_cfg demo_complete effect demo_run5 demo_observed = Inr ''action_response''"
    by (simp add: receiptSource_def effect req ValidUUID_def demo_parse(1) readActionCall_def actionCallStatus_def demo_seen_def demo_permit_def
        demo_sha_other demo_parse)
  have res: "lockAttemptResources demo_run5 demo_auth5 (fst demo_observed) =
      Inr \<lparr>ar_Authority = demo_auth5, ar_AttemptNo = 2, ar_Slots = demo_slots, ar_RecoveryStep = None\<rparr>"
    by (simp add: lockAttemptResources_def newAttempt_def slotKeys_def lockSlot_def Let_def demo_slots_def demo_attempt1_def closedAttempt_def)
  have exec: "actionExecution demo_cfg demo_ae ''w1'' demo_run5 demo_auth5 demo_lease2 demo_step3 Hour (fst demo_observed) = Inr ()" by (rule demo_action_execution) simp_all
  have save: "saveEffect demo_benv demo_action2 demo_receipt2 ''action_response'' Hour (snd demo_observed) = Inr demo_effected"
    by (simp add: saveEffect_def demo_receipt2_valid Let_def demo_effected_def)
  obtain resp where "finishAction demo_cfg demo_complete ''{}'' \<lparr>ar_Authority = demo_auth5, ar_AttemptNo = 2, ar_Slots = demo_slots, ar_RecoveryStep = None\<rparr>
     Hour Hour demo_run5 demo_auth5 (fst demo_observed) = Inr (resp, fst demo_completed)" using demo_finish_action by blast
  moreover have "snd demo_completed = demo_effected" by (simp add: demo_completed_def)
  ultimately show ?thesis
    by (simp add: CompleteAction_def req demo_lease2_valid lock ae demo_receipt2_valid effect source res exec save MaxCheckpointBytes_def) (metis prod.collapse)
qed


section \<open>The history as a path of the system\<close>

lemma demo_full_store:
  "reachable_actions demo_cfg demo_ae (db, t) \<Longrightarrow> store_step demo_cfg demo_rc demo_cc db db' \<Longrightarrow> reachable_actions demo_cfg demo_ae (db', t)"
  unfolding reachable_actions_def by (erule reachable_step) (rule full_step.on_store [OF demo_config])

lemma demo_full_action:
  "reachable_actions demo_cfg demo_ae s \<Longrightarrow> action_step demo_cfg demo_rc demo_ae s s' \<Longrightarrow> reachable_actions demo_cfg demo_ae s'"
  unfolding reachable_actions_def by (erule reachable_step) (rule full_step.on_action [OF demo_config])

lemma demo_reach_awaiting: "reachable_actions demo_cfg demo_ae (demo_awaiting, empty_actions)"
proof -
  note setup_next = demo_full_store [OF _ store_step.on_setup]
  have "reachable_actions demo_cfg demo_ae (empty_store, empty_actions)" unfolding reachable_actions_def by (rule reachable_start) simp
  note setup_next [OF this setup_step.budget [OF demo_create(1)]]
  note setup_next [OF this setup_step.budget [OF demo_create(2)]]
  note setup_next [OF this setup_step.bind [OF demo_bind]]
  note setup_next [OF this setup_step.profiles [OF demo_profiles]]
  note setup_next [OF this setup_step.admit [OF demo_admit]]
  note demo_full_store [OF this store_step.on_lifecycle [OF lifecycle_step.register [OF demo_register]]]
  note demo_full_store [OF this store_step.on_lifecycle [OF lifecycle_step.claim [OF demo_claim]]]
  note committed = demo_full_store [OF this demo_committed_step]
  have "store_step demo_cfg demo_rc demo_cc demo_committed demo_awaiting"
    using demo_propose store_step.on_ledger [OF ledger_step.commit] unfolding CommitStep_def by blast
  from demo_full_store [OF committed this] show ?thesis .
qed

lemma demo_reach_acting: "reachable_actions demo_cfg demo_ae (demo_acting, empty_actions)"
proof -
  have "action_step demo_cfg demo_rc demo_ae (demo_awaiting, empty_actions) (demo_decided, empty_actions)" using demo_decide action_step.decide by blast
  from demo_full_store [OF demo_full_action [OF demo_reach_awaiting this] store_step.on_lifecycle [OF lifecycle_step.claim [OF demo_claim2]]] show ?thesis .
qed

lemma demo_reach_signed: "reachable_actions demo_cfg demo_ae (demo_acting, demo_signed)"
  using demo_full_action [OF demo_reach_acting] demo_authorize action_step.authorize by blast

lemma demo_reach_permitted: "reachable_actions demo_cfg demo_ae demo_permitted"
  by (rule demo_full_action [OF demo_reach_signed action_step.permit [OF demo_reserve_call]])

lemma demo_reach_observed: "reachable_actions demo_cfg demo_ae demo_observed"
  by (rule demo_full_action [OF demo_reach_permitted action_step.see [OF demo_observe_call]])

lemma demo_complete_step: "full_step demo_cfg demo_ae demo_observed demo_completed"
  using demo_complete_action full_step.on_action [OF demo_config action_step.complete] by blast

lemma demo_reach_completed: "reachable_actions demo_cfg demo_ae demo_completed"
  using demo_reach_observed demo_complete_step unfolding reachable_actions_def by (rule reachable_step)


section \<open>Two receipt queries after the end\<close>

definition demo_query :: "string \<Rightarrow> time \<Rightarrow> ReceiptQuery" where
  "demo_query i now = \<lparr>qr_ID = i, qr_TenantID = ''t1'', qr_OperationID = ''op1'', qr_SourceRunID = ''r1'', qr_Source = ''reconcile'', qr_ReservedAt = now,
     qr_Deadline = now + 10 * Second, qr_Outcome = None, qr_FinishedAt = None\<rparr>"

definition demo_gate :: "string \<Rightarrow> time \<Rightarrow> QueryGate" where
  "demo_gate i now = \<lparr>qg_TenantID = ''t1'', qg_QueryID = Some i, qg_QueryUntil = Some (now + 10 * Second), qg_NextAllowedAt = now + Second\<rparr>"

definition demo_asked :: "run_db \<times> action_db" where
  "demo_asked = (fst demo_completed, demo_effected\<lparr>tenant_receipt_query_gates := [demo_gate ''y1'' Hour], action_receipt_queries := [demo_query ''y1'' Hour]\<rparr>)"

definition demo_asked2 :: "run_db \<times> action_db" where
  "demo_asked2 = (fst demo_completed, demo_effected\<lparr>tenant_receipt_query_gates := [demo_gate ''y2'' (Hour + 10 * Second)],
     action_receipt_queries := [demo_query ''y1'' Hour, demo_query ''y2'' (Hour + 10 * Second)]\<rparr>)"

lemma demo_lock6: "\<exists>r a. lockRun ''t1'' ''r1'' (fst demo_completed) = Inr (r, a) \<and> run_State r = Succeeded \<and> run_BusinessRequestID r = ''q1''"
  by (simp add: lockRun_def demo_completed_def demo_run6_def)

lemma demo_effected_authorization:
  "findAuthorization ''t1'' ''q1'' (t\<lparr>action_receipt_queries := qs\<rparr>) = findAuthorization ''t1'' ''q1'' t"
  "findAuthorization ''t1'' ''q1'' (t\<lparr>tenant_receipt_query_gates := gs\<rparr>) = findAuthorization ''t1'' ''q1'' t"
  "findAuthorization ''t1'' ''q1'' demo_effected = Some (demo_authrow\<lparr>az_WriteCount := 1\<rparr>)" "action_receipt_queries demo_effected = []" "tenant_receipt_query_gates demo_effected = []"
  by (simp_all add: findAuthorization_def demo_effected_def demo_observed_def demo_authrow_def demo_signed_def empty_actions_def)

lemma demo_ask:
  "ReserveReceiptQuery demo_cfg ''t1'' ''r1'' ''reconcile'' ''y1'' Hour demo_completed = Inr ((''y1'', Hour + 10 * Second), demo_asked)"
  "ReserveReceiptQuery demo_cfg ''t1'' ''r1'' ''reconcile'' ''y2'' (Hour + 10 * Second) demo_asked = Inr ((''y2'', Hour + 10 * Second + 10 * Second), demo_asked2)"
proof -
  obtain r a where r: "lockRun ''t1'' ''r1'' (fst demo_completed) = Inr (r, a)" "run_State r = Succeeded" "run_BusinessRequestID r = ''q1''" using demo_lock6 by blast
  have snd: "snd demo_completed = demo_effected" by (simp add: demo_completed_def)
  have asked: "fst demo_asked = fst demo_completed" "snd demo_asked = demo_effected\<lparr>tenant_receipt_query_gates := [demo_gate ''y1'' Hour], action_receipt_queries := [demo_query ''y1'' Hour]\<rparr>"
    by (simp_all add: demo_asked_def)
  have row: "az_OperationID demo_authrow = ''op1''" by (simp add: demo_authrow_def)
  have time: "epoch \<le> Hour" "Hour + Second \<le> Hour + 10 * Second" by (simp_all add: epoch_def demo_time)
  show "ReserveReceiptQuery demo_cfg ''t1'' ''r1'' ''reconcile'' ''y1'' Hour demo_completed = Inr ((''y1'', Hour + 10 * Second), demo_asked)"
    using time by (simp add: ReserveReceiptQuery_def ValidUUID_def demo_parse(1) demo_identifiers r snd demo_effected_authorization row demo_asked_def demo_gate_def demo_query_def Let_def)
  show "ReserveReceiptQuery demo_cfg ''t1'' ''r1'' ''reconcile'' ''y2'' (Hour + 10 * Second) demo_asked = Inr ((''y2'', Hour + 10 * Second + 10 * Second), demo_asked2)"
    using time by (simp add: ReserveReceiptQuery_def ValidUUID_def demo_parse(1) demo_identifiers r asked demo_effected_authorization row demo_asked2_def demo_gate_def demo_query_def Let_def)
qed

lemma demo_ask_step: "full_step demo_cfg demo_ae demo_completed demo_asked"
  using full_step.on_action [OF demo_config action_step.ask [OF demo_ask(1)]] .

lemma demo_reach_asked: "reachable_actions demo_cfg demo_ae demo_asked2"
proof -
  have "reachable_actions demo_cfg demo_ae demo_asked" using demo_reach_completed demo_ask_step unfolding reachable_actions_def by (rule reachable_step)
  from demo_full_action [OF this action_step.ask [OF demo_ask(2)]] show ?thesis .
qed

end
