(* ===== verification/RunActionProps.thy ===== *)
theory RunActionProps
  imports RunAttempts RunActionDemo
begin

text \<open>
  The properties of approvals and actions that hold in every reachable state of the Run store and
  the tables of actions, and the composition with the business store: what was approved is what is
  signed, permitted, written and recorded. The history of \<open>RunActionDemo\<close> witnesses them.
\<close>

section \<open>Approval\<close>

text \<open>C13. Nothing is done that a person has not approved. In every reachable state every permit for a
  physical call of an action and every recorded receipt belongs to a signed authorization of its
  operation (a permit: of its own Run); and the Run of every authorization has a recorded approval,
  decided in its favour, with the approval identifier, the approver and the hash of the proposal that
  the signed authorization carries.\<close>

theorem every_action_was_approved:
  assumes "reachable_actions cfg ae s"
  shows "(\<forall>z \<in> set (action_authorizations (snd s)). \<exists>v \<in> set (run_approvals (fst s)).
       av_tenant v = az_TenantID z \<and> av_run v = az_RunID z \<and> av_Status v = ''approved'' \<and>
       av_ApprovalID v = Some (aa_ApprovalID (sa_Authorization (az_Action z))) \<and> av_ActorID v = Some (aa_ActorID (sa_Authorization (az_Action z))) \<and>
       av_ProposalHash v = aa_ProposalHash (sa_Authorization (az_Action z))) \<and>
     (\<forall>c \<in> set (action_call_rows (snd s)). \<exists>z \<in> set (action_authorizations (snd s)).
       az_TenantID z = ls_TenantID (al_Lease c) \<and> az_OperationID z = al_OperationID c \<and> az_RunID z = ls_RunID (al_Lease c)) \<and>
     (\<forall>x \<in> set (action_receipt_views (snd s)). \<exists>z \<in> set (action_authorizations (snd s)).
       az_TenantID z = rv_TenantID x \<and> az_OperationID z = rv_OperationID x \<and> isOk (ReceiptValidate (ae_business ae) (rv_Receipt x) (az_Action z)))"
proof -
  have inv: "actions_inv (ae_business ae) (snd s)" using reachable_actions_inv [OF assms] by (simp add: full_inv_def)
  show ?thesis
  proof (intro conjI ballI)
    fix z assume "z \<in> set (action_authorizations (snd s))"
    then obtain v where "v \<in> set (run_approvals (fst s))" "approves v z" using reachable_approved [OF assms] by (auto simp: approved_inv_def)
    then show "\<exists>v \<in> set (run_approvals (fst s)). av_tenant v = az_TenantID z \<and> av_run v = az_RunID z \<and> av_Status v = ''approved'' \<and>
       av_ApprovalID v = Some (aa_ApprovalID (sa_Authorization (az_Action z))) \<and> av_ActorID v = Some (aa_ActorID (sa_Authorization (az_Action z))) \<and>
       av_ProposalHash v = aa_ProposalHash (sa_Authorization (az_Action z))" by (auto simp: approves_def Let_def)
  qed (use inv in \<open>auto simp: actions_inv_def permits_inv_def views_inv_def call_permitted_def view_ok_def\<close>)
qed

theorem every_action_was_approved_witness:
  "\<exists>v \<in> set (run_approvals (fst demo_completed)). av_Status v = ''approved'' \<and> av_ApprovalID v = Some ''ap1'' \<and> av_ProposalHash v = sample_hash"
proof -
  have "demo_authrow\<lparr>az_WriteCount := 1\<rparr> \<in> set (action_authorizations (snd demo_completed))"
    by (simp add: demo_completed_def demo_effected_def demo_observed_def)
  with every_action_was_approved [OF demo_reach_completed] obtain v where "v \<in> set (run_approvals (fst demo_completed))" "av_Status v = ''approved''"
    "av_ApprovalID v = Some (aa_ApprovalID (sa_Authorization (az_Action demo_authrow)))" "av_ProposalHash v = aa_ProposalHash (sa_Authorization (az_Action demo_authrow))"
    by force
  then show ?thesis by (auto simp: demo_authrow_def demo_fields2)
qed

lemma reachable_recorded: "reachable_actions cfg ae s \<Longrightarrow> recorded_inv (cfg_sha cfg) (fst s)"
  unfolding reachable_actions_def by (rule decided_store.invariant)

text \<open>C18. A decision on a proposal is final. Once the approval of a Run is decided, whatever the system
  does afterwards, the decided row stays as it is, and the opposite decision, or the same decision by
  another person, is refused under every key, used before or not. The only assumption is that the
  hash does not collide on two texts, that of the decision on record and that of the refused one.\<close>

theorem decision_is_final:
  assumes "reachable_actions cfg ae s" and "v \<in> set (run_approvals (fst s))" and "av_Status v \<noteq> ''pending''" and "(full_step cfg ae)\<^sup>*\<^sup>* s s'"
    and contrary: "wantedStatus (aq_Decision request) \<noteq> av_Status v \<or> Some actor \<noteq> av_ActorID v"
    and no_collision: "cfg_sha cfg (decision_text request (av_tenant v) (av_run v) actor) =
        cfg_sha cfg (decision_text (decisionOn v) (av_tenant v) (av_run v) (the (av_ActorID v))) \<Longrightarrow>
      decision_text request (av_tenant v) (av_run v) actor = decision_text (decisionOn v) (av_tenant v) (av_run v) (the (av_ActorID v))"
  shows "v \<in> set (run_approvals (fst s')) \<and>
     \<not> isOk (StoreDecideApproval cfg ae (av_tenant v) (av_run v) actor key request nextID approvalID opID now0 now clk (fst s'))"
proof -
  have kept: "v \<in> set (run_approvals (fst s'))" using approvals_kept_steps [OF assms(4)] assms(2,3) unfolding approvals_kept_def by blast
  have dist: "distinct (map avKey (run_approvals (fst s')))"
    using approved_store.invariant_steps [OF reachable_approved [OF assms(1)] assms(4)] by (simp add: approved_inv_def)
  have recorded: "recorded_inv (cfg_sha cfg) (fst s')"
    by (rule decided_store.invariant_steps [OF reachable_recorded [OF assms(1)] assms(4)])
  have row: "u = v" if "u \<in> set (run_approvals (fst s'))" "avKey u = avKey v" for u
    using that kept dist by (auto simp: distinct_map dest: inj_onD)
  have "\<not> isOk (StoreDecideApproval cfg ae (av_tenant v) (av_run v) actor key request nextID approvalID opID now0 now clk (fst s'))"
  proof
    assume "isOk (StoreDecideApproval cfg ae (av_tenant v) (av_run v) actor key request nextID approvalID opID now0 now clk (fst s'))"
    then obtain answer db' where ok: "StoreDecideApproval cfg ae (av_tenant v) (av_run v) actor key request nextID approvalID opID now0 now clk (fst s') = Inr (answer, db')"
      by (auto dest!: isOk_obtain)
    note valid = StoreDecideApproval_valid [OF ok]
    show False
    proof (cases "findOperation (av_tenant v) ''approval'' (av_run v) key (fst s')")
      case None
      from StoreDecideApproval_unused [OF ok None] obtain r a view commit where lock: "lockRun (av_tenant v) (av_run v) (fst s') = Inr (r, a)"
        and view: "approvalView cfg ae r now0 (fst s') = Inr (view, commit)"
        and status: "vw_Status view = ''pending'' \<or> (vw_Status view = wantedStatus (aq_Decision request) \<and> vw_ActorID view = Some actor)" by blast
      from view obtain u where u: "u \<in> set (run_approvals (fst s'))" "av_tenant u = run_TenantID r" "av_run u = run_ID r" "av_Status u = vw_Status view" "av_ActorID u = vw_ActorID view"
        by (rule approvalView_row)
      have "u = v" using row [OF u(1)] lockRun_mem [OF lock] u(2,3) by (simp add: rkey_def)
      with status assms(3) contrary u(4,5) show False by auto
    next
      case (Some x)
      with valid have hash: "op_RequestHash x = ApprovalHash (cfg_sha cfg) request (av_tenant v) (av_run v) actor" by blast
      from Some have x: "x \<in> set (run_operations (fst s'))" "op_TenantID x = av_tenant v" "op_Scope x = ''approval:'' @ av_run v"
        by (auto simp: findOperation_def operationScope_def dest!: find_row_SomeD)
      with recorded obtain u where u: "u \<in> set (run_approvals (fst s'))" "records (cfg_sha cfg) u x" unfolding recorded_inv_def by auto
      with x have "u = v" by (intro row) (auto simp: records_def)
      with u(2) obtain actor' where rec: "av_ActorID v = Some actor'" "ValidIdentifier actor'" "ValidHash (av_ProposalHash v)"
        "av_Status v \<in> {''approved'', ''rejected''}" "op_RequestHash x = ApprovalHash (cfg_sha cfg) (decisionOn v) (av_tenant v) (av_run v) actor'"
        by (auto simp: records_def)
      have "cfg_sha cfg (decision_text request (av_tenant v) (av_run v) actor) =
          cfg_sha cfg (decision_text (decisionOn v) (av_tenant v) (av_run v) (the (av_ActorID v)))"
        unfolding ApprovalHash_text [symmetric] rec(1) option.sel using hash rec(5) by (rule trans [OF sym])
      from no_collision [OF this] have texts: "decision_text request (av_tenant v) (av_run v) actor = decision_text (decisionOn v) (av_tenant v) (av_run v) actor'"
        unfolding rec(1) option.sel .
      have "actor = actor' \<and> aq_Decision request = aq_Decision (decisionOn v) \<and> aq_ProposalHash request = aq_ProposalHash (decisionOn v)"
        by (rule decision_text_inj [OF texts]) (use valid rec in \<open>auto simp: decisionOn_def ApprovalValidate_def split: if_splits\<close>)
      with contrary rec(1,4) show False by (auto simp: decisionOn_def wantedStatus_def)
    qed
  qed
  with kept show ?thesis by blast
qed

theorem decision_is_final_witness:
  "\<not> isOk (StoreDecideApproval demo_cfg demo_ae ''t1'' ''r1'' ''alice'' ''k2'' (demo_request\<lparr>aq_Decision := ''reject''\<rparr>) ''step4'' ''ap2'' ''o3'' Hour Hour Hour (fst demo_completed))"
proof -
  have av: "av_tenant demo_approved = ''t1''" "av_run demo_approved = ''r1''" "av_Status demo_approved = ''approved''" "av_ActorID demo_approved = Some ''alice''"
    "av_ProposalHash demo_approved = sample_hash"
    by (simp_all add: demo_approved_def demo_pending_def)
  have mem: "demo_approved \<in> set (run_approvals (fst demo_observed))" by (simp add: demo_observed_def)
  have "ApprovalHash (cfg_sha demo_cfg) (decisionOn demo_approved) ''t1'' ''r1'' ''alice'' = sample_hash"
    using demo_approve_hash by (simp add: ApprovalHash_def decisionOn_def av demo_request_def)
  moreover have "ApprovalHash (cfg_sha demo_cfg) (demo_request\<lparr>aq_Decision := ''reject''\<rparr>) ''t1'' ''r1'' ''alice'' = ''other''"
    by (simp add: ApprovalHash_def Fingerprint_def demo_request_def demo_parse demo_sha_def)
  moreover have "sample_hash \<noteq> ''other''" by (simp add: sample_hash_def numeral_eq_Suc)
  ultimately have "cfg_sha demo_cfg (decision_text (demo_request\<lparr>aq_Decision := ''reject''\<rparr>) ''t1'' ''r1'' ''alice'') \<noteq>
      cfg_sha demo_cfg (decision_text (decisionOn demo_approved) ''t1'' ''r1'' ''alice'')"
    by (simp add: ApprovalHash_text)
  then show ?thesis
    using decision_is_final [OF demo_reach_observed mem _ r_into_rtranclp [where r = "full_step demo_cfg demo_ae", OF demo_complete_step], of "demo_request\<lparr>aq_Decision := ''reject''\<rparr>" "''alice''" "''k2''"]
    by (simp add: av wantedStatus_def)
qed

section \<open>Attempts\<close>

text \<open>C30. A Run is not executed without end. In every reachable state the number of its attempts is at
  most one for its admission, one for each granted recovery, of which there are at most three, and
  one more once it has submitted a proposal, which it does once: at most five. Worker authority is
  held exactly while the Run is active, and then its lease ends no later than its attempt, and that
  no later than the Run.\<close>

theorem run_attempts_and_leases_are_bounded:
  assumes "reachable_actions cfg ae s" and "(r, a) \<in> set (runs (fst s))"
  shows "run_AttemptNo r \<le> 1 + run_RecoveryCount r + (if run_ProposalRef r = None then 0 else 1) \<and>
     0 \<le> run_RecoveryCount r \<and> run_RecoveryCount r \<le> 3 \<and> run_AttemptNo r \<le> 5 \<and>
     (au_WorkerID a \<noteq> '''' \<longleftrightarrow> active (run_State r)) \<and>
     (active (run_State r) \<longrightarrow> (\<exists>l d. run_LeaseUntil r = Some l \<and> run_AttemptDeadline r = Some d \<and> l \<le> d \<and> d \<le> run_RunDeadline r))"
proof -
  have "run_ok r a" using inv_parts(4) [OF store_inv_parts(1) assms(2)] reachable_actions_inv [OF assms(1)] by (simp add: full_inv_def)
  moreover have "row_attempted (fst s) (r, a)" using reachable_actions_attempts [OF assms(1)] assms(2) unfolding attempts_inv_def by blast
  ultimately show ?thesis by (auto simp: run_ok_def row_attempted_def pace_def MaxRecoveries_def split: if_splits)
qed

theorem run_attempts_and_leases_are_bounded_witness:
  "(demo_run5, demo_auth5) \<in> set (runs demo_acting) \<and> run_AttemptNo demo_run5 = 2 \<and> run_RecoveryCount demo_run5 = 0 \<and> run_ProposalRef demo_run5 \<noteq> None \<and>
   au_WorkerID demo_auth5 \<noteq> ''''"
proof -
  have mem: "(demo_run5, demo_auth5) \<in> set (runs (fst (demo_acting, empty_actions)))" by simp
  have "run_AttemptNo demo_run5 = 2" "active (run_State demo_run5)" "run_RecoveryCount demo_run5 = 0"
    by (simp_all add: demo_run5_def demo_run4_def demo_run3_def demo_run2_eq)
  with run_attempts_and_leases_are_bounded [OF demo_reach_acting mem] mem show ?thesis by (auto split: if_splits)
qed

section \<open>Permits and effects\<close>

text \<open>C16. Physical calls of an action are bounded. In every reachable state the two counters of an
  authorization are the numbers of permits that were given for it, at most four for writes and at
  most four for queries of the receipt; and an attempt of a Run never has two permits of a kind.\<close>

theorem action_calls_are_bounded:
  assumes "reachable_actions cfg ae s" and "z \<in> set (action_authorizations (snd s))"
  shows "az_WriteCount z = int (length (filter (\<lambda>c. ls_TenantID (al_Lease c) = az_TenantID z \<and> al_OperationID c = az_OperationID z \<and> al_Kind c = ''action_write'') (action_call_rows (snd s)))) \<and>
     az_QueryCount z = int (length (filter (\<lambda>c. ls_TenantID (al_Lease c) = az_TenantID z \<and> al_OperationID c = az_OperationID z \<and> al_Kind c = ''receipt_query'') (action_call_rows (snd s)))) \<and>
     az_WriteCount z \<le> 4 \<and> az_QueryCount z \<le> 4 \<and>
     (\<forall>c \<in> set (action_call_rows (snd s)). \<forall>c' \<in> set (action_call_rows (snd s)). ls_TenantID (al_Lease c) = ls_TenantID (al_Lease c') \<and>
       ls_RunID (al_Lease c) = ls_RunID (al_Lease c') \<and> ls_AttemptNo (al_Lease c) = ls_AttemptNo (al_Lease c') \<and> al_Kind c = al_Kind c' \<longrightarrow> c = c')"
proof -
  have p: "permits_inv (ae_business ae) (action_authorizations (snd s)) (action_call_rows (snd s))"
    using reachable_actions_inv [OF assms(1)] by (simp add: full_inv_def actions_inv_def)
  have "auth_ok (ae_business ae) (action_call_rows (snd s)) z" using p assms(2) by (simp add: permits_inv_def)
  moreover have "inj_on alSlot (set (action_call_rows (snd s)))" using p by (simp add: permits_inv_def distinct_map)
  ultimately show ?thesis by (auto simp: auth_ok_def permits_def count_where_def inj_on_def Let_def)
qed

theorem action_calls_are_bounded_witness:
  "length (filter (\<lambda>c. ls_TenantID (al_Lease c) = ''t1'' \<and> al_OperationID c = ''op1'' \<and> al_Kind c = ''action_write'') (action_call_rows (snd demo_completed))) = 1"
proof -
  have "demo_authrow\<lparr>az_WriteCount := 1\<rparr> \<in> set (action_authorizations (snd demo_completed))"
    by (simp add: demo_completed_def demo_effected_def demo_observed_def)
  from action_calls_are_bounded [OF demo_reach_completed this] show ?thesis by (simp add: demo_authrow_def)
qed

text \<open>C17. What was signed and what took effect is never taken back. Once a business request has a signed
  action it keeps that very action, whatever its effect is known to be; and once the effect of the
  action reads as applied, it reads the same, with the same receipt, source and time, after whatever
  the system does.\<close>

theorem effects_are_final:
  assumes "reachable_actions cfg ae s" and "readAction tenant b (snd s) = Some action" and "(full_step cfg ae)\<^sup>*\<^sup>* s s'"
  shows "readAction tenant b (snd s') = Some action \<and>
     (\<forall>effect. readEffect (ae_business ae) (Some action) (snd s) = Inr effect \<and> fv_State effect = ''applied'' \<longrightarrow>
       readEffect (ae_business ae) (Some action) (snd s') = Inr effect)"
proof (intro conjI allI impI)
  define env where "env = ae_business ae"
  have inv: "full_inv ae s" by (rule reachable_actions_inv [OF assms(1)])
  have inv': "full_inv ae s'" by (rule full_store.invariant_steps [OF inv assms(3)])
  have p: "permits_inv env (action_authorizations (snd s')) (action_call_rows (snd s'))" "views_inv env (action_authorizations (snd s')) (action_receipt_views (snd s'))"
    using inv' by (simp_all add: full_inv_def actions_inv_def env_def)
  have grow: "actions_grow (snd s) (snd s')" by (rule actions_grow_steps [OF assms(3) inv])
  from readAction_mem [OF assms(2)] obtain z where z: "z \<in> set (action_authorizations (snd s))" "azRequest z = (tenant, b)" "az_Action z = action" by blast
  with grow obtain z' where z': "z' \<in> set (action_authorizations (snd s'))" "azRequest z' = (tenant, b)" "az_Action z' = action"
    by (auto simp: actions_grow_def same_authorization_def)
  have "distinct (map azRequest (action_authorizations (snd s')))" using p(1) by (simp add: permits_inv_def)
  from find_row_Some_iff [OF this, of "(tenant, b)" z'] z' have act: "readAction tenant b (snd s') = Some action"
    by (simp add: readAction_def findAuthorization_def)
  then show "readAction tenant b (snd s') = Some action" .
  fix effect assume effect: "readEffect (ae_business ae) (Some action) (snd s) = Inr effect \<and> fv_State effect = ''applied''"
  define a where "a = sa_Authorization action"
  from effect obtain v where v: "find_row (viewKey a) (action_receipt_views (snd s)) = Some v"
    unfolding readEffect_def Let_def a_def by (auto split: option.splits)
  have "v \<in> set (action_receipt_views (snd s'))" "rvKey v = (aa_TenantID a, aa_OperationID a)" using grow find_row_SomeD [OF v] by (auto simp: actions_grow_def)
  moreover have "distinct (map rvKey (action_receipt_views (snd s')))" using p(2) by (simp add: views_inv_def)
  ultimately have "find_row (viewKey a) (action_receipt_views (snd s')) = Some v"
    using find_row_Some_iff [of rvKey "action_receipt_views (snd s')" "(aa_TenantID a, aa_OperationID a)" v] by simp
  with v effect show "readEffect (ae_business ae) (Some action) (snd s') = Inr effect" by (simp add: readEffect_def Let_def a_def)
qed

theorem effects_are_final_witness:
  "readAction ''t1'' ''q1'' (snd demo_asked) = Some demo_action2 \<and> (\<exists>effect. readEffect demo_benv (Some demo_action2) (snd demo_asked) = Inr effect \<and> fv_Receipt effect = Some demo_receipt2)"
proof -
  have "find_row (viewKey demo_authorization2) (action_receipt_views (snd demo_completed)) =
      Some \<lparr>rv_TenantID = ''t1'', rv_OperationID = ''op1'', rv_Receipt = demo_receipt2, rv_EffectVersion = 1, rv_Source = ''action_response'', rv_ObservedAt = Hour\<rparr>"
    by (simp add: demo_completed_def demo_effected_def demo_fields2)
  then obtain effect where effect: "readEffect demo_benv (Some demo_action2) (snd demo_completed) = Inr effect" "fv_State effect = ''applied''" "fv_Receipt effect = Some demo_receipt2"
    by (simp add: readEffect_def Let_def demo_fields2 demo_receipt2_valid)
  have "readAction ''t1'' ''q1'' (snd demo_completed) = Some demo_action2"
    by (simp add: demo_completed_def readAction_def demo_effected_authorization demo_authrow_def)
  moreover have env: "ae_business demo_ae = demo_benv" by (simp add: demo_ae_def)
  ultimately show ?thesis
    using effects_are_final [OF demo_reach_completed _ r_into_rtranclp [where r = "full_step demo_cfg demo_ae", OF demo_ask_step], of "''t1''" "''q1''" demo_action2] effect by auto
qed

text \<open>C28. Operators never flood the business store. In every reachable state two receipt queries of one
  tenant were permitted at least a second apart, in the order of the table, and the earlier one was
  finished or out of its ten seconds before the later one was permitted; queries have distinct
  identifiers and a tenant has one gate.\<close>

theorem receipt_queries_are_spaced:
  assumes "reachable_actions cfg ae s" and "i < j" and "j < length (action_receipt_queries (snd s))"
    and "q = action_receipt_queries (snd s) ! i" and "p = action_receipt_queries (snd s) ! j" and "qr_TenantID q = qr_TenantID p"
  shows "qr_ReservedAt q + Second \<le> qr_ReservedAt p \<and> (qr_FinishedAt q = None \<longrightarrow> qr_Deadline q \<le> qr_ReservedAt p) \<and> qr_ID q \<noteq> qr_ID p \<and>
     distinct (map qg_TenantID (tenant_receipt_query_gates (snd s)))"
proof -
  have inv: "queries_inv (tenant_receipt_query_gates (snd s)) (action_receipt_queries (snd s))"
    using reachable_actions_inv [OF assms(1)] by (simp add: full_inv_def actions_inv_def)
  have "spaced q p" using inv assms(2-5) by (auto simp: queries_inv_def sorted_wrt_iff_nth_less)
  moreover have "qr_ID q \<noteq> qr_ID p" using inv assms(2-5) by (auto simp: queries_inv_def distinct_conv_nth)
  ultimately show ?thesis using inv assms(6) by (simp add: spaced_def queries_inv_def)
qed

theorem receipt_queries_are_spaced_witness: "qr_Deadline (demo_query ''y1'' Hour) \<le> qr_ReservedAt (demo_query ''y2'' (Hour + 10 * Second))"
proof -
  have "action_receipt_queries (snd demo_asked2) = [demo_query ''y1'' Hour, demo_query ''y2'' (Hour + 10 * Second)]" by (simp add: demo_asked2_def)
  with receipt_queries_are_spaced [OF demo_reach_asked, of 0 1 "demo_query ''y1'' Hour" "demo_query ''y2'' (Hour + 10 * Second)"] show ?thesis
    by (simp add: demo_query_def)
qed

section \<open>The Run store and the business store\<close>

text \<open>C27. The receipt that the business store answers is accepted by the Run store and read back. When
  an action was applied by the business store, the Run store, which has no receipt of the operation
  yet, records the answered receipt, and the effect then reads as applied with that very receipt;
  recording it again changes nothing.\<close>

theorem receipt_round_trip:
  assumes "reachable_business env db" and "vector_text_faithful env"
    and "ApplyResolution env trusted tenant action now db = Inr (receipt, db')" and "UnixMicro now + retentionMicros \<le> actionSafeInteger"
    and "find_row (viewKey (sa_Authorization action)) (action_receipt_views t) = None"
  shows "\<exists>t' effect. saveEffect env action receipt source seen t = Inr t' \<and> readEffect env (Some action) t' = Inr effect \<and>
     fv_State effect = ''applied'' \<and> fv_Receipt effect = Some receipt \<and> fv_Source effect = Some source \<and>
     (\<forall>source2 seen2. saveEffect env action receipt source2 seen2 t' = Inr t')"
proof -
  have valid: "isOk (ReceiptValidate env receipt action)"
    using assms(3)
  proof (cases rule: ApplyResolution_cases)
    case (fresh authHash key ticket)
    then show ?thesis using fresh_receipt_valid [OF reachable_business_inv [OF assms(1)] assms(2) fresh(3,8,9,10) assms(4)] by simp
  qed simp
  note keys = ReceiptValidate_keys [OF valid]
  define v where "v = \<lparr>rv_TenantID = rt_TenantID receipt, rv_OperationID = rt_OperationID receipt, rv_Receipt = receipt, rv_EffectVersion = 1,
    rv_Source = source, rv_ObservedAt = seen\<rparr>"
  define t' where "t' = t\<lparr>action_receipt_views := action_receipt_views t @ [v]\<rparr>"
  have found: "find_row (viewKey (sa_Authorization action)) (action_receipt_views t') = Some v"
    using assms(5) keys by (simp add: t'_def find_row_append v_def)
  have "saveEffect env action receipt source seen t = Inr t'"
    using assms(5) valid keys by (simp add: saveEffect_def t'_def v_def)
  moreover have "\<forall>source2 seen2. saveEffect env action receipt source2 seen2 t' = Inr t'"
    using found valid keys by (simp add: saveEffect_def) (simp add: v_def)
  ultimately show ?thesis using found valid
    by (intro exI [of _ t']) (simp add: readEffect_def Let_def v_def)
qed

theorem receipt_round_trip_witness:
  "\<exists>t' effect. saveEffect demo_benv demo_action2 demo_receipt2 ''action_response'' Hour (snd demo_observed) = Inr t' \<and>
     readEffect demo_benv (Some demo_action2) t' = Inr effect \<and> fv_Receipt effect = Some demo_receipt2"
  using receipt_round_trip [OF demo_captured_reachable demo_faithful demo_write, of "snd demo_observed" "''action_response''" Hour]
  by (auto simp: UnixMicro_def retentionMicros_def actionSafeInteger_def demo_time)

end
