(* ===== verification/Spec2Isabelle.thy ===== *)
theory Spec2Isabelle
  imports TaskCatalog JobStoreProps RunProps BusinessProps RunActionProps
begin

text \<open>
  \<^bold>\<open>JobForge: a verification development.\<close>

  JobForge is a job queue with leased workers and, on top of the same ideas, a control plane for
  agent \<^emph>\<open>Runs\<close>. Everything it promises rests on transactions of a PostgreSQL store: a job
  or Run row, the lease that a worker holds on it under a fencing token, the counters that bound
  what runs and what is spent, and the records that make a repeated request harmless. This
  development models those transactions and the pure policy they apply, and proves what they keep.
  A third part, an isolated business database, holds the facts that Runs work on and executes the
  actions that people approved.

  \<^bold>\<open>How the model is built.\<close> A transaction is a function from a database to an error or
  an answer and the new database; an error is a rollback. A database is a record of tables, a table
  is a list of rows, and the statements of the code are \<open>find_row\<close>, \<open>filter\<close> and \<open>update_where\<close> on
  them (\<open>Prelude\<close>). What a transaction reads from outside is an argument: the clock at each place
  where the code reads it, generated identifiers, jitter, the rows that other transactions have
  locked, SHA-256, the parser of UUIDs. Go's \<open>int\<close> and \<open>int64\<close> are \<open>int\<close> with the bounds that the
  code checks; \<open>Backoff\<close>, where the arithmetic may wrap, is written with 64-bit words. Locks are
  not modelled: every transaction holds the row lock of the job or Run it changes, so the
  interleavings are sequences of whole transactions, and the theorems are about all of them.

  \<^bold>\<open>Jobs.\<close>
  \<^item> \<open>JobDomain\<close> (\<open>internal/domain/job.go\<close>): the job, its state machine, claim, heartbeat, completion,
    failure, cancellation, backoff, request hashes and result references.
  \<^item> \<open>TaskCatalog\<close> (\<open>internal/domain\<close>): the set of task types of a worker and its fingerprint.
  \<^item> \<open>JobStore\<close> (\<open>internal/store/postgres\<close>): enqueueing, the claim of a batch under the tenant quota,
    heartbeats, the ends of attempts, cancellation, promotion, recovery of expired leases, worker
    registration and capacity, leadership, quota repair, and the outbox rows they write.
    \<open>JobStoreInv\<close> and \<open>JobStoreSteps\<close> prove the invariants for each transaction and define the
    transition system; \<open>JobStoreProps\<close> holds the properties: one unfinished attempt per lease, exact
    quotas, refinement of the domain's state machine, fencing, idempotent finishing and submission,
    leadership epochs.

  \<^bold>\<open>Runs.\<close>
  \<^item> \<open>RunDomain\<close> (\<open>internal/run/model.go\<close>, \<open>policy.go\<close>): the Run, its authority, the lifecycle policy.
  \<^item> \<open>RunIdentity\<close> (\<open>identity.go\<close>, \<open>executor_version.go\<close>): fingerprints, request hashes, executors.
  \<^item> \<open>RunBudget\<close> (\<open>budget.go\<close>, \<open>ledger.go\<close>): accounts, prices, reservations, reports.
  \<^item> \<open>RunAudit\<close> (\<open>provider_audit*.go\<close>): what a provider's answer proves, and what its first report
    does to the batch.
  \<^item> \<open>RunStore\<close>, \<open>RunLedger\<close>, \<open>RunAdmission\<close>, \<open>RunCheckpoint\<close> (\<open>internal/run/postgres\<close>): sessions,
    claims, heartbeats, failures, stops, cancellation and the sweep; tools, calls, observations and
    settlements; budgets, profiles and admission; steps.
  \<^item> \<open>RunStoreInv\<close>, \<open>RunStoreSteps\<close>: slots and attempts (\<open>lifecycle_inv\<close>). \<open>RunLedgerInv\<close>,
    \<open>RunLedgerSteps\<close>: accounts and calls (\<open>ledger_inv\<close>). \<open>RunAdmissionInv\<close>: business requests and
    retries (\<open>admission_inv\<close>). \<open>RunCheckpointInv\<close>: steps (\<open>steps_inv\<close>). \<open>RunProgress\<close>: Run rows only
    move forward. \<open>RunSystem\<close>: the transition system of all transactions, in which the conjunction
    \<open>store_inv\<close> is inductive, and the fence: \<open>executes\<close> lists the twelve operations that need the
    current token; the late reports \<open>SettleUsage\<close> and \<open>ObserveActionCall\<close>, which the code accepts
    under an old lease, leave Runs, attempts, slots and steps alone, and \<open>GetAcceptedCommit\<close> only
    reads. \<open>RunAttempts\<close>: how many attempts a Run begins, with the approval that lets it go on, and
    that its active call is a recorded call of its current attempt. \<open>RunLiveness\<close>: a sweep of an
    overdue Run cannot fail halfway; its attempt, slots and active call follow from the invariants,
    its stored profile and pending step are the condition \<open>closable\<close>.
  \<^item> \<open>RunScenario\<close>, \<open>RunScenario2\<close>: a small deployment whose history is evaluated in the kernel.
    \<open>RunProps\<close>: the properties, each with a witness in that history.

  \<^bold>\<open>Approvals and actions of Runs.\<close>
  \<^item> \<open>RunAction\<close> (\<open>internal/run/action.go\<close>, \<open>postgres/approval.go\<close>, \<open>action.go\<close>, \<open>action_calls.go\<close>,
    \<open>action_recovery.go\<close>): the decision on a proposal, the signed authorization, the permits of its
    physical calls and their observation, the completion of the Run with a receipt, the queries for
    a receipt after the end and the recovered successor of a Run. The tables of actions are a record
    of their own and the transactions work on the pair with the Run database.
  \<^item> \<open>RunActionInv\<close>: these transactions keep the invariants of the Run store; they are steps of the
    system of \<open>RunSystem\<close>. \<open>RunActionSystem\<close>: the product of both groups of tables as one system, and
    what it keeps of authorizations, permits, receipts and queries (\<open>actions_inv\<close>).
    \<open>RunApprovals\<close>: across all transactions decided approvals stay, the operations of approvals
    carry the hash of the decision on record, and every authorization rests on an approval.
  \<^item> \<open>RunActionDemo\<close>: the history of the small deployment from the proposal over approval, signing,
    permit, write in the business store and observation to the completed Run, and two later queries.
    \<open>RunActionProps\<close>: nothing without approval, final decisions, bounded calls, lasting effects,
    spaced queries, and the receipt of the business store in the Run store.

  \<^bold>\<open>Business facts and actions.\<close>
  \<^item> \<open>BusinessContract\<close> (\<open>internal/business/action_contract.go\<close>, \<open>version_vector.go\<close>, \<open>contracts.go\<close>):
    facts, snapshots and their version vectors, signed authorizations, receipts.
  \<^item> \<open>BusinessStore\<close> (\<open>store.go\<close>, \<open>store_loader.go\<close>, \<open>action_store.go\<close>): import of datasets,
    publication of indexes, snapshots and evidence, readiness, the resolution of a ticket.
  \<^item> \<open>BusinessInv\<close>: the transition system; a captured revision of a ticket determines its contents,
    resolutions are unique, snapshots and receipts are only added. \<open>BusinessDemo\<close>: a small history
    evaluated in the kernel. \<open>BusinessProps\<close>: at most one execution with a lasting answer, execution
    only on the approved facts, what a signature binds, frozen evidence, readiness.

  \<^bold>\<open>Interfaces.\<close> \<open>Prelude\<close> states two contracts as locales: \<open>inductive_invariant\<close> (a start, a step
  and an invariant that the step keeps) and \<open>fenced_store\<close> (a token that never goes back and
  admission only under the current token), with the consequences for every reachable state and for
  every continuation. The job store and the Run store interpret both; the business store, the
  budget account, the product of Runs and actions, the recorded decisions, the link of
  authorizations to approvals and the bound on attempts interpret the first. \<open>RunProgress\<close> states
  the third, \<open>row_policy\<close>: a relation of old and new row that every operation of the lifecycle
  policy obeys, from which each transaction relates the tables of Runs row by row. It is interpreted
  twice, for progress (\<open>RunProgress\<close>) and for the pace of attempts (\<open>RunAttempts\<close>).

  \<^bold>\<open>Bounds and fuel.\<close> No definition uses fuel: the loops of the code run over rows, candidates or
  attempts and are structural recursions. The sweep and the claim bound their batches by their
  own limits. The bounds of the theorems are those of the code (at most 32 steps, five attempts of a Run: the first, three recoveries, one after an approval;
  four writes and four queries per action, 100 swept Runs, \<open>2^53 - 1\<close> for safe integers).

  \<^bold>\<open>Not modelled.\<close> The HTTP and gRPC transports, protobuf and the wire conversions, configuration,
  metrics and tracing, the command line, migrations and the SQL text itself; the loops of scheduler,
  publisher, consumer and worker processes around the transactions (timers, goroutines, sockets);
  the JSON formats of profiles, snapshots, proposals and step results, whose decoders and whose
  decision graph (\<open>DecideCommit\<close>) are arguments of the model with no assumption on them, as are
  the deployment's signing keys and the marshalled output of an action; the
  provider's chat barrier (\<open>checkBatchAuditGuard\<close>), a read-only check that is an argument too;
  read-only listings; content retention in the store; database roles, the similarity search over
  policy chunks (floating point) and the retry loop around serialization failures.

  \<^bold>\<open>Simplified.\<close> The shape checks of resolution claims (\<open>action_claims.go\<close>) are the argument
  \<open>be_claims\<close>; the base64 form and the lengths of keys and signatures are part of the argument
  \<open>be_verify\<close>, and \<open>SignAction\<close> takes its key as well formed. Leadership keeps the tests of epoch and
  instance but not the flag of the process that it holds the advisory lock. \<open>Enqueue\<close> is one step
  with the answer of its insert as an argument, \<open>finishAttempt\<close> reads one clock, and
  \<open>RepairQuotaCounters\<close> is one step although the code takes no lock on jobs. Updates of business
  facts are those that raise the revision, as the triggers demand; the deletion of facts by the
  owner of the database is not a step.
\<close>

end
